(* ===== verification/Prelude.thy ===== *)
theory Prelude
  imports Complex_Main "HOL-Library.Word"
begin

text \<open>
  Shared types, conversions and generic lemmas of the development.

  The C++ types are read as follows. \<open>uint8_t\<close>, \<open>uint16_t\<close>, \<open>uint32_t\<close> and \<open>uint64_t\<close> (and the
  64-bit \<open>size_t\<close> of the two build targets) are words of that width, whose arithmetic wraps.
  \<open>int\<close> and \<open>long long\<close> are \<^typ>\<open>int\<close>: their overflow is undefined in C++, so every
  place where the code can convert a wider value into one goes through \<open>to_i32\<close> or \<open>to_i64\<close>,
  which wrap as the compilers do. \<open>double\<close> and \<open>float\<close> are \<^typ>\<open>real\<close>: values are copied and
  compared exactly and rounding is not modelled. \<open>std::string\<close> is a list of \<^typ>\<open>char\<close> and
  a byte buffer a list of \<open>u8\<close>.
\<close>

unbundle bit_operations_syntax

section \<open>Types\<close>

type_synonym u8 = "8 word"
type_synonym u16 = "16 word"
type_synonym u32 = "32 word"
type_synonym u64 = "64 word"
type_synonym bytes = "u8 list"

named_theorems model_defs \<open>definitions of straight-line operations, unfolded by the component proofs\<close>
named_theorems wf_rules \<open>well-formedness invariants and the rules that preserve them\<close>

section \<open>Conversions between machine integers\<close>

text \<open>Conversion to a 32-bit and a 64-bit signed integer: two's complement, as gcc does it.\<close>

definition to_i32 :: "int \<Rightarrow> int" where
  "to_i32 n = sint (word_of_int n :: u32)"

definition to_i64 :: "int \<Rightarrow> int" where
  "to_i64 n = sint (word_of_int n :: u64)"

text \<open>
  Conversion of a \<open>double\<close> to \<open>uint64_t\<close> truncates towards zero. It is defined for values whose
  truncation fits; elsewhere C++ leaves it undefined, and the model wraps.
\<close>

definition trunc_real :: "real \<Rightarrow> int" where
  "trunc_real x = (if 0 \<le> x then \<lfloor>x\<rfloor> else \<lceil>x\<rceil>)"

definition u64_of_double :: "real \<Rightarrow> u64" where
  "u64_of_double x = word_of_int (trunc_real x)"

definition i64_of_double :: "real \<Rightarrow> int" where
  "i64_of_double x = to_i64 (trunc_real x)"

definition double_of_u64 :: "u64 \<Rightarrow> real" where
  "double_of_u64 w = real_of_int (uint w)"

lemma to_i32_id: "- (2 ^ 31) \<le> n \<Longrightarrow> n < 2 ^ 31 \<Longrightarrow> to_i32 n = n"
  by (simp add: to_i32_def signed_of_int signed_take_bit_int_eq_self)

lemma to_i64_id: "- (2 ^ 63) \<le> n \<Longrightarrow> n < 2 ^ 63 \<Longrightarrow> to_i64 n = n"
  by (simp add: to_i64_def signed_of_int signed_take_bit_int_eq_self)

lemma trunc_real_of_int [simp]: "trunc_real (real_of_int n) = n"
  by (simp add: trunc_real_def)

lemma u64_of_double_of_u64 [simp]: "u64_of_double (double_of_u64 w) = w"
  by (simp add: u64_of_double_def double_of_u64_def word_of_int_uint del: of_int_uint)

section \<open>Iteration of a loop body a fixed number of times\<close>

lemma funpow_2: "(f ^^ 2) x = f (f x)"
  by (simp add: numeral_2_eq_2)

lemma funpow_8: "(f ^^ 8) x = f (f (f (f (f (f (f (f x)))))))"
proof -
  have "(8::nat) = Suc (Suc (Suc (Suc (Suc (Suc (Suc (Suc 0)))))))" by simp
  then show ?thesis by (simp only: funpow.simps o_apply id_apply)
qed

lemma funpow_pres: "(\<And>x. P x \<Longrightarrow> P (f x)) \<Longrightarrow> P x \<Longrightarrow> P ((f ^^ n) x)"
  by (induction n) auto

section \<open>Lists\<close>

lemma take_drop_slice: "take n (drop m xs) @ drop (m + n) xs = drop m xs"
  by (metis append_take_drop_id drop_drop add.commute)

lemma nth_mod_in_range: "0 < n \<Longrightarrow> length xs = n \<Longrightarrow> xs ! (i mod n) \<in> set xs"
  by (simp add: nth_mem)

lemma filter_upt_nth: "map (nth xs) [i \<leftarrow> [0..<length xs]. P (xs ! i)] = filter P xs"
proof -
  have "map (nth xs) (filter (P \<circ> nth xs) [0..<length xs]) = filter P (map (nth xs) [0..<length xs])"
    by (simp add: filter_map)
  then show ?thesis by (simp add: map_nth comp_def)
qed

text \<open>\<open>find_index P xs\<close> is the loop \<open>for (i = 0; ...) if (P(xs[i])) { index = i; break; }\<close>.\<close>

fun find_index :: "('a \<Rightarrow> bool) \<Rightarrow> 'a list \<Rightarrow> nat option" where
  "find_index P [] = None"
| "find_index P (x # xs) = (if P x then Some 0 else map_option Suc (find_index P xs))"

lemma find_index_None [simp]: "find_index P xs = None \<longleftrightarrow> (\<forall>x \<in> set xs. \<not> P x)"
  by (induction xs) auto

lemma find_index_SomeD:
  "find_index P xs = Some i \<Longrightarrow> i < length xs \<and> P (xs ! i) \<and> (\<forall>j<i. \<not> P (xs ! j))"
proof (induction xs arbitrary: i)
  case (Cons x xs)
  then show ?case
    by (cases i) (auto split: if_splits simp: less_Suc_eq_0_disj)
qed simp

lemma find_index_SomeI:
  "i < length xs \<Longrightarrow> P (xs ! i) \<Longrightarrow> (\<And>j. j < i \<Longrightarrow> \<not> P (xs ! j)) \<Longrightarrow> find_index P xs = Some i"
proof (induction xs arbitrary: i)
  case (Cons x xs)
  show ?case
  proof (cases i)
    case 0
    with Cons.prems show ?thesis by simp
  next
    case (Suc k)
    have "\<not> P x" using Cons.prems(3)[of 0] Suc by simp
    moreover have "find_index P xs = Some k"
      using Cons.prems Suc by (intro Cons.IH) force+
    ultimately show ?thesis using Suc by simp
  qed
qed simp

end
