(* ===== verification/Crc.thy ===== *)
theory Crc
  imports Prelude
begin

text \<open>
  The checksums of \<open>common/CRC.cpp\<close>: the bitwise routines \<open>Crc8Cal\<close>, \<open>Crc16Cal\<close> and
  \<open>Crc32Cal\<close>, the eight 256-entry tables, copied digit by digit, and the fourteen table-driven
  variants. A \<open>(data, length)\<close> argument is the list of the \<open>length\<close> bytes at \<open>data\<close>.

  The lemmas show that every table is the bitwise step applied eight times to its index, so
  that the table-driven routines compute the bitwise checksum with the parameters of the comment
  above them (one of them, \<open>Crc16TabMAXIM\<close>, keeps its 16-bit remainder in a \<open>uint8_t\<close> and
  does not), and that the wire checksum \<open>Crc16TabCCITT\<close> tells apart any two messages that
  differ in one byte.
\<close>

section \<open>Bitwise routines\<close>

text \<open>The two bodies of the bit loop: \<open>msb\<close> is the mask of the most significant bit.\<close>

definition crc_shl :: "'a::len word \<Rightarrow> 'a word \<Rightarrow> 'a word \<Rightarrow> 'a word" where
  "crc_shl msb poly crc =
     (if crc AND msb \<noteq> 0 then push_bit 1 crc XOR poly else push_bit 1 crc)"

definition crc_shr :: "'a::len word \<Rightarrow> 'a word \<Rightarrow> 'a word" where
  "crc_shr poly crc =
     (if crc AND 1 \<noteq> 0 then drop_bit 1 crc XOR poly else drop_bit 1 crc)"

definition reflect8 :: "u8 \<Rightarrow> u8" where
  "reflect8 poly =
     (let poly = push_bit 1 (poly AND 0x55) OR drop_bit 1 (poly AND 0xAA);
          poly = push_bit 2 (poly AND 0x33) OR drop_bit 2 (poly AND 0xCC);
          poly = push_bit 4 (poly AND 0x0F) OR drop_bit 4 (poly AND 0xF0)
      in poly)"

definition reflect16 :: "u16 \<Rightarrow> u16" where
  "reflect16 poly =
     (let poly = push_bit 1 (poly AND 0x5555) OR drop_bit 1 (poly AND 0xAAAA);
          poly = push_bit 2 (poly AND 0x3333) OR drop_bit 2 (poly AND 0xCCCC);
          poly = push_bit 4 (poly AND 0x0F0F) OR drop_bit 4 (poly AND 0xF0F0);
          poly = push_bit 8 (poly AND 0x00FF) OR drop_bit 8 (poly AND 0xFF00)
      in poly)"

definition reflect32 :: "u32 \<Rightarrow> u32" where
  "reflect32 poly =
     (let poly = push_bit 1 (poly AND 0x55555555) OR drop_bit 1 (poly AND 0xAAAAAAAA);
          poly = push_bit 2 (poly AND 0x33333333) OR drop_bit 2 (poly AND 0xCCCCCCCC);
          poly = push_bit 4 (poly AND 0x0F0F0F0F) OR drop_bit 4 (poly AND 0xF0F0F0F0);
          poly = push_bit 8 (poly AND 0x00FF00FF) OR drop_bit 8 (poly AND 0xFF00FF00);
          poly = push_bit 16 (poly AND 0x0000FFFF) OR drop_bit 16 (poly AND 0xFFFF0000)
      in poly)"

definition Crc8Cal :: "bytes \<Rightarrow> u8 \<Rightarrow> u8 \<Rightarrow> u8 \<Rightarrow> u8 \<Rightarrow> u8" where
  "Crc8Cal data poly init xorout reversed =
     (let crc =
        (if reversed = 0
         then foldl (\<lambda>crc b. (crc_shl 0x80 poly ^^ 8) (crc XOR b)) init data
         else let poly = reflect8 poly
              in foldl (\<lambda>crc b. (crc_shr poly ^^ 8) (crc XOR b)) init data)
      in crc XOR xorout)"

definition Crc16Cal :: "bytes \<Rightarrow> u16 \<Rightarrow> u16 \<Rightarrow> u16 \<Rightarrow> u8 \<Rightarrow> u16" where
  "Crc16Cal data poly init xorout reversed =
     (let crc =
        (if reversed = 0
         then foldl (\<lambda>crc b. (crc_shl 0x8000 poly ^^ 8) (crc XOR push_bit 8 (ucast b))) init data
         else let poly = reflect16 poly
              in foldl (\<lambda>crc b. (crc_shr poly ^^ 8) (crc XOR ucast b)) init data)
      in crc XOR xorout)"

definition Crc32Cal :: "bytes \<Rightarrow> u32 \<Rightarrow> u32 \<Rightarrow> u32 \<Rightarrow> u8 \<Rightarrow> u32" where
  "Crc32Cal data poly init xorout reversed =
     (let crc =
        (if reversed = 0
         then foldl (\<lambda>crc b. (crc_shl 0x80000000 poly ^^ 8) (crc XOR push_bit 24 (ucast b))) init data
         else let poly = reflect32 poly
              in foldl (\<lambda>crc b. (crc_shr poly ^^ 8) (crc XOR ucast b)) init data)
      in crc XOR xorout)"

section \<open>Tables\<close>

definition CrcTab_Crc8Poly0x07Ref0 :: "u8 list" where
  "CrcTab_Crc8Poly0x07Ref0 = [
     0x00, 0x07, 0x0E, 0x09, 0x1C, 0x1B, 0x12, 0x15,
     0x38, 0x3F, 0x36, 0x31, 0x24, 0x23, 0x2A, 0x2D,
     0x70, 0x77, 0x7E, 0x79, 0x6C, 0x6B, 0x62, 0x65,
     0x48, 0x4F, 0x46, 0x41, 0x54, 0x53, 0x5A, 0x5D,
     0xE0, 0xE7, 0xEE, 0xE9, 0xFC, 0xFB, 0xF2, 0xF5,
     0xD8, 0xDF, 0xD6, 0xD1, 0xC4, 0xC3, 0xCA, 0xCD,
     0x90, 0x97, 0x9E, 0x99, 0x8C, 0x8B, 0x82, 0x85,
     0xA8, 0xAF, 0xA6, 0xA1, 0xB4, 0xB3, 0xBA, 0xBD,
     0xC7, 0xC0, 0xC9, 0xCE, 0xDB, 0xDC, 0xD5, 0xD2,
     0xFF, 0xF8, 0xF1, 0xF6, 0xE3, 0xE4, 0xED, 0xEA,
     0xB7, 0xB0, 0xB9, 0xBE, 0xAB, 0xAC, 0xA5, 0xA2,
     0x8F, 0x88, 0x81, 0x86, 0x93, 0x94, 0x9D, 0x9A,
     0x27, 0x20, 0x29, 0x2E, 0x3B, 0x3C, 0x35, 0x32,
     0x1F, 0x18, 0x11, 0x16, 0x03, 0x04, 0x0D, 0x0A,
     0x57, 0x50, 0x59, 0x5E, 0x4B, 0x4C, 0x45, 0x42,
     0x6F, 0x68, 0x61, 0x66, 0x73, 0x74, 0x7D, 0x7A,
     0x89, 0x8E, 0x87, 0x80, 0x95, 0x92, 0x9B, 0x9C,
     0xB1, 0xB6, 0xBF, 0xB8, 0xAD, 0xAA, 0xA3, 0xA4,
     0xF9, 0xFE, 0xF7, 0xF0, 0xE5, 0xE2, 0xEB, 0xEC,
     0xC1, 0xC6, 0xCF, 0xC8, 0xDD, 0xDA, 0xD3, 0xD4,
     0x69, 0x6E, 0x67, 0x60, 0x75, 0x72, 0x7B, 0x7C,
     0x51, 0x56, 0x5F, 0x58, 0x4D, 0x4A, 0x43, 0x44,
     0x19, 0x1E, 0x17, 0x10, 0x05, 0x02, 0x0B, 0x0C,
     0x21, 0x26, 0x2F, 0x28, 0x3D, 0x3A, 0x33, 0x34,
     0x4E, 0x49, 0x40, 0x47, 0x52, 0x55, 0x5C, 0x5B,
     0x76, 0x71, 0x78, 0x7F, 0x6A, 0x6D, 0x64, 0x63,
     0x3E, 0x39, 0x30, 0x37, 0x22, 0x25, 0x2C, 0x2B,
     0x06, 0x01, 0x08, 0x0F, 0x1A, 0x1D, 0x14, 0x13,
     0xAE, 0xA9, 0xA0, 0xA7, 0xB2, 0xB5, 0xBC, 0xBB,
     0x96, 0x91, 0x98, 0x9F, 0x8A, 0x8D, 0x84, 0x83,
     0xDE, 0xD9, 0xD0, 0xD7, 0xC2, 0xC5, 0xCC, 0xCB,
     0xE6, 0xE1, 0xE8, 0xEF, 0xFA, 0xFD, 0xF4, 0xF3]"

definition CrcTab_Crc8Poly0x07Ref1 :: "u8 list" where
  "CrcTab_Crc8Poly0x07Ref1 = [
     0x00, 0x91, 0xE3, 0x72, 0x07, 0x96, 0xE4, 0x75,
     0x0E, 0x9F, 0xED, 0x7C, 0x09, 0x98, 0xEA, 0x7B,
     0x1C, 0x8D, 0xFF, 0x6E, 0x1B, 0x8A, 0xF8, 0x69,
     0x12, 0x83, 0xF1, 0x60, 0x15, 0x84, 0xF6, 0x67,
     0x38, 0xA9, 0xDB, 0x4A, 0x3F, 0xAE, 0xDC, 0x4D,
     0x36, 0xA7, 0xD5, 0x44, 0x31, 0xA0, 0xD2, 0x43,
     0x24, 0xB5, 0xC7, 0x56, 0x23, 0xB2, 0xC0, 0x51,
     0x2A, 0xBB, 0xC9, 0x58, 0x2D, 0xBC, 0xCE, 0x5F,
     0x70, 0xE1, 0x93, 0x02, 0x77, 0xE6, 0x94, 0x05,
     0x7E, 0xEF, 0x9D, 0x0C, 0x79, 0xE8, 0x9A, 0x0B,
     0x6C, 0xFD, 0x8F, 0x1E, 0x6B, 0xFA, 0x88, 0x19,
     0x62, 0xF3, 0x81, 0x10, 0x65, 0xF4, 0x86, 0x17,
     0x48, 0xD9, 0xAB, 0x3A, 0x4F, 0xDE, 0xAC, 0x3D,
     0x46, 0xD7, 0xA5, 0x34, 0x41, 0xD0, 0xA2, 0x33,
     0x54, 0xC5, 0xB7, 0x26, 0x53, 0xC2, 0xB0, 0x21,
     0x5A, 0xCB, 0xB9, 0x28, 0x5D, 0xCC, 0xBE, 0x2F,
     0xE0, 0x71, 0x03, 0x92, 0xE7, 0x76, 0x04, 0x95,
     0xEE, 0x7F, 0x0D, 0x9C, 0xE9, 0x78, 0x0A, 0x9B,
     0xFC, 0x6D, 0x1F, 0x8E, 0xFB, 0x6A, 0x18, 0x89,
     0xF2, 0x63, 0x11, 0x80, 0xF5, 0x64, 0x16, 0x87,
     0xD8, 0x49, 0x3B, 0xAA, 0xDF, 0x4E, 0x3C, 0xAD,
     0xD6, 0x47, 0x35, 0xA4, 0xD1, 0x40, 0x32, 0xA3,
     0xC4, 0x55, 0x27, 0xB6, 0xC3, 0x52, 0x20, 0xB1,
     0xCA, 0x5B, 0x29, 0xB8, 0xCD, 0x5C, 0x2E, 0xBF,
     0x90, 0x01, 0x73, 0xE2, 0x97, 0x06, 0x74, 0xE5,
     0x9E, 0x0F, 0x7D, 0xEC, 0x99, 0x08, 0x7A, 0xEB,
     0x8C, 0x1D, 0x6F, 0xFE, 0x8B, 0x1A, 0x68, 0xF9,
     0x82, 0x13, 0x61, 0xF0, 0x85, 0x14, 0x66, 0xF7,
     0xA8, 0x39, 0x4B, 0xDA, 0xAF, 0x3E, 0x4C, 0xDD,
     0xA6, 0x37, 0x45, 0xD4, 0xA1, 0x30, 0x42, 0xD3,
     0xB4, 0x25, 0x57, 0xC6, 0xB3, 0x22, 0x50, 0xC1,
     0xBA, 0x2B, 0x59, 0xC8, 0xBD, 0x2C, 0x5E, 0xCF]"

definition CrcTab_Crc8Poly0x31Ref1 :: "u8 list" where
  "CrcTab_Crc8Poly0x31Ref1 = [
     0x00, 0x5E, 0xBC, 0xE2, 0x61, 0x3F, 0xDD, 0x83,
     0xC2, 0x9C, 0x7E, 0x20, 0xA3, 0xFD, 0x1F, 0x41,
     0x9D, 0xC3, 0x21, 0x7F, 0xFC, 0xA2, 0x40, 0x1E,
     0x5F, 0x01, 0xE3, 0xBD, 0x3E, 0x60, 0x82, 0xDC,
     0x23, 0x7D, 0x9F, 0xC1, 0x42, 0x1C, 0xFE, 0xA0,
     0xE1, 0xBF, 0x5D, 0x03, 0x80, 0xDE, 0x3C, 0x62,
     0xBE, 0xE0, 0x02, 0x5C, 0xDF, 0x81, 0x63, 0x3D,
     0x7C, 0x22, 0xC0, 0x9E, 0x1D, 0x43, 0xA1, 0xFF,
     0x46, 0x18, 0xFA, 0xA4, 0x27, 0x79, 0x9B, 0xC5,
     0x84, 0xDA, 0x38, 0x66, 0xE5, 0xBB, 0x59, 0x07,
     0xDB, 0x85, 0x67, 0x39, 0xBA, 0xE4, 0x06, 0x58,
     0x19, 0x47, 0xA5, 0xFB, 0x78, 0x26, 0xC4, 0x9A,
     0x65, 0x3B, 0xD9, 0x87, 0x04, 0x5A, 0xB8, 0xE6,
     0xA7, 0xF9, 0x1B, 0x45, 0xC6, 0x98, 0x7A, 0x24,
     0xF8, 0xA6, 0x44, 0x1A, 0x99, 0xC7, 0x25, 0x7B,
     0x3A, 0x64, 0x86, 0xD8, 0x5B, 0x05, 0xE7, 0xB9,
     0x8C, 0xD2, 0x30, 0x6E, 0xED, 0xB3, 0x51, 0x0F,
     0x4E, 0x10, 0xF2, 0xAC, 0x2F, 0x71, 0x93, 0xCD,
     0x11, 0x4F, 0xAD, 0xF3, 0x70, 0x2E, 0xCC, 0x92,
     0xD3, 0x8D, 0x6F, 0x31, 0xB2, 0xEC, 0x0E, 0x50,
     0xAF, 0xF1, 0x13, 0x4D, 0xCE, 0x90, 0x72, 0x2C,
     0x6D, 0x33, 0xD1, 0x8F, 0x0C, 0x52, 0xB0, 0xEE,
     0x32, 0x6C, 0x8E, 0xD0, 0x53, 0x0D, 0xEF, 0xB1,
     0xF0, 0xAE, 0x4C, 0x12, 0x91, 0xCF, 0x2D, 0x73,
     0xCA, 0x94, 0x76, 0x28, 0xAB, 0xF5, 0x17, 0x49,
     0x08, 0x56, 0xB4, 0xEA, 0x69, 0x37, 0xD5, 0x8B,
     0x57, 0x09, 0xEB, 0xB5, 0x36, 0x68, 0x8A, 0xD4,
     0x95, 0xCB, 0x29, 0x77, 0xF4, 0xAA, 0x48, 0x16,
     0xE9, 0xB7, 0x55, 0x0B, 0x88, 0xD6, 0x34, 0x6A,
     0x2B, 0x75, 0x97, 0xC9, 0x4A, 0x14, 0xF6, 0xA8,
     0x74, 0x2A, 0xC8, 0x96, 0x15, 0x4B, 0xA9, 0xF7,
     0xB6, 0xE8, 0x0A, 0x54, 0xD7, 0x89, 0x6B, 0x35]"

definition CrcTab_Crc16Poly0x8005Ref1 :: "u16 list" where
  "CrcTab_Crc16Poly0x8005Ref1 = [
     0x0000, 0xC0C1, 0xC181, 0x0140, 0xC301, 0x03C0, 0x0280, 0xC241,
     0xC601, 0x06C0, 0x0780, 0xC741, 0x0500, 0xC5C1, 0xC481, 0x0440,
     0xCC01, 0x0CC0, 0x0D80, 0xCD41, 0x0F00, 0xCFC1, 0xCE81, 0x0E40,
     0x0A00, 0xCAC1, 0xCB81, 0x0B40, 0xC901, 0x09C0, 0x0880, 0xC841,
     0xD801, 0x18C0, 0x1980, 0xD941, 0x1B00, 0xDBC1, 0xDA81, 0x1A40,
     0x1E00, 0xDEC1, 0xDF81, 0x1F40, 0xDD01, 0x1DC0, 0x1C80, 0xDC41,
     0x1400, 0xD4C1, 0xD581, 0x1540, 0xD701, 0x17C0, 0x1680, 0xD641,
     0xD201, 0x12C0, 0x1380, 0xD341, 0x1100, 0xD1C1, 0xD081, 0x1040,
     0xF001, 0x30C0, 0x3180, 0xF141, 0x3300, 0xF3C1, 0xF281, 0x3240,
     0x3600, 0xF6C1, 0xF781, 0x3740, 0xF501, 0x35C0, 0x3480, 0xF441,
     0x3C00, 0xFCC1, 0xFD81, 0x3D40, 0xFF01, 0x3FC0, 0x3E80, 0xFE41,
     0xFA01, 0x3AC0, 0x3B80, 0xFB41, 0x3900, 0xF9C1, 0xF881, 0x3840,
     0x2800, 0xE8C1, 0xE981, 0x2940, 0xEB01, 0x2BC0, 0x2A80, 0xEA41,
     0xEE01, 0x2EC0, 0x2F80, 0xEF41, 0x2D00, 0xEDC1, 0xEC81, 0x2C40,
     0xE401, 0x24C0, 0x2580, 0xE541, 0x2700, 0xE7C1, 0xE681, 0x2640,
     0x2200, 0xE2C1, 0xE381, 0x2340, 0xE101, 0x21C0, 0x2080, 0xE041,
     0xA001, 0x60C0, 0x6180, 0xA141, 0x6300, 0xA3C1, 0xA281, 0x6240,
     0x6600, 0xA6C1, 0xA781, 0x6740, 0xA501, 0x65C0, 0x6480, 0xA441,
     0x6C00, 0xACC1, 0xAD81, 0x6D40, 0xAF01, 0x6FC0, 0x6E80, 0xAE41,
     0xAA01, 0x6AC0, 0x6B80, 0xAB41, 0x6900, 0xA9C1, 0xA881, 0x6840,
     0x7800, 0xB8C1, 0xB981, 0x7940, 0xBB01, 0x7BC0, 0x7A80, 0xBA41,
     0xBE01, 0x7EC0, 0x7F80, 0xBF41, 0x7D00, 0xBDC1, 0xBC81, 0x7C40,
     0xB401, 0x74C0, 0x7580, 0xB541, 0x7700, 0xB7C1, 0xB681, 0x7640,
     0x7200, 0xB2C1, 0xB381, 0x7340, 0xB101, 0x71C0, 0x7080, 0xB041,
     0x5000, 0x90C1, 0x9181, 0x5140, 0x9301, 0x53C0, 0x5280, 0x9241,
     0x9601, 0x56C0, 0x5780, 0x9741, 0x5500, 0x95C1, 0x9481, 0x5440,
     0x9C01, 0x5CC0, 0x5D80, 0x9D41, 0x5F00, 0x9FC1, 0x9E81, 0x5E40,
     0x5A00, 0x9AC1, 0x9B81, 0x5B40, 0x9901, 0x59C0, 0x5880, 0x9841,
     0x8801, 0x48C0, 0x4980, 0x8941, 0x4B00, 0x8BC1, 0x8A81, 0x4A40,
     0x4E00, 0x8EC1, 0x8F81, 0x4F40, 0x8D01, 0x4DC0, 0x4C80, 0x8C41,
     0x4400, 0x84C1, 0x8581, 0x4540, 0x8701, 0x47C0, 0x4680, 0x8641,
     0x8201, 0x42C0, 0x4380, 0x8341, 0x4100, 0x81C1, 0x8081, 0x4040]"

definition CrcTab_Crc16Poly0x1021Ref0 :: "u16 list" where
  "CrcTab_Crc16Poly0x1021Ref0 = [
     0x0000, 0x1021, 0x2042, 0x3063, 0x4084, 0x50A5, 0x60C6, 0x70E7,
     0x8108, 0x9129, 0xA14A, 0xB16B, 0xC18C, 0xD1AD, 0xE1CE, 0xF1EF,
     0x1231, 0x0210, 0x3273, 0x2252, 0x52B5, 0x4294, 0x72F7, 0x62D6,
     0x9339, 0x8318, 0xB37B, 0xA35A, 0xD3BD, 0xC39C, 0xF3FF, 0xE3DE,
     0x2462, 0x3443, 0x0420, 0x1401, 0x64E6, 0x74C7, 0x44A4, 0x5485,
     0xA56A, 0xB54B, 0x8528, 0x9509, 0xE5EE, 0xF5CF, 0xC5AC, 0xD58D,
     0x3653, 0x2672, 0x1611, 0x0630, 0x76D7, 0x66F6, 0x5695, 0x46B4,
     0xB75B, 0xA77A, 0x9719, 0x8738, 0xF7DF, 0xE7FE, 0xD79D, 0xC7BC,
     0x48C4, 0x58E5, 0x6886, 0x78A7, 0x0840, 0x1861, 0x2802, 0x3823,
     0xC9CC, 0xD9ED, 0xE98E, 0xF9AF, 0x8948, 0x9969, 0xA90A, 0xB92B,
     0x5AF5, 0x4AD4, 0x7AB7, 0x6A96, 0x1A71, 0x0A50, 0x3A33, 0x2A12,
     0xDBFD, 0xCBDC, 0xFBBF, 0xEB9E, 0x9B79, 0x8B58, 0xBB3B, 0xAB1A,
     0x6CA6, 0x7C87, 0x4CE4, 0x5CC5, 0x2C22, 0x3C03, 0x0C60, 0x1C41,
     0xEDAE, 0xFD8F, 0xCDEC, 0xDDCD, 0xAD2A, 0xBD0B, 0x8D68, 0x9D49,
     0x7E97, 0x6EB6, 0x5ED5, 0x4EF4, 0x3E13, 0x2E32, 0x1E51, 0x0E70,
     0xFF9F, 0xEFBE, 0xDFDD, 0xCFFC, 0xBF1B, 0xAF3A, 0x9F59, 0x8F78,
     0x9188, 0x81A9, 0xB1CA, 0xA1EB, 0xD10C, 0xC12D, 0xF14E, 0xE16F,
     0x1080, 0x00A1, 0x30C2, 0x20E3, 0x5004, 0x4025, 0x7046, 0x6067,
     0x83B9, 0x9398, 0xA3FB, 0xB3DA, 0xC33D, 0xD31C, 0xE37F, 0xF35E,
     0x02B1, 0x1290, 0x22F3, 0x32D2, 0x4235, 0x5214, 0x6277, 0x7256,
     0xB5EA, 0xA5CB, 0x95A8, 0x8589, 0xF56E, 0xE54F, 0xD52C, 0xC50D,
     0x34E2, 0x24C3, 0x14A0, 0x0481, 0x7466, 0x6447, 0x5424, 0x4405,
     0xA7DB, 0xB7FA, 0x8799, 0x97B8, 0xE75F, 0xF77E, 0xC71D, 0xD73C,
     0x26D3, 0x36F2, 0x0691, 0x16B0, 0x6657, 0x7676, 0x4615, 0x5634,
     0xD94C, 0xC96D, 0xF90E, 0xE92F, 0x99C8, 0x89E9, 0xB98A, 0xA9AB,
     0x5844, 0x4865, 0x7806, 0x6827, 0x18C0, 0x08E1, 0x3882, 0x28A3,
     0xCB7D, 0xDB5C, 0xEB3F, 0xFB1E, 0x8BF9, 0x9BD8, 0xABBB, 0xBB9A,
     0x4A75, 0x5A54, 0x6A37, 0x7A16, 0x0AF1, 0x1AD0, 0x2AB3, 0x3A92,
     0xFD2E, 0xED0F, 0xDD6C, 0xCD4D, 0xBDAA, 0xAD8B, 0x9DE8, 0x8DC9,
     0x7C26, 0x6C07, 0x5C64, 0x4C45, 0x3CA2, 0x2C83, 0x1CE0, 0x0CC1,
     0xEF1F, 0xFF3E, 0xCF5D, 0xDF7C, 0xAF9B, 0xBFBA, 0x8FD9, 0x9FF8,
     0x6E17, 0x7E36, 0x4E55, 0x5E74, 0x2E93, 0x3EB2, 0x0ED1, 0x1EF0]"

definition CrcTab_Crc16Poly0x1021Ref1 :: "u16 list" where
  "CrcTab_Crc16Poly0x1021Ref1 = [
     0x0000, 0x1189, 0x2312, 0x329B, 0x4624, 0x57AD, 0x6536, 0x74BF,
     0x8C48, 0x9DC1, 0xAF5A, 0xBED3, 0xCA6C, 0xDBE5, 0xE97E, 0xF8F7,
     0x1081, 0x0108, 0x3393, 0x221A, 0x56A5, 0x472C, 0x75B7, 0x643E,
     0x9CC9, 0x8D40, 0xBFDB, 0xAE52, 0xDAED, 0xCB64, 0xF9FF, 0xE876,
     0x2102, 0x308B, 0x0210, 0x1399, 0x6726, 0x76AF, 0x4434, 0x55BD,
     0xAD4A, 0xBCC3, 0x8E58, 0x9FD1, 0xEB6E, 0xFAE7, 0xC87C, 0xD9F5,
     0x3183, 0x200A, 0x1291, 0x0318, 0x77A7, 0x662E, 0x54B5, 0x453C,
     0xBDCB, 0xAC42, 0x9ED9, 0x8F50, 0xFBEF, 0xEA66, 0xD8FD, 0xC974,
     0x4204, 0x538D, 0x6116, 0x709F, 0x0420, 0x15A9, 0x2732, 0x36BB,
     0xCE4C, 0xDFC5, 0xED5E, 0xFCD7, 0x8868, 0x99E1, 0xAB7A, 0xBAF3,
     0x5285, 0x430C, 0x7197, 0x601E, 0x14A1, 0x0528, 0x37B3, 0x263A,
     0xDECD, 0xCF44, 0xFDDF, 0xEC56, 0x98E9, 0x8960, 0xBBFB, 0xAA72,
     0x6306, 0x728F, 0x4014, 0x519D, 0x2522, 0x34AB, 0x0630, 0x17B9,
     0xEF4E, 0xFEC7, 0xCC5C, 0xDDD5, 0xA96A, 0xB8E3, 0x8A78, 0x9BF1,
     0x7387, 0x620E, 0x5095, 0x411C, 0x35A3, 0x242A, 0x16B1, 0x0738,
     0xFFCF, 0xEE46, 0xDCDD, 0xCD54, 0xB9EB, 0xA862, 0x9AF9, 0x8B70,
     0x8408, 0x9581, 0xA71A, 0xB693, 0xC22C, 0xD3A5, 0xE13E, 0xF0B7,
     0x0840, 0x19C9, 0x2B52, 0x3ADB, 0x4E64, 0x5FED, 0x6D76, 0x7CFF,
     0x9489, 0x8500, 0xB79B, 0xA612, 0xD2AD, 0xC324, 0xF1BF, 0xE036,
     0x18C1, 0x0948, 0x3BD3, 0x2A5A, 0x5EE5, 0x4F6C, 0x7DF7, 0x6C7E,
     0xA50A, 0xB483, 0x8618, 0x9791, 0xE32E, 0xF2A7, 0xC03C, 0xD1B5,
     0x2942, 0x38CB, 0x0A50, 0x1BD9, 0x6F66, 0x7EEF, 0x4C74, 0x5DFD,
     0xB58B, 0xA402, 0x9699, 0x8710, 0xF3AF, 0xE226, 0xD0BD, 0xC134,
     0x39C3, 0x284A, 0x1AD1, 0x0B58, 0x7FE7, 0x6E6E, 0x5CF5, 0x4D7C,
     0xC60C, 0xD785, 0xE51E, 0xF497, 0x8028, 0x91A1, 0xA33A, 0xB2B3,
     0x4A44, 0x5BCD, 0x6956, 0x78DF, 0x0C60, 0x1DE9, 0x2F72, 0x3EFB,
     0xD68D, 0xC704, 0xF59F, 0xE416, 0x90A9, 0x8120, 0xB3BB, 0xA232,
     0x5AC5, 0x4B4C, 0x79D7, 0x685E, 0x1CE1, 0x0D68, 0x3FF3, 0x2E7A,
     0xE70E, 0xF687, 0xC41C, 0xD595, 0xA12A, 0xB0A3, 0x8238, 0x93B1,
     0x6B46, 0x7ACF, 0x4854, 0x59DD, 0x2D62, 0x3CEB, 0x0E70, 0x1FF9,
     0xF78F, 0xE606, 0xD49D, 0xC514, 0xB1AB, 0xA022, 0x92B9, 0x8330,
     0x7BC7, 0x6A4E, 0x58D5, 0x495C, 0x3DE3, 0x2C6A, 0x1EF1, 0x0F78]"

definition CrcTab_Crc32Poly0x4C11DB7Ref0 :: "u32 list" where
  "CrcTab_Crc32Poly0x4C11DB7Ref0 = [
     0x00000000, 0x04C11DB7, 0x09823B6E, 0x0D4326D9, 0x130476DC, 0x17C56B6B, 0x1A864DB2, 0x1E475005,
     0x2608EDB8, 0x22C9F00F, 0x2F8AD6D6, 0x2B4BCB61, 0x350C9B64, 0x31CD86D3, 0x3C8EA00A, 0x384FBDBD,
     0x4C11DB70, 0x48D0C6C7, 0x4593E01E, 0x4152FDA9, 0x5F15ADAC, 0x5BD4B01B, 0x569796C2, 0x52568B75,
     0x6A1936C8, 0x6ED82B7F, 0x639B0DA6, 0x675A1011, 0x791D4014, 0x7DDC5DA3, 0x709F7B7A, 0x745E66CD,
     0x9823B6E0, 0x9CE2AB57, 0x91A18D8E, 0x95609039, 0x8B27C03C, 0x8FE6DD8B, 0x82A5FB52, 0x8664E6E5,
     0xBE2B5B58, 0xBAEA46EF, 0xB7A96036, 0xB3687D81, 0xAD2F2D84, 0xA9EE3033, 0xA4AD16EA, 0xA06C0B5D,
     0xD4326D90, 0xD0F37027, 0xDDB056FE, 0xD9714B49, 0xC7361B4C, 0xC3F706FB, 0xCEB42022, 0xCA753D95,
     0xF23A8028, 0xF6FB9D9F, 0xFBB8BB46, 0xFF79A6F1, 0xE13EF6F4, 0xE5FFEB43, 0xE8BCCD9A, 0xEC7DD02D,
     0x34867077, 0x30476DC0, 0x3D044B19, 0x39C556AE, 0x278206AB, 0x23431B1C, 0x2E003DC5, 0x2AC12072,
     0x128E9DCF, 0x164F8078, 0x1B0CA6A1, 0x1FCDBB16, 0x018AEB13, 0x054BF6A4, 0x0808D07D, 0x0CC9CDCA,
     0x7897AB07, 0x7C56B6B0, 0x71159069, 0x75D48DDE, 0x6B93DDDB, 0x6F52C06C, 0x6211E6B5, 0x66D0FB02,
     0x5E9F46BF, 0x5A5E5B08, 0x571D7DD1, 0x53DC6066, 0x4D9B3063, 0x495A2DD4, 0x44190B0D, 0x40D816BA,
     0xACA5C697, 0xA864DB20, 0xA527FDF9, 0xA1E6E04E, 0xBFA1B04B, 0xBB60ADFC, 0xB6238B25, 0xB2E29692,
     0x8AAD2B2F, 0x8E6C3698, 0x832F1041, 0x87EE0DF6, 0x99A95DF3, 0x9D684044, 0x902B669D, 0x94EA7B2A,
     0xE0B41DE7, 0xE4750050, 0xE9362689, 0xEDF73B3E, 0xF3B06B3B, 0xF771768C, 0xFA325055, 0xFEF34DE2,
     0xC6BCF05F, 0xC27DEDE8, 0xCF3ECB31, 0xCBFFD686, 0xD5B88683, 0xD1799B34, 0xDC3ABDED, 0xD8FBA05A,
     0x690CE0EE, 0x6DCDFD59, 0x608EDB80, 0x644FC637, 0x7A089632, 0x7EC98B85, 0x738AAD5C, 0x774BB0EB,
     0x4F040D56, 0x4BC510E1, 0x46863638, 0x42472B8F, 0x5C007B8A, 0x58C1663D, 0x558240E4, 0x51435D53,
     0x251D3B9E, 0x21DC2629, 0x2C9F00F0, 0x285E1D47, 0x36194D42, 0x32D850F5, 0x3F9B762C, 0x3B5A6B9B,
     0x0315D626, 0x07D4CB91, 0x0A97ED48, 0x0E56F0FF, 0x1011A0FA, 0x14D0BD4D, 0x19939B94, 0x1D528623,
     0xF12F560E, 0xF5EE4BB9, 0xF8AD6D60, 0xFC6C70D7, 0xE22B20D2, 0xE6EA3D65, 0xEBA91BBC, 0xEF68060B,
     0xD727BBB6, 0xD3E6A601, 0xDEA580D8, 0xDA649D6F, 0xC423CD6A, 0xC0E2D0DD, 0xCDA1F604, 0xC960EBB3,
     0xBD3E8D7E, 0xB9FF90C9, 0xB4BCB610, 0xB07DABA7, 0xAE3AFBA2, 0xAAFBE615, 0xA7B8C0CC, 0xA379DD7B,
     0x9B3660C6, 0x9FF77D71, 0x92B45BA8, 0x9675461F, 0x8832161A, 0x8CF30BAD, 0x81B02D74, 0x857130C3,
     0x5D8A9099, 0x594B8D2E, 0x5408ABF7, 0x50C9B640, 0x4E8EE645, 0x4A4FFBF2, 0x470CDD2B, 0x43CDC09C,
     0x7B827D21, 0x7F436096, 0x7200464F, 0x76C15BF8, 0x68860BFD, 0x6C47164A, 0x61043093, 0x65C52D24,
     0x119B4BE9, 0x155A565E, 0x18197087, 0x1CD86D30, 0x029F3D35, 0x065E2082, 0x0B1D065B, 0x0FDC1BEC,
     0x3793A651, 0x3352BBE6, 0x3E119D3F, 0x3AD08088, 0x2497D08D, 0x2056CD3A, 0x2D15EBE3, 0x29D4F654,
     0xC5A92679, 0xC1683BCE, 0xCC2B1D17, 0xC8EA00A0, 0xD6AD50A5, 0xD26C4D12, 0xDF2F6BCB, 0xDBEE767C,
     0xE3A1CBC1, 0xE760D676, 0xEA23F0AF, 0xEEE2ED18, 0xF0A5BD1D, 0xF464A0AA, 0xF9278673, 0xFDE69BC4,
     0x89B8FD09, 0x8D79E0BE, 0x803AC667, 0x84FBDBD0, 0x9ABC8BD5, 0x9E7D9662, 0x933EB0BB, 0x97FFAD0C,
     0xAFB010B1, 0xAB710D06, 0xA6322BDF, 0xA2F33668, 0xBCB4666D, 0xB8757BDA, 0xB5365D03, 0xB1F740B4]"

definition CrcTab_Crc32Poly0x4C11DB7Ref1 :: "u32 list" where
  "CrcTab_Crc32Poly0x4C11DB7Ref1 = [
     0x00000000, 0x77073096, 0xEE0E612C, 0x990951BA, 0x076DC419, 0x706AF48F, 0xE963A535, 0x9E6495A3,
     0x0EDB8832, 0x79DCB8A4, 0xE0D5E91E, 0x97D2D988, 0x09B64C2B, 0x7EB17CBD, 0xE7B82D07, 0x90BF1D91,
     0x1DB71064, 0x6AB020F2, 0xF3B97148, 0x84BE41DE, 0x1ADAD47D, 0x6DDDE4EB, 0xF4D4B551, 0x83D385C7,
     0x136C9856, 0x646BA8C0, 0xFD62F97A, 0x8A65C9EC, 0x14015C4F, 0x63066CD9, 0xFA0F3D63, 0x8D080DF5,
     0x3B6E20C8, 0x4C69105E, 0xD56041E4, 0xA2677172, 0x3C03E4D1, 0x4B04D447, 0xD20D85FD, 0xA50AB56B,
     0x35B5A8FA, 0x42B2986C, 0xDBBBC9D6, 0xACBCF940, 0x32D86CE3, 0x45DF5C75, 0xDCD60DCF, 0xABD13D59,
     0x26D930AC, 0x51DE003A, 0xC8D75180, 0xBFD06116, 0x21B4F4B5, 0x56B3C423, 0xCFBA9599, 0xB8BDA50F,
     0x2802B89E, 0x5F058808, 0xC60CD9B2, 0xB10BE924, 0x2F6F7C87, 0x58684C11, 0xC1611DAB, 0xB6662D3D,
     0x76DC4190, 0x01DB7106, 0x98D220BC, 0xEFD5102A, 0x71B18589, 0x06B6B51F, 0x9FBFE4A5, 0xE8B8D433,
     0x7807C9A2, 0x0F00F934, 0x9609A88E, 0xE10E9818, 0x7F6A0DBB, 0x086D3D2D, 0x91646C97, 0xE6635C01,
     0x6B6B51F4, 0x1C6C6162, 0x856530D8, 0xF262004E, 0x6C0695ED, 0x1B01A57B, 0x8208F4C1, 0xF50FC457,
     0x65B0D9C6, 0x12B7E950, 0x8BBEB8EA, 0xFCB9887C, 0x62DD1DDF, 0x15DA2D49, 0x8CD37CF3, 0xFBD44C65,
     0x4DB26158, 0x3AB551CE, 0xA3BC0074, 0xD4BB30E2, 0x4ADFA541, 0x3DD895D7, 0xA4D1C46D, 0xD3D6F4FB,
     0x4369E96A, 0x346ED9FC, 0xAD678846, 0xDA60B8D0, 0x44042D73, 0x33031DE5, 0xAA0A4C5F, 0xDD0D7CC9,
     0x5005713C, 0x270241AA, 0xBE0B1010, 0xC90C2086, 0x5768B525, 0x206F85B3, 0xB966D409, 0xCE61E49F,
     0x5EDEF90E, 0x29D9C998, 0xB0D09822, 0xC7D7A8B4, 0x59B33D17, 0x2EB40D81, 0xB7BD5C3B, 0xC0BA6CAD,
     0xEDB88320, 0x9ABFB3B6, 0x03B6E20C, 0x74B1D29A, 0xEAD54739, 0x9DD277AF, 0x04DB2615, 0x73DC1683,
     0xE3630B12, 0x94643B84, 0x0D6D6A3E, 0x7A6A5AA8, 0xE40ECF0B, 0x9309FF9D, 0x0A00AE27, 0x7D079EB1,
     0xF00F9344, 0x8708A3D2, 0x1E01F268, 0x6906C2FE, 0xF762575D, 0x806567CB, 0x196C3671, 0x6E6B06E7,
     0xFED41B76, 0x89D32BE0, 0x10DA7A5A, 0x67DD4ACC, 0xF9B9DF6F, 0x8EBEEFF9, 0x17B7BE43, 0x60B08ED5,
     0xD6D6A3E8, 0xA1D1937E, 0x38D8C2C4, 0x4FDFF252, 0xD1BB67F1, 0xA6BC5767, 0x3FB506DD, 0x48B2364B,
     0xD80D2BDA, 0xAF0A1B4C, 0x36034AF6, 0x41047A60, 0xDF60EFC3, 0xA867DF55, 0x316E8EEF, 0x4669BE79,
     0xCB61B38C, 0xBC66831A, 0x256FD2A0, 0x5268E236, 0xCC0C7795, 0xBB0B4703, 0x220216B9, 0x5505262F,
     0xC5BA3BBE, 0xB2BD0B28, 0x2BB45A92, 0x5CB36A04, 0xC2D7FFA7, 0xB5D0CF31, 0x2CD99E8B, 0x5BDEAE1D,
     0x9B64C2B0, 0xEC63F226, 0x756AA39C, 0x026D930A, 0x9C0906A9, 0xEB0E363F, 0x72076785, 0x05005713,
     0x95BF4A82, 0xE2B87A14, 0x7BB12BAE, 0x0CB61B38, 0x92D28E9B, 0xE5D5BE0D, 0x7CDCEFB7, 0x0BDBDF21,
     0x86D3D2D4, 0xF1D4E242, 0x68DDB3F8, 0x1FDA836E, 0x81BE16CD, 0xF6B9265B, 0x6FB077E1, 0x18B74777,
     0x88085AE6, 0xFF0F6A70, 0x66063BCA, 0x11010B5C, 0x8F659EFF, 0xF862AE69, 0x616BFFD3, 0x166CCF45,
     0xA00AE278, 0xD70DD2EE, 0x4E048354, 0x3903B3C2, 0xA7672661, 0xD06016F7, 0x4969474D, 0x3E6E77DB,
     0xAED16A4A, 0xD9D65ADC, 0x40DF0B66, 0x37D83BF0, 0xA9BCAE53, 0xDEBB9EC5, 0x47B2CF7F, 0x30B5FFE9,
     0xBDBDF21C, 0xCABAC28A, 0x53B39330, 0x24B4A3A6, 0xBAD03605, 0xCDD70693, 0x54DE5729, 0x23D967BF,
     0xB3667A2E, 0xC4614AB8, 0x5D681B02, 0x2A6F2B94, 0xB40BBE37, 0xC30C8EA1, 0x5A05DF1B, 0x2D02EF8D]"

section \<open>Table-driven routines\<close>

definition Crc8Tab :: "bytes \<Rightarrow> u8" where
  "Crc8Tab data = foldl (\<lambda>crc b. CrcTab_Crc8Poly0x07Ref0 ! unat (crc XOR b)) 0x00 data"

definition Crc8TabITU :: "bytes \<Rightarrow> u8" where
  "Crc8TabITU data =
     foldl (\<lambda>crc b. CrcTab_Crc8Poly0x07Ref0 ! unat (crc XOR b)) 0x00 data XOR 0x55"

definition Crc8TabROHC :: "bytes \<Rightarrow> u8" where
  "Crc8TabROHC data = foldl (\<lambda>crc b. CrcTab_Crc8Poly0x07Ref1 ! unat (crc XOR b)) 0xFF data"

definition Crc8TabMAXIM :: "bytes \<Rightarrow> u8" where
  "Crc8TabMAXIM data = foldl (\<lambda>crc b. CrcTab_Crc8Poly0x31Ref1 ! unat (crc XOR b)) 0x00 data"

text \<open>The loop body of the reflected 16-bit routines: \<open>&\<close> binds tighter than \<open>^\<close>.\<close>

definition tab16_r :: "u16 list \<Rightarrow> u16 \<Rightarrow> u8 \<Rightarrow> u16" where
  "tab16_r tab crc b = drop_bit 8 crc XOR tab ! unat ((crc AND 0xFF) XOR ucast b)"

definition tab16_l :: "u16 list \<Rightarrow> u16 \<Rightarrow> u8 \<Rightarrow> u16" where
  "tab16_l tab crc b = push_bit 8 crc XOR tab ! unat (drop_bit 8 crc XOR ucast b)"

definition Crc16TabIBM :: "bytes \<Rightarrow> u16" where
  "Crc16TabIBM data = foldl (tab16_r CrcTab_Crc16Poly0x8005Ref1) 0x0000 data"

text \<open>
  The remainder of \<open>Crc16TabMAXIM\<close> is declared \<open>uint8_t\<close>, so each step and the final
  exclusive or truncate to eight bits.
\<close>

definition Crc16TabMAXIM :: "bytes \<Rightarrow> u16" where
  "Crc16TabMAXIM data =
     (let crc = foldl (\<lambda>crc b. ucast (tab16_r CrcTab_Crc16Poly0x8005Ref1 (ucast (crc :: u8)) b) :: u8)
                  0x00 data;
          crc = ucast ((ucast crc :: u16) XOR 0xFFFF) :: u8
      in ucast crc)"

definition Crc16TabUSB :: "bytes \<Rightarrow> u16" where
  "Crc16TabUSB data = foldl (tab16_r CrcTab_Crc16Poly0x8005Ref1) 0xFFFF data XOR 0xFFFF"

definition Crc16TabMODBUS :: "bytes \<Rightarrow> u16" where
  "Crc16TabMODBUS data = foldl (tab16_r CrcTab_Crc16Poly0x8005Ref1) 0xFFFF data"

definition Crc16TabCCITT :: "bytes \<Rightarrow> u16" where
  "Crc16TabCCITT data = foldl (tab16_r CrcTab_Crc16Poly0x1021Ref1) 0x0000 data"

definition Crc16TabCCITTFALSE :: "bytes \<Rightarrow> u16" where
  "Crc16TabCCITTFALSE data = foldl (tab16_l CrcTab_Crc16Poly0x1021Ref0) 0xFFFF data"

definition Crc16TabX25 :: "bytes \<Rightarrow> u16" where
  "Crc16TabX25 data = foldl (tab16_r CrcTab_Crc16Poly0x1021Ref1) 0xFFFF data XOR 0xFFFF"

definition Crc16TabXMODEM :: "bytes \<Rightarrow> u16" where
  "Crc16TabXMODEM data = foldl (tab16_l CrcTab_Crc16Poly0x1021Ref0) 0x0000 data"

definition Crc32Tab :: "bytes \<Rightarrow> u32" where
  "Crc32Tab data =
     foldl (\<lambda>crc b. drop_bit 8 crc XOR
              CrcTab_Crc32Poly0x4C11DB7Ref1 ! unat ((crc AND 0xFF) XOR ucast b)) 0xFFFFFFFF data
     XOR 0xFFFFFFFF"

definition Crc32TabMPEG2 :: "bytes \<Rightarrow> u32" where
  "Crc32TabMPEG2 data =
     foldl (\<lambda>crc b. push_bit 8 crc XOR
              CrcTab_Crc32Poly0x4C11DB7Ref0 ! unat (drop_bit 24 crc XOR ucast b)) 0xFFFFFFFF data"

section \<open>The bit loop is linear and injective\<close>

lemma and_one_bit: "crc AND 1 \<noteq> 0 \<longleftrightarrow> bit crc 0" for crc :: "'a::len word"
  by (metis bit_iff_and_push_bit_not_eq_0 push_bit_0_id id_apply)

lemma crc_shr_bit: "crc_shr p x = drop_bit 1 x XOR (if bit x 0 then p else 0)"
  by (simp add: crc_shr_def and_one_bit)

lemma crc_shl_bit:
  "crc_shl (2 ^ k) p x = push_bit 1 x XOR (if bit x k then p else 0)"
proof -
  have "(x AND 2 ^ k \<noteq> 0) = bit x k"
    using bit_iff_and_push_bit_not_eq_0[of x k] by simp
  then show ?thesis by (simp add: crc_shl_def)
qed

lemma xor_swap: "(a XOR b) XOR (c XOR d) = (a XOR c) XOR (b XOR d)" for a :: "'a::len word"
  by (simp add: xor.left_commute xor.commute xor.assoc)

lemma crc_shr_xor: "crc_shr p (x XOR y) = crc_shr p x XOR crc_shr p y"
  by (simp add: crc_shr_bit drop_bit_xor bit_xor_iff xor.left_commute xor.commute xor.assoc)

lemma crc_shl_xor:
  "crc_shl (2 ^ k) p (x XOR y) = crc_shl (2 ^ k) p x XOR crc_shl (2 ^ k) p y"
  unfolding crc_shl_bit push_bit_xor xor_swap[of "push_bit 1 x"]
  by (simp only: bit_xor_iff) auto

lemma funpow_xor:
  "(\<And>x y. f (x XOR y) = f x XOR f y) \<Longrightarrow> (f ^^ n) (x XOR y) = (f ^^ n) x XOR (f ^^ n) y"
  for f :: "'a::len word \<Rightarrow> 'a word"
  by (induction n) auto

lemmas crc_shr_pow_xor = funpow_xor [of "crc_shr p" for p, OF crc_shr_xor]
lemmas crc_shl_pow_xor = funpow_xor [of "crc_shl (2 ^ k) p" for k p, OF crc_shl_xor]

text \<open>Low bits that are zero are shifted out, and high bits that are zero shifted up.\<close>

lemma crc_shr_pow_low:
  "take_bit n x = 0 \<Longrightarrow> (crc_shr p ^^ n) x = drop_bit n x" for x :: "'a::len word"
proof (induction n)
  case (Suc n)
  have z: "\<And>i. i < Suc n \<Longrightarrow> \<not> bit x i"
    using Suc.prems by (metis bit_0_eq bit_take_bit_iff bot_apply bot_bool_def)
  then have "take_bit n x = 0" by (intro bit_eqI) (auto simp: bit_take_bit_iff)
  then have "(crc_shr p ^^ Suc n) x = crc_shr p (drop_bit n x)"
    using Suc.IH by simp
  also have "\<dots> = drop_bit 1 (drop_bit n x)"
    using z[of n] by (simp add: crc_shr_bit bit_drop_bit_eq)
  finally show ?case by (simp add: add.commute)
qed simp

lemma crc_shl_pow_high:
  fixes x :: "'a::len word"
  assumes "n \<le> LENGTH('a)" and "\<And>i. LENGTH('a) - n \<le> i \<Longrightarrow> \<not> bit x i"
  shows "(crc_shl (2 ^ (LENGTH('a) - 1)) p ^^ n) x = push_bit n x"
  using assms
proof (induction n)
  case (Suc n)
  have "(crc_shl (2 ^ (LENGTH('a) - 1)) p ^^ n) x = push_bit n x"
    using Suc by simp
  moreover have "\<not> bit (push_bit n x) (LENGTH('a) - 1)"
    using Suc.prems(1) Suc.prems(2)[of "LENGTH('a) - Suc n"] by (simp add: bit_push_bit_iff)
  ultimately have "(crc_shl (2 ^ (LENGTH('a) - 1)) p ^^ Suc n) x = push_bit 1 (push_bit n x)"
    by (simp only: funpow.simps o_apply crc_shl_bit) simp
  then show ?case by (simp only: push_bit_push_bit plus_1_eq_Suc)
qed simp

lemma xor_split:
  "crc XOR b = (crc AND NOT m) XOR ((crc AND m) XOR b)" for crc :: "'a::len word"
  by (intro bit_eqI) (auto simp: bit_simps)

lemma crc_shr_byte:
  "(crc_shr p ^^ 8) (crc XOR b) = drop_bit 8 crc XOR (crc_shr p ^^ 8) ((crc AND mask 8) XOR b)"
  for crc :: "'a::len word"
proof -
  have "take_bit 8 (crc AND NOT (mask 8)) = 0"
    by (intro bit_eqI) (auto simp: bit_simps)
  then have "(crc_shr p ^^ 8) (crc AND NOT (mask 8)) = drop_bit 8 (crc AND NOT (mask 8))"
    by (rule crc_shr_pow_low)
  also have "\<dots> = drop_bit 8 crc"
    by (intro bit_eqI) (auto simp: bit_simps dest: bit_imp_le_length)
  finally show ?thesis
    by (subst xor_split[of crc b "mask 8"]) (simp add: crc_shr_pow_xor)
qed

lemma crc_shl_byte:
  fixes crc :: "'a::len word"
  assumes "8 \<le> LENGTH('a)"
  shows "(crc_shl (2 ^ (LENGTH('a) - 1)) p ^^ 8) (crc XOR push_bit (LENGTH('a) - 8) b) =
     push_bit 8 crc XOR
       (crc_shl (2 ^ (LENGTH('a) - 1)) p ^^ 8)
          (push_bit (LENGTH('a) - 8) (drop_bit (LENGTH('a) - 8) crc XOR b))"
proof -
  let ?m = "push_bit (LENGTH('a) - 8) (mask 8) :: 'a word"
  have "(crc_shl (2 ^ (LENGTH('a) - 1)) p ^^ 8) (crc AND NOT ?m) = push_bit 8 (crc AND NOT ?m)"
    using assms by (intro crc_shl_pow_high) (auto simp: bit_simps dest: bit_imp_le_length)
  also have "\<dots> = push_bit 8 crc"
    using assms by (intro bit_eqI) (auto simp: bit_simps)
  finally have hi: "(crc_shl (2 ^ (LENGTH('a) - 1)) p ^^ 8) (crc AND NOT ?m) = push_bit 8 crc" .
  have "(crc AND ?m) XOR push_bit (LENGTH('a) - 8) b =
      push_bit (LENGTH('a) - 8) (drop_bit (LENGTH('a) - 8) crc XOR b)"
    using assms by (intro bit_word_eqI) (auto simp: bit_simps)
  with hi show ?thesis
    by (subst xor_split[of crc _ ?m]) (simp add: crc_shl_pow_xor)
qed

lemma xor_cancel: "a XOR p = b XOR p \<Longrightarrow> a = b" for a :: "'a::len word"
proof -
  assume "a XOR p = b XOR p"
  then have "(a XOR p) XOR p = (b XOR p) XOR p" by (rule arg_cong)
  then show ?thesis by (simp only: xor.assoc xor_self_eq xor.right_neutral)
qed

lemma crc_shr_inj:
  fixes x :: "'a::len word"
  assumes "bit p (LENGTH('a) - 1)" and eq: "crc_shr p x = crc_shr p y"
  shows "x = y"
proof -
  have top: "bit (crc_shr p z) (LENGTH('a) - 1) = bit z 0" for z :: "'a word"
    using assms(1) by (auto simp: crc_shr_bit bit_simps dest: bit_imp_le_length)
  have b0: "bit x 0 = bit y 0" using top[of x] top[of y] eq by simp
  have d: "drop_bit 1 x = drop_bit 1 y"
    using eq unfolding crc_shr_bit b0 by (rule xor_cancel)
  show ?thesis
  proof (rule bit_word_eqI)
    fix n show "bit x n = bit y n"
      using b0 arg_cong[OF d, of "\<lambda>z. bit z (n - 1)"] by (cases n) (auto simp: bit_simps)
  qed
qed

lemma crc_shr_pow_inj:
  fixes x :: "'a::len word"
  shows "bit p (LENGTH('a) - 1) \<Longrightarrow> (crc_shr p ^^ n) x = (crc_shr p ^^ n) y \<Longrightarrow> x = y"
proof (induction n)
  case (Suc n)
  have "(crc_shr p ^^ n) x = (crc_shr p ^^ n) y"
    using Suc.prems(2) by - (rule crc_shr_inj[OF Suc.prems(1)], simp)
  then show ?case by (rule Suc.IH[OF Suc.prems(1)])
qed simp

section \<open>Every table holds the bitwise step of its index\<close>

text \<open>
  \<open>xor_table t bs\<close> doubles \<open>t\<close> once per element of \<open>bs\<close>. By linearity a table is determined
  by its entries at the powers of two.
\<close>

fun xor_table :: "'a::len word list \<Rightarrow> 'a word list \<Rightarrow> 'a word list" where
  "xor_table t [] = t"
| "xor_table t (b # bs) = xor_table (t @ map (\<lambda>x. x XOR b) t) bs"

lemma xor_table_map:
  "(\<And>x y. f (x XOR y) = f x XOR f y) \<Longrightarrow> xor_table (map f t) (map f bs) = map f (xor_table t bs)"
proof (induction bs arbitrary: t)
  case (Cons b bs)
  have "map f t @ map (\<lambda>x. x XOR f b) (map f t) = map f (t @ map (\<lambda>x. x XOR b) t)"
    using Cons.prems by simp
  then show ?case using Cons.IH[OF Cons.prems, of "t @ map (\<lambda>x. x XOR b) t"] by (simp del: map_append map_map)
qed simp

lemma xor_linear_0: "(\<And>x y. f (x XOR y) = f x XOR f y) \<Longrightarrow> f 0 = 0"
  for f :: "'a::len word \<Rightarrow> 'b::len word"
  by (metis xor_self_eq)

lemma upt_256: "[0..<256] = 0 # 1 # [2..<256]"
  by (simp add: upt_conv_Cons numeral_2_eq_2)

lemma index_table8: "xor_table [0] [1, 2, 4, 8, 16, 32, 64, 128 :: u8] = map word_of_nat [0..<256]"
  by (simp add: upt_256 upt_rec_numeral)

lemma index_table16: "xor_table [0] [1, 2, 4, 8, 16, 32, 64, 128 :: u16] = map word_of_nat [0..<256]"
  by (simp add: upt_256 upt_rec_numeral)

lemma index_table32: "xor_table [0] [1, 2, 4, 8, 16, 32, 64, 128 :: u32] = map word_of_nat [0..<256]"
  by (simp add: upt_256 upt_rec_numeral)

lemma xor_table_nth:
  fixes f :: "'a::len word \<Rightarrow> 'a word"
  assumes lin: "\<And>x y. f (x XOR y) = f x XOR f y"
    and tab: "tab = xor_table [0] (map f [1, 2, 4, 8, 16, 32, 64, 128])"
    and idx: "xor_table [0] [1, 2, 4, 8, 16, 32, 64, 128 :: 'a word] = map word_of_nat [0..<256]"
    and "unat x < 256"
  shows "tab ! unat x = f x"
proof -
  have "tab = xor_table (map f [0]) (map f [1, 2, 4, 8, 16, 32, 64, 128])"
    using tab xor_linear_0[of f, OF lin] by simp
  also have "\<dots> = map f (map word_of_nat [0..<256])"
    unfolding xor_table_map[of f, OF lin] idx ..
  finally show ?thesis using assms(4) by simp
qed

lemma CrcTab_Crc8Poly0x07Ref0_basis:
  "CrcTab_Crc8Poly0x07Ref0 = xor_table [0] [0x7, 0xE, 0x1C, 0x38, 0x70, 0xE0, 0xC7, 0x89]"
  by (simp add: CrcTab_Crc8Poly0x07Ref0_def)

lemma CrcTab_Crc8Poly0x07Ref0_steps:
  "map (\<lambda>i. (crc_shl (2 ^ 7) (0x7 :: u8) ^^ 8) (push_bit 0 i)) [1, 2, 4, 8, 16, 32, 64, 128] =
     [0x7, 0xE, 0x1C, 0x38, 0x70, 0xE0, 0xC7, 0x89]"
  by (simp add: funpow_8 crc_shl_def)

lemma CrcTab_Crc8Poly0x07Ref0_nth:
  "unat x < 256 \<Longrightarrow> CrcTab_Crc8Poly0x07Ref0 ! unat x = (\<lambda>i. (crc_shl (2 ^ 7) (0x7 :: u8) ^^ 8) (push_bit 0 i)) x"
  by (rule xor_table_nth [OF _ _ index_table8])
    (simp_all only: CrcTab_Crc8Poly0x07Ref0_steps CrcTab_Crc8Poly0x07Ref0_basis crc_shl_pow_xor push_bit_xor)

lemma CrcTab_Crc8Poly0x07Ref1_basis:
  "CrcTab_Crc8Poly0x07Ref1 = xor_table [0] [0x91, 0xE3, 0x7, 0xE, 0x1C, 0x38, 0x70, 0xE0]"
  by (simp add: CrcTab_Crc8Poly0x07Ref1_def)

lemma CrcTab_Crc8Poly0x07Ref1_steps:
  "map (crc_shr (0xE0 :: u8) ^^ 8) [1, 2, 4, 8, 16, 32, 64, 128] =
     [0x91, 0xE3, 0x7, 0xE, 0x1C, 0x38, 0x70, 0xE0]"
  by (simp add: funpow_8 crc_shr_def)

lemma CrcTab_Crc8Poly0x07Ref1_nth:
  "unat x < 256 \<Longrightarrow> CrcTab_Crc8Poly0x07Ref1 ! unat x = (crc_shr (0xE0 :: u8) ^^ 8) x"
  by (rule xor_table_nth [OF _ _ index_table8])
    (simp_all only: CrcTab_Crc8Poly0x07Ref1_steps CrcTab_Crc8Poly0x07Ref1_basis crc_shr_pow_xor push_bit_xor)

lemma CrcTab_Crc8Poly0x31Ref1_basis:
  "CrcTab_Crc8Poly0x31Ref1 = xor_table [0] [0x5E, 0xBC, 0x61, 0xC2, 0x9D, 0x23, 0x46, 0x8C]"
  by (simp add: CrcTab_Crc8Poly0x31Ref1_def)

lemma CrcTab_Crc8Poly0x31Ref1_steps:
  "map (crc_shr (0x8C :: u8) ^^ 8) [1, 2, 4, 8, 16, 32, 64, 128] =
     [0x5E, 0xBC, 0x61, 0xC2, 0x9D, 0x23, 0x46, 0x8C]"
  by (simp add: funpow_8 crc_shr_def)

lemma CrcTab_Crc8Poly0x31Ref1_nth:
  "unat x < 256 \<Longrightarrow> CrcTab_Crc8Poly0x31Ref1 ! unat x = (crc_shr (0x8C :: u8) ^^ 8) x"
  by (rule xor_table_nth [OF _ _ index_table8])
    (simp_all only: CrcTab_Crc8Poly0x31Ref1_steps CrcTab_Crc8Poly0x31Ref1_basis crc_shr_pow_xor push_bit_xor)

lemma CrcTab_Crc16Poly0x8005Ref1_basis:
  "CrcTab_Crc16Poly0x8005Ref1 = xor_table [0] [0xC0C1, 0xC181, 0xC301, 0xC601, 0xCC01, 0xD801, 0xF001, 0xA001]"
  by (simp add: CrcTab_Crc16Poly0x8005Ref1_def)

lemma CrcTab_Crc16Poly0x8005Ref1_steps:
  "map (crc_shr (0xA001 :: u16) ^^ 8) [1, 2, 4, 8, 16, 32, 64, 128] =
     [0xC0C1, 0xC181, 0xC301, 0xC601, 0xCC01, 0xD801, 0xF001, 0xA001]"
  by (simp add: funpow_8 crc_shr_def)

lemma CrcTab_Crc16Poly0x8005Ref1_nth:
  "unat x < 256 \<Longrightarrow> CrcTab_Crc16Poly0x8005Ref1 ! unat x = (crc_shr (0xA001 :: u16) ^^ 8) x"
  by (rule xor_table_nth [OF _ _ index_table16])
    (simp_all only: CrcTab_Crc16Poly0x8005Ref1_steps CrcTab_Crc16Poly0x8005Ref1_basis crc_shr_pow_xor push_bit_xor)

lemma CrcTab_Crc16Poly0x1021Ref0_basis:
  "CrcTab_Crc16Poly0x1021Ref0 = xor_table [0] [0x1021, 0x2042, 0x4084, 0x8108, 0x1231, 0x2462, 0x48C4, 0x9188]"
  by (simp add: CrcTab_Crc16Poly0x1021Ref0_def)

lemma CrcTab_Crc16Poly0x1021Ref0_steps:
  "map (\<lambda>i. (crc_shl (2 ^ 15) (0x1021 :: u16) ^^ 8) (push_bit 8 i)) [1, 2, 4, 8, 16, 32, 64, 128] =
     [0x1021, 0x2042, 0x4084, 0x8108, 0x1231, 0x2462, 0x48C4, 0x9188]"
  by (simp add: funpow_8 crc_shl_def)

lemma CrcTab_Crc16Poly0x1021Ref0_nth:
  "unat x < 256 \<Longrightarrow> CrcTab_Crc16Poly0x1021Ref0 ! unat x = (\<lambda>i. (crc_shl (2 ^ 15) (0x1021 :: u16) ^^ 8) (push_bit 8 i)) x"
  by (rule xor_table_nth [OF _ _ index_table16])
    (simp_all only: CrcTab_Crc16Poly0x1021Ref0_steps CrcTab_Crc16Poly0x1021Ref0_basis crc_shl_pow_xor push_bit_xor)

lemma CrcTab_Crc16Poly0x1021Ref1_basis:
  "CrcTab_Crc16Poly0x1021Ref1 = xor_table [0] [0x1189, 0x2312, 0x4624, 0x8C48, 0x1081, 0x2102, 0x4204, 0x8408]"
  by (simp add: CrcTab_Crc16Poly0x1021Ref1_def)

lemma CrcTab_Crc16Poly0x1021Ref1_steps:
  "map (crc_shr (0x8408 :: u16) ^^ 8) [1, 2, 4, 8, 16, 32, 64, 128] =
     [0x1189, 0x2312, 0x4624, 0x8C48, 0x1081, 0x2102, 0x4204, 0x8408]"
  by (simp add: funpow_8 crc_shr_def)

lemma CrcTab_Crc16Poly0x1021Ref1_nth:
  "unat x < 256 \<Longrightarrow> CrcTab_Crc16Poly0x1021Ref1 ! unat x = (crc_shr (0x8408 :: u16) ^^ 8) x"
  by (rule xor_table_nth [OF _ _ index_table16])
    (simp_all only: CrcTab_Crc16Poly0x1021Ref1_steps CrcTab_Crc16Poly0x1021Ref1_basis crc_shr_pow_xor push_bit_xor)

lemma CrcTab_Crc32Poly0x4C11DB7Ref0_basis:
  "CrcTab_Crc32Poly0x4C11DB7Ref0 = xor_table [0] [0x4C11DB7, 0x9823B6E, 0x130476DC, 0x2608EDB8, 0x4C11DB70, 0x9823B6E0, 0x34867077, 0x690CE0EE]"
  by (simp add: CrcTab_Crc32Poly0x4C11DB7Ref0_def)

lemma CrcTab_Crc32Poly0x4C11DB7Ref0_steps:
  "map (\<lambda>i. (crc_shl (2 ^ 31) (0x4C11DB7 :: u32) ^^ 8) (push_bit 24 i)) [1, 2, 4, 8, 16, 32, 64, 128] =
     [0x4C11DB7, 0x9823B6E, 0x130476DC, 0x2608EDB8, 0x4C11DB70, 0x9823B6E0, 0x34867077, 0x690CE0EE]"
  by (simp add: funpow_8 crc_shl_def)

lemma CrcTab_Crc32Poly0x4C11DB7Ref0_nth:
  "unat x < 256 \<Longrightarrow> CrcTab_Crc32Poly0x4C11DB7Ref0 ! unat x = (\<lambda>i. (crc_shl (2 ^ 31) (0x4C11DB7 :: u32) ^^ 8) (push_bit 24 i)) x"
  by (rule xor_table_nth [OF _ _ index_table32])
    (simp_all only: CrcTab_Crc32Poly0x4C11DB7Ref0_steps CrcTab_Crc32Poly0x4C11DB7Ref0_basis crc_shl_pow_xor push_bit_xor)

lemma CrcTab_Crc32Poly0x4C11DB7Ref1_basis:
  "CrcTab_Crc32Poly0x4C11DB7Ref1 = xor_table [0] [0x77073096, 0xEE0E612C, 0x76DC419, 0xEDB8832, 0x1DB71064, 0x3B6E20C8, 0x76DC4190, 0xEDB88320]"
  by (simp add: CrcTab_Crc32Poly0x4C11DB7Ref1_def)

lemma CrcTab_Crc32Poly0x4C11DB7Ref1_steps:
  "map (crc_shr (0xEDB88320 :: u32) ^^ 8) [1, 2, 4, 8, 16, 32, 64, 128] =
     [0x77073096, 0xEE0E612C, 0x76DC419, 0xEDB8832, 0x1DB71064, 0x3B6E20C8, 0x76DC4190, 0xEDB88320]"
  by (simp add: funpow_8 crc_shr_def)

lemma CrcTab_Crc32Poly0x4C11DB7Ref1_nth:
  "unat x < 256 \<Longrightarrow> CrcTab_Crc32Poly0x4C11DB7Ref1 ! unat x = (crc_shr (0xEDB88320 :: u32) ^^ 8) x"
  by (rule xor_table_nth [OF _ _ index_table32])
    (simp_all only: CrcTab_Crc32Poly0x4C11DB7Ref1_steps CrcTab_Crc32Poly0x4C11DB7Ref1_basis crc_shr_pow_xor push_bit_xor)

section \<open>The table step is eight bit steps\<close>

lemma unat_lt_256_low: "unat (((crc :: 'a::len word) AND mask 8) XOR ucast (b :: u8)) < 256"
proof -
  have "(crc AND mask 8) XOR ucast b = take_bit 8 ((crc AND mask 8) XOR ucast b)"
    by (intro bit_eqI) (auto simp: bit_simps dest: bit_imp_le_length)
  then have "unat ((crc AND mask 8) XOR ucast b) = unat (take_bit 8 ((crc AND mask 8) XOR ucast b))"
    by (rule arg_cong)
  also have "\<dots> < 2 ^ 8" by (simp only: unsigned_take_bit_eq take_bit_nat_less_exp)
  finally show ?thesis by simp
qed

lemma unat_lt_256_high:
  assumes "LENGTH('a) = k + 8"
  shows "unat (drop_bit k (crc :: 'a::len word) XOR ucast (b :: u8)) < 256"
proof -
  have "drop_bit k crc XOR ucast b = take_bit 8 (drop_bit k crc XOR ucast b)"
    using assms by (intro bit_eqI) (auto simp: bit_simps dest: bit_imp_le_length)
  then have "unat (drop_bit k crc XOR ucast b) = unat (take_bit 8 (drop_bit k crc XOR ucast b))"
    by (rule arg_cong)
  also have "\<dots> < 2 ^ 8" by (simp only: unsigned_take_bit_eq take_bit_nat_less_exp)
  finally show ?thesis by simp
qed

lemma unat_lt_256_u8: "unat (x :: u8) < 256"
proof -
  have "unat x < 2 ^ LENGTH(8)" by (rule unsigned_less)
  then show ?thesis by simp
qed

lemma mask8: "(0xFF :: 'a::len word) = mask 8"
  by (simp add: mask_eq_exp_minus_1)

lemma tab8_shl: "CrcTab_Crc8Poly0x07Ref0 ! unat x = (crc_shl 0x80 0x07 ^^ 8) x"
  using CrcTab_Crc8Poly0x07Ref0_nth[OF unat_lt_256_u8, of x] by simp

lemma tab8_shr07: "CrcTab_Crc8Poly0x07Ref1 ! unat x = (crc_shr 0xE0 ^^ 8) x"
  by (rule CrcTab_Crc8Poly0x07Ref1_nth[OF unat_lt_256_u8])

lemma tab8_shr31: "CrcTab_Crc8Poly0x31Ref1 ! unat x = (crc_shr 0x8C ^^ 8) x"
  by (rule CrcTab_Crc8Poly0x31Ref1_nth[OF unat_lt_256_u8])

lemma tab16_r_8005:
  "tab16_r CrcTab_Crc16Poly0x8005Ref1 crc b = (crc_shr 0xA001 ^^ 8) (crc XOR ucast b)"
  unfolding tab16_r_def mask8 CrcTab_Crc16Poly0x8005Ref1_nth[OF unat_lt_256_low]
  by (rule crc_shr_byte [symmetric])

lemma tab16_r_1021:
  "tab16_r CrcTab_Crc16Poly0x1021Ref1 crc b = (crc_shr 0x8408 ^^ 8) (crc XOR ucast b)"
  unfolding tab16_r_def mask8 CrcTab_Crc16Poly0x1021Ref1_nth[OF unat_lt_256_low]
  by (rule crc_shr_byte [symmetric])

lemma tab16_l_1021:
  "tab16_l CrcTab_Crc16Poly0x1021Ref0 crc b =
     (crc_shl 0x8000 0x1021 ^^ 8) (crc XOR push_bit 8 (ucast b))"
  using crc_shl_byte[of "0x1021 :: u16" crc "ucast b"]
    CrcTab_Crc16Poly0x1021Ref0_nth[OF unat_lt_256_high, of 8 crc b]
  by (simp add: tab16_l_def)

lemma tab32_r:
  "drop_bit 8 crc XOR CrcTab_Crc32Poly0x4C11DB7Ref1 ! unat ((crc AND 0xFF) XOR ucast (b :: u8)) =
     (crc_shr 0xEDB88320 ^^ 8) (crc XOR ucast b)"
  unfolding mask8 CrcTab_Crc32Poly0x4C11DB7Ref1_nth[OF unat_lt_256_low]
  by (rule crc_shr_byte [symmetric])

lemma tab32_l:
  "push_bit 8 crc XOR CrcTab_Crc32Poly0x4C11DB7Ref0 ! unat (drop_bit 24 crc XOR ucast (b :: u8)) =
     (crc_shl 0x80000000 0x04C11DB7 ^^ 8) (crc XOR push_bit 24 (ucast b))"
  using crc_shl_byte[of "0x04C11DB7 :: u32" crc "ucast b"]
    CrcTab_Crc32Poly0x4C11DB7Ref0_nth[OF unat_lt_256_high, of 24 crc b]
  by simp

lemma reflect_polys [simp]:
  "reflect8 0x07 = 0xE0" "reflect8 0x31 = 0x8C"
  "reflect16 0x8005 = 0xA001" "reflect16 0x1021 = 0x8408"
  "reflect32 0x04C11DB7 = 0xEDB88320"
  by (simp_all add: reflect8_def reflect16_def reflect32_def Let_def)

lemma tab16_funs:
  "tab16_r CrcTab_Crc16Poly0x8005Ref1 = (\<lambda>crc b. (crc_shr 0xA001 ^^ 8) (crc XOR ucast b))"
  "tab16_r CrcTab_Crc16Poly0x1021Ref1 = (\<lambda>crc b. (crc_shr 0x8408 ^^ 8) (crc XOR ucast b))"
  "tab16_l CrcTab_Crc16Poly0x1021Ref0 =
     (\<lambda>crc b. (crc_shl 0x8000 0x1021 ^^ 8) (crc XOR push_bit 8 (ucast b)))"
  by (intro ext, simp only: tab16_r_8005 tab16_r_1021 tab16_l_1021)+

lemmas tab_steps = tab8_shl tab8_shr07 tab8_shr31 tab16_funs
  tab32_r tab32_l

section \<open>Correctness of the table-driven routines\<close>

text \<open>
  C8. Each table-driven routine of CRC.cpp computes the checksum that the bitwise routine
  computes with the polynomial, initial value, final exclusive or and bit order of the comment
  above it, on every message; all of them but \<open>Crc16TabMAXIM\<close>.
\<close>

theorem crc_tables_correct:
  "Crc8Tab data = Crc8Cal data 0x07 0x00 0x00 0 \<and>
   Crc8TabITU data = Crc8Cal data 0x07 0x00 0x55 0 \<and>
   Crc8TabROHC data = Crc8Cal data 0x07 0xFF 0x00 1 \<and>
   Crc8TabMAXIM data = Crc8Cal data 0x31 0x00 0x00 1 \<and>
   Crc16TabIBM data = Crc16Cal data 0x8005 0x0000 0x0000 1 \<and>
   Crc16TabUSB data = Crc16Cal data 0x8005 0xFFFF 0xFFFF 1 \<and>
   Crc16TabMODBUS data = Crc16Cal data 0x8005 0xFFFF 0x0000 1 \<and>
   Crc16TabCCITT data = Crc16Cal data 0x1021 0x0000 0x0000 1 \<and>
   Crc16TabCCITTFALSE data = Crc16Cal data 0x1021 0xFFFF 0x0000 0 \<and>
   Crc16TabX25 data = Crc16Cal data 0x1021 0xFFFF 0xFFFF 1 \<and>
   Crc16TabXMODEM data = Crc16Cal data 0x1021 0x0000 0x0000 0 \<and>
   Crc32Tab data = Crc32Cal data 0x04C11DB7 0xFFFFFFFF 0xFFFFFFFF 1 \<and>
   Crc32TabMPEG2 data = Crc32Cal data 0x04C11DB7 0xFFFFFFFF 0x00000000 0"
  by (intro conjI)
    (simp_all only: Crc8Tab_def Crc8TabITU_def Crc8TabROHC_def Crc8TabMAXIM_def Crc16TabIBM_def
      Crc16TabUSB_def Crc16TabMODBUS_def Crc16TabCCITT_def Crc16TabCCITTFALSE_def
      Crc16TabX25_def Crc16TabXMODEM_def Crc32Tab_def Crc32TabMPEG2_def Crc8Cal_def Crc16Cal_def
      Crc32Cal_def Let_def tab_steps reflect_polys if_True if_False zero_neq_one one_neq_zero
      xor.right_neutral refl)

lemma ucast_u8_lt_256: "(ucast (x :: u8) :: u16) < 256"
proof -
  have "unat (ucast x :: u16) = take_bit 16 (unat x)" by (simp add: unsigned_ucast_eq)
  also have "\<dots> \<le> unat x" by (rule take_bit_nat_less_eq_self)
  also have "\<dots> < 256" by (rule unat_lt_256_u8)
  finally show ?thesis by (simp add: word_less_nat_alt)
qed

text \<open>
  \<open>Crc16TabMAXIM\<close> never returns a value above 255, whatever the message, and so differs
  from the CRC-16/MAXIM of its comment already on the empty message.
\<close>

lemma Crc16TabMAXIM_truncates:
  "Crc16TabMAXIM data < 256 \<and> Crc16TabMAXIM [] \<noteq> Crc16Cal [] 0x8005 0x0000 0xFFFF 1"
proof
  show "Crc16TabMAXIM data < 256"
    unfolding Crc16TabMAXIM_def Let_def by (rule ucast_u8_lt_256)
  show "Crc16TabMAXIM [] \<noteq> Crc16Cal [] 0x8005 0x0000 0xFFFF 1"
    by (simp add: Crc16TabMAXIM_def Crc16Cal_def)
qed

section \<open>Error detection of the wire checksum\<close>

lemma foldl_step_inj:
  assumes "\<And>s t c. f s c = f t c \<Longrightarrow> s = t" and "foldl f s xs = foldl f t xs"
  shows "s = t"
  using assms(2)
proof (induction xs arbitrary: s t)
  case (Cons x xs)
  then have "f s x = f t x" by - (rule Cons.IH, simp)
  then show ?case by (rule assms(1))
qed simp

lemma ccitt_step_inj:
  "tab16_r CrcTab_Crc16Poly0x1021Ref1 s c = tab16_r CrcTab_Crc16Poly0x1021Ref1 t c \<Longrightarrow> s = t"
proof -
  assume "tab16_r CrcTab_Crc16Poly0x1021Ref1 s c = tab16_r CrcTab_Crc16Poly0x1021Ref1 t c"
  then have "s XOR ucast c = t XOR ucast c"
    unfolding tab16_r_1021 by (rule crc_shr_pow_inj [rotated]) simp
  then show "s = t" by (rule xor_cancel)
qed

lemma ccitt_two_steps:
  "tab16_r CrcTab_Crc16Poly0x1021Ref1 (tab16_r CrcTab_Crc16Poly0x1021Ref1 s a) b =
     (crc_shr 0x8408 ^^ 16) (s XOR (ucast a XOR push_bit 8 (ucast b)))"
proof -
  have "(crc_shr 0x8408 ^^ 8) (push_bit 8 (ucast b) :: u16) = drop_bit 8 (push_bit 8 (ucast b))"
    by (rule crc_shr_pow_low) (simp add: take_bit_push_bit)
  also have "\<dots> = ucast b"
    by (intro bit_eqI) (auto simp: bit_simps dest: bit_imp_le_length)
  finally have "ucast b = (crc_shr 0x8408 ^^ 8) (push_bit 8 (ucast b) :: u16)" by simp
  then have "(crc_shr 0x8408 ^^ 8) (s XOR ucast a) XOR ucast b =
      (crc_shr 0x8408 ^^ 8) ((s XOR ucast a) XOR push_bit 8 (ucast b))"
    by (simp only: crc_shr_pow_xor)
  moreover have "(crc_shr 0x8408 ^^ 8) ((crc_shr 0x8408 ^^ 8) y) = (crc_shr 0x8408 ^^ 16) y" for y :: u16
    using funpow_add[of 8 8 "crc_shr (0x8408 :: u16)"] by (simp add: fun_eq_iff)
  ultimately show ?thesis unfolding tab16_r_1021 by (simp only: xor.assoc)
qed

lemma two_bytes_inj:
  "(ucast a XOR push_bit 8 (ucast b) :: u16) = ucast c XOR push_bit 8 (ucast d) \<Longrightarrow> a = c \<and> b = d"
  for a b c d :: u8
proof -
  assume eq: "(ucast a XOR push_bit 8 (ucast b) :: u16) = ucast c XOR push_bit 8 (ucast d)"
  have lo: "bit (ucast x XOR push_bit 8 (ucast y) :: u16) n = bit x n" if "n < 8" for x y :: u8 and n
    using that by (auto simp: bit_simps)
  have hi: "bit (ucast x XOR push_bit 8 (ucast y) :: u16) (n + 8) = bit y n" if "n < 8" for x y :: u8 and n
    using that by (auto simp: bit_simps dest: bit_imp_le_length)
  show ?thesis
  proof
    have "bit a n = bit c n" if "n < 8" for n
      using lo[OF that, of a b] lo[OF that, of c d] eq by simp
    then show "a = c" by (intro bit_word_eqI) simp
    have "bit b n = bit d n" if "n < 8" for n
      using hi[OF that, of a b] hi[OF that, of c d] eq by simp
    then show "b = d" by (intro bit_word_eqI) simp
  qed
qed

text \<open>
  C7. The checksum of the wire protocol detects every corruption confined to two adjacent
  bytes: two messages of which the second replaces two adjacent bytes of the first have the same
  \<open>Crc16TabCCITT\<close> exactly when they are the same message.
\<close>

theorem Crc16TabCCITT_detects:
  "Crc16TabCCITT (xs @ [a, b] @ ys) = Crc16TabCCITT (xs @ [c, d] @ ys) \<longleftrightarrow> a = c \<and> b = d"
proof
  assume "Crc16TabCCITT (xs @ [a, b] @ ys) = Crc16TabCCITT (xs @ [c, d] @ ys)"
  then have "foldl (tab16_r CrcTab_Crc16Poly0x1021Ref1)
        (foldl (tab16_r CrcTab_Crc16Poly0x1021Ref1) 0 (xs @ [a, b])) ys =
      foldl (tab16_r CrcTab_Crc16Poly0x1021Ref1)
        (foldl (tab16_r CrcTab_Crc16Poly0x1021Ref1) 0 (xs @ [c, d])) ys"
    by (simp add: Crc16TabCCITT_def)
  then have "foldl (tab16_r CrcTab_Crc16Poly0x1021Ref1) 0 (xs @ [a, b]) =
      foldl (tab16_r CrcTab_Crc16Poly0x1021Ref1) 0 (xs @ [c, d])"
    by (rule foldl_step_inj [where f = "tab16_r CrcTab_Crc16Poly0x1021Ref1", rotated])
      (rule ccitt_step_inj)
  then have "(crc_shr 0x8408 ^^ 16) (foldl (tab16_r CrcTab_Crc16Poly0x1021Ref1) 0 xs XOR (ucast a XOR push_bit 8 (ucast b))) =
      (crc_shr 0x8408 ^^ 16) (foldl (tab16_r CrcTab_Crc16Poly0x1021Ref1) 0 xs XOR (ucast c XOR push_bit 8 (ucast d)))"
    by (simp only: foldl_append foldl.simps ccitt_two_steps)
  then have "foldl (tab16_r CrcTab_Crc16Poly0x1021Ref1) 0 xs XOR (ucast a XOR push_bit 8 (ucast b)) =
      foldl (tab16_r CrcTab_Crc16Poly0x1021Ref1) 0 xs XOR (ucast c XOR push_bit 8 (ucast d))"
    by (rule crc_shr_pow_inj [rotated]) simp
  then show "a = c \<and> b = d"
    by (intro two_bytes_inj) (rule xor_cancel, simp only: xor.commute)
qed simp

end
