(* ===== verification/Frame.thy ===== *)
theory Frame
  imports Crc
begin

text \<open>
  The frame format of \<open>common/common.h\<close> and \<open>common/common.cpp\<close>. A frame is a packed 13-byte
  head (tag \<open>'$'\<close>, version, command, serial number, device number, total length; the multi-byte
  fields little-endian, as the build targets store them), a JSON body and a 2-byte checksum over
  everything before it. \<open>Pack\<close> and \<open>Unpack\<close> copy between a \<open>Pkg\<close> and its bytes;
  \<open>PkgWithoutCRC\<close> fills the head of a message's frame.
\<close>

section \<open>Commands\<close>

text \<open>\<open>CmdRaw\<close> stands for the values of the enumeration's type that it does not name.\<close>

datatype CmdType =
    CmdResponse | CmdControl | CmdHeartBeat | CmdFusionData | CmdCrossTrafficJamAlarm
  | CmdAbnormalStopData | CmdIntersectionOverflowAlarm | CmdTrafficFlowGather
  | CmdInWatchData_1_3_4 | CmdInWatchData_2 | CmdStopLinePassData
  | CmdLongDistanceOnSolidLineAlarm | CmdHumanData | CmdHumanLitPoleData
  | CmdTrafficDetectorStatus | CmdCrossStageData | CmdUnknown
  | CmdRaw u8

fun cmd_code :: "CmdType \<Rightarrow> u8" where
  "cmd_code CmdResponse = 0x00"
| "cmd_code CmdControl = 0x01"
| "cmd_code CmdHeartBeat = 0x02"
| "cmd_code CmdFusionData = 0x03"
| "cmd_code CmdCrossTrafficJamAlarm = 0x04"
| "cmd_code CmdAbnormalStopData = 0x05"
| "cmd_code CmdIntersectionOverflowAlarm = 0x06"
| "cmd_code CmdTrafficFlowGather = 0x07"
| "cmd_code CmdInWatchData_1_3_4 = 0x08"
| "cmd_code CmdInWatchData_2 = 0x09"
| "cmd_code CmdStopLinePassData = 0x0a"
| "cmd_code CmdLongDistanceOnSolidLineAlarm = 0x0b"
| "cmd_code CmdHumanData = 0x0c"
| "cmd_code CmdHumanLitPoleData = 0x0d"
| "cmd_code CmdTrafficDetectorStatus = 0x0e"
| "cmd_code CmdCrossStageData = 0xfe"
| "cmd_code CmdUnknown = 0xff"
| "cmd_code (CmdRaw b) = b"

text \<open>The named values.\<close>

definition cmd_named :: "CmdType list" where
  "cmd_named = [CmdResponse, CmdControl, CmdHeartBeat, CmdFusionData, CmdCrossTrafficJamAlarm,
     CmdAbnormalStopData, CmdIntersectionOverflowAlarm, CmdTrafficFlowGather,
     CmdInWatchData_1_3_4, CmdInWatchData_2, CmdStopLinePassData,
     CmdLongDistanceOnSolidLineAlarm, CmdHumanData, CmdHumanLitPoleData,
     CmdTrafficDetectorStatus, CmdCrossStageData, CmdUnknown]"

text \<open>The cast \<open>CmdType(cmd)\<close>.\<close>

definition cmd_of :: "u8 \<Rightarrow> CmdType" where
  "cmd_of b = (case find (\<lambda>c. cmd_code c = b) cmd_named of Some c \<Rightarrow> c | None \<Rightarrow> CmdRaw b)"

lemma cmd_code_of [simp]: "cmd_code (cmd_of b) = b"
  by (auto simp: cmd_of_def split: option.splits dest: find_Some_iff[THEN iffD1])

lemma cmd_of_code: "c \<in> set cmd_named \<Longrightarrow> cmd_of (cmd_code c) = c"
  by (auto simp: cmd_named_def cmd_of_def)

section \<open>Heads and frames\<close>

record PkgHead =
  h_tag :: u8
  h_version :: u8
  h_cmd :: u8
  h_sn :: u16
  h_deviceNO :: u32
  h_len :: u32

record Pkg =
  p_head :: PkgHead
  p_body :: bytes
  p_crc :: u16

text \<open>\<open>sizeof(PkgHead)\<close> and \<open>sizeof(PkgCRC)\<close>, both under \<open>#pragma pack(1)\<close>.\<close>

definition sizeof_head :: nat where "sizeof_head = 13"
definition sizeof_crc :: nat where "sizeof_crc = 2"

text \<open>The bytes of the multi-byte fields.\<close>

definition le16 :: "u16 \<Rightarrow> bytes" where
  "le16 w = [ucast w, ucast (drop_bit 8 w)]"

definition le32 :: "u32 \<Rightarrow> bytes" where
  "le32 w = [ucast w, ucast (drop_bit 8 w), ucast (drop_bit 16 w), ucast (drop_bit 24 w)]"

definition un_le16 :: "bytes \<Rightarrow> u16" where
  "un_le16 bs = ucast (bs ! 0) OR push_bit 8 (ucast (bs ! 1))"

definition un_le32 :: "bytes \<Rightarrow> u32" where
  "un_le32 bs = ucast (bs ! 0) OR push_bit 8 (ucast (bs ! 1)) OR push_bit 16 (ucast (bs ! 2))
     OR push_bit 24 (ucast (bs ! 3))"

definition head_bytes :: "PkgHead \<Rightarrow> bytes" where
  "head_bytes h = [h_tag h, h_version h, h_cmd h] @ le16 (h_sn h) @ le32 (h_deviceNO h) @ le32 (h_len h)"

definition head_of :: "bytes \<Rightarrow> PkgHead" where
  "head_of bs = \<lparr>h_tag = bs ! 0, h_version = bs ! 1, h_cmd = bs ! 2, h_sn = un_le16 (drop 3 bs),
     h_deviceNO = un_le32 (drop 5 bs), h_len = un_le32 (drop 9 bs)\<rparr>"

lemma length_le [simp]: "length (le16 v) = 2" "length (le32 w) = 4"
  by (simp_all add: le16_def le32_def)

lemma length_head_bytes [simp]: "length (head_bytes h) = 13"
  by (simp add: head_bytes_def)

lemma un_le16_le16 [simp]: "un_le16 (le16 w @ bs) = w"
  by (rule bit_word_eqI) (auto simp: un_le16_def le16_def bit_simps)

lemma un_le32_le32 [simp]: "un_le32 (le32 w @ bs) = w"
proof (rule bit_word_eqI)
  fix n assume "n < LENGTH(32)"
  then show "bit (un_le32 (le32 w @ bs)) n = bit w n"
    by (cases "24 \<le> n"; cases "16 \<le> n") (auto simp: un_le32_def le32_def bit_simps)
qed

lemma le16_un_le16: "length bs = 2 \<Longrightarrow> le16 (un_le16 bs) = bs"
  by (auto simp: length_Suc_conv numeral_2_eq_2 le16_def un_le16_def intro!: bit_word_eqI)
    (auto simp: bit_simps dest: bit_imp_le_length)

lemma head_of_head_bytes [simp]: "head_of (head_bytes h @ bs) = h"
  by (simp add: head_of_def head_bytes_def)

section \<open>Packing and unpacking\<close>

text \<open>
  \<open>Pack(pkg, out, len)\<close>: the return value, the packet with its checksum filled in, and the bytes
  written at \<open>out\<close>. The sizes are \<open>size_t\<close> and \<open>index\<close> is a \<open>uint32_t\<close>.
\<close>

definition Pack :: "Pkg \<Rightarrow> u32 \<Rightarrow> u32 \<times> Pkg \<times> bytes" where
  "Pack pkg len =
     (if unat len < sizeof_head + sizeof_crc + length (p_body pkg) then (0, pkg, [])
      else let out = head_bytes (p_head pkg) @ p_body pkg;
               pkg = pkg\<lparr>p_crc := Crc16TabCCITT out\<rparr>;
               out = out @ le16 (p_crc pkg);
               index = word_of_nat (length out) :: u32
           in (if index \<noteq> h_len (p_head pkg) then 0 else index, pkg, out))"

text \<open>
  \<open>Unpack(in, len, pkg)\<close>: the return value and the packet, which a failure leaves as far as it
  was filled. A head length below 15 makes the \<open>size_t\<close> body length wrap, and
  \<open>std::string::assign\<close> then throws \<open>length_error\<close>.
\<close>

datatype unpack_error = Length_error

definition Unpack :: "bytes \<Rightarrow> u32 \<Rightarrow> Pkg \<Rightarrow> unpack_error + int \<times> Pkg" where
  "Unpack inp len pkg =
     (if unat len < sizeof_head then Inr (- 1, pkg)
      else let pkg = pkg\<lparr>p_head := head_of (take sizeof_head inp)\<rparr>;
               hlen = unat (h_len (p_head pkg))
           in if len < h_len (p_head pkg) then Inr (- 1, pkg)
              else if hlen < sizeof_head + sizeof_crc then Inl Length_error
              else let n = hlen - sizeof_head - sizeof_crc;
                       pkg = pkg\<lparr>p_body := take n (drop sizeof_head inp)\<rparr>;
                       pkg = pkg\<lparr>p_crc := un_le16 (drop (sizeof_head + n) inp)\<rparr>
                   in if h_len (p_head pkg) \<noteq> len then Inr (- 1, pkg) else Inr (0, pkg))"

text \<open>
  \<open>PkgWithoutCRC\<close>, the same text in every message class: \<open>cmdType\<close> is the command of the class,
  \<open>jsonStr\<close> the \<open>json::encode\<close> of the message. The \<open>int\<close> length is stored into a \<open>uint32_t\<close>.
\<close>

definition PkgWithoutCRC :: "CmdType \<Rightarrow> bytes \<Rightarrow> u16 \<Rightarrow> u32 \<Rightarrow> Pkg" where
  "PkgWithoutCRC cmdType jsonStr sn deviceNO =
     \<lparr>p_head = \<lparr>h_tag = 0x24, h_version = 1, h_cmd = cmd_code cmdType, h_sn = sn,
        h_deviceNO = deviceNO,
        h_len = word_of_nat (sizeof_head + length jsonStr + sizeof_crc)\<rparr>,
      p_body = jsonStr, p_crc = 0\<rparr>"

lemma unat_of_nat_u32: "n < 2 ^ 32 \<Longrightarrow> unat (word_of_nat n :: u32) = n"
  by (simp add: unat_of_nat take_bit_nat_eq_self)

lemma of_nat_unat_u32: "word_of_nat (unat w) = w" for w :: u32
  by simp

lemmas sizeof_defs = sizeof_head_def sizeof_crc_def

text \<open>A packet whose head carries the length of its frame, below the 32-bit limit.\<close>

definition pkg_wf :: "Pkg \<Rightarrow> bool" where
  "pkg_wf pkg \<longleftrightarrow> unat (h_len (p_head pkg)) = 15 + length (p_body pkg)"

definition frame_bytes :: "Pkg \<Rightarrow> bytes" where
  "frame_bytes pkg = head_bytes (p_head pkg) @ p_body pkg @ le16 (p_crc pkg)"

definition crc_ok :: "Pkg \<Rightarrow> bool" where
  "crc_ok pkg \<longleftrightarrow> p_crc pkg = Crc16TabCCITT (head_bytes (p_head pkg) @ p_body pkg)"

lemma length_frame_bytes: "length (frame_bytes pkg) = 15 + length (p_body pkg)"
  by (simp add: frame_bytes_def le16_def)

lemma PkgWithoutCRC_wf: "15 + length json < 2 ^ 32 \<Longrightarrow> pkg_wf (PkgWithoutCRC c json sn dev)"
  using unat_of_nat_u32[of "15 + length json"]
  by (simp add: pkg_wf_def PkgWithoutCRC_def sizeof_defs)

lemma Pack_wf:
  assumes "pkg_wf pkg" and "h_len (p_head pkg) \<le> len"
  shows "\<exists>pkg'. Pack pkg len = (h_len (p_head pkg), pkg', frame_bytes pkg') \<and> crc_ok pkg' \<and>
    p_head pkg' = p_head pkg \<and> p_body pkg' = p_body pkg \<and> pkg_wf pkg'"
proof -
  have "word_of_nat (15 + length (p_body pkg)) = h_len (p_head pkg)"
    using of_nat_unat_u32[of "h_len (p_head pkg)"] assms(1) unfolding pkg_wf_def by (simp only:)
  then show ?thesis
    using assms
    by (simp add: Pack_def pkg_wf_def sizeof_defs word_le_nat_alt frame_bytes_def crc_ok_def
        le16_def Let_def add.commute)
qed

lemma Unpack_frame_bytes:
  assumes "pkg_wf pkg"
  shows "Unpack (frame_bytes pkg) (h_len (p_head pkg)) pkg0 = Inr (0, pkg0\<lparr>p_head := p_head pkg,
    p_body := p_body pkg, p_crc := p_crc pkg\<rparr>)"
proof -
  have "head_of (take 13 (frame_bytes pkg)) = p_head pkg"
    using head_of_head_bytes[of "p_head pkg" "[]"] by (simp add: frame_bytes_def)
  moreover have "drop 13 (frame_bytes pkg) = p_body pkg @ le16 (p_crc pkg)"
    "drop (13 + length (p_body pkg)) (frame_bytes pkg) = le16 (p_crc pkg)"
    by (simp_all add: frame_bytes_def)
  ultimately show ?thesis
    using assms un_le16_le16[of "p_crc pkg" "[]"]
    by (simp add: Unpack_def sizeof_defs pkg_wf_def Let_def)
qed

end
