(* ===== verification/Queues.thy ===== *)
theory Queues
  imports Prelude
begin

text \<open>
  The two containers every component is built from: \<open>Queue\<close> (\<open>Queue.hpp\<close>), a bounded
  first-in first-out queue whose \<open>push\<close> refuses a new element when it is full, and \<open>Vector\<close>
  (\<open>Vector.hpp\<close>), whose \<open>push\<close> drops the oldest element instead. Both hold a \<open>std\<close>
  container, read as a list, and a maximum that counts only once it has been set. An operation is one
  step: the code tests for full and empty before it takes the lock, which comes to the same where one thread
  pushes and one pops. An operation
  with an out parameter returns \<open>None\<close> where the code returns \<open>false\<close>.

  The locale \<open>fifo\<close> states the first-in first-out contract and proves once that what comes out is
  what went in, in order; the model's \<open>Queue\<close> interprets it.
\<close>

section \<open>Operations\<close>

text \<open>The comparison of a \<open>size_t\<close> with an \<open>int\<close> converts the \<open>int\<close> to 64 unsigned bits.\<close>

definition size_of_int :: "int \<Rightarrow> nat" where
  "size_of_int n = unat (word_of_int n :: u64)"

lemma size_of_int_nonneg [simp]: "0 \<le> n \<Longrightarrow> n < 2 ^ 64 \<Longrightarrow> size_of_int n = nat n"
  by (simp add: size_of_int_def unat_eq_nat_uint uint_word_of_int_eq take_bit_int_eq_self)

record 'a queue =
  q_items :: "'a list"
  q_max :: int
  q_isSetMax :: bool

definition queue_new :: "'a queue" where
  "queue_new = \<lparr>q_items = [], q_max = 0, q_isSetMax = False\<rparr>"

definition queue_setMax :: "int \<Rightarrow> 'a queue \<Rightarrow> 'a queue" where
  "queue_setMax v q = q\<lparr>q_max := v, q_isSetMax := True\<rparr>"

definition queue_new_max :: "u32 \<Rightarrow> 'a queue" where
  "queue_new_max m = queue_setMax (to_i32 (uint m)) queue_new"

definition queue_full :: "'a queue \<Rightarrow> bool" where
  "queue_full q \<longleftrightarrow> q_isSetMax q \<and> size_of_int (q_max q) \<le> length (q_items q)"

definition queue_push :: "'a \<Rightarrow> 'a queue \<Rightarrow> bool \<times> 'a queue" where
  "queue_push t q =
     (if queue_full q then (False, q) else (True, q\<lparr>q_items := q_items q @ [t]\<rparr>))"

definition queue_pop :: "'a queue \<Rightarrow> ('a \<times> 'a queue) option" where
  "queue_pop q = (case q_items q of [] \<Rightarrow> None | t # ts \<Rightarrow> Some (t, q\<lparr>q_items := ts\<rparr>))"

definition queue_front :: "'a queue \<Rightarrow> 'a option" where
  "queue_front q = (if q_items q = [] then None else Some (hd (q_items q)))"

definition queue_back :: "'a queue \<Rightarrow> 'a option" where
  "queue_back q = (if q_items q = [] then None else Some (last (q_items q)))"

definition queue_size :: "'a queue \<Rightarrow> nat" where
  "queue_size q = length (q_items q)"

definition queue_empty :: "'a queue \<Rightarrow> bool" where
  "queue_empty q \<longleftrightarrow> q_items q = []"

definition queue_clear :: "'a queue \<Rightarrow> 'a queue" where
  "queue_clear q = q\<lparr>q_items := []\<rparr>"

record 'a vector =
  v_items :: "'a list"
  v_max :: int
  v_isSetMax :: bool

definition vector_new :: "'a vector" where
  "vector_new = \<lparr>v_items = [], v_max = 0, v_isSetMax = False\<rparr>"

definition vector_setMax :: "int \<Rightarrow> 'a vector \<Rightarrow> 'a vector" where
  "vector_setMax m v = v\<lparr>v_max := m, v_isSetMax := True\<rparr>"

definition vector_new_max :: "u32 \<Rightarrow> 'a vector" where
  "vector_new_max m = vector_setMax (to_i32 (uint m)) vector_new"

definition vector_push :: "'a \<Rightarrow> 'a vector \<Rightarrow> 'a vector" where
  "vector_push t v =
     (let q = v_items v @ [t]
      in if v_isSetMax v \<and> size_of_int (v_max v) < length q
         then v\<lparr>v_items := tl q\<rparr> else v\<lparr>v_items := q\<rparr>)"

definition vector_getIndex :: "int \<Rightarrow> 'a vector \<Rightarrow> 'a option" where
  "vector_getIndex index v =
     (if length (v_items v) < size_of_int (index + 1) \<or> index < 0 \<or> v_items v = []
      then None else Some (v_items v ! nat index))"

definition vector_eraseBegin :: "'a vector \<Rightarrow> 'a vector" where
  "vector_eraseBegin v = (if v_items v = [] then v else v\<lparr>v_items := tl (v_items v)\<rparr>)"

definition vector_size :: "'a vector \<Rightarrow> nat" where
  "vector_size v = length (v_items v)"

definition vector_empty :: "'a vector \<Rightarrow> bool" where
  "vector_empty v \<longleftrightarrow> v_items v = []"

definition vector_clear :: "'a vector \<Rightarrow> 'a vector" where
  "vector_clear v = v\<lparr>v_items := []\<rparr>"

section \<open>Well-formedness\<close>

definition queue_wf :: "'a queue \<Rightarrow> bool" where
  "queue_wf q \<longleftrightarrow> (q_isSetMax q \<longrightarrow> length (q_items q) \<le> size_of_int (q_max q))"

definition vector_wf :: "'a vector \<Rightarrow> bool" where
  "vector_wf v \<longleftrightarrow> (v_isSetMax v \<longrightarrow> length (v_items v) \<le> size_of_int (v_max v))"

lemma queue_wf_new [wf_rules]: "queue_wf queue_new"
  by (simp add: queue_wf_def queue_new_def)

lemma queue_wf_new_max [wf_rules]: "queue_wf (queue_new_max m)"
  by (simp add: queue_wf_def queue_new_max_def queue_setMax_def queue_new_def)

lemma queue_wf_push [wf_rules]: "queue_wf q \<Longrightarrow> queue_wf (snd (queue_push t q))"
  by (auto simp: queue_wf_def queue_push_def queue_full_def)

lemma queue_wf_pop [wf_rules]: "queue_wf q \<Longrightarrow> queue_pop q = Some (t, q') \<Longrightarrow> queue_wf q'"
  by (auto simp: queue_wf_def queue_pop_def split: list.splits)

lemma queue_wf_clear [wf_rules]: "queue_wf (queue_clear q)"
  by (simp add: queue_wf_def queue_clear_def)

lemma vector_wf_push [wf_rules]: "vector_wf v \<Longrightarrow> vector_wf (vector_push t v)"
  by (auto simp: vector_wf_def vector_push_def Let_def)

lemma vector_wf_eraseBegin [wf_rules]: "vector_wf v \<Longrightarrow> vector_wf (vector_eraseBegin v)"
  by (auto simp: vector_wf_def vector_eraseBegin_def)

lemma queue_push_simps [simp]:
  "\<not> queue_full q \<Longrightarrow> queue_push t q = (True, q\<lparr>q_items := q_items q @ [t]\<rparr>)"
  "queue_full q \<Longrightarrow> queue_push t q = (False, q)"
  by (simp_all add: queue_push_def)

text \<open>Pushing a list of elements onto a bounded queue: as many as fit, in order.\<close>

lemma queue_push_all:
  assumes "q_isSetMax q" "queue_wf q"
  shows "fold (\<lambda>x q. snd (queue_push x q)) xs q =
    q\<lparr>q_items := take (size_of_int (q_max q)) (q_items q @ xs)\<rparr>"
  using assms
proof (induction xs arbitrary: q)
  case Nil
  then show ?case by (simp add: queue_wf_def)
next
  case (Cons x xs)
  show ?case
  proof (cases "queue_full q")
    case True
    then have "length (q_items q) = size_of_int (q_max q)"
      using Cons.prems by (simp add: queue_full_def queue_wf_def)
    then show ?thesis using Cons.IH[OF Cons.prems] True by simp
  next
    case False
    let ?q = "q\<lparr>q_items := q_items q @ [x]\<rparr>"
    have "queue_wf ?q" using queue_wf_push[OF Cons.prems(2), of x] False by simp
    then show ?thesis using Cons.IH[of ?q] Cons.prems False by simp
  qed
qed

section \<open>First in, first out\<close>

datatype 'a qop = Push 'a | Pop

text \<open>What an operation answers: whether a push was taken, and what a pop hands out.\<close>

datatype 'a qres = Accepted 'a | Refused 'a | Got 'a | Nothing

fun res_op :: "'a qres \<Rightarrow> 'a qop" where
  "res_op (Accepted x) = Push x"
| "res_op (Refused x) = Push x"
| "res_op (Got x) = Pop"
| "res_op Nothing = Pop"

definition accepted_of :: "'a qres list \<Rightarrow> 'a list" where
  "accepted_of rs = concat (map (\<lambda>r. case r of Accepted x \<Rightarrow> [x] | _ \<Rightarrow> []) rs)"

definition got_of :: "'a qres list \<Rightarrow> 'a list" where
  "got_of rs = concat (map (\<lambda>r. case r of Got x \<Rightarrow> [x] | _ \<Rightarrow> []) rs)"

lemma accepted_of_simps [simp]:
  "accepted_of [] = []" "accepted_of (Accepted x # rs) = x # accepted_of rs" "accepted_of (Refused x # rs) = accepted_of rs"
  "accepted_of (Got x # rs) = accepted_of rs" "accepted_of (Nothing # rs) = accepted_of rs"
  by (simp_all add: accepted_of_def)

lemma got_of_simps [simp]:
  "got_of [] = []" "got_of (Got x # rs) = x # got_of rs" "got_of (Refused x # rs) = got_of rs"
  "got_of (Accepted x # rs) = got_of rs" "got_of (Nothing # rs) = got_of rs"
  by (simp_all add: got_of_def)

text \<open>A run of operations on a container: the answers and the final state.\<close>

fun fifo_run :: "('a \<Rightarrow> 's \<Rightarrow> bool \<times> 's) \<Rightarrow> ('s \<Rightarrow> ('a \<times> 's) option) \<Rightarrow> 'a qop list \<Rightarrow> 's \<Rightarrow> 'a qres list \<times> 's" where
  "fifo_run psh pp [] s = ([], s)"
| "fifo_run psh pp (Push x # ops) s =
     (let (ok, s') = psh x s; (rs, t) = fifo_run psh pp ops s' in ((if ok then Accepted x else Refused x) # rs, t))"
| "fifo_run psh pp (Pop # ops) s =
     (case pp s of
        None \<Rightarrow> (let (rs, t) = fifo_run psh pp ops s in (Nothing # rs, t))
      | Some (x, s') \<Rightarrow> (let (rs, t) = fifo_run psh pp ops s' in (Got x # rs, t)))"

text \<open>
  The answer a bounded first-in first-out container has to give, from its first content \<open>old\<close> and the
  answers before: a push is taken exactly if there is room for it, and a pop hands out the first element
  that is not out yet, and nothing only if all are.
\<close>

fun right_answer :: "nat option \<Rightarrow> 'a list \<Rightarrow> 'a qres list \<Rightarrow> 'a qres \<Rightarrow> bool" where
  "right_answer bnd old before (Accepted x) \<longleftrightarrow>
     (case bnd of None \<Rightarrow> True | Some n \<Rightarrow> length old + length (accepted_of before) < n + length (got_of before))"
| "right_answer bnd old before (Refused x) \<longleftrightarrow>
     (case bnd of None \<Rightarrow> False | Some n \<Rightarrow> n + length (got_of before) \<le> length old + length (accepted_of before))"
| "right_answer bnd old before (Got x) \<longleftrightarrow>
     length (got_of before) < length (old @ accepted_of before) \<and> x = (old @ accepted_of before) ! length (got_of before)"
| "right_answer bnd old before Nothing \<longleftrightarrow> got_of before = old @ accepted_of before"

locale fifo =
  fixes contents :: "'s \<Rightarrow> 'a list"
    and limit :: "'s \<Rightarrow> nat option"
    and full :: "'s \<Rightarrow> bool"
    and psh :: "'a \<Rightarrow> 's \<Rightarrow> bool \<times> 's"
    and pp :: "'s \<Rightarrow> ('a \<times> 's) option"
  assumes full_iff: "full s \<longleftrightarrow> (case limit s of None \<Rightarrow> False | Some n \<Rightarrow> n \<le> length (contents s))"
    and push_ok: "\<not> full s \<Longrightarrow> fst (psh x s) \<and> contents (snd (psh x s)) = contents s @ [x] \<and> limit (snd (psh x s)) = limit s"
    and push_full: "full s \<Longrightarrow> psh x s = (False, s)"
    and pop_empty: "contents s = [] \<Longrightarrow> pp s = None"
    and pop_hd: "contents s = y # ys \<Longrightarrow> \<exists>s'. pp s = Some (y, s') \<and> contents s' = ys \<and> limit s' = limit s"
begin

text \<open>One operation, when \<open>old\<close> and the answers \<open>before\<close> led to the state \<open>s\<close>.\<close>

definition reached :: "nat option \<Rightarrow> 'a list \<Rightarrow> 'a qres list \<Rightarrow> 's \<Rightarrow> bool" where
  "reached bnd old before s \<longleftrightarrow> limit s = bnd \<and> old @ accepted_of before = got_of before @ contents s"

lemma reached_lengths:
  "reached bnd old before s \<Longrightarrow> length old + length (accepted_of before) = length (got_of before) + length (contents s)"
  unfolding reached_def by (metis length_append)

lemma run_step:
  assumes "reached bnd old before s"
  obtains r s' where "fifo_run psh pp (oper # ops) s = (r # fst (fifo_run psh pp ops s'), snd (fifo_run psh pp ops s'))"
    "res_op r = oper" "right_answer bnd old before r" "reached bnd old (before @ [r]) s'"
proof -
  note l = reached_lengths[OF assms]
  have app: "accepted_of (before @ [r]) = accepted_of before @ accepted_of [r]" "got_of (before @ [r]) = got_of before @ got_of [r]" for r
    by (simp_all add: accepted_of_def got_of_def)
  show thesis
  proof (cases oper)
    case (Push x)
    show thesis
    proof (cases "full s")
      case True
      show thesis
        using True assms l Push push_full[OF True, of x] full_iff[of s]
        by (intro that[of "Refused x" s]) (auto simp: app reached_def split: option.splits prod.splits)
    next
      case False
      show thesis
        using False assms l Push push_ok[OF False, of x] full_iff[of s]
        by (intro that[of "Accepted x" "snd (psh x s)"]) (auto simp: app reached_def split: option.splits prod.splits)
    qed
  next
    case Pop
    show thesis
    proof (cases "contents s")
      case Nil
      show thesis
        using Nil assms Pop pop_empty[OF Nil] by (intro that[of Nothing s]) (auto simp: app reached_def split: prod.splits)
    next
      case (Cons y ys)
      obtain s' where "pp s = Some (y, s')" "contents s' = ys" "limit s' = limit s" using pop_hd[OF Cons] by blast
      then show thesis
        using Cons assms Pop by (intro that[of "Got y" s']) (auto simp: app reached_def nth_append split: prod.splits)
    qed
  qed
qed

lemma run_answers:
  assumes "reached bnd old before s" "fifo_run psh pp ops s = (rs, t)"
  shows "map res_op rs = ops" and "k < length rs \<Longrightarrow> right_answer bnd old (before @ take k rs) (rs ! k)"
    and "reached bnd old (before @ rs) t"
proof -
  have "map res_op rs = ops \<and> (\<forall>k < length rs. right_answer bnd old (before @ take k rs) (rs ! k)) \<and> reached bnd old (before @ rs) t"
    using assms
  proof (induction ops arbitrary: before s rs)
    case (Cons oper ops)
    obtain r s' where r: "fifo_run psh pp (oper # ops) s = (r # fst (fifo_run psh pp ops s'), snd (fifo_run psh pp ops s'))"
      "res_op r = oper" "right_answer bnd old before r" "reached bnd old (before @ [r]) s'"
      by (rule run_step[OF Cons.prems(1)])
    obtain rs' where rs': "rs = r # rs'" "fifo_run psh pp ops s' = (rs', t)" using r(1) Cons.prems(2) by (cases "fifo_run psh pp ops s'") auto
    have "right_answer bnd old (before @ take k rs) (rs ! k)" if "k < length rs" for k
      using Cons.IH[OF r(4) rs'(2)] r(3) that rs'(1) by (cases k) auto
    then show ?case using Cons.IH[OF r(4) rs'(2)] r(2) rs'(1) by simp
  qed simp
  then show "map res_op rs = ops" and "k < length rs \<Longrightarrow> right_answer bnd old (before @ take k rs) (rs ! k)"
    and "reached bnd old (before @ rs) t" by blast+
qed

lemma reached_start: "reached (limit s) (contents s) [] s"
  by (simp add: reached_def)

end

definition queue_limit :: "'a queue \<Rightarrow> nat option" where
  "queue_limit q = (if q_isSetMax q then Some (size_of_int (q_max q)) else None)"

interpretation lq: fifo q_items queue_limit queue_full queue_push queue_pop
  by unfold_locales (auto simp: queue_push_def queue_pop_def queue_limit_def queue_full_def)

text \<open>
  C16. Whatever operations run on a \<open>Queue\<close>, every answer is the right one: a push is refused exactly if the
  queue has a maximum and holds that many elements, a pop hands out the oldest element that is not out yet
  and fails exactly if the queue is empty. At the end the elements already queued followed by the elements
  taken are the elements handed out followed by the elements still queued: nothing is lost, duplicated or
  reordered.
\<close>

theorem queue_fifo:
  assumes "fifo_run queue_push queue_pop ops q = (answers, q')"
  shows "map res_op answers = ops \<and>
    (\<forall>k < length ops. right_answer (queue_limit q) (q_items q) (take k answers) (answers ! k)) \<and>
    q_items q @ accepted_of answers = got_of answers @ q_items q'"
proof -
  note a = lq.run_answers[OF lq.reached_start assms]
  have "length answers = length ops" using a(1) by (metis length_map)
  moreover have "q_items q @ accepted_of answers = got_of answers @ q_items q'"
    using a(3) unfolding lq.reached_def by simp
  ultimately show ?thesis using a(1,2) by simp
qed

theorem queue_fifo_witness:
  "fifo_run queue_push queue_pop [Push 1, Push 2, Push 3, Pop, Push 4, Pop, Pop, Pop] (queue_new_max 2) =
     ([Accepted (1 :: nat), Accepted 2, Refused 3, Got 1, Accepted 4, Got 2, Got 4, Nothing], queue_setMax 2 queue_new) \<and>
   right_answer (Some 2) ([] :: nat list) [Accepted 1, Accepted 2] (Refused 3)"
proof -
  have run: "fifo_run queue_push queue_pop [Push 1, Push 2, Push 3, Pop, Push 4, Pop, Pop, Pop] (queue_new_max 2) =
     ([Accepted (1 :: nat), Accepted 2, Refused 3, Got 1, Accepted 4, Got 2, Got 4, Nothing], queue_setMax 2 queue_new)"
    by (simp add: queue_push_def queue_full_def queue_pop_def queue_new_max_def queue_setMax_def
        queue_new_def to_i32_id)
  show ?thesis
    using queue_fifo[OF run] run
    by (auto simp: queue_limit_def queue_new_max_def queue_setMax_def queue_new_def to_i32_id dest!: spec[of _ 2])
qed

lemma vector_push_bounded:
  "v_isSetMax v \<Longrightarrow> vector_wf v \<Longrightarrow>
     v_items (vector_push t v) =
       drop (Suc (length (v_items v)) - size_of_int (v_max v)) (v_items v @ [t])"
  by (cases "v_items v"; cases "length (v_items v) = size_of_int (v_max v)")
    (auto simp: vector_push_def vector_wf_def Let_def)

lemma vector_push_max [simp]:
  "v_isSetMax (vector_push t v) = v_isSetMax v" "v_max (vector_push t v) = v_max v"
  by (simp_all add: vector_push_def Let_def)

text \<open>
  A \<open>Vector\<close> with a maximum is a sliding window: after pushing any list of
  elements it holds the last \<open>max\<close> elements of its old content followed by the new ones, in
  order.
\<close>

lemma vector_keeps_last:
  assumes "v_isSetMax v" and "vector_wf v"
  shows "v_items (fold vector_push xs v) =
    drop (length (v_items v) + length xs - size_of_int (v_max v)) (v_items v @ xs)"
  using assms
proof (induction xs arbitrary: v)
  case Nil
  then show ?case by (simp add: vector_wf_def)
next
  case (Cons x xs)
  let ?m = "size_of_int (v_max v)" and ?n = "length (v_items v)"
  have "v_items (fold vector_push xs (vector_push x v)) =
      drop (length (v_items (vector_push x v)) + length xs - ?m) (v_items (vector_push x v) @ xs)"
    using Cons.prems by (simp add: Cons.IH vector_wf_push)
  also have "\<dots> = drop (?n + Suc (length xs) - ?m) ((v_items v @ [x]) @ xs)"
  proof -
    let ?k = "Suc ?n - ?m"
    have "drop ?k (v_items v @ [x]) @ xs = drop ?k ((v_items v @ [x]) @ xs)"
      by (simp only: drop_append) simp
    moreover have "(length (drop ?k (v_items v @ [x])) + length xs - ?m) + ?k = ?n + Suc (length xs) - ?m"
      using Cons.prems by (simp add: vector_wf_def)
    ultimately show ?thesis unfolding vector_push_bounded[OF Cons.prems] by (simp only: drop_drop)
  qed
  finally show ?case by simp
qed

lemma vector_keeps_last_witness:
  "v_items (fold vector_push [3, 4] ((vector_new_max 2)\<lparr>v_items := [1, 2 :: nat]\<rparr>)) = [3, 4]"
proof -
  have s: "v_isSetMax ((vector_new_max 2)\<lparr>v_items := [1, 2 :: nat]\<rparr>)"
    and w: "vector_wf ((vector_new_max 2)\<lparr>v_items := [1, 2 :: nat]\<rparr>)"
    by (simp_all add: vector_wf_def vector_new_max_def vector_setMax_def vector_new_def to_i32_id)
  show ?thesis
    using vector_keeps_last[OF s w, of "[3, 4]"]
    by (simp add: vector_new_max_def vector_setMax_def vector_new_def to_i32_id)
qed

end
