(* ===== verification/RingBuf.thy ===== *)
theory RingBuf
  imports Prelude
begin

text \<open>
  The receive buffer of a connection, \<open>ringbuffer/RingBuffer.cpp\<close>: a byte array used modulo its
  capacity, with a read and a write position and the two fill counters. \<open>Read\<close> and \<open>Write\<close>
  move all the bytes asked for or none. The positions and counters are \<open>int\<close> in the code and
  the only capacity used is 4 MiB, far from overflow, so they are naturals here.

  The locale \<open>byte_stream\<close> is what the framing state machine relies on, and the ring buffer
  interprets it: seen through \<open>ring_abs\<close> it is a bounded queue of bytes.
\<close>

section \<open>Operations\<close>

record ring =
  rb_buff :: bytes
  rb_capacity :: nat
  rb_read_pos :: nat
  rb_write_pos :: nat
  rb_avail_read :: nat
  rb_avail_write :: nat

text \<open>The array of a new buffer is uninitialised; \<open>buff\<close> is what it holds.\<close>

definition ring_new :: "bytes \<Rightarrow> ring" where
  "ring_new buff = \<lparr>rb_buff = buff, rb_capacity = length buff, rb_read_pos = 0,
     rb_write_pos = 0, rb_avail_read = 0, rb_avail_write = length buff\<rparr>"

text \<open>\<open>memcpy(&buff[pos], data, n)\<close> and the \<open>n\<close> bytes at \<open>buff + pos\<close>.\<close>

definition mem_put :: "nat \<Rightarrow> bytes \<Rightarrow> bytes \<Rightarrow> bytes" where
  "mem_put pos xs buf = take pos buf @ xs @ drop (pos + length xs) buf"

definition mem_get :: "nat \<Rightarrow> nat \<Rightarrow> bytes \<Rightarrow> bytes" where
  "mem_get pos n buf = take n (drop pos buf)"

text \<open>\<open>Read\<close>: \<open>None\<close> where the code prints an error, returns 0 and leaves \<open>data\<close> as it was.\<close>

definition ring_read :: "nat \<Rightarrow> ring \<Rightarrow> (bytes \<times> ring) option" where
  "ring_read count r =
     (if count \<le> rb_avail_read r then
        let (xs, rp) =
          (if rb_capacity r < rb_read_pos r + count then
             let len = rb_capacity r - rb_read_pos r
             in (mem_get (rb_read_pos r) len (rb_buff r) @ mem_get 0 (count - len) (rb_buff r),
                 count - len)
           else (mem_get (rb_read_pos r) count (rb_buff r), rb_read_pos r + count));
          avail = rb_avail_read r - count
        in Some (xs, r\<lparr>rb_read_pos := rp mod rb_capacity r, rb_avail_read := avail,
                        rb_avail_write := rb_capacity r - avail\<rparr>)
      else None)"

definition ring_write :: "bytes \<Rightarrow> ring \<Rightarrow> nat \<times> ring" where
  "ring_write xs r =
     (let count = length xs in
      if count \<le> rb_avail_write r then
        let (buf, wp) =
          (if rb_capacity r < rb_write_pos r + count then
             let len = rb_capacity r - rb_write_pos r
             in (mem_put 0 (drop len xs) (mem_put (rb_write_pos r) (take len xs) (rb_buff r)),
                 count - len)
           else (mem_put (rb_write_pos r) xs (rb_buff r), rb_write_pos r + count));
          avail = rb_avail_read r + count
        in (count, r\<lparr>rb_buff := buf, rb_write_pos := wp mod rb_capacity r,
                      rb_avail_read := avail, rb_avail_write := rb_capacity r - avail\<rparr>)
      else (0, r))"

definition ring_GetReadLen :: "ring \<Rightarrow> nat" where
  "ring_GetReadLen r = rb_avail_read r"

definition ring_GetWriteLen :: "ring \<Rightarrow> nat" where
  "ring_GetWriteLen r = rb_avail_write r"

section \<open>Abstraction to a queue of bytes\<close>

definition ring_wf :: "ring \<Rightarrow> bool" where
  "ring_wf r \<longleftrightarrow> 0 < rb_capacity r \<and> length (rb_buff r) = rb_capacity r \<and>
     rb_read_pos r < rb_capacity r \<and>
     rb_write_pos r = (rb_read_pos r + rb_avail_read r) mod rb_capacity r \<and>
     rb_avail_read r \<le> rb_capacity r \<and> rb_avail_write r = rb_capacity r - rb_avail_read r"

definition ring_abs :: "ring \<Rightarrow> bytes" where
  "ring_abs r = map (\<lambda>i. rb_buff r ! ((rb_read_pos r + i) mod rb_capacity r)) [0..<rb_avail_read r]"

lemma length_ring_abs [simp]: "length (ring_abs r) = rb_avail_read r"
  by (simp add: ring_abs_def)

lemma ring_wf_new [wf_rules]: "buff \<noteq> [] \<Longrightarrow> ring_wf (ring_new buff)"
  by (simp add: ring_wf_def ring_new_def)

lemma ring_abs_new [simp]: "ring_abs (ring_new buff) = []"
  by (simp add: ring_abs_def ring_new_def)

lemma mod_wrap: "a < c + c \<Longrightarrow> a mod c = (if a < c then a else a - c)" for a c :: nat
  by (simp add: le_mod_geq)

lemma mem_put_length [simp]: "pos + length xs \<le> length buf \<Longrightarrow> length (mem_put pos xs buf) = length buf"
  by (simp add: mem_put_def)

lemma mem_put_nth:
  "pos + length xs \<le> length buf \<Longrightarrow> j < length buf \<Longrightarrow>
     mem_put pos xs buf ! j = (if pos \<le> j \<and> j < pos + length xs then xs ! (j - pos) else buf ! j)"
  by (auto simp: mem_put_def nth_append min_def)

lemma mem_get_length [simp]: "pos + n \<le> length buf \<Longrightarrow> length (mem_get pos n buf) = n"
  by (simp add: mem_get_def)

lemma mem_get_nth: "pos + n \<le> length buf \<Longrightarrow> i < n \<Longrightarrow> mem_get pos n buf ! i = buf ! (pos + i)"
  by (simp add: mem_get_def)

lemma ring_read_bytes:
  assumes wf: "ring_wf r" and n: "n \<le> rb_avail_read r"
  shows "(if rb_capacity r < rb_read_pos r + n
      then mem_get (rb_read_pos r) (rb_capacity r - rb_read_pos r) (rb_buff r) @
           mem_get 0 (n - (rb_capacity r - rb_read_pos r)) (rb_buff r)
      else mem_get (rb_read_pos r) n (rb_buff r)) = take n (ring_abs r)"
    (is "?l = _")
proof (rule nth_equalityI)
  have len: "length ?l = n"
    using wf n by (auto simp: ring_wf_def)
  then show "length ?l = length (take n (ring_abs r))" using n by simp
  fix i assume "i < length ?l"
  then have i: "i < n" unfolding len .
  then have "take n (ring_abs r) ! i = rb_buff r ! ((rb_read_pos r + i) mod rb_capacity r)"
    using n by (simp add: ring_abs_def)
  moreover have "?l ! i = rb_buff r ! ((rb_read_pos r + i) mod rb_capacity r)"
    using wf n i by (auto simp: ring_wf_def mod_wrap mem_get_nth nth_append add.commute intro: arg_cong)
  ultimately show "?l ! i = take n (ring_abs r) ! i" by simp
qed

lemma ring_read_pos:
  assumes "ring_wf r" and "n \<le> rb_avail_read r"
  shows "(if rb_capacity r < rb_read_pos r + n then n - (rb_capacity r - rb_read_pos r)
      else rb_read_pos r + n) mod rb_capacity r = (rb_read_pos r + n) mod rb_capacity r"
  using assms by (auto simp: ring_wf_def mod_wrap)

lemma ring_read_eq:
  assumes "ring_wf r" and "n \<le> rb_avail_read r"
  shows "ring_read n r = Some (take n (ring_abs r),
     r\<lparr>rb_read_pos := (rb_read_pos r + n) mod rb_capacity r, rb_avail_read := rb_avail_read r - n,
       rb_avail_write := rb_capacity r - (rb_avail_read r - n)\<rparr>)"
  using assms ring_read_bytes[OF assms, symmetric] ring_read_pos[OF assms]
  by (simp add: ring_read_def Let_def split: if_splits)

lemma ring_advance:
  assumes "ring_wf r" and "n \<le> rb_avail_read r"
  defines "r' \<equiv> r\<lparr>rb_read_pos := (rb_read_pos r + n) mod rb_capacity r,
    rb_avail_read := rb_avail_read r - n, rb_avail_write := rb_capacity r - (rb_avail_read r - n)\<rparr>"
  shows "ring_wf r'" and "ring_abs r' = drop n (ring_abs r)"
proof -
  obtain k where "rb_avail_read r = n + k" using assms(2) by (auto simp: le_iff_add)
  then show "ring_wf r'" using assms by (auto simp: ring_wf_def mod_simps add.assoc)
  show "ring_abs r' = drop n (ring_abs r)"
    using assms by (intro nth_equalityI) (auto simp: ring_abs_def mod_simps add.assoc)
qed

text \<open>The array after \<open>Write\<close>: the slots from the write position on, modulo the capacity.\<close>

lemma ring_write_nth:
  assumes "length buf = cap" "wp < cap" "length xs \<le> cap" "j < cap"
  shows "(if cap < wp + length xs
      then mem_put 0 (drop (cap - wp) xs) (mem_put wp (take (cap - wp) xs) buf)
      else mem_put wp xs buf) ! j =
    (if (j + (cap - wp)) mod cap < length xs then xs ! ((j + (cap - wp)) mod cap) else buf ! j)"
  using assms by (auto simp: mem_put_nth mod_wrap intro: arg_cong)

lemma ring_write_eq:
  assumes "ring_wf r" and "length xs \<le> rb_avail_write r"
  shows "fst (ring_write xs r) = length xs \<and> ring_wf (snd (ring_write xs r)) \<and>
    ring_abs (snd (ring_write xs r)) = ring_abs r @ xs"
proof -
  let ?c = "rb_capacity r" and ?rp = "rb_read_pos r" and ?wp = "rb_write_pos r"
    and ?a = "rb_avail_read r"
  define buf where "buf = (if ?c < ?wp + length xs
      then mem_put 0 (drop (?c - ?wp) xs) (mem_put ?wp (take (?c - ?wp) xs) (rb_buff r))
      else mem_put ?wp xs (rb_buff r))"
  define r' where "r' = r\<lparr>rb_buff := buf, rb_write_pos := (?wp + length xs) mod ?c,
    rb_avail_read := ?a + length xs, rb_avail_write := ?c - (?a + length xs)\<rparr>"
  have b: "length (rb_buff r) = ?c" "?rp < ?c" "?wp < ?c" "?a + length xs \<le> ?c" "0 < ?c"
    and wp: "?wp = (?rp + ?a) mod ?c"
    using assms by (auto simp: ring_wf_def)
  have w: "ring_write xs r = (length xs, r')"
    using assms b by (auto simp: ring_write_def Let_def r'_def buf_def mod_wrap)
  have len: "length buf = ?c" using b by (simp add: buf_def)
  have "ring_wf r'"
    using assms(1) b len unfolding r'_def ring_wf_def by (simp add: mod_simps add.assoc)
  moreover have "ring_abs r' = ring_abs r @ xs"
  proof (rule nth_equalityI)
    show "length (ring_abs r') = length (ring_abs r @ xs)" by (simp add: r'_def)
    fix i assume "i < length (ring_abs r')"
    then have i: "i < ?a + length xs" by (simp add: r'_def)
    let ?j = "(?rp + i) mod ?c"
    have k: "(?j + (?c - ?wp)) mod ?c = (if ?a \<le> i then i - ?a else i + ?c - ?a)"
      using b i unfolding wp by (auto simp: mod_wrap)
    have "ring_abs r' ! i = buf ! ?j" using i by (simp add: ring_abs_def r'_def)
    also have "\<dots> = (ring_abs r @ xs) ! i"
      unfolding buf_def using b i k
      by (subst ring_write_nth) (auto simp: ring_abs_def nth_append)
    finally show "ring_abs r' ! i = (ring_abs r @ xs) ! i" .
  qed
  ultimately show ?thesis using w by simp
qed

section \<open>The byte stream contract\<close>

locale byte_stream =
  fixes wf :: "'s \<Rightarrow> bool"
    and pending :: "'s \<Rightarrow> bytes"
    and cap :: "'s \<Rightarrow> nat"
    and avail :: "'s \<Rightarrow> nat"
    and rd :: "nat \<Rightarrow> 's \<Rightarrow> (bytes \<times> 's) option"
    and wr :: "bytes \<Rightarrow> 's \<Rightarrow> nat \<times> 's"
  assumes avail_pending: "wf s \<Longrightarrow> avail s = length (pending s)"
    and rd_ok: "wf s \<Longrightarrow> n \<le> length (pending s) \<Longrightarrow>
      \<exists>s'. rd n s = Some (take n (pending s), s') \<and> wf s' \<and> pending s' = drop n (pending s) \<and> cap s' = cap s"
    and rd_short: "wf s \<Longrightarrow> length (pending s) < n \<Longrightarrow> rd n s = None"
    and wr_ok: "wf s \<Longrightarrow> length (pending s) + length xs \<le> cap s \<Longrightarrow>
      fst (wr xs s) = length xs \<and> wf (snd (wr xs s)) \<and> pending (snd (wr xs s)) = pending s @ xs \<and>
      cap (snd (wr xs s)) = cap s"
    and wr_full: "wf s \<Longrightarrow> cap s < length (pending s) + length xs \<Longrightarrow> wr xs s = (0, s)"
begin

lemma rd_wf: "wf s \<Longrightarrow> rd n s = Some (xs, s') \<Longrightarrow> wf s'"
  using rd_ok[of s n] rd_short[of s n] by (cases "n \<le> length (pending s)") auto

lemma wr_wf: "wf s \<Longrightarrow> wf (snd (wr xs s))"
  using wr_ok[of s xs] wr_full[of s xs]
  by (cases "length (pending s) + length xs \<le> cap s") auto

text \<open>Reading in two steps is reading at once.\<close>

lemma rd_rd:
  assumes "wf s" and "rd m s = Some (xs, s1)" and "rd n s1 = Some (ys, s2)"
  shows "\<exists>s3. rd (m + n) s = Some (xs @ ys, s3) \<and> pending s3 = pending s2"
proof -
  have m: "m \<le> length (pending s)"
    using assms(1,2) rd_short[of s m] by (cases "m \<le> length (pending s)") auto
  then have s1: "xs = take m (pending s)" "pending s1 = drop m (pending s)" "wf s1"
    using rd_ok[OF assms(1) m] assms(2) by auto
  have n: "n \<le> length (pending s1)"
    using s1(3) assms(3) rd_short[of s1 n] by (cases "n \<le> length (pending s1)") auto
  then have s2: "ys = take n (pending s1)" "pending s2 = drop n (pending s1)"
    using rd_ok[OF s1(3) n] assms(3) by auto
  have "m + n \<le> length (pending s)" using m n s1(2) by simp
  from rd_ok[OF assms(1) this] show ?thesis
    using s1 s2 by (auto simp: take_add add.commute)
qed

text \<open>What one \<open>wr\<close> that fits appends is read back after the bytes before it.\<close>

lemma wr_rd:
  assumes "wf s" and "length (pending s) + length xs \<le> cap s"
  shows "\<exists>s1 s2. rd (length (pending s)) (snd (wr xs s)) = Some (pending s, s1) \<and>
    rd (length xs) s1 = Some (xs, s2) \<and> pending s2 = []"
proof -
  let ?s = "snd (wr xs s)"
  have w: "wf ?s" "pending ?s = pending s @ xs" using wr_ok[OF assms] by auto
  then obtain s1 where s1: "rd (length (pending s)) ?s = Some (pending s, s1)" "wf s1"
    "pending s1 = xs"
    using rd_ok[of ?s "length (pending s)"] by auto
  then show ?thesis using rd_ok[of s1 "length xs"] by auto
qed

end

lemma ring_write_capacity [simp]: "rb_capacity (snd (ring_write xs r)) = rb_capacity r"
  by (simp add: ring_write_def Let_def split: prod.splits)

interpretation rs: byte_stream ring_wf ring_abs rb_capacity ring_GetReadLen ring_read ring_write
proof unfold_locales
  fix s :: ring and n assume "ring_wf s" "n \<le> length (ring_abs s)"
  then show "\<exists>s'. ring_read n s = Some (take n (ring_abs s), s') \<and> ring_wf s' \<and>
      ring_abs s' = drop n (ring_abs s) \<and> rb_capacity s' = rb_capacity s"
    using ring_advance[of s n] by (simp add: ring_read_eq)
next
  fix s :: ring and xs :: bytes assume "ring_wf s" "length (ring_abs s) + length xs \<le> rb_capacity s"
  then show "fst (ring_write xs s) = length xs \<and> ring_wf (snd (ring_write xs s)) \<and>
      ring_abs (snd (ring_write xs s)) = ring_abs s @ xs \<and> rb_capacity (snd (ring_write xs s)) = rb_capacity s"
    by (intro conjI[OF _ conjI[OF _ conjI]])
      (use ring_write_eq[of s xs] in \<open>auto simp: ring_wf_def\<close>)
qed (auto simp: ring_GetReadLen_def ring_read_def ring_write_def ring_wf_def Let_def)

text \<open>
  C10. The ring buffer is a bounded queue of bytes. On a well-formed buffer \<open>Write\<close> appends
  all its bytes when they fit in the free space and otherwise changes nothing and returns 0;
  \<open>Read\<close> of \<open>n\<close> bytes returns the oldest \<open>n\<close> and removes them, or fails when fewer are held; both
  keep the buffer well-formed.
\<close>

theorem ring_refines_queue:
  assumes "ring_wf r"
  shows "(length (ring_abs r) < n \<longrightarrow> ring_read n r = None)
    \<and> (n \<le> length (ring_abs r) \<longrightarrow>
        (\<exists>r'. ring_read n r = Some (take n (ring_abs r), r') \<and> ring_wf r' \<and>
              ring_abs r' = drop n (ring_abs r)))
    \<and> (let (k, r') = ring_write xs r in ring_wf r' \<and>
        (if length (ring_abs r) + length xs \<le> rb_capacity r
         then k = length xs \<and> ring_abs r' = ring_abs r @ xs else k = 0 \<and> r' = r))"
  using rs.rd_ok[OF assms, of n] rs.rd_short[OF assms, of n] rs.wr_ok[OF assms, of xs]
    rs.wr_full[OF assms, of xs] assms
  by (auto simp: Let_def split: prod.splits)

theorem ring_refines_queue_witness:
  "ring_abs (snd (ring_write [7, 8] \<lparr>rb_buff = [1, 2, 3, 4], rb_capacity = 4, rb_read_pos = 2,
     rb_write_pos = 3, rb_avail_read = 1, rb_avail_write = 3\<rparr>)) = [3, 7, 8]"
proof -
  let ?r = "\<lparr>rb_buff = [1, 2, 3, 4], rb_capacity = 4, rb_read_pos = 2,
     rb_write_pos = 3, rb_avail_read = 1, rb_avail_write = 3\<rparr> :: ring"
  have wf: "ring_wf ?r" and a: "ring_abs ?r = [3]" by (simp_all add: ring_wf_def ring_abs_def)
  show ?thesis
    using ring_refines_queue[OF wf, of 0 "[7, 8]"] unfolding a
    by (simp add: Let_def split: prod.splits)
qed

end
