(* ===== verification/Handler.thy ===== *)
theory Handler
  imports Frame Queues RingBuf
begin

text \<open>
  The per-connection state machine of \<open>myTcp/MyTcpHandler.hpp\<close>: bytes arrive in a ring buffer,
  \<open>ThreadStateMachine\<close> cuts them into frames and queues the packets whose checksum is right, and
  \<open>ThreadProcessPkg\<close> takes them off the queue and dispatches them by command. \<open>sm_step\<close> is one
  round of the first loop, \<open>process_step\<close> one round of the second.

  The heap block \<open>pkgBuffer\<close> has \<open>pkgHead.len\<close> bytes, and the \<open>int\<close> index \<open>pkgBufferIndex\<close> is kept as
  its 32 bits: from 2 GiB on it is negative. A write outside the block is undefined in C++; here it is the
  error \<open>Heap_overflow\<close>, so every write of the code is checked. That \<open>new\<close> finds the memory for the block
  is assumed. What the code logs about a finished frame is the event a step returns.
\<close>

section \<open>State\<close>

datatype RecvStatus = Start | GetHead | GetBody | GetCRC

record handler =
  hd_rb :: ring
  hd_pkgs :: "Pkg queue"
  hd_status :: RecvStatus
  hd_pkgHead :: PkgHead
  hd_bodyLen :: u64
  hd_pkgBuffer :: bytes
  hd_pkgBufferIndex :: u32
  hd_isRun :: bool
  hd_timeSend :: u64
  hd_timeRecv :: u64

definition head_default :: PkgHead where
  "head_default = \<lparr>h_tag = 0x24, h_version = 0, h_cmd = cmd_code CmdUnknown, h_sn = 0,
     h_deviceNO = 0, h_len = 0\<rparr>"

definition pkg_default :: Pkg where
  "pkg_default = \<lparr>p_head = head_default, p_body = [], p_crc = 0\<rparr>"

text \<open>
  The constructor. \<open>buff\<close> is the uninitialised array of the ring buffer, of \<open>BUFFER_SIZE\<close> (4 MiB)
  bytes in the code and of any size here.
\<close>

definition handler_new :: "bytes \<Rightarrow> handler" where
  "handler_new buff = \<lparr>hd_rb = ring_new buff, hd_pkgs = queue_setMax 30 queue_new,
     hd_status = Start, hd_pkgHead = head_default, hd_bodyLen = 0, hd_pkgBuffer = [],
     hd_pkgBufferIndex = 0, hd_isRun = False, hd_timeSend = 0, hd_timeRecv = 0\<rparr>"

definition startBusiness :: "handler \<Rightarrow> handler" where
  "startBusiness h = h\<lparr>hd_isRun := True\<rparr>"

definition stopBusiness :: "handler \<Rightarrow> handler" where
  "stopBusiness h = h\<lparr>hd_isRun := False\<rparr>"

section \<open>The state machine\<close>

datatype sm_error = Heap_overflow | Unpack_threw

datatype sm_event = No_event | Unpack_err | Crc_fail Pkg | Push_fail Pkg | Push_ok Pkg

text \<open>A copy of \<open>xs\<close> to offset \<open>i\<close> of a block of \<open>n\<close> bytes of which \<open>buf\<close> is the filled part.\<close>

definition buf_write :: "nat \<Rightarrow> int \<Rightarrow> bytes \<Rightarrow> bytes \<Rightarrow> bytes option" where
  "buf_write n i xs buf = (if i < 0 \<or> n < nat i + length xs then None else Some (take (nat i) buf @ xs))"

text \<open>The statements that end every branch of \<open>GetCRC\<close>.\<close>

definition sm_reset :: "handler \<Rightarrow> handler" where
  "sm_reset h = h\<lparr>hd_bodyLen := 0, hd_pkgBuffer := [], hd_pkgBufferIndex := 0, hd_status := Start\<rparr>"

definition sm_start :: "handler \<Rightarrow> handler" where
  "sm_start h =
     (case ring_read 1 (hd_rb h) of
        None \<Rightarrow> h
      | Some (start, rb) \<Rightarrow>
          if start = [0x24] then h\<lparr>hd_rb := rb, hd_status := GetHead\<rparr> else h\<lparr>hd_rb := rb\<rparr>)"

definition sm_getHead :: "handler \<Rightarrow> sm_error + handler" where
  "sm_getHead h =
     (if ring_GetReadLen (hd_rb h) < sizeof_head - 1 then Inr h
      else case ring_read (sizeof_head - 1) (hd_rb h) of
        None \<Rightarrow> Inr h
      | Some (bs, rb) \<Rightarrow>
          let head = head_of (0x24 # bs)
          in case buf_write (unat (h_len head)) 0 (head_bytes head) [] of
               None \<Rightarrow> Inl Heap_overflow
             | Some buf \<Rightarrow> Inr (h\<lparr>hd_rb := rb, hd_pkgHead := head, hd_pkgBuffer := buf,
                 hd_pkgBufferIndex := word_of_nat sizeof_head, hd_status := GetBody,
                 hd_bodyLen := ucast (h_len head) - word_of_nat sizeof_head - word_of_nat sizeof_crc\<rparr>))"

definition sm_getBody :: "handler \<Rightarrow> sm_error + handler" where
  "sm_getBody h =
     (let canRead = word_of_nat (ring_GetReadLen (hd_rb h)) :: u64;
          readLen = (if canRead < hd_bodyLen h then canRead else hd_bodyLen h)
      in case ring_read (unat readLen) (hd_rb h) of
           None \<Rightarrow> Inr h
         | Some (bs, rb) \<Rightarrow>
             (case buf_write (unat (h_len (hd_pkgHead h))) (sint (hd_pkgBufferIndex h)) bs (hd_pkgBuffer h) of
                None \<Rightarrow> Inl Heap_overflow
              | Some buf \<Rightarrow>
                  let h = h\<lparr>hd_rb := rb, hd_pkgBuffer := buf, hd_bodyLen := hd_bodyLen h - readLen,
                            hd_pkgBufferIndex := hd_pkgBufferIndex h + ucast readLen\<rparr>
                  in Inr (if hd_bodyLen h = 0 then h\<lparr>hd_status := GetCRC\<rparr> else h)))"

definition sm_getCRC :: "handler \<Rightarrow> sm_error + handler \<times> sm_event" where
  "sm_getCRC h =
     (if ring_GetReadLen (hd_rb h) < sizeof_crc then Inr (h, No_event)
      else case ring_read sizeof_crc (hd_rb h) of
        None \<Rightarrow> Inr (h, No_event)
      | Some (bs, rb) \<Rightarrow>
          (case buf_write (unat (h_len (hd_pkgHead h))) (sint (hd_pkgBufferIndex h)) bs (hd_pkgBuffer h) of
             None \<Rightarrow> Inl Heap_overflow
           | Some buf \<Rightarrow>
               let h = h\<lparr>hd_rb := rb\<rparr>
               in case Unpack buf (h_len (hd_pkgHead h)) pkg_default of
                    Inl e \<Rightarrow> Inl Unpack_threw
                  | Inr (ret, pkg) \<Rightarrow>
                      if ret \<noteq> 0 then Inr (sm_reset h, Unpack_err)
                      else if Crc16TabCCITT (take (unat (h_len (hd_pkgHead h) - 2)) buf) \<noteq> p_crc pkg
                      then Inr (sm_reset h, Crc_fail pkg)
                      else let (ok, q) = queue_push pkg (hd_pkgs h)
                           in Inr (sm_reset (h\<lparr>hd_pkgs := q\<rparr>),
                                   if ok then Push_ok pkg else Push_fail pkg)))"

definition sm_step :: "handler \<Rightarrow> sm_error + handler \<times> sm_event" where
  "sm_step h =
     (if ring_GetReadLen (hd_rb h) = 0 then Inr (h, No_event)
      else case hd_status h of
        Start \<Rightarrow> Inr (sm_start h, No_event)
      | GetHead \<Rightarrow> map_sum id (\<lambda>h. (h, No_event)) (sm_getHead h)
      | GetBody \<Rightarrow> map_sum id (\<lambda>h. (h, No_event)) (sm_getBody h)
      | GetCRC \<Rightarrow> sm_getCRC h)"

text \<open>
  A round of \<open>ThreadProcessPkg\<close>: the packet taken off the queue, with the function found for its
  command in \<open>PkgProcessMap\<close>, if there is one.
\<close>

definition process_step :: "(CmdType \<Rightarrow> 'f option) \<Rightarrow> handler \<Rightarrow> handler \<times> (Pkg \<times> 'f option) option" where
  "process_step pkgProcessMap h =
     (case queue_pop (hd_pkgs h) of
        None \<Rightarrow> (h, None)
      | Some (pkg, q) \<Rightarrow> (h\<lparr>hd_pkgs := q\<rparr>, Some (pkg, pkgProcessMap (cmd_of (h_cmd (p_head pkg))))))"

section \<open>Specification: scanning a byte at a time\<close>

text \<open>
  The frame in progress and the complete frames, as bytes. \<open>None\<close> after a head whose length
  field is too small for a frame, or so large that the index of its checksum is no \<open>int\<close>.
\<close>

definition len_ok :: "u32 \<Rightarrow> bool" where
  "len_ok l \<longleftrightarrow> 15 \<le> unat l \<and> unat l < 2 ^ 31 + 2"

type_synonym scan = "(bytes \<times> bytes list) option"

fun scan_byte :: "scan \<Rightarrow> u8 \<Rightarrow> scan" where
  "scan_byte None b = None"
| "scan_byte (Some (cur, out)) b =
     (if cur = [] then Some (if b = 0x24 then [b] else [], out)
      else let cur = cur @ [b]
           in if length cur < 13 then Some (cur, out)
              else if \<not> len_ok (h_len (head_of cur)) then None
              else if length cur = unat (h_len (head_of cur)) then Some ([], out @ [cur])
              else Some (cur, out))"

definition scan_all :: "bytes \<Rightarrow> scan" where
  "scan_all bs = foldl scan_byte (Some ([], [])) bs"

definition frame_of :: "bytes \<Rightarrow> Pkg" where
  "frame_of f = \<lparr>p_head = head_of f, p_body = take (length f - 15) (drop 13 f),
     p_crc = un_le16 (drop (length f - 2) f)\<rparr>"

text \<open>What happens to a complete frame, given whether the packet queue is full.\<close>

definition verdict :: "bool \<Rightarrow> bytes \<Rightarrow> sm_event" where
  "verdict full f =
     (if crc_ok (frame_of f) then if full then Push_fail (frame_of f) else Push_ok (frame_of f)
      else Crc_fail (frame_of f))"

lemma unat_ucast_u32: "unat (ucast w :: u64) = unat w" for w :: u32
proof -
  have "unat w < 2 ^ LENGTH(32)" by (rule unsigned_less)
  then have "unat w < 2 ^ 64" by simp
  then show ?thesis by (simp add: unsigned_ucast_eq take_bit_nat_eq_self)
qed

lemma len_ok_ge: "len_ok l \<Longrightarrow> 15 \<le> unat l"
  by (simp add: len_ok_def)

text \<open>An index below 2 GiB is read as it is, one from there on is negative.\<close>

lemma sint_nonneg: "unat w < 2 ^ 31 \<Longrightarrow> sint w = int (unat w)" for w :: u32
proof -
  have "to_i32 (int n) = int n" if "n < 2 ^ 31" for n
    using that by (intro to_i32_id) simp_all
  moreover have "sint w = to_i32 (int (unat w))" by (simp add: to_i32_def)
  ultimately show "unat w < 2 ^ 31 \<Longrightarrow> sint w = int (unat w)" by metis
qed
lemma sint_neg: "2 ^ 31 \<le> unat w \<Longrightarrow> sint w < 0" for w :: u32
proof -
  have "to_i32 (int n - 2 ^ 32) < 0" if "2 ^ 31 \<le> n" "n < 2 ^ 32" for n
    using that by (subst to_i32_id) simp_all
  moreover have "unat w < 2 ^ 32"
  proof -
    have "unat w < 2 ^ LENGTH(32)" by (rule unsigned_less)
    then show ?thesis by simp
  qed
  moreover have "sint w = to_i32 (int (unat w) - 2 ^ 32)"
  proof -
    have "(word_of_int (k - 2 ^ 32) :: u32) = word_of_int k" for k
      by (simp add: word_of_int_eq_iff take_bit_eq_mod)
    then have "to_i32 (int (unat w) - 2 ^ 32) = to_i32 (int (unat w))" unfolding to_i32_def by (simp only:)
    also have "\<dots> = sint w" by (simp add: to_i32_def)
    finally show ?thesis by (rule sym)
  qed
  ultimately show "2 ^ 31 \<le> unat w \<Longrightarrow> sint w < 0" by metis
qed
lemma sint_index: "n < 2 ^ 31 \<Longrightarrow> sint (word_of_nat n :: u32) = int n"
  using sint_nonneg[of "word_of_nat n"] unat_of_nat_u32[of n] by simp
lemma unat_ucast_u64: "unat w < 2 ^ 32 \<Longrightarrow> unat (ucast w :: u32) = unat w" for w :: u64
  by (simp add: unsigned_ucast_eq take_bit_nat_eq_self)

lemma head_of_append: "13 \<le> length bs \<Longrightarrow> head_of (bs @ xs) = head_of bs"
  by (cases "bs = []") (simp_all add: head_of_def un_le16_def un_le32_def nth_append)

lemma head_of_take: "13 \<le> length bs \<Longrightarrow> head_of (take 13 bs) = head_of bs"
  using head_of_append[of "take 13 bs" "drop 13 bs"] by simp

lemma le32_un_le32: "length bs = 4 \<Longrightarrow> le32 (un_le32 bs) = bs"
proof -
  assume "length bs = 4"
  then obtain a b c d where bs: "bs = [a, b, c, d]"
    by (auto simp: length_Suc_conv numeral_eq_Suc)
  show ?thesis
    unfolding bs le32_def un_le32_def
    by (auto intro!: bit_word_eqI) (auto simp: bit_simps dest: bit_imp_le_length)
qed

lemma head_bytes_head_of: "length bs = 13 \<Longrightarrow> head_bytes (head_of bs) = bs"
proof -
  assume l: "length bs = 13"
  have e16: "un_le16 (drop 3 bs) = un_le16 (take 2 (drop 3 bs))"
    and e32: "un_le32 (drop 5 bs) = un_le32 (take 4 (drop 5 bs))"
    using l by (simp_all add: un_le16_def un_le32_def)
  have "bs = take 3 bs @ take 2 (drop 3 bs) @ take 4 (drop 5 bs) @ drop 9 bs"
    using take_drop_slice[of 2 3 bs] take_drop_slice[of 4 5 bs] by simp
  moreover have "take 3 bs = [bs ! 0, bs ! 1, bs ! 2]"
    using l by (intro nth_equalityI) (auto simp: nth_Cons numeral_eq_Suc split: nat.splits)
  ultimately show ?thesis
    using l by (simp add: head_bytes_def head_of_def e16 e32 le16_un_le16 le32_un_le32)
qed

section \<open>Simulation\<close>

lemma scan_None [simp]: "foldl scan_byte None xs = None"
  by (induction xs) auto

lemma scan_out:
  "foldl scan_byte (Some (cur, out)) xs =
     map_option (\<lambda>(c, fs). (c, out @ fs)) (foldl scan_byte (Some (cur, [])) xs)"
proof (induction xs arbitrary: cur out)
  case (Cons x xs)
  show ?case
  proof (cases "scan_byte (Some (cur, [])) x")
    case None
    then have "scan_byte (Some (cur, out)) x = None" by (auto simp: Let_def split: if_splits)
    with None show ?thesis by simp
  next
    case (Some p)
    obtain c fs where p: "p = (c, fs)" by (cases p)
    have "scan_byte (Some (cur, out)) x = Some (c, out @ fs)"
      using Some p by (auto simp: Let_def split: if_splits)
    then show ?thesis
      using Some p Cons.IH[of c "out @ fs"] Cons.IH[of c fs]
      by (simp del: scan_byte.simps add: option.map_comp comp_def case_prod_beta)
  qed
qed simp

lemma scan_short:
  "cur \<noteq> [] \<Longrightarrow> length cur + length xs < 13 \<Longrightarrow>
     foldl scan_byte (Some (cur, out)) xs = Some (cur @ xs, out)"
  by (induction xs arbitrary: cur) (auto simp: Let_def)

lemma scan_body:
  "13 \<le> length cur \<Longrightarrow> len_ok (h_len (head_of cur)) \<Longrightarrow>
     length cur + length xs < unat (h_len (head_of cur)) \<Longrightarrow>
     foldl scan_byte (Some (cur, out)) xs = Some (cur @ xs, out)"
proof (induction xs arbitrary: cur)
  case (Cons x xs)
  then have "head_of (cur @ [x]) = head_of cur" by (simp add: head_of_append)
  with Cons show ?case by (cases "cur = []") (auto simp: Let_def)
qed simp

lemma scan_head:
  assumes "length xs = 12"
  shows "foldl scan_byte (Some ([0x24], out)) xs =
    (if len_ok (h_len (head_of (0x24 # xs))) then Some (0x24 # xs, out) else None)"
proof -
  obtain ys y where xs: "xs = ys @ [y]" "length ys = 11"
    using assms by (cases xs rule: rev_cases) auto
  then show ?thesis
    using scan_short[of "[0x24]" ys out] by (auto simp: Let_def len_ok_def)
qed

lemma scan_crc:
  assumes "13 \<le> length cur" "len_ok (h_len (head_of cur))"
    "length cur + 2 = unat (h_len (head_of cur))" "length xs = 2"
  shows "foldl scan_byte (Some (cur, out)) xs = Some ([], out @ [cur @ xs])"
proof -
  obtain a b where xs: "xs = [a, b]" using assms(4) by (auto simp: length_Suc_conv numeral_2_eq_2)
  have "foldl scan_byte (Some (cur, out)) [a] = Some (cur @ [a], out)"
    using assms by (intro scan_body) auto
  moreover have "head_of (cur @ [a, b]) = head_of cur" using assms by (simp add: head_of_append)
  ultimately show ?thesis using assms unfolding xs by (simp add: Let_def del: scan_byte.simps) (simp add: Let_def)
qed

text \<open>A handler whose state machine holds the bytes \<open>cur\<close> of the frame in progress.\<close>

definition sm_rel :: "handler \<Rightarrow> bytes \<Rightarrow> bool" where
  "sm_rel h cur \<longleftrightarrow> ring_wf (hd_rb h) \<and>
     (case hd_status h of Start \<Rightarrow> cur = [] | GetHead \<Rightarrow> cur = [0x24]
      | _ \<Rightarrow> 13 \<le> length cur \<and> len_ok (h_len (head_of cur)) \<and>
          hd_pkgHead h = head_of cur \<and> hd_pkgBuffer h = cur \<and> hd_pkgBufferIndex h = word_of_nat (length cur) \<and>
          length cur + 2 + unat (hd_bodyLen h) = unat (h_len (head_of cur)) \<and>
          (hd_status h = GetCRC \<longrightarrow> hd_bodyLen h = 0))"

definition frame_push :: "bytes \<Rightarrow> Pkg queue \<Rightarrow> Pkg queue" where
  "frame_push f q = (if crc_ok (frame_of f) then snd (queue_push (frame_of f) q) else q)"

text \<open>
  A handler that has accepted a head with a bad length. If it was short, the body length has wrapped and the
  handler can only read on until it overflows; if it was too large, the index turns negative before the
  checksum is read, and the next bytes go before the block.
\<close>

definition doomed :: "handler \<Rightarrow> bool" where
  "doomed h \<longleftrightarrow> ring_wf (hd_rb h) \<and>
     (let L = unat (h_len (hd_pkgHead h)); i = unat (hd_pkgBufferIndex h)
      in 13 \<le> i \<and> i \<le> L \<and>
         (hd_status h = GetBody \<and> L < 15 \<and> unat (hd_bodyLen h) + i + 2 = 2 ^ 64 + L \<or>
          (hd_status h = GetBody \<or> hd_status h = GetCRC \<and> hd_bodyLen h = 0) \<and> 2 ^ 31 + 2 \<le> L \<and>
            unat (hd_bodyLen h) + i + 2 = L))"

text \<open>
  The result of a step agrees with the scan: it consumes some bytes \<open>xs\<close> of the ring buffer and,
  if the scan of them meets no short head, ends in the state the scan ends in, having
  queued the frame that they complete, if any.
\<close>

definition sim_ok :: "handler \<Rightarrow> bytes \<Rightarrow> sm_error + handler \<times> sm_event \<Rightarrow> bool" where
  "sim_ok h cur res \<longleftrightarrow>
     (case res of Inl e \<Rightarrow> foldl scan_byte (Some (cur, [])) (ring_abs (hd_rb h)) = None
      | Inr (h', ev) \<Rightarrow>
          \<exists>xs. ring_abs (hd_rb h) = xs @ ring_abs (hd_rb h') \<and>
            rb_capacity (hd_rb h') = rb_capacity (hd_rb h) \<and>
            (case foldl scan_byte (Some (cur, [])) xs of
               None \<Rightarrow> doomed h' \<and> ev = No_event \<and> hd_pkgs h' = hd_pkgs h
             | Some (cur', fs) \<Rightarrow> sm_rel h' cur' \<and>
                 (fs = [] \<and> ev = No_event \<and> hd_pkgs h' = hd_pkgs h \<or>
                  (\<exists>f. fs = [f] \<and> ev = verdict (queue_full (hd_pkgs h)) f \<and>
                       hd_pkgs h' = frame_push f (hd_pkgs h)))))"

lemma sim_ok_idle: "sm_rel h cur \<Longrightarrow> sim_ok h cur (Inr (h, No_event))"
  by (auto simp: sim_ok_def intro!: exI[of _ "[]"])

lemma sim_start:
  assumes "sm_rel h cur" "hd_status h = Start" "ring_abs (hd_rb h) \<noteq> []"
  shows "sim_ok h cur (Inr (sm_start h, No_event))"
proof -
  obtain b bs where p: "ring_abs (hd_rb h) = b # bs" using assms(3) by (cases "ring_abs (hd_rb h)") auto
  have wf: "ring_wf (hd_rb h)" and c: "cur = []" using assms by (simp_all add: sm_rel_def)
  obtain rb where rb: "ring_read 1 (hd_rb h) = Some ([b], rb)" "ring_wf rb" "ring_abs rb = bs"
    "rb_capacity rb = rb_capacity (hd_rb h)"
    using rs.rd_ok[OF wf, of 1] p by auto
  show ?thesis
    using p rb c assms(2) by (auto simp: sim_ok_def sm_start_def sm_rel_def intro!: exI[of _ "[b]"])
qed

lemma sim_getHead:
  assumes "sm_rel h cur" "hd_status h = GetHead"
  shows "sim_ok h cur (map_sum id (\<lambda>h. (h, No_event)) (sm_getHead h))"
proof (cases "length (ring_abs (hd_rb h)) < 12")
  case True
  have "ring_wf (hd_rb h)" using assms(1) by (simp add: sm_rel_def)
  with True show ?thesis
    using sim_ok_idle[OF assms(1)] by (simp add: sm_getHead_def sizeof_defs rs.avail_pending)
next
  case False
  have wf: "ring_wf (hd_rb h)" and c: "cur = [0x24]" using assms by (simp_all add: sm_rel_def)
  let ?bs = "take 12 (ring_abs (hd_rb h))" and ?rest = "drop 12 (ring_abs (hd_rb h))"
  obtain rb where rb: "ring_read 12 (hd_rb h) = Some (?bs, rb)" "ring_wf rb"
    "ring_abs rb = ?rest" "rb_capacity rb = rb_capacity (hd_rb h)"
    using rs.rd_ok[OF wf, of 12] False by auto
  have len: "length ?bs = 12" using False by simp
  let ?head = "head_of (0x24 # ?bs)"
  have scan: "foldl scan_byte (Some (cur, [])) ?bs =
      (if len_ok (h_len ?head) then Some (0x24 # ?bs, []) else None)"
    unfolding c by (rule scan_head[OF len])
  have hb: "head_bytes ?head = 0x24 # ?bs" using len by (intro head_bytes_head_of) simp
  have step: "sm_getHead h = (if unat (h_len ?head) < 13 then Inl Heap_overflow
      else Inr (h\<lparr>hd_rb := rb, hd_pkgHead := ?head, hd_pkgBuffer := 0x24 # ?bs,
        hd_pkgBufferIndex := 13, hd_status := GetBody, hd_bodyLen := ucast (h_len ?head) - 13 - 2\<rparr>))"
    using False wf rb(1) hb len
    by (simp add: sm_getHead_def sizeof_defs rs.avail_pending buf_write_def Let_def)
  let ?L = "unat (h_len ?head)" and ?body = "ucast (h_len ?head) - 13 - 2 :: u64"
  show ?thesis
  proof (cases "len_ok (h_len ?head)")
    case F: False
    have "foldl scan_byte (Some (cur, [])) (ring_abs (hd_rb h)) = None"
      using scan F foldl_append[of scan_byte "Some (cur, [])" ?bs ?rest] by simp
    moreover have "?L < 15 \<and> unat ?body + 15 = 2 ^ 64 + ?L \<or> 2 ^ 31 + 2 \<le> ?L \<and> unat ?body + 15 = ?L"
      if "13 \<le> ?L"
      using F that by (auto simp: len_ok_def unat_sub_if' unat_ucast_u32)
    ultimately show ?thesis
      using F step scan rb
      by (auto simp: sim_ok_def doomed_def intro!: exI[of _ ?bs])
  next
    case True
    then have "unat ?body = ?L - 15" "15 \<le> ?L"
      by (simp_all add: len_ok_def unat_sub_if' unat_ucast_u32)
    then show ?thesis
      using True step scan rb len
      by (auto simp: sim_ok_def sm_rel_def intro!: exI[of _ ?bs])
  qed
qed

lemma sim_getBody:
  assumes rel: "sm_rel h cur" and st: "hd_status h = GetBody"
    and small: "length (ring_abs (hd_rb h)) < 2 ^ 64"
  shows "sim_ok h cur (map_sum id (\<lambda>h. (h, No_event)) (sm_getBody h))"
proof -
  let ?p = "ring_abs (hd_rb h)" and ?L = "unat (h_len (head_of cur))"
  have wf: "ring_wf (hd_rb h)" and c: "13 \<le> length cur" "len_ok (h_len (head_of cur))" "hd_pkgHead h = head_of cur"
      "hd_pkgBuffer h = cur" "hd_pkgBufferIndex h = word_of_nat (length cur)"
      "length cur + 2 + unat (hd_bodyLen h) = ?L"
    using rel st by (simp_all add: sm_rel_def)
  have i: "sint (hd_pkgBufferIndex h) = int (length cur)"
    using c by (simp add: len_ok_def sint_index)
  define canRead where "canRead = (word_of_nat (length ?p) :: u64)"
  define readLen where "readLen = (if canRead < hd_bodyLen h then canRead else hd_bodyLen h)"
  have cr: "unat canRead = length ?p"
    using small by (simp add: canRead_def unat_of_nat take_bit_nat_eq_self)
  have rl: "unat readLen \<le> length ?p" "unat readLen \<le> unat (hd_bodyLen h)"
    using cr by (auto simp: readLen_def word_less_nat_alt)
  obtain rb where rb: "ring_read (unat readLen) (hd_rb h) = Some (take (unat readLen) ?p, rb)"
    "ring_wf rb" "ring_abs rb = drop (unat readLen) ?p" "rb_capacity rb = rb_capacity (hd_rb h)"
    using rs.rd_ok[OF wf rl(1)] by auto
  let ?xs = "take (unat readLen) ?p"
  have len: "length ?xs = unat readLen" using rl by simp
  have left: "unat (hd_bodyLen h - readLen) = unat (hd_bodyLen h) - unat readLen"
    using rl by (simp add: unat_sub_if')
  define h' where "h' = h\<lparr>hd_rb := rb, hd_pkgBuffer := cur @ ?xs,
    hd_bodyLen := hd_bodyLen h - readLen, hd_pkgBufferIndex := hd_pkgBufferIndex h + ucast readLen\<rparr>"
  have idx: "hd_pkgBufferIndex h + ucast readLen = word_of_nat (length cur + unat readLen)"
    by (simp add: c(5))
  have "sm_getBody h = Inr (if hd_bodyLen h' = 0 then h'\<lparr>hd_status := GetCRC\<rparr> else h')"
    unfolding sm_getBody_def rs.avail_pending[OF wf] Let_def
      readLen_def[unfolded canRead_def, symmetric] rb(1)
    using c rl i by (simp add: buf_write_def h'_def)
  moreover have "foldl scan_byte (Some (cur, [])) ?xs = Some (cur @ ?xs, [])"
    using c rl len by (intro scan_body) auto
  moreover have "sm_rel (if hd_bodyLen h' = 0 then h'\<lparr>hd_status := GetCRC\<rparr> else h') (cur @ ?xs)"
    using c rb len left st rl idx by (auto simp: sm_rel_def h'_def head_of_append)
  ultimately show ?thesis
    using rb by (auto simp: sim_ok_def h'_def intro!: exI[of _ ?xs])
qed

lemma frame_of_split:
  assumes "13 \<le> length cur" "length xs = 2"
  shows "frame_of (cur @ xs) = \<lparr>p_head = head_of cur, p_body = drop 13 cur, p_crc = un_le16 xs\<rparr>"
  using assms by (simp add: frame_of_def head_of_append)

lemma crc_ok_split:
  assumes "13 \<le> length cur" "length xs = 2"
  shows "crc_ok (frame_of (cur @ xs)) \<longleftrightarrow> Crc16TabCCITT cur = un_le16 xs"
proof -
  have "head_bytes (head_of cur) = take 13 cur"
    using head_bytes_head_of[of "take 13 cur"] assms head_of_take[of cur] by simp
  then show ?thesis using assms by (auto simp: crc_ok_def frame_of_split)
qed

lemma unat_minus_2: "15 \<le> unat w \<Longrightarrow> unat (w - 2) = unat w - 2" for w :: u32
  by (simp add: unat_sub_if')

lemma sim_getCRC:
  assumes rel: "sm_rel h cur" and st: "hd_status h = GetCRC"
  shows "sim_ok h cur (sm_getCRC h)"
proof (cases "length (ring_abs (hd_rb h)) < 2")
  case True
  have "ring_wf (hd_rb h)" using assms(1) by (simp add: sm_rel_def)
  with True show ?thesis
    using sim_ok_idle[OF assms(1)] by (simp add: sm_getCRC_def sizeof_defs rs.avail_pending)
next
  case False
  let ?p = "ring_abs (hd_rb h)" and ?L = "unat (h_len (head_of cur))"
  have wf: "ring_wf (hd_rb h)" and c: "13 \<le> length cur" "len_ok (h_len (head_of cur))" "hd_pkgHead h = head_of cur"
      "hd_pkgBuffer h = cur" "hd_pkgBufferIndex h = word_of_nat (length cur)" "length cur + 2 = ?L"
    using rel st by (auto simp: sm_rel_def)
  have i: "sint (hd_pkgBufferIndex h) = int (length cur)" and L: "15 \<le> ?L"
    using c by (simp_all add: len_ok_def sint_index)
  let ?xs = "take 2 ?p"
  obtain rb where rb: "ring_read 2 (hd_rb h) = Some (?xs, rb)" "ring_wf rb"
    "ring_abs rb = drop 2 ?p" "rb_capacity rb = rb_capacity (hd_rb h)"
    using rs.rd_ok[OF wf, of 2] False by auto
  have len: "length ?xs = 2" using False by simp
  have scan: "foldl scan_byte (Some (cur, [])) ?xs = Some ([], [cur @ ?xs])"
    using scan_crc[OF c(1,2,6) len] by simp
  have "head_of (take 13 cur) = head_of cur" using c(1) by (rule head_of_take)
  then have unp: "Unpack (cur @ ?xs) (h_len (head_of cur)) pkg_default = Inr (0, frame_of (cur @ ?xs))"
    using c L len by (simp add: Unpack_def sizeof_defs frame_of_split Let_def pkg_default_def)
  have pcrc: "p_crc (frame_of (cur @ ?xs)) = un_le16 ?xs"
    by (simp add: frame_of_split[OF c(1) len])
  have "take (unat (h_len (head_of cur) - 2)) (cur @ ?xs) = cur"
    using c L by (simp add: unat_minus_2)
  then have "sm_getCRC h =
      (if crc_ok (frame_of (cur @ ?xs)) then
         let (ok, q) = queue_push (frame_of (cur @ ?xs)) (hd_pkgs h)
         in Inr (sm_reset (h\<lparr>hd_rb := rb, hd_pkgs := q\<rparr>),
              if ok then Push_ok (frame_of (cur @ ?xs)) else Push_fail (frame_of (cur @ ?xs)))
       else Inr (sm_reset (h\<lparr>hd_rb := rb\<rparr>), Crc_fail (frame_of (cur @ ?xs))))"
    using False wf rb(1) len unp c(3,4,6) i crc_ok_split[OF c(1) len] pcrc
    by (simp add: sm_getCRC_def sizeof_defs rs.avail_pending buf_write_def Let_def)
  then show ?thesis
    using scan rb
    by (auto simp: sim_ok_def verdict_def frame_push_def queue_push_def sm_reset_def sm_rel_def
        intro!: exI[of _ ?xs])
qed

lemma sm_step_sim:
  assumes "sm_rel h cur" "length (ring_abs (hd_rb h)) < 2 ^ 64"
  shows "sim_ok h cur (sm_step h)"
proof (cases "ring_abs (hd_rb h) = []")
  case True
  have "ring_wf (hd_rb h)" using assms(1) by (simp add: sm_rel_def)
  with True show ?thesis
    using sim_ok_idle[OF assms(1)] by (simp add: sm_step_def rs.avail_pending)
next
  case False
  have "ring_wf (hd_rb h)" using assms(1) by (simp add: sm_rel_def)
  with False show ?thesis
    using sim_start[OF assms(1)] sim_getHead[OF assms(1)] sim_getBody[OF assms(1) _ assms(2)]
      sim_getCRC[OF assms(1)] sim_ok_idle[OF assms(1)]
    by (cases "hd_status h") (simp_all add: sm_step_def rs.avail_pending)
qed

text \<open>A round with bytes to read, when the body length says there is more to come or the index is negative.\<close>

lemma doomed_getBody:
  assumes d: "doomed h" and st: "hd_status h = GetBody" and small: "length (ring_abs (hd_rb h)) < 2 ^ 63"
    and e: "sm_getBody h = Inr h'"
  shows "doomed h' \<and> hd_pkgs h' = hd_pkgs h \<and> rb_capacity (hd_rb h') = rb_capacity (hd_rb h) \<and>
    (\<exists>xs. ring_abs (hd_rb h) = xs @ ring_abs (hd_rb h'))"
proof -
  let ?p = "ring_abs (hd_rb h)" and ?n = "length (ring_abs (hd_rb h))"
    and ?L = "unat (h_len (hd_pkgHead h))" and ?i = "unat (hd_pkgBufferIndex h)"
  have wf: "ring_wf (hd_rb h)" and i: "13 \<le> ?i" "?i \<le> ?L"
    and b: "?L < 15 \<and> unat (hd_bodyLen h) + ?i + 2 = 2 ^ 64 + ?L \<or> 2 ^ 31 + 2 \<le> ?L \<and> unat (hd_bodyLen h) + ?i + 2 = ?L"
    using d st by (auto simp: doomed_def Let_def)
  define readLen :: u64 where "readLen = (if word_of_nat ?n < hd_bodyLen h then word_of_nat ?n else hd_bodyLen h)"
  have cr: "unat (word_of_nat ?n :: u64) = ?n"
    using small by (simp add: unat_of_nat take_bit_nat_eq_self)
  have rl: "unat readLen \<le> ?n" "unat readLen \<le> unat (hd_bodyLen h)"
    using cr by (auto simp: readLen_def word_less_nat_alt)
  obtain rb where rb: "ring_read (unat readLen) (hd_rb h) = Some (take (unat readLen) ?p, rb)" "ring_wf rb"
    "ring_abs rb = drop (unat readLen) ?p" "rb_capacity rb = rb_capacity (hd_rb h)"
    using rs.rd_ok[OF wf rl(1)] by auto
  define h1 where "h1 = h\<lparr>hd_rb := rb, hd_pkgBuffer := take (nat (sint (hd_pkgBufferIndex h))) (hd_pkgBuffer h) @ take (unat readLen) ?p,
    hd_bodyLen := hd_bodyLen h - readLen, hd_pkgBufferIndex := hd_pkgBufferIndex h + ucast readLen\<rparr>"
  have "sm_getBody h = (if sint (hd_pkgBufferIndex h) < 0 \<or> ?L < nat (sint (hd_pkgBufferIndex h)) + unat readLen
      then Inl Heap_overflow else Inr (if hd_bodyLen h1 = 0 then h1\<lparr>hd_status := GetCRC\<rparr> else h1))"
    unfolding sm_getBody_def rs.avail_pending[OF wf] Let_def readLen_def[symmetric] rb(1)
    using rl(1) by (simp add: buf_write_def h1_def min_def)
  then have w: "0 \<le> sint (hd_pkgBufferIndex h)" "nat (sint (hd_pkgBufferIndex h)) + unat readLen \<le> ?L"
    and h': "h' = (if hd_bodyLen h1 = 0 then h1\<lparr>hd_status := GetCRC\<rparr> else h1)"
    using e by (auto split: if_splits)
  have "?i < 2 ^ 31" using w(1) sint_neg[of "hd_pkgBufferIndex h"] by linarith
  then have le: "?i + unat readLen \<le> ?L" using w(2) sint_nonneg[of "hd_pkgBufferIndex h"] by simp
  have u: "?L < 2 ^ LENGTH(32)" by (rule unsigned_less)
  have "unat (hd_pkgBufferIndex h + ucast readLen) = ?i + unat readLen"
    using le u by (simp add: unat_word_ariths unat_ucast_u64)
  moreover have "unat (hd_bodyLen h - readLen) = unat (hd_bodyLen h) - unat readLen"
    using rl by (simp add: unat_sub_if')
  moreover have "hd_bodyLen h - readLen \<noteq> 0" if "?L < 15"
  proof -
    have "unat readLen < unat (hd_bodyLen h)" using that le b by auto
    then show ?thesis by auto
  qed
  ultimately have "doomed h'"
    using b i le rl(2) rb(2) st by (auto simp: doomed_def Let_def h' h1_def)
  moreover have "?p = take (unat readLen) ?p @ ring_abs rb" by (simp add: rb(3))
  ultimately show ?thesis using rb(4) by (auto simp: h' h1_def intro!: exI[of _ "take (unat readLen) ?p"])
qed

lemma getBody_Inl: "sm_getBody h = Inl e \<Longrightarrow> e = Heap_overflow"
  by (auto simp: sm_getBody_def Let_def split: option.splits)

text \<open>Behind 2 GiB the checksum is written before the block.\<close>

lemma late_checksum_overflows:
  assumes "ring_wf (hd_rb h)" "2 ^ 31 \<le> unat (hd_pkgBufferIndex h)" "2 \<le> length (ring_abs (hd_rb h))"
  shows "sm_getCRC h = Inl Heap_overflow"
  using assms sint_neg[OF assms(2)] rs.rd_ok[OF assms(1), of 2]
  by (auto simp: sm_getCRC_def sizeof_defs rs.avail_pending buf_write_def not_less)

lemma doomed_step:
  assumes d: "doomed h" and small: "length (ring_abs (hd_rb h)) < 2 ^ 63"
  shows "case sm_step h of Inl e \<Rightarrow> e = Heap_overflow
    | Inr (h', ev) \<Rightarrow> doomed h' \<and> ev = No_event \<and> hd_pkgs h' = hd_pkgs h \<and>
        rb_capacity (hd_rb h') = rb_capacity (hd_rb h) \<and>
        (\<exists>xs. ring_abs (hd_rb h) = xs @ ring_abs (hd_rb h'))"
proof (cases "hd_status h = GetBody")
  case True
  show ?thesis
  proof (cases "sm_getBody h")
    case (Inl e)
    then show ?thesis using True d getBody_Inl[OF Inl] by (auto simp: sm_step_def)
  next
    case (Inr h')
    then show ?thesis using True d doomed_getBody[OF d True small Inr] by (auto simp: sm_step_def)
  qed
next
  case False
  then have c: "hd_status h = GetCRC" "2 ^ 31 \<le> unat (hd_pkgBufferIndex h)"
    using d by (auto simp: doomed_def Let_def)
  have wf: "ring_wf (hd_rb h)" using d by (simp add: doomed_def)
  then have "sm_getCRC h = Inl Heap_overflow \<or> sm_getCRC h = Inr (h, No_event)"
    using late_checksum_overflows[OF wf c(2)]
    by (cases "2 \<le> length (ring_abs (hd_rb h))") (auto simp: sm_getCRC_def sizeof_defs rs.avail_pending)
  then show ?thesis using c d by (auto simp: sm_step_def)
qed

section \<open>Progress\<close>

definition sm_measure :: "handler \<Rightarrow> nat" where
  "sm_measure h = 2 * length (ring_abs (hd_rb h)) + (if hd_status h = GetBody then 1 else 0)"

text \<open>The state machine waits for bytes: none is there, or too few for the next part.\<close>

definition sm_waiting :: "handler \<Rightarrow> bool" where
  "sm_waiting h \<longleftrightarrow> ring_abs (hd_rb h) = [] \<or>
     hd_status h = GetHead \<and> length (ring_abs (hd_rb h)) < 12 \<or>
     hd_status h = GetCRC \<and> length (ring_abs (hd_rb h)) < 2"

lemma ring_read_shrinks:
  "ring_wf r \<Longrightarrow> ring_read n r = Some (xs, r') \<Longrightarrow> length (ring_abs r') + n = length (ring_abs r)"
  using rs.rd_ok[of r n] rs.rd_short[of r n] by (cases "n \<le> length (ring_abs r)") auto

lemma ring_abs_Nil: "ring_abs r = [] \<longleftrightarrow> rb_avail_read r = 0"
  using length_ring_abs[of r] by (metis length_0_conv)

lemma sm_step_waiting: "sm_waiting h \<Longrightarrow> sm_step h = Inr (h, No_event)"
  by (auto simp: sm_waiting_def sm_step_def ring_abs_Nil ring_GetReadLen_def sm_getHead_def
      sm_getCRC_def sizeof_defs split: RecvStatus.split)

lemma sm_step_progress:
  assumes "ring_wf (hd_rb h)" "\<not> sm_waiting h" "sm_step h = Inr (h', ev)"
    "length (ring_abs (hd_rb h)) < 2 ^ 64"
  shows "sm_measure h' < sm_measure h"
proof -
  let ?r = "hd_rb h"
  have pos: "ring_GetReadLen ?r \<noteq> 0"
    using assms(2) by (auto simp: ring_abs_Nil ring_GetReadLen_def sm_waiting_def)
  have wait: "hd_status h = GetHead \<Longrightarrow> \<not> ring_GetReadLen ?r < 12"
    "hd_status h = GetCRC \<Longrightarrow> \<not> ring_GetReadLen ?r < 2"
    using assms(2) by (auto simp: ring_GetReadLen_def sm_waiting_def)
  have len: "ring_GetReadLen ?r = length (ring_abs ?r)" by (rule rs.avail_pending[OF assms(1)])
  show ?thesis
  proof (cases "hd_status h")
    case Start
    obtain xs rb where "ring_read 1 ?r = Some (xs, rb)"
      using rs.rd_ok[OF assms(1), of 1] pos len by (cases "ring_abs ?r") auto
    then show ?thesis
      using Start pos assms(3) ring_read_shrinks[OF assms(1), of 1]
      by (auto simp: sm_step_def sm_start_def sm_measure_def split: if_splits)
  next
    case GetHead
    then show ?thesis
      using wait(1) pos assms(3) ring_read_shrinks[OF assms(1), of 12] rs.rd_ok[OF assms(1), of 12] len
      by (fastforce simp: sm_step_def sm_getHead_def sm_measure_def sizeof_defs Let_def
          split: option.splits sum.splits)
  next
    case GetCRC
    have "2 \<le> length (ring_abs ?r)" using wait(2) GetCRC len by simp
    from rs.rd_ok[OF assms(1) this] obtain xs rb where rb: "ring_read 2 ?r = Some (xs, rb)" by auto
    then have "length (ring_abs rb) + 2 = length (ring_abs ?r)"
      by (rule ring_read_shrinks[OF assms(1)])
    then show ?thesis
      using GetCRC wait(2) pos assms(3) rb
      by (auto simp: sm_step_def sm_getCRC_def sm_measure_def sizeof_defs sm_reset_def Let_def
          split: option.splits sum.splits if_splits prod.splits)
  next
    case GetBody
    define readLen :: u64 where
      "readLen = (if word_of_nat (ring_GetReadLen ?r) < hd_bodyLen h
         then word_of_nat (ring_GetReadLen ?r) else hd_bodyLen h)"
    have cr: "unat (word_of_nat (ring_GetReadLen ?r) :: u64) = length (ring_abs ?r)"
      unfolding len using assms(4) by (simp add: unat_of_nat take_bit_nat_eq_self)
    then have rl: "unat readLen \<le> length (ring_abs ?r)" by (auto simp: readLen_def word_less_nat_alt)
    have zero: "hd_bodyLen h - readLen = 0" if "unat readLen = 0"
      using that cr pos len by (auto simp: readLen_def unat_eq_0 split: if_splits)
    obtain xs rb where rb: "ring_read (unat readLen) ?r = Some (xs, rb)"
      "length (ring_abs rb) + unat readLen = length (ring_abs ?r)"
      using rs.rd_ok[OF assms(1) rl] ring_read_shrinks[OF assms(1)] by blast
    obtain buf where "h' = (let h = h\<lparr>hd_rb := rb, hd_pkgBuffer := buf,
          hd_bodyLen := hd_bodyLen h - readLen, hd_pkgBufferIndex := hd_pkgBufferIndex h + ucast readLen\<rparr>
        in if hd_bodyLen h = 0 then h\<lparr>hd_status := GetCRC\<rparr> else h)"
      using assms(3) GetBody pos rb(1)
      by (simp add: sm_step_def sm_getBody_def readLen_def[symmetric] Let_def split: option.splits)
        fastforce
    then show ?thesis
      using rb(2) GetBody zero by (cases "unat readLen = 0") (auto simp: sm_measure_def Let_def)
  qed
qed

section \<open>Heads with a short length\<close>

text \<open>
  C9. A head whose length field is below 15, which any peer can send, makes the state machine
  write past the end of the heap block it allocates: when the rest of the head and two more
  bytes have arrived, one of the next two rounds overflows.
\<close>

theorem short_head_overflows:
  assumes wf: "ring_wf (hd_rb h)" and st: "hd_status h = GetHead"
    and len: "unat (h_len (head_of (0x24 # take 12 (ring_abs (hd_rb h))))) < 15"
    and n: "14 \<le> length (ring_abs (hd_rb h))" "length (ring_abs (hd_rb h)) < 2 ^ 63"
  shows "sm_step h = Inl Heap_overflow \<or>
    (\<exists>h'. sm_step h = Inr (h', No_event) \<and> sm_step h' = Inl Heap_overflow)"
proof -
  let ?bs = "take 12 (ring_abs (hd_rb h))"
  let ?head = "head_of (0x24 # ?bs)"
  obtain rb where rb: "ring_read 12 (hd_rb h) = Some (?bs, rb)" "ring_wf rb"
    "ring_abs rb = drop 12 (ring_abs (hd_rb h))"
    using rs.rd_ok[OF wf, of 12] n by auto
  have l12: "length ?bs = 12" using n by simp
  have hb: "head_bytes ?head = 0x24 # ?bs" using l12 by (intro head_bytes_head_of) simp
  define h' where "h' = h\<lparr>hd_rb := rb, hd_pkgHead := ?head, hd_pkgBuffer := 0x24 # ?bs,
    hd_pkgBufferIndex := 13, hd_status := GetBody, hd_bodyLen := ucast (h_len ?head) - 13 - 2\<rparr>"
  have step: "sm_step h = (if unat (h_len ?head) < 13 then Inl Heap_overflow else Inr (h', No_event))"
    using n wf rb(1) hb l12 st
    by (simp add: sm_step_def sm_getHead_def sizeof_defs rs.avail_pending buf_write_def Let_def h'_def)
  show ?thesis
  proof (cases "unat (h_len ?head) < 13")
    case False
    let ?n = "length (ring_abs rb)"
    have rn: "2 \<le> ?n" "?n < 2 ^ 63" unfolding rb(3) using n by auto
    have cr: "unat (word_of_nat ?n :: u64) = ?n"
      using rn by (simp add: unat_of_nat take_bit_nat_eq_self)
    have "2 ^ 63 \<le> unat (hd_bodyLen h')"
      using False len by (auto simp: h'_def unat_sub_if' unat_ucast_u32)
    then have lt: "(word_of_nat ?n :: u64) < hd_bodyLen h'"
      using cr rn by (simp add: word_less_nat_alt)
    have "sm_getBody h' = Inl Heap_overflow"
    proof -
      obtain rb' where "ring_read ?n rb = Some (ring_abs rb, rb')"
        using rs.rd_ok[OF rb(2), of ?n] by auto
      then show ?thesis
        unfolding sm_getBody_def Let_def
        using lt cr rs.avail_pending[OF rb(2)] rn len False
        by (simp add: h'_def buf_write_def)
    qed
    then have "sm_step h' = Inl Heap_overflow"
      using rs.avail_pending[OF rb(2)] rn by (simp add: sm_step_def h'_def)
    then show ?thesis using step False by auto
  qed (use step in auto)
qed

text \<open>A head with length field 0.\<close>

definition short_head_example :: handler where
  "short_head_example = (handler_new [])\<lparr>hd_status := GetHead,
     hd_rb := \<lparr>rb_buff = replicate 16 0, rb_capacity = 16, rb_read_pos = 0, rb_write_pos = 14,
       rb_avail_read = 14, rb_avail_write = 2\<rparr>\<rparr>"

theorem short_head_overflows_witness:
  "sm_step short_head_example = Inl Heap_overflow \<or>
    (\<exists>h'. sm_step short_head_example = Inr (h', No_event) \<and> sm_step h' = Inl Heap_overflow)"
proof (rule short_head_overflows)
  have abs: "ring_abs (hd_rb short_head_example) = replicate 14 0"
    by (intro nth_equalityI) (auto simp: short_head_example_def ring_abs_def nth_replicate)
  show "ring_wf (hd_rb short_head_example)"
    by (simp add: short_head_example_def ring_wf_def)
  show "hd_status short_head_example = GetHead" by (simp add: short_head_example_def)
  show "unat (h_len (head_of (0x24 # take 12 (ring_abs (hd_rb short_head_example))))) < 15"
    unfolding abs by (simp add: head_of_def un_le32_def nth_replicate)
  show "14 \<le> length (ring_abs (hd_rb short_head_example))" unfolding abs by simp
  show "length (ring_abs (hd_rb short_head_example)) < 2 ^ 63" unfolding abs by simp
qed

end
