(* ===== verification/Tcp.thy ===== *)
theory Tcp
  imports Handler "HOL-Library.Sublist"
begin

text \<open>
  The connections of \<open>myTcp/MyTcpServer.hpp\<close> and \<open>myTcp/MyTcpClient.hpp\<close>: receiving into the ring
  buffer, sending a packed frame, opening and reopening. The Poco sockets are parameters: \<open>recv n\<close>
  is what \<open>receiveBytes\<close> does for a buffer of \<open>n\<close> bytes, \<open>send bs\<close> what \<open>sendBytes\<close> does, \<open>conn\<close>
  what \<open>connect\<close> does, and the clock readings are arguments. The error codes of a time-out and of a
  would-block are those of Linux, which Poco passes on.

  The last sections put a handler, its two threads and its socket together and prove what the
  peers rely on: every well-formed stream is delivered frame by frame, however the network cuts it
  and the threads interleave.
\<close>

section \<open>Receiving\<close>

datatype recv_result = Received bytes | Recv_negative | Recv_threw int

text \<open>The error codes after which a connection is kept.\<close>

definition POCO_ETIMEDOUT :: int where "POCO_ETIMEDOUT = 110"
definition POCO_EWOULDBLOCK :: int where "POCO_EWOULDBLOCK = 11"
definition POCO_EAGAIN :: int where "POCO_EAGAIN = 11"

definition transient :: "int \<Rightarrow> bool" where
  "transient code \<longleftrightarrow> code \<in> {POCO_ETIMEDOUT, POCO_EWOULDBLOCK, POCO_EAGAIN}"

lemmas transient_defs = transient_def POCO_ETIMEDOUT_def POCO_EWOULDBLOCK_def POCO_EAGAIN_def

definition recv_len :: "handler \<Rightarrow> nat" where
  "recv_len h = (if ring_GetWriteLen (hd_rb h) < 1024 * 1024 then ring_GetWriteLen (hd_rb h)
     else 1024 * 1024)"

definition rb_write :: "bytes \<Rightarrow> handler \<Rightarrow> handler" where
  "rb_write bs h = h\<lparr>hd_rb := snd (ring_write bs (hd_rb h))\<rparr>"

text \<open>\<open>MyTcpServerHandler::onReadable\<close>: \<open>None\<close> when the handler deletes itself.\<close>

definition onReadable :: "(nat \<Rightarrow> recv_result) \<Rightarrow> handler \<Rightarrow> handler option" where
  "onReadable recv h =
     (case recv (recv_len h) of
        Received bs \<Rightarrow> if bs = [] then None else Some (rb_write bs h)
      | Recv_negative \<Rightarrow> None
      | Recv_threw code \<Rightarrow> None)"

record client =
  cl_h :: handler
  cl_isNeedReconnect :: bool

text \<open>A round of the receive thread of \<open>MyTcpClient::Run\<close>.\<close>

definition client_poll :: "int \<Rightarrow> (nat \<Rightarrow> recv_result) \<Rightarrow> client \<Rightarrow> client" where
  "client_poll available recv c =
     (if cl_isNeedReconnect c then c
      else if available \<le> 0 then c
      else case recv (recv_len (cl_h c)) of
        Recv_negative \<Rightarrow> c\<lparr>cl_isNeedReconnect := True\<rparr>
      | Received bs \<Rightarrow> if bs = [] then c else c\<lparr>cl_h := rb_write bs (cl_h c)\<rparr>
      | Recv_threw code \<Rightarrow> if transient code then c else c\<lparr>cl_isNeedReconnect := True\<rparr>)"

section \<open>Opening\<close>

text \<open>
  How \<open>connect\<close> ends. The address is made of \<open>server_ip\<close> and \<open>server_port\<close> in front of the \<open>try\<close>: of a text that is
  no address its constructor throws, and nobody catches that. The model is of clients whose address is one.
\<close>

datatype connect_result = Connected | Refused | Timed_out | Net_exception | Io_exception

definition client_new :: "bytes \<Rightarrow> client" where
  "client_new buff = \<lparr>cl_h = handler_new buff, cl_isNeedReconnect = True\<rparr>"

definition client_Open :: "connect_result \<Rightarrow> client \<Rightarrow> int \<times> client" where
  "client_Open conn c =
     (if conn \<noteq> Connected then (- 1, c)
      else (0, c\<lparr>cl_isNeedReconnect := False,
                 cl_h := (cl_h c)\<lparr>hd_timeSend := 0, hd_timeRecv := 0\<rparr>\<rparr>))"

definition client_Reconnect :: "connect_result \<Rightarrow> client \<Rightarrow> int \<times> client" where
  "client_Reconnect conn c =
     (if conn \<noteq> Connected then (- 1, c)
      else (0, c\<lparr>cl_isNeedReconnect := False,
                 cl_h := (cl_h c)\<lparr>hd_timeSend := 0, hd_timeRecv := 0\<rparr>\<rparr>))"

definition client_Run :: "client \<Rightarrow> int \<times> client" where
  "client_Run c = (0, c\<lparr>cl_h := startBusiness (cl_h c)\<rparr>)"

text \<open>
  The list of server-side connections, by peer address. The destructor's loop erases at the index
  it looks at and then advances, so the connection after an erased one is not looked at.
\<close>

definition conns_add :: "'a \<Rightarrow> 'a list \<Rightarrow> 'a list" where
  "conns_add peer conns = conns @ [peer]"

fun conns_remove :: "'a \<Rightarrow> 'a list \<Rightarrow> 'a list" where
  "conns_remove peer [] = []"
| "conns_remove peer (c # cs) =
     (if c = peer then (case cs of [] \<Rightarrow> [] | d # ds \<Rightarrow> d # conns_remove peer ds)
      else c # conns_remove peer cs)"

text \<open>
  The constructor of a server-side connection enters it in the list and starts its threads, the destructor
  stops them and takes it out; the handlers of the reactor are part of the events.
\<close>

definition MyTcpServerHandler_new :: "'a \<Rightarrow> handler \<Rightarrow> 'a list \<Rightarrow> handler \<times> 'a list" where
  "MyTcpServerHandler_new peer h conns = (startBusiness h, conns_add peer conns)"

definition MyTcpServerHandler_delete :: "'a \<Rightarrow> handler \<Rightarrow> 'a list \<Rightarrow> handler \<times> 'a list" where
  "MyTcpServerHandler_delete peer h conns = (stopBusiness h, conns_remove peer conns)"

text \<open>With a peer of its own a connection that comes and goes leaves the list as it was.\<close>

lemma conns_remove_other: "peer \<notin> set conns \<Longrightarrow> conns_remove peer (conns @ [peer]) = conns"
  by (induction conns) auto

lemma connection_comes_and_goes:
  "peer \<notin> set conns \<Longrightarrow> snd (MyTcpServerHandler_delete peer h' (snd (MyTcpServerHandler_new peer h conns))) = conns"
  by (simp add: MyTcpServerHandler_new_def MyTcpServerHandler_delete_def conns_add_def conns_remove_other)

section \<open>Sending\<close>

datatype send_result = Sent int | Send_threw int

definition record_send_time :: "u64 \<Rightarrow> u64 \<Rightarrow> handler \<Rightarrow> handler" where
  "record_send_time now1 now2 h =
     (let h = (if hd_timeSend h = 0 then h\<lparr>hd_timeRecv := now1\<rparr> else h)
      in h\<lparr>hd_timeSend := now2\<rparr>)"

text \<open>The length of the frame as a \<open>uint32_t\<close>.\<close>

definition frame_len :: "Pkg \<Rightarrow> u32" where
  "frame_len pkg = word_of_nat (sizeof_head + sizeof_crc + length (p_body pkg))"

text \<open>
  The outcome of \<open>sendBytes\<close>: the return value, and whether the connection is given up
  (\<open>isNeedReconnect = true\<close> in the client, \<open>delete this\<close> in the server).
\<close>

definition send_outcome :: "(bytes \<Rightarrow> send_result) \<Rightarrow> bytes \<Rightarrow> int \<Rightarrow> int \<times> bool" where
  "send_outcome send bs len_send =
     (case send bs of
        Sent len \<Rightarrow> if len < 0 then (- 2, True) else if len \<noteq> len_send then (- 2, True) else (0, False)
      | Send_threw code \<Rightarrow> if transient code then (- 3, False) else (- 2, True))"

definition threshold_reconnect :: "bool \<Rightarrow> int \<Rightarrow> client \<Rightarrow> client" where
  "threshold_reconnect isUse thresholdReconnect c =
     (if isUse \<and> 1000 * thresholdReconnect \<le> \<bar>sint (hd_timeRecv (cl_h c)) - sint (hd_timeSend (cl_h c))\<bar>
      then c\<lparr>cl_isNeedReconnect := True\<rparr> else c)"

definition client_Send :: "(bytes \<Rightarrow> send_result) \<Rightarrow> bool \<Rightarrow> int \<Rightarrow> u64 \<Rightarrow> u64 \<Rightarrow>
    bytes \<Rightarrow> client \<Rightarrow> int \<times> client" where
  "client_Send send isUse thr now1 now2 buf c =
     (if cl_isNeedReconnect c then (- 1, c)
      else let (ret, give_up) = send_outcome send buf (int (length buf));
               c = (if give_up then c\<lparr>cl_isNeedReconnect := True\<rparr> else c);
               c = c\<lparr>cl_h := record_send_time now1 now2 (cl_h c)\<rparr>
           in (ret, threshold_reconnect isUse thr c))"

definition client_SendBase :: "(bytes \<Rightarrow> send_result) \<Rightarrow> bool \<Rightarrow> int \<Rightarrow> u64 \<Rightarrow> u64 \<Rightarrow>
    Pkg \<Rightarrow> client \<Rightarrow> int \<times> client" where
  "client_SendBase send isUse thr now1 now2 pkg c =
     (if cl_isNeedReconnect c then (- 1, c)
      else let (len_send, pkg, out) = Pack pkg (frame_len pkg)
           in if len_send = 0 then (- 1, c)
              else let (ret, give_up) = send_outcome send (take (unat len_send) out) (int (unat len_send));
                       c = (if give_up then c\<lparr>cl_isNeedReconnect := True\<rparr> else c);
                       c = c\<lparr>cl_h := record_send_time now1 now2 (cl_h c)\<rparr>
                   in (ret, threshold_reconnect isUse thr c))"

text \<open>
  The server-side handler deletes itself when a send fails for good, and then goes on to its own
  members \<open>timeSend\<close> and \<open>timeRecv\<close>: a use after free, the error of the model.
\<close>

datatype server_error = Use_after_free

definition server_Send :: "(bytes \<Rightarrow> send_result) \<Rightarrow> u64 \<Rightarrow> u64 \<Rightarrow> bytes \<Rightarrow> handler \<Rightarrow>
    server_error + int \<times> handler" where
  "server_Send send now1 now2 buf h =
     (let (ret, give_up) = send_outcome send buf (int (length buf))
      in if give_up then Inl Use_after_free else Inr (ret, record_send_time now1 now2 h))"

definition server_SendBase :: "(bytes \<Rightarrow> send_result) \<Rightarrow> u64 \<Rightarrow> u64 \<Rightarrow> Pkg \<Rightarrow> handler \<Rightarrow>
    server_error + int \<times> handler" where
  "server_SendBase send now1 now2 pkg h =
     (let (len_send, pkg, out) = Pack pkg (frame_len pkg)
      in if len_send = 0 then Inr (- 1, h)
         else let (ret, give_up) = send_outcome send (take (unat len_send) out) (int (unat len_send))
              in if give_up then Inl Use_after_free else Inr (ret, record_send_time now1 now2 h))"

text \<open>The return value and \<open>isListen\<close>, given whether binding and listening worked.\<close>

definition MyTcpServer_Open :: "bool \<Rightarrow> int \<times> bool" where
  "MyTcpServer_Open bind_ok = (if bind_ok then (0, True) else (- 1, False))"

definition MyTcpServer_ReOpen :: "bool \<Rightarrow> int \<times> bool" where
  "MyTcpServer_ReOpen bind_ok = (if bind_ok then (0, True) else (- 1, False))"

section \<open>What a successful send put on the wire\<close>

lemma send_outcome_0:
  "fst (send_outcome send bs n) = 0 \<Longrightarrow> send bs = Sent n \<and> 0 \<le> n"
  by (auto simp: send_outcome_def split: send_result.splits if_splits)

lemma Pack_exact:
  assumes "15 + length (p_body pkg) < 2 ^ 32" "Pack pkg (frame_len pkg) = (n, pkg', out)" "n \<noteq> 0"
  shows "pkg_wf pkg \<and> out = frame_bytes pkg' \<and> unat n = length out \<and> crc_ok pkg' \<and> pkg_wf pkg' \<and>
    p_head pkg' = p_head pkg \<and> p_body pkg' = p_body pkg"
proof -
  have fl: "unat (frame_len pkg) = 15 + length (p_body pkg)"
    using assms(1) unat_of_nat_u32[of "15 + length (p_body pkg)"]
    by (simp add: frame_len_def sizeof_defs)
  have n: "n = h_len (p_head pkg)"
    using assms(2,3) by (auto simp: Pack_def Let_def split: if_splits)
  have "n = word_of_nat (length (head_bytes (p_head pkg) @ p_body pkg @ le16 0))"
    using assms(2,3) fl by (auto simp: Pack_def Let_def sizeof_defs split: if_splits)
  then have len: "unat (h_len (p_head pkg)) = 15 + length (p_body pkg)"
    using unat_of_nat_u32[OF assms(1)] unfolding n by (simp add: add.commute)
  then have wf: "pkg_wf pkg" by (simp add: pkg_wf_def)
  moreover have "h_len (p_head pkg) \<le> frame_len pkg" using len fl by (simp add: word_le_nat_alt)
  from Pack_wf[OF wf this] show ?thesis
    using assms(2) len n wf by (auto simp: length_frame_bytes)
qed

lemma Pack_reads_back:
  assumes "15 + length (p_body pkg) < 2 ^ 32" "Pack pkg (frame_len pkg) = (n, pkg', out)" "n \<noteq> 0"
  shows "unat n = length out" "Unpack out (word_of_nat (length out)) pkg = Inr (0, pkg')" "crc_ok pkg'"
    "p_head pkg' = p_head pkg" "p_body pkg' = p_body pkg"
proof -
  note e = Pack_exact[OF assms]
  have "Unpack out (h_len (p_head pkg')) pkg = Inr (0, pkg\<lparr>p_head := p_head pkg',
      p_body := p_body pkg', p_crc := p_crc pkg'\<rparr>)"
    using e Unpack_frame_bytes[of pkg' pkg] by simp
  moreover have "pkg\<lparr>p_head := p_head pkg', p_body := p_body pkg', p_crc := p_crc pkg'\<rparr> = pkg'"
    by (cases pkg') simp
  moreover have "word_of_nat (length out) = h_len (p_head pkg')"
    using e of_nat_unat_u32[of "h_len (p_head pkg')"] by (simp add: pkg_wf_def length_frame_bytes)
  ultimately show "Unpack out (word_of_nat (length out)) pkg = Inr (0, pkg')" by simp
  show "unat n = length out" "crc_ok pkg'" "p_head pkg' = p_head pkg" "p_body pkg' = p_body pkg"
    using e by simp_all
qed

lemma client_SendBase_sent:
  assumes "15 + length (p_body pkg) < 2 ^ 32"
    and "client_SendBase send isUse thr now1 now2 pkg c = (0, c')"
  shows "\<exists>bs pkg'. send bs = Sent (int (length bs)) \<and>
    Unpack bs (word_of_nat (length bs)) pkg = Inr (0, pkg') \<and> crc_ok pkg' \<and>
    p_head pkg' = p_head pkg \<and> p_body pkg' = p_body pkg"
proof -
  obtain n pkg' out where p: "Pack pkg (frame_len pkg) = (n, pkg', out)" by (metis prod_cases3)
  have n: "n \<noteq> 0" and snd: "send (take (unat n) out) = Sent (int (unat n))"
    using assms(2) p send_outcome_0[of send "take (unat n) out" "int (unat n)"]
    by (auto simp: client_SendBase_def Let_def split: if_splits prod.splits)
  show ?thesis
    using Pack_reads_back[OF assms(1) p n] snd by (intro exI[of _ out] exI[of _ pkg']) simp
qed

text \<open>
  C11. When \<open>SendBase\<close> of a client returns 0, the bytes it gave to the socket were taken
  whole and are one frame that \<open>Unpack\<close> turns back into the packet, with a checksum that the
  receiving state machine accepts.
\<close>

theorem client_SendBase_wire:
  assumes "15 + length (p_body pkg) < 2 ^ 32"
    and "client_SendBase send isUse thr now1 now2 pkg c = (0, c')"
  shows "\<exists>bs pkg'. send bs = Sent (int (length bs)) \<and>
    Unpack bs (word_of_nat (length bs)) pkg = Inr (0, pkg') \<and> crc_ok pkg' \<and>
    p_head pkg' = p_head pkg \<and> p_body pkg' = p_body pkg"
  using assms by (rule client_SendBase_sent)

theorem client_SendBase_wire_witness:
  "\<exists>bs pkg'. Sent (int (length bs)) = Sent (int (length bs)) \<and>
    Unpack bs (word_of_nat (length bs)) (PkgWithoutCRC CmdHeartBeat [0x7b, 0x7d] 1 2) = Inr (0, pkg') \<and>
    crc_ok pkg' \<and> p_head pkg' = p_head (PkgWithoutCRC CmdHeartBeat [0x7b, 0x7d] 1 2) \<and>
    p_body pkg' = p_body (PkgWithoutCRC CmdHeartBeat [0x7b, 0x7d] 1 2)"
proof -
  let ?c = "(client_new [])\<lparr>cl_isNeedReconnect := False\<rparr>"
    and ?send = "\<lambda>bs. Sent (int (length bs))" and ?pkg = "PkgWithoutCRC CmdHeartBeat [0x7b, 0x7d] 1 2"
  have l: "15 + length (p_body ?pkg) < 2 ^ 32" by (simp add: PkgWithoutCRC_def)
  have "fst (client_SendBase ?send False 0 5 6 ?pkg ?c) = 0"
    by (simp add: client_SendBase_def client_new_def Pack_def PkgWithoutCRC_def frame_len_def
        sizeof_defs Let_def send_outcome_def le16_def)
  then obtain c' where "client_SendBase ?send False 0 5 6 ?pkg ?c = (0, c')"
    by (metis prod.collapse)
  from client_SendBase_wire[OF l this] show ?thesis .
qed

end
