(* ===== verification/Stream.thy ===== *)
theory Stream
  imports Tcp
begin

text \<open>
  A connection as a whole: the bytes the kernel still holds, the handler, and its two threads,
  whose rounds come in any order. \<open>Readable k\<close> is a call of \<open>onReadable\<close> for which the socket hands
  out at most \<open>k\<close> bytes, \<open>Tick\<close> a round of \<open>ThreadStateMachine\<close>, \<open>Process\<close> a round of
  \<open>ThreadProcessPkg\<close>.

  The theorems state the contract of the receive path: a run of the threads never queues a packet
  with a wrong checksum, delivers the frames of a well-formed stream in order whatever lies
  between them and however it is cut, and, once the bytes have arrived, delivers all of them in
  a bounded number of rounds.
\<close>

section \<open>Runs of a connection\<close>

datatype net_event = Readable nat | Tick | Process

record net =
  nt_h :: handler
  nt_sock :: bytes

datatype net_stop = Closed | Fault sm_error

text \<open>What a run did: the frames it finished and the packets it processed.\<close>

type_synonym net_log = "sm_event list \<times> Pkg list"

definition sock_recv :: "nat \<Rightarrow> bytes \<Rightarrow> nat \<Rightarrow> recv_result" where
  "sock_recv k sock n = Received (take (min k n) sock)"

fun net_step :: "net_event \<Rightarrow> net \<Rightarrow> net_stop + net \<times> net_log" where
  "net_step (Readable k) n =
     (case onReadable (sock_recv k (nt_sock n)) (nt_h n) of
        None \<Rightarrow> Inl Closed
      | Some h \<Rightarrow> Inr (n\<lparr>nt_h := h, nt_sock := drop (min k (recv_len (nt_h n))) (nt_sock n)\<rparr>, [], []))"
| "net_step Tick n =
     (case sm_step (nt_h n) of
        Inl e \<Rightarrow> Inl (Fault e)
      | Inr (h, ev) \<Rightarrow> Inr (n\<lparr>nt_h := h\<rparr>, [ev], []))"
| "net_step Process n =
     (case process_step (\<lambda>_. Some ()) (nt_h n) of
        (h, None) \<Rightarrow> Inr (n\<lparr>nt_h := h\<rparr>, [], [])
      | (h, Some (pkg, _)) \<Rightarrow> Inr (n\<lparr>nt_h := h\<rparr>, [], [pkg]))"

fun net_run :: "net_event list \<Rightarrow> net \<times> net_log \<Rightarrow> net_stop + net \<times> net_log" where
  "net_run [] s = Inr s"
| "net_run (e # es) s =
     (case net_step e (fst s) of
        Inl x \<Rightarrow> Inl x
      | Inr (n, evs, ps) \<Rightarrow> net_run es (n, fst (snd s) @ evs, snd (snd s) @ ps))"

text \<open>A new connection whose peer will send \<open>stream\<close>.\<close>

definition net_init :: "bytes \<Rightarrow> bytes \<Rightarrow> net \<times> net_log" where
  "net_init buff stream = (\<lparr>nt_h = handler_new buff, nt_sock = stream\<rparr>, [], [])"

text \<open>The packets whose frame was finished and accepted, and those of them that were queued.\<close>

fun ev_pkgs :: "sm_event \<Rightarrow> Pkg list" where
  "ev_pkgs (Push_ok p) = [p]"
| "ev_pkgs (Push_fail p) = [p]"
| "ev_pkgs _ = []"

fun ev_queued :: "sm_event \<Rightarrow> Pkg list" where
  "ev_queued (Push_ok p) = [p]"
| "ev_queued _ = []"

definition accepted :: "sm_event list \<Rightarrow> Pkg list" where
  "accepted evs = concat (map ev_pkgs evs)"

definition queued :: "sm_event list \<Rightarrow> Pkg list" where
  "queued evs = concat (map ev_queued evs)"

lemma accepted_append [simp]: "accepted (xs @ ys) = accepted xs @ accepted ys"
  by (simp add: accepted_def)

lemma queued_append [simp]: "queued (xs @ ys) = queued xs @ queued ys"
  by (simp add: queued_def)

lemma accepted_verdict: "accepted [verdict full f] = filter crc_ok [frame_of f]"
  by (simp add: accepted_def verdict_def)

lemma queued_verdict:
  "queued [verdict full f] = (if full then [] else filter crc_ok [frame_of f])"
  by (simp add: queued_def verdict_def)

lemma accepted_No_event [simp]: "accepted [No_event] = []" "queued [No_event] = []"
  "accepted [] = []" "queued [] = []"
  by (simp_all add: accepted_def queued_def)

section \<open>The scan of an appended stream\<close>

lemma scan_all_append:
  "scan_all (a @ b) =
     (case scan_all a of None \<Rightarrow> None
      | Some (cur, fs) \<Rightarrow> map_option (\<lambda>(c, gs). (c, fs @ gs)) (foldl scan_byte (Some (cur, [])) b))"
proof (cases "scan_all a")
  case None
  then show ?thesis by (simp add: scan_all_def)
next
  case (Some p)
  then show ?thesis
    using scan_out[of "fst p" "snd p" b] by (cases p) (simp add: scan_all_def)
qed

lemma ring_new_capacity [simp]: "rb_capacity (ring_new buff) = length buff"
  by (simp add: ring_new_def)

section \<open>Any stream\<close>

text \<open>
  The scan cuts a stream into bytes that belong to no frame, frames and the frame in progress.
\<close>

definition cut_into :: "(bytes \<times> Pkg) list \<Rightarrow> bytes" where
  "cut_into segs = concat (map (\<lambda>(junk, pkg). junk @ frame_bytes pkg) segs)"

definition frames_wf :: "(bytes \<times> Pkg) list \<Rightarrow> bool" where
  "frames_wf segs \<longleftrightarrow>
     (\<forall>(junk, pkg) \<in> set segs. 0x24 \<notin> set junk \<and> h_tag (p_head pkg) = 0x24 \<and> pkg_wf pkg)"

lemma frame_bytes_frame_of:
  assumes "13 \<le> length f" "length f = unat (h_len (head_of f))" "15 \<le> unat (h_len (head_of f))"
  shows "frame_bytes (frame_of f) = f" and "pkg_wf (frame_of f)"
proof -
  have hb: "head_bytes (head_of f) = take 13 f"
    using head_bytes_head_of[of "take 13 f"] assms(1) head_of_take[of f] by simp
  have "le16 (un_le16 (drop (length f - 2) f)) = drop (length f - 2) f"
    using assms by (intro le16_un_le16) simp
  then have "frame_bytes (frame_of f) = take 13 f @ take (length f - 15) (drop 13 f) @ drop (length f - 2) f"
    by (simp add: frame_bytes_def frame_of_def hb)
  also have "\<dots> = f"
    using take_drop_slice[of "length f - 15" 13 f] assms by simp
  finally show "frame_bytes (frame_of f) = f" .
  show "pkg_wf (frame_of f)" using assms by (simp add: pkg_wf_def frame_of_def)
qed

lemma scan_cuts:
  "scan_all bs = Some (cur, fs) \<Longrightarrow>
     \<exists>segs junk. bs = cut_into segs @ junk @ cur \<and> map snd segs = map frame_of fs \<and> frames_wf segs \<and>
       0x24 \<notin> set junk \<and> (cur \<noteq> [] \<longrightarrow> hd cur = 0x24)"
proof (induction bs arbitrary: cur fs rule: rev_induct)
  case Nil
  then show ?case by (auto simp: scan_all_def cut_into_def frames_wf_def)
next
  case (snoc b bs)
  then obtain c gs where p: "scan_all bs = Some (c, gs)" and b: "scan_byte (Some (c, gs)) b = Some (cur, fs)"
    by (cases "scan_all bs") (auto simp: scan_all_def)
  obtain segs junk where IH: "bs = cut_into segs @ junk @ c" "map snd segs = map frame_of gs"
    "frames_wf segs" "0x24 \<notin> set junk" "c \<noteq> [] \<longrightarrow> hd c = 0x24"
    using snoc.IH[OF p] by auto
  consider (junk) "c = []" "b \<noteq> 0x24" "cur = []" "fs = gs"
    | (dollar) "c = []" "b = 0x24" "cur = [b]" "fs = gs"
    | (more) "c \<noteq> []" "cur = c @ [b]" "fs = gs"
    | (complete) "c \<noteq> []" "cur = []" "fs = gs @ [c @ [b]]" "13 \<le> length (c @ [b])"
        "length (c @ [b]) = unat (h_len (head_of (c @ [b])))" "15 \<le> unat (h_len (head_of (c @ [b])))"
    using b by (auto simp: Let_def split: if_splits dest: len_ok_ge)
  then show ?case
  proof cases
    case junk
    then show ?thesis using IH by (intro exI[of _ segs] exI[of _ "junk @ [b]"]) auto
  next
    case dollar
    then show ?thesis using IH by (intro exI[of _ segs] exI[of _ junk]) auto
  next
    case more
    then show ?thesis using IH by (intro exI[of _ segs] exI[of _ junk]) auto
  next
    case complete
    note f = frame_bytes_frame_of[OF complete(4,5,6)]
    have "h_tag (p_head (frame_of (c @ [b]))) = 0x24"
      using complete(1) IH(5) by (cases c) (auto simp: frame_of_def head_of_def)
    then show ?thesis
      using IH complete f
      by (intro exI[of _ "segs @ [(junk, frame_of (c @ [b]))]"] exI[of _ "[]"])
        (auto simp: cut_into_def frames_wf_def)
  qed
qed

text \<open>The invariant of a run on any stream.\<close>

definition any_inv :: "bytes \<Rightarrow> net \<times> net_log \<Rightarrow> bool" where
  "any_inv stream s \<longleftrightarrow>
     (case s of (n, evs, ps) \<Rightarrow>
       \<exists>consumed rest cur fs. stream = consumed @ rest @ ring_abs (hd_rb (nt_h n)) @ nt_sock n \<and>
         scan_all consumed = Some (cur, fs) \<and> (rest = [] \<and> sm_rel (nt_h n) cur \<or> doomed (nt_h n) \<and> scan_all (consumed @ rest) = None) \<and>
         rb_capacity (hd_rb (nt_h n)) < 2 ^ 63 \<and>
         accepted evs = filter crc_ok (map frame_of fs) \<and>
         queued evs = ps @ q_items (hd_pkgs (nt_h n)))"

lemma any_invI:
  "stream = consumed @ rest @ ring_abs (hd_rb (nt_h n)) @ nt_sock n \<Longrightarrow>
   scan_all consumed = Some (cur, fs) \<Longrightarrow> rest = [] \<and> sm_rel (nt_h n) cur \<or> doomed (nt_h n) \<and> scan_all (consumed @ rest) = None \<Longrightarrow>
   rb_capacity (hd_rb (nt_h n)) < 2 ^ 63 \<Longrightarrow> accepted evs = filter crc_ok (map frame_of fs) \<Longrightarrow>
   queued evs = ps @ q_items (hd_pkgs (nt_h n)) \<Longrightarrow> any_inv stream (n, evs, ps)"
  unfolding any_inv_def by blast

lemma doomed_not_rel: "doomed h \<Longrightarrow> \<not> sm_rel h cur"
  by (auto simp: doomed_def sm_rel_def len_ok_def Let_def)

lemma any_inv_init:
  "buff \<noteq> [] \<Longrightarrow> length buff < 2 ^ 63 \<Longrightarrow> any_inv stream (net_init buff stream)"
  unfolding net_init_def
  by (rule any_invI[of _ "[]" "[]" _ "[]" "[]"])
    (simp_all add: handler_new_def scan_all_def sm_rel_def ring_wf_new queue_setMax_def queue_new_def)

lemma rb_write_abs:
  assumes "ring_wf (hd_rb h)" "length bs \<le> recv_len h"
  shows "ring_wf (hd_rb (rb_write bs h)) \<and> ring_abs (hd_rb (rb_write bs h)) = ring_abs (hd_rb h) @ bs \<and>
    rb_capacity (hd_rb (rb_write bs h)) = rb_capacity (hd_rb h)"
proof -
  have "length bs \<le> rb_avail_write (hd_rb h)"
    using assms(2) by (auto simp: recv_len_def ring_GetWriteLen_def split: if_splits)
  from ring_write_eq[OF assms(1) this] show ?thesis by (simp add: rb_write_def)
qed

lemma sm_rel_rb_write: "sm_rel h cur \<Longrightarrow> length bs \<le> recv_len h \<Longrightarrow> sm_rel (rb_write bs h) cur"
  using rb_write_abs[of h bs]
  by (simp add: sm_rel_def rb_write_def cong: RecvStatus.case_cong)

lemma doomed_rb_write: "doomed h \<Longrightarrow> length bs \<le> recv_len h \<Longrightarrow> doomed (rb_write bs h)"
  using rb_write_abs[of h bs] by (simp add: doomed_def rb_write_def)

lemma any_inv_readable:
  assumes "any_inv stream (n, evs, ps)" and "net_step (Readable k) n = Inr (n', l)"
  shows "l = ([], []) \<and> any_inv stream (n', evs, ps)"
proof -
  let ?h = "nt_h n"
  let ?bs = "take (min k (recv_len ?h)) (nt_sock n)"
  obtain consumed rest cur fs where st: "stream = consumed @ rest @ ring_abs (hd_rb ?h) @ nt_sock n"
    and inv: "scan_all consumed = Some (cur, fs)" "rest = [] \<and> sm_rel ?h cur \<or> doomed ?h \<and> scan_all (consumed @ rest) = None"
      "rb_capacity (hd_rb ?h) < 2 ^ 63" "accepted evs = filter crc_ok (map frame_of fs)"
      "queued evs = ps @ q_items (hd_pkgs ?h)"
    using assms(1) unfolding any_inv_def by auto
  have n': "n' = n\<lparr>nt_h := rb_write ?bs ?h, nt_sock := drop (min k (recv_len ?h)) (nt_sock n)\<rparr>"
    "l = ([], [])"
    using assms(2) by (auto simp: onReadable_def sock_recv_def split: if_splits)
  have wf: "ring_wf (hd_rb ?h)" using inv(2) by (auto simp: sm_rel_def doomed_def)
  have len: "length ?bs \<le> recv_len ?h" by simp
  have "any_inv stream (n', evs, ps)"
  proof (rule any_invI)
    show "stream = consumed @ rest @ ring_abs (hd_rb (nt_h n')) @ nt_sock n'"
      using st rb_write_abs[OF wf len] n' by simp
    show "rest = [] \<and> sm_rel (nt_h n') cur \<or> doomed (nt_h n') \<and> scan_all (consumed @ rest) = None"
      using inv(2) sm_rel_rb_write[OF _ len] doomed_rb_write[OF _ len] n' by auto
  qed (use inv n' in \<open>simp_all add: rb_write_def\<close>)
  then show ?thesis using n' by simp
qed

lemma any_inv_process:
  assumes "any_inv stream (n, evs, ps)" and "net_step Process n = Inr (n', l)"
  shows "fst l = [] \<and> any_inv stream (n', evs, ps @ snd l)"
proof (cases "q_items (hd_pkgs (nt_h n))")
  case Nil
  then show ?thesis using assms by (auto simp: process_step_def queue_pop_def)
next
  case (Cons p q)
  have n': "n' = n\<lparr>nt_h := (nt_h n)\<lparr>hd_pkgs := (hd_pkgs (nt_h n))\<lparr>q_items := q\<rparr>\<rparr>\<rparr>" "l = ([], [p])"
    using assms(2) Cons by (auto simp: process_step_def queue_pop_def)
  have rel: "sm_rel (h\<lparr>hd_pkgs := q\<rparr>) cur = sm_rel h cur" "doomed (h\<lparr>hd_pkgs := q\<rparr>) = doomed h" for h q cur
    by (simp_all add: sm_rel_def doomed_def cong: RecvStatus.case_cong)
  show ?thesis
    using assms(1) Cons unfolding n' any_inv_def by (auto simp: rel)
qed

lemma any_inv_tick:
  assumes "any_inv stream (n, evs, ps)" and "net_step Tick n = Inr (n', l)"
  shows "snd l = [] \<and> any_inv stream (n', evs @ fst l, ps)"
proof -
  let ?h = "nt_h n"
  obtain consumed rest cur fs where st: "stream = consumed @ rest @ ring_abs (hd_rb ?h) @ nt_sock n"
    and sc: "scan_all consumed = Some (cur, fs)" and rel: "rest = [] \<and> sm_rel ?h cur \<or> doomed ?h \<and> scan_all (consumed @ rest) = None"
    and inv: "rb_capacity (hd_rb ?h) < 2 ^ 63" "accepted evs = filter crc_ok (map frame_of fs)"
      "queued evs = ps @ q_items (hd_pkgs ?h)"
    using assms(1) unfolding any_inv_def by auto
  obtain h' ev where step: "sm_step ?h = Inr (h', ev)" and n': "n' = n\<lparr>nt_h := h'\<rparr>" "l = ([ev], [])"
    using assms(2) by (auto split: sum.splits)
  have wf: "ring_wf (hd_rb ?h)" using rel by (auto simp: sm_rel_def doomed_def)
  then have len: "length (ring_abs (hd_rb ?h)) < 2 ^ 63" using inv(1) by (simp add: ring_wf_def)
  have "any_inv stream (n', evs @ [ev], ps)"
  proof (cases "doomed ?h")
    case True
    obtain xs where "ring_abs (hd_rb ?h) = xs @ ring_abs (hd_rb h')" "doomed h'" "ev = No_event"
      "hd_pkgs h' = hd_pkgs ?h" "rb_capacity (hd_rb h') = rb_capacity (hd_rb ?h)"
      using doomed_step[OF True len] step by auto
    moreover have "scan_all (consumed @ rest @ xs) = None" if "scan_all (consumed @ rest) = None"
      using that scan_all_append[of "consumed @ rest" xs] by simp
    ultimately show ?thesis
      using st sc inv n' rel True doomed_not_rel[OF True]
      by (intro any_invI[of _ consumed "rest @ xs"]) auto
  next
    case False
    then have r: "rest = []" "sm_rel ?h cur" using rel by auto
    have len64: "length (ring_abs (hd_rb ?h)) < 2 ^ 64" using len by simp
    obtain xs where xs: "ring_abs (hd_rb ?h) = xs @ ring_abs (hd_rb h')"
        "rb_capacity (hd_rb h') = rb_capacity (hd_rb ?h)"
      and scan: "case foldl scan_byte (Some (cur, [])) xs of
             None \<Rightarrow> doomed h' \<and> ev = No_event \<and> hd_pkgs h' = hd_pkgs ?h
           | Some (cur', gs) \<Rightarrow> sm_rel h' cur' \<and>
               (gs = [] \<and> ev = No_event \<and> hd_pkgs h' = hd_pkgs ?h \<or>
                (\<exists>f. gs = [f] \<and> ev = verdict (queue_full (hd_pkgs ?h)) f \<and>
                     hd_pkgs h' = frame_push f (hd_pkgs ?h)))"
      using sm_step_sim[OF r(2) len64] step by (auto simp: sim_ok_def)
    show ?thesis
    proof (cases "foldl scan_byte (Some (cur, [])) xs")
      case None
      then show ?thesis
        using st sc inv n' r xs scan by (intro any_invI[of _ consumed xs]) (simp_all add: scan_all_append)
    next
      case (Some c)
      obtain cur' gs where c: "c = (cur', gs)" by (cases c)
      have "accepted (evs @ [ev]) = filter crc_ok (map frame_of (fs @ gs))"
        using scan Some c inv by (auto simp: accepted_verdict)
      moreover have "queued (evs @ [ev]) = ps @ q_items (hd_pkgs h')"
        using scan Some c inv by (auto simp: queued_verdict frame_push_def queue_push_def)
      moreover have "scan_all (consumed @ xs) = Some (cur', fs @ gs)"
        using Some c sc by (simp add: scan_all_append)
      ultimately show ?thesis
        using st inv n' r xs scan Some c
        by (intro any_invI[of _ "consumed @ xs" "[]" _ cur' "fs @ gs"]) simp_all
    qed
  qed
  then show ?thesis using n' by simp
qed

lemma any_inv_run:
  "any_inv stream s \<Longrightarrow> net_run es s = Inr t \<Longrightarrow> any_inv stream t"
proof (induction es arbitrary: s)
  case (Cons e es)
  obtain n evs ps where s: "s = (n, evs, ps)" by (cases s) auto
  obtain n' l where step: "net_step e n = Inr (n', l)"
    and run: "net_run es (n', evs @ fst l, ps @ snd l) = Inr t"
    using Cons.prems(2) s by (auto split: sum.splits prod.splits)
  have "any_inv stream (n', evs @ fst l, ps @ snd l)"
  proof (cases e)
    case (Readable k)
    then show ?thesis using any_inv_readable Cons.prems(1) step unfolding s by fastforce
  next
    case Tick
    then show ?thesis using any_inv_tick Cons.prems(1) step unfolding s by fastforce
  next
    case Process
    then show ?thesis using any_inv_process Cons.prems(1) step unfolding s by fastforce
  qed
  then show ?case by (rule Cons.IH[OF _ run])
qed simp

lemma queued_accepted: "set (queued evs) \<subseteq> set (accepted evs)"
proof (induction evs)
  case (Cons e evs)
  have "set (ev_queued e) \<subseteq> set (ev_pkgs e)" by (cases e) auto
  then show ?case using Cons by (auto simp: queued_def accepted_def)
qed simp

lemma run_cut:
  assumes "buff \<noteq> []" "length buff < 2 ^ 63" "net_run es (net_init buff stream) = Inr (n, evs, ps)"
  obtains segs rest where "stream = cut_into segs @ rest" "frames_wf segs"
    "accepted evs = filter crc_ok (map snd segs)" "set ps \<subseteq> set (accepted evs)"
proof -
  have inv: "any_inv stream (n, evs, ps)"
    by (rule any_inv_run[OF any_inv_init[OF assms(1,2)] assms(3)])
  then obtain consumed rest cur fs where st: "stream = consumed @ rest"
    and sc: "scan_all consumed = Some (cur, fs)" and acc: "accepted evs = filter crc_ok (map frame_of fs)"
    and q: "queued evs = ps @ q_items (hd_pkgs (nt_h n))"
    unfolding any_inv_def by auto
  obtain segs junk where cut: "consumed = cut_into segs @ junk @ cur" "map snd segs = map frame_of fs" "frames_wf segs"
    using scan_cuts[OF sc] by auto
  have "set ps \<subseteq> set (accepted evs)" using queued_accepted[of evs] q by auto
  then show ?thesis using that[of segs "junk @ cur @ rest"] st cut acc by simp
qed

text \<open>
  C2. Whatever bytes a peer sends, and however they are cut and the rounds interleave: the packets
  that a run accepts are disjoint pieces of the stream, in its order, each starting with \<open>'$'\<close>, of
  the length its head states and with the right checksum; the pieces that lie between them
  hold frames whose checksum is wrong or no \<open>'$'\<close> at all.
\<close>

theorem accepted_only_valid:
  assumes "buff \<noteq> []" "length buff < 2 ^ 63"
    and "net_run es (net_init buff stream) = Inr (n, evs, ps)"
  shows "\<exists>segs rest. stream = cut_into segs @ rest \<and> frames_wf segs \<and>
    accepted evs = filter crc_ok (map snd segs)"
  by (rule run_cut[OF assms]) blast

section \<open>Well-formed streams\<close>

text \<open>
  A frame that a peer may send, short enough for the \<open>int\<close> index of the handler to reach its checksum, and a
  stream of frames with other bytes before each.
\<close>

definition frame_ok :: "Pkg \<Rightarrow> bool" where
  "frame_ok pkg \<longleftrightarrow> h_tag (p_head pkg) = 0x24 \<and> pkg_wf pkg \<and> unat (h_len (p_head pkg)) < 2 ^ 31 + 2 \<and> crc_ok pkg"

definition segments_ok :: "(bytes \<times> Pkg) list \<Rightarrow> bool" where
  "segments_ok segs \<longleftrightarrow> (\<forall>(junk, pkg) \<in> set segs. 0x24 \<notin> set junk \<and> frame_ok pkg)"

definition stream_of :: "(bytes \<times> Pkg) list \<Rightarrow> bytes" where
  "stream_of segs = concat (map (\<lambda>(junk, pkg). junk @ frame_bytes pkg) segs)"

lemma scan_junk: "0x24 \<notin> set junk \<Longrightarrow> foldl scan_byte (Some ([], out)) junk = Some ([], out)"
  by (induction junk) auto

lemma head_of_frame_bytes: "head_of (frame_bytes pkg) = p_head pkg"
  by (simp add: frame_bytes_def)

lemma frame_of_frame_bytes: "frame_of (frame_bytes pkg) = pkg"
proof -
  have "drop 13 (frame_bytes pkg) = p_body pkg @ le16 (p_crc pkg)"
    "drop (13 + length (p_body pkg)) (frame_bytes pkg) = le16 (p_crc pkg)"
    by (simp_all add: frame_bytes_def)
  then show ?thesis
    using un_le16_le16[of "p_crc pkg" "[]"]
    by (simp add: frame_of_def length_frame_bytes head_of_frame_bytes)
qed

lemma scan_frame:
  assumes "frame_ok pkg"
  shows "foldl scan_byte (Some ([], out)) (frame_bytes pkg) = Some ([], out @ [frame_bytes pkg])"
proof -
  let ?f = "frame_bytes pkg"
  have len: "length ?f = 15 + length (p_body pkg)" "unat (h_len (p_head pkg)) = 15 + length (p_body pkg)"
      "len_ok (h_len (p_head pkg))"
    using assms by (simp_all add: length_frame_bytes frame_ok_def pkg_wf_def len_ok_def)
  have hd: "?f = 0x24 # tl (head_bytes (p_head pkg)) @ p_body pkg @ le16 (p_crc pkg)"
    using assms by (simp add: frame_ok_def frame_bytes_def head_bytes_def)
  let ?hs = "tl (head_bytes (p_head pkg))"
  have h12: "length ?hs = 12" by simp
  have hb: "0x24 # ?hs = head_bytes (p_head pkg)"
    using assms by (simp add: frame_ok_def head_bytes_def)
  have hh: "head_of (0x24 # ?hs) = p_head pkg"
    unfolding hb using head_of_head_bytes[of "p_head pkg" "[]"] by simp
  have l13: "length (0x24 # ?hs) = 13" by simp
  have s1: "foldl scan_byte (Some ([], out)) (0x24 # ?hs) = Some (0x24 # ?hs, out)"
    using scan_head[OF h12, of out] hh len by simp
  have s2: "foldl scan_byte (Some (0x24 # ?hs, out)) (p_body pkg) = Some ((0x24 # ?hs) @ p_body pkg, out)"
    using hh len l13 by (intro scan_body) simp_all
  have hh2: "head_of ((0x24 # ?hs) @ p_body pkg) = p_head pkg"
    using head_of_append[of "0x24 # ?hs" "p_body pkg"] l13 hh by simp
  have s3: "foldl scan_byte (Some ((0x24 # ?hs) @ p_body pkg, out)) (le16 (p_crc pkg)) =
      Some ([], out @ [((0x24 # ?hs) @ p_body pkg) @ le16 (p_crc pkg)])"
    using hh2 len l13 by (intro scan_crc) simp_all
  have "?f = (0x24 # ?hs) @ p_body pkg @ le16 (p_crc pkg)" unfolding hb frame_bytes_def by simp
  then show ?thesis using s1 s2 s3 by (simp only: foldl_append append_assoc)
qed

lemma scan_segments:
  "segments_ok segs \<Longrightarrow> foldl scan_byte (Some ([], out)) (stream_of segs) =
     Some ([], out @ map (\<lambda>(junk, pkg). frame_bytes pkg) segs)"
  by (induction segs arbitrary: out)
    (auto simp: stream_of_def segments_ok_def scan_junk scan_frame)

lemma scan_stream_of:
  "segments_ok segs \<Longrightarrow> scan_all (stream_of segs) = Some ([], map (\<lambda>(junk, pkg). frame_bytes pkg) segs)"
  using scan_segments[of segs "[]"] by (simp add: scan_all_def)

lemma frames_of_segments:
  "segments_ok segs \<Longrightarrow>
     filter crc_ok (map frame_of (map (\<lambda>(junk, pkg). frame_bytes pkg) segs)) = map snd segs"
  by (induction segs) (auto simp: segments_ok_def frame_ok_def frame_of_frame_bytes)

section \<open>Safety\<close>

lemma no_fault_step:
  assumes "any_inv stream s" "scan_all stream \<noteq> None" "net_step e (fst s) = Inl x"
  shows "x = Closed"
proof (rule ccontr)
  assume "x \<noteq> Closed"
  obtain n evs ps where s: "s = (n, evs, ps)" by (cases s) auto
  obtain err where step: "sm_step (nt_h n) = Inl err"
    using assms(3) \<open>x \<noteq> Closed\<close> unfolding s
    by (cases e) (auto split: option.splits sum.splits prod.splits)
  obtain consumed rest cur fs where st: "stream = consumed @ rest @ ring_abs (hd_rb (nt_h n)) @ nt_sock n"
    and sc: "scan_all consumed = Some (cur, fs)"
    and rel: "rest = [] \<and> sm_rel (nt_h n) cur \<or> doomed (nt_h n) \<and> scan_all (consumed @ rest) = None"
    and cap: "rb_capacity (hd_rb (nt_h n)) < 2 ^ 63"
    using assms(1) unfolding s any_inv_def by auto
  have prefix_ok: "scan_all xs \<noteq> None" if "stream = xs @ ys" for xs ys
    using assms(2) scan_all_append[of xs ys] unfolding that by (auto split: option.splits)
  have "rest = []" "sm_rel (nt_h n) cur" using rel prefix_ok[of "consumed @ rest"] st by auto
  moreover have "length (ring_abs (hd_rb (nt_h n))) < 2 ^ 64"
    using calculation(2) cap by (simp add: sm_rel_def ring_wf_def)
  ultimately have "foldl scan_byte (Some (cur, [])) (ring_abs (hd_rb (nt_h n))) = None"
    using sm_step_sim[of "nt_h n" cur] step by (simp add: sim_ok_def)
  then have "scan_all (consumed @ ring_abs (hd_rb (nt_h n))) = None"
    using sc by (simp add: scan_all_append)
  then show False
    using prefix_ok[of "consumed @ ring_abs (hd_rb (nt_h n))" "nt_sock n"] st \<open>rest = []\<close> by simp
qed

lemma no_fault_run:
  assumes "any_inv stream s" "scan_all stream \<noteq> None" "net_run es s = Inl x"
  shows "x = Closed"
  using assms(1,3)
proof (induction es arbitrary: s)
  case (Cons e es)
  show ?case
  proof (cases "net_step e (fst s)")
    case (Inl y)
    then show ?thesis using no_fault_step[OF Cons.prems(1) assms(2) Inl] Cons.prems(2) by simp
  next
    case (Inr r)
    then have "net_run [e] s = Inr (fst r, fst (snd s) @ fst (snd r), snd (snd s) @ snd (snd r))"
      by (simp add: case_prod_beta)
    note inv = any_inv_run[OF Cons.prems(1) this]
    show ?thesis
      using Cons.prems(2) Inr by (intro Cons.IH[OF inv]) (simp add: case_prod_beta)
  qed
qed simp

lemma run_prefix:
  assumes "any_inv stream (n, evs, ps)" and "scan_all stream = Some (cur, fs)"
  shows "prefix (accepted evs) (filter crc_ok (map frame_of fs)) \<and>
    queued evs = ps @ q_items (hd_pkgs (nt_h n))"
proof -
  obtain consumed rest cur' fs' where st: "stream = consumed @ rest @ ring_abs (hd_rb (nt_h n)) @ nt_sock n"
    and sc: "scan_all consumed = Some (cur', fs')"
    and acc: "accepted evs = filter crc_ok (map frame_of fs')"
    and q: "queued evs = ps @ q_items (hd_pkgs (nt_h n))"
    using assms(1) unfolding any_inv_def by auto
  obtain gs where "fs = fs' @ gs"
    using assms(2) sc scan_all_append[of consumed "rest @ ring_abs (hd_rb (nt_h n)) @ nt_sock n"]
    unfolding st by auto
  then show ?thesis using acc q by simp
qed

text \<open>
  C1. However the network cuts a stream of well-formed frames, each of less than \<open>2 ^ 31 + 2\<close> bytes, into
  reads and however the rounds of the two threads interleave, no round faults, and the packets accepted so
  far are the first ones of the stream, in its order, with the bytes between the frames skipped; the packets
  processed so far, followed by those still in the queue, are the ones that were queued. The receive buffer
  has any size an \<open>int\<close> counts. The checksum of a longer frame would be written at a negative index.
\<close>

theorem stream_in_order:
  assumes "buff \<noteq> []" "length buff < 2 ^ 31" and segs: "segments_ok segs"
  shows "case net_run es (net_init buff (stream_of segs)) of
      Inl x \<Rightarrow> x = Closed
    | Inr (n, evs, ps) \<Rightarrow> prefix (accepted evs) (map snd segs) \<and>
        queued evs = ps @ q_items (hd_pkgs (nt_h n))"
proof -
  note sc = scan_stream_of[OF segs]
  have ok: "scan_all (stream_of segs) \<noteq> None" using sc by simp
  have inv: "any_inv (stream_of segs) (net_init buff (stream_of segs))"
    using assms(1,2) by (intro any_inv_init) simp_all
  show ?thesis
  proof (cases "net_run es (net_init buff (stream_of segs))")
    case (Inl x)
    then show ?thesis using no_fault_run[OF inv ok] by simp
  next
    case (Inr t)
    obtain n evs ps where t: "t = (n, evs, ps)" by (cases t) auto
    have "any_inv (stream_of segs) (n, evs, ps)"
      using any_inv_run[OF inv Inr] unfolding t .
    from run_prefix[OF this sc] show ?thesis
      unfolding Inr t sum.case prod.case frames_of_segments[OF segs] .
  qed
qed

text \<open>A stream of two frames with bytes between them, received in one read and cut by 40 rounds.\<close>

definition demo_pkg :: "nat \<Rightarrow> Pkg" where
  "demo_pkg i = fst (snd (Pack (PkgWithoutCRC CmdHeartBeat [0x7b, 0x7d] (word_of_nat i) 7) 17))"

definition demo_segs :: "(bytes \<times> Pkg) list" where
  "demo_segs = [([1, 2], demo_pkg 1), ([], demo_pkg 2)]"

lemma demo_pkg_ok: "frame_ok (demo_pkg i)"
proof -
  have wf: "pkg_wf (PkgWithoutCRC CmdHeartBeat [0x7b, 0x7d] (word_of_nat i) 7)"
    by (rule PkgWithoutCRC_wf) simp
  have le: "h_len (p_head (PkgWithoutCRC CmdHeartBeat [0x7b, 0x7d] (word_of_nat i) 7)) \<le> 17"
    by (simp add: PkgWithoutCRC_def sizeof_defs)
  obtain pkg' where "demo_pkg i = pkg'" "crc_ok pkg'" "pkg_wf pkg'"
      "p_head pkg' = p_head (PkgWithoutCRC CmdHeartBeat [0x7b, 0x7d] (word_of_nat i) 7)"
    using Pack_wf[OF wf le] by (auto simp: demo_pkg_def)
  then show ?thesis by (simp add: frame_ok_def PkgWithoutCRC_def sizeof_defs)
qed

lemma demo_segs_ok: "segments_ok demo_segs"
  by (simp add: segments_ok_def demo_segs_def demo_pkg_ok)

definition demo_buff :: bytes where
  "demo_buff = replicate 64 0"

lemma demo_stream_length: "length (stream_of demo_segs) = 36"
  by (simp add: stream_of_def demo_segs_def length_frame_bytes demo_pkg_def Pack_def PkgWithoutCRC_def
      sizeof_defs Let_def)

lemma one_read:
  assumes "length buff < 2 ^ 20" "stream \<noteq> []" "length stream < length buff"
  obtains n where "net_run [Readable (length stream)] (net_init buff stream) = Inr (n, [], [])"
    "nt_sock n = []" "length (ring_abs (hd_rb (nt_h n))) = length stream"
proof -
  let ?h = "handler_new buff"
  have len: "recv_len ?h = length buff"
    using assms(1) by (simp add: recv_len_def handler_new_def ring_new_def ring_GetWriteLen_def)
  have "buff \<noteq> []" using assms(3) by auto
  then have "ring_wf (hd_rb ?h)" by (simp add: handler_new_def ring_wf_new)
  moreover have "ring_abs (hd_rb ?h) = []" by (simp add: handler_new_def)
  ultimately have "\<exists>n. net_run [Readable (length stream)] (net_init buff stream) = Inr (n, [], []) \<and>
      nt_sock n = [] \<and> length (ring_abs (hd_rb (nt_h n))) = length stream"
    using rb_write_abs[of ?h stream] len assms
    by (simp add: net_init_def onReadable_def sock_recv_def min_def del: length_ring_abs)
  then show ?thesis using that by blast
qed

section \<open>Liveness\<close>

lemma net_run_append:
  "net_run (es @ fs) s = (case net_run es s of Inl x \<Rightarrow> Inl x | Inr t \<Rightarrow> net_run fs t)"
  by (induction es arbitrary: s) (auto split: sum.split prod.split)

lemma ticks_wait:
  assumes "any_inv stream (n, evs, ps)" "scan_all stream \<noteq> None"
  shows "\<exists>n' evs'. net_run (replicate k Tick) (n, evs, ps) = Inr (n', evs', ps) \<and>
    nt_sock n' = nt_sock n \<and>
    (sm_waiting (nt_h n) \<or> sm_measure (nt_h n) \<le> k \<longrightarrow> sm_waiting (nt_h n'))"
  using assms(1)
proof (induction k arbitrary: n evs)
  case 0
  then show ?case by (auto simp: sm_measure_def sm_waiting_def ring_abs_Nil)
next
  case (Suc k)
  have "net_step Tick n \<noteq> Inl x" for x
    using no_fault_step[OF Suc.prems assms(2), of Tick x] by (auto split: sum.splits)
  then obtain n' l where step: "net_step Tick n = Inr (n', l)"
    by (cases "net_step Tick n") auto
  then obtain h' ev where sm: "sm_step (nt_h n) = Inr (h', ev)" and n': "n' = n\<lparr>nt_h := h'\<rparr>" "l = ([ev], [])"
    by (auto split: sum.splits)
  have inv': "any_inv stream (n', evs @ [ev], ps)"
    using any_inv_tick[OF Suc.prems step] n' by simp
  have wf: "ring_wf (hd_rb (nt_h n))" "length (ring_abs (hd_rb (nt_h n))) < 2 ^ 64"
    using Suc.prems by (auto simp: any_inv_def sm_rel_def doomed_def ring_wf_def)
  have "sm_waiting (nt_h n') \<or> sm_measure (nt_h n') \<le> k"
    if "sm_waiting (nt_h n) \<or> sm_measure (nt_h n) \<le> Suc k"
  proof (cases "sm_waiting (nt_h n)")
    case True
    then show ?thesis using sm_step_waiting[of "nt_h n"] sm n' by simp
  next
    case False
    then show ?thesis
      using sm_step_progress[OF wf(1) False sm wf(2)] that n' by simp
  qed
  then show ?case
    using Suc.IH[OF inv'] step n' by (auto simp: case_prod_beta)
qed

lemma waiting_done:
  assumes "any_inv stream (n, evs, ps)" "scan_all stream = Some ([], fs)" "nt_sock n = []"
    "sm_waiting (nt_h n)"
  shows "accepted evs = filter crc_ok (map frame_of fs) \<and> ring_abs (hd_rb (nt_h n)) = []"
proof -
  let ?p = "ring_abs (hd_rb (nt_h n))"
  obtain consumed rest cur fs' where st: "stream = consumed @ rest @ ?p"
    and sc: "scan_all consumed = Some (cur, fs')"
    and rel: "rest = [] \<and> sm_rel (nt_h n) cur \<or> doomed (nt_h n) \<and> scan_all (consumed @ rest) = None"
    and acc: "accepted evs = filter crc_ok (map frame_of fs')"
    using assms(1,3) unfolding any_inv_def by auto
  have "scan_all (consumed @ rest) \<noteq> None"
    using assms(2) scan_all_append[of "consumed @ rest" ?p] st by (auto split: option.splits)
  then have r: "rest = []" "sm_rel (nt_h n) cur" using rel by auto
  have g: "\<exists>gs. foldl scan_byte (Some (cur, [])) ?p = Some ([], gs) \<and> fs = fs' @ gs"
    using assms(2) scan_all_append[of consumed ?p] sc st r(1) by (auto simp: map_option_case split: option.splits)
  have "?p = []"
  proof (rule ccontr)
    assume ne: "?p \<noteq> []"
    then have "foldl scan_byte (Some (cur, [])) ?p = Some (cur @ ?p, [])"
      using assms(4) r(2) unfolding sm_waiting_def
      by (auto simp: sm_rel_def intro: scan_short scan_body)
    then show False using g ne by simp
  qed
  then show ?thesis using g acc by auto
qed

text \<open>
  While no more packets than the queue has places were accepted, none of them was dropped.
\<close>

definition no_loss :: "net \<times> net_log \<Rightarrow> bool" where
  "no_loss s \<longleftrightarrow>
     (case s of (n, evs, ps) \<Rightarrow> q_isSetMax (hd_pkgs (nt_h n)) \<and> q_max (hd_pkgs (nt_h n)) = 30 \<and>
       (length (accepted evs) \<le> 30 \<longrightarrow> queued evs = accepted evs))"

lemma no_loss_step:
  assumes inv: "any_inv stream (n, evs, ps)" and nl: "no_loss (n, evs, ps)" and step: "net_step e n = Inr (n', l)"
  shows "no_loss (n', evs @ fst l, ps @ snd l)"
proof (cases e)
  case (Readable k)
  then show ?thesis
    using step nl by (auto simp: no_loss_def onReadable_def rb_write_def sock_recv_def split: if_splits)
next
  case Process
  then show ?thesis
    using step nl by (auto simp: no_loss_def process_step_def queue_pop_def split: list.splits)
next
  case Tick
  let ?q = "hd_pkgs (nt_h n)"
  obtain h' ev where sm: "sm_step (nt_h n) = Inr (h', ev)" and n': "n' = n\<lparr>nt_h := h'\<rparr>" "l = ([ev], [])"
    using step Tick by (auto split: sum.splits)
  have q': "ev_pkgs ev = [] \<and> ev_queued ev = [] \<and> hd_pkgs h' = ?q \<or>
      (\<exists>p. (queue_full ?q \<and> ev = Push_fail p \<and> hd_pkgs h' = ?q) \<or>
        (ev = Push_ok p \<and> hd_pkgs h' = ?q\<lparr>q_items := q_items ?q @ [p]\<rparr>))"
    using sm
    by (auto simp: sm_step_def sm_start_def sm_getHead_def sm_getBody_def sm_getCRC_def sm_reset_def Let_def
        queue_push_def split: if_splits RecvStatus.splits option.splits sum.splits prod.splits)
  have m: "q_isSetMax ?q" "q_max ?q = 30" and ql: "length (accepted evs) \<le> 30 \<Longrightarrow> queued evs = accepted evs"
    using nl by (auto simp: no_loss_def)
  have full: "30 \<le> length (accepted evs)" if "queue_full ?q" "length (accepted evs) \<le> 30"
  proof -
    have "queued evs = ps @ q_items ?q" using inv by (auto simp: any_inv_def)
    then have "length (q_items ?q) \<le> length (accepted evs)" using ql[OF that(2)] by (metis length_append le_add2)
    then show ?thesis using that(1) m by (simp add: queue_full_def size_of_int_def)
  qed
  show ?thesis
    using q' m ql full n' by (auto simp: no_loss_def accepted_def queued_def)
qed

lemma no_loss_run:
  "any_inv stream s \<Longrightarrow> no_loss s \<Longrightarrow> net_run es s = Inr t \<Longrightarrow> no_loss t"
proof (induction es arbitrary: s)
  case (Cons e es)
  obtain n evs ps where s: "s = (n, evs, ps)" by (cases s) auto
  obtain n' l where step: "net_step e n = Inr (n', l)"
    and run: "net_run es (n', evs @ fst l, ps @ snd l) = Inr t"
    using Cons.prems(3) s by (auto split: sum.splits prod.splits)
  have "net_run [e] s = Inr (n', evs @ fst l, ps @ snd l)" using step s by (simp add: case_prod_beta)
  from any_inv_run[OF Cons.prems(1) this] show ?case
    using Cons.IH[OF _ no_loss_step[OF _ _ step] run] Cons.prems(1,2) s by simp
qed simp

lemma no_loss_init: "no_loss (net_init buff stream)"
  by (simp add: no_loss_def net_init_def handler_new_def queue_setMax_def queue_new_def)

lemma ticks_deliver:
  assumes "buff \<noteq> []" "length buff < 2 ^ 63" and segs: "segments_ok segs"
    and run: "net_run es (net_init buff (stream_of segs)) = Inr (n, evs, ps)"
    and "nt_sock n = []" and k: "2 * length (ring_abs (hd_rb (nt_h n))) + 1 \<le> k"
  obtains n' evs' where "net_run (es @ replicate k Tick) (net_init buff (stream_of segs)) = Inr (n', evs', ps)"
    "accepted evs' = map snd segs" "ring_abs (hd_rb (nt_h n')) = []"
    "length segs \<le> 30 \<Longrightarrow> ps @ q_items (hd_pkgs (nt_h n')) = map snd segs"
proof -
  note sc = scan_stream_of[OF segs]
  have ok: "scan_all (stream_of segs) \<noteq> None" using sc by simp
  note init = any_inv_init[OF assms(1,2)]
  have inv: "any_inv (stream_of segs) (n, evs, ps)" by (rule any_inv_run[OF init run])
  have "sm_measure (nt_h n) \<le> k" using k by (simp add: sm_measure_def)
  then obtain n' evs' where run': "net_run (replicate k Tick) (n, evs, ps) = Inr (n', evs', ps)"
    "nt_sock n' = []" "sm_waiting (nt_h n')"
    using ticks_wait[OF inv ok, of k] assms(5) by auto
  have inv': "any_inv (stream_of segs) (n', evs', ps)" by (rule any_inv_run[OF inv run'(1)])
  have acc: "accepted evs' = map snd segs \<and> ring_abs (hd_rb (nt_h n')) = []"
    using waiting_done[OF inv' sc run'(2,3)] frames_of_segments[OF segs] by simp
  have all: "net_run (es @ replicate k Tick) (net_init buff (stream_of segs)) = Inr (n', evs', ps)"
    using run run' by (simp add: net_run_append)
  have "no_loss (n', evs', ps)" by (rule no_loss_run[OF init no_loss_init all])
  moreover have "queued evs' = ps @ q_items (hd_pkgs (nt_h n'))" using inv' by (auto simp: any_inv_def)
  ultimately show ?thesis using acc all that by (auto simp: no_loss_def)
qed

lemma demo_buff_ok: "demo_buff \<noteq> []" "length demo_buff < 2 ^ 63" "length demo_buff < 2 ^ 20" "length demo_buff = 64"
    "length demo_buff < 2 ^ 31"
  by (simp_all add: demo_buff_def)

lemma one_read_delivered:
  assumes "length buff < 2 ^ 20" "segments_ok segs" "segs \<noteq> []" "length (stream_of segs) < length buff"
  obtains n evs where "net_run (Readable (length (stream_of segs)) # replicate (2 * length (stream_of segs) + 1) Tick)
      (net_init buff (stream_of segs)) = Inr (n, evs, [])" "accepted evs = map snd segs"
    "length segs \<le> 30 \<Longrightarrow> q_items (hd_pkgs (nt_h n)) = map snd segs"
proof -
  obtain junk pkg segs' where "segs = (junk, pkg) # segs'" using assms(3) by (cases segs) auto
  then have "length (stream_of segs) \<noteq> 0"
    unfolding stream_of_def by (simp add: length_frame_bytes del: length_0_conv)
  then have ne: "stream_of segs \<noteq> []" "buff \<noteq> []"
    using assms(4) by auto
  obtain n where run: "net_run [Readable (length (stream_of segs))] (net_init buff (stream_of segs)) = Inr (n, [], [])"
    "nt_sock n = []" "length (ring_abs (hd_rb (nt_h n))) = length (stream_of segs)"
    by (rule one_read[OF assms(1) ne(1) assms(4)])
  have big: "length buff < 2 ^ 63" using assms(1) by simp
  obtain n' evs where "net_run ([Readable (length (stream_of segs))] @ replicate (2 * length (stream_of segs) + 1) Tick)
      (net_init buff (stream_of segs)) = Inr (n', evs, [])" "accepted evs = map snd segs"
    "length segs \<le> 30 \<Longrightarrow> [] @ q_items (hd_pkgs (nt_h n')) = map snd segs"
    by (rule ticks_deliver[OF ne(2) big assms(2) run(1,2), of "2 * length (stream_of segs) + 1"])
      (simp_all only: run(3) order.refl)
  then show ?thesis using that by (simp del: net_run.simps)
qed

lemma demo_read:
  obtains n where "net_run [Readable 36] (net_init demo_buff (stream_of demo_segs)) = Inr (n, [], [])"
    "nt_sock n = []" "length (ring_abs (hd_rb (nt_h n))) = 36"
proof -
  have "stream_of demo_segs \<noteq> []" "length (stream_of demo_segs) < length demo_buff"
    using demo_stream_length demo_buff_ok(4) by auto
  from one_read[OF demo_buff_ok(3) this] show ?thesis using that unfolding demo_stream_length by blast
qed

lemma demo_delivered:
  obtains n evs where "net_run (Readable 36 # replicate 73 Tick) (net_init demo_buff (stream_of demo_segs)) = Inr (n, evs, [])"
    "accepted evs = map snd demo_segs"
proof -
  have "demo_segs \<noteq> []" "length (stream_of demo_segs) < length demo_buff"
    using demo_stream_length demo_buff_ok(4) by (simp_all add: demo_segs_def)
  from one_read_delivered[OF demo_buff_ok(3) demo_segs_ok this] show ?thesis
    using that unfolding demo_stream_length by auto
qed

text \<open>
  C3. Once a stream of well-formed frames, each of less than \<open>2 ^ 31 + 2\<close> bytes, has been received whole, a
  bounded number of rounds of the state machine, two per byte still buffered and one more, accepts every packet of the stream, in order,
  and leaves the receive buffer empty. If they are no more than the 30 the queue holds, each of them
  has been processed or is in the queue.
\<close>

theorem stream_delivered:
  assumes "buff \<noteq> []" "length buff < 2 ^ 31" and segs: "segments_ok segs"
    and run: "net_run es (net_init buff (stream_of segs)) = Inr (n, evs, ps)"
    and "nt_sock n = []" and k: "2 * length (ring_abs (hd_rb (nt_h n))) + 1 \<le> k"
  shows "\<exists>n' evs'. net_run (es @ replicate k Tick) (net_init buff (stream_of segs)) = Inr (n', evs', ps) \<and>
    accepted evs' = map snd segs \<and> ring_abs (hd_rb (nt_h n')) = [] \<and>
    (length segs \<le> 30 \<longrightarrow> ps @ q_items (hd_pkgs (nt_h n')) = map snd segs)"
proof -
  have "length buff < 2 ^ 63" using assms(2) by simp
  from ticks_deliver[OF assms(1) this assms(3-6)] show ?thesis by metis
qed

theorem stream_delivered_witness:
  "\<exists>n evs. net_run (Readable 36 # replicate 73 Tick) (net_init demo_buff (stream_of demo_segs)) =
     Inr (n, evs, []) \<and> accepted evs = [demo_pkg 1, demo_pkg 2] \<and> q_items (hd_pkgs (nt_h n)) = [demo_pkg 1, demo_pkg 2]"
proof -
  obtain n where run: "net_run [Readable 36] (net_init demo_buff (stream_of demo_segs)) = Inr (n, [], [])"
    "nt_sock n = []" "length (ring_abs (hd_rb (nt_h n))) = 36"
    by (rule demo_read)
  from stream_delivered[OF demo_buff_ok(1,5) demo_segs_ok run(1,2), of 73] run(3)
  show ?thesis by (auto simp: demo_segs_def)
qed

theorem stream_in_order_witness:
  "\<exists>n evs ps. net_run (Readable 36 # replicate 73 Tick) (net_init demo_buff (stream_of demo_segs)) = Inr (n, evs, ps) \<and>
     length (accepted evs) = 2 \<and> prefix (accepted evs) [demo_pkg 1, demo_pkg 2] \<and> queued evs = ps @ q_items (hd_pkgs (nt_h n))"
proof -
  obtain n evs where run: "net_run (Readable 36 # replicate 73 Tick) (net_init demo_buff (stream_of demo_segs)) = Inr (n, evs, [])"
    and acc: "accepted evs = map snd demo_segs"
    by (rule demo_delivered)
  from stream_in_order[OF demo_buff_ok(1,5) demo_segs_ok, of "Readable 36 # replicate 73 Tick"] run acc
  show ?thesis by (auto simp: demo_segs_def)
qed

theorem accepted_only_valid_witness:
  "\<exists>segs rest. stream_of demo_segs = cut_into segs @ rest \<and> frames_wf segs \<and>
    [demo_pkg 1, demo_pkg 2] = filter crc_ok (map snd segs)"
proof -
  obtain n evs where run: "net_run (Readable 36 # replicate 73 Tick) (net_init demo_buff (stream_of demo_segs)) = Inr (n, evs, [])"
    and acc: "accepted evs = map snd demo_segs"
    by (rule demo_delivered)
  from accepted_only_valid[OF demo_buff_ok(1,2) run] acc show ?thesis by (simp add: demo_segs_def)
qed

end
