(* ===== verification/Messages.thy ===== *)
theory Messages
  imports Frame
begin

text \<open>
  The message classes of \<open>common/common.h\<close>: a record per class, in the order of the header, with
  what its constructor leaves in it and its \<open>PkgWithoutCRC\<close>. A member without an initialiser is
  indeterminate in a new object; here it is 0 or empty, and no property depends on it. The command
  of a class is set by its constructor and never changed, so it is not a field. \<open>json::encode\<close> and
  \<open>json::decode\<close> (the xpack library) are parameters: \<open>enc\<close> is the text of a message.
\<close>

section \<open>Message classes\<close>

record Reply =
  rp_state :: int
  rp_desc :: string
  rp_oprNum :: string

definition Reply_new :: Reply where
  "Reply_new = \<lparr>rp_state = 0, rp_desc = [], rp_oprNum = []\<rparr>"

definition Reply_PkgWithoutCRC :: "(Reply \<Rightarrow> bytes) \<Rightarrow> u16 \<Rightarrow> u32 \<Rightarrow> Reply \<Rightarrow> Pkg" where
  "Reply_PkgWithoutCRC enc sn deviceNO m = PkgWithoutCRC CmdResponse (enc m) sn deviceNO"

record Beats =
  bt_hardCode :: string
  bt_timestamp :: real

definition Beats_new :: Beats where
  "Beats_new = \<lparr>bt_hardCode = [], bt_timestamp = 0\<rparr>"

definition Beats_PkgWithoutCRC :: "(Beats \<Rightarrow> bytes) \<Rightarrow> u16 \<Rightarrow> u32 \<Rightarrow> Beats \<Rightarrow> Pkg" where
  "Beats_PkgWithoutCRC enc sn deviceNO m = PkgWithoutCRC CmdHeartBeat (enc m) sn deviceNO"

record Control =
  ct_oprNum :: string
  ct_timestamp :: real
  ct_isSendVideoInfo :: int
  ct_videoType :: int

definition Control_new :: Control where
  "Control_new = \<lparr>ct_oprNum = [], ct_timestamp = 0, ct_isSendVideoInfo = 0,
     ct_videoType = 0\<rparr>"

definition Control_PkgWithoutCRC :: "(Control \<Rightarrow> bytes) \<Rightarrow> u16 \<Rightarrow> u32 \<Rightarrow> Control \<Rightarrow> Pkg" where
  "Control_PkgWithoutCRC enc sn deviceNO m = PkgWithoutCRC CmdControl (enc m) sn deviceNO"

record AnnuciatorInfo =
  ai_LightID :: int
  ai_Light :: string
  ai_RT :: int

definition AnnuciatorInfo_new :: AnnuciatorInfo where
  "AnnuciatorInfo_new = \<lparr>ai_LightID = 0, ai_Light = [], ai_RT = 0\<rparr>"

record ObjTarget =
  ot_objID :: string
  ot_objCameraID :: int
  ot_objRadarID :: int
  ot_objSourceType :: int
  ot_objType :: int
  ot_plates :: string
  ot_plateColor :: string
  ot_carType :: int
  ot_left :: int
  ot_top :: int
  ot_right :: int
  ot_bottom :: int
  ot_locationX :: real
  ot_locationY :: real
  ot_distance :: string
  ot_directionAngle :: real
  ot_speedX :: real
  ot_speedY :: real
  ot_longitude :: real
  ot_latitude :: real
  ot_laneCode :: string
  ot_carLength :: real
  ot_carFeaturePic :: string

definition ObjTarget_new :: ObjTarget where
  "ObjTarget_new = \<lparr>ot_objID = [], ot_objCameraID = 0, ot_objRadarID = 0,
     ot_objSourceType = 0, ot_objType = 0, ot_plates = [], ot_plateColor = [], ot_carType = 0,
     ot_left = 0, ot_top = 0, ot_right = 0, ot_bottom = 0, ot_locationX = 0, ot_locationY = 0,
     ot_distance = [], ot_directionAngle = 0, ot_speedX = 0, ot_speedY = 0, ot_longitude = 0,
     ot_latitude = 0, ot_laneCode = [], ot_carLength = 0, ot_carFeaturePic = []\<rparr>"

record WatchData =
  wd_oprNum :: string
  wd_hardCode :: string
  wd_timestamp :: real
  wd_matrixNo :: string
  wd_cameraIp :: string
  wd_RecordDateTime :: real
  wd_isHasImage :: int
  wd_imageData :: string
  wd_direction :: int
  wd_roadDirection :: int
  wd_listAnnuciatorInfo :: "AnnuciatorInfo list"
  wd_lstObjTarget :: "ObjTarget list"

definition WatchData_new :: WatchData where
  "WatchData_new = \<lparr>wd_oprNum = [], wd_hardCode = [], wd_timestamp = 0,
     wd_matrixNo = [], wd_cameraIp = [], wd_RecordDateTime = 0, wd_isHasImage = 0,
     wd_imageData = [], wd_direction = - 1, wd_roadDirection = - 1, wd_listAnnuciatorInfo = [],
     wd_lstObjTarget = []\<rparr>"

definition WatchData_PkgWithoutCRC :: "(WatchData \<Rightarrow> bytes) \<Rightarrow> u16 \<Rightarrow> u32 \<Rightarrow> WatchData \<Rightarrow> Pkg" where
  "WatchData_PkgWithoutCRC enc sn deviceNO m = PkgWithoutCRC CmdFusionData (enc m) sn deviceNO"

record OneRvWayObject =
  rv_wayNo :: int
  rv_roID :: int
  rv_voID :: int

definition OneRvWayObject_new :: OneRvWayObject where
  "OneRvWayObject_new = \<lparr>rv_wayNo = 0, rv_roID = 0, rv_voID = 0\<rparr>"

record VideoTargets =
  vt_cameraObjID :: int
  vt_left :: int
  vt_top :: int
  vt_right :: int
  vt_bottom :: int

definition VideoTargets_new :: VideoTargets where
  "VideoTargets_new = \<lparr>vt_cameraObjID = 0, vt_left = 0, vt_top = 0, vt_right = 0,
     vt_bottom = 0\<rparr>"

record VideoData =
  vd_rvHardCode :: string
  vd_lstVideoTargets :: "VideoTargets list"
  vd_imageData :: string
  vd_direction :: int

definition VideoData_new :: VideoData where
  "VideoData_new = \<lparr>vd_rvHardCode = [], vd_lstVideoTargets = [], vd_imageData = [],
     vd_direction = 0\<rparr>"

record ObjMix =
  om_objID :: string
  om_rvWayObject :: "OneRvWayObject list"
  om_objType :: int
  om_objColor :: string
  om_carType :: int
  om_plates :: string
  om_plateColor :: string
  om_distance :: real
  om_angle :: real
  om_speed :: real
  om_locationX :: real
  om_locationY :: real
  om_longitude :: real
  om_latitude :: real
  om_laneCode :: string
  om_carLength :: real
  om_carFeaturePic :: string
  om_flagNew :: int

definition ObjMix_new :: ObjMix where
  "ObjMix_new = \<lparr>om_objID = [], om_rvWayObject = [], om_objType = 0, om_objColor = [],
     om_carType = 0, om_plates = [], om_plateColor = [], om_distance = 0, om_angle = 0,
     om_speed = 0, om_locationX = 0, om_locationY = 0, om_longitude = 0, om_latitude = 0,
     om_laneCode = [], om_carLength = 0, om_carFeaturePic = [], om_flagNew = 0\<rparr>"

record FusionData =
  fd_oprNum :: string
  fd_timestamp :: real
  fd_crossID :: string
  fd_isHasImage :: int
  fd_lstObjTarget :: "ObjMix list"
  fd_lstVideos :: "VideoData list"

definition FusionData_new :: FusionData where
  "FusionData_new = \<lparr>fd_oprNum = [], fd_timestamp = 0, fd_crossID = [],
     fd_isHasImage = 0, fd_lstObjTarget = [], fd_lstVideos = []\<rparr>"

definition FusionData_PkgWithoutCRC :: "(FusionData \<Rightarrow> bytes) \<Rightarrow> u16 \<Rightarrow> u32 \<Rightarrow> FusionData \<Rightarrow> Pkg" where
  "FusionData_PkgWithoutCRC enc sn deviceNO m = PkgWithoutCRC CmdFusionData (enc m) sn deviceNO"

record OneFlowData =
  ofd_laneCode :: string
  ofd_laneDirection :: int
  ofd_flowDirection :: int
  ofd_inCars :: int
  ofd_inAverageSpeed :: real
  ofd_outCars :: int
  ofd_outAverageSpeed :: real
  ofd_queueLen :: int
  ofd_queueCars :: int

definition OneFlowData_new :: OneFlowData where
  "OneFlowData_new = \<lparr>ofd_laneCode = [], ofd_laneDirection = 0, ofd_flowDirection = 0,
     ofd_inCars = 0, ofd_inAverageSpeed = 0, ofd_outCars = 0, ofd_outAverageSpeed = 0,
     ofd_queueLen = 0, ofd_queueCars = 0\<rparr>"

record TrafficFlow =
  tf_oprNum :: string
  tf_crossID :: string
  tf_hardCode :: string
  tf_timestamp :: real
  tf_flowData :: "OneFlowData list"

definition TrafficFlow_new :: TrafficFlow where
  "TrafficFlow_new = \<lparr>tf_oprNum = [], tf_crossID = [], tf_hardCode = [],
     tf_timestamp = 0, tf_flowData = []\<rparr>"

definition TrafficFlow_PkgWithoutCRC :: "(TrafficFlow \<Rightarrow> bytes) \<Rightarrow> u16 \<Rightarrow> u32 \<Rightarrow> TrafficFlow \<Rightarrow> Pkg" where
  "TrafficFlow_PkgWithoutCRC enc sn deviceNO m = PkgWithoutCRC CmdTrafficFlowGather (enc m) sn deviceNO"

record TrafficFlowGather =
  tg_oprNum :: string
  tg_crossID :: string
  tg_timestamp :: real
  tg_recordDateTime :: string
  tg_trafficFlow :: "OneFlowData list"

definition TrafficFlowGather_new :: TrafficFlowGather where
  "TrafficFlowGather_new = \<lparr>tg_oprNum = [], tg_crossID = [], tg_timestamp = 0,
     tg_recordDateTime = [], tg_trafficFlow = []\<rparr>"

definition TrafficFlowGather_PkgWithoutCRC :: "(TrafficFlowGather \<Rightarrow> bytes) \<Rightarrow> u16 \<Rightarrow> u32 \<Rightarrow> TrafficFlowGather \<Rightarrow> Pkg" where
  "TrafficFlowGather_PkgWithoutCRC enc sn deviceNO m = PkgWithoutCRC CmdTrafficFlowGather (enc m) sn deviceNO"

record CrossTrafficJamAlarm =
  cj_oprNum :: string
  cj_timestamp :: real
  cj_crossID :: string
  cj_hardCode :: string
  cj_alarmType :: int
  cj_alarmStatus :: int
  cj_alarmTime :: string
  cj_imageData :: string

definition CrossTrafficJamAlarm_new :: CrossTrafficJamAlarm where
  "CrossTrafficJamAlarm_new = \<lparr>cj_oprNum = [], cj_timestamp = 0, cj_crossID = [],
     cj_hardCode = [], cj_alarmType = 0, cj_alarmStatus = 0, cj_alarmTime = [],
     cj_imageData = []\<rparr>"

definition CrossTrafficJamAlarm_PkgWithoutCRC :: "(CrossTrafficJamAlarm \<Rightarrow> bytes) \<Rightarrow> u16 \<Rightarrow> u32 \<Rightarrow> CrossTrafficJamAlarm \<Rightarrow> Pkg" where
  "CrossTrafficJamAlarm_PkgWithoutCRC enc sn deviceNO m = PkgWithoutCRC CmdCrossTrafficJamAlarm (enc m) sn deviceNO"

record IntersectionOverflowAlarm =
  io_oprNum :: string
  io_timestamp :: real
  io_crossID :: string
  io_hardCode :: string
  io_roadDirection :: int
  io_alarmType :: int
  io_alarmStatus :: int
  io_alarmTime :: string
  io_imageData :: string

definition IntersectionOverflowAlarm_new :: IntersectionOverflowAlarm where
  "IntersectionOverflowAlarm_new = \<lparr>io_oprNum = [], io_timestamp = 0, io_crossID = [],
     io_hardCode = [], io_roadDirection = 0, io_alarmType = 0, io_alarmStatus = 0,
     io_alarmTime = [], io_imageData = []\<rparr>"

definition IntersectionOverflowAlarm_PkgWithoutCRC :: "(IntersectionOverflowAlarm \<Rightarrow> bytes) \<Rightarrow> u16 \<Rightarrow> u32 \<Rightarrow> IntersectionOverflowAlarm \<Rightarrow> Pkg" where
  "IntersectionOverflowAlarm_PkgWithoutCRC enc sn deviceNO m = PkgWithoutCRC CmdIntersectionOverflowAlarm (enc m) sn deviceNO"

record InWatchData_1_3_4 =
  iw_oprNum :: string
  iw_timestamp :: real
  iw_crossID :: string
  iw_hardCode :: string
  iw_laneCode :: string
  iw_laneDirection :: int
  iw_flowDirection :: int
  iw_detectLocation :: int
  iw_vehicleID :: int
  iw_vehicleType :: int
  iw_vehicleLen :: int
  iw_vehicleSpeed :: int

definition InWatchData_1_3_4_new :: InWatchData_1_3_4 where
  "InWatchData_1_3_4_new = \<lparr>iw_oprNum = [], iw_timestamp = 0, iw_crossID = [],
     iw_hardCode = [], iw_laneCode = [], iw_laneDirection = 0, iw_flowDirection = 0,
     iw_detectLocation = 0, iw_vehicleID = 0, iw_vehicleType = 0, iw_vehicleLen = 0,
     iw_vehicleSpeed = 0\<rparr>"

definition InWatchData_1_3_4_PkgWithoutCRC :: "(InWatchData_1_3_4 \<Rightarrow> bytes) \<Rightarrow> u16 \<Rightarrow> u32 \<Rightarrow> InWatchData_1_3_4 \<Rightarrow> Pkg" where
  "InWatchData_1_3_4_PkgWithoutCRC enc sn deviceNO m = PkgWithoutCRC CmdInWatchData_1_3_4 (enc m) sn deviceNO"

record InWatchData_2_trafficFlowListItem_vehicleIDListItem =
  iwv_vehicleID :: int
  iwv_vehicleType :: int
  iwv_vehicleLen :: int
  iwv_vehicleSpeed :: int

definition InWatchData_2_trafficFlowListItem_vehicleIDListItem_new :: InWatchData_2_trafficFlowListItem_vehicleIDListItem where
  "InWatchData_2_trafficFlowListItem_vehicleIDListItem_new = \<lparr>iwv_vehicleID = 0,
     iwv_vehicleType = 0, iwv_vehicleLen = 0, iwv_vehicleSpeed = 0\<rparr>"

record InWatchData_2_trafficFlowListItem =
  iwl_laneCode :: string
  iwl_laneDirection :: int
  iwl_flowDirection :: int
  iwl_vehicleIDList :: "InWatchData_2_trafficFlowListItem_vehicleIDListItem list"

definition InWatchData_2_trafficFlowListItem_new :: InWatchData_2_trafficFlowListItem where
  "InWatchData_2_trafficFlowListItem_new = \<lparr>iwl_laneCode = [], iwl_laneDirection = 0,
     iwl_flowDirection = 0, iwl_vehicleIDList = []\<rparr>"

record InWatchData_2 =
  iw2_oprNum :: string
  iw2_timestamp :: real
  iw2_crossID :: string
  iw2_hardCode :: string
  iw2_recordLaneSum :: int
  iw2_trafficFlowList :: "InWatchData_2_trafficFlowListItem list"

definition InWatchData_2_new :: InWatchData_2 where
  "InWatchData_2_new = \<lparr>iw2_oprNum = [], iw2_timestamp = 0, iw2_crossID = [],
     iw2_hardCode = [], iw2_recordLaneSum = 0, iw2_trafficFlowList = []\<rparr>"

definition InWatchData_2_PkgWithoutCRC :: "(InWatchData_2 \<Rightarrow> bytes) \<Rightarrow> u16 \<Rightarrow> u32 \<Rightarrow> InWatchData_2 \<Rightarrow> Pkg" where
  "InWatchData_2_PkgWithoutCRC enc sn deviceNO m = PkgWithoutCRC CmdInWatchData_2 (enc m) sn deviceNO"

record StopLinePassData_vehicleListItem =
  spv_laneCode :: string
  spv_laneDirection :: int
  spv_flowDirection :: int
  spv_vehiclePlate :: string
  spv_vehiclePlateColor :: string
  spv_vehicleID :: int
  spv_vehicleType :: int
  spv_vehicleSpeed :: int

definition StopLinePassData_vehicleListItem_new :: StopLinePassData_vehicleListItem where
  "StopLinePassData_vehicleListItem_new = \<lparr>spv_laneCode = [], spv_laneDirection = 0,
     spv_flowDirection = 0, spv_vehiclePlate = [], spv_vehiclePlateColor = [],
     spv_vehicleID = 0, spv_vehicleType = 0, spv_vehicleSpeed = 0\<rparr>"

record StopLinePassData =
  sp_oprNum :: string
  sp_timestamp :: real
  sp_crossID :: string
  sp_hardCode :: string
  sp_vehicleList :: "StopLinePassData_vehicleListItem list"

definition StopLinePassData_new :: StopLinePassData where
  "StopLinePassData_new = \<lparr>sp_oprNum = [], sp_timestamp = 0, sp_crossID = [],
     sp_hardCode = [], sp_vehicleList = []\<rparr>"

definition StopLinePassData_PkgWithoutCRC :: "(StopLinePassData \<Rightarrow> bytes) \<Rightarrow> u16 \<Rightarrow> u32 \<Rightarrow> StopLinePassData \<Rightarrow> Pkg" where
  "StopLinePassData_PkgWithoutCRC enc sn deviceNO m = PkgWithoutCRC CmdStopLinePassData (enc m) sn deviceNO"

record AbnormalStopData =
  asd_oprNum :: string
  asd_timestamp :: real
  asd_crossID :: string
  asd_hardCode :: string
  asd_laneCode :: string
  asd_alarmType :: int
  asd_alarmStatus :: int
  asd_alarmTime :: string
  asd_imageData :: string

definition AbnormalStopData_new :: AbnormalStopData where
  "AbnormalStopData_new = \<lparr>asd_oprNum = [], asd_timestamp = 0, asd_crossID = [],
     asd_hardCode = [], asd_laneCode = [], asd_alarmType = 0, asd_alarmStatus = 0,
     asd_alarmTime = [], asd_imageData = []\<rparr>"

definition AbnormalStopData_PkgWithoutCRC :: "(AbnormalStopData \<Rightarrow> bytes) \<Rightarrow> u16 \<Rightarrow> u32 \<Rightarrow> AbnormalStopData \<Rightarrow> Pkg" where
  "AbnormalStopData_PkgWithoutCRC enc sn deviceNO m = PkgWithoutCRC CmdAbnormalStopData (enc m) sn deviceNO"

record LongDistanceOnSolidLineAlarm =
  lda_oprNum :: string
  lda_timestamp :: real
  lda_crossID :: string
  lda_hardCode :: string
  lda_laneCode :: string
  lda_longitude :: real
  lda_latitude :: real
  lda_alarmType :: int
  lda_alarmStatus :: int
  lda_alarmTime :: string

definition LongDistanceOnSolidLineAlarm_new :: LongDistanceOnSolidLineAlarm where
  "LongDistanceOnSolidLineAlarm_new = \<lparr>lda_oprNum = [], lda_timestamp = 0,
     lda_crossID = [], lda_hardCode = [], lda_laneCode = [], lda_longitude = 0,
     lda_latitude = 0, lda_alarmType = 0, lda_alarmStatus = 0, lda_alarmTime = []\<rparr>"

definition LongDistanceOnSolidLineAlarm_PkgWithoutCRC :: "(LongDistanceOnSolidLineAlarm \<Rightarrow> bytes) \<Rightarrow> u16 \<Rightarrow> u32 \<Rightarrow> LongDistanceOnSolidLineAlarm \<Rightarrow> Pkg" where
  "LongDistanceOnSolidLineAlarm_PkgWithoutCRC enc sn deviceNO m = PkgWithoutCRC CmdLongDistanceOnSolidLineAlarm (enc m) sn deviceNO"

record HumanData_areaListItem_pointListItem =
  hdp_x :: int
  hdp_y :: int

definition HumanData_areaListItem_pointListItem_new :: HumanData_areaListItem_pointListItem where
  "HumanData_areaListItem_pointListItem_new = \<lparr>hdp_x = 0, hdp_y = 0\<rparr>"

record HumanData_areaListItem =
  hda_pointList :: "HumanData_areaListItem_pointListItem list"
  hda_deviceCode :: string
  hda_waitingAreaLocation :: string
  hda_zebraCrossingCode :: string
  hda_detectDirection :: int
  hda_direction :: int
  hda_humanNum :: int
  hda_humanType :: int
  hda_bicycleNum :: int

definition HumanData_areaListItem_new :: HumanData_areaListItem where
  "HumanData_areaListItem_new = \<lparr>hda_pointList = [], hda_deviceCode = [],
     hda_waitingAreaLocation = [], hda_zebraCrossingCode = [], hda_detectDirection = 0,
     hda_direction = 0, hda_humanNum = 0, hda_humanType = 0, hda_bicycleNum = 0\<rparr>"

record HumanData =
  hud_oprNum :: string
  hud_timestamp :: real
  hud_crossID :: string
  hud_hardCode :: string
  hud_location :: int
  hud_direction :: int
  hud_areaList :: "HumanData_areaListItem list"

definition HumanData_new :: HumanData where
  "HumanData_new = \<lparr>hud_oprNum = [], hud_timestamp = 0, hud_crossID = [],
     hud_hardCode = [], hud_location = 0, hud_direction = 0, hud_areaList = []\<rparr>"

definition HumanData_PkgWithoutCRC :: "(HumanData \<Rightarrow> bytes) \<Rightarrow> u16 \<Rightarrow> u32 \<Rightarrow> HumanData \<Rightarrow> Pkg" where
  "HumanData_PkgWithoutCRC enc sn deviceNO m = PkgWithoutCRC CmdHumanData (enc m) sn deviceNO"

record HumanDataGather_deviceListItem =
  hgd_deviceCode :: string
  hgd_deviceLocation :: string
  hgd_waitingAreaLocation :: string
  hgd_zebraCrossingCode :: string
  hgd_detectDirection :: int
  hgd_direction :: int
  hgd_humanNum :: int
  hgd_humanType :: int
  hgd_bicycleNum :: int

definition HumanDataGather_deviceListItem_new :: HumanDataGather_deviceListItem where
  "HumanDataGather_deviceListItem_new = \<lparr>hgd_deviceCode = [], hgd_deviceLocation = [],
     hgd_waitingAreaLocation = [], hgd_zebraCrossingCode = [], hgd_detectDirection = 0,
     hgd_direction = 0, hgd_humanNum = 0, hgd_humanType = 0, hgd_bicycleNum = 0\<rparr>"

record HumanDataGather =
  hdg_oprNum :: string
  hdg_timestamp :: real
  hdg_crossID :: string
  hdg_hardCode :: string
  hdg_deviceList :: "HumanDataGather_deviceListItem list"

definition HumanDataGather_new :: HumanDataGather where
  "HumanDataGather_new = \<lparr>hdg_oprNum = [], hdg_timestamp = 0, hdg_crossID = [],
     hdg_hardCode = [], hdg_deviceList = []\<rparr>"

definition HumanDataGather_PkgWithoutCRC :: "(HumanDataGather \<Rightarrow> bytes) \<Rightarrow> u16 \<Rightarrow> u32 \<Rightarrow> HumanDataGather \<Rightarrow> Pkg" where
  "HumanDataGather_PkgWithoutCRC enc sn deviceNO m = PkgWithoutCRC CmdHumanData (enc m) sn deviceNO"

record HumanLitPoleData_deviceListItem =
  hld_deviceCode :: string
  hld_deviceLocation :: int
  hld_waitingAreaLocation :: string
  hld_zebraCrossingCode :: string
  hld_detectDirection :: int
  hld_direction :: int
  hld_humanNum :: int
  hld_humanFlow :: int
  hld_humanWaitList :: "int list"
  hld_waitingTime :: int
  hld_lightStatus :: int
  hld_imageData :: string

definition HumanLitPoleData_deviceListItem_new :: HumanLitPoleData_deviceListItem where
  "HumanLitPoleData_deviceListItem_new = \<lparr>hld_deviceCode = [], hld_deviceLocation = 0,
     hld_waitingAreaLocation = [], hld_zebraCrossingCode = [], hld_detectDirection = 0,
     hld_direction = 0, hld_humanNum = 0, hld_humanFlow = 0, hld_humanWaitList = [],
     hld_waitingTime = 0, hld_lightStatus = 0, hld_imageData = []\<rparr>"

record HumanLitPoleData =
  hlp_oprNum :: string
  hlp_timestamp :: real
  hlp_crossID :: string
  hlp_hardCode :: string
  hlp_deviceList :: "HumanLitPoleData_deviceListItem list"

definition HumanLitPoleData_new :: HumanLitPoleData where
  "HumanLitPoleData_new = \<lparr>hlp_oprNum = [], hlp_timestamp = 0, hlp_crossID = [],
     hlp_hardCode = [], hlp_deviceList = []\<rparr>"

definition HumanLitPoleData_PkgWithoutCRC :: "(HumanLitPoleData \<Rightarrow> bytes) \<Rightarrow> u16 \<Rightarrow> u32 \<Rightarrow> HumanLitPoleData \<Rightarrow> Pkg" where
  "HumanLitPoleData_PkgWithoutCRC enc sn deviceNO m = PkgWithoutCRC CmdHumanLitPoleData (enc m) sn deviceNO"

record TrafficData =
  trd_oprNum :: string
  trd_timestamp :: real
  trd_crossID :: string
  trd_hardCode :: string
  trd_direction :: int
  trd_personCount :: int
  trd_vehicleCount :: int
  trd_time :: string

definition TrafficData_new :: TrafficData where
  "TrafficData_new = \<lparr>trd_oprNum = [], trd_timestamp = 0, trd_crossID = [],
     trd_hardCode = [], trd_direction = 0, trd_personCount = 0, trd_vehicleCount = 0,
     trd_time = []\<rparr>"

definition TrafficData_PkgWithoutCRC :: "(TrafficData \<Rightarrow> bytes) \<Rightarrow> u16 \<Rightarrow> u32 \<Rightarrow> TrafficData \<Rightarrow> Pkg" where
  "TrafficData_PkgWithoutCRC enc sn deviceNO m = PkgWithoutCRC (CmdRaw 0xf1) (enc m) sn deviceNO"

record AlarmBroken =
  alb_oprNum :: string
  alb_timestamp :: real
  alb_crossID :: string
  alb_hardCode :: string
  alb_alarmType :: int
  alb_alarmValue :: int
  alb_deviceType :: int
  alb_time :: string

definition AlarmBroken_new :: AlarmBroken where
  "AlarmBroken_new = \<lparr>alb_oprNum = [], alb_timestamp = 0, alb_crossID = [],
     alb_hardCode = [], alb_alarmType = 0, alb_alarmValue = 0, alb_deviceType = 0,
     alb_time = []\<rparr>"

definition AlarmBroken_PkgWithoutCRC :: "(AlarmBroken \<Rightarrow> bytes) \<Rightarrow> u16 \<Rightarrow> u32 \<Rightarrow> AlarmBroken \<Rightarrow> Pkg" where
  "AlarmBroken_PkgWithoutCRC enc sn deviceNO m = PkgWithoutCRC (CmdRaw 0xf2) (enc m) sn deviceNO"

record UrgentPriority =
  urp_oprNum :: string
  urp_timestamp :: real
  urp_crossID :: string
  urp_hardCode :: string
  urp_direction :: int
  urp_type :: int
  urp_time :: string

definition UrgentPriority_new :: UrgentPriority where
  "UrgentPriority_new = \<lparr>urp_oprNum = [], urp_timestamp = 0, urp_crossID = [],
     urp_hardCode = [], urp_direction = 0, urp_type = 0, urp_time = []\<rparr>"

definition UrgentPriority_PkgWithoutCRC :: "(UrgentPriority \<Rightarrow> bytes) \<Rightarrow> u16 \<Rightarrow> u32 \<Rightarrow> UrgentPriority \<Rightarrow> Pkg" where
  "UrgentPriority_PkgWithoutCRC enc sn deviceNO m = PkgWithoutCRC (CmdRaw 0xf3) (enc m) sn deviceNO"

record SignalControlList_item =
  sci_signalControlCode :: string
  sci_vehicleCount :: int

definition SignalControlList_item_new :: SignalControlList_item where
  "SignalControlList_item_new = \<lparr>sci_signalControlCode = [],
     sci_vehicleCount = 0\<rparr>"

record TrafficDetectorStatus =
  tds_oprNum :: string
  tds_timestamp :: real
  tds_crossID :: string
  tds_hardCode :: string
  tds_signalControlList :: "SignalControlList_item list"

definition TrafficDetectorStatus_new :: TrafficDetectorStatus where
  "TrafficDetectorStatus_new = \<lparr>tds_oprNum = [], tds_timestamp = 0, tds_crossID = [],
     tds_hardCode = [], tds_signalControlList = []\<rparr>"

definition TrafficDetectorStatus_PkgWithoutCRC :: "(TrafficDetectorStatus \<Rightarrow> bytes) \<Rightarrow> u16 \<Rightarrow> u32 \<Rightarrow> TrafficDetectorStatus \<Rightarrow> Pkg" where
  "TrafficDetectorStatus_PkgWithoutCRC enc sn deviceNO m = PkgWithoutCRC CmdTrafficDetectorStatus (enc m) sn deviceNO"

record CrossStageData =
  csd_oprNum :: string
  csd_timestamp :: real
  csd_crossID :: string
  csd_hardCode :: string
  csd_lastStage :: int
  csd_lastStageDuration :: int
  csd_lastControlMode :: int
  csd_curStage :: int
  csd_curStageDuration :: int
  csd_curControlMode :: int

definition CrossStageData_new :: CrossStageData where
  "CrossStageData_new = \<lparr>csd_oprNum = [], csd_timestamp = 0, csd_crossID = [],
     csd_hardCode = [], csd_lastStage = - 1, csd_lastStageDuration = - 1,
     csd_lastControlMode = - 1, csd_curStage = - 1, csd_curStageDuration = - 1,
     csd_curControlMode = - 1\<rparr>"

definition CrossStageData_PkgWithoutCRC :: "(CrossStageData \<Rightarrow> bytes) \<Rightarrow> u16 \<Rightarrow> u32 \<Rightarrow> CrossStageData \<Rightarrow> Pkg" where
  "CrossStageData_PkgWithoutCRC enc sn deviceNO m = PkgWithoutCRC CmdCrossStageData (enc m) sn deviceNO"

section \<open>Frames of messages\<close>

text \<open>A frame of command \<open>c\<close> that carries the text \<open>json\<close> and that a receiver takes apart.\<close>

definition frame_for :: "CmdType \<Rightarrow> bytes \<Rightarrow> Pkg \<Rightarrow> bool" where
  "frame_for c json pkg \<longleftrightarrow>
     (15 + length json < 2 ^ 32 \<longrightarrow> pkg_wf pkg) \<and> p_body pkg = json \<and>
     h_tag (p_head pkg) = 0x24 \<and> cmd_of (h_cmd (p_head pkg)) = c"

lemma cmd_of_PkgWithoutCRC: "cmd_of (h_cmd (p_head (PkgWithoutCRC c json sn dev))) = cmd_of (cmd_code c)"
  by (simp add: PkgWithoutCRC_def)

lemma frame_for_PkgWithoutCRC:
  "cmd_of (cmd_code c) = c \<Longrightarrow> frame_for c json (PkgWithoutCRC c json sn dev)"
  using PkgWithoutCRC_wf[of json c sn dev] by (simp add: frame_for_def PkgWithoutCRC_def)

lemma cmd_of_raw: "cmd_of (cmd_code (CmdRaw 0xf1)) = CmdRaw 0xf1"
  "cmd_of (cmd_code (CmdRaw 0xf2)) = CmdRaw 0xf2" "cmd_of (cmd_code (CmdRaw 0xf3)) = CmdRaw 0xf3"
  by (simp_all add: cmd_of_def cmd_named_def)

lemmas Pkg_defs =
  Reply_PkgWithoutCRC_def
  Beats_PkgWithoutCRC_def
  Control_PkgWithoutCRC_def
  WatchData_PkgWithoutCRC_def
  FusionData_PkgWithoutCRC_def
  TrafficFlow_PkgWithoutCRC_def
  TrafficFlowGather_PkgWithoutCRC_def
  CrossTrafficJamAlarm_PkgWithoutCRC_def
  IntersectionOverflowAlarm_PkgWithoutCRC_def
  InWatchData_1_3_4_PkgWithoutCRC_def
  InWatchData_2_PkgWithoutCRC_def
  StopLinePassData_PkgWithoutCRC_def
  AbnormalStopData_PkgWithoutCRC_def
  LongDistanceOnSolidLineAlarm_PkgWithoutCRC_def
  HumanData_PkgWithoutCRC_def
  HumanDataGather_PkgWithoutCRC_def
  HumanLitPoleData_PkgWithoutCRC_def
  TrafficData_PkgWithoutCRC_def
  AlarmBroken_PkgWithoutCRC_def
  UrgentPriority_PkgWithoutCRC_def
  TrafficDetectorStatus_PkgWithoutCRC_def
  CrossStageData_PkgWithoutCRC_def

text \<open>
  For every message class, \<open>PkgWithoutCRC\<close> gives a frame whose head carries the right length
  and the tag, whose body is the JSON text, and whose command byte a receiver reads back as the
  command of the class; the three test classes carry commands that the enumeration does not name.
\<close>
lemma message_frames:
  "frame_for CmdResponse (e0 m0) (Reply_PkgWithoutCRC e0 sn dev m0) \<and>
   frame_for CmdHeartBeat (e1 m1) (Beats_PkgWithoutCRC e1 sn dev m1) \<and>
   frame_for CmdControl (e2 m2) (Control_PkgWithoutCRC e2 sn dev m2) \<and>
   frame_for CmdFusionData (e3 m3) (WatchData_PkgWithoutCRC e3 sn dev m3) \<and>
   frame_for CmdFusionData (e4 m4) (FusionData_PkgWithoutCRC e4 sn dev m4) \<and>
   frame_for CmdTrafficFlowGather (e5 m5) (TrafficFlow_PkgWithoutCRC e5 sn dev m5) \<and>
   frame_for CmdTrafficFlowGather (e6 m6) (TrafficFlowGather_PkgWithoutCRC e6 sn dev m6) \<and>
   frame_for CmdCrossTrafficJamAlarm (e7 m7) (CrossTrafficJamAlarm_PkgWithoutCRC e7 sn dev m7) \<and>
   frame_for CmdIntersectionOverflowAlarm (e8 m8) (IntersectionOverflowAlarm_PkgWithoutCRC e8 sn dev m8) \<and>
   frame_for CmdInWatchData_1_3_4 (e9 m9) (InWatchData_1_3_4_PkgWithoutCRC e9 sn dev m9) \<and>
   frame_for CmdInWatchData_2 (e10 m10) (InWatchData_2_PkgWithoutCRC e10 sn dev m10) \<and>
   frame_for CmdStopLinePassData (e11 m11) (StopLinePassData_PkgWithoutCRC e11 sn dev m11) \<and>
   frame_for CmdAbnormalStopData (e12 m12) (AbnormalStopData_PkgWithoutCRC e12 sn dev m12) \<and>
   frame_for CmdLongDistanceOnSolidLineAlarm (e13 m13) (LongDistanceOnSolidLineAlarm_PkgWithoutCRC e13 sn dev m13) \<and>
   frame_for CmdHumanData (e14 m14) (HumanData_PkgWithoutCRC e14 sn dev m14) \<and>
   frame_for CmdHumanData (e15 m15) (HumanDataGather_PkgWithoutCRC e15 sn dev m15) \<and>
   frame_for CmdHumanLitPoleData (e16 m16) (HumanLitPoleData_PkgWithoutCRC e16 sn dev m16) \<and>
   frame_for (CmdRaw 0xf1) (e17 m17) (TrafficData_PkgWithoutCRC e17 sn dev m17) \<and>
   frame_for (CmdRaw 0xf2) (e18 m18) (AlarmBroken_PkgWithoutCRC e18 sn dev m18) \<and>
   frame_for (CmdRaw 0xf3) (e19 m19) (UrgentPriority_PkgWithoutCRC e19 sn dev m19) \<and>
   frame_for CmdTrafficDetectorStatus (e20 m20) (TrafficDetectorStatus_PkgWithoutCRC e20 sn dev m20) \<and>
   frame_for CmdCrossStageData (e21 m21) (CrossStageData_PkgWithoutCRC e21 sn dev m21)"
  unfolding Pkg_defs
  by (intro conjI frame_for_PkgWithoutCRC cmd_of_code cmd_of_raw) (simp_all add: cmd_named_def)

end
