(* ===== verification/DataUnits.thy ===== *)
theory DataUnits
  imports Queues
begin

text \<open>
  The template \<open>DataUnit<I, O>\<close> of \<open>data/DataUnit.h\<close>: a bounded cache of input messages per
  device, a bounded queue of output messages, the choice of a calibration frame with the
  messages of the other devices near it (\<open>FindOneFrame\<close>), and the forwarding of every input
  (\<open>TransparentTransmission\<close>). The member \<open>timestamp\<close> of the input class is the parameter \<open>ts\<close> and
  a new input object the parameter \<open>dflt\<close>.
\<close>

section \<open>State\<close>

record ('i, 'o) data_unit =
  du_sn :: int
  du_iq :: "'i vector list"
  du_oq :: "'o queue"
  du_cache :: int
  du_maxSizeIndex :: int
  du_taskSearchCount :: int
  du_fs_i :: int
  du_cap :: int
  du_numI :: int
  du_thresholdFrame :: int
  du_curTimestamp :: u64
  du_xRoadTimestamp :: "u64 list"
  du_oneFrame :: "'i list"
  du_unOrder :: "string list"
  du_isTaskRun :: bool
  du_intervalTask :: int
  du_timestampStore :: u64

text \<open>A new object; \<open>fs_i\<close> and \<open>cap\<close> have no initialiser and are set before use.\<close>

definition data_unit_new :: "('i, 'o) data_unit" where
  "data_unit_new = \<lparr>du_sn = 0, du_iq = [], du_oq = queue_new, du_cache = 0, du_maxSizeIndex = - 1,
     du_taskSearchCount = 0, du_fs_i = 0, du_cap = 0, du_numI = 0, du_thresholdFrame = 10,
     du_curTimestamp = 0, du_xRoadTimestamp = [], du_oneFrame = [], du_unOrder = [],
     du_isTaskRun = False, du_intervalTask = 10, du_timestampStore = 0\<rparr>"

text \<open>\<open>std::vector\<close>: \<open>resize(n)\<close> and \<open>at(i)\<close>, which throws for an index out of range.\<close>

definition vec_resize :: "nat \<Rightarrow> 'a \<Rightarrow> 'a list \<Rightarrow> 'a list" where
  "vec_resize n d xs = take n xs @ replicate (n - length xs) d"

definition vec_at :: "int \<Rightarrow> 'a list \<Rightarrow> 'a option" where
  "vec_at i xs = (if 0 \<le> i \<and> nat i < length xs then Some (xs ! nat i) else None)"

definition setCapNumI :: "int \<Rightarrow> int \<Rightarrow> 'i \<Rightarrow> ('i, 'o) data_unit \<Rightarrow> ('i, 'o) data_unit" where
  "setCapNumI c i_num dflt du = du\<lparr>
     du_cap := c, du_numI := i_num,
     du_iq := map (vector_setMax c) (vec_resize (nat i_num) vector_new (du_iq du)),
     du_oq := queue_setMax c (du_oq du),
     du_oneFrame := vec_resize (nat i_num) dflt (du_oneFrame du),
     du_xRoadTimestamp := replicate (nat i_num) 0,
     du_unOrder := replicate (nat i_num) []\<rparr>"

text \<open>\<open>init\<close>, which also starts the two threads that call \<open>taskO\<close> and \<open>taskI\<close>.\<close>

definition data_unit_init :: "int \<Rightarrow> int \<Rightarrow> int \<Rightarrow> int \<Rightarrow> int \<Rightarrow> 'i \<Rightarrow> ('i, 'o) data_unit \<Rightarrow>
    ('i, 'o) data_unit" where
  "data_unit_init c fs i_num cache interval dflt du =
     (setCapNumI c i_num dflt du)\<lparr>du_isTaskRun := True, du_thresholdFrame := fs, du_fs_i := fs,
        du_cache := cache, du_intervalTask := interval\<rparr>"

section \<open>Access to the caches\<close>

definition getIOffset :: "int \<Rightarrow> int \<Rightarrow> ('i, 'o) data_unit \<Rightarrow> 'i option" where
  "getIOffset index offset du =
     (case vec_at index (du_iq du) of None \<Rightarrow> None | Some v \<Rightarrow> vector_getIndex offset v)"

definition eraseBeginI :: "int \<Rightarrow> ('i, 'o) data_unit \<Rightarrow> ('i, 'o) data_unit" where
  "eraseBeginI index du =
     (case vec_at index (du_iq du) of None \<Rightarrow> du
      | Some v \<Rightarrow> du\<lparr>du_iq := (du_iq du)[nat index := vector_eraseBegin v]\<rparr>)"

definition pushI :: "'i \<Rightarrow> int \<Rightarrow> ('i, 'o) data_unit \<Rightarrow> bool \<times> ('i, 'o) data_unit" where
  "pushI i index du =
     (case vec_at index (du_iq du) of None \<Rightarrow> (False, du)
      | Some v \<Rightarrow> (True, du\<lparr>du_iq := (du_iq du)[nat index := vector_push i v]\<rparr>))"

definition sizeI :: "int \<Rightarrow> ('i, 'o) data_unit \<Rightarrow> nat" where
  "sizeI index du = (case vec_at index (du_iq du) of None \<Rightarrow> 0 | Some v \<Rightarrow> vector_size v)"

definition emptyI :: "int \<Rightarrow> ('i, 'o) data_unit \<Rightarrow> bool" where
  "emptyI index du = (case vec_at index (du_iq du) of None \<Rightarrow> True | Some v \<Rightarrow> vector_empty v)"

definition clearI :: "int \<Rightarrow> ('i, 'o) data_unit \<Rightarrow> ('i, 'o) data_unit" where
  "clearI index du =
     (case vec_at index (du_iq du) of None \<Rightarrow> du
      | Some v \<Rightarrow> du\<lparr>du_iq := (du_iq du)[nat index := vector_clear v]\<rparr>)"

definition frontO :: "('i, 'o) data_unit \<Rightarrow> 'o option" where
  "frontO du = queue_front (du_oq du)"

definition backO :: "('i, 'o) data_unit \<Rightarrow> 'o option" where
  "backO du = queue_back (du_oq du)"

definition pushO :: "'o \<Rightarrow> ('i, 'o) data_unit \<Rightarrow> bool \<times> ('i, 'o) data_unit" where
  "pushO o' du = (let (ok, q) = queue_push o' (du_oq du) in (ok, du\<lparr>du_oq := q\<rparr>))"

definition popO :: "('i, 'o) data_unit \<Rightarrow> ('o \<times> ('i, 'o) data_unit) option" where
  "popO du = (case queue_pop (du_oq du) of None \<Rightarrow> None | Some (x, q) \<Rightarrow> Some (x, du\<lparr>du_oq := q\<rparr>))"

definition sizeO :: "('i, 'o) data_unit \<Rightarrow> nat" where
  "sizeO du = queue_size (du_oq du)"

definition emptyO :: "('i, 'o) data_unit \<Rightarrow> bool" where
  "emptyO du = queue_empty (du_oq du)"

definition clearO :: "('i, 'o) data_unit \<Rightarrow> ('i, 'o) data_unit" where
  "clearO du = du\<lparr>du_oq := queue_clear (du_oq du)\<rparr>"

text \<open>The position of a device: where it already is, else the first free one, which it takes.\<close>

definition FindIndexInUnOrder :: "string \<Rightarrow> ('i, 'o) data_unit \<Rightarrow> int \<times> ('i, 'o) data_unit" where
  "FindIndexInUnOrder code du =
     (case find_index (\<lambda>s. s = code) (du_unOrder du) of
        Some i \<Rightarrow> (int i, du)
      | None \<Rightarrow>
          (case find_index (\<lambda>s. s = []) (du_unOrder du) of
             Some i \<Rightarrow> (int i, du\<lparr>du_unOrder := (du_unOrder du)[i := code]\<rparr>)
           | None \<Rightarrow> (- 1, du)))"

section \<open>Tasks\<close>

definition i_maxSizeIndexNext :: "('i, 'o) data_unit \<Rightarrow> ('i, 'o) data_unit" where
  "i_maxSizeIndexNext du =
     (let i = du_maxSizeIndex du + 1;
          i = (if int (length (du_iq du)) < i then 0 else i)
      in du\<lparr>du_maxSizeIndex := i, du_taskSearchCount := 0\<rparr>)"

text \<open>The first of the fullest caches: the greatest size and its index.\<close>

definition max_size_index :: "'i vector list \<Rightarrow> nat \<times> nat" where
  "max_size_index vs =
     foldl (\<lambda>(maxSize, maxSizeIndex) (i, v).
         if maxSize < vector_size v then (vector_size v, i) else (maxSize, maxSizeIndex))
       (0, 0) (enumerate 0 vs)"

definition runTask :: "(('i, 'o) data_unit \<Rightarrow> ('i, 'o) data_unit) \<Rightarrow> ('i, 'o) data_unit \<Rightarrow>
    ('i, 'o) data_unit" where
  "runTask task du =
     (let (maxSize, maxSizeIndex) = max_size_index (du_iq du) in
      if du_cache du \<le> int maxSize
      then task (if du_maxSizeIndex du = - 1 then du\<lparr>du_maxSizeIndex := int maxSizeIndex\<rparr> else du)
      else du)"

text \<open>\<open>ThreadGetDataInRange\<close>: the first message of a cache within \<open>fs_i\<close> of the calibration time.\<close>

definition in_range :: "('i \<Rightarrow> real) \<Rightarrow> int \<Rightarrow> u64 \<Rightarrow> 'i \<Rightarrow> bool" where
  "in_range ts fs_i cur refer \<longleftrightarrow> \<bar>i64_of_double (ts refer) - sint cur\<bar> < fs_i"

definition ThreadGetDataInRange :: "('i \<Rightarrow> real) \<Rightarrow> nat \<Rightarrow> u64 \<Rightarrow> ('i, 'o) data_unit \<Rightarrow>
    ('i, 'o) data_unit" where
  "ThreadGetDataInRange ts index cur du =
     (if emptyI (int index) du then du
      else case find (in_range ts (du_fs_i du) cur) (v_items (du_iq du ! index)) of
        None \<Rightarrow> du
      | Some refer \<Rightarrow> du\<lparr>
          du_xRoadTimestamp := (du_xRoadTimestamp du)[index := u64_of_double (ts refer)],
          du_oneFrame := (du_oneFrame du)[index := refer]\<rparr>)"

text \<open>
  \<open>FindOneFrame\<close>, up to the call of the processing that the subclass adds: \<open>-1\<close> when the
  calibration cache has no message at \<open>offset\<close>, \<open>-2\<close> when that message is not newer than the last
  calibration time by at least \<open>fs_i\<close>, else 0.
\<close>

definition FindOneFrame :: "('i \<Rightarrow> real) \<Rightarrow> 'i \<Rightarrow> int \<Rightarrow> ('i, 'o) data_unit \<Rightarrow>
    int \<times> ('i, 'o) data_unit" where
  "FindOneFrame ts dflt offset du =
     (case getIOffset (du_maxSizeIndex du) offset du of
        None \<Rightarrow> (- 1, i_maxSizeIndexNext du)
      | Some refer \<Rightarrow>
          if du_timestampStore du + word_of_int (du_fs_i du) > u64_of_double (ts refer) then
            let du = du\<lparr>du_taskSearchCount := du_taskSearchCount du + 1\<rparr>
            in (- 2, if of_int (du_taskSearchCount du * du_intervalTask du) \<ge> (of_int (du_fs_i du) * 2.5 :: real)
                     then i_maxSizeIndexNext du else du)
          else
            let cur = u64_of_double (ts refer);
                du = du\<lparr>du_taskSearchCount := 0, du_timestampStore := cur, du_curTimestamp := cur,
                        du_oneFrame := replicate (nat (du_numI du)) dflt\<rparr>
            in (0, fold (\<lambda>i. ThreadGetDataInRange ts i cur) [0..<length (du_iq du)] du))"

text \<open>
  The loop \<open>while (!iter.empty())\<close> that takes the oldest message of a cache and handles it, for
  one cache and for all of them.
\<close>

function drain :: "('i \<Rightarrow> 's \<Rightarrow> 's) \<Rightarrow> 'i vector \<Rightarrow> 's \<Rightarrow> 'i vector \<times> 's" where
  "drain f v s =
     (if vector_empty v then (v, s)
      else case vector_getIndex 0 v of
        None \<Rightarrow> drain f (vector_eraseBegin v) s
      | Some cur \<Rightarrow> drain f (vector_eraseBegin v) (f cur s))"
  by pat_completeness auto

termination
  by (relation "measure (\<lambda>(f, v, s). length (v_items v))")
    (auto simp: vector_empty_def vector_eraseBegin_def)

declare drain.simps [simp del]

fun drain_all :: "('i \<Rightarrow> 's \<Rightarrow> 's) \<Rightarrow> 'i vector list \<Rightarrow> 's \<Rightarrow> 'i vector list \<times> 's" where
  "drain_all f [] s = ([], s)"
| "drain_all f (v # vs) s =
     (let (v', s') = drain f v s; (vs', s'') = drain_all f vs s' in (v' # vs', s''))"

definition drain_inputs :: "('i \<Rightarrow> 's \<times> 'o queue \<Rightarrow> 's \<times> 'o queue) \<Rightarrow> 's \<Rightarrow> ('i, 'o) data_unit \<Rightarrow>
    's \<times> ('i, 'o) data_unit" where
  "drain_inputs f s du =
     (let (iq, s, oq) = drain_all f (du_iq du) (s, du_oq du) in (s, du\<lparr>du_iq := iq, du_oq := oq\<rparr>))"

definition TransparentTransmission :: "('i \<Rightarrow> 'o) \<Rightarrow> ('i, 'o) data_unit \<Rightarrow> ('i, 'o) data_unit" where
  "TransparentTransmission conv du =
     snd (drain_inputs (\<lambda>cur (s, oq). (s, snd (queue_push (conv cur) oq))) () du)"

section \<open>Lemmas\<close>

lemma vec_at_simps [simp]:
  "i < length xs \<Longrightarrow> vec_at (int i) xs = Some (xs ! i)"
  "length xs \<le> i \<Longrightarrow> vec_at (int i) xs = None" "vec_at (- 1) xs = None"
  by (simp_all add: vec_at_def)

lemma vec_atD: "vec_at i xs = Some x \<Longrightarrow> 0 \<le> i \<and> nat i < length xs \<and> x = xs ! nat i"
  by (auto simp: vec_at_def split: if_splits)

lemma length_vec_resize [simp]: "length (vec_resize n d xs) = n"
  by (simp add: vec_resize_def)

lemma drain_eq: "drain f v s = (v\<lparr>v_items := []\<rparr>, fold f (v_items v) s)"
proof (induction f v s rule: drain.induct)
  case (1 f v s)
  show ?case
  proof (cases "v_items v")
    case Nil
    then show ?thesis by (subst drain.simps) (cases v, simp add: vector_empty_def)
  next
    case (Cons x xs)
    then have get: "vector_getIndex 0 v = Some x" "\<not> vector_empty v"
      "v_items (vector_eraseBegin v) = xs" "(vector_eraseBegin v)\<lparr>v_items := []\<rparr> = v\<lparr>v_items := []\<rparr>"
      by (simp_all add: vector_getIndex_def vector_empty_def vector_eraseBegin_def)
    then show ?thesis using 1(2)[OF get(2) get(1)] Cons by (subst drain.simps) simp
  qed
qed

lemma drain_all_eq:
  "drain_all f vs s = (map (\<lambda>v. v\<lparr>v_items := []\<rparr>) vs, fold f (concat (map v_items vs)) s)"
  by (induction vs arbitrary: s) (simp_all add: drain_eq)

lemma drain_inputs_eq:
  "drain_inputs f s du =
     (let (s', oq) = fold f (concat (map v_items (du_iq du))) (s, du_oq du)
      in (s', du\<lparr>du_iq := map (\<lambda>v. v\<lparr>v_items := []\<rparr>) (du_iq du), du_oq := oq\<rparr>))"
  by (simp add: drain_inputs_def drain_all_eq case_prod_beta)

section \<open>Invariant\<close>

definition du_wf :: "('i, 'o) data_unit \<Rightarrow> bool" where
  "du_wf du \<longleftrightarrow> du_numI du = int (length (du_iq du)) \<and>
     length (du_oneFrame du) = length (du_iq du) \<and>
     length (du_xRoadTimestamp du) = length (du_iq du) \<and>
     length (du_unOrder du) = length (du_iq du) \<and>
     (\<forall>v \<in> set (du_iq du). v_isSetMax v \<and> v_max v = du_cap du \<and> vector_wf v) \<and>
     q_isSetMax (du_oq du) \<and> q_max (du_oq du) = du_cap du \<and> queue_wf (du_oq du) \<and>
     - 1 \<le> du_maxSizeIndex du \<and> du_maxSizeIndex du \<le> int (length (du_iq du))"

lemma du_wf_setCapNumI [wf_rules]:
  "0 \<le> n \<Longrightarrow> du_wf (setCapNumI c n dflt data_unit_new)"
  by (auto simp: du_wf_def setCapNumI_def data_unit_new_def vec_resize_def vector_setMax_def
      vector_new_def vector_wf_def queue_setMax_def queue_new_def queue_wf_def)

lemma du_wf_iq_update:
  "du_wf du \<Longrightarrow> v_isSetMax v \<Longrightarrow> v_max v = du_cap du \<Longrightarrow> vector_wf v \<Longrightarrow>
     du_wf (du\<lparr>du_iq := (du_iq du)[i := v]\<rparr>)"
  by (auto simp: du_wf_def dest!: set_update_subset_insert[THEN subsetD])

lemma du_wf_at: "du_wf du \<Longrightarrow> vec_at i (du_iq du) = Some v \<Longrightarrow>
    v_isSetMax v \<and> v_max v = du_cap du \<and> vector_wf v"
  by (auto simp: du_wf_def dest!: vec_atD)

lemma du_wf_pushI [wf_rules]: "du_wf du \<Longrightarrow> du_wf (snd (pushI x i du))"
  by (auto simp: pushI_def vector_wf_push split: option.split
      intro!: du_wf_iq_update dest: du_wf_at)

lemma vector_eraseBegin_max [simp]:
  "v_isSetMax (vector_eraseBegin v) = v_isSetMax v" "v_max (vector_eraseBegin v) = v_max v"
  by (simp_all add: vector_eraseBegin_def)

lemma du_wf_eraseBeginI [wf_rules]: "du_wf du \<Longrightarrow> du_wf (eraseBeginI i du)"
  by (auto simp: eraseBeginI_def vector_wf_eraseBegin split: option.split
      intro!: du_wf_iq_update dest: du_wf_at)

lemma du_wf_pushO [wf_rules]: "du_wf du \<Longrightarrow> du_wf (snd (pushO x du))"
  using queue_wf_push[of "du_oq du" x]
  by (auto simp: pushO_def du_wf_def queue_push_def split: prod.splits)

lemma du_wf_popO [wf_rules]: "du_wf du \<Longrightarrow> popO du = Some (x, du') \<Longrightarrow> du_wf du'"
  using queue_wf_pop[of "du_oq du"]
  by (auto simp: popO_def du_wf_def queue_pop_def split: option.splits list.splits)

lemma du_wf_FindIndex [wf_rules]: "du_wf du \<Longrightarrow> du_wf (snd (FindIndexInUnOrder s du))"
  by (auto simp: FindIndexInUnOrder_def du_wf_def split: option.split)

lemma du_wf_next [wf_rules]: "du_wf du \<Longrightarrow> du_wf (i_maxSizeIndexNext du)"
  by (auto simp: i_maxSizeIndexNext_def du_wf_def Let_def)

lemma du_wf_range: "du_wf du \<Longrightarrow> du_wf (ThreadGetDataInRange ts i cur du)"
  by (auto simp: ThreadGetDataInRange_def du_wf_def split: option.split)

lemma du_wf_fold_range: "du_wf du \<Longrightarrow> du_wf (fold (\<lambda>i. ThreadGetDataInRange ts i cur) is du)"
  by (induction "is" arbitrary: du) (auto intro: du_wf_range)

lemma du_wf_FindOneFrame [wf_rules]: "du_wf du \<Longrightarrow> du_wf (snd (FindOneFrame ts dflt offset du))"
  by (auto simp: FindOneFrame_def Let_def split: option.split
      intro!: du_wf_next du_wf_fold_range) (auto simp: du_wf_def)

lemma max_size_index_bound:
  "max_size_index vs = (m, i) \<Longrightarrow> i < length vs \<or> i = 0"
proof -
  let ?f = "\<lambda>(m, k) (i, v). if m < vector_size v then (vector_size v, i) else (m, k)"
  have "snd (foldl ?f mk (enumerate n vs)) \<in> insert (snd mk) {n..<n + length vs}" for mk n
  proof (induction vs arbitrary: mk n)
    case (Cons v vs)
    have "snd (?f mk (n, v)) = snd mk \<or> snd (?f mk (n, v)) = n" by (cases mk) simp
    then show ?case using Cons.IH[of "?f mk (n, v)" "Suc n"] by auto
  qed simp
  from this[of "(0, 0)" 0] show "max_size_index vs = (m, i) \<Longrightarrow> i < length vs \<or> i = 0"
    by (auto simp: max_size_index_def)
qed

lemma du_wf_runTask [wf_rules]:
  assumes "du_wf du" and task: "\<And>d. du_wf d \<Longrightarrow> du_wf (task d)"
  shows "du_wf (runTask task du)"
proof -
  obtain m i where mi: "max_size_index (du_iq du) = (m, i)" by force
  have "du_wf (du\<lparr>du_maxSizeIndex := int i\<rparr>)"
    using assms(1) max_size_index_bound[OF mi] by (auto simp: du_wf_def)
  then show ?thesis using assms(1) task mi by (simp add: runTask_def)
qed

lemma fold_push_pair:
  "fold (\<lambda>cur (s, oq). (s, snd (queue_push (conv cur) oq))) xs (s0, q) =
     (s0, fold (\<lambda>x q. snd (queue_push x q)) (map conv xs) q)"
  by (induction xs arbitrary: q) simp_all

lemma TransparentTransmission_eq:
  "TransparentTransmission conv du =
     du\<lparr>du_iq := map (\<lambda>v. v\<lparr>v_items := []\<rparr>) (du_iq du),
        du_oq := fold (\<lambda>x q. snd (queue_push x q)) (map conv (concat (map v_items (du_iq du)))) (du_oq du)\<rparr>"
  unfolding TransparentTransmission_def drain_inputs_eq fold_push_pair Let_def prod.case snd_conv ..

lemma du_wf_transmit [wf_rules]: "du_wf du \<Longrightarrow> du_wf (TransparentTransmission conv du)"
proof -
  assume wf: "du_wf du"
  have "queue_wf ((du_oq du)\<lparr>q_items := take (size_of_int (q_max (du_oq du))) ys\<rparr>)" for ys
    by (simp add: queue_wf_def)
  then show ?thesis
    using wf
    by (auto simp: TransparentTransmission_eq queue_push_all du_wf_def vector_wf_def simp del: take_append)
qed

lemma du_wf_init [wf_rules]:
  "du_wf du \<Longrightarrow> du_wf (data_unit_init (du_cap du) fs (du_numI du) cache interval dflt du)"
  by (auto simp: du_wf_def data_unit_init_def setCapNumI_def vec_resize_def vector_setMax_def
      vector_wf_def queue_setMax_def queue_wf_def)

text \<open>The operations that the handlers and the threads call.\<close>

datatype 'i du_op =
    OpInit int int int
  | OpFindIndex string
  | OpPushI 'i int
  | OpTransmit
  | OpFindOneFrame int
  | OpPopO

fun du_apply :: "('i \<Rightarrow> real) \<Rightarrow> 'i \<Rightarrow> ('i \<Rightarrow> 'o) \<Rightarrow> 'i du_op \<Rightarrow> ('i, 'o) data_unit \<Rightarrow>
    ('i, 'o) data_unit" where
  "du_apply ts dflt conv (OpInit fs cache interval) du =
     data_unit_init (du_cap du) fs (du_numI du) cache interval dflt du"
| "du_apply ts dflt conv (OpFindIndex code) du = snd (FindIndexInUnOrder code du)"
| "du_apply ts dflt conv (OpPushI x index) du = snd (pushI x index du)"
| "du_apply ts dflt conv OpTransmit du = runTask (TransparentTransmission conv) du"
| "du_apply ts dflt conv (OpFindOneFrame offset) du =
     runTask (\<lambda>du. snd (FindOneFrame ts dflt offset du)) du"
| "du_apply ts dflt conv OpPopO du = (case popO du of None \<Rightarrow> du | Some (x, du) \<Rightarrow> du)"

lemma du_wf_apply: "du_wf du \<Longrightarrow> du_wf (du_apply ts dflt conv oper du)"
  by (cases oper) (auto intro: wf_rules split: option.split)

lemma du_wf_ops: "du_wf du \<Longrightarrow> du_wf (fold (du_apply ts dflt conv) ops du)"
  by (induction ops arbitrary: du) (auto intro: du_wf_apply)

lemma du_apply_cap [simp]:
  "du_cap (i_maxSizeIndexNext du) = du_cap du" "du_numI (i_maxSizeIndexNext du) = du_numI du"
  by (simp_all add: i_maxSizeIndexNext_def Let_def)

lemma range_cap [simp]:
  "du_cap (ThreadGetDataInRange ts i cur du) = du_cap du"
  "du_iq (ThreadGetDataInRange ts i cur du) = du_iq du"
  "du_fs_i (ThreadGetDataInRange ts i cur du) = du_fs_i du"
  "du_numI (ThreadGetDataInRange ts i cur du) = du_numI du"
  "du_curTimestamp (ThreadGetDataInRange ts i cur du) = du_curTimestamp du"
  "du_timestampStore (ThreadGetDataInRange ts i cur du) = du_timestampStore du"
  by (simp_all add: ThreadGetDataInRange_def split: option.split)

lemma fold_range_cap [simp]:
  "du_cap (fold (\<lambda>i. ThreadGetDataInRange ts i cur) is du) = du_cap du"
  "du_iq (fold (\<lambda>i. ThreadGetDataInRange ts i cur) is du) = du_iq du"
  "du_fs_i (fold (\<lambda>i. ThreadGetDataInRange ts i cur) is du) = du_fs_i du"
  "du_numI (fold (\<lambda>i. ThreadGetDataInRange ts i cur) is du) = du_numI du"
  "du_curTimestamp (fold (\<lambda>i. ThreadGetDataInRange ts i cur) is du) = du_curTimestamp du"
  "du_timestampStore (fold (\<lambda>i. ThreadGetDataInRange ts i cur) is du) = du_timestampStore du"
  by (induction "is" arbitrary: du) simp_all

lemma du_apply_keeps_cap: "du_cap (du_apply ts dflt conv oper du) = du_cap du"
  by (cases oper)
    (auto simp: data_unit_init_def setCapNumI_def FindIndexInUnOrder_def pushI_def runTask_def popO_def
      TransparentTransmission_eq FindOneFrame_def Let_def
      split: option.split prod.split)

lemma du_ops_keep_cap: "du_cap (fold (du_apply ts dflt conv) ops du) = du_cap du"
  by (induction ops arbitrary: du) (simp_all add: du_apply_keeps_cap)

text \<open>
  Whatever messages arrive and however the tasks run, no cache and no output queue of a data
  unit ever holds more than its capacity, the number of caches never changes, and the index of the
  calibration cache stays within them or is the one past the last.
\<close>

lemma caches_bounded:
  assumes "0 \<le> n" and "0 \<le> c" and "c < 2 ^ 31"
    and du_def: "du = fold (du_apply ts dflt conv) ops (setCapNumI c n dflt data_unit_new)"
  shows "length (du_iq du) = nat n \<and> (\<forall>v \<in> set (du_iq du). length (v_items v) \<le> nat c) \<and>
    length (q_items (du_oq du)) \<le> nat c \<and> - 1 \<le> du_maxSizeIndex du \<and> du_maxSizeIndex du \<le> n"
proof -
  have wf: "du_wf du" unfolding du_def by (intro du_wf_ops du_wf_setCapNumI assms(1))
  have cap: "du_cap du = c" unfolding du_def du_ops_keep_cap by (simp add: setCapNumI_def)
  have numI: "du_numI (du_apply ts dflt conv oper d) = du_numI d" for oper d
    by (cases oper)
      (auto simp: data_unit_init_def setCapNumI_def FindIndexInUnOrder_def pushI_def runTask_def popO_def
        TransparentTransmission_eq FindOneFrame_def Let_def
        split: option.split prod.split)
  have "du_numI (fold (du_apply ts dflt conv) ops d) = du_numI d" for d
    by (induction ops arbitrary: d) (simp_all add: numI)
  then have "du_numI du = n" by (simp add: du_def setCapNumI_def)
  then show ?thesis using wf cap assms(1-3) by (auto simp: du_wf_def vector_wf_def queue_wf_def)
qed

lemma caches_bounded_witness:
  "list_all (\<lambda>v. length (v_items v) \<le> 2) (du_iq (fold (du_apply (\<lambda>x. x) 0 (\<lambda>x. x))
     [OpPushI 1 0, OpPushI 2 0, OpPushI 3 0, OpTransmit] (setCapNumI 2 4 0 data_unit_new)))"
  using caches_bounded[OF _ _ _ refl, of 4 2 "\<lambda>x. x" 0 "\<lambda>x. x" "[OpPushI 1 0, OpPushI 2 0, OpPushI 3 0, OpTransmit]"]
  by (simp add: list_all_iff)

section \<open>Positions of devices\<close>

definition slots_ok :: "string list \<Rightarrow> bool" where
  "slots_ok xs \<longleftrightarrow> (\<forall>i < length xs. \<forall>j < length xs. xs ! i = xs ! j \<longrightarrow> xs ! i \<noteq> [] \<longrightarrow> i = j)"

lemma FindIndex_cases:
  assumes "slots_ok (du_unOrder du)" "code \<noteq> []" "FindIndexInUnOrder code du = (i, du')"
  shows "slots_ok (du_unOrder du')"
    and "i = - 1 \<longleftrightarrow> code \<notin> set (du_unOrder du) \<and> [] \<notin> set (du_unOrder du)"
    and "i \<noteq> - 1 \<Longrightarrow> 0 \<le> i \<and> nat i < length (du_unOrder du') \<and> du_unOrder du' ! nat i = code"
    and "length (du_unOrder du') = length (du_unOrder du)"
    and "\<And>j. j < length (du_unOrder du) \<Longrightarrow> du_unOrder du ! j \<noteq> [] \<Longrightarrow>
      du_unOrder du' ! j = du_unOrder du ! j"
proof -
  let ?u = "du_unOrder du"
  consider (known) k where "find_index (\<lambda>s. s = code) ?u = Some k"
    | (free) k where "find_index (\<lambda>s. s = code) ?u = None" "find_index (\<lambda>s. s = []) ?u = Some k"
    | (none) "find_index (\<lambda>s. s = code) ?u = None" "find_index (\<lambda>s. s = []) ?u = None"
    by (metis not_None_eq)
  then have "slots_ok (du_unOrder du') \<and> (i = - 1 \<longleftrightarrow> code \<notin> set ?u \<and> [] \<notin> set ?u) \<and>
    (i \<noteq> - 1 \<longrightarrow> 0 \<le> i \<and> nat i < length (du_unOrder du') \<and> du_unOrder du' ! nat i = code) \<and>
    length (du_unOrder du') = length ?u \<and>
    (\<forall>j < length ?u. ?u ! j \<noteq> [] \<longrightarrow> du_unOrder du' ! j = ?u ! j)"
  proof cases
    case known
    then show ?thesis
      using assms find_index_SomeD[OF known] by (auto simp: FindIndexInUnOrder_def in_set_conv_nth)
  next
    case free
    have k: "k < length ?u" "?u ! k = []" using find_index_SomeD[OF free(2)] by auto
    have "code \<notin> set ?u" using free(1) by auto
    then have "slots_ok (?u[k := code])"
      using assms(1) k by (auto simp: slots_ok_def nth_list_update in_set_conv_nth)
    then show ?thesis
      using assms(3) free k \<open>code \<notin> set ?u\<close>
      by (auto simp: FindIndexInUnOrder_def in_set_conv_nth nth_list_update)
  next
    case none
    have "FindIndexInUnOrder code du = (- 1, du)" unfolding FindIndexInUnOrder_def none by simp
    moreover have "code \<notin> set ?u" "[] \<notin> set ?u" using none by auto
    ultimately show ?thesis using assms by simp
  qed
  then show "slots_ok (du_unOrder du')" "i = - 1 \<longleftrightarrow> code \<notin> set ?u \<and> [] \<notin> set ?u"
    "i \<noteq> - 1 \<Longrightarrow> 0 \<le> i \<and> nat i < length (du_unOrder du') \<and> du_unOrder du' ! nat i = code"
    "length (du_unOrder du') = length ?u"
    "\<And>j. j < length ?u \<Longrightarrow> ?u ! j \<noteq> [] \<Longrightarrow> du_unOrder du' ! j = ?u ! j"
    by auto
qed

lemma FindIndex_many:
  assumes "slots_ok (du_unOrder du)" "[] \<notin> set codes"
  defines "du' \<equiv> fold (\<lambda>c d. snd (FindIndexInUnOrder c d)) codes du"
  shows "slots_ok (du_unOrder du') \<and> length (du_unOrder du') = length (du_unOrder du) \<and>
    (\<forall>j < length (du_unOrder du). du_unOrder du ! j \<noteq> [] \<longrightarrow> du_unOrder du' ! j = du_unOrder du ! j)"
  using assms(1,2) unfolding du'_def
proof (induction codes arbitrary: du)
  case (Cons c codes)
  obtain i d where d: "FindIndexInUnOrder c du = (i, d)" by force
  have "c \<noteq> []" using Cons.prems by auto
  note f = FindIndex_cases[OF Cons.prems(1) this d]
  have "[] \<notin> set codes" using Cons.prems by auto
  from Cons.IH[OF f(1) this] show ?case using f(4,5) d by auto
qed simp

text \<open>
  Devices keep their position: when a lookup of a device code gave it a position, then
  after any lookups of other devices that code is found at the same position, and no other code
  is ever given it.
\<close>
lemma FindIndex_stable:
  assumes "slots_ok (du_unOrder du)" and "c1 \<noteq> []" "c2 \<noteq> []" "[] \<notin> set codes"
    and "FindIndexInUnOrder c1 du = (i, du1)" and "i \<noteq> - 1"
    and "FindIndexInUnOrder c2 (fold (\<lambda>c d. snd (FindIndexInUnOrder c d)) codes du1) = (j, du2)"
  shows "j = i \<longleftrightarrow> c1 = c2"
proof -
  let ?d = "fold (\<lambda>c d. snd (FindIndexInUnOrder c d)) codes du1"
  note f1 = FindIndex_cases[OF assms(1,2,5)]
  note m = FindIndex_many[OF f1(1) assms(4)]
  have ok: "slots_ok (du_unOrder ?d)" using m by simp
  note f2 = FindIndex_cases[OF ok assms(3,7)]
  have i: "0 \<le> i" "nat i < length (du_unOrder ?d)" "du_unOrder ?d ! nat i = c1"
    using f1(3)[OF assms(6)] m assms(2) by auto
  then have i2: "du_unOrder du2 ! nat i = c1" using f2(5)[of "nat i"] assms(2) by simp
  show ?thesis
  proof
    assume "j = i"
    then show "c1 = c2" using f2(3) i2 assms(6) by simp
  next
    assume c: "c1 = c2"
    have "c1 \<in> set (du_unOrder ?d)" using i nth_mem by metis
    then have "j \<noteq> - 1" using f2(2) c by simp
    then have j: "0 \<le> j" "nat j < length (du_unOrder du2)" "du_unOrder du2 ! nat j = c1"
      using f2(3) c by auto
    then have "nat j = nat i" using f2(1) i i2 f2(4) assms(2) by (auto simp: slots_ok_def)
    then show "j = i" using i j by simp
  qed
qed

theorem FindIndex_stable_witness:
  "snd (0 :: nat, fst (FindIndexInUnOrder ''a''
     (fold (\<lambda>c d. snd (FindIndexInUnOrder c d)) [''b'', ''c'']
       (snd (FindIndexInUnOrder ''a'' (setCapNumI 2 2 () data_unit_new :: (unit, unit) data_unit)))))) = 0"
proof -
  let ?du = "setCapNumI 2 2 () data_unit_new :: (unit, unit) data_unit"
  have u: "du_unOrder ?du = [[], []]" by (simp add: setCapNumI_def numeral_2_eq_2)
  have ok: "slots_ok (du_unOrder ?du)" by (simp add: slots_ok_def u less_Suc_eq)
  have f1: "FindIndexInUnOrder ''a'' ?du = (0, ?du\<lparr>du_unOrder := [''a'', []]\<rparr>)"
    by (simp add: FindIndexInUnOrder_def u)
  obtain j d where "FindIndexInUnOrder ''a'' (fold (\<lambda>c d. snd (FindIndexInUnOrder c d)) [''b'', ''c'']
      (?du\<lparr>du_unOrder := [''a'', []]\<rparr>)) = (j, d)" by force
  from FindIndex_stable[OF ok _ _ _ f1 _ this] this f1 show ?thesis by simp
qed

section \<open>The frame of one moment\<close>

text \<open>What \<open>ThreadGetDataInRange\<close> puts at a position.\<close>

definition pick :: "('i \<Rightarrow> real) \<Rightarrow> int \<Rightarrow> u64 \<Rightarrow> 'i \<Rightarrow> 'i vector \<Rightarrow> 'i" where
  "pick ts fs_i cur old v = (case find (in_range ts fs_i cur) (v_items v) of None \<Rightarrow> old | Some r \<Rightarrow> r)"

lemma range_oneFrame:
  assumes "index < length (du_iq du)"
  shows "du_oneFrame (ThreadGetDataInRange ts index cur du) =
    (du_oneFrame du)[index := pick ts (du_fs_i du) cur (du_oneFrame du ! index) (du_iq du ! index)]"
  using assms
  by (cases "v_items (du_iq du ! index)")
    (auto simp: ThreadGetDataInRange_def pick_def emptyI_def vector_empty_def split: option.split)

lemma fold_range_oneFrame:
  assumes "k \<le> length (du_iq du)" "length (du_oneFrame du) = length (du_iq du)"
  shows "length (du_oneFrame (fold (\<lambda>i. ThreadGetDataInRange ts i cur) [0..<k] du)) = length (du_iq du) \<and>
    (\<forall>j < length (du_iq du). du_oneFrame (fold (\<lambda>i. ThreadGetDataInRange ts i cur) [0..<k] du) ! j =
      (if j < k then pick ts (du_fs_i du) cur (du_oneFrame du ! j) (du_iq du ! j) else du_oneFrame du ! j))"
  using assms
proof (induction k)
  case (Suc k)
  let ?d = "fold (\<lambda>i. ThreadGetDataInRange ts i cur) [0..<k] du"
  have IH: "length (du_oneFrame ?d) = length (du_iq du)"
    "\<forall>j < length (du_iq du). du_oneFrame ?d ! j =
      (if j < k then pick ts (du_fs_i du) cur (du_oneFrame du ! j) (du_iq du ! j) else du_oneFrame du ! j)"
    using Suc by auto
  have "k < length (du_iq ?d)" using Suc.prems by simp
  from range_oneFrame[OF this, of ts cur] show ?case
    using IH Suc.prems by (auto simp: nth_list_update less_Suc_eq)
qed simp

lemma pick_spec:
  "(\<exists>k < length (v_items v). pick ts fs cur old v = v_items v ! k \<and>
      in_range ts fs cur (pick ts fs cur old v) \<and> (\<forall>j < k. \<not> in_range ts fs cur (v_items v ! j))) \<or>
   pick ts fs cur old v = old \<and> (\<forall>r \<in> set (v_items v). \<not> in_range ts fs cur r)"
proof (cases "find (in_range ts fs cur) (v_items v)")
  case None
  with find_None_iff[of "in_range ts fs cur" "v_items v"] show ?thesis by (simp add: pick_def)
next
  case (Some r)
  with find_Some_iff[of "in_range ts fs cur" "v_items v" r] show ?thesis by (auto simp: pick_def)
qed

text \<open>
  C33. When \<open>FindOneFrame\<close> finds a frame, its calibration time is the time of a message of the
  calibration cache, at least \<open>fs_i\<close> after the last one; each position holds the first message of its
  own cache whose time is within \<open>fs_i\<close> of that time, or, exactly when the cache has no such
  message, an empty one; and the caches are as before.
\<close>

theorem FindOneFrame_frame:
  assumes "du_wf du" and "FindOneFrame ts dflt offset du = (0, du')"
  shows "du_iq du' = du_iq du \<and> length (du_oneFrame du') = length (du_iq du) \<and>
    du_timestampStore du' = du_curTimestamp du' \<and>
    du_timestampStore du + word_of_int (du_fs_i du) \<le> du_curTimestamp du' \<and>
    (\<exists>refer. getIOffset (du_maxSizeIndex du) offset du = Some refer \<and>
       du_curTimestamp du' = u64_of_double (ts refer)) \<and>
    (\<forall>i < length (du_iq du).
       (\<exists>k < length (v_items (du_iq du ! i)). du_oneFrame du' ! i = v_items (du_iq du ! i) ! k \<and>
          in_range ts (du_fs_i du) (du_curTimestamp du') (du_oneFrame du' ! i) \<and>
          (\<forall>j < k. \<not> in_range ts (du_fs_i du) (du_curTimestamp du') (v_items (du_iq du ! i) ! j))) \<or>
       du_oneFrame du' ! i = dflt \<and>
         (\<forall>r \<in> set (v_items (du_iq du ! i)). \<not> in_range ts (du_fs_i du) (du_curTimestamp du') r))"
proof -
  obtain refer where refer: "getIOffset (du_maxSizeIndex du) offset du = Some refer"
    and time: "\<not> du_timestampStore du + word_of_int (du_fs_i du) > u64_of_double (ts refer)"
    using assms(2) by (auto simp: FindOneFrame_def Let_def split: option.splits if_splits)
  define cur where "cur = u64_of_double (ts refer)"
  define d where "d = du\<lparr>du_taskSearchCount := 0, du_timestampStore := cur, du_curTimestamp := cur,
    du_oneFrame := replicate (nat (du_numI du)) dflt\<rparr>"
  have du': "du' = fold (\<lambda>i. ThreadGetDataInRange ts i cur) [0..<length (du_iq du)] d"
    using assms(2) refer time by (simp add: FindOneFrame_def Let_def d_def cur_def)
  have len: "length (du_oneFrame d) = length (du_iq d)"
    using assms(1) by (simp add: d_def du_wf_def)
  have fr: "length (du_oneFrame du') = length (du_iq du)"
    "\<forall>j < length (du_iq du). du_oneFrame du' ! j = pick ts (du_fs_i du) cur dflt (du_iq du ! j)"
    using fold_range_oneFrame[of "length (du_iq du)" d ts cur] len assms(1)
    unfolding du' by (auto simp: d_def du_wf_def)
  have sel: "du_iq du' = du_iq du" "du_timestampStore du' = cur" "du_curTimestamp du' = cur"
    unfolding du' by (simp_all add: d_def)
  show ?thesis
    using fr sel refer time pick_spec[of _ ts "du_fs_i du" cur dflt]
    by (simp add: cur_def not_less)
qed

definition demo_unit :: "(real, real) data_unit" where
  "demo_unit = (setCapNumI 3 2 0 data_unit_new)\<lparr>du_fs_i := 10, du_numI := 2, du_maxSizeIndex := 0,
     du_iq := [\<lparr>v_items = [100, 120], v_max = 3, v_isSetMax = True\<rparr>,
               \<lparr>v_items = [85, 125], v_max = 3, v_isSetMax = True\<rparr>]\<rparr>"

lemma demo_unit_wf: "du_wf demo_unit"
  by (simp add: du_wf_def demo_unit_def setCapNumI_def data_unit_new_def vector_wf_def
      queue_setMax_def queue_new_def queue_wf_def)

lemma demo_refer: "getIOffset (du_maxSizeIndex demo_unit) 1 demo_unit = Some 120"
  by (simp add: demo_unit_def getIOffset_def vec_at_def vector_getIndex_def)

theorem FindOneFrame_frame_witness:
  "du_curTimestamp (snd (FindOneFrame (\<lambda>t. t) 0 1 demo_unit)) = 120"
proof -
  have u: "u64_of_double 120 = 120"
    using trunc_real_of_int[of 120] by (simp add: u64_of_double_def)
  have "fst (FindOneFrame (\<lambda>t. t) 0 1 demo_unit) = 0"
    using demo_refer u
    by (simp add: FindOneFrame_def Let_def demo_unit_def setCapNumI_def data_unit_new_def)
  then obtain du' where "FindOneFrame (\<lambda>t. t) 0 1 demo_unit = (0, du')" by (metis prod.collapse)
  from FindOneFrame_frame[OF demo_unit_wf this] this show ?thesis
    using demo_refer u by simp
qed

section \<open>Forwarding\<close>

text \<open>
  \<open>TransparentTransmission\<close> empties every cache and appends all their messages to the output
  queue, device after device and each device's in the order received, as many as the queue has room
  for; what is dropped when it is full are the last ones.
\<close>
lemma TransparentTransmission_forwards:
  assumes "du_wf du"
  shows "(\<forall>v \<in> set (du_iq (TransparentTransmission conv du)). v_items v = []) \<and>
    q_items (du_oq (TransparentTransmission conv du)) =
      take (size_of_int (du_cap du)) (q_items (du_oq du) @ map conv (concat (map v_items (du_iq du))))"
  using assms queue_push_all[of "du_oq du"]
  by (auto simp: TransparentTransmission_eq du_wf_def simp del: take_append)

theorem TransparentTransmission_forwards_witness:
  "q_items (du_oq (TransparentTransmission (\<lambda>t. t) demo_unit)) = [100, 120, 85]"
  using TransparentTransmission_forwards[OF demo_unit_wf, of "\<lambda>t. t"]
  by (simp add: demo_unit_def setCapNumI_def data_unit_new_def queue_setMax_def queue_new_def)

section \<open>The index past the last cache\<close>

text \<open>
  \<open>i_maxSizeIndexNext\<close> steps from the last cache to an index that is no cache: it compares
  with \<open>>\<close> where the last valid index needs \<open>>=\<close>. The next search then finds nothing, whatever the
  caches hold, and only the search after it starts again at the first cache.
\<close>
lemma maxSizeIndexNext_overruns:
  assumes "du_maxSizeIndex du = int (length (du_iq du)) - 1"
  shows "du_maxSizeIndex (i_maxSizeIndexNext du) = int (length (du_iq du)) \<and>
    fst (FindOneFrame ts dflt offset (i_maxSizeIndexNext du)) = - 1 \<and>
    du_maxSizeIndex (snd (FindOneFrame ts dflt offset (i_maxSizeIndexNext du))) = 0"
proof -
  have "du_iq (i_maxSizeIndexNext du) = du_iq du" by (simp add: i_maxSizeIndexNext_def Let_def)
  moreover have next1: "du_maxSizeIndex (i_maxSizeIndexNext du) = int (length (du_iq du))"
    using assms by (simp add: i_maxSizeIndexNext_def)
  ultimately have "getIOffset (du_maxSizeIndex (i_maxSizeIndexNext du)) offset (i_maxSizeIndexNext du) = None"
    by (simp add: getIOffset_def)
  then have f: "FindOneFrame ts dflt offset (i_maxSizeIndexNext du) =
      (- 1, i_maxSizeIndexNext (i_maxSizeIndexNext du))"
    by (simp add: FindOneFrame_def)
  show ?thesis unfolding f using assms by (simp add: i_maxSizeIndexNext_def Let_def)
qed

theorem maxSizeIndexNext_overruns_witness:
  "fst (FindOneFrame (\<lambda>t. t) 0 1 (i_maxSizeIndexNext (demo_unit\<lparr>du_maxSizeIndex := 1\<rparr>))) = - 1"
  using maxSizeIndexNext_overruns[of "demo_unit\<lparr>du_maxSizeIndex := 1\<rparr>" "\<lambda>t. t" 0 1]
  by (simp add: demo_unit_def)

end
