(* ===== verification/Text.thy ===== *)
theory Text
  imports Prelude "HOL-Library.Char_ord" "HOL-Library.List_Lexorder"
begin

text \<open>
  The standard library's conversions between numbers and decimal text that the program uses:
  \<open>std::to_string\<close>, \<open>std::stoi\<close>, which throws when there is no number or it does not fit an \<open>int\<close>,
  and \<open>atoi\<close>, which returns 0 when there is none.
\<close>

definition isspace :: "char \<Rightarrow> bool" where
  "isspace c \<longleftrightarrow> c \<in> {CHR '' '', CHR 0x09, CHR 0x0A, CHR 0x0B, CHR 0x0C, CHR 0x0D}"

definition digit_val :: "char \<Rightarrow> int" where
  "digit_val c = int (of_char c) - 48"

definition isdigit :: "char \<Rightarrow> bool" where
  "isdigit c \<longleftrightarrow> 0 \<le> digit_val c \<and> digit_val c \<le> 9"

definition digit_char :: "nat \<Rightarrow> char" where
  "digit_char d = char_of (48 + d)"

text \<open>The number at the start of a text, after white space and a sign; \<open>None\<close> if there is none.\<close>

definition number_of_digits :: "string \<Rightarrow> int" where
  "number_of_digits ds = foldl (\<lambda>n c. 10 * n + digit_val c) 0 ds"

definition parse_int :: "string \<Rightarrow> int option" where
  "parse_int s =
     (let s = dropWhile isspace s;
          (neg, s) = (case s of [] \<Rightarrow> (False, s)
             | c # cs \<Rightarrow> if c = CHR ''-'' then (True, cs) else if c = CHR ''+'' then (False, cs) else (False, s));
          ds = takeWhile isdigit s
      in if ds = [] then None
         else Some (if neg then - number_of_digits ds else number_of_digits ds))"

definition stoi :: "string \<Rightarrow> int option" where
  "stoi s =
     (case parse_int s of None \<Rightarrow> None
      | Some n \<Rightarrow> if - (2 ^ 31) \<le> n \<and> n < 2 ^ 31 then Some n else None)"

text \<open>\<open>strtol\<close> in base 10, which \<open>atoll\<close> is too: 0 without a number, saturated at the bounds of a \<open>long\<close>.\<close>

definition strtol :: "string \<Rightarrow> int" where
  "strtol s = (case parse_int s of None \<Rightarrow> 0 | Some n \<Rightarrow> max (- (2 ^ 63)) (min (2 ^ 63 - 1) n))"

text \<open>\<open>atoi\<close> is \<open>(int) strtol\<close>, which saturates at the bounds of a \<open>long\<close>.\<close>

definition atoi :: "string \<Rightarrow> int" where
  "atoi s = (case parse_int s of None \<Rightarrow> 0 | Some n \<Rightarrow> to_i32 (max (- (2 ^ 63)) (min (2 ^ 63 - 1) n)))"

fun string_of_nat :: "nat \<Rightarrow> string" where
  "string_of_nat n = (if n < 10 then [digit_char n]
     else string_of_nat (n div 10) @ [digit_char (n mod 10)])"

definition string_of_int :: "int \<Rightarrow> string" where
  "string_of_int n = (if n < 0 then CHR ''-'' # string_of_nat (nat (- n)) else string_of_nat (nat n))"

declare string_of_nat.simps [simp del]

section \<open>Round trip\<close>

lemma digit_char [simp]:
  "d < 10 \<Longrightarrow> digit_val (digit_char d) = int d" "d < 10 \<Longrightarrow> isdigit (digit_char d)"
  by (simp_all add: digit_val_def digit_char_def isdigit_def)

lemma isdigit_not_space: "isdigit c \<Longrightarrow> \<not> isspace c \<and> c \<noteq> CHR ''-'' \<and> c \<noteq> CHR ''+''"
  by (auto simp: isdigit_def digit_val_def isspace_def)

lemma string_of_nat_digits: "list_all isdigit (string_of_nat n) \<and> string_of_nat n \<noteq> []"
  by (induction n rule: string_of_nat.induct) (subst (1 2) string_of_nat.simps, simp)

lemma number_of_string_of_nat: "number_of_digits (string_of_nat n) = int n"
proof (induction n rule: string_of_nat.induct)
  case (1 n)
  show ?case
  proof (cases "n < 10")
    case False
    then have "number_of_digits (string_of_nat n) = 10 * int (n div 10) + int (n mod 10)"
      using 1 by (subst string_of_nat.simps) (simp add: number_of_digits_def)
    also have "\<dots> = int n" by presburger
    finally show ?thesis .
  qed (subst string_of_nat.simps, simp add: number_of_digits_def)
qed

lemma length_string_of_nat: "n < 10 ^ k \<Longrightarrow> 0 < k \<Longrightarrow> length (string_of_nat n) \<le> k"
proof (induction n arbitrary: k rule: string_of_nat.induct)
  case (1 n)
  show ?case
  proof (cases "n < 10")
    case False
    then obtain j where k: "k = Suc j" "0 < j" using 1(2,3) by (cases k; cases "k - 1") auto
    then have "n div 10 < 10 ^ j" using 1(2) by (simp add: less_mult_imp_div_less mult.commute)
    from 1(1)[OF False this k(2)] show ?thesis
      using False k by (subst string_of_nat.simps) simp
  qed (use 1(3) in \<open>subst string_of_nat.simps, simp\<close>)
qed

lemma takeWhile_all: "list_all P xs \<Longrightarrow> takeWhile P xs = xs"
  by (simp add: takeWhile_eq_all_conv list_all_iff)

lemma parse_int_string_of_int [simp]: "parse_int (string_of_int n) = Some n"
proof -
  obtain c cs where m: "string_of_nat (nat n) = c # cs" "isdigit c"
    using string_of_nat_digits[of "nat n"] by (cases "string_of_nat (nat n)") auto
  have all: "list_all isdigit (string_of_nat k)" "string_of_nat k \<noteq> []" for k
    using string_of_nat_digits by auto
  show ?thesis
  proof (cases "n < 0")
    case True
    then show ?thesis
      using all[of "nat (- n)"]
      by (simp add: parse_int_def string_of_int_def isspace_def takeWhile_all number_of_string_of_nat)
  next
    case False
    have "dropWhile isspace (c # cs) = c # cs" "c \<noteq> CHR ''-''" "c \<noteq> CHR ''+''"
      using isdigit_not_space[OF m(2)] by auto
    moreover have "takeWhile isdigit (c # cs) = c # cs"
      using all(1)[of "nat n"] m by (intro takeWhile_all) simp
    moreover have "number_of_digits (c # cs) = n"
      using number_of_string_of_nat[of "nat n"] m False by simp
    ultimately have "parse_int (c # cs) = Some n"
      unfolding parse_int_def by (simp only: Let_def list.case if_False prod.case list.distinct)
    then show ?thesis using m(1) False by (simp add: string_of_int_def)
  qed
qed

lemma stoi_string_of_int: "- (2 ^ 31) \<le> n \<Longrightarrow> n < 2 ^ 31 \<Longrightarrow> stoi (string_of_int n) = Some n"
  by (simp add: stoi_def)

lemma atoi_string_of_int: "- (2 ^ 31) \<le> n \<Longrightarrow> n < 2 ^ 31 \<Longrightarrow> atoi (string_of_int n) = n"
  by (simp add: atoi_def to_i32_id min_def max_def)

lemma string_of_int_inj: "string_of_int m = string_of_int n \<longleftrightarrow> m = n"
  by (metis option.inject parse_int_string_of_int)

end
