(* ===== verification/Clients.thy ===== *)
theory Clients
  imports Tcp Text
begin

text \<open>
  The configuration of \<open>common/config.h\<close>, the servers and clients of
  \<open>localBussiness/localBusiness.cpp\<close> with the task that reopens them, and the queue of
  \<open>data/ReSendQueue.cpp\<close> that sends failed alarms again. A \<open>std::map\<close> is the list of its pairs in
  key order, which is the order the loops visit.

  What the network does during one call is a record \<open>net\<close>: the outcome of \<open>sendBytes\<close> for each
  client, the threshold of the configuration and the
  clock readings.
\<close>

section \<open>Configuration\<close>

record LocalConfig =
  lc_isSendPIC :: bool
  lc_roadNum :: int
  lc_mergeMode :: int
  lc_isSaveInObj :: bool
  lc_isSaveOutObj :: bool
  lc_isSendCloud :: bool
  lc_isSaveOtherJson :: bool
  lc_isSaveRVJson :: bool
  lc_msgType :: "string list"
  lc_mode :: int
  lc_summaryFs :: int
  lc_thresholdReconnect :: int
  lc_isUseThresholdReconnect :: bool
  lc_thresholdTimeRecv :: int
  lc_isUseThresholdTimeRecv :: bool
  lc_isUseJudgeHardCode :: bool
  lc_isUseKafka :: bool

text \<open>The values before the files and the command line are read; the object is a global, so the
  members without an initialiser are 0.\<close>

definition localConfig_new :: LocalConfig where
  "localConfig_new = \<lparr>lc_isSendPIC = False, lc_roadNum = 8, lc_mergeMode = 0,
     lc_isSaveInObj = False, lc_isSaveOutObj = False, lc_isSendCloud = True,
     lc_isSaveOtherJson = False, lc_isSaveRVJson = False, lc_msgType = [], lc_mode = 0,
     lc_summaryFs = 10, lc_thresholdReconnect = 5, lc_isUseThresholdReconnect = True,
     lc_thresholdTimeRecv = 60 * 3, lc_isUseThresholdTimeRecv = True,
     lc_isUseJudgeHardCode = True, lc_isUseKafka = False\<rparr>"

definition isShowMsgType :: "LocalConfig \<Rightarrow> string \<Rightarrow> bool" where
  "isShowMsgType cfg msgType \<longleftrightarrow>
     (if lc_msgType cfg = [] then False else list_ex (\<lambda>t. t = msgType) (lc_msgType cfg))"

text \<open>The count of real-time sends; the comparison with \<open>0xffffffff\<close> is one of unsigned words.\<close>

record net_status =
  ns_total :: int
  ns_success :: int

definition net_status_new :: net_status where
  "net_status_new = \<lparr>ns_total = 0, ns_success = 0\<rparr>"

definition CalNetStatus :: "int \<Rightarrow> net_status \<Rightarrow> net_status" where
  "CalNetStatus s n =
     (if word_of_int (ns_total n) = (0xffffffff :: u32) then \<lparr>ns_total = 0, ns_success = 0\<rparr>
      else let n = n\<lparr>ns_total := to_i32 (ns_total n + 1)\<rparr>
           in if s = 0 then n\<lparr>ns_success := to_i32 (ns_success n + 1)\<rparr> else n)"

section \<open>Maps and sending through them\<close>

text \<open>\<open>std::map::insert\<close>, which keeps the old value of a key that is there.\<close>

fun map_insert :: "string \<Rightarrow> 'a \<Rightarrow> (string \<times> 'a) list \<Rightarrow> (string \<times> 'a) list" where
  "map_insert k v [] = [(k, v)]"
| "map_insert k v ((k', v') # m) =
     (if k < k' then (k, v) # (k', v') # m
      else if k = k' then (k', v') # m else (k', v') # map_insert k v m)"

type_synonym clients = "(string \<times> client) list"

record net =
  nt_send :: "string \<Rightarrow> bytes \<Rightarrow> send_result"
  nt_isUse :: bool
  nt_thr :: int
  nt_start :: u64
  nt_now1 :: u64
  nt_now2 :: u64

definition SendBase :: "net \<Rightarrow> string \<Rightarrow> Pkg \<Rightarrow> client \<Rightarrow> int \<times> client" where
  "SendBase net name pkg c = client_SendBase (nt_send net name) (nt_isUse net)
     (nt_thr net) (nt_now1 net) (nt_now2 net) pkg c"

text \<open>
  The loop over the clients that the output tasks share: send through the client called \<open>who\<close>,
  and return at once when it has to be reconnected. The results of the calls of \<open>SendBase\<close> come
  first.
\<close>

fun send_to :: "net \<Rightarrow> string \<Rightarrow> Pkg \<Rightarrow> clients \<Rightarrow> int list \<times> clients" where
  "send_to net who pkg [] = ([], [])"
| "send_to net who pkg ((name, c) # cs) =
     (if name = who then
        if cl_isNeedReconnect c then ([], (name, c) # cs)
        else let (ret, c') = SendBase net name pkg c; (rets, cs') = send_to net who pkg cs
             in (ret # rets, (name, c') # cs')
      else let (rets, cs') = send_to net who pkg cs in (rets, (name, c) # cs'))"

section \<open>The queue of messages to send again\<close>

datatype ReSendType = RESEND_TYPE_NONE | RESEND_TYPE_TIME | RESEND_TYPE_COUNT

record ReSendMsg =
  rm_pkg :: Pkg
  rm_timestampFrame :: u64
  rm_timestampInsert :: u64
  rm_timestampResend :: u64
  rm_countResend :: u64
  rm_threshold :: u64
  rm_type :: ReSendType
  rm_name :: string

record ReSendQueue =
  rq_isRun :: bool
  rq_msgQueue :: "ReSendMsg list"
  rq_max :: u64

definition ReSendQueue_stopBusiness :: "ReSendQueue \<Rightarrow> ReSendQueue" where
  "ReSendQueue_stopBusiness q = q\<lparr>rq_isRun := False\<rparr>"

definition ReSendQueue_new :: "u64 \<Rightarrow> ReSendQueue" where
  "ReSendQueue_new m = \<lparr>rq_isRun = True, rq_msgQueue = [], rq_max = m\<rparr>"

definition ReSendQueue_default :: ReSendQueue where
  "ReSendQueue_default = ReSendQueue_new (1024 * 64)"

definition ReSendQueue_add :: "u64 \<Rightarrow> ReSendMsg \<Rightarrow> ReSendQueue \<Rightarrow> int \<times> ReSendQueue" where
  "ReSendQueue_add now msg q =
     (if unat (rq_max q) \<le> length (rq_msgQueue q) then (- 1, q)
      else (0, q\<lparr>rq_msgQueue := rq_msgQueue q @ [msg\<lparr>rm_countResend := 0, rm_timestampInsert := now\<rparr>]\<rparr>))"

definition getQueueLen :: "ReSendQueue \<Rightarrow> int" where
  "getQueueLen q = to_i32 (int (length (rq_msgQueue q)))"

fun doSend :: "net \<Rightarrow> ReSendMsg \<Rightarrow> clients \<Rightarrow> int \<times> ReSendMsg \<times> clients" where
  "doSend net msg [] = (- 1, msg, [])"
| "doSend net msg ((name, c) # cs) =
     (if name = rm_name msg then
        if \<not> cl_isNeedReconnect c then
          let (ret1, c') = SendBase net name (rm_pkg msg) c
          in (if ret1 \<noteq> 0 then - 1 else 0,
              msg\<lparr>rm_timestampResend := nt_start net, rm_countResend := rm_countResend msg + 1\<rparr>,
              (name, c') # cs)
        else (- 1, msg, (name, c) # cs)
      else let (ret, msg', cs') = doSend net msg cs in (ret, msg', (name, c) # cs'))"

definition judge :: "ReSendMsg \<Rightarrow> bool" where
  "judge msg =
     (case rm_type msg of
        RESEND_TYPE_NONE \<Rightarrow> False
      | RESEND_TYPE_TIME \<Rightarrow>
          rm_threshold msg \<le> word_of_int \<bar>sint (rm_timestampResend msg) - sint (rm_timestampInsert msg)\<bar>
      | RESEND_TYPE_COUNT \<Rightarrow> rm_threshold msg \<le> rm_countResend msg)"

text \<open>
  A round of the thread: the loop from index \<open>i\<close>. It works on a copy of the message, so what
  \<open>doSend\<close> counts is not stored. \<open>net i\<close> is the network at the message of index \<open>i\<close>.
\<close>

function resend_from :: "(nat \<Rightarrow> net) \<Rightarrow> nat \<Rightarrow> ReSendMsg list \<Rightarrow> clients \<Rightarrow> ReSendMsg list \<times> clients" where
  "resend_from net i msgs cs =
     (if i < length msgs then
        let (result, iter, cs') = doSend (net i) (msgs ! i) cs;
            msgs' = (if result = 0 then take i msgs @ drop (Suc i) msgs
                     else if judge iter then take i msgs @ drop (Suc i) msgs else msgs)
        in resend_from net (Suc i) msgs' cs'
      else (msgs, cs))"
  by pat_completeness auto

termination
  by (relation "measure (\<lambda>(net, i, msgs, cs). length msgs - i)") (auto split: if_splits)

declare resend_from.simps [simp del]

definition resend_round :: "(nat \<Rightarrow> net) \<Rightarrow> ReSendQueue \<times> clients \<Rightarrow> ReSendQueue \<times> clients" where
  "resend_round net = (\<lambda>(q, cs).
     let (msgs, cs) = resend_from net 0 (rq_msgQueue q) cs in (q\<lparr>rq_msgQueue := msgs\<rparr>, cs))"

section \<open>The servers and clients\<close>

record server =
  sv_port :: int
  sv_isListen :: bool

record LocalBusiness =
  lb_isRun :: bool
  lb_serverList :: "(string \<times> server) list"
  lb_clientList :: clients

definition LocalBusiness_new :: LocalBusiness where
  "LocalBusiness_new = \<lparr>lb_isRun = False, lb_serverList = [], lb_clientList = []\<rparr>"

definition AddServer :: "string \<Rightarrow> int \<Rightarrow> LocalBusiness \<Rightarrow> LocalBusiness" where
  "AddServer name port lb =
     lb\<lparr>lb_serverList := map_insert name \<lparr>sv_port = port, sv_isListen = False\<rparr> (lb_serverList lb)\<rparr>"

text \<open>The address of the server is part of the network; \<open>buff\<close> is the content of the new buffer.\<close>

definition AddClient :: "bytes \<Rightarrow> string \<Rightarrow> LocalBusiness \<Rightarrow> LocalBusiness" where
  "AddClient buff name lb = lb\<lparr>lb_clientList := map_insert name (client_new buff) (lb_clientList lb)\<rparr>"

text \<open>\<open>bind port\<close> tells whether a server can listen, \<open>conn name\<close> what \<open>connect\<close> does.\<close>

definition LocalBusiness_Run :: "(int \<Rightarrow> bool) \<Rightarrow> (string \<Rightarrow> connect_result) \<Rightarrow> LocalBusiness \<Rightarrow>
    LocalBusiness" where
  "LocalBusiness_Run bind conn lb = lb\<lparr>
     lb_isRun := True,
     lb_serverList := map (\<lambda>(name, s). (name, s\<lparr>sv_isListen := snd (MyTcpServer_Open (bind (sv_port s)))\<rparr>))
       (lb_serverList lb),
     lb_clientList := map (\<lambda>(name, c). (name, snd (client_Run (snd (client_Open (conn name) c)))))
       (lb_clientList lb)\<rparr>"

definition Task_Keep :: "(int \<Rightarrow> bool) \<Rightarrow> (string \<Rightarrow> connect_result) \<Rightarrow> LocalBusiness \<Rightarrow> LocalBusiness" where
  "Task_Keep bind conn lb =
     (if lb_serverList lb = [] \<and> lb_clientList lb = [] then lb
      else if lb_isRun lb then lb\<lparr>
        lb_serverList := map (\<lambda>(name, s). (name,
            if \<not> sv_isListen s then s\<lparr>sv_isListen := snd (MyTcpServer_ReOpen (bind (sv_port s)))\<rparr> else s))
          (lb_serverList lb),
        lb_clientList := map (\<lambda>(name, c). (name,
            if cl_isNeedReconnect c then snd (client_Reconnect (conn name) c) else c))
          (lb_clientList lb)\<rparr>
      else lb)"

text \<open>
  The timers, each with whether its task is scheduled: only the one for \<open>Task_Keep\<close> is ever started, at the
  end of \<open>Run\<close>. The destructor stops all and gives up the servers and clients.
\<close>

record business_timers =
  bt_Keep :: bool
  bt_CreateFusionData :: bool
  bt_CreateTrafficFlowGather :: bool
  bt_CreateAbnormalStopData :: bool
  bt_CreateLongDistanceOnSolidLineAlarm :: bool
  bt_CreateHumanData :: bool

definition StartTimerTask :: "business_timers \<Rightarrow> business_timers" where
  "StartTimerTask t = t\<lparr>bt_Keep := True\<rparr>"

definition StopTimerTaskAll :: "business_timers \<Rightarrow> business_timers" where
  "StopTimerTaskAll t = t\<lparr>bt_Keep := False, bt_CreateFusionData := False, bt_CreateTrafficFlowGather := False,
     bt_CreateAbnormalStopData := False, bt_CreateLongDistanceOnSolidLineAlarm := False, bt_CreateHumanData := False\<rparr>"

definition LocalBusiness_delete :: "LocalBusiness \<Rightarrow> business_timers \<Rightarrow> LocalBusiness \<times> business_timers" where
  "LocalBusiness_delete lb t =
     (lb\<lparr>lb_isRun := False, lb_clientList := [], lb_serverList := []\<rparr>, StopTimerTaskAll t)"

section \<open>One round of sending again\<close>

text \<open>The round read off the list: after a message that leaves, the next one is not looked at.\<close>

fun resend_list :: "(nat \<Rightarrow> net) \<Rightarrow> nat \<Rightarrow> ReSendMsg list \<Rightarrow> clients \<Rightarrow> ReSendMsg list \<times> clients" where
  "resend_list net i [] cs = ([], cs)"
| "resend_list net i [m] cs =
     (let (result, iter, cs') = doSend (net i) m cs
      in (if result = 0 \<or> judge iter then [] else [m], cs'))"
| "resend_list net i (m # n # ms) cs =
     (let (result, iter, cs') = doSend (net i) m cs
      in if result = 0 \<or> judge iter
         then (let (rest, cs'') = resend_list net (Suc i) ms cs' in (n # rest, cs''))
         else (let (rest, cs'') = resend_list net (Suc i) (n # ms) cs' in (m # rest, cs'')))"

lemma resend_from_list:
  "length pre = i \<Longrightarrow> resend_from net i (pre @ ms) cs =
     (let (rest, cs') = resend_list net i ms cs in (pre @ rest, cs'))"
proof (induction net i ms cs arbitrary: pre rule: resend_list.induct)
  case (1 net i cs)
  then show ?case by (subst resend_from.simps) simp
next
  case (2 net i m cs)
  then show ?case
    by (subst resend_from.simps, subst (1) resend_from.simps) (auto simp: Let_def split: prod.split)
next
  case (3 net i m n ms cs)
  obtain r it cs' where d: "doSend (net i) m cs = (r, it, cs')" by (metis prod_cases3)
  show ?case
  proof (cases "r = 0 \<or> judge it")
    case True
    have "resend_from net i (pre @ m # n # ms) cs = resend_from net (Suc i) ((pre @ [n]) @ ms) cs'"
      using 3(3) d True by (subst resend_from.simps) (auto simp: Let_def)
    then show ?thesis
      using 3(1)[OF d[symmetric] refl refl True, of "pre @ [n]"] 3(3) d True
      by (simp add: case_prod_beta Let_def)
  next
    case False
    have "resend_from net i (pre @ m # n # ms) cs = resend_from net (Suc i) ((pre @ [m]) @ n # ms) cs'"
      using 3(3) d False by (subst resend_from.simps) (auto simp: Let_def)
    then show ?thesis
      using 3(2)[OF d[symmetric] refl refl False, of "pre @ [m]"] 3(3) d False
      by (simp add: case_prod_beta Let_def)
  qed
qed

lemma resend_round_eq:
  "resend_round net (q, cs) =
     (q\<lparr>rq_msgQueue := fst (resend_list net 0 (rq_msgQueue q) cs)\<rparr>, snd (resend_list net 0 (rq_msgQueue q) cs))"
  using resend_from_list[of "[]" 0 net "rq_msgQueue q" cs]
  by (simp add: resend_round_def case_prod_beta)

section \<open>A message stays until it has been sent\<close>

text \<open>The socket of the client called \<open>name\<close> took one whole frame that carries \<open>pkg\<close>.\<close>

definition frame_taken :: "net \<Rightarrow> string \<Rightarrow> Pkg \<Rightarrow> bool" where
  "frame_taken net name pkg \<longleftrightarrow> (\<exists>bs pkg'. nt_send net name bs = Sent (int (length bs)) \<and>
     Unpack bs (word_of_nat (length bs)) pkg = Inr (0, pkg') \<and> crc_ok pkg' \<and>
     p_head pkg' = p_head pkg \<and> p_body pkg' = p_body pkg)"

text \<open>The same frame, but the socket timed out or would have blocked: the connection is kept, the frame lost.\<close>

definition frame_timed_out :: "net \<Rightarrow> string \<Rightarrow> Pkg \<Rightarrow> bool" where
  "frame_timed_out net name pkg \<longleftrightarrow> (\<exists>bs pkg' code. nt_send net name bs = Send_threw code \<and> transient code \<and>
     Unpack bs (word_of_nat (length bs)) pkg = Inr (0, pkg') \<and> crc_ok pkg' \<and>
     p_head pkg' = p_head pkg \<and> p_body pkg' = p_body pkg)"

text \<open>A message as the alarm units queue it: to be given up after two failed attempts.\<close>

definition counted :: "ReSendMsg \<Rightarrow> bool" where
  "counted m \<longleftrightarrow> rm_type m = RESEND_TYPE_COUNT \<and> rm_countResend m = 0 \<and> 2 \<le> rm_threshold m \<and>
     15 + length (p_body (rm_pkg m)) < 2 ^ 32"

lemma SendBase_taken:
  "15 + length (p_body pkg) < 2 ^ 32 \<Longrightarrow> SendBase net name pkg c = (0, c') \<Longrightarrow> frame_taken net name pkg"
  unfolding SendBase_def frame_taken_def by (rule client_SendBase_sent)

lemma doSend_result:
  assumes "doSend net m cs = (r, it, cs')"
  shows "it = m \<or> it = m\<lparr>rm_timestampResend := nt_start net, rm_countResend := rm_countResend m + 1\<rparr>"
    and "r = 0 \<Longrightarrow> \<exists>c c'. SendBase net (rm_name m) (rm_pkg m) c = (0, c')"
  using assms
  by (induction net m cs arbitrary: r it cs' rule: doSend.induct)
    (auto simp: Let_def split: if_splits prod.splits)

lemma counted_not_judged:
  assumes "counted m" "doSend net m cs = (r, it, cs')" shows "\<not> judge it"
proof -
  have "\<not> rm_threshold m \<le> 0" "\<not> rm_threshold m \<le> 1"
    using assms(1) by (auto simp: counted_def word_le_nat_alt)
  then show ?thesis
    using doSend_result(1)[OF assms(2)] assms(1) by (auto simp: judge_def counted_def)
qed

lemma doSend_taken:
  assumes "counted m" "doSend net m cs = (0, it, cs')"
  shows "frame_taken net (rm_name m) (rm_pkg m)"
  using doSend_result(2)[OF assms(2)] SendBase_taken assms(1) by (auto simp: counted_def)

lemma resend_list_keeps:
  assumes "\<forall>m \<in> set ms. counted m" "resend_list net i ms cs = (ms', cs')"
  shows "subseq ms' ms \<and>
    (\<forall>m \<in> set ms. m \<in> set ms' \<or> (\<exists>j. frame_taken (net j) (rm_name m) (rm_pkg m)))"
  using assms
proof (induction net i ms cs arbitrary: ms' cs' rule: resend_list.induct)
  case (2 net i m cs)
  obtain r it c where d: "doSend (net i) m cs = (r, it, c)" by (metis prod_cases3)
  then show ?case
    using 2 counted_not_judged[OF _ d] doSend_taken[of m "net i" cs it c]
    by (auto split: if_splits)
next
  case (3 net i m n ms cs)
  obtain r it c where d: "doSend (net i) m cs = (r, it, c)" by (metis prod_cases3)
  have nj: "\<not> judge it" using counted_not_judged[OF _ d] 3(3) by simp
  show ?case
  proof (cases "r = 0")
    case True
    obtain rest cs2 where rest: "resend_list net (Suc i) ms c = (rest, cs2)" by fastforce
    have "frame_taken (net i) (rm_name m) (rm_pkg m)"
      using doSend_taken 3(3) d True by auto
    then show ?thesis
      using 3(1)[OF d[symmetric] refl refl _ _ rest] 3(3,4) True d rest nj by (auto simp: Let_def)
  next
    case False
    obtain rest cs2 where rest: "resend_list net (Suc i) (n # ms) c = (rest, cs2)" by fastforce
    then show ?thesis
      using 3(2)[OF d[symmetric] refl refl _ _ rest] 3(3,4) False d nj by (auto simp: Let_def)
  qed
qed simp

lemma resend_rounds_keep:
  assumes "\<forall>m \<in> set (rq_msgQueue q). counted m"
    and "fold resend_round nets (q, cs) = (q', cs')"
  shows "subseq (rq_msgQueue q') (rq_msgQueue q) \<and> (\<forall>m \<in> set (rq_msgQueue q).
    m \<in> set (rq_msgQueue q') \<or> (\<exists>net \<in> set nets. \<exists>j. frame_taken (net j) (rm_name m) (rm_pkg m)))"
  using assms
proof (induction nets arbitrary: q cs)
  case (Cons net nets)
  obtain ms c where l: "resend_list net 0 (rq_msgQueue q) cs = (ms, c)" by fastforce
  note k = resend_list_keeps[OF Cons.prems(1) l]
  then have "\<forall>m \<in> set ms. counted m" using Cons.prems(1) by (auto dest: list_emb_set)
  with Cons.IH[of "q\<lparr>rq_msgQueue := ms\<rparr>" c] Cons.prems(2) l
  have "subseq (rq_msgQueue q') ms \<and> (\<forall>m \<in> set ms.
    m \<in> set (rq_msgQueue q') \<or> (\<exists>net \<in> set nets. \<exists>j. frame_taken (net j) (rm_name m) (rm_pkg m)))"
    by (simp add: resend_round_eq)
  with k show ?case by (auto intro: subseq_order.trans)
qed simp

text \<open>
  C25. However often the thread of the queue goes round and whatever the network does, a message
  queued the way the alarm units queue theirs leaves the queue only after the socket of its client
  took its whole frame, and the others keep their order. So no alarm is dropped; nor is one ever
  given up: the two attempts of its threshold do not count, because the round counts them in a copy
  of the message.
\<close>

theorem resend_until_sent:
  assumes "\<forall>m \<in> set (rq_msgQueue q). counted m"
    and "fold resend_round nets (q, cs) = (q', cs')"
  shows "subseq (rq_msgQueue q') (rq_msgQueue q) \<and> (\<forall>m \<in> set (rq_msgQueue q).
    m \<in> set (rq_msgQueue q') \<or> (\<exists>net \<in> set nets. \<exists>j. frame_taken (net j) (rm_name m) (rm_pkg m)))"
  using assms by (rule resend_rounds_keep)

definition demo_msg :: "u16 \<Rightarrow> ReSendMsg" where
  "demo_msg sn = \<lparr>rm_pkg = PkgWithoutCRC CmdAbnormalStopData [0x7b, 0x7d] sn 1, rm_timestampFrame = 5,
     rm_timestampInsert = 6, rm_timestampResend = 0, rm_countResend = 0, rm_threshold = 2,
     rm_type = RESEND_TYPE_COUNT, rm_name = ''client2''\<rparr>"

definition demo_net :: "(bytes \<Rightarrow> send_result) \<Rightarrow> net" where
  "demo_net send = \<lparr>nt_send = (\<lambda>_. send), nt_isUse = False, nt_thr = 5,
     nt_start = 7, nt_now1 = 8, nt_now2 = 9\<rparr>"

theorem resend_until_sent_witness:
  "demo_msg 1 \<in> set (rq_msgQueue (fst (fold resend_round (replicate 5 (\<lambda>_. demo_net (\<lambda>_. Send_threw 1)))
     (ReSendQueue_default\<lparr>rq_msgQueue := [demo_msg 1]\<rparr>, [(''client2'', client_new [])]))))"
proof -
  let ?nets = "replicate 5 (\<lambda>_ :: nat. demo_net (\<lambda>_. Send_threw 1))"
    and ?q = "ReSendQueue_default\<lparr>rq_msgQueue := [demo_msg 1]\<rparr>"
  obtain q' cs' where f: "fold resend_round ?nets (?q, [(''client2'', client_new [])]) = (q', cs')"
    by fastforce
  have c: "\<forall>m \<in> set (rq_msgQueue ?q). counted m"
    by (simp add: counted_def demo_msg_def PkgWithoutCRC_def)
  show ?thesis
    using resend_until_sent[OF c f] f by (auto simp: frame_taken_def demo_net_def)
qed

section \<open>Sending again ends\<close>

text \<open>A network that takes every frame of a known client whole.\<close>

definition taking :: "net \<Rightarrow> bool" where
  "taking net \<longleftrightarrow> \<not> nt_isUse net \<and> (\<forall>name bs. nt_send net name bs = Sent (int (length bs)))"

definition ready :: "clients \<Rightarrow> string \<Rightarrow> bool" where
  "ready cs name \<longleftrightarrow> (\<exists>c. map_of cs name = Some c \<and> \<not> cl_isNeedReconnect c)"

definition sendable :: "Pkg \<Rightarrow> bool" where
  "sendable pkg \<longleftrightarrow> pkg_wf pkg \<and> 15 + length (p_body pkg) < 2 ^ 32"

lemma SendBase_ok:
  assumes "taking net" "sendable pkg" "\<not> cl_isNeedReconnect c"
  shows "\<exists>c'. SendBase net name pkg c = (0, c') \<and> \<not> cl_isNeedReconnect c'"
proof -
  have u: "unat (frame_len pkg) = 15 + length (p_body pkg)"
    using assms(2) unat_of_nat_u32[of "15 + length (p_body pkg)"]
    by (simp add: frame_len_def sizeof_defs sendable_def)
  then have l: "frame_len pkg = h_len (p_head pkg)"
    using assms(2) by (simp add: sendable_def pkg_wf_def word_unat_eq_iff)
  obtain pkg' where p: "Pack pkg (frame_len pkg) = (h_len (p_head pkg), pkg', frame_bytes pkg')"
    using Pack_wf[of pkg "frame_len pkg"] assms(2) l by (auto simp: sendable_def)
  have "h_len (p_head pkg) \<noteq> 0" using u l by (auto simp: word_unat_eq_iff)
  moreover have "length (frame_bytes pkg') = unat (h_len (p_head pkg))"
    using Pack_exact[OF _ p] calculation assms(2) by (simp add: sendable_def)
  ultimately show ?thesis
    using assms p by (simp add: SendBase_def client_SendBase_def send_outcome_def taking_def
        threshold_reconnect_def Let_def)
qed

lemma doSend_ok:
  assumes "taking net" "sendable (rm_pkg m)" "ready cs (rm_name m)"
  shows "\<exists>it cs'. doSend net m cs = (0, it, cs') \<and> (\<forall>k. ready cs k \<longrightarrow> ready cs' k)"
  using assms
proof (induction net m cs rule: doSend.induct)
  case (2 net m name c cs)
  show ?case
  proof (cases "name = rm_name m")
    case True
    then have "\<not> cl_isNeedReconnect c" using 2(4) by (simp add: ready_def)
    with SendBase_ok[OF 2(2,3) this, of name] show ?thesis
      using True by (auto simp: ready_def)
  next
    case False
    then have "ready cs (rm_name m)" using 2(4) by (simp add: ready_def)
    from 2(1)[OF False 2(2,3) this] show ?thesis using False by (auto simp: ready_def)
  qed
qed (simp add: ready_def)

lemma resend_list_halves:
  assumes "\<forall>i. taking (net i)" "\<forall>m \<in> set ms. sendable (rm_pkg m) \<and> ready cs (rm_name m)"
  shows "length (fst (resend_list net i ms cs)) = length ms div 2 \<and>
    set (fst (resend_list net i ms cs)) \<subseteq> set ms \<and>
    (\<forall>k. ready cs k \<longrightarrow> ready (snd (resend_list net i ms cs)) k)"
  using assms
proof (induction net i ms cs rule: resend_list.induct)
  case (2 net i m cs)
  then show ?case using doSend_ok[of "net i" m cs] by auto
next
  case (3 net i m n ms cs)
  obtain it c where d: "doSend (net i) m cs = (0, it, c)" and c: "\<forall>k. ready cs k \<longrightarrow> ready c k"
    using doSend_ok[of "net i" m cs] 3(3,4) by auto
  then show ?case
    using 3(1)[OF d[symmetric] refl refl _ 3(3)] 3(4) by (auto simp: Let_def case_prod_beta)
qed simp

lemma resend_rounds_empty:
  assumes "\<forall>net \<in> set nets. \<forall>i. taking (net i)"
    and "\<forall>m \<in> set (rq_msgQueue q). sendable (rm_pkg m) \<and> ready cs (rm_name m)"
    and "length (rq_msgQueue q) < 2 ^ length nets"
  shows "rq_msgQueue (fst (fold resend_round nets (q, cs))) = []"
  using assms
proof (induction nets arbitrary: q cs)
  case (Cons net nets)
  note h = resend_list_halves[of net "rq_msgQueue q" cs 0]
  show ?case using Cons h by (auto simp: resend_round_eq subset_iff)
qed simp

text \<open>
  After \<open>Task_Keep\<close> of a running server has reconnected the clients, and while the network
  takes what they send, a queue of fewer than \<open>2 ^ n\<close> well-formed messages of known clients is empty
  after \<open>n\<close> rounds. It takes that many because the loop skips the message after one that leaves:
  a round sends every other message.
\<close>

lemma resend_drains:
  assumes "lb_isRun lb"
    and "\<forall>m \<in> set (rq_msgQueue q). sendable (rm_pkg m) \<and> rm_name m \<in> fst ` set (lb_clientList lb) \<and>
      conn (rm_name m) = Connected"
    and "\<forall>net \<in> set nets. \<forall>i. taking (net i)" and "length (rq_msgQueue q) < 2 ^ length nets"
  shows "rq_msgQueue (fst (fold resend_round nets (q, lb_clientList (Task_Keep bind conn lb)))) = []"
proof (rule resend_rounds_empty[OF assms(3) _ assms(4)], rule ballI)
  fix m assume m: "m \<in> set (rq_msgQueue q)"
  let ?f = "\<lambda>name c. if cl_isNeedReconnect c then snd (client_Reconnect (conn name) c) else c"
  obtain c where "map_of (lb_clientList lb) (rm_name m) = Some c"
    using assms(2) m by (cases "map_of (lb_clientList lb) (rm_name m)") (auto simp: map_of_eq_None_iff)
  moreover have "map_of (map (\<lambda>(name, c). (name, ?f name c)) cs) k = map_option (?f k) (map_of cs k)" for cs k
    by (induction cs) auto
  moreover have "lb_clientList lb \<noteq> []" using assms(2) m by auto
  ultimately have "ready (lb_clientList (Task_Keep bind conn lb)) (rm_name m)"
    using assms(1,2) m by (simp add: ready_def Task_Keep_def client_Reconnect_def)
  then show "sendable (rm_pkg m) \<and> ready (lb_clientList (Task_Keep bind conn lb)) (rm_name m)"
    using assms(2) m by blast
qed

lemma resend_drains_witness:
  "rq_msgQueue (fst (fold resend_round (replicate 2 (\<lambda>_. demo_net (\<lambda>bs. Sent (int (length bs)))))
     (ReSendQueue_default\<lparr>rq_msgQueue := [demo_msg 1, demo_msg 2, demo_msg 3]\<rparr>,
      lb_clientList (Task_Keep (\<lambda>_. True) (\<lambda>_. Connected)
        (LocalBusiness_Run (\<lambda>_. True) (\<lambda>_. Refused) (AddClient [] ''client2'' LocalBusiness_new)))))) = []"
proof (rule resend_drains)
  show "\<forall>m \<in> set (rq_msgQueue (ReSendQueue_default\<lparr>rq_msgQueue := [demo_msg 1, demo_msg 2, demo_msg 3]\<rparr>)).
      sendable (rm_pkg m) \<and>
      rm_name m \<in> fst ` set (lb_clientList (LocalBusiness_Run (\<lambda>_. True) (\<lambda>_. Refused) (AddClient [] ''client2'' LocalBusiness_new))) \<and>
      Connected = Connected"
    by (simp add: sendable_def demo_msg_def PkgWithoutCRC_wf LocalBusiness_Run_def AddClient_def
        LocalBusiness_new_def) (simp add: PkgWithoutCRC_def)
qed (auto simp: taking_def demo_net_def LocalBusiness_Run_def)

section \<open>The statistics of sending\<close>

text \<open>
  From its start and for up to \<open>2 ^ 31 - 1\<close> sends, \<open>CalNetStatus\<close> counts the sends and those
  that returned 0.
\<close>

lemma CalNetStatus_counts:
  assumes "length rets < 2 ^ 31"
  shows "fold CalNetStatus rets net_status_new =
    \<lparr>ns_total = int (length rets), ns_success = int (length (filter (\<lambda>r. r = 0) rets))\<rparr>"
  using assms
proof (induction rets rule: rev_induct)
  case (snoc r rets)
  let ?s = "length (filter (\<lambda>r. r = 0) rets)"
  have "?s < 2 ^ 31 - 1" using snoc.prems by (intro le_less_trans[OF length_filter_le]) simp
  moreover have "word_of_int (int (length rets)) \<noteq> (0xffffffff :: u32)"
    using snoc.prems unat_of_nat_u32[of "length rets"] by (auto simp: word_unat_eq_iff)
  ultimately show ?case
    using snoc by (simp add: CalNetStatus_def Let_def to_i32_id)
qed (simp add: net_status_new_def)

end
