(* ===== verification/Units.thy ===== *)
theory Units
  imports Messages DataUnits Clients
begin

text \<open>
  The message units of \<open>data/DataUnit.cpp\<close>: one instance of the data unit template per message
  class, with its input task (choose a frame and gather it, filter it, or forward it) and its
  output task (pack the oldest output message and send it to the upstream server \<open>client2\<close>).

  A new UUID, the formatting of a local time and the attributes read from the databases are the
  record \<open>data_env\<close>. Saving JSON and picture files and the log are left out.
\<close>

section \<open>Output tasks\<close>

record data_env =
  de_uuid :: string
  de_put_time :: "int \<Rightarrow> string"
  de_plateId :: string
  de_matrixNo :: string
  de_now :: u64

text \<open>What the output tasks change outside their unit.\<close>

record world =
  w_clients :: clients
  w_resend :: ReSendQueue
  w_netStatus :: net_status

text \<open>
  The output task, which all units share up to the message class, the name of the client and what
  follows a send. \<open>None\<close> is the exception of \<open>stoi\<close>: no one catches it, and the program ends.
\<close>

definition unit_taskO :: "string \<Rightarrow> (u16 \<Rightarrow> u32 \<Rightarrow> 'o \<Rightarrow> Pkg) \<Rightarrow> ('o \<Rightarrow> Pkg \<Rightarrow> int \<Rightarrow> world \<Rightarrow> world) \<Rightarrow>
    data_env \<Rightarrow> net \<Rightarrow> ('i, 'o) data_unit \<times> world \<Rightarrow> (('i, 'o) data_unit \<times> world) option" where
  "unit_taskO who pack after env net = (\<lambda>(du, w).
     (case popO du of
        None \<Rightarrow> Some (du, w)
      | Some (item, du) \<Rightarrow>
          (case stoi (take 10 (de_matrixNo env)) of
             None \<Rightarrow> None
           | Some n \<Rightarrow>
               let pkg = pack (word_of_int (du_sn du)) (word_of_int n) item;
                   du = du\<lparr>du_sn := to_i32 (du_sn du + 1)\<rparr>;
                   (rets, cs) = send_to net who pkg (w_clients w)
               in Some (du, fold (after item pkg) rets (w\<lparr>w_clients := cs\<rparr>)))))"

text \<open>The alarm units queue a message that could not be sent.\<close>

definition resend_alarm :: "data_env \<Rightarrow> ('o \<Rightarrow> real) \<Rightarrow> 'o \<Rightarrow> Pkg \<Rightarrow> int \<Rightarrow> world \<Rightarrow> world" where
  "resend_alarm env ts item pkg ret w =
     (if ret \<noteq> 0 then
        let msg = \<lparr>rm_pkg = pkg, rm_timestampFrame = u64_of_double (ts item), rm_timestampInsert = 0,
                   rm_timestampResend = 0, rm_countResend = 0, rm_threshold = 2,
                   rm_type = RESEND_TYPE_COUNT, rm_name = ''client2''\<rparr>
        in w\<lparr>w_resend := snd (ReSendQueue_add (de_now env) msg (w_resend w))\<rparr>
      else w)"

definition no_resend :: "'o \<Rightarrow> Pkg \<Rightarrow> int \<Rightarrow> world \<Rightarrow> world" where
  "no_resend item pkg ret w = w"

definition TrafficFlowGather_taskO where
  "TrafficFlowGather_taskO enc = unit_taskO ''client2'' (TrafficFlowGather_PkgWithoutCRC enc) no_resend"

definition CrossTrafficJamAlarm_taskO where
  "CrossTrafficJamAlarm_taskO enc env =
     unit_taskO ''client2'' (CrossTrafficJamAlarm_PkgWithoutCRC enc) (resend_alarm env cj_timestamp) env"

definition IntersectionOverflowAlarm_taskO where
  "IntersectionOverflowAlarm_taskO enc env =
     unit_taskO ''client2'' (IntersectionOverflowAlarm_PkgWithoutCRC enc) (resend_alarm env io_timestamp) env"

definition InWatchData_1_3_4_taskO where
  "InWatchData_1_3_4_taskO enc = unit_taskO ''client2'' (InWatchData_1_3_4_PkgWithoutCRC enc) no_resend"

definition InWatchData_2_taskO where
  "InWatchData_2_taskO enc = unit_taskO ''client2'' (InWatchData_2_PkgWithoutCRC enc) no_resend"

definition StopLinePassData_taskO where
  "StopLinePassData_taskO enc = unit_taskO ''client2'' (StopLinePassData_PkgWithoutCRC enc) no_resend"

definition HumanData_taskO where
  "HumanData_taskO enc = unit_taskO ''client2'' (HumanDataGather_PkgWithoutCRC enc) no_resend"

definition AbnormalStopData_taskO where
  "AbnormalStopData_taskO enc env =
     unit_taskO ''client2'' (AbnormalStopData_PkgWithoutCRC enc) (resend_alarm env asd_timestamp) env"

definition LongDistanceOnSolidLineAlarm_taskO where
  "LongDistanceOnSolidLineAlarm_taskO enc =
     unit_taskO ''client2'' (LongDistanceOnSolidLineAlarm_PkgWithoutCRC enc) no_resend"

definition HumanLitPoleData_taskO where
  "HumanLitPoleData_taskO enc = unit_taskO ''client2'' (HumanLitPoleData_PkgWithoutCRC enc) no_resend"

definition TrafficDetectorStatus_taskO where
  "TrafficDetectorStatus_taskO enc = unit_taskO ''client2'' (TrafficDetectorStatus_PkgWithoutCRC enc) no_resend"

section \<open>Units that forward\<close>

definition forward_taskI :: "('i, 'i) data_unit \<Rightarrow> ('i, 'i) data_unit" where
  "forward_taskI du = runTask (TransparentTransmission (\<lambda>cur. cur)) du"

definition IntersectionOverflowAlarm_taskI :: "(IntersectionOverflowAlarm, IntersectionOverflowAlarm) data_unit \<Rightarrow> _" where
  "IntersectionOverflowAlarm_taskI = forward_taskI"

definition InWatchData_1_3_4_taskI :: "(InWatchData_1_3_4, InWatchData_1_3_4) data_unit \<Rightarrow> _" where
  "InWatchData_1_3_4_taskI = forward_taskI"

definition InWatchData_2_taskI :: "(InWatchData_2, InWatchData_2) data_unit \<Rightarrow> _" where
  "InWatchData_2_taskI = forward_taskI"

definition StopLinePassData_taskI :: "(StopLinePassData, StopLinePassData) data_unit \<Rightarrow> _" where
  "StopLinePassData_taskI = forward_taskI"

definition AbnormalStopData_taskI :: "(AbnormalStopData, AbnormalStopData) data_unit \<Rightarrow> _" where
  "AbnormalStopData_taskI = forward_taskI"

definition LongDistanceOnSolidLineAlarm_taskI ::
    "(LongDistanceOnSolidLineAlarm, LongDistanceOnSolidLineAlarm) data_unit \<Rightarrow> _" where
  "LongDistanceOnSolidLineAlarm_taskI = forward_taskI"

definition TrafficDetectorStatus_taskI :: "(TrafficDetectorStatus, TrafficDetectorStatus) data_unit \<Rightarrow> _" where
  "TrafficDetectorStatus_taskI = forward_taskI"

section \<open>Traffic flow\<close>

definition getMaxQueueLenByLaneCode :: "OneFlowData list \<Rightarrow> OneFlowData list" where
  "getMaxQueueLenByLaneCode v =
     (let isRef = (\<lambda>i. \<not> list_ex (\<lambda>j. i \<noteq> j \<and>
             ofd_laneCode (v ! i) = ofd_laneCode (v ! j) \<and> ofd_queueLen (v ! i) < ofd_queueLen (v ! j))
           [0..<length v]);
          indices = filter isRef [0..<length v]
      in map (\<lambda>i. v ! i) indices)"

definition TrafficFlowGather_TaskProcessOneFrame :: "data_env \<Rightarrow> (TrafficFlow, TrafficFlowGather) data_unit \<Rightarrow>
    (TrafficFlow, TrafficFlowGather) data_unit" where
  "TrafficFlowGather_TaskProcessOneFrame env du =
     (let ts = double_of_u64 (du_curTimestamp du);
          item = TrafficFlowGather_new\<lparr>
            tg_oprNum := de_uuid env, tg_timestamp := ts, tg_crossID := de_plateId env,
            tg_recordDateTime := de_put_time env (i64_of_double (ts / 1000)),
            tg_trafficFlow := getMaxQueueLenByLaneCode (concat (map tf_flowData (du_oneFrame du)))\<rparr>
      in snd (pushO item du))"

definition TrafficFlowGather_FindOneFrame where
  "TrafficFlowGather_FindOneFrame env offset du =
     (let (ret, du) = FindOneFrame tf_timestamp TrafficFlow_new offset du
      in if ret = 0 then TrafficFlowGather_TaskProcessOneFrame env du else du)"

definition TrafficFlowGather_taskI where
  "TrafficFlowGather_taskI env du =
     runTask (TrafficFlowGather_FindOneFrame env (du_cache du div 2)) du"

section \<open>Traffic jam alarms\<close>

text \<open>The state is the global variable \<open>alarmStatus\<close>, whose first value is \<open>-1\<close>.\<close>

definition jam_step :: "CrossTrafficJamAlarm \<Rightarrow> int \<times> CrossTrafficJamAlarm queue \<Rightarrow>
    int \<times> CrossTrafficJamAlarm queue" where
  "jam_step cur = (\<lambda>(alarmStatus, oq).
     if alarmStatus = - 1 then (cj_alarmStatus cur, snd (queue_push cur oq))
     else if alarmStatus \<noteq> cj_alarmStatus cur then (cj_alarmStatus cur, snd (queue_push cur oq))
     else (alarmStatus, oq))"

definition CrossTrafficJamAlarm_specialBusiness ::
    "int \<times> (CrossTrafficJamAlarm, CrossTrafficJamAlarm) data_unit \<Rightarrow> _" where
  "CrossTrafficJamAlarm_specialBusiness = (\<lambda>(alarmStatus, du). drain_inputs jam_step alarmStatus du)"

text \<open>\<open>runTask\<close> for a task that also uses state outside the unit.\<close>

definition runTask_with :: "('s \<times> ('i, 'o) data_unit \<Rightarrow> 's \<times> ('i, 'o) data_unit) \<Rightarrow>
    's \<times> ('i, 'o) data_unit \<Rightarrow> 's \<times> ('i, 'o) data_unit" where
  "runTask_with task = (\<lambda>(s, du).
     let (maxSize, maxSizeIndex) = max_size_index (du_iq du) in
     if du_cache du \<le> int maxSize
     then task (s, if du_maxSizeIndex du = - 1 then du\<lparr>du_maxSizeIndex := int maxSizeIndex\<rparr> else du)
     else (s, du))"

definition CrossTrafficJamAlarm_taskI where
  "CrossTrafficJamAlarm_taskI = runTask_with CrossTrafficJamAlarm_specialBusiness"

section \<open>Pedestrians\<close>

definition HumanData_gather :: "HumanData \<Rightarrow> HumanDataGather" where
  "HumanData_gather cur =
     (let item1 = HumanDataGather_deviceListItem_new\<lparr>
            hgd_direction := hud_direction cur, hgd_deviceCode := [], hgd_humanType := 0,
            hgd_humanNum := 0, hgd_bicycleNum := 0\<rparr>;
          item1 = fold (\<lambda>iter1 item1. item1\<lparr>
              hgd_humanNum := to_i32 (hgd_humanNum item1 + hda_humanNum iter1),
              hgd_bicycleNum := to_i32 (hgd_bicycleNum item1 + hda_bicycleNum iter1),
              hgd_humanType := hda_humanType iter1\<rparr>)
            (hud_areaList cur) item1
      in HumanDataGather_new\<lparr>
           hdg_oprNum := hud_oprNum cur, hdg_timestamp := hud_timestamp cur,
           hdg_crossID := hud_crossID cur, hdg_hardCode := hud_hardCode cur,
           hdg_deviceList := [item1]\<rparr>)"

definition HumanData_specialBusiness :: "(HumanData, HumanDataGather) data_unit \<Rightarrow> _" where
  "HumanData_specialBusiness du =
     snd (drain_inputs (\<lambda>cur (s, oq). (s, snd (queue_push (HumanData_gather cur) oq))) () du)"

definition HumanData_taskI where
  "HumanData_taskI du = runTask HumanData_specialBusiness du"

text \<open>A pair of related areas, and what is gathered for it.\<close>

definition lit_pole_pair :: "HumanLitPoleData list \<Rightarrow> string list \<Rightarrow> HumanLitPoleData_deviceListItem" where
  "lit_pole_pair frame pair =
     (let item1 = fold (\<lambda>iter1. fold (\<lambda>iter2 item1.
              if take 2 (hld_zebraCrossingCode iter2) \<in> set pair then
                let item1 = item1\<lparr>
                      hld_humanNum := to_i32 (hld_humanNum item1 + hld_humanNum iter2),
                      hld_waitingTime := (if hld_waitingTime iter2 > hld_waitingTime item1
                                          then hld_waitingTime iter2 else hld_waitingTime item1)\<rparr>
                in if hld_imageData item1 = [] then item1\<lparr>hld_imageData := hld_imageData iter2\<rparr> else item1
              else item1) (hlp_deviceList iter1)) frame HumanLitPoleData_deviceListItem_new
      in item1\<lparr>hld_zebraCrossingCode := hd pair\<rparr>)"

definition HumanLitPoleData_TaskProcessOneFrame :: "string list list \<Rightarrow> data_env \<Rightarrow>
    (HumanLitPoleData, HumanLitPoleData) data_unit \<Rightarrow> (HumanLitPoleData, HumanLitPoleData) data_unit" where
  "HumanLitPoleData_TaskProcessOneFrame pairs env du =
     (let lst = concat pairs;
          single = concat (map (\<lambda>iter. filter (\<lambda>iter1. take 2 (hld_zebraCrossingCode iter1) \<notin> set lst)
                     (hlp_deviceList iter)) (du_oneFrame du));
          item = HumanLitPoleData_new\<lparr>
            hlp_oprNum := de_uuid env, hlp_timestamp := double_of_u64 (du_curTimestamp du),
            hlp_crossID := de_plateId env, hlp_hardCode := de_matrixNo env,
            hlp_deviceList := single @ map (lit_pole_pair (du_oneFrame du)) pairs\<rparr>
      in snd (pushO item du))"

text \<open>\<open>getRelatedAreasPairs\<close>: the two pavement names of each configured area.\<close>

definition getRelatedAreasPairs :: "(string \<times> string) list \<Rightarrow> string list list" where
  "getRelatedAreasPairs areas = map (\<lambda>(PavementName, PavementName2). [PavementName, PavementName2]) areas"

definition HumanLitPoleData_FindOneFrame where
  "HumanLitPoleData_FindOneFrame areas env offset du =
     (let (ret, du) = FindOneFrame hlp_timestamp HumanLitPoleData_new offset du
      in if ret = 0 then HumanLitPoleData_TaskProcessOneFrame (getRelatedAreasPairs areas) env du else du)"

definition HumanLitPoleData_taskI where
  "HumanLitPoleData_taskI areas env du =
     runTask (HumanLitPoleData_FindOneFrame areas env (du_cache du div 2)) du"

section \<open>Lemmas on the input tasks\<close>

lemma runTask_with_unit: "runTask task du = snd (runTask_with (\<lambda>(s, du). (s, task du)) ((), du))"
  by (simp add: runTask_def runTask_with_def Let_def split: prod.split)

lemma getMax_filter:
  "getMaxQueueLenByLaneCode v = filter (\<lambda>x. \<forall>y \<in> set v. ofd_laneCode y = ofd_laneCode x \<longrightarrow>
     ofd_queueLen y \<le> ofd_queueLen x) v"
proof -
  have "(\<not> list_ex (\<lambda>j. i \<noteq> j \<and> ofd_laneCode (v ! i) = ofd_laneCode (v ! j) \<and>
      ofd_queueLen (v ! i) < ofd_queueLen (v ! j)) [0..<length v]) =
    (\<forall>y \<in> set v. ofd_laneCode y = ofd_laneCode (v ! i) \<longrightarrow> ofd_queueLen y \<le> ofd_queueLen (v ! i))" for i
    by (auto simp: list_ex_iff all_set_conv_all_nth not_less)
      (metis atLeastLessThan_iff le0 order.refl)+
  then show ?thesis
    unfolding getMaxQueueLenByLaneCode_def Let_def
    using filter_upt_nth[of v "\<lambda>x. \<forall>y \<in> set v. ofd_laneCode y = ofd_laneCode x \<longrightarrow>
      ofd_queueLen y \<le> ofd_queueLen x"] by simp
qed

lemma max_in_class:
  fixes g :: "'a \<Rightarrow> int"
  assumes "finite A" "x \<in> A"
  shows "\<exists>z \<in> A. f z = f x \<and> (\<forall>y \<in> A. f y = f z \<longrightarrow> g y \<le> g z)"
proof -
  let ?B = "{y \<in> A. f y = f x}"
  have "finite ?B" "?B \<noteq> {}" using assms by auto
  then have "Max (g ` ?B) \<in> g ` ?B" by (intro Max_in) auto
  then obtain z where "Max (g ` ?B) = g z" "z \<in> ?B" by (rule imageE)
  moreover have "g y \<le> Max (g ` ?B)" if "y \<in> ?B" for y
    using \<open>finite ?B\<close> that by (intro Max_ge) auto
  ultimately show ?thesis by auto
qed

text \<open>
  C35. \<open>getMaxQueueLenByLaneCode\<close> keeps, in their order, exactly the records whose queue is the
  longest of their lane, and every lane of the input is still there. Records of one lane that tie
  for the longest queue all stay.
\<close>

theorem flow_longest_queues:
  "getMaxQueueLenByLaneCode v = filter (\<lambda>x. \<forall>y \<in> set v. ofd_laneCode y = ofd_laneCode x \<longrightarrow>
     ofd_queueLen y \<le> ofd_queueLen x) v \<and>
   ofd_laneCode ` set (getMaxQueueLenByLaneCode v) = ofd_laneCode ` set v"
proof -
  have "\<exists>z \<in> set v. ofd_laneCode z = ofd_laneCode x \<and>
      (\<forall>y \<in> set v. ofd_laneCode y = ofd_laneCode z \<longrightarrow> ofd_queueLen y \<le> ofd_queueLen z)"
    if "x \<in> set v" for x
    using that by (intro max_in_class) auto
  then show ?thesis unfolding getMax_filter by (fastforce simp: image_iff)
qed

theorem flow_longest_queues_witness:
  "map ofd_queueLen (getMaxQueueLenByLaneCode
     [OneFlowData_new\<lparr>ofd_laneCode := ''1'', ofd_queueLen := 3\<rparr>, OneFlowData_new\<lparr>ofd_laneCode := ''2'', ofd_queueLen := 4\<rparr>,
      OneFlowData_new\<lparr>ofd_laneCode := ''1'', ofd_queueLen := 5\<rparr>]) = [4, 5]"
  using flow_longest_queues[of "[OneFlowData_new\<lparr>ofd_laneCode := ''1'', ofd_queueLen := 3\<rparr>,
     OneFlowData_new\<lparr>ofd_laneCode := ''2'', ofd_queueLen := 4\<rparr>, OneFlowData_new\<lparr>ofd_laneCode := ''1'', ofd_queueLen := 5\<rparr>]"]
  by simp

section \<open>Traffic jam alarms are reported on change\<close>

text \<open>A message is reported after one with another status, or where the remembered status is the first value.\<close>

definition status_new :: "int \<Rightarrow> CrossTrafficJamAlarm \<Rightarrow> bool" where
  "status_new st m \<longleftrightarrow> st = - 1 \<or> cj_alarmStatus m \<noteq> st"

fun status_changes :: "int \<Rightarrow> CrossTrafficJamAlarm list \<Rightarrow> CrossTrafficJamAlarm list" where
  "status_changes st [] = []"
| "status_changes st (m # ms) =
     (if status_new st m then m # status_changes (cj_alarmStatus m) ms
      else status_changes (cj_alarmStatus m) ms)"

lemma jam_fold:
  "fold jam_step ms (st, oq) =
    (if ms = [] then st else cj_alarmStatus (last ms),
     fold (\<lambda>x q. snd (queue_push x q)) (status_changes st ms) oq)"
  by (induction ms arbitrary: st oq) (auto simp: jam_step_def status_new_def)

lemma status_changes_nth:
  "status_changes st ms = map (nth ms) (filter (\<lambda>i. status_new
     (if i = 0 then st else cj_alarmStatus (ms ! (i - 1))) (ms ! i)) [0..<length ms])"
proof (induction ms arbitrary: st)
  case (Cons m ms)
  have split: "[0..<length (m # ms)] = 0 # map Suc [0..<length ms]"
    by (simp add: upt_conv_Cons map_Suc_upt del: upt_Suc)
  have "filter (\<lambda>i. status_new (if i = 0 then st else cj_alarmStatus ((m # ms) ! (i - 1))) ((m # ms) ! i)) (map Suc [0..<length ms]) =
    map Suc (filter (\<lambda>i. status_new (if i = 0 then cj_alarmStatus m else cj_alarmStatus (ms ! (i - 1))) (ms ! i)) [0..<length ms])"
    unfolding filter_map by (intro arg_cong[where f = "map Suc"] filter_cong) (auto simp: nth_Cons split: nat.split)
  then show ?case
    unfolding split using Cons.IH[of "cj_alarmStatus m"]
    by (cases "status_new st m") (simp_all add: comp_def)
qed simp

lemma jam_business:
  assumes "du_wf du" "ms = concat (map v_items (du_iq du))"
    and "CrossTrafficJamAlarm_specialBusiness (st, du) = (st', du')"
  shows "st' = (if ms = [] then st else cj_alarmStatus (last ms)) \<and>
    q_items (du_oq du') = take (size_of_int (du_cap du)) (q_items (du_oq du) @ status_changes st ms) \<and>
    (\<forall>v \<in> set (du_iq du'). v_items v = [])"
  using assms queue_push_all[of "du_oq du" "status_changes st ms"] jam_fold[of ms st "du_oq du"]
  by (auto simp: CrossTrafficJamAlarm_specialBusiness_def drain_inputs_eq du_wf_def simp del: take_append)

text \<open>
  C34. The input task of the traffic jam alarms takes the messages of all caches in order, which leaves the
  caches empty, and reports the changes: a message is reported exactly if its status differs from that of the
  message before, for the first one from the status remembered, or if that status is \<open>-1\<close>, the value that
  stands for none yet. The messages to report are queued in order, the first ones as far as the output queue
  has room. The last status is remembered.
\<close>

theorem jam_reports_changes:
  assumes "du_wf du" and "ms = concat (map v_items (du_iq du))"
    and "CrossTrafficJamAlarm_specialBusiness (st, du) = (st', du')"
  shows "st' = (if ms = [] then st else cj_alarmStatus (last ms)) \<and>
    q_items (du_oq du') = take (size_of_int (du_cap du)) (q_items (du_oq du) @
      map (nth ms) (filter (\<lambda>i. let before = (if i = 0 then st else cj_alarmStatus (ms ! (i - 1)))
        in before = - 1 \<or> cj_alarmStatus (ms ! i) \<noteq> before) [0..<length ms])) \<and>
    (\<forall>v \<in> set (du_iq du'). v_items v = [])"
  using jam_business[OF assms] unfolding status_changes_nth status_new_def Let_def .

definition demo_jam :: "int list list \<Rightarrow> (CrossTrafficJamAlarm, CrossTrafficJamAlarm) data_unit" where
  "demo_jam sts = (let du = setCapNumI 10 2 CrossTrafficJamAlarm_new data_unit_new in
     du\<lparr>du_iq := map (\<lambda>ss. \<lparr>v_items = map (\<lambda>s. CrossTrafficJamAlarm_new\<lparr>cj_alarmStatus := s\<rparr>) ss,
        v_max = 10, v_isSetMax = True\<rparr>) sts\<rparr>)"

lemma demo_jam_wf: "length sts = 2 \<Longrightarrow> \<forall>ss \<in> set sts. length ss \<le> 10 \<Longrightarrow> du_wf (demo_jam sts)"
  by (auto simp: demo_jam_def du_wf_def setCapNumI_def data_unit_new_def vector_wf_def
      queue_setMax_def queue_new_def queue_wf_def)

lemma demo_jam_simps [simp]:
  "concat (map v_items (du_iq (demo_jam sts))) =
     map (\<lambda>s. CrossTrafficJamAlarm_new\<lparr>cj_alarmStatus := s\<rparr>) (concat sts)"
  "q_items (du_oq (demo_jam sts)) = []" "du_cap (demo_jam sts) = 10"
  by (simp_all add: demo_jam_def setCapNumI_def data_unit_new_def queue_setMax_def queue_new_def
      map_concat comp_def)

theorem jam_reports_changes_witness:
  "map cj_alarmStatus (q_items (du_oq (snd (CrossTrafficJamAlarm_specialBusiness
     (- 1, demo_jam [[0, 0, 1], [1, 0]]))))) = [0, 1, 0]"
proof -
  obtain st' du' where r: "CrossTrafficJamAlarm_specialBusiness (- 1, demo_jam [[0, 0, 1], [1, 0]]) = (st', du')"
    by fastforce
  from jam_reports_changes[OF demo_jam_wf refl r] r show ?thesis
    by (simp add: upt_rec)
qed

text \<open>
  The remembered status is one for all devices. Two devices that each go on reporting the
  status they always reported, one a jam and one none, are both reported in every round.
\<close>
lemma jam_mixes_devices:
  assumes "du_wf du" and "map v_items (du_iq du) = [[m1], [m2]]"
    and "cj_alarmStatus m1 \<noteq> cj_alarmStatus m2" and "cj_alarmStatus m1 \<noteq> - 1" "cj_alarmStatus m2 \<noteq> - 1"
    and "CrossTrafficJamAlarm_specialBusiness (cj_alarmStatus m2, du) = (st', du')"
  shows "st' = cj_alarmStatus m2 \<and>
    q_items (du_oq du') = take (size_of_int (du_cap du)) (q_items (du_oq du) @ [m1, m2])"
  using jam_business[OF assms(1) refl assms(6)] assms(2-5)
  by (simp add: status_new_def)

theorem jam_mixes_devices_witness:
  "map cj_alarmStatus (q_items (du_oq (snd (CrossTrafficJamAlarm_specialBusiness (0, demo_jam [[1], [0]]))))) = [1, 0]"
proof -
  let ?m = "\<lambda>s. CrossTrafficJamAlarm_new\<lparr>cj_alarmStatus := s\<rparr>"
  obtain st' du' where r:
    "CrossTrafficJamAlarm_specialBusiness (cj_alarmStatus (?m 0), demo_jam [[1], [0]]) = (st', du')"
    by fastforce
  have "map v_items (du_iq (demo_jam [[1], [0]])) = [[?m 1], [?m 0]]" by (simp add: demo_jam_def)
  from jam_mixes_devices[OF demo_jam_wf this _ _ _ r] r show ?thesis by simp
qed

section \<open>Pedestrian data\<close>

lemma to_i32_add: "to_i32 (to_i32 a + b) = to_i32 (a + b)"
  by (simp add: to_i32_def)

lemma fold_sum_i32: "fold (\<lambda>x s. to_i32 (s + f x)) xs (to_i32 s) = to_i32 (s + sum_list (map f xs))"
proof (induction xs arbitrary: s)
  case (Cons x xs)
  then show ?case using Cons.IH[of "s + f x"] by (simp add: to_i32_add add.assoc)
qed simp

lemma to_i32_0 [simp]: "to_i32 0 = 0" by (simp add: to_i32_def)

lemma human_fold:
  "fold (\<lambda>iter1 item1. item1\<lparr>
      hgd_humanNum := to_i32 (hgd_humanNum item1 + hda_humanNum iter1),
      hgd_bicycleNum := to_i32 (hgd_bicycleNum item1 + hda_bicycleNum iter1),
      hgd_humanType := hda_humanType iter1\<rparr>) as item =
   item\<lparr>hgd_humanNum := fold (\<lambda>a s. to_i32 (s + hda_humanNum a)) as (hgd_humanNum item),
        hgd_bicycleNum := fold (\<lambda>a s. to_i32 (s + hda_bicycleNum a)) as (hgd_bicycleNum item),
        hgd_humanType := (if as = [] then hgd_humanType item else hda_humanType (last as))\<rparr>"
  by (induction "as" arbitrary: item) auto

text \<open>
  Every cached pedestrian message becomes one gathered message of one device, in order and as
  far as the queue has room, that carries the sums over its areas of the people and the bicycles and
  the type of its last area.
\<close>
lemma human_sums:
  assumes "du_wf du"
  shows "q_items (du_oq (HumanData_specialBusiness du)) = take (size_of_int (du_cap du))
      (q_items (du_oq du) @ map HumanData_gather (concat (map v_items (du_iq du)))) \<and>
    hdg_oprNum (HumanData_gather cur) = hud_oprNum cur \<and>
    hdg_timestamp (HumanData_gather cur) = hud_timestamp cur \<and>
    (\<exists>d. hdg_deviceList (HumanData_gather cur) = [d] \<and> hgd_direction d = hud_direction cur \<and>
       hgd_humanNum d = to_i32 (sum_list (map hda_humanNum (hud_areaList cur))) \<and>
       hgd_bicycleNum d = to_i32 (sum_list (map hda_bicycleNum (hud_areaList cur))) \<and>
       (hud_areaList cur \<noteq> [] \<longrightarrow> hgd_humanType d = hda_humanType (last (hud_areaList cur))))"
proof -
  have "HumanData_specialBusiness du = TransparentTransmission HumanData_gather du"
    by (simp add: HumanData_specialBusiness_def TransparentTransmission_def)
  moreover have "q_items (du_oq (TransparentTransmission HumanData_gather du)) = take (size_of_int (du_cap du))
      (q_items (du_oq du) @ map HumanData_gather (concat (map v_items (du_iq du))))"
    using assms queue_push_all[of "du_oq du"]
    by (auto simp: TransparentTransmission_eq du_wf_def simp del: take_append)
  ultimately show ?thesis
    using fold_sum_i32[of _ "hud_areaList cur" 0]
    by (simp add: HumanData_gather_def human_fold Let_def del: take_append)
qed

theorem human_sums_witness:
  "\<exists>d. hdg_deviceList (HumanData_gather (HumanData_new\<lparr>hud_areaList :=
      [HumanData_areaListItem_new\<lparr>hda_humanNum := 2\<rparr>, HumanData_areaListItem_new\<lparr>hda_humanNum := 3\<rparr>]\<rparr>)) = [d] \<and>
    hgd_humanNum d = 5"
proof -
  have "du_wf (setCapNumI 10 2 HumanData_new data_unit_new :: (HumanData, HumanDataGather) data_unit)"
    by (rule du_wf_setCapNumI) simp
  from human_sums[OF this, of "HumanData_new\<lparr>hud_areaList :=
      [HumanData_areaListItem_new\<lparr>hda_humanNum := 2\<rparr>, HumanData_areaListItem_new\<lparr>hda_humanNum := 3\<rparr>]\<rparr>"]
  show ?thesis by (auto simp: to_i32_id)
qed

section \<open>Light pole data\<close>

text \<open>What a pair of areas should yield from the devices whose crossing code it names.\<close>

definition pair_summary :: "HumanLitPoleData_deviceListItem list \<Rightarrow> string list \<Rightarrow>
    HumanLitPoleData_deviceListItem" where
  "pair_summary ds pair =
     (let ms = filter (\<lambda>d. take 2 (hld_zebraCrossingCode d) \<in> set pair) ds in
      HumanLitPoleData_deviceListItem_new\<lparr>
        hld_zebraCrossingCode := hd pair,
        hld_humanNum := to_i32 (sum_list (map hld_humanNum ms)),
        hld_waitingTime := Max (insert 0 (hld_waitingTime ` set ms)),
        hld_imageData := (case find (\<lambda>d. hld_imageData d \<noteq> []) ms of None \<Rightarrow> [] | Some d \<Rightarrow> hld_imageData d)\<rparr>)"

lemma fold_nested: "fold (\<lambda>x. fold f (g x)) xs s = fold f (concat (map g xs)) s"
  by (induction xs arbitrary: s) auto

lemma fold_cond: "fold (\<lambda>x s. if P x then f x s else s) xs s = fold f (filter P xs) s"
  by (induction xs arbitrary: s) auto

lemma lit_fold:
  "fold (\<lambda>iter2 item1.
      let item1 = item1\<lparr>
            hld_humanNum := to_i32 (hld_humanNum item1 + hld_humanNum iter2),
            hld_waitingTime := (if hld_waitingTime iter2 > hld_waitingTime item1
                                then hld_waitingTime iter2 else hld_waitingTime item1)\<rparr>
      in if hld_imageData item1 = [] then item1\<lparr>hld_imageData := hld_imageData iter2\<rparr> else item1) ms item =
   item\<lparr>hld_humanNum := fold (\<lambda>d s. to_i32 (s + hld_humanNum d)) ms (hld_humanNum item),
        hld_waitingTime := Max (insert (hld_waitingTime item) (hld_waitingTime ` set ms)),
        hld_imageData := (if hld_imageData item \<noteq> [] then hld_imageData item
          else case find (\<lambda>d. hld_imageData d \<noteq> []) ms of None \<Rightarrow> [] | Some d \<Rightarrow> hld_imageData d)\<rparr>"
proof (induction ms arbitrary: item)
  case (Cons d ms)
  have m: "Max (insert (if a < b then b else a) S) = Max (insert a (insert b S))" if "finite S" for a b and S :: "int set"
    using that by (cases "S = {}") (auto simp: max_def)
  show ?case unfolding fold_Cons comp_def Cons.IH by (auto simp: m Let_def)
qed simp

lemma lit_pole_pair_eq: "lit_pole_pair frame pair = pair_summary (concat (map hlp_deviceList frame)) pair"
  unfolding lit_pole_pair_def pair_summary_def fold_nested fold_cond lit_fold
  using fold_sum_i32[of hld_humanNum "filter (\<lambda>d. take 2 (hld_zebraCrossingCode d) \<in> set pair)
    (concat (map hlp_deviceList frame))" 0]
  by (simp add: HumanLitPoleData_deviceListItem_new_def Let_def)

text \<open>
  The light pole units gather one message per frame: first the devices whose crossing is in no
  configured pair, unchanged and in order, then one entry per pair, with the sum of the people
  waiting at its devices, the longest of their waiting times and the first of their pictures. It is
  queued if there is room.
\<close>
lemma lit_pole_gathers:
  assumes "du_wf du"
  shows "\<exists>item. q_items (du_oq (HumanLitPoleData_TaskProcessOneFrame pairs env du)) =
      take (size_of_int (du_cap du)) (q_items (du_oq du) @ [item]) \<and>
    hlp_timestamp item = double_of_u64 (du_curTimestamp du) \<and>
    hlp_deviceList item =
      filter (\<lambda>d. \<forall>pair \<in> set pairs. take 2 (hld_zebraCrossingCode d) \<notin> set pair)
        (concat (map hlp_deviceList (du_oneFrame du))) @
      map (pair_summary (concat (map hlp_deviceList (du_oneFrame du)))) pairs"
proof -
  have f: "concat (map (\<lambda>iter. filter P (hlp_deviceList iter)) frame) =
      filter P (concat (map hlp_deviceList frame))" for P frame
    by (induction frame) auto
  have o: "q_items (du_oq (snd (pushO item du))) = take (size_of_int (du_cap du)) (q_items (du_oq du) @ [item])" for item
    using assms queue_push_all[of "du_oq du" "[item]"] by (auto simp: pushO_def du_wf_def split: prod.split)
  show ?thesis
    unfolding HumanLitPoleData_TaskProcessOneFrame_def Let_def f o
    by (intro exI conjI refl) (auto simp: lit_pole_pair_eq intro!: filter_cong)
qed

definition demo_poles :: "(HumanLitPoleData, HumanLitPoleData) data_unit" where
  "demo_poles = (setCapNumI 3 1 HumanLitPoleData_new data_unit_new)\<lparr>du_oneFrame :=
     [HumanLitPoleData_new\<lparr>hlp_deviceList :=
        [HumanLitPoleData_deviceListItem_new\<lparr>hld_zebraCrossingCode := ''10a'', hld_humanNum := 2, hld_waitingTime := 7\<rparr>,
         HumanLitPoleData_deviceListItem_new\<lparr>hld_zebraCrossingCode := ''11'', hld_humanNum := 3, hld_waitingTime := 4\<rparr>,
         HumanLitPoleData_deviceListItem_new\<lparr>hld_zebraCrossingCode := ''12'', hld_humanNum := 9\<rparr>]\<rparr>]\<rparr>"

definition demo_env :: data_env where
  "demo_env = \<lparr>de_uuid = ''u'', de_put_time = (\<lambda>_. []), de_plateId = ''p'', de_matrixNo = ''0123456789'', de_now = 5\<rparr>"

theorem lit_pole_gathers_witness:
  "map (\<lambda>d. (hld_zebraCrossingCode d, hld_humanNum d, hld_waitingTime d))
     (hlp_deviceList (hd (q_items (du_oq (HumanLitPoleData_TaskProcessOneFrame
       (getRelatedAreasPairs [(''10'', ''11'')]) demo_env demo_poles))))) = [(''12'', 9, 0), (''10'', 5, 7)]"
proof -
  have "du_wf demo_poles"
    using du_wf_setCapNumI[of 1 3 HumanLitPoleData_new]
    by (simp add: demo_poles_def du_wf_def setCapNumI_def vec_resize_def data_unit_new_def)
  from lit_pole_gathers[OF this, of "[[''10'', ''11'']]" demo_env] show ?thesis
    by (auto simp: demo_poles_def setCapNumI_def data_unit_new_def queue_setMax_def queue_new_def
        pair_summary_def getRelatedAreasPairs_def HumanLitPoleData_deviceListItem_new_def to_i32_id)
qed

section \<open>Output\<close>

lemma send_to_absent: "who \<notin> fst ` set cs \<Longrightarrow> send_to net who pkg cs = ([], cs)"
  by (induction cs) auto

lemma send_to_once:
  "distinct (map fst cs) \<Longrightarrow> ready cs who \<Longrightarrow>
     \<exists>ret c c' cs'. send_to net who pkg cs = ([ret], cs') \<and> SendBase net who pkg c = (ret, c')"
proof (induction cs)
  case (Cons x cs)
  obtain name c where x: "x = (name, c)" by fastforce
  show ?case
  proof (cases "name = who")
    case True
    obtain r c' where "SendBase net who pkg c = (r, c')" by fastforce
    then show ?thesis
      using Cons.prems x True send_to_absent[of who cs] by (auto simp: ready_def)
  next
    case False
    then show ?thesis using Cons x by (fastforce simp: ready_def)
  qed
qed (simp add: ready_def)

lemma send_to_down:
  "distinct (map fst cs) \<Longrightarrow> map_of cs who = Some c \<Longrightarrow> cl_isNeedReconnect c \<Longrightarrow>
     send_to net who pkg cs = ([], cs)"
  by (induction cs) (auto split: if_splits)

lemmas alarm_taskO_defs =
  CrossTrafficJamAlarm_taskO_def IntersectionOverflowAlarm_taskO_def AbnormalStopData_taskO_def

text \<open>
  C19. While the upstream server is connected and the resend queue has room, the output task of an alarm unit
  takes the oldest alarm and packs it, and either the socket takes the whole frame or the packed alarm is
  the new last entry of the resend queue. That is so with a device number whose first ten characters \<open>stoi\<close>
  reads; with any other the exception of \<open>stoi\<close> ends the program, when the alarm has been taken.
\<close>

theorem alarm_sent_or_queued:
  assumes "popO du = Some (item, du1)"
    and "distinct (map fst (w_clients w))" and "ready (w_clients w) ''client2''"
    and "length (rq_msgQueue (w_resend w)) < unat (rq_max (w_resend w))"
    and "\<forall>sn dev. 15 + length (p_body (pack sn dev item)) < 2 ^ 32"
  shows "case stoi (take 10 (de_matrixNo env)) of
      None \<Rightarrow> unit_taskO ''client2'' pack (resend_alarm env ts) env net (du, w) = None
    | Some n \<Rightarrow> \<exists>w'. let pkg = pack (word_of_int (du_sn du)) (word_of_int n) item
        in unit_taskO ''client2'' pack (resend_alarm env ts) env net (du, w) =
             Some (du1\<lparr>du_sn := to_i32 (du_sn du + 1)\<rparr>, w') \<and>
           (frame_taken net ''client2'' pkg \<and> w_resend w' = w_resend w \<or>
            (\<exists>m. rq_msgQueue (w_resend w') = rq_msgQueue (w_resend w) @ [m] \<and> counted m \<and>
               rm_pkg m = pkg \<and> rm_name m = ''client2''))"
proof (cases "stoi (take 10 (de_matrixNo env))")
  case None
  then show ?thesis using assms(1) by (simp add: unit_taskO_def)
next
  case (Some n)
  let ?pkg = "pack (word_of_int (du_sn du)) (word_of_int n) item"
  obtain ret c c' cs' where s: "send_to net ''client2'' ?pkg (w_clients w) = ([ret], cs')"
    and b: "SendBase net ''client2'' ?pkg c = (ret, c')"
    using send_to_once[OF assms(2,3)] by blast
  have sn: "du_sn du1 = du_sn du" using assms(1) by (auto simp: popO_def split: option.splits prod.splits)
  have len: "15 + length (p_body ?pkg) < 2 ^ 32" using assms(5) by blast
  have u: "unit_taskO ''client2'' pack (resend_alarm env ts) env net (du, w) =
      Some (du1\<lparr>du_sn := to_i32 (du_sn du + 1)\<rparr>, resend_alarm env ts item ?pkg ret (w\<lparr>w_clients := cs'\<rparr>))"
    using assms(1) Some s sn by (simp add: unit_taskO_def Let_def)
  have "ret = 0 \<Longrightarrow> frame_taken net ''client2'' ?pkg" using SendBase_taken[OF len] b by simp
  then show ?thesis
    unfolding u Some Let_def option.case using assms(4) len
    by (cases "ret = 0") (auto simp: resend_alarm_def ReSendQueue_add_def counted_def Let_def)
qed

definition demo_world :: "bool \<Rightarrow> world" where
  "demo_world up = \<lparr>w_clients = [(''client2'', (client_new [])\<lparr>cl_isNeedReconnect := \<not> up\<rparr>)],
     w_resend = ReSendQueue_default, w_netStatus = net_status_new\<rparr>"

definition demo_stop :: "(AbnormalStopData, AbnormalStopData) data_unit" where
  "demo_stop = (setCapNumI 10 1 AbnormalStopData_new data_unit_new)\<lparr>du_oq := queue_setMax 10 queue_new\<lparr>q_items := [AbnormalStopData_new]\<rparr>\<rparr>"

lemma demo_stop_pop: "popO demo_stop = Some (AbnormalStopData_new, demo_stop\<lparr>du_oq := queue_setMax 10 queue_new\<rparr>)"
  by (simp add: popO_def demo_stop_def queue_pop_def queue_setMax_def queue_new_def)

lemma demo_stoi: "stoi (take 10 (de_matrixNo demo_env)) = Some 123456789"
  by (simp add: demo_env_def stoi_def parse_int_def isspace_def isdigit_def digit_val_def number_of_digits_def)

theorem alarm_sent_or_queued_witness:
  "\<exists>w' m. AbnormalStopData_taskO (\<lambda>_. []) demo_env (demo_net (\<lambda>_. Send_threw 1)) (demo_stop, demo_world True) =
      Some (demo_stop\<lparr>du_oq := queue_setMax 10 queue_new, du_sn := to_i32 (du_sn demo_stop + 1)\<rparr>, w') \<and>
    rq_msgQueue (w_resend w') = [m] \<and> rm_name m = ''client2''"
proof -
  have w: "distinct (map fst (w_clients (demo_world True)))" "ready (w_clients (demo_world True)) ''client2''"
    "length (rq_msgQueue (w_resend (demo_world True))) < unat (rq_max (w_resend (demo_world True)))"
    by (simp_all add: demo_world_def ready_def ReSendQueue_default_def ReSendQueue_new_def)
  have n: "\<not> frame_taken (demo_net (\<lambda>_. Send_threw 1)) ''client2'' pkg" for pkg
    by (simp add: frame_taken_def demo_net_def)
  have l: "\<forall>s d. 15 + length (p_body (AbnormalStopData_PkgWithoutCRC (\<lambda>_. []) s d m)) < 2 ^ 32" for m
    by (simp add: AbnormalStopData_PkgWithoutCRC_def PkgWithoutCRC_def)
  from alarm_sent_or_queued[where ts = asd_timestamp and net = "demo_net (\<lambda>_. Send_threw 1)",
      where env = demo_env, OF demo_stop_pop w l] n
  show ?thesis unfolding demo_stoi option.case Let_def
    by (fastforce simp: AbnormalStopData_taskO_def demo_world_def ReSendQueue_default_def ReSendQueue_new_def)
qed

text \<open>
  While the upstream server is not connected, the output task of an alarm unit drops the alarm:
  it takes it off the queue and returns before anything is sent or queued for sending again.
\<close>
lemma alarm_dropped_when_down:
  assumes "popO du = Some (item, du1)" and "stoi (take 10 (de_matrixNo env)) = Some n"
    and "distinct (map fst (w_clients w))"
    and "map_of (w_clients w) ''client2'' = Some c" and "cl_isNeedReconnect c"
  shows "unit_taskO ''client2'' pack (resend_alarm env ts) env net (du, w) =
    Some (du1\<lparr>du_sn := to_i32 (du_sn du + 1)\<rparr>, w)"
proof -
  have "du_sn du1 = du_sn du" using assms(1) by (auto simp: popO_def split: option.splits prod.splits)
  then show ?thesis
    using assms(1,2) send_to_down[OF assms(3-5)] by (simp add: unit_taskO_def Let_def)
qed

theorem alarm_dropped_when_down_witness:
  "AbnormalStopData_taskO (\<lambda>_. []) demo_env (demo_net (\<lambda>_. Send_threw 1)) (demo_stop, demo_world False) =
     Some (demo_stop\<lparr>du_oq := queue_setMax 10 queue_new, du_sn := to_i32 (du_sn demo_stop + 1)\<rparr>, demo_world False)"
  unfolding AbnormalStopData_taskO_def
  using alarm_dropped_when_down[OF demo_stop_pop demo_stoi, of "demo_world False"]
  by (simp add: demo_world_def)

text \<open>
  A device number of the database that needs more than an \<open>int\<close> ends the program: with ten
  digits from 2147483648 on, the first output task that has a message throws out of its thread.
\<close>

lemma big_matrixNo_throws:
  assumes "2 ^ 31 \<le> n" and "n < 10 ^ 10" and "de_matrixNo env = string_of_int n" and "popO du \<noteq> None"
  shows "unit_taskO who pack after env net (du, w) = None"
proof -
  have "length (string_of_int n) \<le> 10"
    using assms(1,2) by (simp add: string_of_int_def length_string_of_nat)
  then have "stoi (take 10 (de_matrixNo env)) = None"
    using assms(1,3) by (simp add: stoi_def)
  then show ?thesis using assms(4) by (auto simp: unit_taskO_def)
qed

end
