(* ===== verification/Fusion.thy ===== *)
theory Fusion
  imports Units
begin

text \<open>
  The fusion unit: \<open>data/DataUnitFusionData.cpp\<close>, the target records of \<open>lib/merge.h\<close> and their
  conversions of \<open>data/merge/mergeStruct.cpp\<close>. A frame of one message per road becomes one list of
  targets, each named after its road, and one picture entry per road, and is sent to \<open>client1\<close>.
  Targets of different roads are not merged: both values of the merge type take the same path.
\<close>

section \<open>Targets\<close>

record OBJECT_INFO_T =
  oi_objID :: int
  oi_inputID :: string
  oi_cameraID :: int
  oi_objSourceType :: int
  oi_objType :: int
  oi_laneCode :: string
  oi_carLength :: real
  oi_carFeaturePic :: string
  oi_plates :: string
  oi_plateColor :: string
  oi_carType :: int
  oi_left :: int
  oi_top :: int
  oi_right :: int
  oi_bottom :: int
  oi_locationX :: real
  oi_locationY :: real
  oi_directionAngle :: real
  oi_speedX :: real
  oi_speedY :: real
  oi_longitude :: real
  oi_latitude :: real
  oi_radarID :: int
  oi_plate_number :: string
  oi_plate_color :: string
  oi_distance :: string

definition OBJECT_INFO_T_new :: OBJECT_INFO_T where
  "OBJECT_INFO_T_new = \<lparr>oi_objID = 0, oi_inputID = [], oi_cameraID = 0, oi_objSourceType = 0,
     oi_objType = 0, oi_laneCode = [], oi_carLength = 0, oi_carFeaturePic = [], oi_plates = [],
     oi_plateColor = [], oi_carType = 0, oi_left = 0, oi_top = 0, oi_right = 0, oi_bottom = 0,
     oi_locationX = 0, oi_locationY = 0, oi_directionAngle = 0, oi_speedX = 0, oi_speedY = 0,
     oi_longitude = 0, oi_latitude = 0, oi_radarID = 0, oi_plate_number = [], oi_plate_color = [],
     oi_distance = []\<rparr>"

record OBJECT_INFO_NEW =
  on_objID1 :: int
  on_objID2 :: int
  on_objID3 :: int
  on_objID4 :: int
  on_cameraID1 :: int
  on_cameraID2 :: int
  on_cameraID3 :: int
  on_cameraID4 :: int
  on_objSourceType :: int
  on_time_stamp :: u64
  on_objType :: int
  on_laneCode :: string
  on_carLength :: real
  on_carFeaturePic :: string
  on_plates :: string
  on_plateColor :: string
  on_carType :: int
  on_showID :: int
  on_left :: int
  on_top :: int
  on_right :: int
  on_bottom :: int
  on_directionAngle :: real
  on_speed :: real
  on_longitude :: real
  on_latitude :: real
  on_locationX :: real
  on_locationY :: real
  on_flag_new :: int
  on_objID :: "int list"
  on_radarID :: "int list"
  on_cameraID :: "int list"
  on_plate_number :: string
  on_plate_color :: string
  on_distance :: string
  on_speedX :: real
  on_speedY :: real
  on_continue_num :: int
  on_fail_num :: int
  on_flag_track :: int
  on_existFrame :: int

definition OBJECT_INFO_NEW_new :: OBJECT_INFO_NEW where
  "OBJECT_INFO_NEW_new = \<lparr>on_objID1 = 0, on_objID2 = 0, on_objID3 = 0, on_objID4 = 0,
     on_cameraID1 = 0, on_cameraID2 = 0, on_cameraID3 = 0, on_cameraID4 = 0, on_objSourceType = 0,
     on_time_stamp = 0, on_objType = 0, on_laneCode = [], on_carLength = 0, on_carFeaturePic = [],
     on_plates = [], on_plateColor = [], on_carType = 0, on_showID = 0, on_left = 0, on_top = 0,
     on_right = 0, on_bottom = 0, on_directionAngle = 0, on_speed = 0, on_longitude = 0,
     on_latitude = 0, on_locationX = - 1, on_locationY = - 1, on_flag_new = - 1, on_objID = [],
     on_radarID = [], on_cameraID = [], on_plate_number = [], on_plate_color = [], on_distance = [],
     on_speedX = 0, on_speedY = 0, on_continue_num = 0, on_fail_num = 0, on_flag_track = 0,
     on_existFrame = 0\<rparr>"

definition INF_id :: int where "INF_id = 0x7FFFFFFF"

text \<open>The values of the directions.\<close>

definition East :: int where "East = 1"
definition South :: int where "South = 2"
definition West :: int where "West = 3"
definition North :: int where "North = 4"

section \<open>Conversions\<close>

definition OBJECT_INFO_T2ObjTarget :: "OBJECT_INFO_T \<Rightarrow> ObjTarget \<Rightarrow> ObjTarget" where
  "OBJECT_INFO_T2ObjTarget t objTarget = objTarget\<lparr>
     ot_objID := string_of_int (oi_objID t), ot_objCameraID := oi_cameraID t,
     ot_objRadarID := oi_radarID t, ot_objType := oi_objType t, ot_objSourceType := oi_objSourceType t,
     ot_left := oi_left t, ot_top := oi_top t, ot_right := oi_right t,
     ot_plates := oi_plates t, ot_plateColor := oi_plateColor t, ot_carFeaturePic := oi_carFeaturePic t,
     ot_laneCode := oi_laneCode t, ot_carType := oi_carType t, ot_carLength := oi_carLength t,
     ot_bottom := oi_bottom t, ot_locationX := oi_locationX t, ot_locationY := oi_locationY t,
     ot_directionAngle := oi_directionAngle t, ot_speedX := oi_speedX t, ot_speedY := oi_speedY t,
     ot_longitude := oi_longitude t, ot_latitude := oi_latitude t\<rparr>"

definition ObjTarget2OBJECT_INFO_T :: "ObjTarget \<Rightarrow> OBJECT_INFO_T \<Rightarrow> OBJECT_INFO_T" where
  "ObjTarget2OBJECT_INFO_T t objectInfoT = objectInfoT\<lparr>
     oi_objID := atoi (ot_objID t), oi_inputID := ot_objID t,
     oi_cameraID := ot_objCameraID t, oi_radarID := ot_objRadarID t,
     oi_objType := ot_objType t, oi_objSourceType := ot_objSourceType t,
     oi_left := ot_left t, oi_top := ot_top t, oi_right := ot_right t, oi_bottom := ot_bottom t,
     oi_locationX := ot_locationX t, oi_locationY := ot_locationY t,
     oi_plates := ot_plates t, oi_plateColor := ot_plateColor t, oi_carFeaturePic := ot_carFeaturePic t,
     oi_laneCode := ot_laneCode t, oi_carType := ot_carType t, oi_carLength := ot_carLength t,
     oi_directionAngle := ot_directionAngle t, oi_speedX := ot_speedX t, oi_speedY := ot_speedY t,
     oi_longitude := ot_longitude t, oi_latitude := ot_latitude t\<rparr>"

definition OBJECT_INFO_T2OBJECT_INFO_NEW :: "OBJECT_INFO_T \<Rightarrow> OBJECT_INFO_NEW \<Rightarrow> OBJECT_INFO_NEW" where
  "OBJECT_INFO_T2OBJECT_INFO_NEW t objectInfoNew = objectInfoNew\<lparr>
     on_objID1 := oi_objID t, on_objID2 := - INF_id, on_objID3 := - INF_id, on_objID4 := - INF_id,
     on_cameraID1 := oi_cameraID t, on_cameraID2 := - INF_id, on_cameraID3 := - INF_id, on_cameraID4 := - INF_id,
     on_showID := oi_objID t, on_objType := oi_objType t,
     on_left := oi_left t, on_top := oi_top t, on_right := oi_right t, on_bottom := oi_bottom t,
     on_locationX := oi_locationX t, on_locationY := oi_locationY t,
     on_plates := oi_plates t, on_plateColor := oi_plateColor t, on_carFeaturePic := oi_carFeaturePic t,
     on_laneCode := oi_laneCode t, on_carType := oi_carType t, on_carLength := oi_carLength t,
     on_directionAngle := oi_directionAngle t,
     on_speed := sqrt (oi_speedX t * oi_speedX t + oi_speedY t * oi_speedY t),
     on_longitude := oi_longitude t, on_latitude := oi_latitude t\<rparr>"

definition OBJECT_INFO_NEW2ObjMix :: "OBJECT_INFO_NEW \<Rightarrow> ObjMix \<Rightarrow> ObjMix" where
  "OBJECT_INFO_NEW2ObjMix t objMix = objMix\<lparr>
     om_objID := string_of_int (on_showID t), om_objType := on_objType t,
     om_angle := on_directionAngle t, om_speed := on_speed t,
     om_locationX := on_locationX t, om_locationY := on_locationY t,
     om_longitude := on_longitude t, om_latitude := on_latitude t, om_flagNew := on_flag_new t,
     om_laneCode := on_laneCode t, om_carLength := on_carLength t,
     om_carFeaturePic := on_carFeaturePic t, om_plates := on_plates t,
     om_plateColor := on_plateColor t, om_carType := on_carType t\<rparr>"

section \<open>The unit\<close>

datatype MergeType = NotMerge | Merge

record RoadData =
  rd_hardCode :: string
  rd_listObjs :: "OBJECT_INFO_T list"
  rd_imageData :: string
  rd_direction :: int
  rd_timestamp :: u64

record RoadDataInSet =
  rs_timestamp :: u64
  rs_roadDataList :: "RoadData list"

record MergeData =
  md_timestamp :: real
  md_objOutput :: "OBJECT_INFO_NEW list"
  md_objInput :: RoadDataInSet

text \<open>The members that the class adds to its data unit and that its tasks keep between calls.\<close>

record fusion_state =
  fs_mergeData :: MergeData
  fs_fusionData :: FusionData

definition fusion_state_new :: fusion_state where
  "fusion_state_new = \<lparr>fs_mergeData = \<lparr>md_timestamp = 0, md_objOutput = [],
       md_objInput = \<lparr>rs_timestamp = 0, rs_roadDataList = []\<rparr>\<rparr>, fs_fusionData = FusionData_new\<rparr>"

text \<open>The case distinction over the road, and the rest of a target of \<open>TaskNotMerge\<close>.\<close>

definition road_ids :: "nat \<Rightarrow> OBJECT_INFO_T \<Rightarrow> OBJECT_INFO_NEW \<Rightarrow> OBJECT_INFO_NEW" where
  "road_ids i t item =
     (if i = 0 then item\<lparr>on_objID1 := oi_objID t, on_cameraID1 := oi_cameraID t,
        on_objID2 := - INF_id, on_cameraID2 := - INF_id, on_objID3 := - INF_id, on_cameraID3 := - INF_id,
        on_objID4 := - INF_id, on_cameraID4 := - INF_id, on_showID := to_i32 (oi_objID t + 10000)\<rparr>
      else if i = 1 then item\<lparr>on_objID1 := - INF_id, on_cameraID1 := - INF_id,
        on_objID2 := oi_objID t, on_cameraID2 := oi_cameraID t, on_objID3 := - INF_id, on_cameraID3 := - INF_id,
        on_objID4 := - INF_id, on_cameraID4 := - INF_id, on_showID := to_i32 (oi_objID t + 20000)\<rparr>
      else if i = 2 then item\<lparr>on_objID1 := - INF_id, on_cameraID1 := - INF_id,
        on_objID2 := - INF_id, on_cameraID2 := - INF_id, on_objID3 := oi_objID t, on_cameraID3 := oi_cameraID t,
        on_objID4 := - INF_id, on_cameraID4 := - INF_id, on_showID := to_i32 (oi_objID t + 30000)\<rparr>
      else if i = 3 then item\<lparr>on_objID1 := - INF_id, on_cameraID1 := - INF_id,
        on_objID2 := - INF_id, on_cameraID2 := - INF_id, on_objID3 := - INF_id, on_cameraID3 := - INF_id,
        on_objID4 := oi_objID t, on_cameraID4 := oi_cameraID t, on_showID := to_i32 (oi_objID t + 40000)\<rparr>
      else item)"

definition not_merge_item :: "nat \<Rightarrow> OBJECT_INFO_T \<Rightarrow> OBJECT_INFO_NEW" where
  "not_merge_item i t = (road_ids i t OBJECT_INFO_NEW_new)\<lparr>
     on_objType := oi_objType t, on_plate_number := oi_plate_number t, on_plate_color := oi_plate_color t,
     on_left := oi_left t, on_top := oi_top t, on_right := oi_right t, on_bottom := oi_bottom t,
     on_locationX := oi_locationX t, on_locationY := oi_locationY t, on_distance := oi_distance t,
     on_directionAngle := oi_directionAngle t,
     on_speed := sqrt (oi_speedX t * oi_speedX t + oi_speedY t * oi_speedY t),
     on_latitude := oi_latitude t, on_longitude := oi_longitude t, on_flag_new := 0\<rparr>"

definition GetFusionData_obj :: "OBJECT_INFO_NEW \<Rightarrow> ObjMix" where
  "GetFusionData_obj t =
     (let way = (\<lambda>wayNo objID cameraID.
            if objID \<noteq> - INF_id then [\<lparr>rv_wayNo = wayNo, rv_roID = objID, rv_voID = cameraID\<rparr>] else []);
          objMix = ObjMix_new\<lparr>om_rvWayObject :=
            way North (on_objID1 t) (on_cameraID1 t) @ way East (on_objID2 t) (on_cameraID2 t) @
            way South (on_objID3 t) (on_cameraID3 t) @ way West (on_objID4 t) (on_cameraID4 t)\<rparr>
      in OBJECT_INFO_NEW2ObjMix t objMix)"

definition GetFusionData_video :: "RoadData \<Rightarrow> VideoData" where
  "GetFusionData_video road = VideoData_new\<lparr>
     vd_rvHardCode := rd_hardCode road, vd_imageData := rd_imageData road, vd_direction := rd_direction road,
     vd_lstVideoTargets := map (\<lambda>t. \<lparr>vt_cameraObjID = oi_cameraID t, vt_left = oi_left t,
       vt_top = oi_top t, vt_right = oi_right t, vt_bottom = oi_bottom t\<rparr>) (rd_listObjs road)\<rparr>"

text \<open>\<open>fusionData\<close> is a member, and its two lists are only appended to.\<close>

definition GetFusionData :: "data_env \<Rightarrow> fusion_state \<times> (WatchData, FusionData) data_unit \<Rightarrow>
    fusion_state \<times> (WatchData, FusionData) data_unit" where
  "GetFusionData env = (\<lambda>(st, du).
     let m = fs_mergeData st;
         f = (fs_fusionData st)\<lparr>fd_oprNum := de_uuid env, fd_timestamp := md_timestamp m,
               fd_crossID := de_plateId env\<rparr>;
         f = f\<lparr>fd_lstObjTarget := fd_lstObjTarget f @ map GetFusionData_obj (md_objOutput m)\<rparr>;
         f = f\<lparr>fd_isHasImage := 1,
               fd_lstVideos := fd_lstVideos f @ map GetFusionData_video (rs_roadDataList (md_objInput m))\<rparr>
     in (st\<lparr>fs_fusionData := f\<rparr>, snd (pushO f du)))"

definition TaskNotMerge :: "LocalConfig \<Rightarrow> data_env \<Rightarrow> RoadDataInSet \<Rightarrow>
    fusion_state \<times> (WatchData, FusionData) data_unit \<Rightarrow>
    fusion_state \<times> (WatchData, FusionData) data_unit" where
  "TaskNotMerge cfg env roads = (\<lambda>(st, du).
     let st = st\<lparr>fs_mergeData := \<lparr>
           md_timestamp = double_of_u64 (rs_timestamp roads),
           md_objOutput = concat (map (\<lambda>(i, road). map (not_merge_item i) (rd_listObjs road))
             (enumerate 0 (rs_roadDataList roads))),
           md_objInput = roads\<rparr>\<rparr>
     in if \<not> lc_isSendCloud cfg then (st, du) else GetFusionData env (st, du))"

definition road_data :: "WatchData \<Rightarrow> RoadData" where
  "road_data w = \<lparr>rd_hardCode = wd_hardCode w,
     rd_listObjs = map (\<lambda>t. ObjTarget2OBJECT_INFO_T t OBJECT_INFO_T_new) (wd_lstObjTarget w),
     rd_imageData = wd_imageData w, rd_direction = wd_direction w,
     rd_timestamp = u64_of_double (wd_timestamp w)\<rparr>"

definition TaskProcessOneFrame :: "LocalConfig \<Rightarrow> data_env \<Rightarrow> MergeType \<Rightarrow>
    fusion_state \<times> (WatchData, FusionData) data_unit \<Rightarrow>
    fusion_state \<times> (WatchData, FusionData) data_unit" where
  "TaskProcessOneFrame cfg env mergeType = (\<lambda>(st, du).
     let lst = replicate (nat (du_numI du)) \<lparr>rd_hardCode = [], rd_listObjs = [], rd_imageData = [],
           rd_direction = - 1, rd_timestamp = 0\<rparr>;
         lst = fold (\<lambda>(i, w) lst. lst[i := road_data w]) (enumerate 0 (du_oneFrame du)) lst;
         roads = \<lparr>rs_timestamp = du_curTimestamp du, rs_roadDataList = lst\<rparr>
     in case mergeType of
          NotMerge \<Rightarrow> TaskNotMerge cfg env roads (st, du)
        | Merge \<Rightarrow> TaskNotMerge cfg env roads (st, du))"

definition Fusion_FindOneFrame :: "LocalConfig \<Rightarrow> data_env \<Rightarrow> MergeType \<Rightarrow> int \<Rightarrow>
    fusion_state \<times> (WatchData, FusionData) data_unit \<Rightarrow>
    fusion_state \<times> (WatchData, FusionData) data_unit" where
  "Fusion_FindOneFrame cfg env mergeType offset = (\<lambda>(st, du).
     let (ret, du) = FindOneFrame wd_timestamp WatchData_new offset du
     in if ret = 0 then TaskProcessOneFrame cfg env mergeType (st, du) else (st, du))"

definition Fusion_taskI :: "LocalConfig \<Rightarrow> data_env \<Rightarrow> bool \<Rightarrow>
    fusion_state \<times> (WatchData, FusionData) data_unit \<Rightarrow>
    fusion_state \<times> (WatchData, FusionData) data_unit" where
  "Fusion_taskI cfg env isMerge = (\<lambda>(st, du).
     let mergeType = (if isMerge then Merge else NotMerge)
     in runTask_with (Fusion_FindOneFrame cfg env mergeType (du_cache du div 2)) (st, du))"

text \<open>Without \<open>isSendPIC\<close> the pictures are taken out before the frame is packed.\<close>

definition strip_images :: "LocalConfig \<Rightarrow> FusionData \<Rightarrow> FusionData" where
  "strip_images cfg item =
     (if \<not> lc_isSendPIC cfg then
        item\<lparr>fd_isHasImage := 0, fd_lstVideos := map (\<lambda>v. v\<lparr>vd_imageData := []\<rparr>) (fd_lstVideos item)\<rparr>
      else item)"

definition Fusion_taskO :: "LocalConfig \<Rightarrow> (FusionData \<Rightarrow> bytes) \<Rightarrow> data_env \<Rightarrow> net \<Rightarrow>
    (WatchData, FusionData) data_unit \<times> world \<Rightarrow> ((WatchData, FusionData) data_unit \<times> world) option" where
  "Fusion_taskO cfg enc = unit_taskO ''client1''
     (\<lambda>sn deviceNo item. FusionData_PkgWithoutCRC enc sn deviceNo (strip_images cfg item))
     (\<lambda>item pkg ret w. w\<lparr>w_netStatus := CalNetStatus ret (w_netStatus w)\<rparr>)"

section \<open>What a frame becomes\<close>

text \<open>
  The target that the frame should carry for the target \<open>t\<close> of road \<open>i\<close>. Its plate, its lane, its
  type, its length and its picture are empty: \<open>TaskNotMerge\<close> does not copy them.
\<close>

definition obj_mix_of :: "nat \<Rightarrow> ObjTarget \<Rightarrow> ObjMix" where
  "obj_mix_of i t = ObjMix_new\<lparr>
     om_objID := string_of_int (to_i32 (atoi (ot_objID t) + 10000 * (int i + 1))),
     om_rvWayObject := [\<lparr>rv_wayNo = [North, East, South, West] ! i, rv_roID = atoi (ot_objID t),
       rv_voID = ot_objCameraID t\<rparr>],
     om_objType := ot_objType t, om_angle := ot_directionAngle t,
     om_speed := sqrt (ot_speedX t * ot_speedX t + ot_speedY t * ot_speedY t),
     om_locationX := ot_locationX t, om_locationY := ot_locationY t,
     om_longitude := ot_longitude t, om_latitude := ot_latitude t\<rparr>"

definition frame_objs :: "WatchData list \<Rightarrow> ObjMix list" where
  "frame_objs frame = concat (map (\<lambda>i. map (obj_mix_of i) (wd_lstObjTarget (frame ! i))) [0..<length frame])"

definition video_of :: "WatchData \<Rightarrow> VideoData" where
  "video_of w = VideoData_new\<lparr>vd_rvHardCode := wd_hardCode w, vd_imageData := wd_imageData w,
     vd_direction := wd_direction w,
     vd_lstVideoTargets := map (\<lambda>t. \<lparr>vt_cameraObjID = ot_objCameraID t, vt_left = ot_left t,
       vt_top = ot_top t, vt_right = ot_right t, vt_bottom = ot_bottom t\<rparr>) (wd_lstObjTarget w)\<rparr>"

text \<open>Targets whose number is not the one that stands for no target.\<close>

definition frame_ok :: "WatchData list \<Rightarrow> bool" where
  "frame_ok frame \<longleftrightarrow> length frame \<le> 4 \<and>
     (\<forall>w \<in> set frame. \<forall>t \<in> set (wd_lstObjTarget w). atoi (ot_objID t) \<noteq> - INF_id)"

lemma obj_of_target:
  assumes "i < 4" "atoi (ot_objID t) \<noteq> - INF_id"
  shows "GetFusionData_obj (not_merge_item i (ObjTarget2OBJECT_INFO_T t OBJECT_INFO_T_new)) = obj_mix_of i t"
proof -
  have "i = 0 \<or> i = 1 \<or> i = 2 \<or> i = 3" using assms(1) by auto
  then show ?thesis
    using assms(2)
    by (elim disjE) (simp_all add: GetFusionData_obj_def not_merge_item_def road_ids_def obj_mix_of_def
        OBJECT_INFO_NEW2ObjMix_def ObjTarget2OBJECT_INFO_T_def OBJECT_INFO_NEW_new_def ObjMix_new_def Let_def)
qed

lemma fill_roads:
  "fold (\<lambda>(i, w) lst. lst[i := f w]) (enumerate k ws) (xs @ replicate (length ws) d) = xs @ map f ws"
  if "length xs = k"
  using that
proof (induction ws arbitrary: xs k)
  case (Cons w ws)
  then show ?case using Cons.IH[of "xs @ [f w]" "Suc k"] by (simp add: list_update_append)
qed simp

lemma concat_enumerate: "concat (map (\<lambda>(i, x). f i x) (enumerate 0 xs)) = concat (map (\<lambda>i. f i (xs ! i)) [0..<length xs])"
proof -
  have "enumerate 0 xs = map (\<lambda>i. (i, xs ! i)) [0..<length xs]"
    by (rule nth_equalityI) (simp_all add: nth_enumerate_eq)
  then show ?thesis by (simp add: comp_def)
qed

lemma pushO_items:
  "du_wf du \<Longrightarrow> q_items (du_oq (snd (pushO x du))) = take (size_of_int (du_cap du)) (q_items (du_oq du) @ [x])"
  using queue_push_all[of "du_oq du" "[x]"] by (auto simp: pushO_def du_wf_def split: prod.split)

lemma process_frame:
  assumes "lc_isSendCloud cfg" "nat (du_numI du) = length (du_oneFrame du)" "frame_ok (du_oneFrame du)"
  shows "snd (TaskProcessOneFrame cfg env mt (st, du)) =
      snd (pushO (fs_fusionData (fst (TaskProcessOneFrame cfg env mt (st, du)))) du) \<and>
    fs_fusionData (fst (TaskProcessOneFrame cfg env mt (st, du))) =
      \<lparr>fd_oprNum = de_uuid env, fd_timestamp = double_of_u64 (du_curTimestamp du),
       fd_crossID = de_plateId env, fd_isHasImage = 1,
       fd_lstObjTarget = fd_lstObjTarget (fs_fusionData st) @ frame_objs (du_oneFrame du),
       fd_lstVideos = fd_lstVideos (fs_fusionData st) @ map video_of (du_oneFrame du)\<rparr>"
proof -
  have objs: "map GetFusionData_obj (concat (map (\<lambda>(i, road). map (not_merge_item i) (rd_listObjs road))
      (enumerate 0 (map road_data (du_oneFrame du))))) = frame_objs (du_oneFrame du)"
    unfolding concat_enumerate frame_objs_def map_concat
    using assms(3) by (auto simp: frame_ok_def road_data_def intro!: arg_cong[where f = concat] obj_of_target)
      (metis nth_mem)
  have vids: "map GetFusionData_video (map road_data (du_oneFrame du)) = map video_of (du_oneFrame du)"
    by (auto simp: GetFusionData_video_def road_data_def video_of_def ObjTarget2OBJECT_INFO_T_def)
  show ?thesis
    using fill_roads[of "[]" 0 road_data "du_oneFrame du"] assms(1,2) objs vids
    by (simp add: TaskProcessOneFrame_def TaskNotMerge_def GetFusionData_def Let_def split: MergeType.split)
qed

text \<open>
  C32. The fusion unit and a frame of at most four roads in which no target has the number \<open>- INF\<close> that stands
  for no target. If results go to the cloud, the frame becomes one output message: after the targets and
  pictures that \<open>fusionData\<close> held, it lists the targets of the frame road by road, each under its number
  plus 10000 times its road, with the direction of the road, its position and its speed, and one picture
  entry per road with the boxes of its targets; it is queued last if the output queue has room, and dropped
  if not. If results do not go to the cloud, nothing is queued and \<open>fusionData\<close> stays.
\<close>

theorem fusion_frame:
  assumes "du_wf du" and "frame_ok (du_oneFrame du)"
    and "TaskProcessOneFrame cfg env mt (st, du) = (st', du')"
  shows "if lc_isSendCloud cfg then
      q_items (du_oq du') = take (size_of_int (du_cap du)) (q_items (du_oq du) @ [fs_fusionData st']) \<and>
      fs_fusionData st' =
        \<lparr>fd_oprNum = de_uuid env, fd_timestamp = double_of_u64 (du_curTimestamp du),
         fd_crossID = de_plateId env, fd_isHasImage = 1,
         fd_lstObjTarget = fd_lstObjTarget (fs_fusionData st) @ frame_objs (du_oneFrame du),
         fd_lstVideos = fd_lstVideos (fs_fusionData st) @ map video_of (du_oneFrame du)\<rparr>
    else fs_fusionData st' = fs_fusionData st \<and> du' = du"
proof (cases "lc_isSendCloud cfg")
  case True
  have "nat (du_numI du) = length (du_oneFrame du)" using assms(1) by (simp add: du_wf_def)
  from process_frame[OF True this assms(2), of env mt st] show ?thesis
    using pushO_items[OF assms(1)] assms(3) True by (metis fst_conv snd_conv)
next
  case False
  then show ?thesis
    using assms(3) by (auto simp: TaskProcessOneFrame_def TaskNotMerge_def Let_def split: MergeType.splits)
qed

definition demo_target :: "string \<Rightarrow> ObjTarget" where
  "demo_target ident = ObjTarget_new\<lparr>ot_objID := ident, ot_objCameraID := 7, ot_speedX := 3, ot_speedY := 4\<rparr>"

definition demo_frame :: "WatchData list" where
  "demo_frame = [WatchData_new\<lparr>wd_lstObjTarget := [demo_target ''1'', demo_target ''2'']\<rparr>,
     WatchData_new\<lparr>wd_lstObjTarget := [demo_target ''1'']\<rparr>]"

definition demo_fusion :: "(WatchData, FusionData) data_unit" where
  "demo_fusion = (setCapNumI 15 2 WatchData_new data_unit_new)\<lparr>du_oneFrame := demo_frame\<rparr>"

lemma demo_fusion_wf: "du_wf demo_fusion"
  using du_wf_setCapNumI[of 2 15 WatchData_new]
  by (simp add: demo_fusion_def demo_frame_def du_wf_def setCapNumI_def vec_resize_def data_unit_new_def)

lemma demo_simps [simp]:
  "du_oneFrame demo_fusion = demo_frame" "lc_isSendCloud localConfig_new"
  "fd_lstObjTarget (fs_fusionData fusion_state_new) = []" "length demo_frame = 2"
  by (simp_all add: demo_frame_def demo_fusion_def localConfig_new_def fusion_state_new_def FusionData_new_def)

lemma demo_atoi: "atoi ''1'' = 1" "atoi ''2'' = 2"
  by (simp_all add: atoi_def parse_int_def isspace_def isdigit_def digit_val_def number_of_digits_def to_i32_id)

lemma demo_frame_ok: "frame_ok demo_frame"
  by (simp add: frame_ok_def demo_frame_def demo_target_def demo_atoi INF_id_def)

lemma demo_frame_ids: "map om_objID (frame_objs demo_frame) = [string_of_int 10001, string_of_int 10002, string_of_int 20001]"
  by (simp add: frame_objs_def demo_frame_def obj_mix_of_def demo_target_def demo_atoi to_i32_id)

theorem fusion_frame_witness:
  "map om_objID (fd_lstObjTarget (fs_fusionData (fst (TaskProcessOneFrame localConfig_new demo_env Merge
     (fusion_state_new, demo_fusion))))) = [string_of_int 10001, string_of_int 10002, string_of_int 20001]"
proof -
  obtain st' du' where r: "TaskProcessOneFrame localConfig_new demo_env Merge (fusion_state_new, demo_fusion) = (st', du')"
    by fastforce
  from fusion_frame[OF demo_fusion_wf _ r] demo_frame_ok demo_frame_ids show ?thesis
    by (simp add: r)
qed

text \<open>A run of the processing over the frames that are found one after the other.\<close>

definition process_frames :: "LocalConfig \<Rightarrow> data_env \<Rightarrow> MergeType \<Rightarrow> WatchData list list \<Rightarrow>
    fusion_state \<times> (WatchData, FusionData) data_unit \<Rightarrow>
    fusion_state \<times> (WatchData, FusionData) data_unit" where
  "process_frames cfg env mt frames = fold (\<lambda>frame (st, du).
     TaskProcessOneFrame cfg env mt (st, du\<lparr>du_oneFrame := frame\<rparr>)) frames"

lemma process_frames_all:
  assumes "lc_isSendCloud cfg" "\<forall>frame \<in> set frames. frame_ok frame \<and> length frame = nat (du_numI du)"
    and "process_frames cfg env mt frames (st, du) = (st', du')"
  shows "fd_lstObjTarget (fs_fusionData st') =
      fd_lstObjTarget (fs_fusionData st) @ concat (map frame_objs frames) \<and>
    fd_lstVideos (fs_fusionData st') =
      fd_lstVideos (fs_fusionData st) @ concat (map (map video_of) frames)"
  using assms
proof (induction frames arbitrary: st du)
  case (Cons frame frames)
  let ?du = "du\<lparr>du_oneFrame := frame\<rparr>"
  obtain st1 du1 where r: "TaskProcessOneFrame cfg env mt (st, ?du) = (st1, du1)" by fastforce
  have f: "nat (du_numI ?du) = length (du_oneFrame ?du)" "frame_ok (du_oneFrame ?du)"
    using Cons.prems(2) by simp_all
  note p = process_frame[OF Cons.prems(1) f, of env mt st]
  have "du_numI du1 = du_numI du" using p r by (auto simp: pushO_def split: prod.splits)
  then show ?case
    using Cons.IH[of du1 st1] Cons.prems p r by (simp add: process_frames_def)
qed (simp add: process_frames_def)

text \<open>
  \<open>fusionData\<close> is never cleared: the message of a frame lists, before its own, the targets and
  pictures of every frame since the program started, so the messages grow without bound.
\<close>

lemma fusion_accumulates:
  assumes "lc_isSendCloud cfg"
    and "\<forall>frame \<in> set frames. frame_ok frame \<and> length frame = nat (du_numI du)"
    and "process_frames cfg env mt frames (fusion_state_new, du) = (st', du')"
  shows "fd_lstObjTarget (fs_fusionData st') = concat (map frame_objs frames) \<and>
    length (fd_lstVideos (fs_fusionData st')) = length frames * nat (du_numI du)"
proof -
  have "length (concat (map (map video_of) frames)) = length frames * nat (du_numI du)"
    using assms(2) by (induction frames) auto
  then show ?thesis
    using process_frames_all[OF assms] by (simp add: fusion_state_new_def FusionData_new_def)
qed

lemma fusion_accumulates_witness:
  "length (fd_lstVideos (fs_fusionData (fst (process_frames localConfig_new demo_env NotMerge
     (replicate 3 demo_frame) (fusion_state_new, demo_fusion))))) = 6"
proof -
  obtain st' du' where r: "process_frames localConfig_new demo_env NotMerge (replicate 3 demo_frame)
    (fusion_state_new, demo_fusion) = (st', du')" by fastforce
  have "nat (du_numI demo_fusion) = 2" by (simp add: demo_fusion_def setCapNumI_def)
  then show ?thesis
    using fusion_accumulates[OF _ _ r] demo_frame_ok by (simp add: r)
qed

section \<open>Names of targets\<close>

definition road_ids_ok :: "WatchData \<Rightarrow> bool" where
  "road_ids_ok w \<longleftrightarrow> distinct (map (\<lambda>t. atoi (ot_objID t)) (wd_lstObjTarget w)) \<and>
     (\<forall>t \<in> set (wd_lstObjTarget w). 0 \<le> atoi (ot_objID t) \<and> atoi (ot_objID t) < 10000)"

lemma road_number:
  assumes "0 \<le> (a :: int)" "a < 10000" "0 \<le> b" "b < 10000"
    and "a + 10000 * (int i + 1) = b + 10000 * (int j + 1)"
  shows "i = j"
proof -
  have "(a + 10000 * (int i + 1)) div 10000 = int i + 1" using assms(1,2) by simp
  moreover have "(b + 10000 * (int j + 1)) div 10000 = int j + 1" using assms(3,4) by simp
  ultimately show ?thesis using assms(5) by simp
qed

text \<open>
  If the targets of each road have different numbers below 10000, then all the targets of a
  frame of up to four roads have different names.
\<close>
lemma fusion_names_distinct:
  assumes "length frame \<le> 4" and "\<forall>w \<in> set frame. road_ids_ok w"
  shows "distinct (map om_objID (frame_objs frame))"
proof -
  have ids: "map om_objID (map (obj_mix_of i) (wd_lstObjTarget (frame ! i))) =
      map (\<lambda>t. string_of_int (atoi (ot_objID t) + 10000 * (int i + 1))) (wd_lstObjTarget (frame ! i))"
    if "i < length frame" for i
  proof -
    have "road_ids_ok (frame ! i)" "i < 4" using assms that by auto
    then have "to_i32 (atoi (ot_objID t) + 10000 * (int i + 1)) = atoi (ot_objID t) + 10000 * (int i + 1)"
      if "t \<in> set (wd_lstObjTarget (frame ! i))" for t
      using that by (intro to_i32_id) (auto simp: road_ids_ok_def)
    then show ?thesis by (simp add: obj_mix_of_def)
  qed
  let ?L = "\<lambda>i. map (\<lambda>t. string_of_int (atoi (ot_objID t) + 10000 * (int i + 1))) (wd_lstObjTarget (frame ! i))"
  have "map om_objID (frame_objs frame) = concat (map ?L [0..<length frame])"
    unfolding frame_objs_def map_concat using ids by (auto simp: comp_def intro!: arg_cong[where f = concat])
  moreover have "distinct (concat (map ?L [0..<n]))" if "n \<le> length frame" for n
    using that
  proof (induction n)
    case (Suc n)
    have ok: "i \<le> n \<Longrightarrow> road_ids_ok (frame ! i)" for i using assms(2) Suc.prems by auto
    have "distinct (?L n)"
      using ok[of n] by (simp add: road_ids_ok_def distinct_map inj_on_def string_of_int_inj)
    moreover have "x \<notin> set (?L n)" if "i < n" "x \<in> set (?L i)" for i x
    proof
      assume "x \<in> set (?L n)"
      then obtain t u where t: "t \<in> set (wd_lstObjTarget (frame ! i))" "u \<in> set (wd_lstObjTarget (frame ! n))"
        and e: "atoi (ot_objID t) + 10000 * (int i + 1) = atoi (ot_objID u) + 10000 * (int n + 1)"
        using \<open>x \<in> set (?L i)\<close> by (auto simp: string_of_int_inj simp del: distrib_left)
      show False
        using road_number[OF _ _ _ _ e] ok[of i] ok[of n] t \<open>i < n\<close> by (simp add: road_ids_ok_def)
    qed
    then have "set (concat (map ?L [0..<n])) \<inter> set (?L n) = {}" by fastforce
    moreover have "distinct (concat (map ?L [0..<n]))" using Suc by simp
    ultimately show ?case by (simp only: upt_Suc_append le0 map_append concat_append list.map concat.simps
          append_Nil2 distinct_append simp_thms)
  qed simp
  ultimately show ?thesis by simp
qed

theorem fusion_names_distinct_witness: "distinct (map om_objID (frame_objs demo_frame))"
  by (rule fusion_names_distinct)
    (simp_all, simp add: demo_frame_def road_ids_ok_def demo_target_def demo_atoi)

section \<open>Sending a frame\<close>

text \<open>
  The output task of the fusion unit, when its server is connected, counts the send, and counts
  it as a success only if the socket took the whole frame of the message, whose pictures are left
  out unless the configuration asks for them.
\<close>
lemma fusion_send_counted:
  assumes "popO du = Some (item, du1)" and "stoi (take 10 (de_matrixNo env)) = Some n"
    and "distinct (map fst (w_clients w))" and "ready (w_clients w) ''client1''"
    and "15 + length (enc (strip_images cfg item)) < 2 ^ 32"
  shows "\<exists>w' ret. Fusion_taskO cfg enc env net (du, w) = Some (du1\<lparr>du_sn := to_i32 (du_sn du + 1)\<rparr>, w') \<and>
    w_netStatus w' = CalNetStatus ret (w_netStatus w) \<and> w_resend w' = w_resend w \<and>
    (ret = 0 \<longrightarrow> frame_taken net ''client1'' (FusionData_PkgWithoutCRC enc (word_of_int (du_sn du))
       (word_of_int n) (strip_images cfg item)))"
proof -
  let ?pkg = "FusionData_PkgWithoutCRC enc (word_of_int (du_sn du)) (word_of_int n) (strip_images cfg item)"
  obtain ret c c' cs' where s: "send_to net ''client1'' ?pkg (w_clients w) = ([ret], cs')"
    and b: "SendBase net ''client1'' ?pkg c = (ret, c')"
    using send_to_once[OF assms(3,4)] by blast
  have sn: "du_sn du1 = du_sn du" using assms(1) by (auto simp: popO_def split: option.splits prod.splits)
  have "15 + length (p_body ?pkg) < 2 ^ 32"
    using assms(5) by (simp add: FusionData_PkgWithoutCRC_def PkgWithoutCRC_def)
  from SendBase_taken[OF this] b show ?thesis
    using assms(1,2) s sn by (auto simp: Fusion_taskO_def unit_taskO_def Let_def)
qed

definition demo_fusion_out :: "(WatchData, FusionData) data_unit" where
  "demo_fusion_out = demo_fusion\<lparr>du_oq := queue_setMax 15 queue_new\<lparr>q_items := [FusionData_new]\<rparr>\<rparr>"

theorem fusion_send_counted_witness:
  "\<exists>w' du'. Fusion_taskO localConfig_new (\<lambda>_. []) demo_env (demo_net (\<lambda>_. Send_threw 1))
     (demo_fusion_out, \<lparr>w_clients = [(''client1'', (client_new [])\<lparr>cl_isNeedReconnect := False\<rparr>)],
        w_resend = ReSendQueue_default, w_netStatus = net_status_new\<rparr>) = Some (du', w') \<and>
   ns_total (w_netStatus w') = 1"
proof -
  let ?w = "\<lparr>w_clients = [(''client1'', (client_new [])\<lparr>cl_isNeedReconnect := False\<rparr>)],
    w_resend = ReSendQueue_default, w_netStatus = net_status_new\<rparr>"
  have p: "popO demo_fusion_out = Some (FusionData_new, demo_fusion\<lparr>du_oq := queue_setMax 15 queue_new\<rparr>)"
    by (simp add: popO_def demo_fusion_out_def queue_pop_def queue_setMax_def queue_new_def)
  have w: "distinct (map fst (w_clients ?w))" "ready (w_clients ?w) ''client1''"
    by (simp_all add: ready_def)
  have "ns_total (CalNetStatus r net_status_new) = 1" for r
    by (simp add: CalNetStatus_def net_status_new_def Let_def to_i32_id)
  then show ?thesis
    using fusion_send_counted[where enc = "\<lambda>_. []" and cfg = localConfig_new and
        net = "demo_net (\<lambda>_. Send_threw 1)", OF p demo_stoi w] by fastforce
qed

section \<open>Round trip of a target\<close>

text \<open>
  Converting a target of a message to the record of the algorithm and back gives the same target,
  if its number is written as \<open>std::to_string\<close> writes it and the distance, which neither conversion
  copies, is taken from the object converted into.
\<close>
lemma target_roundtrip:
  assumes "ot_objID t = string_of_int n" and "- (2 ^ 31) \<le> n" and "n < 2 ^ 31"
  shows "OBJECT_INFO_T2ObjTarget (ObjTarget2OBJECT_INFO_T t x) y = t\<lparr>ot_distance := ot_distance y\<rparr>"
  using assms atoi_string_of_int[of n]
  by (simp add: OBJECT_INFO_T2ObjTarget_def ObjTarget2OBJECT_INFO_T_def)

theorem target_roundtrip_witness:
  "OBJECT_INFO_T2ObjTarget (ObjTarget2OBJECT_INFO_T (demo_target (string_of_int 12)) OBJECT_INFO_T_new) ObjTarget_new =
     demo_target (string_of_int 12)"
  using target_roundtrip[of "demo_target (string_of_int 12)" 12 OBJECT_INFO_T_new ObjTarget_new]
  by (simp add: demo_target_def ObjTarget_new_def)

end
