(* ===== verification/Store.thy ===== *)
theory Store
  imports Fusion
begin

text \<open>
  The singleton \<open>Data\<close> of \<open>data/Data.cpp\<close>: the twelve units with the sizes they start with, the
  stage data of the signal controller, the directions of the roads and the two attributes read from
  the databases. The results of the two SQL queries are parameters: \<open>None\<close> when the database cannot
  be opened or asked, else the column of every row.
\<close>

record Data =
  da_isMerge :: bool
  da_roadDirection :: "int list"
  da_matrixNo :: string
  da_plateId :: string
  da_fusion :: "(WatchData, FusionData) data_unit"
  da_flow :: "(TrafficFlow, TrafficFlowGather) data_unit"
  da_jam :: "(CrossTrafficJamAlarm, CrossTrafficJamAlarm) data_unit"
  da_overflow :: "(IntersectionOverflowAlarm, IntersectionOverflowAlarm) data_unit"
  da_watch134 :: "(InWatchData_1_3_4, InWatchData_1_3_4) data_unit"
  da_watch2 :: "(InWatchData_2, InWatchData_2) data_unit"
  da_stopline :: "(StopLinePassData, StopLinePassData) data_unit"
  da_abnormal :: "(AbnormalStopData, AbnormalStopData) data_unit"
  da_longdist :: "(LongDistanceOnSolidLineAlarm, LongDistanceOnSolidLineAlarm) data_unit"
  da_human :: "(HumanData, HumanDataGather) data_unit"
  da_pole :: "(HumanLitPoleData, HumanLitPoleData) data_unit"
  da_detector :: "(TrafficDetectorStatus, TrafficDetectorStatus) data_unit"
  da_crossStage :: "CrossStageData list"

text \<open>
  Each query asks for the row with one ID, so there is one row or none. The loop over the rows takes the column
  of the last one; with its index \<open>ncolumn + n + m * nrow\<close> it finds the cell of one row, and would leave the
  table with more rows than one.
\<close>

definition getMatrixNo :: "string list option \<Rightarrow> string \<Rightarrow> int \<times> string" where
  "getMatrixNo db matrixNo =
     (case db of None \<Rightarrow> (- 1, matrixNo)
      | Some rows \<Rightarrow> (0, filter (\<lambda>c. c \<noteq> CHR ''-'') (if rows = [] then matrixNo else last rows)))"

definition getPlatId :: "string list option \<Rightarrow> string \<Rightarrow> int \<times> string" where
  "getPlatId db plateId =
     (case db of None \<Rightarrow> (- 1, plateId) | Some rows \<Rightarrow> (0, if rows = [] then plateId else last rows))"

definition Data_instance :: "LocalConfig \<Rightarrow> string list option \<Rightarrow> string list option \<Rightarrow> Data" where
  "Data_instance cfg db1 db2 =
     (let cliNum = lc_roadNum cfg in
      \<lparr>da_isMerge = True, da_roadDirection = [North, East, South, West],
       da_matrixNo = snd (getMatrixNo db1 ''0123456789''), da_plateId = snd (getPlatId db2 []),
       da_fusion = setCapNumI 15 cliNum WatchData_new data_unit_new,
       da_flow = setCapNumI 3 cliNum TrafficFlow_new data_unit_new,
       da_jam = data_unit_init 10 500 cliNum 1 (10 * 1000) CrossTrafficJamAlarm_new data_unit_new,
       da_overflow = data_unit_init 10 500 cliNum 1 10 IntersectionOverflowAlarm_new data_unit_new,
       da_watch134 = data_unit_init 10 500 cliNum 1 10 InWatchData_1_3_4_new data_unit_new,
       da_watch2 = data_unit_init 10 500 cliNum 1 10 InWatchData_2_new data_unit_new,
       da_stopline = data_unit_init 10 500 cliNum 1 10 StopLinePassData_new data_unit_new,
       da_abnormal = data_unit_init 10 500 cliNum 1 10 AbnormalStopData_new data_unit_new,
       da_longdist = data_unit_init 10 500 cliNum 1 10 LongDistanceOnSolidLineAlarm_new data_unit_new,
       da_human = data_unit_init 10 500 cliNum 1 10 HumanData_new data_unit_new,
       da_pole = setCapNumI 3 cliNum HumanLitPoleData_new data_unit_new,
       da_detector = data_unit_init 10 500 cliNum 1 10 TrafficDetectorStatus_new data_unit_new,
       da_crossStage = []\<rparr>)"

section \<open>Well-formedness\<close>

definition data_wf :: "Data \<Rightarrow> bool" where
  "data_wf d \<longleftrightarrow> du_wf (da_fusion d) \<and> du_wf (da_flow d) \<and> du_wf (da_jam d) \<and> du_wf (da_overflow d) \<and>
     du_wf (da_watch134 d) \<and> du_wf (da_watch2 d) \<and> du_wf (da_stopline d) \<and> du_wf (da_abnormal d) \<and>
     du_wf (da_longdist d) \<and> du_wf (da_human d) \<and> du_wf (da_pole d) \<and> du_wf (da_detector d)"

lemma du_wf_init_new [wf_rules]: "0 \<le> n \<Longrightarrow> du_wf (data_unit_init c fs n cache interval dflt data_unit_new)"
  using du_wf_setCapNumI[of n c dflt] by (simp add: data_unit_init_def du_wf_def)

lemma data_wf_instance: "0 \<le> lc_roadNum cfg \<Longrightarrow> data_wf (Data_instance cfg db1 db2)"
  by (simp add: data_wf_def Data_instance_def du_wf_setCapNumI du_wf_init_new Let_def)

end
