(* ===== verification/Signal.thy ===== *)
theory Signal
  imports Crc
begin

text \<open>
  The exchange with the signal controller, \<open>signalControl/\<close>: the frames of GB/T 20999-2017 with
  their data items, the escaping of bytes, the length and the checksum (\<open>signalControlCom.cpp\<close>),
  the table of object identifiers (\<open>signalControlCom.h\<close>) and the UDP client (\<open>SignalControl.cpp\<close>).

  \<open>vector::at\<close> throws outside its bounds and \<open>vector::operator[]\<close> and the iterators do not check
  them; both are errors of the model. Members that a constructor leaves uninitialised come from an
  argument. The calls of the socket are parameters.
\<close>

section \<open>Escaping\<close>

datatype sig_error = Out_of_range | Over_read

text \<open>
  \<open>TransferMean\<close> puts \<open>tf\<close> before every byte of \<open>needSet\<close> but the first and the last one. The loop
  runs up to \<open>out.size() - 1\<close>, which for an empty vector wraps, so that \<open>at\<close> throws.
\<close>

function transfer_from :: "nat \<Rightarrow> u8 \<Rightarrow> u8 list \<Rightarrow> bytes \<Rightarrow> bytes" where
  "transfer_from i tf needSet out =
     (if i < length out - 1 then
        if out ! i \<in> set needSet then transfer_from (Suc (Suc i)) tf needSet (take i out @ [tf] @ drop i out)
        else transfer_from (Suc i) tf needSet out
      else out)"
  by pat_completeness auto

termination by (relation "measure (\<lambda>(i, tf, needSet, out). length out - i)") auto

definition TransferMean :: "bytes \<Rightarrow> u8 \<Rightarrow> u8 list \<Rightarrow> sig_error + bytes" where
  "TransferMean xs tf needSet = (if xs = [] then Inl Out_of_range else Inr (transfer_from 1 tf needSet xs))"

function detransfer_from :: "nat \<Rightarrow> u8 \<Rightarrow> u8 list \<Rightarrow> bytes \<Rightarrow> bytes" where
  "detransfer_from i tf needSet out =
     (if i < length out - 1 then
        if out ! i = tf \<and> out ! Suc i \<in> set needSet
        then detransfer_from (Suc i) tf needSet (take i out @ drop (Suc i) out)
        else detransfer_from (Suc i) tf needSet out
      else out)"
  by pat_completeness auto

termination by (relation "measure (\<lambda>(i, tf, needSet, out). length out - i)") auto

declare transfer_from.simps [simp del] detransfer_from.simps [simp del]

definition DeTransferMean :: "bytes \<Rightarrow> u8 \<Rightarrow> u8 list \<Rightarrow> sig_error + bytes" where
  "DeTransferMean xs tf needSet = (if xs = [] then Inl Out_of_range else Inr (detransfer_from 1 tf needSet xs))"

section \<open>Data items\<close>

definition CRC16 :: "bytes \<Rightarrow> u16" where
  "CRC16 data = (if data = [] then 0 else Crc16Cal data 0x1005 0x0000 0x0000 0)"

record DataItem =
  di_index :: u8
  di_length :: u8
  di_typeID :: u8
  di_objID :: u8
  di_attrID :: u8
  di_elementID :: u8
  di_data :: bytes

definition DataItem_new :: "DataItem \<Rightarrow> DataItem" where
  "DataItem_new junk = junk\<lparr>di_typeID := 0, di_objID := 0, di_attrID := 0, di_elementID := 0, di_data := []\<rparr>"

definition item_getFromBytes :: "bytes \<Rightarrow> DataItem \<Rightarrow> sig_error + int \<times> DataItem" where
  "item_getFromBytes xs d =
     (if length xs < 2 then Inr (- 1, d)
      else let d = d\<lparr>di_index := xs ! 0, di_length := xs ! 1\<rparr>
           in if di_length d = 0 then Inr (0, d)
              else if length xs < 6 then Inl Over_read
              else Inr (0, d\<lparr>di_typeID := xs ! 2, di_objID := xs ! 3, di_attrID := xs ! 4, di_elementID := xs ! 5,
                     di_data := (if 6 < length xs then drop 6 xs else di_data d)\<rparr>))"

definition item_setToBytes :: "DataItem \<Rightarrow> bytes" where
  "item_setToBytes d = [di_index d, di_length d] @
     (if di_length d = 0 then []
      else [di_typeID d, di_objID d, di_attrID d, di_elementID d] @ di_data d)"

definition GetGroup :: "u8 \<Rightarrow> u8 \<Rightarrow> u8 \<Rightarrow> u8 \<Rightarrow> u8 \<Rightarrow> bytes option \<Rightarrow> DataItem \<Rightarrow> DataItem" where
  "GetGroup index typeID objID attrID elementID data d =
     (let d = d\<lparr>di_index := index\<rparr>;
          d = (case data of
             None \<Rightarrow> d\<lparr>di_length := 4, di_data := []\<rparr>
           | Some bs \<Rightarrow> d\<lparr>di_length := word_of_nat (4 + length bs), di_data := bs\<rparr>)
      in d\<lparr>di_typeID := typeID, di_objID := objID, di_attrID := attrID, di_elementID := elementID\<rparr>)"

section \<open>Frames\<close>

datatype ComType = ComType_TCP | ComType_UDP | ComType_RS232

text \<open>The constants of \<open>Type\<close>.\<close>

datatype FrameType =
    Type_Query | Type_QueryReply | Type_QueryErrorReply | Type_Set | Type_SetReply
  | Type_SetErrorReply | Type_Broadcast | Type_Trap | Type_HeartSearch | Type_HeartReply

fun frame_type_code :: "FrameType \<Rightarrow> u8" where
  "frame_type_code Type_Query = 0x10"
| "frame_type_code Type_QueryReply = 0x20"
| "frame_type_code Type_QueryErrorReply = 0x21"
| "frame_type_code Type_Set = 0x30"
| "frame_type_code Type_SetReply = 0x40"
| "frame_type_code Type_SetErrorReply = 0x41"
| "frame_type_code Type_Broadcast = 0x50"
| "frame_type_code Type_Trap = 0x60"
| "frame_type_code Type_HeartSearch = 0x70"
| "frame_type_code Type_HeartReply = 0x80"

record FrameAll =
  fa_isUpdateLength :: bool
  fa_isUpdateCRC :: bool
  fa_comType :: ComType
  fa_begin :: u8
  fa_length :: u16
  fa_version :: u16
  fa_controlCenterID :: u8
  fa_roadTrafficSignalControllerID :: u32
  fa_roadID :: u8
  fa_sequence :: u8
  fa_type :: u8
  fa_dataItemNum :: u8
  fa_dataItems :: "DataItem list"
  fa_crc16 :: u16
  fa_end :: u8

definition FrameAll_new :: "FrameAll \<Rightarrow> FrameAll" where
  "FrameAll_new junk = junk\<lparr>fa_isUpdateLength := False, fa_isUpdateCRC := False, fa_comType := ComType_UDP,
     fa_begin := 0x7e, fa_dataItems := [], fa_end := 0x7d\<rparr>"

definition be16 :: "u16 \<Rightarrow> bytes" where
  "be16 w = [ucast (drop_bit 8 (w AND 0xff00)), ucast (w AND 0x00ff)]"

definition be32 :: "u32 \<Rightarrow> bytes" where
  "be32 w = [ucast (drop_bit 24 (w AND 0xff000000)), ucast (drop_bit 16 (w AND 0x00ff0000)),
     ucast (drop_bit 8 (w AND 0x0000ff00)), ucast (w AND 0x000000ff)]"

definition un_be16 :: "u8 \<Rightarrow> u8 \<Rightarrow> u16" where
  "un_be16 a b = push_bit 8 (ucast a) + ucast b"

definition un_be32 :: "u8 \<Rightarrow> u8 \<Rightarrow> u8 \<Rightarrow> u8 \<Rightarrow> u32" where
  "un_be32 a b c d = push_bit 24 (ucast a) + push_bit 16 (ucast b) + push_bit 8 (ucast c) + ucast d"

text \<open>The loop over the items: their number, the position, the frame's items so far.\<close>

fun get_items :: "DataItem \<Rightarrow> nat \<Rightarrow> nat \<Rightarrow> bytes \<Rightarrow> DataItem list \<Rightarrow> sig_error + nat \<times> DataItem list" where
  "get_items junk 0 index xs items = Inr (index, items)"
| "get_items junk (Suc n) index xs items =
     (if length xs \<le> index + 1 then Inl Over_read
      else let dataItemLen = unat (xs ! (index + 1) + 2)
           in if length xs < index + dataItemLen then Inl Over_read
              else case item_getFromBytes (take dataItemLen (drop index xs)) (DataItem_new junk) of
                Inl e \<Rightarrow> Inl e
              | Inr (ret, d) \<Rightarrow> get_items junk n (index + dataItemLen) xs (items @ [d]))"

definition frame_getFromBytes :: "DataItem \<Rightarrow> bytes \<Rightarrow> FrameAll \<Rightarrow> sig_error + int \<times> FrameAll" where
  "frame_getFromBytes junk xs f =
     (if length xs < 17 then Inr (- 1, f)
      else let f = f\<lparr>fa_begin := xs ! 0, fa_length := un_be16 (xs ! 1) (xs ! 2),
                 fa_version := un_be16 (xs ! 3) (xs ! 4), fa_controlCenterID := xs ! 5,
                 fa_roadTrafficSignalControllerID := un_be32 (xs ! 6) (xs ! 7) (xs ! 8) (xs ! 9),
                 fa_roadID := xs ! 10, fa_sequence := xs ! 11, fa_type := xs ! 12, fa_dataItemNum := xs ! 13\<rparr>
           in case get_items junk (unat (fa_dataItemNum f)) 14 xs (fa_dataItems f) of
                Inl e \<Rightarrow> Inl e
              | Inr (index, items) \<Rightarrow>
                  if length xs < index + 3 then Inl Over_read
                  else Inr (0, f\<lparr>fa_dataItems := items, fa_crc16 := un_be16 (xs ! index) (xs ! (index + 1)),
                              fa_end := xs ! (index + 2)\<rparr>))"

definition frame_item_bytes :: "DataItem \<Rightarrow> bytes" where
  "frame_item_bytes d =
     (let length_iter = 4 + length (di_data d);
          d = (if unat (di_length d) \<noteq> length_iter then d\<lparr>di_length := word_of_nat length_iter\<rparr> else d)
      in item_setToBytes d)"

definition frame_setToBytes :: "FrameAll \<Rightarrow> bytes" where
  "frame_setToBytes f = [fa_begin f] @ be16 (fa_length f) @ be16 (fa_version f) @ [fa_controlCenterID f] @
     be32 (fa_roadTrafficSignalControllerID f) @ [fa_roadID f, fa_sequence f, fa_type f, fa_dataItemNum f] @
     concat (map frame_item_bytes (fa_dataItems f)) @ be16 (fa_crc16 f) @ [fa_end f]"

definition UpdateFrameLength :: "FrameAll \<Rightarrow> FrameAll" where
  "UpdateFrameLength f = f\<lparr>fa_length := word_of_nat (length (frame_setToBytes f)) - 4, fa_isUpdateLength := True\<rparr>"

text \<open>The bytes the checksum is over: without the first and the last three.\<close>

definition crc_range :: "bytes \<Rightarrow> bytes" where
  "crc_range xs = take (length xs - 4) (drop 1 xs)"

definition UpdateFrameCRC16 :: "FrameAll \<Rightarrow> FrameAll" where
  "UpdateFrameCRC16 f = f\<lparr>fa_crc16 := CRC16 (crc_range (frame_setToBytes f)), fa_isUpdateCRC := True\<rparr>"

definition UpdateByteLength :: "bytes \<Rightarrow> int \<times> bytes" where
  "UpdateByteLength xs =
     (if length xs < 17 then (- 1, xs)
      else let v = be16 (word_of_nat (length xs - 4)) in (0, xs[1 := v ! 0, 2 := v ! 1]))"

definition UpdateByteCRC16 :: "bytes \<Rightarrow> int \<times> bytes" where
  "UpdateByteCRC16 xs =
     (if length xs < 17 then (- 1, xs)
      else let v = be16 (CRC16 (crc_range xs))
           in (0, xs[length xs - 3 := v ! 0, length xs - 2 := v ! 1]))"

definition escaped_bytes :: "u8 list" where
  "escaped_bytes = [0x7e, 0x7d, 0x5c]"

definition getFromBytesWithTF :: "DataItem \<Rightarrow> bytes \<Rightarrow> bool \<Rightarrow> FrameAll \<Rightarrow> sig_error + int \<times> FrameAll" where
  "getFromBytesWithTF junk xs isCheckCRC f =
     (if length xs < 17 then Inr (- 1, f)
      else if word_of_nat (length xs - 4) \<noteq> un_be16 (xs ! 1) (xs ! 2) then Inr (- 1, f)
      else case (if fa_comType f \<noteq> ComType_UDP then DeTransferMean xs 0x5c escaped_bytes else Inr xs) of
          Inl e \<Rightarrow> Inl e
        | Inr bs \<Rightarrow>
            (case frame_getFromBytes junk bs f of
               Inl e \<Rightarrow> Inl e
             | Inr (_, f) \<Rightarrow>
                 Inr (if isCheckCRC \<and> CRC16 (crc_range bs) \<noteq>
                        un_be16 (bs ! (length bs - 3)) (bs ! (length bs - 2)) then - 1 else 0, f)))"

definition setToBytesWithTF :: "FrameAll \<Rightarrow> sig_error + bytes" where
  "setToBytesWithTF f =
     (case (if fa_comType f \<noteq> ComType_UDP then TransferMean (frame_setToBytes f) 0x5c escaped_bytes
            else Inr (frame_setToBytes f)) of
        Inl e \<Rightarrow> Inl e
      | Inr bs \<Rightarrow>
          let bs = (if fa_isUpdateLength f then bs else snd (UpdateByteLength bs))
          in Inr (if fa_isUpdateCRC f then bs else snd (UpdateByteCRC16 bs)))"

section \<open>Object identifiers\<close>

text \<open>
  An enumerator of \<open>DataItemType\<close> is its value: \<open>Unknown\<close> is 0, the others follow, from 1 on, in the
  order of the rows, and \<open>Len\<close> comes last. \<open>DataItemRows\<close> is the table with the enumerators' names,
  without their prefix and without the Chinese titles, in two parts; \<open>DataItemMap\<close> maps enumerators to values.
\<close>

type_synonym DataItemType = nat

definition DataItemRows_settings :: "(string \<times> u32) list" where
  "DataItemRows_settings = [
     (''DeviceManufacturer'', 0x01010000), (''DeviceVersion'', 0x01020000), (''DeviceNo'', 0x01030000),
     (''DeviceManufactureDate'', 0x01040000), (''DeviceConfigDate'', 0x01050000),
     (''BaseInstallRoad'', 0x02010000), (''BaseRSCNet4IP'', 0x02020100), (''BaseRSCNet4Mask'', 0x02020200),
     (''BaseRSCNet4Gateway'', 0x02020300), (''BaseCCNet4IP'', 0x02030100), (''BaseCCNet4Port'', 0x02030200),
     (''BaseCCNet4ComType'', 0x02030300), (''BaseRSCTimezone'', 0x02040000), (''BaseRSCID'', 0x02050000),
     (''BaseRSCControlRoadNum'', 0x02060000), (''BaseGPSCLKMark'', 0x02070000),
     (''BaseRSCNet6IP'', 0x02080100), (''BaseRSCNet6Mask'', 0x02080200),
     (''BaseRSCNet6Gateway'', 0x02080300), (''BaseCCNet6IP'', 0x02090100), (''BaseCCNet6Port'', 0x02090200),
     (''BaseCCNet6ComType'', 0x02090300), (''LGInfoNum'', 0x03010000), (''LGInfoConfigNo'', 0x03020100),
     (''LGInfoConfigType'', 0x03020200), (''LGInfoState'', 0x03030100), (''LGInfoControlNo'', 0x03040100),
     (''LGInfoControlShield'', 0x03040200), (''LGInfoControlForbid'', 0x03040300),
     (''PSInfoNum'', 0x04010000), (''PSInfoConfigNo'', 0x04020100), (''PSInfoConfigLG'', 0x04020200),
     (''PSInfoConfigLRWTLC1Type'', 0x04020300), (''PSInfoConfigLRWTLC1Time'', 0x04020400),
     (''PSInfoConfigLRWTLC2Type'', 0x04020500), (''PSInfoConfigLRWTLC2Time'', 0x04020600),
     (''PSInfoConfigLRWTLC3Type'', 0x04020700), (''PSInfoConfigLRWTLC3Time'', 0x04020800),
     (''PSInfoConfigGRWTLC1Type'', 0x04020900), (''PSInfoConfigGRWTLC1Time'', 0x04020a00),
     (''PSInfoConfigGRWTLC2Type'', 0x04020b00), (''PSInfoConfigGRWTLC2Time'', 0x04020c00),
     (''PSInfoConfigGRWTLC3Type'', 0x04020d00), (''PSInfoConfigGRWTLC3Time'', 0x04020e00),
     (''PSInfoConfigOnGRWTLC1Type'', 0x04020f00), (''PSInfoConfigOnGRWTLC1Time'', 0x04021000),
     (''PSInfoConfigOnGRWTLC2Type'', 0x04021100), (''PSInfoConfigOnGRWTLC2Time'', 0x04021200),
     (''PSInfoConfigOnGRWTLC3Type'', 0x04021300), (''PSInfoConfigOnGRWTLC3Time'', 0x04021400),
     (''PSInfoConfigOnLRWTLC1Type'', 0x04021500), (''PSInfoConfigOnLRWTLC1Time'', 0x04021600),
     (''PSInfoConfigOnLRWTLC2Type'', 0x04021700), (''PSInfoConfigOnLRWTLC2Time'', 0x04021800),
     (''PSInfoConfigOnLRWTLC3Type'', 0x04021900), (''PSInfoConfigOnLRWTLC3Time'', 0x04021a00),
     (''PSInfoConfigMinGTime'', 0x04021b00), (''PSInfoConfigMaxGTime1'', 0x04021c00),
     (''PSInfoConfigMaxGTime2'', 0x04021d00), (''PSInfoConfigExtendGTime'', 0x04021e00),
     (''PSInfoConfigNeed'', 0x04021f00), (''PSInfoControlNo'', 0x04030100),
     (''PSInfoControlShield'', 0x04030200), (''PSInfoControlForbid'', 0x04030300),
     (''DetectorInfoNum'', 0x05010000), (''DetectorInfoConfigNo'', 0x05020100),
     (''DetectorInfoConfigType'', 0x05020200), (''DetectorInfoConfigTCPeriod'', 0x05020300),
     (''DetectorInfoConfigOCPeriod'', 0x05020400), (''DetectorInfoConfigInstallPos'', 0x05020500),
     (''DetectorInfoStateNo'', 0x05030100), (''DetectorInfoStateCarExist'', 0x05030200),
     (''DetectorInfoStateCarSpeed'', 0x05030300), (''DetectorInfoStateCarType'', 0x05030400),
     (''DetectorInfoStateCarPlateNumber'', 0x05030500), (''DetectorInfoStateLaneQueueLen'', 0x05030600),
     (''PSSInfoConfigStageNum'', 0x06010000), (''PSSInfoConfigStageNo'', 0x06020100),
     (''PSSInfoConfigStagePS'', 0x06020200), (''PSSInfoConfigStageDelayOnTime'', 0x06020300),
     (''PSSInfoConfigStageAheadOffTime'', 0x06020400), (''PSSInfoStateNo'', 0x06030100),
     (''PSSInfoStateState'', 0x06030200), (''PSSInfoStateOnTime'', 0x06030300),
     (''PSSInfoStateLastTime'', 0x06030400), (''PSSInfoControlNo'', 0x06040100),
     (''PSSInfoControlSoftNeed'', 0x06040200), (''PSSInfoControlShieldMark'', 0x06040300),
     (''PSSInfoControlForbidMark'', 0x06040400), (''PSSafePSConflictNo'', 0x07010100),
     (''PSSafePSConflictSequence'', 0x07010200), (''PSSafePSGIntervalNo'', 0x07020100),
     (''PSSafePSGIntervalSequence'', 0x07020200), (''URPPriorNum'', 0x08010000),
     (''URPPriorConfigNo'', 0x08020100), (''URPPriorConfigReqPSS'', 0x08020200),
     (''URPPriorConfigReqPri'', 0x08020300), (''URPPriorConfigShieldMark'', 0x08020400),
     (''URPPriorStateNo'', 0x08030100), (''URPPriorStateReqState'', 0x08030200),
     (''URPPriorStateExeState'', 0x08030300), (''URPUrgentNum'', 0x08040000),
     (''URPUrgentConfigNo'', 0x08050100), (''URPUrgentConfigReqPSS'', 0x08050200),
     (''URPUrgentConfigReqPri'', 0x08050300), (''URPUrgentConfigShieldMark'', 0x08050400),
     (''URPUrgentStateNo'', 0x08060100), (''URPUrgentStateReqState'', 0x08060200),
     (''URPUrgentStateExeState'', 0x08060300), (''CPNum'', 0x09010000), (''CPConfigNo'', 0x09020100),
     (''CPConfigLaneSeq'', 0x09020200), (''CPConfigPeriod'', 0x09020300),
     (''CPConfigCoordinateSeq'', 0x09020400), (''CPConfigPSOffsetTime'', 0x09020500),
     (''CPConfigPSSChain'', 0x09020600), (''CPConfigPSSTimeChain'', 0x09020700),
     (''CPConfigPSSTypeChain'', 0x09020800), (''PTCConfigNo'', 0x0a010100), (''PTCConfigValue'', 0x0a010200),
     (''TTNum'', 0x0b010000), (''TTConfigNo'', 0x0b020100), (''TTConfigLaneSeq'', 0x0b020200),
     (''TTConfigStartTimeChain'', 0x0b020300), (''TTConfigExePlanChain'', 0x0b020400),
     (''TTConfigOnModelChain'', 0x0b020500), (''TTConfigActionChain1'', 0x0b020600),
     (''TTConfigActionChain2'', 0x0b020700), (''TTConfigActionChain3'', 0x0b020800),
     (''TTConfigActionChain4'', 0x0b020900), (''TTConfigActionChain5'', 0x0b020a00),
     (''TTConfigActionChain6'', 0x0b020b00), (''TTConfigActionChain7'', 0x0b020c00),
     (''TTConfigActionChain8'', 0x0b020d00)]"

definition DataItemRows_state :: "(string \<times> u32) list" where
  "DataItemRows_state = [
     (''DSNum'', 0x0c010000), (''DSConfigNo'', 0x0c020100),
     (''DSConfigLaneSeq'', 0x0c020200), (''DSConfigPrior'', 0x0c020300), (''DSConfigWeek'', 0x0c020400),
     (''DSConfigMonth'', 0x0c020500), (''DSConfigDay'', 0x0c020600), (''DSConfigTT'', 0x0c020700),
     (''OnStateDeviceDetectorState'', 0x0d010100), (''OnStateDeviceModelState'', 0x0d010200),
     (''OnStateDeviceGateState'', 0x0d010300), (''OnStateDeviceVoltage'', 0x0d010400),
     (''OnStateDeviceCurrent'', 0x0d010500), (''OnStateDeviceTemperature'', 0x0d010600),
     (''OnStateDeviceHumidity'', 0x0d010700), (''OnStateDeviceWater'', 0x0d010800),
     (''OnStateDeviceSmoke'', 0x0d010900), (''OnStateDeviceRSCUTC'', 0x0d010a00),
     (''OnStateDeviceRSCLocTime'', 0x0d010b00), (''OnStateLaneSeq'', 0x0d020100),
     (''OnStateOnModel'', 0x0d020200), (''OnStateCurPlan'', 0x0d020300), (''OnStateCurPSS'', 0x0d020400),
     (''TDLiveData'', 0x0e010000), (''TDStatisticDataDetectorNo'', 0x0e020100),
     (''TDStatisticDataDetectorFlow'', 0x0e020200), (''TDStatisticDataDetectorOccupy'', 0x0e020300),
     (''TDStatisticDataAvgSpeed'', 0x0e020400), (''AlarmDataCurNum'', 0x0f010000),
     (''AlarmDataNo'', 0x0f020100), (''AlarmDataType'', 0x0f020200), (''AlarmDataValue'', 0x0f020300),
     (''AlarmDataTime'', 0x0f020400), (''BugDataCurNum'', 0x10010000), (''BugDataNo'', 0x10020100),
     (''BugDataType'', 0x10020200), (''BugDataTime'', 0x10020300), (''BugDataAction'', 0x10020400),
     (''CenterControlLaneID'', 0x11010100), (''CenterControlAssignPSS'', 0x11020000),
     (''CenterControlAssignPlan'', 0x11030000), (''CenterControlAssignOnModel'', 0x11040000),
     (''CmdPipeValue'', 0x12010000)]"

definition DataItemRows :: "(string \<times> u32) list" where
  "DataItemRows = DataItemRows_settings @ DataItemRows_state"

definition DataItemMap :: "(DataItemType \<times> u32) list" where
  "DataItemMap = enumerate 1 (map snd DataItemRows)"

definition TypeID_Len :: u8 where "TypeID_Len = 0x13"

definition ReqGet :: "u8 \<Rightarrow> DataItemType \<Rightarrow> DataItem \<Rightarrow> int \<times> DataItem" where
  "ReqGet index type d =
     (case map_of DataItemMap type of
        None \<Rightarrow> (- 1, d)
      | Some v \<Rightarrow> let b = be32 v in (0, GetGroup index (b ! 0) (b ! 1) (b ! 2) (b ! 3) None d))"

definition ReqSet :: "u8 \<Rightarrow> DataItemType \<Rightarrow> bytes \<Rightarrow> DataItem \<Rightarrow> int \<times> DataItem" where
  "ReqSet index type data d =
     (case map_of DataItemMap type of
        None \<Rightarrow> (- 1, d)
      | Some v \<Rightarrow> let b = be32 v in (0, GetGroup index (b ! 0) (b ! 1) (b ! 2) (b ! 3) (Some data) d))"

text \<open>The class and the object of an answer; \<open>None\<close> where the code returns \<open>-1\<close>.\<close>

definition RspGetType :: "DataItem \<Rightarrow> (u8 \<times> DataItemType) option" where
  "RspGetType d =
     (if TypeID_Len < di_typeID d then None
      else let value = un_be32 (di_typeID d) (di_objID d) (di_attrID d) (di_elementID d)
           in case find (\<lambda>(t, v). v = value) DataItemMap of
                None \<Rightarrow> None
              | Some (t, v) \<Rightarrow> Some (di_typeID d, t))"

section \<open>The client\<close>

record SignalControl =
  sc_serverIP :: string
  sc_serverPort :: u32
  sc_localPort :: u32
  sc_isOpen :: bool
  sc_sock :: int

definition SignalControl_new :: "string \<Rightarrow> u32 \<Rightarrow> u32 \<Rightarrow> SignalControl" where
  "SignalControl_new ip port localPort =
     \<lparr>sc_serverIP = ip, sc_serverPort = port, sc_localPort = localPort, sc_isOpen = False, sc_sock = 0\<rparr>"

text \<open>\<open>fd\<close> is the result of \<open>socket\<close>, \<open>bound\<close> that of \<open>bind\<close>.\<close>

definition SignalControl_Open :: "int \<Rightarrow> int \<Rightarrow> SignalControl \<Rightarrow> int \<times> SignalControl" where
  "SignalControl_Open fd bound s =
     (if fd < 0 then (- 1, s)
      else if bound \<noteq> 0 then (- 1, s)
      else (0, s\<lparr>sc_sock := fd, sc_isOpen := True\<rparr>))"

definition SignalControl_Close :: "SignalControl \<Rightarrow> int \<times> SignalControl" where
  "SignalControl_Close s =
     (let s = (if 0 < sc_sock s then s\<lparr>sc_sock := 0\<rparr> else s) in (0, s\<lparr>sc_isOpen := False\<rparr>))"

text \<open>
  \<open>sendto\<close> gives the number of bytes sent, or \<open>-1\<close>; \<open>recvfrom\<close> the bytes received, at most 1024 of
  them, or \<open>None\<close> on an error or after 100 ms. The result is the return value and the received
  frame.
\<close>

definition Communicate :: "(bytes \<Rightarrow> int) \<Rightarrow> bytes option \<Rightarrow> DataItem \<Rightarrow> FrameAll \<Rightarrow> FrameAll \<Rightarrow> SignalControl \<Rightarrow>
    sig_error + int \<times> FrameAll" where
  "Communicate sendto recvfrom junk sendFrame recvFrame s =
     (if \<not> sc_isOpen s then Inr (- 1, recvFrame)
      else case setToBytesWithTF sendFrame of
        Inl e \<Rightarrow> Inl e
      | Inr sendBytes \<Rightarrow>
          if sendto sendBytes \<noteq> int (length sendBytes) then Inr (- 1, recvFrame)
          else case recvfrom of
            None \<Rightarrow> Inr (- 1, recvFrame)
          | Some bs \<Rightarrow>
              if bs = [] then Inr (- 1, recvFrame)
              else case getFromBytesWithTF junk (take 1024 bs) True recvFrame of
                Inl e \<Rightarrow> Inl e
              | Inr (_, recvFrame) \<Rightarrow> Inr (0, recvFrame))"

section \<open>Escaping is undone\<close>

definition escape :: "u8 \<Rightarrow> u8 list \<Rightarrow> bytes \<Rightarrow> bytes" where
  "escape tf needSet xs = concat (map (\<lambda>b. if b \<in> set needSet then [tf, b] else [b]) xs)"

lemma transfer_from_escape:
  "length pre = i \<Longrightarrow> transfer_from i tf needSet (pre @ xs @ [z]) = pre @ escape tf needSet xs @ [z]"
proof (induction xs arbitrary: pre i)
  case Nil
  then show ?case by (subst transfer_from.simps) (simp add: escape_def)
next
  case (Cons x xs)
  have nth: "(pre @ (x # xs) @ [z]) ! i = x" using Cons.prems by (auto simp: nth_append)
  show ?case
  proof (cases "x \<in> set needSet")
    case True
    then have "transfer_from i tf needSet (pre @ (x # xs) @ [z]) =
        transfer_from (Suc (Suc i)) tf needSet ((pre @ [tf, x]) @ xs @ [z])"
      using Cons.prems nth by (subst transfer_from.simps) simp
    then show ?thesis using Cons.IH[of "pre @ [tf, x]" "Suc (Suc i)"] Cons.prems True by (simp add: escape_def)
  next
    case False
    then have "transfer_from i tf needSet (pre @ (x # xs) @ [z]) =
        transfer_from (Suc i) tf needSet ((pre @ [x]) @ xs @ [z])"
      using Cons.prems nth by (subst transfer_from.simps) simp
    then show ?thesis using Cons.IH[of "pre @ [x]" "Suc i"] Cons.prems False by (simp add: escape_def)
  qed
qed

lemma detransfer_from_escape:
  "tf \<in> set needSet \<Longrightarrow> length pre = i \<Longrightarrow>
     detransfer_from i tf needSet (pre @ escape tf needSet xs @ [z]) = pre @ xs @ [z]"
proof (induction xs arbitrary: pre i)
  case Nil
  then show ?case by (subst detransfer_from.simps) (simp add: escape_def)
next
  case (Cons x xs)
  let ?r = "escape tf needSet xs @ [z]"
  have IH: "detransfer_from (Suc i) tf needSet ((pre @ [x]) @ ?r) = (pre @ [x]) @ xs @ [z]"
    using Cons.IH[of "pre @ [x]" "Suc i"] Cons.prems by simp
  show ?case
  proof (cases "x \<in> set needSet")
    case True
    have at: "(pre @ tf # x # ?r) ! i = tf" "(pre @ tf # x # ?r) ! Suc i = x"
      using Cons.prems(2) by (simp_all add: nth_append)
    have "detransfer_from i tf needSet (pre @ tf # x # ?r) = detransfer_from (Suc i) tf needSet (pre @ x # ?r)"
      using Cons.prems at True by (subst detransfer_from.simps) (simp add: less_diff_conv)
    then show ?thesis using IH True by (simp add: escape_def)
  next
    case False
    then have ne: "x \<noteq> tf" using Cons.prems(1) by auto
    have "(pre @ x # ?r) ! i = x" using Cons.prems(2) by (auto simp: nth_append)
    then have "detransfer_from i tf needSet (pre @ x # ?r) = detransfer_from (Suc i) tf needSet (pre @ x # ?r)"
      using Cons.prems ne by (subst detransfer_from.simps) simp
    then show ?thesis using IH False by (simp add: escape_def)
  qed
qed

text \<open>
  Escaping is undone by unescaping, whatever the bytes, as soon as the escape byte is itself one
  of the escaped ones; and between its ends an escaped text has each of them only behind an
  escape byte.
\<close>

lemma escape_roundtrip:
  assumes "xs \<noteq> []" and "tf \<in> set needSet"
  shows "\<exists>ys. TransferMean xs tf needSet = Inr ys \<and> DeTransferMean ys tf needSet = Inr xs \<and>
    hd ys = hd xs \<and> last ys = last xs \<and>
    (2 \<le> length xs \<longrightarrow> butlast (tl ys) = escape tf needSet (butlast (tl xs)))"
proof (cases "length xs = 1")
  case True
  then obtain x where "xs = [x]" by (cases xs) auto
  then show ?thesis
    by (simp add: TransferMean_def DeTransferMean_def) (subst transfer_from.simps detransfer_from.simps, simp)+
next
  case False
  then have "tl xs \<noteq> []" using assms(1) by (cases xs) auto
  then obtain x mid z where xs: "xs = x # mid @ [z]" using assms(1) by (metis append_butlast_last_id list.collapse)
  have t: "transfer_from 1 tf needSet xs = [x] @ escape tf needSet mid @ [z]"
    using transfer_from_escape[of "[x]" 1 tf needSet mid z] xs by simp
  have d: "detransfer_from 1 tf needSet ([x] @ escape tf needSet mid @ [z]) = xs"
    using detransfer_from_escape[OF assms(2), of "[x]" 1 mid z] xs by simp
  show ?thesis using assms(1) t d xs by (auto simp: TransferMean_def DeTransferMean_def butlast_append)
qed

lemma escape_roundtrip_witness:
  "\<exists>ys. TransferMean [0x7e, 1, 0x5c, 0x7d, 0x7d] 0x5c escaped_bytes = Inr ys \<and>
     DeTransferMean ys 0x5c escaped_bytes = Inr [0x7e, 1, 0x5c, 0x7d, 0x7d] \<and>
     butlast (tl ys) = [1, 0x5c, 0x5c, 0x5c, 0x7d]"
  using escape_roundtrip[of "[0x7e, 1, 0x5c, 0x7d, 0x7d]" "0x5c" escaped_bytes]
  by (auto simp: escaped_bytes_def escape_def)

section \<open>Reading back what was written\<close>

lemma bit_ucast_u8: "bit (ucast (b :: u8) :: 'a::len word) n \<longleftrightarrow> n < LENGTH('a) \<and> n < 8 \<and> bit b n"
  using bit_imp_le_length[of b n] by (auto simp: bit_simps)

lemma byte_masks:
  "(0xff00 :: u16) = push_bit 8 (mask 8)" "(0x00ff :: u16) = mask 8"
  "(0xff000000 :: u32) = push_bit 24 (mask 8)" "(0x00ff0000 :: u32) = push_bit 16 (mask 8)"
  "(0x0000ff00 :: u32) = push_bit 8 (mask 8)" "(0x000000ff :: u32) = mask 8"
  by (simp_all add: mask_eq_exp_minus_1)

lemma be16_eq: "be16 w = [ucast (drop_bit 8 w), ucast w]"
  unfolding be16_def byte_masks by (auto intro!: bit_word_eqI simp: bit_simps)

lemma be32_eq: "be32 w = [ucast (drop_bit 24 w), ucast (drop_bit 16 w), ucast (drop_bit 8 w), ucast w]"
  unfolding be32_def byte_masks by (auto intro!: bit_word_eqI simp: bit_simps)

lemma un_be16_or: "un_be16 a b = push_bit 8 (ucast a) OR ucast b"
  unfolding un_be16_def
  by (rule disjunctive_add_eq_or) (auto intro!: bit_word_eqI simp: bit_and_iff bit_or_iff bit_push_bit_iff bit_ucast_u8)

lemma un_be16_be16 [simp]: "un_be16 (be16 w ! 0) (be16 w ! Suc 0) = w"
proof (rule bit_word_eqI)
  fix n assume "n < LENGTH(16)"
  then show "bit (un_be16 (be16 w ! 0) (be16 w ! Suc 0)) n = bit w n"
    by (cases "8 \<le> n") (auto simp: un_be16_or be16_eq bit_simps)
qed

lemma un_be32_or: "un_be32 a b c d = push_bit 24 (ucast a) OR push_bit 16 (ucast b) OR push_bit 8 (ucast c) OR ucast d"
proof -
  have "push_bit 24 (ucast a :: u32) + push_bit 16 (ucast b) = push_bit 24 (ucast a) OR push_bit 16 (ucast b)"
    by (rule disjunctive_add_eq_or) (auto intro!: bit_word_eqI simp: bit_and_iff bit_or_iff bit_push_bit_iff bit_ucast_u8)
  moreover have "(push_bit 24 (ucast a :: u32) OR push_bit 16 (ucast b)) + push_bit 8 (ucast c) =
      (push_bit 24 (ucast a) OR push_bit 16 (ucast b)) OR push_bit 8 (ucast c)"
    by (rule disjunctive_add_eq_or) (auto intro!: bit_word_eqI simp: bit_and_iff bit_or_iff bit_push_bit_iff bit_ucast_u8)
  moreover have "((push_bit 24 (ucast a :: u32) OR push_bit 16 (ucast b)) OR push_bit 8 (ucast c)) + ucast d =
      ((push_bit 24 (ucast a) OR push_bit 16 (ucast b)) OR push_bit 8 (ucast c)) OR ucast d"
    by (rule disjunctive_add_eq_or) (auto intro!: bit_word_eqI simp: bit_and_iff bit_or_iff bit_push_bit_iff bit_ucast_u8)
  ultimately show ?thesis by (simp add: un_be32_def or.assoc)
qed

lemma un_be32_be32 [simp]: "un_be32 (be32 w ! 0) (be32 w ! Suc 0) (be32 w ! 2) (be32 w ! 3) = w"
proof (rule bit_word_eqI)
  fix n assume "n < LENGTH(32)"
  then show "bit (un_be32 (be32 w ! 0) (be32 w ! Suc 0) (be32 w ! 2) (be32 w ! 3)) n = bit w n"
    by (cases "24 \<le> n"; cases "16 \<le> n"; cases "8 \<le> n") (auto simp: un_be32_or be32_eq bit_simps)
qed

lemma unat_of_nat_u8: "n < 2 ^ 8 \<Longrightarrow> unat (word_of_nat n :: u8) = n"
  by (simp add: unat_of_nat take_bit_nat_eq_self)

text \<open>What an item becomes on the wire, and the items whose length byte can hold it.\<close>

definition item_len :: "DataItem \<Rightarrow> u8" where
  "item_len d = word_of_nat (4 + length (di_data d))"

definition item_norm :: "DataItem \<Rightarrow> DataItem" where
  "item_norm d = d\<lparr>di_length := item_len d\<rparr>"

definition item_ok :: "DataItem \<Rightarrow> bool" where
  "item_ok d \<longleftrightarrow> length (di_data d) \<le> 249"

lemma item_len:
  assumes "item_ok d"
  shows "unat (item_len d) = 4 + length (di_data d)" "item_len d \<noteq> 0" "unat (item_len d + 2) = 6 + length (di_data d)"
proof -
  show w: "unat (item_len d) = 4 + length (di_data d)"
    unfolding item_len_def by (rule unat_of_nat_u8) (use assms in \<open>simp add: item_ok_def\<close>)
  then show "item_len d \<noteq> 0" by auto
  have "unat (item_len d + 2) = unat (item_len d) + unat (2 :: u8)"
    by (rule unat_add_lem[THEN iffD1]) (use assms w in \<open>simp add: item_ok_def\<close>)
  then show "unat (item_len d + 2) = 6 + length (di_data d)" using w by simp
qed

lemma frame_item_bytes_eq:
  assumes "item_ok d"
  shows "frame_item_bytes d =
    [di_index d, item_len d, di_typeID d, di_objID d, di_attrID d, di_elementID d] @ di_data d"
proof -
  note w = item_len[OF assms]
  have "di_length d = item_len d" if "unat (di_length d) = 4 + length (di_data d)"
    using that w(1) by (metis unsigned_word_eqI)
  then show ?thesis
    using w(2) by (auto simp: frame_item_bytes_def item_setToBytes_def Let_def item_len_def[symmetric]
        simp del: of_nat_add)
qed

lemma get_items_written:
  "\<forall>d \<in> set ds. item_ok d \<Longrightarrow> index = length pre \<Longrightarrow>
     get_items junk (length ds) index (pre @ concat (map frame_item_bytes ds) @ post) items =
       Inr (index + length (concat (map frame_item_bytes ds)), items @ map item_norm ds)"
proof (induction ds arbitrary: pre index items)
  case (Cons d ds)
  have ok: "item_ok d" using Cons.prems(1) by simp
  note b = frame_item_bytes_eq[OF ok] and l = item_len[OF ok]
  let ?b = "frame_item_bytes d" and ?rest = "concat (map frame_item_bytes ds) @ post"
  have len: "length ?b = 6 + length (di_data d)" using b by simp
  have at: "(pre @ ?b @ ?rest) ! Suc (length pre) = item_len d"
    using b by (simp add: nth_append)
  have it: "item_getFromBytes ?b (DataItem_new junk) = Inr (0, item_norm d)"
    using b l(2) by (auto simp: item_getFromBytes_def item_norm_def DataItem_new_def Let_def)
  have "get_items junk (length (d # ds)) index (pre @ ?b @ ?rest) items =
      get_items junk (length ds) (index + length ?b) ((pre @ ?b) @ ?rest) (items @ [item_norm d])"
    using Cons.prems(2) at l(3) len it by (simp add: Let_def)
  then show ?case
    using Cons.IH[of "index + length ?b" "pre @ ?b" "items @ [item_norm d]"] Cons.prems by (simp add: add.assoc)
qed simp

text \<open>The frame with the length and the checksum that are sent with it.\<close>

definition frame_sized :: "FrameAll \<Rightarrow> FrameAll" where
  "frame_sized f = f\<lparr>fa_length := word_of_nat (length (frame_setToBytes f) - 4)\<rparr>"

definition frame_signed :: "FrameAll \<Rightarrow> FrameAll" where
  "frame_signed f = (let f = frame_sized f in f\<lparr>fa_crc16 := CRC16 (crc_range (frame_setToBytes f))\<rparr>)"

abbreviation items_bytes :: "FrameAll \<Rightarrow> bytes" where
  "items_bytes f \<equiv> concat (map frame_item_bytes (fa_dataItems f))"

lemma length_frame_setToBytes: "length (frame_setToBytes f) = 17 + length (items_bytes f)"
  by (simp add: frame_setToBytes_def be16_eq be32_eq)

lemma update_last: "(ys @ [a, b, c])[length (ys @ [a, b, c]) - 3 := p, length (ys @ [a, b, c]) - 2 := q] = ys @ [p, q, c]"
  by (simp add: list_update_append)

lemma UpdateByteLength_frame: "snd (UpdateByteLength (frame_setToBytes f)) = frame_setToBytes (frame_sized f)"
  unfolding UpdateByteLength_def frame_sized_def
  by (simp add: length_frame_setToBytes Let_def) (simp add: frame_setToBytes_def be16_eq numeral_2_eq_2)

lemma UpdateByteCRC16_frame:
  "snd (UpdateByteCRC16 (frame_setToBytes f)) =
     frame_setToBytes (f\<lparr>fa_crc16 := CRC16 (crc_range (frame_setToBytes f))\<rparr>)"
proof -
  let ?c = "CRC16 (crc_range (frame_setToBytes f))"
  obtain ys where ys: "\<And>c. frame_setToBytes (f\<lparr>fa_crc16 := c\<rparr>) = ys @ [be16 c ! 0, be16 c ! 1, fa_end f]"
    unfolding frame_setToBytes_def by (simp add: be16_eq)
  let ?xs = "frame_setToBytes f"
  have "snd (UpdateByteCRC16 ?xs) = ?xs[length ?xs - 3 := be16 ?c ! 0, length ?xs - 2 := be16 ?c ! 1]"
    by (simp add: UpdateByteCRC16_def Let_def length_frame_setToBytes)
  moreover have "?xs = ys @ [be16 (fa_crc16 f) ! 0, be16 (fa_crc16 f) ! 1, fa_end f]"
    using ys[of "fa_crc16 f"] by simp
  ultimately have "snd (UpdateByteCRC16 ?xs) = ys @ [be16 ?c ! 0, be16 ?c ! 1, fa_end f]"
    using update_last[of ys] by metis
  then show ?thesis using ys[of ?c] by simp
qed

lemma setToBytesWithTF_UDP:
  assumes "fa_comType f = ComType_UDP" "\<not> fa_isUpdateLength f" "\<not> fa_isUpdateCRC f"
  shows "setToBytesWithTF f = Inr (frame_setToBytes (frame_signed f))"
  using assms by (simp add: setToBytesWithTF_def UpdateByteLength_frame UpdateByteCRC16_frame frame_signed_def Let_def)

lemma items_length:
  "\<forall>d \<in> set ds. item_ok d \<Longrightarrow> length (concat (map frame_item_bytes ds)) \<le> 255 * length ds"
  by (induction ds) (auto simp: frame_item_bytes_eq item_ok_def)

lemma frame_getFromBytes_written:
  assumes "\<forall>d \<in> set (fa_dataItems f). item_ok d" "unat (fa_dataItemNum f) = length (fa_dataItems f)"
  shows "frame_getFromBytes junk (frame_setToBytes f) (FrameAll_new g) =
    Inr (0, f\<lparr>fa_isUpdateLength := False, fa_isUpdateCRC := False, fa_comType := ComType_UDP,
      fa_dataItems := map item_norm (fa_dataItems f)\<rparr>)"
proof -
  let ?xs = "frame_setToBytes f" and ?n = "length (fa_dataItems f)"
  define h where "h = [fa_begin f] @ be16 (fa_length f) @ be16 (fa_version f) @ [fa_controlCenterID f] @
     be32 (fa_roadTrafficSignalControllerID f) @ [fa_roadID f, fa_sequence f, fa_type f, fa_dataItemNum f]"
  define post where "post = be16 (fa_crc16 f) @ [fa_end f]"
  have xs: "?xs = h @ items_bytes f @ post" by (simp add: h_def post_def frame_setToBytes_def)
  have lh: "length h = 14" and lp: "length post = 3" by (simp_all add: h_def post_def be16_eq be32_eq)
  have head: "?xs ! 0 = fa_begin f" "un_be16 (?xs ! 1) (?xs ! 2) = fa_length f"
    "un_be16 (?xs ! 3) (?xs ! 4) = fa_version f" "?xs ! 5 = fa_controlCenterID f"
    "un_be32 (?xs ! 6) (?xs ! 7) (?xs ! 8) (?xs ! 9) = fa_roadTrafficSignalControllerID f"
    "?xs ! 10 = fa_roadID f" "?xs ! 11 = fa_sequence f" "?xs ! 12 = fa_type f" "?xs ! 13 = fa_dataItemNum f"
    using un_be16_be16[of "fa_length f"] un_be16_be16[of "fa_version f"]
      un_be32_be32[of "fa_roadTrafficSignalControllerID f"]
    by (simp_all add: frame_setToBytes_def be16_eq be32_eq del: un_be16_be16 un_be32_be32)
  have items: "get_items junk ?n 14 ?xs [] = Inr (14 + length (items_bytes f), map item_norm (fa_dataItems f))"
    using get_items_written[OF assms(1) lh[symmetric], of junk post "[]"] xs by simp
  have at: "?xs ! (14 + length (items_bytes f) + k) = post ! k" for k
    unfolding xs using lh by (simp add: nth_append)
  have tail: "un_be16 (?xs ! (14 + length (items_bytes f))) (?xs ! (14 + length (items_bytes f) + 1)) = fa_crc16 f"
    "?xs ! (14 + length (items_bytes f) + 2) = fa_end f"
    using at[of 0] at[of 1] at[of 2] un_be16_be16[of "fa_crc16 f"]
    by (simp_all add: post_def be16_eq del: un_be16_be16)
  show ?thesis
    using head items tail assms(2) length_frame_setToBytes[of f]
    by (simp add: frame_getFromBytes_def FrameAll_new_def Let_def)
qed

lemma crc_range_frame: "crc_range (frame_setToBytes (f\<lparr>fa_crc16 := c\<rparr>)) = crc_range (frame_setToBytes f)"
  by (simp add: crc_range_def frame_setToBytes_def be16_eq be32_eq)

lemma frame_field_bytes:
  "un_be16 (frame_setToBytes f ! 1) (frame_setToBytes f ! 2) = fa_length f"
  "un_be16 (frame_setToBytes f ! (length (frame_setToBytes f) - 3)) (frame_setToBytes f ! (length (frame_setToBytes f) - 2)) =
     fa_crc16 f"
proof -
  show "un_be16 (frame_setToBytes f ! 1) (frame_setToBytes f ! 2) = fa_length f"
    using un_be16_be16[of "fa_length f"] by (simp add: frame_setToBytes_def be16_eq del: un_be16_be16)
  obtain ys where ys: "frame_setToBytes f = ys @ [be16 (fa_crc16 f) ! 0, be16 (fa_crc16 f) ! 1, fa_end f]"
    unfolding frame_setToBytes_def by (simp add: be16_eq)
  show "un_be16 (frame_setToBytes f ! (length (frame_setToBytes f) - 3)) (frame_setToBytes f ! (length (frame_setToBytes f) - 2)) =
     fa_crc16 f"
    unfolding ys by (simp add: nth_append)
qed

lemma frame_written_read:
  assumes "fa_comType f = ComType_UDP" "\<not> fa_isUpdateLength f" "\<not> fa_isUpdateCRC f"
    and "\<forall>d \<in> set (fa_dataItems f). item_ok d" and "unat (fa_dataItemNum f) = length (fa_dataItems f)"
  shows "setToBytesWithTF f = Inr (frame_setToBytes (frame_signed f))"
    and "getFromBytesWithTF junk (frame_setToBytes (frame_signed f)) True (FrameAll_new g) =
      Inr (0, (frame_signed f)\<lparr>fa_dataItems := map item_norm (fa_dataItems f)\<rparr>)"
proof -
  let ?f = "frame_signed f"
  let ?bs = "frame_setToBytes ?f"
  have items: "fa_dataItems ?f = fa_dataItems f" "fa_dataItemNum ?f = fa_dataItemNum f"
    and len: "fa_length ?f = word_of_nat (length ?bs - 4)"
    and flags: "?f\<lparr>fa_isUpdateLength := False, fa_isUpdateCRC := False, fa_comType := ComType_UDP\<rparr> = ?f"
    using assms(1-3) by (simp_all add: frame_signed_def frame_sized_def Let_def length_frame_setToBytes)
  have crc: "fa_crc16 ?f = CRC16 (crc_range ?bs)"
    by (simp add: frame_signed_def Let_def crc_range_frame)
  have get: "frame_getFromBytes junk ?bs (FrameAll_new g) = Inr (0, ?f\<lparr>fa_dataItems := map item_norm (fa_dataItems f)\<rparr>)"
    using frame_getFromBytes_written[of ?f junk g] assms(4,5) flags by (simp add: items)
  have "17 \<le> length ?bs" by (simp add: length_frame_setToBytes)
  then show "getFromBytesWithTF junk ?bs True (FrameAll_new g) =
      Inr (0, ?f\<lparr>fa_dataItems := map item_norm (fa_dataItems f)\<rparr>)"
    using get len crc frame_field_bytes[of ?f]
    by (simp add: getFromBytesWithTF_def) (simp add: FrameAll_new_def)
  show "setToBytesWithTF f = Inr ?bs" by (rule setToBytesWithTF_UDP[OF assms(1-3)])
qed

text \<open>
  C14. A frame of the UDP client comes back as it was sent: what \<open>setToBytesWithTF\<close> writes, with the
  length and the checksum it fills in, passes the checks of \<open>getFromBytesWithTF\<close> and gives the same
  frame again, if the number of items is the one stated and no item holds more than 249 bytes.
\<close>

theorem signal_frame_roundtrip:
  assumes "fa_comType f = ComType_UDP" "\<not> fa_isUpdateLength f" "\<not> fa_isUpdateCRC f"
    and "\<forall>d \<in> set (fa_dataItems f). item_ok d" and "unat (fa_dataItemNum f) = length (fa_dataItems f)"
  shows "\<exists>bs. setToBytesWithTF f = Inr bs \<and>
    getFromBytesWithTF junk bs True (FrameAll_new g) =
      Inr (0, (frame_signed f)\<lparr>fa_dataItems := map item_norm (fa_dataItems f)\<rparr>)"
  using frame_written_read[OF assms] by blast

lemma get_items_error: "get_items junk n index xs items = Inl e \<Longrightarrow> e = Over_read"
proof (induction junk n index xs items rule: get_items.induct)
  case (2 junk n index xs items)
  show ?case
  proof (cases "item_getFromBytes (take (unat (xs ! (index + 1) + 2)) (drop index xs)) (DataItem_new junk)")
    case (Inl e')
    then have "e' = Over_read" by (auto simp: item_getFromBytes_def Let_def split: if_splits)
    then show ?thesis using 2(2) Inl by (auto simp: Let_def split: if_splits)
  next
    case (Inr r)
    then show ?thesis
      using 2(1)[OF _ refl _ Inr, of "fst r" "snd r"] 2(2) by (cases r) (auto simp: Let_def split: if_splits)
  qed
qed simp

lemma getFromBytesWithTF_error:
  "getFromBytesWithTF junk xs b f = Inl e \<Longrightarrow> fa_comType f = ComType_UDP \<Longrightarrow> e = Over_read"
  by (auto simp: getFromBytesWithTF_def frame_getFromBytes_def Let_def dest: get_items_error
      split: if_splits sum.splits prod.splits)

lemma Communicate_error:
  assumes "Communicate sendto recvfrom junk f g s = Inl e" "setToBytesWithTF f = Inr bs" "fa_comType g = ComType_UDP"
  shows "e = Over_read"
  using assms by (auto simp: Communicate_def dest: getFromBytesWithTF_error split: if_splits sum.splits option.splits)

text \<open>
  C15. The frame parser trusts the length byte of an item: a datagram of at least 17 bytes, with a right length
  field and an item count that is not 0, makes it read beyond the end of the buffer, before the checksum is
  compared, when its first item, which has two bytes more than its length byte says, counted in a
  \<open>uint8_t\<close>, ends behind the datagram. A shorter datagram, or a wrong length field, is refused.
\<close>

theorem item_length_overread:
  assumes "xs ! 13 \<noteq> 0" and "length xs < 14 + unat (xs ! 15 + 2)"
  shows "getFromBytesWithTF junk xs b (FrameAll_new g) =
    (if length xs < 17 \<or> word_of_nat (length xs - 4) \<noteq> un_be16 (xs ! 1) (xs ! 2) then Inr (- 1, FrameAll_new g)
     else Inl Over_read)"
proof (cases "length xs < 17 \<or> word_of_nat (length xs - 4) \<noteq> un_be16 (xs ! 1) (xs ! 2)")
  case False
  then have "17 \<le> length xs" "word_of_nat (length xs - 4) = un_be16 (xs ! 1) (xs ! 2)" by simp_all
  moreover obtain n where "unat (xs ! 13) = Suc n" using assms(1) by (metis not0_implies_Suc unat_eq_zero)
  then have "get_items junk (unat (xs ! 13)) 14 xs [] = Inl Over_read"
    using False assms(2) by (simp add: Let_def)
  ultimately show ?thesis
    by (simp add: getFromBytesWithTF_def frame_getFromBytes_def FrameAll_new_def Let_def)
next
  case True
  then show ?thesis by (auto simp: getFromBytesWithTF_def)
qed

text \<open>
  \<open>Communicate\<close> does not look at the result of decoding: when the answer is too short, or its
  length field is wrong, it still returns 0, and the received frame is left as it was.
\<close>
lemma communicate_ignores_decoding:
  assumes "sc_isOpen s" and "setToBytesWithTF sendFrame = Inr out" and "sendto out = int (length out)"
    and "bs \<noteq> []" and "length bs \<le> 1024"
    and "length bs < 17 \<or> word_of_nat (length bs - 4) \<noteq> un_be16 (bs ! 1) (bs ! 2)"
  shows "getFromBytesWithTF junk bs True f = Inr (- 1, f) \<and>
    Communicate sendto (Some bs) junk sendFrame f s = Inr (0, f)"
  using assms by (auto simp: Communicate_def getFromBytesWithTF_def)

section \<open>The table of objects\<close>

lemmas DataItemRows_defs = DataItemRows_def DataItemRows_settings_def DataItemRows_state_def

lemma DataItemRows_length: "length DataItemRows = 177"
  by (simp add: DataItemRows_defs)

lemma DataItemRows_increasing: "successively (<) (map (uint \<circ> snd) DataItemRows)"
  by (simp add: DataItemRows_defs)

lemma DataItemRows_types: "list_all (\<lambda>v. uint v < 0x13000000) (map snd DataItemRows)"
  by (simp add: DataItemRows_defs)

lemma DataItemRows_distinct: "distinct (map snd DataItemRows)"
proof -
  have "sorted_wrt (<) (map uint (map snd DataItemRows))"
    using DataItemRows_increasing by (simp add: successively_conv_sorted_wrt o_def)
  then have "distinct (map uint (map snd DataItemRows))" by (metis strict_sorted_iff)
  then show ?thesis unfolding distinct_map[of uint] by blast
qed

lemma DataItemMap_find:
  assumes "1 \<le> t" "t \<le> 177"
  defines "v \<equiv> snd (DataItemRows ! (t - 1))"
  shows "map_of DataItemMap t = Some v" "find (\<lambda>(t', v'). v' = v) DataItemMap = Some (t, v)"
    "uint v < 0x13000000"
proof -
  have m: "DataItemMap = zip [1..<178] (map snd DataItemRows)"
    by (simp add: DataItemMap_def enumerate_eq_zip DataItemRows_length)
  have k: "t - 1 < 177" "[1..<178] ! (t - 1) = t" "map snd DataItemRows ! (t - 1) = v"
    using assms by (simp_all add: DataItemRows_length v_def)
  show "map_of DataItemMap t = Some v"
    using map_of_zip_nth[of "[1..<178]" "map snd DataItemRows" "t - 1"] k
    by (simp add: m DataItemRows_length)
  have "\<not> (case DataItemMap ! j of (t', v') \<Rightarrow> v' = v)" if "j < t - 1" for j
  proof -
    have "map snd DataItemRows ! j \<noteq> map snd DataItemRows ! (t - 1)"
      using nth_eq_iff_index_eq[OF DataItemRows_distinct, of j "t - 1"] that k(1) by (simp add: DataItemRows_length)
    then show ?thesis using that k by (simp add: m DataItemRows_length)
  qed
  moreover have "DataItemMap ! (t - 1) = (t, v)" "length DataItemMap = 177"
    using k by (simp_all add: m DataItemRows_length)
  ultimately show "find (\<lambda>(t', v'). v' = v) DataItemMap = Some (t, v)"
    unfolding find_Some_iff using k(1) by (intro exI[of _ "t - 1"]) auto
  show "uint v < 0x13000000"
    using DataItemRows_types k by (simp add: list_all_length DataItemRows_length) (metis k(3) nth_map DataItemRows_length)
qed

lemma DataItemMap_none: "t = 0 \<or> 177 < t \<Longrightarrow> map_of DataItemMap t = None"
  by (auto simp: DataItemMap_def map_of_eq_None_iff DataItemRows_length dest: in_set_enumerate_eq[THEN iffD1])

lemma be32_class: "uint v < 0x13000000 \<Longrightarrow> be32 v ! 0 \<le> TypeID_Len"
  proof -
  assume "uint v < 0x13000000"
  then have "drop_bit 24 (uint v) < 0x13" by (simp add: drop_bit_eq_div)
  moreover have "take_bit 8 (drop_bit 24 (uint v)) \<le> drop_bit 24 (uint v)"
    by (simp add: take_bit_int_less_eq_self_iff)
  moreover have "take_bit 32 (uint v) = uint v" using uint_lt2p[of v] by (intro take_bit_int_eq_self) simp_all
  ultimately show ?thesis
    by (simp add: be32_eq TypeID_Len_def word_le_def unsigned_ucast_eq unsigned_drop_bit_eq)
qed

text \<open>
  A query of any of the 177 objects of the table is a well-formed item without data, and the
  answer that carries the same identifiers is recognised as that object; any other value of the
  enumeration is refused and changes nothing.
\<close>
lemma object_query_recognised:
  "ReqGet i t d = (if 1 \<le> t \<and> t \<le> 177 then (0, snd (ReqGet i t d)) else (- 1, d)) \<and>
   (1 \<le> t \<and> t \<le> 177 \<longrightarrow> item_ok (snd (ReqGet i t d)) \<and> item_norm (snd (ReqGet i t d)) = snd (ReqGet i t d) \<and>
      (\<forall>ans. di_typeID ans = di_typeID (snd (ReqGet i t d)) \<and> di_objID ans = di_objID (snd (ReqGet i t d)) \<and>
         di_attrID ans = di_attrID (snd (ReqGet i t d)) \<and> di_elementID ans = di_elementID (snd (ReqGet i t d)) \<longrightarrow>
         RspGetType ans = Some (di_typeID ans, t)))"
proof (cases "1 \<le> t \<and> t \<le> 177")
  case True
  then have t: "1 \<le> t" "t \<le> 177" by auto
  note f = DataItemMap_find[OF t]
  let ?v = "snd (DataItemRows ! (t - 1))"
  have "un_be32 (be32 ?v ! 0) (be32 ?v ! Suc 0) (be32 ?v ! 2) (be32 ?v ! 3) = ?v" by (rule un_be32_be32)
  then show ?thesis
    using True f be32_class[OF f(3)]
    by (auto simp: ReqGet_def GetGroup_def RspGetType_def item_ok_def item_norm_def item_len_def Let_def not_le[symmetric])
next
  case False
  then show ?thesis using DataItemMap_none[of t] by (auto simp: ReqGet_def)
qed

section \<open>Witnesses\<close>

definition sig_demo_item :: DataItem where
  "sig_demo_item = \<lparr>di_index = 1, di_length = 13, di_typeID = 192, di_objID = 2, di_attrID = 1, di_elementID = 0,
     di_data = [0xfe, 7, 0, 0, 3, 1, 1, 1, 0xff]\<rparr>"

definition sig_demo_frame :: FrameAll where
  "sig_demo_frame = FrameAll_new \<lparr>fa_isUpdateLength = True, fa_isUpdateCRC = True, fa_comType = ComType_TCP, fa_begin = 0,
     fa_length = 7, fa_version = 0x0100, fa_controlCenterID = 1, fa_roadTrafficSignalControllerID = 21, fa_roadID = 1,
     fa_sequence = 1, fa_type = frame_type_code Type_Set, fa_dataItemNum = 1, fa_dataItems = [], fa_crc16 = 9,
     fa_end = 0\<rparr>"

lemma sig_demo_frame_simps [simp]:
  "fa_comType sig_demo_frame = ComType_UDP" "\<not> fa_isUpdateLength sig_demo_frame" "\<not> fa_isUpdateCRC sig_demo_frame"
  "fa_dataItems sig_demo_frame = []" "fa_dataItemNum sig_demo_frame = 1"
  by (simp_all add: sig_demo_frame_def FrameAll_new_def)

theorem signal_frame_roundtrip_witness:
  "\<exists>bs f'. setToBytesWithTF (sig_demo_frame\<lparr>fa_dataItems := [sig_demo_item]\<rparr>) = Inr bs \<and>
     getFromBytesWithTF sig_demo_item bs True (FrameAll_new sig_demo_frame) = Inr (0, f') \<and>
     fa_dataItems f' = [sig_demo_item] \<and> fa_length f' = 28"
proof -
  have ok: "item_ok sig_demo_item" "item_norm sig_demo_item = sig_demo_item" "length (frame_item_bytes sig_demo_item) = 15"
    by (simp_all add: item_ok_def item_norm_def item_len_def sig_demo_item_def frame_item_bytes_def item_setToBytes_def)
  then have "fa_length (frame_signed (sig_demo_frame\<lparr>fa_dataItems := [sig_demo_item]\<rparr>)) = 28"
    by (simp add: frame_signed_def frame_sized_def length_frame_setToBytes Let_def)
  then show ?thesis
    using signal_frame_roundtrip[of "sig_demo_frame\<lparr>fa_dataItems := [sig_demo_item]\<rparr>" sig_demo_item sig_demo_frame] ok by auto
qed

theorem item_length_overread_witness:
  "getFromBytesWithTF sig_demo_item [0x7e, 0, 13, 1, 0, 1, 0, 0, 0, 21, 1, 1, 0x20, 1, 1, 200, 0x7d] True (FrameAll_new sig_demo_frame) =
     Inl Over_read"
  using item_length_overread[of "[0x7e, 0, 13, 1, 0, 1, 0, 0, 0, 21, 1, 1, 0x20, 1, 1, 200, 0x7d]" sig_demo_item True sig_demo_frame]
  by (simp add: un_be16_def)

theorem communicate_ignores_decoding_witness:
  "Communicate (\<lambda>bs. int (length bs)) (Some [1, 2, 3]) sig_demo_item sig_demo_frame sig_demo_frame
     ((SignalControl_new ''172.16.1.1'' 15050 12345)\<lparr>sc_isOpen := True\<rparr>) = Inr (0, sig_demo_frame)"
  using communicate_ignores_decoding[OF _ setToBytesWithTF_UDP[of sig_demo_frame],
      of "(SignalControl_new ''172.16.1.1'' 15050 12345)\<lparr>sc_isOpen := True\<rparr>" "\<lambda>bs. int (length bs)" "[1, 2, 3]"]
  by simp

theorem object_query_recognised_witness:
  "RspGetType (snd (ReqGet 1 24 sig_demo_item)) = Some (3, 24)"
proof -
  have "di_typeID (snd (ReqGet 1 24 sig_demo_item)) = 3"
    using DataItemMap_find(1)[of 24]
    by (simp add: ReqGet_def GetGroup_def Let_def DataItemRows_defs be32_eq)
  then show ?thesis using object_query_recognised[of 1 24 sig_demo_item] by simp
qed

end
