(* ===== verification/Proc.thy ===== *)
theory Proc
  imports Store Signal
begin

text \<open>
  The handlers of \<open>common/proc.cpp\<close>: what happens with the body of a packet of each command. A
  handler decodes the JSON text, checks the time, the device code and that the device is a known
  one, finds the cache of the device and stores the message. Three kinds of messages also measure
  the rate of their frames first (\<open>CacheTimestamp\<close>), and the unit is started once it is known.

  The decoders (xpack) are parameters; \<open>None\<close> is their exception. A connection is the client or the
  server side of one, which the code casts without asking. The errors of the model are an access
  to a member that the object does not have, an exception that leaves the thread, and the use of a
  connection that has deleted itself. The unit's \<open>init\<close>, which the code runs in a thread of its
  own, takes effect at once.
\<close>

section \<open>The rate of frames\<close>

record CacheTimestamp =
  ct_dataTimestamps :: "u64 list"
  ct_dataIndex :: int
  ct_interval :: u64
  ct_isSetInterval :: bool
  ct_isStartTask :: bool

definition CacheTimestamp_new :: CacheTimestamp where
  "CacheTimestamp_new = \<lparr>ct_dataTimestamps = [], ct_dataIndex = - 1, ct_interval = 0,
     ct_isSetInterval = False, ct_isStartTask = False\<rparr>"

definition ct_insert :: "int \<Rightarrow> u64 \<Rightarrow> CacheTimestamp \<Rightarrow> CacheTimestamp" where
  "ct_insert index timestamp ct =
     (if ct_dataIndex ct = - 1 then ct\<lparr>ct_dataIndex := index, ct_dataTimestamps := [timestamp]\<rparr>
      else if ct_dataIndex ct = index then
        if ct_dataTimestamps ct = [] then ct\<lparr>ct_dataTimestamps := [timestamp]\<rparr>
        else if timestamp \<le> last (ct_dataTimestamps ct)
        then ct\<lparr>ct_dataTimestamps := [], ct_dataIndex := - 1\<rparr>
        else ct\<lparr>ct_dataTimestamps := ct_dataTimestamps ct @ [timestamp]\<rparr>
      else ct)"

definition ct_update :: "int \<Rightarrow> u64 \<Rightarrow> int \<Rightarrow> CacheTimestamp \<Rightarrow> CacheTimestamp" where
  "ct_update index timestamp caches ct =
     (if \<not> ct_isSetInterval ct then
        let ct = ct_insert index timestamp ct; ts = ct_dataTimestamps ct
        in if length ts = size_of_int caches then
             let intervals = map (\<lambda>i. ts ! i - ts ! (i - 1)) [1..<length ts];
                 sm = fold (\<lambda>iter s. s + iter) intervals 0
             in ct\<lparr>ct_interval := sm div word_of_nat (length intervals), ct_isSetInterval := True\<rparr>
           else ct
      else ct)"

section \<open>State\<close>

record decoders =
  dc_Reply :: "bytes \<Rightarrow> Reply option"
  dc_Control :: "bytes \<Rightarrow> Control option"
  dc_WatchData :: "bytes \<Rightarrow> WatchData option"
  dc_CrossTrafficJamAlarm :: "bytes \<Rightarrow> CrossTrafficJamAlarm option"
  dc_IntersectionOverflowAlarm :: "bytes \<Rightarrow> IntersectionOverflowAlarm option"
  dc_TrafficFlow :: "bytes \<Rightarrow> TrafficFlow option"
  dc_InWatchData_1_3_4 :: "bytes \<Rightarrow> InWatchData_1_3_4 option"
  dc_InWatchData_2 :: "bytes \<Rightarrow> InWatchData_2 option"
  dc_StopLinePassData :: "bytes \<Rightarrow> StopLinePassData option"
  dc_AbnormalStopData :: "bytes \<Rightarrow> AbnormalStopData option"
  dc_LongDistanceOnSolidLineAlarm :: "bytes \<Rightarrow> LongDistanceOnSolidLineAlarm option"
  dc_HumanData :: "bytes \<Rightarrow> HumanData option"
  dc_HumanLitPoleData :: "bytes \<Rightarrow> HumanLitPoleData option"
  dc_TrafficData :: "bytes \<Rightarrow> TrafficData option"
  dc_AlarmBroken :: "bytes \<Rightarrow> AlarmBroken option"
  dc_UrgentPriority :: "bytes \<Rightarrow> UrgentPriority option"
  dc_TrafficDetectorStatus :: "bytes \<Rightarrow> TrafficDetectorStatus option"
  dc_CrossStageData :: "bytes \<Rightarrow> CrossStageData option"

record proc_env =
  pe_ip :: string
  pe_now :: u64
  pe_uuid :: string
  pe_dec :: decoders
  pe_enc_stage :: "CrossStageData \<Rightarrow> bytes"
  pe_send :: "bytes \<Rightarrow> send_result"
  pe_sig_sendto :: "bytes \<Rightarrow> int"
  pe_sig_recvfrom :: "bytes option"
  pe_sig_junk :: "DataItem \<times> FrameAll"

text \<open>
  The globals: the configuration, the codes of the associated devices, the server-side connections
  with whether their socket was shut down, the \<open>Data\<close> object, the three rate caches, the client of
  the signal controller and the datagrams passed to its socket.
\<close>

record proc_state =
  ps_cfg :: LocalConfig
  ps_equips :: "string list"
  ps_conns :: "(string \<times> bool) list"
  ps_data :: Data
  ps_CT_fusionData :: CacheTimestamp
  ps_CT_trafficFlowGather :: CacheTimestamp
  ps_CT_humanLitPoleData :: CacheTimestamp
  ps_signal :: SignalControl
  ps_signal_sent :: "bytes list"
  ps_sn_CrossStageData :: u64

datatype conn = Client_conn client | Server_conn handler

datatype proc_error = Wrong_cast | Uncaught_exception | Freed_connection | Signal_error sig_error

type_synonym proc_result = "proc_error + int \<times> conn \<times> proc_state"
type_synonym proc_fun = "proc_env \<Rightarrow> conn \<Rightarrow> bytes \<Rightarrow> proc_state \<Rightarrow> proc_result"

section \<open>Checks\<close>

definition isAssociatedEquip :: "string \<Rightarrow> proc_state \<Rightarrow> bool" where
  "isAssociatedEquip hardCode st \<longleftrightarrow>
     (if ps_equips st = [] then False else list_ex (\<lambda>code. code = hardCode) (ps_equips st))"

definition deleteFromConns :: "string \<Rightarrow> proc_state \<Rightarrow> proc_state" where
  "deleteFromConns peerAddress st =
     st\<lparr>ps_conns := map (\<lambda>(peer, down). if peer = peerAddress then (peer, True) else (peer, down)) (ps_conns st)\<rparr>"

definition judgeHardCode :: "string \<Rightarrow> string \<Rightarrow> proc_state \<Rightarrow> bool \<times> proc_state" where
  "judgeHardCode hardCode peerAddress st =
     (if lc_isUseJudgeHardCode (ps_cfg st) \<and> \<not> isAssociatedEquip hardCode st
      then (False, deleteFromConns peerAddress st) else (True, st))"

definition judgeTimestamp :: "u64 \<Rightarrow> u64 \<Rightarrow> proc_state \<Rightarrow> bool" where
  "judgeTimestamp timestamp now st \<longleftrightarrow>
     \<not> (lc_isUseThresholdTimeRecv (ps_cfg st) \<and>
        1000 * lc_thresholdTimeRecv (ps_cfg st) \<le> \<bar>sint now - sint timestamp\<bar>)"

text \<open>The three checks in a row, as the handlers make them.\<close>

definition admit :: "proc_env \<Rightarrow> real \<Rightarrow> string \<Rightarrow> proc_state \<Rightarrow> bool \<times> proc_state" where
  "admit env timestamp hardCode st =
     (if \<not> judgeTimestamp (u64_of_double timestamp) (pe_now env) st then (False, st)
      else if hardCode = [] then (False, st)
      else judgeHardCode hardCode (pe_ip env) st)"

section \<open>Storing\<close>

text \<open>
  Finding the position of the device and pushing the message, for the unit that \<open>sel\<close> reads and
  \<open>upd\<close> updates. \<open>rate\<close> is what happens in between with the position.
\<close>

definition store_msg :: "(Data \<Rightarrow> ('i, 'o) data_unit) \<Rightarrow> ((('i, 'o) data_unit \<Rightarrow> ('i, 'o) data_unit) \<Rightarrow> Data \<Rightarrow> Data) \<Rightarrow>
    (int \<Rightarrow> proc_state \<Rightarrow> proc_state) \<Rightarrow> 'i \<Rightarrow> string \<Rightarrow> proc_state \<Rightarrow> int \<times> proc_state" where
  "store_msg sel upd rate msg hardCode st =
     (let (index, du) = FindIndexInUnOrder hardCode (sel (ps_data st));
          st = st\<lparr>ps_data := upd (\<lambda>_. du) (ps_data st)\<rparr>
      in if index = - 1 \<or> du_numI du \<le> index then (- 1, st)
         else let st = rate index st;
                  (ok, du) = pushI msg index (sel (ps_data st));
                  st = st\<lparr>ps_data := upd (\<lambda>_. du) (ps_data st)\<rparr>
              in (if ok then 0 else - 1, st))"

definition no_rate :: "int \<Rightarrow> proc_state \<Rightarrow> proc_state" where
  "no_rate index st = st"

text \<open>A handler that decodes, checks and stores.\<close>

definition recv_store where
  "recv_store dec ts code sel upd rate env (c :: conn) content st =
     (case dec content of
        None \<Rightarrow> Inr (- 1, c, st)
      | Some msg \<Rightarrow>
          let (ok, st) = admit env (ts msg) (code msg) st
          in if \<not> ok then Inr (- 1, c, st)
             else let (ret, st) = store_msg sel upd (rate msg) msg (code msg) st in Inr (ret, c, st))"

text \<open>The measured rate starts the unit with \<open>init(caches, interval, roadNum, caches, ..., 10)\<close>.\<close>

definition start_unit :: "int \<Rightarrow> LocalConfig \<Rightarrow> 'i \<Rightarrow> CacheTimestamp \<Rightarrow> ('i, 'o) data_unit \<Rightarrow>
    CacheTimestamp \<times> ('i, 'o) data_unit" where
  "start_unit caches cfg dflt ct du =
     (if ct_isSetInterval ct \<and> \<not> ct_isStartTask ct
      then (ct\<lparr>ct_isStartTask := True\<rparr>,
            data_unit_init caches (to_i32 (uint (ct_interval ct))) (lc_roadNum cfg) caches 10 dflt du)
      else (ct, du))"

section \<open>Handlers\<close>

definition PkgProcessFun_CmdResponse :: proc_fun where
  "PkgProcessFun_CmdResponse env c content st =
     (case dc_Reply (pe_dec env) content of
        None \<Rightarrow> Inr (- 1, c, st)
      | Some msg \<Rightarrow>
          let late = (\<lambda>h. lc_isUseThresholdReconnect (ps_cfg st) \<and>
                1000 * lc_thresholdReconnect (ps_cfg st) \<le> \<bar>sint (pe_now env) - sint (hd_timeSend h)\<bar>)
          in case c of
               Client_conn cl \<Rightarrow>
                 let cl = cl\<lparr>cl_h := (cl_h cl)\<lparr>hd_timeRecv := pe_now env\<rparr>\<rparr>;
                     cl = (if late (cl_h cl) then cl\<lparr>cl_isNeedReconnect := True\<rparr> else cl)
                 in Inr (0, Client_conn cl, st)
             | Server_conn h \<Rightarrow>
                 let h = h\<lparr>hd_timeRecv := pe_now env\<rparr>
                 in if late h then Inl Wrong_cast else Inr (0, Server_conn h, st))"

definition PkgProcessFun_CmdControl :: proc_fun where
  "PkgProcessFun_CmdControl env c content st =
     (case dc_Control (pe_dec env) content of
        None \<Rightarrow> Inr (- 1, c, st)
      | Some msg \<Rightarrow> Inr (0, c, st\<lparr>ps_cfg := (ps_cfg st)\<lparr>lc_isSendPIC := ct_isSendVideoInfo msg \<noteq> 0\<rparr>\<rparr>))"

definition PkgProcessFun_CmdHeartBeat :: proc_fun where
  "PkgProcessFun_CmdHeartBeat env c content st = Inr (0, c, st)"

definition fusion_index :: "int \<Rightarrow> Data \<Rightarrow> int" where
  "fusion_index direction d =
     (case find_index (\<lambda>r. r = direction) (da_roadDirection d) of Some i \<Rightarrow> int i | None \<Rightarrow> - 1)"

definition PkgProcessFun_CmdFusionData :: proc_fun where
  "PkgProcessFun_CmdFusionData env c content st =
     (if lc_mode (ps_cfg st) = 2 then Inr (- 1, c, st)
      else case dc_WatchData (pe_dec env) content of
        None \<Rightarrow> Inr (- 1, c, st)
      | Some msg \<Rightarrow>
          let (ok, st) = admit env (wd_timestamp msg) (wd_hardCode msg) st;
              index = fusion_index (wd_direction msg) (ps_data st)
          in if \<not> ok then Inr (- 1, c, st)
             else if index = - 1 \<or> du_numI (da_fusion (ps_data st)) \<le> index then Inr (- 1, c, st)
             else let ct = ct_update (wd_direction msg) (u64_of_double (wd_timestamp msg)) 15 (ps_CT_fusionData st);
                      (ct, du) = start_unit 15 (ps_cfg st) WatchData_new ct (da_fusion (ps_data st));
                      (ok, du) = pushI msg index du
                  in Inr (if ok then 0 else - 1, c,
                       st\<lparr>ps_CT_fusionData := ct, ps_data := (ps_data st)\<lparr>da_fusion := du\<rparr>\<rparr>))"

definition PkgProcessFun_CmdCrossTrafficJamAlarm :: proc_fun where
  "PkgProcessFun_CmdCrossTrafficJamAlarm env = recv_store (dc_CrossTrafficJamAlarm (pe_dec env))
     cj_timestamp cj_hardCode da_jam da_jam_update (\<lambda>_. no_rate) env"

definition PkgProcessFun_CmdIntersectionOverflowAlarm :: proc_fun where
  "PkgProcessFun_CmdIntersectionOverflowAlarm env = recv_store (dc_IntersectionOverflowAlarm (pe_dec env))
     io_timestamp io_hardCode da_overflow da_overflow_update (\<lambda>_. no_rate) env"

definition rate_flow :: "TrafficFlow \<Rightarrow> int \<Rightarrow> proc_state \<Rightarrow> proc_state" where
  "rate_flow msg index st =
     (let ct = ct_update index (u64_of_double (tf_timestamp msg)) 3 (ps_CT_trafficFlowGather st);
          (ct, du) = start_unit 3 (ps_cfg st) TrafficFlow_new ct (da_flow (ps_data st))
      in st\<lparr>ps_CT_trafficFlowGather := ct, ps_data := (ps_data st)\<lparr>da_flow := du\<rparr>\<rparr>)"

definition PkgProcessFun_CmdTrafficFlowGather :: proc_fun where
  "PkgProcessFun_CmdTrafficFlowGather env = recv_store (dc_TrafficFlow (pe_dec env))
     tf_timestamp tf_hardCode da_flow da_flow_update rate_flow env"

definition PkgProcessFun_CmdInWatchData_1_3_4 :: proc_fun where
  "PkgProcessFun_CmdInWatchData_1_3_4 env = recv_store (dc_InWatchData_1_3_4 (pe_dec env))
     iw_timestamp iw_hardCode da_watch134 da_watch134_update (\<lambda>_. no_rate) env"

definition PkgProcessFun_CmdInWatchData_2 :: proc_fun where
  "PkgProcessFun_CmdInWatchData_2 env = recv_store (dc_InWatchData_2 (pe_dec env))
     iw2_timestamp iw2_hardCode da_watch2 da_watch2_update (\<lambda>_. no_rate) env"

definition PkgProcessFun_CmdStopLinePassData :: proc_fun where
  "PkgProcessFun_CmdStopLinePassData env = recv_store (dc_StopLinePassData (pe_dec env))
     sp_timestamp sp_hardCode da_stopline da_stopline_update (\<lambda>_. no_rate) env"

definition PkgProcessFun_CmdAbnormalStopData :: proc_fun where
  "PkgProcessFun_CmdAbnormalStopData env = recv_store (dc_AbnormalStopData (pe_dec env))
     asd_timestamp asd_hardCode da_abnormal da_abnormal_update (\<lambda>_. no_rate) env"

definition PkgProcessFun_CmdLongDistanceOnSolidLineAlarm :: proc_fun where
  "PkgProcessFun_CmdLongDistanceOnSolidLineAlarm env = recv_store (dc_LongDistanceOnSolidLineAlarm (pe_dec env))
     lda_timestamp lda_hardCode da_longdist da_longdist_update (\<lambda>_. no_rate) env"

definition PkgProcessFun_CmdHumanData :: proc_fun where
  "PkgProcessFun_CmdHumanData env = recv_store (dc_HumanData (pe_dec env))
     hud_timestamp hud_hardCode da_human da_human_update (\<lambda>_. no_rate) env"

definition rate_pole :: "HumanLitPoleData \<Rightarrow> int \<Rightarrow> proc_state \<Rightarrow> proc_state" where
  "rate_pole msg index st =
     (let ct = ct_update index (u64_of_double (hlp_timestamp msg)) 3 (ps_CT_humanLitPoleData st);
          (ct, du) = start_unit 3 (ps_cfg st) HumanLitPoleData_new ct (da_pole (ps_data st))
      in st\<lparr>ps_CT_humanLitPoleData := ct, ps_data := (ps_data st)\<lparr>da_pole := du\<rparr>\<rparr>)"

definition PkgProcessFun_CmdHumanLitPoleData :: proc_fun where
  "PkgProcessFun_CmdHumanLitPoleData env = recv_store (dc_HumanLitPoleData (pe_dec env))
     hlp_timestamp hlp_hardCode da_pole da_pole_update rate_pole env"

definition PkgProcessFun_CmdTrafficDetectorStatus :: proc_fun where
  "PkgProcessFun_CmdTrafficDetectorStatus env = recv_store (dc_TrafficDetectorStatus (pe_dec env))
     tds_timestamp tds_hardCode da_detector da_detector_update (\<lambda>_. no_rate) env"

text \<open>
  The frame that \<open>0xf1\<close> sends to the signal controller, with a flag for whether cars were seen. The
  members that nothing sets come from \<open>junk\<close>.
\<close>

definition f1_item :: "TrafficData \<Rightarrow> DataItem" where
  "f1_item msg = \<lparr>di_index = 1, di_length = 13, di_typeID = 192, di_objID = 2, di_attrID = 1, di_elementID = 0,
     di_data = [0xfe, 7, 0, 0, 3, 1, 1, if trd_vehicleCount msg > 0 then 1 else 0, 0xff]\<rparr>"

definition f1_frame :: "FrameAll \<Rightarrow> TrafficData \<Rightarrow> FrameAll" where
  "f1_frame junk msg = (FrameAll_new junk)\<lparr>fa_version := 0x0100, fa_controlCenterID := 1,
     fa_roadTrafficSignalControllerID := 21, fa_roadID := 1, fa_sequence := 1, fa_type := frame_type_code Type_Set,
     fa_dataItemNum := 1, fa_dataItems := [f1_item msg]\<rparr>"

definition PkgProcessFun_0xf1 :: proc_fun where
  "PkgProcessFun_0xf1 env c content st =
     (case dc_TrafficData (pe_dec env) content of
        None \<Rightarrow> Inr (- 1, c, st)
      | Some msg \<Rightarrow>
          let (ok, st) = admit env (trd_timestamp msg) (trd_hardCode msg) st
          in if \<not> ok then Inr (- 1, c, st)
             else if sc_isOpen (ps_signal st) then
               let (junk_item, junk) = pe_sig_junk env; frameSend = f1_frame junk msg
               in case setToBytesWithTF frameSend of
                    Inl e \<Rightarrow> Inl (Signal_error e)
                  | Inr bytesSend \<Rightarrow>
                      (case Communicate (pe_sig_sendto env) (pe_sig_recvfrom env) junk_item frameSend
                              (FrameAll_new junk) (ps_signal st) of
                         Inl e \<Rightarrow> Inl (Signal_error e)
                       | Inr (ret, frameRecv) \<Rightarrow>
                           Inr (0, c, st\<lparr>ps_signal_sent := ps_signal_sent st @ [bytesSend]\<rparr>))
             else Inr (- 1, c, st))"

definition PkgProcessFun_0xf2 :: proc_fun where
  "PkgProcessFun_0xf2 env c content st =
     (case dc_AlarmBroken (pe_dec env) content of
        None \<Rightarrow> Inr (- 1, c, st)
      | Some msg \<Rightarrow> let (ok, st) = admit env (alb_timestamp msg) (alb_hardCode msg) st
                   in Inr (if ok then 0 else - 1, c, st))"

definition PkgProcessFun_0xf3 :: proc_fun where
  "PkgProcessFun_0xf3 env c content st =
     (case dc_UrgentPriority (pe_dec env) content of
        None \<Rightarrow> Inr (- 1, c, st)
      | Some msg \<Rightarrow> let (ok, st) = admit env (urp_timestamp msg) (urp_hardCode msg) st
                   in Inr (if ok then 0 else - 1, c, st))"

definition PkgProcessFun_CmdCrossStageData :: proc_fun where
  "PkgProcessFun_CmdCrossStageData env c content st =
     (case dc_CrossStageData (pe_dec env) content of
        None \<Rightarrow> Inr (- 1, c, st)
      | Some msg \<Rightarrow>
          if csd_hardCode msg = [] then Inr (- 1, c, st)
          else let (ok, st) = judgeHardCode (csd_hardCode msg) (pe_ip env) st; d = ps_data st in
            if \<not> ok then Inr (- 1, c, st)
            else let msgSend = (if da_crossStage d = [] then CrossStageData_new\<lparr>
                       csd_oprNum := pe_uuid env, csd_crossID := da_plateId d,
                       csd_hardCode := da_matrixNo d, csd_timestamp := double_of_u64 (pe_now env)\<rparr>
                     else last (da_crossStage d))
                 in case stoi (take 10 (da_matrixNo d)) of
                      None \<Rightarrow> Inl Uncaught_exception
                    | Some n \<Rightarrow>
                        let pkg = CrossStageData_PkgWithoutCRC (pe_enc_stage env)
                              (ucast (ps_sn_CrossStageData st)) (word_of_int n) msgSend;
                            st = st\<lparr>ps_sn_CrossStageData := ps_sn_CrossStageData st + 1\<rparr>
                        in case c of
                             Client_conn cl \<Rightarrow> Inl Wrong_cast
                           | Server_conn h \<Rightarrow>
                               (case server_SendBase (pe_send env) (pe_now env) (pe_now env) pkg h of
                                  Inl e \<Rightarrow> Inl Freed_connection
                                | Inr (r, h) \<Rightarrow> Inr (if r = 0 then - 1 else 0, Server_conn h, st)))"

definition PkgProcessMap :: "(CmdType \<times> proc_fun) list" where
  "PkgProcessMap = [
     (CmdResponse, PkgProcessFun_CmdResponse),
     (CmdControl, PkgProcessFun_CmdControl),
     (CmdHeartBeat, PkgProcessFun_CmdHeartBeat),
     (CmdFusionData, PkgProcessFun_CmdFusionData),
     (CmdCrossTrafficJamAlarm, PkgProcessFun_CmdCrossTrafficJamAlarm),
     (CmdIntersectionOverflowAlarm, PkgProcessFun_CmdIntersectionOverflowAlarm),
     (CmdTrafficFlowGather, PkgProcessFun_CmdTrafficFlowGather),
     (CmdInWatchData_1_3_4, PkgProcessFun_CmdInWatchData_1_3_4),
     (CmdInWatchData_2, PkgProcessFun_CmdInWatchData_2),
     (CmdStopLinePassData, PkgProcessFun_CmdStopLinePassData),
     (CmdAbnormalStopData, PkgProcessFun_CmdAbnormalStopData),
     (CmdLongDistanceOnSolidLineAlarm, PkgProcessFun_CmdLongDistanceOnSolidLineAlarm),
     (CmdHumanData, PkgProcessFun_CmdHumanData),
     (CmdHumanLitPoleData, PkgProcessFun_CmdHumanLitPoleData),
     (CmdRaw 0xf1, PkgProcessFun_0xf1),
     (CmdRaw 0xf2, PkgProcessFun_0xf2),
     (CmdRaw 0xf3, PkgProcessFun_0xf3),
     (CmdTrafficDetectorStatus, PkgProcessFun_CmdTrafficDetectorStatus),
     (CmdCrossStageData, PkgProcessFun_CmdCrossStageData)]"

text \<open>What \<open>ThreadProcessPkg\<close> does with a packet: the function of its command, or nothing.\<close>

definition dispatch :: "proc_env \<Rightarrow> conn \<Rightarrow> Pkg \<Rightarrow> proc_state \<Rightarrow> proc_result" where
  "dispatch env c pkg st =
     (case map_of PkgProcessMap (cmd_of (h_cmd (p_head pkg))) of
        Some f \<Rightarrow> f env c (p_body pkg) st
      | None \<Rightarrow> Inr (0, c, st))"

section \<open>The measured rate\<close>

abbreviation ct_run :: "nat \<Rightarrow> (int \<times> u64) list \<Rightarrow> CacheTimestamp" where
  "ct_run n us \<equiv> fold (\<lambda>(i, t). ct_update i t (int n)) us CacheTimestamp_new"

text \<open>The times of the device that was seen first.\<close>

definition first_times :: "(int \<times> u64) list \<Rightarrow> u64 list" where
  "first_times us = map snd (filter (\<lambda>u. fst u = fst (hd us)) us)"

lemma first_times_snoc:
  "us \<noteq> [] \<Longrightarrow> first_times (us @ [u]) =
     first_times us @ (if fst u = fst (hd us) then [snd u] else [])"
  by (simp add: first_times_def)

lemma fold_plus_word: "fold (\<lambda>x s. s + x) xs a = a + sum_list (xs :: u64 list)"
  by (induction xs arbitrary: a) (simp_all add: add.assoc)

lemma sum_differences:
  "xs \<noteq> [] \<Longrightarrow> sum_list (map (\<lambda>i. xs ! i - xs ! (i - 1)) [1..<length xs]) = last xs - hd (xs :: u64 list)"
proof (induction xs rule: rev_induct)
  case (snoc x xs)
  show ?case
  proof (cases "xs = []")
    case False
    have "map (\<lambda>i. (xs @ [x]) ! i - (xs @ [x]) ! (i - 1)) [1..<length xs] =
        map (\<lambda>i. xs ! i - xs ! (i - 1)) [1..<length xs]"
      by (intro map_cong) (auto simp: nth_append)
    moreover have "[1..<length (xs @ [x])] = [1..<length xs] @ [length xs]"
      using False by (cases xs) auto
    moreover have "(xs @ [x]) ! length xs - (xs @ [x]) ! (length xs - 1) = x - last xs"
      using False by (simp add: nth_append last_conv_nth)
    ultimately have "map (\<lambda>i. (xs @ [x]) ! i - (xs @ [x]) ! (i - 1)) [1..<length (xs @ [x])] =
        map (\<lambda>i. xs ! i - xs ! (i - 1)) [1..<length xs] @ [x - last xs]"
      by (simp only: map_append list.map)
    then show ?thesis using snoc.IH[OF False] False by simp
  qed simp
qed simp

lemma ct_update_collect:
  assumes "\<not> ct_isSetInterval ct" "length (ct_dataTimestamps (ct_insert i t ct)) < n" "n < 2 ^ 32"
  shows "ct_update i t (int n) ct = ct_insert i t ct"
  using assms by (simp add: ct_update_def Let_def)

lemma ct_update_full:
  assumes "\<not> ct_isSetInterval ct" "ct_insert i t ct = ct'" "length (ct_dataTimestamps ct') = n" "n < 2 ^ 32" "0 < n"
  shows "ct_update i t (int n) ct = ct'\<lparr>ct_interval :=
    (last (ct_dataTimestamps ct') - hd (ct_dataTimestamps ct')) div word_of_nat (n - 1), ct_isSetInterval := True\<rparr>"
proof -
  have "ct_dataTimestamps ct' \<noteq> []" using assms(3,5) by auto
  from sum_differences[OF this] show ?thesis
    using assms by (simp add: ct_update_def Let_def fold_plus_word)
qed

lemma ct_run_spec:
  assumes "us \<noteq> []" "fst (hd us) \<noteq> - 1" "2 \<le> n" "n < 2 ^ 32" "sorted_wrt (<) (first_times us)"
  shows "(length (first_times us) < n \<longrightarrow> ct_run n us =
      \<lparr>ct_dataTimestamps = first_times us, ct_dataIndex = fst (hd us), ct_interval = 0,
       ct_isSetInterval = False, ct_isStartTask = False\<rparr>) \<and>
    (length (first_times us) = n \<longrightarrow> ct_run n us =
      \<lparr>ct_dataTimestamps = first_times us, ct_dataIndex = fst (hd us),
       ct_interval = (last (first_times us) - hd (first_times us)) div word_of_nat (n - 1),
       ct_isSetInterval = True, ct_isStartTask = False\<rparr>)"
  using assms
proof (induction us rule: rev_induct)
  case (snoc u us)
  obtain i t where u: "u = (i, t)" by fastforce
  show ?case
  proof (cases "us = []")
    case True
    then show ?thesis
      using snoc.prems u by (simp add: first_times_def ct_update_def ct_insert_def CacheTimestamp_new_def Let_def)
  next
    case False
    define ts where "ts = first_times us"
    have ne: "ts \<noteq> []" using False by (cases us) (auto simp: ts_def first_times_def)
    note fts = first_times_snoc[OF False, of u, folded ts_def]
    have srt: "sorted_wrt (<) ts" and h: "fst (hd us) \<noteq> - 1"
      using snoc.prems(2,5) False fts by (auto simp: sorted_wrt_append split: if_splits)
    note IH = snoc.IH[OF False h snoc.prems(3,4), folded ts_def, OF srt]
    show ?thesis
    proof (cases "i = fst (hd us)")
      case True
      have fts': "first_times (us @ [u]) = ts @ [t]" using fts True u by simp
      have gt: "last ts < t"
        using snoc.prems(5) ne unfolding fts' by (simp add: sorted_wrt_append)
      have run: "ct_run n us = \<lparr>ct_dataTimestamps = ts, ct_dataIndex = i, ct_interval = 0,
          ct_isSetInterval = False, ct_isStartTask = False\<rparr>" if "length ts < n"
        using IH that True by simp
      have ins: "ct_insert i t (ct_run n us) = \<lparr>ct_dataTimestamps = ts @ [t], ct_dataIndex = i, ct_interval = 0,
          ct_isSetInterval = False, ct_isStartTask = False\<rparr>" if "length ts < n"
        using run[OF that] gt ne h True by (simp add: ct_insert_def not_le)
      have step: "ct_run n (us @ [u]) = ct_update i t (int n) (ct_run n us)" using u by simp
      show ?thesis
      proof (cases "Suc (length ts) < n")
        case True
        then have "ct_run n (us @ [u]) = ct_insert i t (ct_run n us)"
          unfolding step using ins run snoc.prems(4) by (intro ct_update_collect) simp_all
        then show ?thesis unfolding fts' using ins True False \<open>i = fst (hd us)\<close> by simp
      next
        case long: False
        have "length ts < n \<Longrightarrow> ct_run n (us @ [u]) = (ct_insert i t (ct_run n us))\<lparr>ct_interval :=
            (last (ts @ [t]) - hd (ts @ [t])) div word_of_nat (n - 1), ct_isSetInterval := True\<rparr>"
          unfolding step using ins run snoc.prems(4) long
          by (subst ct_update_full[OF _ refl]) simp_all
        then show ?thesis unfolding fts' using ins long False \<open>i = fst (hd us)\<close> by auto
      qed
    next
      case other: False
      have fts': "first_times (us @ [u]) = ts" using fts other u by simp
      have "ct_run n (us @ [u]) = ct_run n us" if "length ts \<le> n"
      proof (cases "length ts = n")
        case True
        then have "ct_isSetInterval (ct_run n us)" using IH by simp
        then show ?thesis using u by (simp add: ct_update_def)
      next
        case less: False
        then have run: "ct_run n us = \<lparr>ct_dataTimestamps = ts, ct_dataIndex = fst (hd us), ct_interval = 0,
            ct_isSetInterval = False, ct_isStartTask = False\<rparr>" using IH that by simp
        have "ct_insert i t (ct_run n us) = ct_run n us"
          unfolding run using h other by (simp add: ct_insert_def)
        then show ?thesis
          using ct_update_collect[of "ct_run n us" i t n] run u less that snoc.prems(4) by simp
      qed
      moreover have "hd (us @ [u]) = hd us" using False by simp
      ultimately show ?thesis unfolding fts' using IH by (metis less_imp_le order.refl)
    qed
  qed
qed simp

text \<open>
  The rate of frames is measured on the device seen first: once it has sent \<open>n\<close> messages with
  increasing times, whatever other devices sent in between, the interval is the time from its first
  to its last message divided by \<open>n - 1\<close>.
\<close>
lemma rate_is_mean_interval:
  assumes "us \<noteq> []" and "fst (hd us) \<noteq> - 1" and "2 \<le> n" and "n < 2 ^ 32"
    and "sorted_wrt (<) (first_times us)" and "length (first_times us) = n"
  shows "ct_isSetInterval (ct_run n us) \<and>
    ct_interval (ct_run n us) = (last (first_times us) - hd (first_times us)) div word_of_nat (n - 1)"
  using ct_run_spec[OF assms(1-5)] assms(6) by simp

theorem rate_is_mean_interval_witness:
  "ct_interval (ct_run 3 [(0, 100), (1, 7), (0, 150), (1, 3), (0, 206)]) = 53"
  using rate_is_mean_interval[of "[(0, 100), (1, 7), (0, 150), (1, 3), (0, 206)]" 3]
  by (simp add: first_times_def)

end
