(* ===== verification/ProcProps.thy ===== *)
theory ProcProps
  imports Proc
begin

text \<open>
  What the handlers of \<open>Proc\<close> guarantee: the units stay well-formed, a cache changes only for an
  admissible message, a message of a road goes to the cache of its direction, unknown devices are
  disconnected, and which packets can end in an error.
\<close>

section \<open>Units\<close>

text \<open>A well-formed unit with \<open>n\<close> caches and the capacity \<open>c\<close>; what its caches hold.\<close>

definition unit_ok :: "int \<Rightarrow> int \<Rightarrow> ('i, 'o) data_unit \<Rightarrow> bool" where
  "unit_ok n c du \<longleftrightarrow> du_wf du \<and> du_numI du = n \<and> du_cap du = c"

definition cached :: "('i, 'o) data_unit \<Rightarrow> 'i list list" where
  "cached du = map v_items (du_iq du)"

lemma FindIndex_simps [simp]:
  "du_iq (snd (FindIndexInUnOrder code du)) = du_iq du"
  "du_numI (snd (FindIndexInUnOrder code du)) = du_numI du"
  "du_cap (snd (FindIndexInUnOrder code du)) = du_cap du"
  by (auto simp: FindIndexInUnOrder_def split: option.split)

lemma FindIndex_range:
  "FindIndexInUnOrder code du = (i, du') \<Longrightarrow> i = - 1 \<or> 0 \<le> i \<and> nat i < length (du_unOrder du)"
  by (auto simp: FindIndexInUnOrder_def split: option.splits dest!: find_index_SomeD)

lemma unit_ok_FindIndex: "unit_ok n c du \<Longrightarrow> unit_ok n c (snd (FindIndexInUnOrder code du))"
  by (simp add: unit_ok_def du_wf_FindIndex)

lemma pushI_simps [simp]:
  "du_numI (snd (pushI x i du)) = du_numI du" "du_cap (snd (pushI x i du)) = du_cap du"
  by (auto simp: pushI_def split: option.split)

lemma unit_ok_pushI: "unit_ok n c du \<Longrightarrow> unit_ok n c (snd (pushI x i du))"
  by (simp add: unit_ok_def du_wf_pushI)

lemma pushI_ok: "0 \<le> i \<Longrightarrow> nat i < length (du_iq du) \<Longrightarrow> fst (pushI x i du)"
  by (simp add: pushI_def vec_at_def)

lemma map_setMax_same:
  "\<forall>v \<in> set vs. v_isSetMax v \<and> v_max v = c \<Longrightarrow> map (vector_setMax c) vs = vs"
  by (induction vs) (auto simp: vector_setMax_def)

lemma setCapNumI_iq:
  assumes "unit_ok n c du"
  shows "du_iq (setCapNumI c n dflt du) = du_iq du"
proof -
  have "vec_resize (nat n) vector_new (du_iq du) = du_iq du"
    using assms by (auto simp: unit_ok_def du_wf_def vec_resize_def)
  moreover have "map (vector_setMax c) (du_iq du) = du_iq du"
    using assms by (intro map_setMax_same) (auto simp: unit_ok_def du_wf_def)
  ultimately show ?thesis by (simp add: setCapNumI_def)
qed

lemma start_unit_ok:
  assumes "unit_ok (lc_roadNum cfg) c du" "start_unit c cfg dflt ct du = (ct', du')"
  shows "unit_ok (lc_roadNum cfg) c du'" and "du_iq du' = du_iq du"
proof -
  have "unit_ok (lc_roadNum cfg) c (data_unit_init c fs (lc_roadNum cfg) k iv dflt du)" for fs k iv
  proof -
    have e: "lc_roadNum cfg = du_numI du" "c = du_cap du" and wf: "du_wf du"
      using assms(1) by (auto simp: unit_ok_def)
    show ?thesis
      unfolding unit_ok_def e using du_wf_init[OF wf] by (simp add: data_unit_init_def setCapNumI_def)
  qed
  then show "unit_ok (lc_roadNum cfg) c du'" "du_iq du' = du_iq du"
    using assms setCapNumI_iq[OF assms(1)]
    by (auto simp: start_unit_def data_unit_init_def split: if_splits)
qed

section \<open>Admission\<close>

definition admissible :: "proc_env \<Rightarrow> real \<Rightarrow> string \<Rightarrow> proc_state \<Rightarrow> bool" where
  "admissible env timestamp code st \<longleftrightarrow>
     (lc_isUseThresholdTimeRecv (ps_cfg st) \<longrightarrow>
        \<bar>sint (pe_now env) - sint (u64_of_double timestamp)\<bar> < 1000 * lc_thresholdTimeRecv (ps_cfg st)) \<and>
     code \<noteq> [] \<and> (lc_isUseJudgeHardCode (ps_cfg st) \<longrightarrow> code \<in> set (ps_equips st))"

lemma isAssociated_iff: "isAssociatedEquip code st \<longleftrightarrow> code \<in> set (ps_equips st)"
  by (auto simp: isAssociatedEquip_def list_ex_iff)

lemma admit_eq: "admit env timestamp code st = (admissible env timestamp code st,
    if judgeTimestamp (u64_of_double timestamp) (pe_now env) st \<and> code \<noteq> [] \<and>
       \<not> admissible env timestamp code st then deleteFromConns (pe_ip env) st else st)"
  by (auto simp: admit_def admissible_def judgeTimestamp_def judgeHardCode_def isAssociated_iff not_le)

section \<open>Units inside the data object\<close>

text \<open>
  What the handlers need of a unit's selector and update in \<open>Data\<close>. \<open>store_stored\<close> says once, for
  all the units, what storing a message does.
\<close>

locale data_field =
  fixes sel :: "Data \<Rightarrow> ('i, 'o) data_unit"
    and upd :: "(('i, 'o) data_unit \<Rightarrow> ('i, 'o) data_unit) \<Rightarrow> Data \<Rightarrow> Data"
  assumes sel_upd: "sel (upd f d) = f (sel d)"
    and upd_upd: "upd f (upd g d) = upd (\<lambda>x. f (g x)) d"
    and upd_sel: "upd (\<lambda>_. sel d) d = d"
begin

lemma store_refused:
  assumes "FindIndexInUnOrder code (sel (ps_data st)) = (- 1, du)"
  shows "store_msg sel upd rate msg code st = (- 1, st\<lparr>ps_data := upd (\<lambda>_. du) (ps_data st)\<rparr>)"
  using assms by (simp add: store_msg_def)

lemma store_stored:
  assumes "unit_ok n c (sel (ps_data st))" "FindIndexInUnOrder code (sel (ps_data st)) = (i, du)" "i \<noteq> - 1"
  shows "store_msg sel upd no_rate msg code st =
    (0, st\<lparr>ps_data := upd (\<lambda>_. snd (pushI msg i du)) (ps_data st)\<rparr>)"
proof -
  have u: "unit_ok n c du" using unit_ok_FindIndex[OF assms(1), of code] assms(2) by simp
  have "du_unOrder du = du_unOrder du" by simp
  have "0 \<le> i \<and> nat i < length (du_iq du)"
    using FindIndex_range[OF assms(2)] assms(1,3) u FindIndex_simps(1)[of code "sel (ps_data st)"] assms(2)
    by (auto simp: unit_ok_def du_wf_def)
  moreover from this have "\<not> du_numI du \<le> i" using u by (auto simp: unit_ok_def du_wf_def)
  ultimately show ?thesis
    using assms(2,3) pushI_ok[of i du msg]
    by (auto simp: store_msg_def no_rate_def sel_upd upd_upd Let_def split: prod.split)
qed

text \<open>What the measuring of a rate may do to the state: start the unit, and nothing else.\<close>

definition rate_ok :: "int \<Rightarrow> (int \<Rightarrow> proc_state \<Rightarrow> proc_state) \<Rightarrow> bool" where
  "rate_ok c rate \<longleftrightarrow> (\<forall>i st. unit_ok (lc_roadNum (ps_cfg st)) c (sel (ps_data st)) \<longrightarrow>
     (\<exists>du. ps_data (rate i st) = upd (\<lambda>_. du) (ps_data st) \<and> unit_ok (lc_roadNum (ps_cfg st)) c du \<and>
        du_iq du = du_iq (sel (ps_data st)) \<and> ps_cfg (rate i st) = ps_cfg st))"

lemma rate_ok_no: "rate_ok c no_rate"
  unfolding rate_ok_def no_rate_def using upd_sel by metis

lemma store_cases:
  assumes "rate_ok c rate" "unit_ok (lc_roadNum (ps_cfg st)) c (sel (ps_data st))"
    and "store_msg sel upd rate msg code st = (r, st')"
  shows "ps_cfg st' = ps_cfg st \<and> (\<exists>du. ps_data st' = upd (\<lambda>_. du) (ps_data st) \<and>
    unit_ok (lc_roadNum (ps_cfg st)) c du \<and> (r = - 1 \<and> cached du = cached (sel (ps_data st)) \<or> r = 0))"
proof -
  let ?n = "lc_roadNum (ps_cfg st)"
  obtain i du where f: "FindIndexInUnOrder code (sel (ps_data st)) = (i, du)" by fastforce
  have u: "unit_ok ?n c du" "du_iq du = du_iq (sel (ps_data st))"
    using unit_ok_FindIndex[OF assms(2), of code] f FindIndex_simps(1)[of code "sel (ps_data st)"] by simp_all
  show ?thesis
  proof (cases "i = - 1")
    case True
    then show ?thesis
      using store_refused[OF f[unfolded True], where msg = msg and rate = rate] assms(3) u
      by (auto simp: cached_def)
  next
    case False
    let ?st = "st\<lparr>ps_data := upd (\<lambda>_. du) (ps_data st)\<rparr>"
    have ok: "unit_ok (lc_roadNum (ps_cfg ?st)) c (sel (ps_data ?st))" using u by (simp add: sel_upd)
    obtain du2 where d: "ps_data (rate i ?st) = upd (\<lambda>_. du2) (ps_data ?st)" "unit_ok ?n c du2"
        "du_iq du2 = du_iq du" "ps_cfg (rate i ?st) = ps_cfg st"
      using assms(1)[unfolded rate_ok_def, rule_format, OF ok] by (auto simp: sel_upd)
    have "0 \<le> i \<and> nat i < length (du_iq du)"
      using FindIndex_range[OF f] assms(2) False u by (auto simp: unit_ok_def du_wf_def)
    moreover from this have "\<not> du_numI du \<le> i" using u by (auto simp: unit_ok_def du_wf_def)
    moreover obtain x where p: "pushI msg i du2 = (True, x)" "unit_ok ?n c x"
      using pushI_ok[of i du2 msg] unit_ok_pushI[OF d(2), of msg i] calculation d(3) by (metis prod.collapse)
    ultimately show ?thesis
      using f False d assms(3) by (auto simp: store_msg_def sel_upd upd_upd Let_def)
  qed
qed

lemma recv_store_result:
  assumes "\<And>msg. rate_ok c (rate msg)" "unit_ok (lc_roadNum (ps_cfg st)) c (sel (ps_data st))"
    and "recv_store dec ts code sel upd rate env cn content st = Inr (r, cn', st')"
  shows "ps_cfg st' = ps_cfg st \<and> (ps_data st' = ps_data st \<or>
    (\<exists>msg du. dec content = Some msg \<and> admissible env (ts msg) (code msg) st \<and>
       ps_data st' = upd (\<lambda>_. du) (ps_data st) \<and> unit_ok (lc_roadNum (ps_cfg st)) c du \<and>
       (cached du = cached (sel (ps_data st)) \<or> r = 0)))"
proof (cases "dec content")
  case (Some msg)
  show ?thesis
  proof (cases "admissible env (ts msg) (code msg) st")
    case True
    obtain r2 st2 where s: "store_msg sel upd (rate msg) msg (code msg) st = (r2, st2)" by fastforce
    have "(r2, st2) = (r, st')"
      using assms(3) Some True s by (simp add: recv_store_def admit_eq)
    then show ?thesis using store_cases[OF assms(1,2) s] Some True by blast
  next
    case False
    then show ?thesis
      using assms(3) Some by (auto simp: recv_store_def admit_eq deleteFromConns_def split: if_splits)
  qed
qed (use assms(3) in \<open>simp add: recv_store_def\<close>)

end

interpretation fld_jam: data_field da_jam da_jam_update by unfold_locales simp_all
interpretation fld_overflow: data_field da_overflow da_overflow_update by unfold_locales simp_all
interpretation fld_watch134: data_field da_watch134 da_watch134_update by unfold_locales simp_all
interpretation fld_watch2: data_field da_watch2 da_watch2_update by unfold_locales simp_all
interpretation fld_stopline: data_field da_stopline da_stopline_update by unfold_locales simp_all
interpretation fld_abnormal: data_field da_abnormal da_abnormal_update by unfold_locales simp_all
interpretation fld_longdist: data_field da_longdist da_longdist_update by unfold_locales simp_all
interpretation fld_human: data_field da_human da_human_update by unfold_locales simp_all
interpretation fld_detector: data_field da_detector da_detector_update by unfold_locales simp_all
interpretation fld_flow: data_field da_flow da_flow_update by unfold_locales simp_all
interpretation fld_pole: data_field da_pole da_pole_update by unfold_locales simp_all

lemma rate_flow_ok: "fld_flow.rate_ok 3 (rate_flow msg)"
proof -
  have "\<exists>du. ps_data (rate_flow msg i st) = da_flow_update (\<lambda>_. du) (ps_data st) \<and>
      unit_ok (lc_roadNum (ps_cfg st)) 3 du \<and> du_iq du = du_iq (da_flow (ps_data st)) \<and>
      ps_cfg (rate_flow msg i st) = ps_cfg st"
    if "unit_ok (lc_roadNum (ps_cfg st)) 3 (da_flow (ps_data st))" for i st
  proof -
    obtain ct du where s: "start_unit 3 (ps_cfg st) TrafficFlow_new (ct_update i (u64_of_double (tf_timestamp msg)) 3
        (ps_CT_trafficFlowGather st)) (da_flow (ps_data st)) = (ct, du)" by fastforce
    from start_unit_ok[OF that s] s show ?thesis by (auto simp: rate_flow_def Let_def)
  qed
  then show ?thesis by (simp add: fld_flow.rate_ok_def)
qed

lemma rate_pole_ok: "fld_pole.rate_ok 3 (rate_pole msg)"
proof -
  have "\<exists>du. ps_data (rate_pole msg i st) = da_pole_update (\<lambda>_. du) (ps_data st) \<and>
      unit_ok (lc_roadNum (ps_cfg st)) 3 du \<and> du_iq du = du_iq (da_pole (ps_data st)) \<and>
      ps_cfg (rate_pole msg i st) = ps_cfg st"
    if "unit_ok (lc_roadNum (ps_cfg st)) 3 (da_pole (ps_data st))" for i st
  proof -
    obtain ct du where s: "start_unit 3 (ps_cfg st) HumanLitPoleData_new (ct_update i (u64_of_double (hlp_timestamp msg)) 3
        (ps_CT_humanLitPoleData st)) (da_pole (ps_data st)) = (ct, du)" by fastforce
    from start_unit_ok[OF that s] s show ?thesis by (auto simp: rate_pole_def Let_def)
  qed
  then show ?thesis by (simp add: fld_pole.rate_ok_def)
qed

section \<open>Any packet\<close>

text \<open>The units of a data object have the number of roads as their caches and their first capacity.\<close>

definition data_ok :: "int \<Rightarrow> Data \<Rightarrow> bool" where
  "data_ok n d \<longleftrightarrow> unit_ok n 15 (da_fusion d) \<and> unit_ok n 3 (da_flow d) \<and> unit_ok n 10 (da_jam d) \<and>
     unit_ok n 10 (da_overflow d) \<and> unit_ok n 10 (da_watch134 d) \<and> unit_ok n 10 (da_watch2 d) \<and>
     unit_ok n 10 (da_stopline d) \<and> unit_ok n 10 (da_abnormal d) \<and> unit_ok n 10 (da_longdist d) \<and>
     unit_ok n 10 (da_human d) \<and> unit_ok n 3 (da_pole d) \<and> unit_ok n 10 (da_detector d)"

lemma data_ok_instance: "0 \<le> lc_roadNum cfg \<Longrightarrow> data_ok (lc_roadNum cfg) (Data_instance cfg db1 db2)"
  using data_wf_instance[of cfg db1 db2]
  by (simp add: data_ok_def data_wf_def unit_ok_def) (simp add: Data_instance_def data_unit_init_def setCapNumI_def Let_def)

definition all_caches where
  "all_caches d = (cached (da_fusion d), cached (da_flow d), cached (da_jam d), cached (da_overflow d),
     cached (da_watch134 d), cached (da_watch2 d), cached (da_stopline d), cached (da_abnormal d),
     cached (da_longdist d), cached (da_human d), cached (da_pole d), cached (da_detector d))"

text \<open>The time and the device code of the message in the body of a packet that is to be stored.\<close>

definition message_header :: "decoders \<Rightarrow> CmdType \<Rightarrow> bytes \<Rightarrow> (real \<times> string) option" where
  "message_header dec cmd content =
     (case cmd of
        CmdFusionData \<Rightarrow> map_option (\<lambda>m. (wd_timestamp m, wd_hardCode m)) (dc_WatchData dec content)
      | CmdCrossTrafficJamAlarm \<Rightarrow> map_option (\<lambda>m. (cj_timestamp m, cj_hardCode m)) (dc_CrossTrafficJamAlarm dec content)
      | CmdIntersectionOverflowAlarm \<Rightarrow>
          map_option (\<lambda>m. (io_timestamp m, io_hardCode m)) (dc_IntersectionOverflowAlarm dec content)
      | CmdTrafficFlowGather \<Rightarrow> map_option (\<lambda>m. (tf_timestamp m, tf_hardCode m)) (dc_TrafficFlow dec content)
      | CmdInWatchData_1_3_4 \<Rightarrow> map_option (\<lambda>m. (iw_timestamp m, iw_hardCode m)) (dc_InWatchData_1_3_4 dec content)
      | CmdInWatchData_2 \<Rightarrow> map_option (\<lambda>m. (iw2_timestamp m, iw2_hardCode m)) (dc_InWatchData_2 dec content)
      | CmdStopLinePassData \<Rightarrow> map_option (\<lambda>m. (sp_timestamp m, sp_hardCode m)) (dc_StopLinePassData dec content)
      | CmdAbnormalStopData \<Rightarrow> map_option (\<lambda>m. (asd_timestamp m, asd_hardCode m)) (dc_AbnormalStopData dec content)
      | CmdLongDistanceOnSolidLineAlarm \<Rightarrow>
          map_option (\<lambda>m. (lda_timestamp m, lda_hardCode m)) (dc_LongDistanceOnSolidLineAlarm dec content)
      | CmdHumanData \<Rightarrow> map_option (\<lambda>m. (hud_timestamp m, hud_hardCode m)) (dc_HumanData dec content)
      | CmdHumanLitPoleData \<Rightarrow> map_option (\<lambda>m. (hlp_timestamp m, hlp_hardCode m)) (dc_HumanLitPoleData dec content)
      | CmdTrafficDetectorStatus \<Rightarrow>
          map_option (\<lambda>m. (tds_timestamp m, tds_hardCode m)) (dc_TrafficDetectorStatus dec content)
      | _ \<Rightarrow> None)"

text \<open>What one packet may do to the data: nothing to the caches, or a store of an admissible message.\<close>

definition good_step :: "proc_env \<Rightarrow> CmdType \<Rightarrow> bytes \<Rightarrow> proc_state \<Rightarrow> int \<Rightarrow> proc_state \<Rightarrow> bool" where
  "good_step env cmd content st r st' \<longleftrightarrow> lc_roadNum (ps_cfg st') = lc_roadNum (ps_cfg st) \<and>
     data_ok (lc_roadNum (ps_cfg st)) (ps_data st') \<and>
     (all_caches (ps_data st') = all_caches (ps_data st) \<or> r = 0 \<and>
        (\<exists>ts code. message_header (pe_dec env) cmd content = Some (ts, code) \<and> admissible env ts code st))"

lemma good_same: "data_ok (lc_roadNum (ps_cfg st)) (ps_data st) \<Longrightarrow> ps_data st' = ps_data st \<Longrightarrow>
    lc_roadNum (ps_cfg st') = lc_roadNum (ps_cfg st) \<Longrightarrow> good_step env cmd content st r st'"
  by (simp add: good_step_def)

lemma admit_same: "admit env ts code st = (ok, st') \<Longrightarrow> ps_data st' = ps_data st \<and> ps_cfg st' = ps_cfg st \<and>
    ps_CT_fusionData st' = ps_CT_fusionData st \<and> (ok = admissible env ts code st)"
  by (auto simp: admit_eq deleteFromConns_def split: if_splits)

lemma good_fusion:
  assumes ok: "data_ok (lc_roadNum (ps_cfg st)) (ps_data st)"
    and run: "PkgProcessFun_CmdFusionData env c content st = Inr (r, c', st')"
  shows "good_step env CmdFusionData content st r st'"
proof (cases "lc_mode (ps_cfg st) = 2 \<or> dc_WatchData (pe_dec env) content = None")
  case True
  then have "st' = st" using run by (auto simp: PkgProcessFun_CmdFusionData_def split: if_splits)
  then show ?thesis using good_same[OF ok] by simp
next
  case False
  then obtain msg where m: "dc_WatchData (pe_dec env) content = Some msg" and mode: "lc_mode (ps_cfg st) \<noteq> 2" by auto
  obtain a st1 where adm: "admit env (wd_timestamp msg) (wd_hardCode msg) st = (a, st1)" by fastforce
  note same = admit_same[OF adm]
  let ?i = "fusion_index (wd_direction msg) (ps_data st1)"
  show ?thesis
  proof (cases "a \<and> ?i \<noteq> - 1 \<and> ?i < du_numI (da_fusion (ps_data st1))")
    case False
    then have "st' = st1" using run m mode adm by (auto simp: PkgProcessFun_CmdFusionData_def Let_def split: if_splits)
    then show ?thesis using good_same[OF ok] same by simp
  next
    case True
    obtain ct du where s: "start_unit 15 (ps_cfg st1) WatchData_new (ct_update (wd_direction msg)
        (u64_of_double (wd_timestamp msg)) 15 (ps_CT_fusionData st1)) (da_fusion (ps_data st1)) = (ct, du)" by fastforce
    obtain b du2 where p: "pushI msg ?i du = (b, du2)" by fastforce
    have u: "unit_ok (lc_roadNum (ps_cfg st1)) 15 (da_fusion (ps_data st1))" using ok same by (simp add: data_ok_def)
    note u1 = start_unit_ok[OF u s]
    have "0 \<le> ?i"
      using True by (cases "find_index (\<lambda>r. r = wd_direction msg) (da_roadDirection (ps_data st1))")
        (auto simp: fusion_index_def)
    moreover have "nat ?i < length (du_iq du)"
      using True u u1 calculation by (auto simp: unit_ok_def du_wf_def)
    ultimately have "b" using pushI_ok[of ?i du msg] p by simp
    have "unit_ok (lc_roadNum (ps_cfg st)) 15 du2" using unit_ok_pushI[OF u1(1), of msg ?i] p same by simp
    moreover have "r = 0 \<and> ps_cfg st' = ps_cfg st1 \<and> ps_data st' = (ps_data st1)\<lparr>da_fusion := du2\<rparr>"
      using run m mode adm True s p \<open>b\<close> by (auto simp: PkgProcessFun_CmdFusionData_def Let_def)
    ultimately show ?thesis
      using ok same m True by (auto simp: good_step_def data_ok_def message_header_def)
  qed
qed

context data_field
begin

lemma recv_good:
  assumes "recv_store dec ts code sel upd rate env c content st = Inr (r, c', st')"
    and "\<And>msg. rate_ok cap (rate msg)" "unit_ok (lc_roadNum (ps_cfg st)) cap (sel (ps_data st))"
    and "data_ok (lc_roadNum (ps_cfg st)) (ps_data st)"
    and "message_header (pe_dec env) cmd content = map_option (\<lambda>m. (ts m, code m)) (dec content)"
    and "\<And>du. unit_ok (lc_roadNum (ps_cfg st)) cap du \<Longrightarrow>
      data_ok (lc_roadNum (ps_cfg st)) (upd (\<lambda>_. du) (ps_data st))"
    and "\<And>du. cached du = cached (sel (ps_data st)) \<Longrightarrow>
      all_caches (upd (\<lambda>_. du) (ps_data st)) = all_caches (ps_data st)"
  shows "good_step env cmd content st r st'"
  using recv_store_result[OF assms(2,3,1)] assms(4-7) by (auto simp: good_step_def)

end

lemmas recv_good_rules =
  fld_jam.recv_good[OF _ fld_jam.rate_ok_no] fld_overflow.recv_good[OF _ fld_overflow.rate_ok_no]
  fld_watch134.recv_good[OF _ fld_watch134.rate_ok_no] fld_watch2.recv_good[OF _ fld_watch2.rate_ok_no]
  fld_stopline.recv_good[OF _ fld_stopline.rate_ok_no] fld_abnormal.recv_good[OF _ fld_abnormal.rate_ok_no]
  fld_longdist.recv_good[OF _ fld_longdist.rate_ok_no] fld_human.recv_good[OF _ fld_human.rate_ok_no]
  fld_detector.recv_good[OF _ fld_detector.rate_ok_no]
  fld_flow.recv_good[OF _ rate_flow_ok] fld_pole.recv_good[OF _ rate_pole_ok]

lemmas recv_handler_defs =
  PkgProcessFun_CmdCrossTrafficJamAlarm_def PkgProcessFun_CmdIntersectionOverflowAlarm_def
  PkgProcessFun_CmdTrafficFlowGather_def PkgProcessFun_CmdInWatchData_1_3_4_def
  PkgProcessFun_CmdInWatchData_2_def PkgProcessFun_CmdStopLinePassData_def
  PkgProcessFun_CmdAbnormalStopData_def PkgProcessFun_CmdLongDistanceOnSolidLineAlarm_def
  PkgProcessFun_CmdHumanData_def PkgProcessFun_CmdHumanLitPoleData_def
  PkgProcessFun_CmdTrafficDetectorStatus_def

lemma good_units:
  assumes ok: "data_ok (lc_roadNum (ps_cfg st)) (ps_data st)"
  shows "PkgProcessFun_CmdCrossTrafficJamAlarm env c content st = Inr (r, c', st') \<Longrightarrow>
      good_step env CmdCrossTrafficJamAlarm content st r st'"
    and "PkgProcessFun_CmdIntersectionOverflowAlarm env c content st = Inr (r, c', st') \<Longrightarrow>
      good_step env CmdIntersectionOverflowAlarm content st r st'"
    and "PkgProcessFun_CmdTrafficFlowGather env c content st = Inr (r, c', st') \<Longrightarrow>
      good_step env CmdTrafficFlowGather content st r st'"
    and "PkgProcessFun_CmdInWatchData_1_3_4 env c content st = Inr (r, c', st') \<Longrightarrow>
      good_step env CmdInWatchData_1_3_4 content st r st'"
    and "PkgProcessFun_CmdInWatchData_2 env c content st = Inr (r, c', st') \<Longrightarrow>
      good_step env CmdInWatchData_2 content st r st'"
    and "PkgProcessFun_CmdStopLinePassData env c content st = Inr (r, c', st') \<Longrightarrow>
      good_step env CmdStopLinePassData content st r st'"
    and "PkgProcessFun_CmdAbnormalStopData env c content st = Inr (r, c', st') \<Longrightarrow>
      good_step env CmdAbnormalStopData content st r st'"
    and "PkgProcessFun_CmdLongDistanceOnSolidLineAlarm env c content st = Inr (r, c', st') \<Longrightarrow>
      good_step env CmdLongDistanceOnSolidLineAlarm content st r st'"
    and "PkgProcessFun_CmdHumanData env c content st = Inr (r, c', st') \<Longrightarrow>
      good_step env CmdHumanData content st r st'"
    and "PkgProcessFun_CmdHumanLitPoleData env c content st = Inr (r, c', st') \<Longrightarrow>
      good_step env CmdHumanLitPoleData content st r st'"
    and "PkgProcessFun_CmdTrafficDetectorStatus env c content st = Inr (r, c', st') \<Longrightarrow>
      good_step env CmdTrafficDetectorStatus content st r st'"
  unfolding recv_handler_defs
  by (erule recv_good_rules; insert ok; simp add: message_header_def data_ok_def all_caches_def)+

lemma good_others:
  assumes ok: "data_ok (lc_roadNum (ps_cfg st)) (ps_data st)"
    and f: "f \<in> {PkgProcessFun_CmdResponse, PkgProcessFun_CmdControl, PkgProcessFun_CmdHeartBeat,
      PkgProcessFun_0xf1, PkgProcessFun_0xf2, PkgProcessFun_0xf3, PkgProcessFun_CmdCrossStageData}"
    and run: "f env c content st = Inr (r, c', st')"
  shows "good_step env cmd content st r st'"
proof (rule good_same[OF ok])
  have j: "judgeHardCode code ip st = (b, s) \<Longrightarrow> ps_data s = ps_data st \<and> ps_cfg s = ps_cfg st"
    for code ip b s by (auto simp: judgeHardCode_def deleteFromConns_def split: if_splits)
  have "ps_data st' = ps_data st \<and> lc_roadNum (ps_cfg st') = lc_roadNum (ps_cfg st)"
    using f run
    by (elim insertE emptyE)
      (auto simp: PkgProcessFun_CmdResponse_def PkgProcessFun_CmdControl_def PkgProcessFun_CmdHeartBeat_def
        PkgProcessFun_0xf1_def PkgProcessFun_0xf2_def PkgProcessFun_0xf3_def
        PkgProcessFun_CmdCrossStageData_def Let_def
        split: option.splits conn.splits prod.splits sum.splits if_splits dest!: admit_same j)
  then show "ps_data st' = ps_data st" "lc_roadNum (ps_cfg st') = lc_roadNum (ps_cfg st)" by simp_all
qed

lemma dispatch_good:
  assumes ok: "data_ok (lc_roadNum (ps_cfg st)) (ps_data st)"
    and run: "dispatch env c pkg st = Inr (r, c', st')"
  shows "good_step env (cmd_of (h_cmd (p_head pkg))) (p_body pkg) st r st'"
proof (cases "map_of PkgProcessMap (cmd_of (h_cmd (p_head pkg)))")
  case None
  then show ?thesis using run good_same[OF ok] by (simp add: dispatch_def)
next
  case (Some f)
  let ?cmd = "cmd_of (h_cmd (p_head pkg))"
  have f: "f env c (p_body pkg) st = Inr (r, c', st')" using run Some by (simp add: dispatch_def)
  show ?thesis
    using map_of_SomeD[OF Some] f good_units[OF ok] good_fusion[OF ok] good_others[where f = f, OF ok _ f]
    unfolding PkgProcessMap_def set_simps by (elim insertE emptyE) auto
qed

section \<open>Properties of the dispatch\<close>

text \<open>A run of packets, stopped by an error.\<close>

fun run_packets :: "(proc_env \<times> conn \<times> Pkg) list \<Rightarrow> proc_state \<Rightarrow> proc_error + proc_state" where
  "run_packets [] st = Inr st"
| "run_packets ((env, c, pkg) # ps) st =
     (case dispatch env c pkg st of Inl e \<Rightarrow> Inl e | Inr (r, c', st') \<Rightarrow> run_packets ps st')"

lemma run_packets_ok:
  "data_ok (lc_roadNum (ps_cfg st)) (ps_data st) \<Longrightarrow> run_packets ps st = Inr st' \<Longrightarrow>
     lc_roadNum (ps_cfg st') = lc_roadNum (ps_cfg st) \<and> data_ok (lc_roadNum (ps_cfg st)) (ps_data st')"
proof (induction ps st rule: run_packets.induct)
  case (2 env c pkg ps st)
  then obtain r c' s where d: "dispatch env c pkg st = Inr (r, c', s)"
    by (cases "dispatch env c pkg st") auto
  from dispatch_good[OF 2(2) d] show ?case using 2(1)[OF d refl refl] 2(3) d by (simp add: good_step_def)
qed simp

text \<open>
  Whatever packets of whatever connections the program processes after it started, unless one
  ends in an error every unit stays well-formed: it has as many caches as there are roads, and its
  caches and its output queue never hold more than its capacity.
\<close>

lemma packets_keep_units:
  assumes "0 \<le> lc_roadNum (ps_cfg st)" and "ps_data st = Data_instance (ps_cfg st) db1 db2"
    and "run_packets ps st = Inr st'"
  shows "data_ok (lc_roadNum (ps_cfg st)) (ps_data st')"
  using run_packets_ok[OF _ assms(3)] data_ok_instance[OF assms(1)] assms(2) by simp

text \<open>
  C20. A packet changes the content of a cache only if it is a message to be stored whose text
  decodes, whose time is close enough to the clock, and whose device code is not empty and, when the
  configuration asks for it, among the associated devices; and then its handler returns 0.
\<close>

theorem caches_change_only_admitted:
  assumes "data_ok (lc_roadNum (ps_cfg st)) (ps_data st)"
    and "dispatch env c pkg st = Inr (r, c', st')"
    and "all_caches (ps_data st') \<noteq> all_caches (ps_data st)"
  shows "r = 0 \<and> (\<exists>ts code. message_header (pe_dec env) (cmd_of (h_cmd (p_head pkg))) (p_body pkg) = Some (ts, code) \<and>
    admissible env ts code st)"
  using dispatch_good[OF assms(1,2)] assms(3) by (simp add: good_step_def)

section \<open>Unknown devices\<close>

lemma recv_store_no_error: "recv_store dec ts code sel upd rate env c content st \<noteq> Inl e"
  by (auto simp: recv_store_def split: option.splits prod.splits)

lemma recv_store_unknown:
  assumes "map_option (\<lambda>m. (ts m, code m)) (dec content) = Some (t, cd)"
    and "admit env t cd st = (False, st')"
  shows "recv_store dec ts code sel upd rate env c content st = Inr (- 1, c, st')"
  using assms by (auto simp: recv_store_def)

text \<open>
  A message to be stored from a device that is not associated, when the configuration checks
  this, is refused, changes nothing, and has the sockets of all the connections of its sender shut
  down.
\<close>
lemma unknown_device_disconnected:
  assumes "message_header (pe_dec env) (cmd_of (h_cmd (p_head pkg))) (p_body pkg) = Some (ts, code)"
    and "judgeTimestamp (u64_of_double ts) (pe_now env) st" and "code \<noteq> []"
    and "lc_isUseJudgeHardCode (ps_cfg st)" and "code \<notin> set (ps_equips st)" and "lc_mode (ps_cfg st) \<noteq> 2"
  shows "dispatch env c pkg st = Inr (- 1, c, st\<lparr>ps_conns :=
    map (\<lambda>(peer, down). (peer, down \<or> peer = pe_ip env)) (ps_conns st)\<rparr>)"
proof -
  let ?st = "st\<lparr>ps_conns := map (\<lambda>(peer, down). (peer, down \<or> peer = pe_ip env)) (ps_conns st)\<rparr>"
  have del: "deleteFromConns (pe_ip env) st = ?st"
    by (auto simp: deleteFromConns_def intro!: proc_state.equality)
  have adm: "admit env ts code st = (False, ?st)"
    using assms(2-5) by (simp add: admit_eq admissible_def del)
  note r = recv_store_unknown[OF _ adm, where content = "p_body pkg" and c = c]
  show ?thesis
  proof (cases "cmd_of (h_cmd (p_head pkg))")
    case CmdFusionData
    then show ?thesis
      using assms(1,6) adm
      by (auto simp: dispatch_def PkgProcessMap_def message_header_def PkgProcessFun_CmdFusionData_def Let_def)
  qed (use assms(1) in \<open>simp_all add: dispatch_def PkgProcessMap_def message_header_def
      recv_handler_defs r\<close>)
qed

section \<open>Targets by direction\<close>

text \<open>
  An admissible frame of a road of direction north, east, south or west is stored, as the newest
  message, in the cache of that direction, which then holds its last 15 messages; the caches of
  the other directions stay as they were.
\<close>
lemma fusion_stored_by_direction:
  assumes "data_ok (lc_roadNum (ps_cfg st)) (ps_data st)" and "lc_mode (ps_cfg st) \<noteq> 2"
    and "da_roadDirection (ps_data st) = [North, East, South, West]" and "4 \<le> lc_roadNum (ps_cfg st)"
    and "dc_WatchData (pe_dec env) content = Some msg"
    and "admissible env (wd_timestamp msg) (wd_hardCode msg) st"
    and "k < 4" and "wd_direction msg = [North, East, South, West] ! k"
  shows "\<exists>st'. PkgProcessFun_CmdFusionData env c content st = Inr (0, c, st') \<and>
    cached (da_fusion (ps_data st')) = (cached (da_fusion (ps_data st)))[k :=
      (let old = cached (da_fusion (ps_data st)) ! k in drop (Suc (length old) - 15) (old @ [msg]))]"
proof -
  let ?n = "lc_roadNum (ps_cfg st)"
  have adm: "admit env (wd_timestamp msg) (wd_hardCode msg) st = (True, st)"
    using assms(6) by (simp add: admit_eq)
  have "k = 0 \<or> k = 1 \<or> k = 2 \<or> k = 3" using assms(7) by auto
  then have idx: "fusion_index (wd_direction msg) (ps_data st) = int k"
    using assms(3,8) by (auto simp: fusion_index_def North_def East_def South_def West_def)
  have u: "unit_ok ?n 15 (da_fusion (ps_data st))" using assms(1) by (simp add: data_ok_def)
  obtain ct du where s: "start_unit 15 (ps_cfg st) WatchData_new (ct_update (wd_direction msg)
      (u64_of_double (wd_timestamp msg)) 15 (ps_CT_fusionData st)) (da_fusion (ps_data st)) = (ct, du)" by fastforce
  note u1 = start_unit_ok[OF u s]
  have k: "k < length (du_iq du)" using assms(4,7) u1 u by (auto simp: unit_ok_def du_wf_def)
  then have v: "v_isSetMax (du_iq du ! k)" "vector_wf (du_iq du ! k)" "v_max (du_iq du ! k) = 15"
    using u1(1) by (auto simp: unit_ok_def du_wf_def)
  have p: "pushI msg (int k) du = (True, du\<lparr>du_iq := (du_iq du)[k := vector_push msg (du_iq du ! k)]\<rparr>)"
    using k by (simp add: pushI_def)
  have "\<not> du_numI (da_fusion (ps_data st)) \<le> int k" using u assms(4,7) by (auto simp: unit_ok_def)
  then show ?thesis
    using assms(2,5) adm idx s p u1(2) k vector_push_bounded[OF v(1,2), of msg] v(3)
    by (auto simp: PkgProcessFun_CmdFusionData_def cached_def map_update Let_def)
qed

section \<open>Errors\<close>

lemma f1_written:
  "setToBytesWithTF (f1_frame junk msg) = Inr (frame_setToBytes (frame_signed (f1_frame junk msg)))"
  "getFromBytesWithTF item (frame_setToBytes (frame_signed (f1_frame junk msg))) True (FrameAll_new g) =
     Inr (0, (frame_signed (f1_frame junk msg))\<lparr>fa_dataItems := [f1_item msg]\<rparr>)"
proof -
  have f: "fa_comType (f1_frame junk msg) = ComType_UDP" "\<not> fa_isUpdateLength (f1_frame junk msg)"
    "\<not> fa_isUpdateCRC (f1_frame junk msg)" "fa_dataItems (f1_frame junk msg) = [f1_item msg]"
    "fa_dataItemNum (f1_frame junk msg) = 1"
    by (simp_all add: f1_frame_def FrameAll_new_def)
  have "item_ok (f1_item msg)" "item_norm (f1_item msg) = f1_item msg"
    by (simp_all add: item_ok_def item_norm_def item_len_def f1_item_def)
  then show "setToBytesWithTF (f1_frame junk msg) = Inr (frame_setToBytes (frame_signed (f1_frame junk msg)))"
    "getFromBytesWithTF item (frame_setToBytes (frame_signed (f1_frame junk msg))) True (FrameAll_new g) =
     Inr (0, (frame_signed (f1_frame junk msg))\<lparr>fa_dataItems := [f1_item msg]\<rparr>)"
    using frame_written_read(1)[of "f1_frame junk msg"] frame_written_read(2)[of "f1_frame junk msg" item g] f
    by simp_all
qed

lemma f1_error:
  assumes "PkgProcessFun_0xf1 env c content st = Inl e"
  shows "e = Signal_error Over_read \<and> sc_isOpen (ps_signal st)"
proof -
  have "ps_signal s = ps_signal st" if "admit env ts code st = (b, s)" for ts code b s
    using that by (auto simp: admit_eq deleteFromConns_def split: if_splits)
  moreover have "fa_comType (FrameAll_new junk) = ComType_UDP" for junk by (simp add: FrameAll_new_def)
  ultimately show ?thesis
    using assms Communicate_error[OF _ f1_written(1)]
    by (fastforce simp: PkgProcessFun_0xf1_def f1_written Let_def split: option.splits prod.splits if_splits sum.splits)
qed

text \<open>
  An admissible count of vehicles, with the signal controller open, sends it exactly one datagram,
  which the receiver of such frames reads as a command to set object 192.2.1.0, with a flag for
  whether any vehicle was seen; the handler then returns 0 whatever the controller answers.
\<close>
lemma f1_sends_flag:
  assumes "dc_TrafficData (pe_dec env) content = Some msg"
    and "admissible env (trd_timestamp msg) (trd_hardCode msg) st" and "sc_isOpen (ps_signal st)"
    and "PkgProcessFun_0xf1 env c content st = Inr (r, c', st')"
  shows "r = 0 \<and> (\<exists>bs f d. ps_signal_sent st' = ps_signal_sent st @ [bs] \<and>
    getFromBytesWithTF junk bs True (FrameAll_new g) = Inr (0, f) \<and> fa_type f = frame_type_code Type_Set \<and>
    fa_dataItems f = [d] \<and> (di_typeID d, di_objID d, di_attrID d, di_elementID d) = (192, 2, 1, 0) \<and>
    di_data d ! 7 = (if 0 < trd_vehicleCount msg then 1 else 0))"
proof -
  obtain junk_item junk' where j: "pe_sig_junk env = (junk_item, junk')" by fastforce
  have adm: "admit env (trd_timestamp msg) (trd_hardCode msg) st = (True, st)"
    using assms(2) by (simp add: admit_eq)
  have "r = 0 \<and> ps_signal_sent st' = ps_signal_sent st @ [frame_setToBytes (frame_signed (f1_frame junk' msg))]"
    using assms(1,3,4) adm j f1_written(1)
    by (auto simp: PkgProcessFun_0xf1_def Let_def split: sum.splits prod.splits)
  then show ?thesis
    using f1_written(2)[of junk junk' msg g]
    by (auto simp: f1_item_def frame_signed_def frame_sized_def f1_frame_def Let_def)
qed

text \<open>
  Processing a packet ends in an error only in these cases: the answer to a message comes over a
  server-side connection so late that the handler marks it for reconnecting, a member that only a
  client has; the answer of the signal controller makes its parser read beyond the buffer; a request
  of the stage data comes over a client connection, which is cast to a server-side one, or the reply
  to it fails and its connection deletes itself in the middle of the send; or the device number does
  not fit an \<open>int\<close>.
\<close>

lemma dispatch_errors:
  assumes "dispatch env c pkg st = Inl e"
  shows "cmd_of (h_cmd (p_head pkg)) = CmdResponse \<and> e = Wrong_cast \<and> (\<exists>h. c = Server_conn h) \<or>
    cmd_of (h_cmd (p_head pkg)) = CmdRaw 0xf1 \<and> e = Signal_error Over_read \<and> sc_isOpen (ps_signal st) \<or>
    cmd_of (h_cmd (p_head pkg)) = CmdCrossStageData \<and>
      (e = Wrong_cast \<and> (\<exists>cl. c = Client_conn cl) \<or> e = Freed_connection \<and> (\<exists>h. c = Server_conn h) \<or>
       e = Uncaught_exception \<and> stoi (take 10 (da_matrixNo (ps_data st))) = None)"
proof (cases "map_of PkgProcessMap (cmd_of (h_cmd (p_head pkg)))")
  case (Some f)
  have f: "f env c (p_body pkg) st = Inl e" using assms Some by (simp add: dispatch_def)
  have j: "judgeHardCode code ip st = (b, s) \<Longrightarrow> ps_data s = ps_data st" for code ip b s
    by (auto simp: judgeHardCode_def deleteFromConns_def split: if_splits)
  show ?thesis
    using map_of_SomeD[OF Some] f
    unfolding PkgProcessMap_def set_simps
    by (elim insertE emptyE)
      (auto simp: recv_store_no_error PkgProcessFun_CmdResponse_def PkgProcessFun_CmdControl_def PkgProcessFun_CmdHeartBeat_def
        PkgProcessFun_0xf2_def PkgProcessFun_0xf3_def
        PkgProcessFun_CmdFusionData_def PkgProcessFun_CmdCrossStageData_def Let_def
        recv_handler_defs
        split: option.splits conn.splits prod.splits sum.splits if_splits dest!: j f1_error)
qed (use assms in \<open>simp add: dispatch_def\<close>)

section \<open>The start of a unit\<close>

text \<open>
  When the measured rate starts a unit, its \<open>init\<close> forgets which device has which cache but keeps
  the caches: the next device to send takes the first cache, whatever cache it had, among the messages
  of the device that had the first one.
\<close>
lemma start_forgets_positions:
  assumes "unit_ok (lc_roadNum cfg) c du" and "0 < lc_roadNum cfg"
    and "ct_isSetInterval ct" and "\<not> ct_isStartTask ct"
    and "start_unit c cfg dflt ct du = (ct', du')" and "code \<noteq> []"
  shows "fst (FindIndexInUnOrder code du') = 0 \<and> cached du' = cached du"
proof -
  obtain m where m: "nat (lc_roadNum cfg) = Suc m" using assms(2) by (cases "nat (lc_roadNum cfg)") auto
  have "du_unOrder du' = [] # replicate m []"
    using assms(3-5) m by (auto simp: start_unit_def data_unit_init_def setCapNumI_def)
  moreover have "du_iq du' = du_iq du" by (rule start_unit_ok(2)[OF assms(1,5)])
  ultimately show ?thesis
    using assms(6) by (auto simp: FindIndexInUnOrder_def cached_def split: option.split)
qed

section \<open>The reply with the stage data\<close>

lemma server_SendBase_ok:
  assumes "\<forall>bs. send bs = Sent (int (length bs))" "sendable pkg"
  shows "\<exists>h'. server_SendBase send now1 now2 pkg h = Inr (0, h')"
proof -
  let ?net = "\<lparr>nt_send = \<lambda>_. send, nt_isUse = False, nt_thr = 0,
    nt_start = 0, nt_now1 = now1, nt_now2 = now2\<rparr>"
  have "taking ?net" using assms(1) by (simp add: taking_def)
  from SendBase_ok[OF this assms(2), of "(client_new [])\<lparr>cl_isNeedReconnect := False\<rparr>" "[]"]
  obtain c' where "SendBase ?net [] pkg ((client_new [])\<lparr>cl_isNeedReconnect := False\<rparr>) = (0, c')" by auto
  then show ?thesis
    using assms(1) by (auto simp: SendBase_def client_SendBase_def server_SendBase_def Let_def send_outcome_def
        split: prod.splits if_splits)
qed

text \<open>
  \<open>PkgProcessFun_CmdCrossStageData\<close> takes the return value of \<open>SendBase\<close> the wrong way round: when
  the reply has been sent whole, it reports a failure and returns \<open>-1\<close>.
\<close>
lemma stage_reply_inverted:
  assumes "dc_CrossStageData (pe_dec env) content = Some msg" and "csd_hardCode msg \<noteq> []"
    and "csd_hardCode msg \<in> set (ps_equips st)" and "da_crossStage (ps_data st) = [m]"
    and "stoi (take 10 (da_matrixNo (ps_data st))) = Some n"
    and "\<forall>bs. pe_send env bs = Sent (int (length bs))" and "15 + length (pe_enc_stage env m) < 2 ^ 32"
  shows "\<exists>h' st'. PkgProcessFun_CmdCrossStageData env (Server_conn h) content st = Inr (- 1, Server_conn h', st')"
proof -
  let ?pkg = "CrossStageData_PkgWithoutCRC (pe_enc_stage env) (ucast (ps_sn_CrossStageData st)) (word_of_int n) m"
  have "sendable ?pkg"
    using assms(7) PkgWithoutCRC_wf[of "pe_enc_stage env m"]
    by (simp add: sendable_def CrossStageData_PkgWithoutCRC_def) (simp add: PkgWithoutCRC_def)
  from server_SendBase_ok[OF assms(6) this, of "pe_now env" "pe_now env" h] show ?thesis
    using assms(1-5) by (auto simp: PkgProcessFun_CmdCrossStageData_def judgeHardCode_def isAssociated_iff Let_def)
qed

section \<open>Witnesses\<close>

definition demo_dec :: decoders where
  "demo_dec = \<lparr>dc_Reply = (\<lambda>_. Some Reply_new), dc_Control = (\<lambda>_. None),
     dc_WatchData = (\<lambda>_. Some (WatchData_new\<lparr>wd_hardCode := ''d1'', wd_direction := East\<rparr>)),
     dc_CrossTrafficJamAlarm = (\<lambda>_. None), dc_IntersectionOverflowAlarm = (\<lambda>_. None),
     dc_TrafficFlow = (\<lambda>_. None), dc_InWatchData_1_3_4 = (\<lambda>_. None), dc_InWatchData_2 = (\<lambda>_. None),
     dc_StopLinePassData = (\<lambda>_. Some (StopLinePassData_new\<lparr>sp_hardCode := ''d1''\<rparr>)),
     dc_AbnormalStopData = (\<lambda>_. None), dc_LongDistanceOnSolidLineAlarm = (\<lambda>_. None),
     dc_HumanData = (\<lambda>_. None), dc_HumanLitPoleData = (\<lambda>_. None), dc_TrafficData = (\<lambda>_. None),
     dc_AlarmBroken = (\<lambda>_. None), dc_UrgentPriority = (\<lambda>_. None), dc_TrafficDetectorStatus = (\<lambda>_. None),
     dc_CrossStageData = (\<lambda>_. Some (CrossStageData_new\<lparr>csd_hardCode := ''d1''\<rparr>))\<rparr>"

definition demo_penv :: proc_env where
  "demo_penv = \<lparr>pe_ip = ''ip'', pe_now = 9, pe_uuid = ''u'', pe_dec = demo_dec, pe_enc_stage = (\<lambda>_. []),
     pe_send = (\<lambda>bs. Sent (int (length bs))),
     pe_sig_sendto = (\<lambda>bs. int (length bs)), pe_sig_recvfrom = None, pe_sig_junk = (sig_demo_item, sig_demo_frame)\<rparr>"

definition demo_proc :: "string list \<Rightarrow> proc_state" where
  "demo_proc equips = \<lparr>ps_cfg = localConfig_new\<lparr>lc_roadNum := 4\<rparr>, ps_equips = equips,
     ps_conns = [(''ip'', False), (''other'', False)],
     ps_data = Data_instance (localConfig_new\<lparr>lc_roadNum := 4\<rparr>) None None,
     ps_CT_fusionData = CacheTimestamp_new, ps_CT_trafficFlowGather = CacheTimestamp_new,
     ps_CT_humanLitPoleData = CacheTimestamp_new, ps_signal = SignalControl_new ''172.16.1.1'' 15050 12345, ps_signal_sent = [],
     ps_sn_CrossStageData = 0\<rparr>"

definition demo_pkg :: "CmdType \<Rightarrow> Pkg" where
  "demo_pkg cmd = PkgWithoutCRC cmd [] 1 2"

lemma demo_cmd [simp]: "cmd \<in> set cmd_named \<Longrightarrow> cmd_of (h_cmd (p_head (demo_pkg cmd))) = cmd"
  by (simp add: demo_pkg_def PkgWithoutCRC_def cmd_of_code)

lemma demo_proc_ok: "data_ok 4 (ps_data (demo_proc equips))"
  using data_ok_instance[of "localConfig_new\<lparr>lc_roadNum := 4\<rparr>" None None] by (simp add: demo_proc_def)

lemma demo_proc_simps [simp]:
  "ps_equips (demo_proc eqs) = eqs" "lc_roadNum (ps_cfg (demo_proc eqs)) = 4"
  "lc_isUseJudgeHardCode (ps_cfg (demo_proc eqs))" "lc_mode (ps_cfg (demo_proc eqs)) = 0"
  "lc_thresholdTimeRecv (ps_cfg (demo_proc eqs)) = 180" "pe_now demo_penv = 9" "pe_dec demo_penv = demo_dec"
  "ps_conns (demo_proc eqs) = [(''ip'', False), (''other'', False)]" "pe_ip demo_penv = ''ip''"
  "0 \<le> lc_roadNum (ps_cfg (demo_proc eqs))"
  by (simp_all add: demo_proc_def localConfig_new_def demo_penv_def)

lemma demo_time [simp]: "u64_of_double 0 = 0"
  by (simp add: u64_of_double_def trunc_real_def)

lemma demo_header [simp]: "message_header demo_dec CmdStopLinePassData content = Some (0, ''d1'')"
  by (simp add: message_header_def demo_dec_def StopLinePassData_new_def)

theorem unknown_device_disconnected_witness:
  "\<exists>st'. dispatch demo_penv (Client_conn (client_new [])) (demo_pkg CmdStopLinePassData) (demo_proc [''d2'']) =
     Inr (- 1, Client_conn (client_new []), st') \<and>
     ps_conns st' = [(''ip'', True), (''other'', False)]"
  using unknown_device_disconnected[of demo_penv "demo_pkg CmdStopLinePassData" 0 "''d1''" "demo_proc [''d2'']" "Client_conn (client_new [])"]
  by (simp add: cmd_named_def judgeTimestamp_def)

lemma demo_stop_dispatch:
  "dispatch demo_penv c (demo_pkg CmdStopLinePassData) (demo_proc [''d1'']) =
     (let (ret, st) = store_msg da_stopline da_stopline_update no_rate
        (StopLinePassData_new\<lparr>sp_hardCode := ''d1''\<rparr>) ''d1'' (demo_proc [''d1'']) in Inr (ret, c, st))"
  by (simp add: dispatch_def cmd_named_def PkgProcessMap_def PkgProcessFun_CmdStopLinePassData_def recv_store_def
      demo_dec_def StopLinePassData_new_def admit_eq admissible_def)

lemma demo_stop_unit: "da_stopline (ps_data (demo_proc eqs)) = data_unit_init 10 500 4 1 10 StopLinePassData_new data_unit_new"
  by (simp add: demo_proc_def Data_instance_def localConfig_new_def Let_def)

lemma replicate_4: "replicate 4 x = [x, x, x, x]"
  by (simp add: numeral_eq_Suc)

lemma demo_stop_stored:
  "\<exists>st'. dispatch demo_penv c (demo_pkg CmdStopLinePassData) (demo_proc [''d1'']) = Inr (0, c, st') \<and>
     all_caches (ps_data st') \<noteq> all_caches (ps_data (demo_proc [''d1'']))"
proof -
  obtain i du where f: "FindIndexInUnOrder ''d1'' (da_stopline (ps_data (demo_proc [''d1'']))) = (i, du)" by fastforce
  have un: "du_unOrder (da_stopline (ps_data (demo_proc [''d1'']))) = [[], [], [], []]"
    and iq0: "cached (da_stopline (ps_data (demo_proc [''d1'']))) = [[], [], [], []]"
    by (simp_all add: demo_stop_unit data_unit_init_def setCapNumI_def data_unit_new_def replicate_4
        cached_def vec_resize_def vector_setMax_def vector_new_def)
  have i: "i = 0" using f un by (simp add: FindIndexInUnOrder_def)
  have iq: "cached du = [[], [], [], []]"
    using iq0 f FindIndex_simps(1)[of "''d1''" "da_stopline (ps_data (demo_proc [''d1'']))"] by (simp add: cached_def)
  have u: "unit_ok 4 10 du"
    using unit_ok_FindIndex[of 4 10 "da_stopline (ps_data (demo_proc [''d1'']))" "''d1''"]
      demo_proc_ok[of "[''d1'']"] f by (simp add: data_ok_def)
  have l: "0 < length (du_iq du)" using arg_cong[OF iq, of length] by (simp add: cached_def)
  have "cached (snd (pushI msg 0 du)) \<noteq> [[], [], [], []]" for msg
  proof -
    have "v_items (vector_push msg (du_iq du ! 0)) \<noteq> []"
    proof -
      have "v_isSetMax (du_iq du ! 0) \<and> vector_wf (du_iq du ! 0) \<and> v_max (du_iq du ! 0) = 10"
        using u nth_mem[OF l] by (simp add: unit_ok_def du_wf_def)
      moreover have "v_items (du_iq du ! 0) = []"
        using iq l by (cases "du_iq du") (auto simp: cached_def)
      ultimately show ?thesis by (simp add: vector_push_bounded)
    qed
    then show ?thesis using l by (cases "du_iq du") (auto simp: pushI_def vec_at_def cached_def)
  qed
  then show ?thesis
    using fld_stopline.store_stored[OF _ f, of 4 10 "StopLinePassData_new\<lparr>sp_hardCode := ''d1''\<rparr>"]
      demo_proc_ok[of "[''d1'']"] iq0 i
    by (simp add: demo_stop_dispatch data_ok_def all_caches_def)
qed

theorem caches_change_only_admitted_witness: "admissible demo_penv 0 ''d1'' (demo_proc [''d1''])"
proof -
  obtain st' where d: "dispatch demo_penv (Client_conn (client_new [])) (demo_pkg CmdStopLinePassData) (demo_proc [''d1'']) =
      Inr (0, Client_conn (client_new []), st')"
    and ch: "all_caches (ps_data st') \<noteq> all_caches (ps_data (demo_proc [''d1'']))"
    using demo_stop_stored by blast
  show ?thesis
    using caches_change_only_admitted[OF _ d ch] demo_proc_ok by (auto simp: cmd_named_def)
qed

lemma packets_keep_units_witness:
  "\<exists>st'. run_packets [(demo_penv, Client_conn (client_new []), demo_pkg CmdStopLinePassData)] (demo_proc [''d1'']) = Inr st' \<and>
     data_ok 4 (ps_data st')"
proof -
  obtain st' where "run_packets [(demo_penv, Client_conn (client_new []), demo_pkg CmdStopLinePassData)] (demo_proc [''d1'']) = Inr st'"
    using demo_stop_stored[of "Client_conn (client_new [])"] by auto
  from packets_keep_units[OF _ _ this, of None None] this show ?thesis
    by (simp add: demo_proc_def localConfig_new_def)
qed

theorem fusion_stored_by_direction_witness:
  "\<exists>st'. PkgProcessFun_CmdFusionData demo_penv (Client_conn (client_new [])) [] (demo_proc [''d1'']) =
     Inr (0, Client_conn (client_new []), st') \<and>
     cached (da_fusion (ps_data st')) ! 1 = [WatchData_new\<lparr>wd_hardCode := ''d1'', wd_direction := East\<rparr>]"
proof -
  have d: "data_ok (lc_roadNum (ps_cfg (demo_proc [''d1'']))) (ps_data (demo_proc [''d1'']))" using demo_proc_ok by simp
  have r: "da_roadDirection (ps_data (demo_proc [''d1''])) = [North, East, South, West]"
    by (simp add: demo_proc_def Data_instance_def Let_def)
  have m: "dc_WatchData (pe_dec demo_penv) [] = Some (WatchData_new\<lparr>wd_hardCode := ''d1'', wd_direction := East\<rparr>)"
    by (simp add: demo_dec_def)
  have c0: "cached (da_fusion (ps_data (demo_proc [''d1'']))) = [[], [], [], []]"
    by (simp add: demo_proc_def Data_instance_def localConfig_new_def setCapNumI_def data_unit_new_def cached_def
        vec_resize_def vector_setMax_def vector_new_def replicate_4 Let_def)
  obtain st' where "PkgProcessFun_CmdFusionData demo_penv (Client_conn (client_new [])) [] (demo_proc [''d1'']) =
      Inr (0, Client_conn (client_new []), st')"
    "cached (da_fusion (ps_data st')) ! 1 = [WatchData_new\<lparr>wd_hardCode := ''d1'', wd_direction := East\<rparr>]"
    using fusion_stored_by_direction[OF d _ r _ m, of 1 "Client_conn (client_new [])"] c0 by (auto simp: admissible_def WatchData_new_def)
  then show ?thesis by blast
qed

lemma dispatch_errors_witness:
  "\<exists>e. dispatch demo_penv (Client_conn (client_new [])) (demo_pkg CmdCrossStageData) (demo_proc [''d1'']) = Inl e \<and> e \<noteq> Freed_connection"
proof -
  have "\<exists>e. dispatch demo_penv (Client_conn (client_new [])) (demo_pkg CmdCrossStageData) (demo_proc [''d1'']) = Inl e"
    by (simp add: dispatch_def PkgProcessMap_def PkgProcessFun_CmdCrossStageData_def demo_dec_def cmd_named_def
        judgeHardCode_def isAssociated_iff Let_def CrossStageData_new_def split: option.split)
  then obtain e where "dispatch demo_penv (Client_conn (client_new [])) (demo_pkg CmdCrossStageData) (demo_proc [''d1'']) = Inl e" ..
  from dispatch_errors[OF this] this show ?thesis by auto
qed

theorem start_forgets_positions_witness:
  "fst (FindIndexInUnOrder ''b'' (snd (start_unit 3 (localConfig_new\<lparr>lc_roadNum := 2\<rparr>) TrafficFlow_new
     (CacheTimestamp_new\<lparr>ct_isSetInterval := True\<rparr>)
     ((setCapNumI 3 2 TrafficFlow_new data_unit_new :: (TrafficFlow, TrafficFlowGather) data_unit)\<lparr>du_unOrder := [''a'', ''b'']\<rparr>)))) = 0"
proof -
  let ?cfg = "localConfig_new\<lparr>lc_roadNum := 2\<rparr>"
    and ?ct = "CacheTimestamp_new\<lparr>ct_isSetInterval := True\<rparr>"
    and ?du = "(setCapNumI 3 2 TrafficFlow_new data_unit_new :: (TrafficFlow, TrafficFlowGather) data_unit)\<lparr>du_unOrder := [''a'', ''b'']\<rparr>"
  have u: "unit_ok (lc_roadNum ?cfg) 3 ?du"
    using du_wf_setCapNumI[of 2 3 TrafficFlow_new] by (simp add: unit_ok_def du_wf_def setCapNumI_def)
  obtain ct' du' where s: "start_unit 3 ?cfg TrafficFlow_new ?ct ?du = (ct', du')" by fastforce
  from start_forgets_positions[OF u _ _ _ s] s show ?thesis by (simp add: CacheTimestamp_new_def)
qed

theorem stage_reply_inverted_witness:
  "\<exists>h' st'. PkgProcessFun_CmdCrossStageData demo_penv (Server_conn (handler_new [])) []
     ((demo_proc [''d1''])\<lparr>ps_data := (ps_data (demo_proc [''d1'']))\<lparr>da_crossStage := [CrossStageData_new]\<rparr>\<rparr>) =
     Inr (- 1, Server_conn h', st')"
proof (rule stage_reply_inverted)
  show "dc_CrossStageData (pe_dec demo_penv) [] = Some (CrossStageData_new\<lparr>csd_hardCode := ''d1''\<rparr>)"
    by (simp add: demo_dec_def)
  show "stoi (take 10 (da_matrixNo (ps_data ((demo_proc [''d1''])\<lparr>ps_data := (ps_data (demo_proc [''d1'']))\<lparr>da_crossStage := [CrossStageData_new]\<rparr>\<rparr>)))) =
      Some 123456789"
    using demo_stoi by (simp add: demo_proc_def Data_instance_def getMatrixNo_def demo_env_def Let_def)
qed (simp_all add: demo_penv_def)

theorem f1_sends_flag_witness:
  "\<exists>st' bs f d. PkgProcessFun_0xf1 (demo_penv\<lparr>pe_dec := demo_dec\<lparr>dc_TrafficData :=
       (\<lambda>_. Some (TrafficData_new\<lparr>trd_hardCode := ''d1'', trd_vehicleCount := 3\<rparr>))\<rparr>\<rparr>) (Server_conn (handler_new [])) []
     ((demo_proc [''d1''])\<lparr>ps_signal := (SignalControl_new ''172.16.1.1'' 15050 12345)\<lparr>sc_isOpen := True\<rparr>\<rparr>) =
       Inr (0, Server_conn (handler_new []), st') \<and>
     ps_signal_sent st' = [bs] \<and> getFromBytesWithTF sig_demo_item bs True (FrameAll_new sig_demo_frame) = Inr (0, f) \<and>
     fa_dataItems f = [d] \<and> di_data d ! 7 = 1"
proof -
  let ?m = "TrafficData_new\<lparr>trd_hardCode := ''d1'', trd_vehicleCount := 3\<rparr>"
  let ?env = "demo_penv\<lparr>pe_dec := demo_dec\<lparr>dc_TrafficData := (\<lambda>_. Some ?m)\<rparr>\<rparr>" and ?c = "Server_conn (handler_new [])"
  let ?st = "(demo_proc [''d1''])\<lparr>ps_signal := (SignalControl_new ''172.16.1.1'' 15050 12345)\<lparr>sc_isOpen := True\<rparr>\<rparr>"
  have adm: "admissible ?env (trd_timestamp ?m) (trd_hardCode ?m) ?st"
    by (simp add: admissible_def TrafficData_new_def judgeTimestamp_def)
  have "pe_sig_recvfrom ?env = None" by (simp add: demo_penv_def)
  then have "PkgProcessFun_0xf1 ?env ?c [] ?st \<noteq> Inl e" for e
    using adm f1_written(1)
    by (auto simp: PkgProcessFun_0xf1_def admit_eq Communicate_def Let_def split: prod.splits if_splits)
  then obtain r c' st' where run: "PkgProcessFun_0xf1 ?env ?c [] ?st = Inr (r, c', st')"
    by (cases "PkgProcessFun_0xf1 ?env ?c [] ?st") auto
  moreover have "c' = ?c"
    using run by (auto simp: PkgProcessFun_0xf1_def Let_def split: option.splits prod.splits if_splits sum.splits)
  moreover have "ps_signal_sent ?st = []" by (simp add: demo_proc_def)
  ultimately show ?thesis
    using f1_sends_flag[OF _ adm _ run, of sig_demo_item sig_demo_frame] by auto
qed

end
