(* ===== verification/Timer.thy ===== *)
theory Timer
  imports Prelude
begin

text \<open>
  The timer thread of \<open>os/timeTask.hpp\<close>: one \<open>Timer\<close> object with its two atomic flags, the loop threads
  that \<open>start\<close> detaches and the threads that call its operations, as a step relation in which the steps
  of all of them interleave. A step is one access to a flag; running the task and sleeping are steps of
  a loop thread. The mutex and the condition variable make \<open>stop\<close> wait until \<open>_expired\<close> holds, which
  is the guard of its step. The first part shows what the timer guarantees to a single calling
  thread, the second what two can do to it.
\<close>

section \<open>States\<close>

datatype loop = L_test | L_task | L_sleep | L_exit

text \<open>Where a caller is: at the test and the two writes of \<open>start\<close>, or within \<open>stop\<close>.\<close>

datatype caller = Idle | S_test | S_set | S_spawn | P_expired | P_trying | P_try | P_wait | P_reset

record 'c timer =
  expired :: bool
  try_to_expire :: bool
  loops :: "loop list"
  callers :: "'c \<Rightarrow> caller"
  task_runs :: nat

definition Timer_new :: "'c timer" where
  "Timer_new = \<lparr>expired = True, try_to_expire = False, loops = [], callers = (\<lambda>c. Idle), task_runs = 0\<rparr>"

definition go :: "'c \<Rightarrow> caller \<Rightarrow> 'c timer \<Rightarrow> 'c timer" where
  "go c p s = s\<lparr>callers := (callers s)(c := p)\<rparr>"

section \<open>Steps\<close>

text \<open>The operations, as the next step of the calling thread.\<close>

inductive start_step :: "'c \<Rightarrow> 'c timer \<Rightarrow> 'c timer \<Rightarrow> bool" where
  start_call: "callers s c = Idle \<Longrightarrow> start_step c s (go c S_test s)"
| start_again: "callers s c = S_test \<Longrightarrow> \<not> expired s \<Longrightarrow> start_step c s (go c Idle s)"
| start_test: "callers s c = S_test \<Longrightarrow> expired s \<Longrightarrow> start_step c s (go c S_set s)"
| start_set: "callers s c = S_set \<Longrightarrow> start_step c s (go c S_spawn (s\<lparr>expired := False\<rparr>))"
| start_spawn: "callers s c = S_spawn \<Longrightarrow> start_step c s (go c Idle (s\<lparr>loops := loops s @ [L_test]\<rparr>))"

inductive stop_step :: "'c \<Rightarrow> 'c timer \<Rightarrow> 'c timer \<Rightarrow> bool" where
  stop_call: "callers s c = Idle \<Longrightarrow> stop_step c s (go c P_expired s)"
| stop_stopped: "callers s c = P_expired \<Longrightarrow> expired s \<Longrightarrow> stop_step c s (go c Idle s)"
| stop_running: "callers s c = P_expired \<Longrightarrow> \<not> expired s \<Longrightarrow> stop_step c s (go c P_trying s)"
| stop_stopping: "callers s c = P_trying \<Longrightarrow> try_to_expire s \<Longrightarrow> stop_step c s (go c Idle s)"
| stop_first: "callers s c = P_trying \<Longrightarrow> \<not> try_to_expire s \<Longrightarrow> stop_step c s (go c P_try s)"
| stop_try: "callers s c = P_try \<Longrightarrow> stop_step c s (go c P_wait (s\<lparr>try_to_expire := True\<rparr>))"
| stop_wait: "callers s c = P_wait \<Longrightarrow> expired s \<Longrightarrow> stop_step c s (go c P_reset s)"
| stop_reset: "callers s c = P_reset \<Longrightarrow>
    stop_step c s (go c Idle (if expired s then s\<lparr>try_to_expire := False\<rparr> else s))"

text \<open>
  A loop thread, which leaves the list when it has set \<open>_expired\<close> and notified. The waiting \<open>stop\<close> goes on only
  with the flag set, so that what \<open>notify_one\<close> does is in the guard of its step.
\<close>

definition set_loop :: "nat \<Rightarrow> loop \<Rightarrow> 'c timer \<Rightarrow> 'c timer" where
  "set_loop i l s = s\<lparr>loops := (loops s)[i := l]\<rparr>"

inductive loop_step :: "'c timer \<Rightarrow> 'c timer \<Rightarrow> bool" where
  loop_stop: "i < length (loops s) \<Longrightarrow> loops s ! i = L_test \<Longrightarrow> try_to_expire s \<Longrightarrow>
    loop_step s (set_loop i L_exit s)"
| loop_go: "i < length (loops s) \<Longrightarrow> loops s ! i = L_test \<Longrightarrow> \<not> try_to_expire s \<Longrightarrow>
    loop_step s (set_loop i L_task s)"
| loop_task: "i < length (loops s) \<Longrightarrow> loops s ! i = L_task \<Longrightarrow>
    loop_step s (set_loop i L_sleep (s\<lparr>task_runs := Suc (task_runs s)\<rparr>))"
| loop_sleep: "i < length (loops s) \<Longrightarrow> loops s ! i = L_sleep \<Longrightarrow> loop_step s (set_loop i L_test s)"
| loop_exit: "i < length (loops s) \<Longrightarrow> loops s ! i = L_exit \<Longrightarrow>
    loop_step s (s\<lparr>expired := True, loops := take i (loops s) @ drop (Suc i) (loops s)\<rparr>)"

text \<open>A step of a timer that only the threads of \<open>C\<close> call.\<close>

inductive timer_step :: "'c set \<Rightarrow> 'c timer \<Rightarrow> 'c timer \<Rightarrow> bool" for C where
  step_start: "c \<in> C \<Longrightarrow> start_step c s s' \<Longrightarrow> timer_step C s s'"
| step_stop: "c \<in> C \<Longrightarrow> stop_step c s s' \<Longrightarrow> timer_step C s s'"
| step_loop: "loop_step s s' \<Longrightarrow> timer_step C s s'"

inductive timer_reach :: "'c set \<Rightarrow> 'c timer \<Rightarrow> bool" for C where
  reach_new: "timer_reach C Timer_new"
| reach_step: "timer_reach C s \<Longrightarrow> timer_step C s s' \<Longrightarrow> timer_reach C s'"

section \<open>One calling thread\<close>

definition timer_inv :: "'c \<Rightarrow> 'c timer \<Rightarrow> bool" where
  "timer_inv c s \<longleftrightarrow>
     (let p = callers s c in
       (expired s \<longleftrightarrow> loops s = [] \<and> p \<noteq> S_spawn) \<and>
       length (loops s) \<le> 1 \<and>
       (p \<in> {S_set, S_spawn} \<longrightarrow> loops s = []) \<and>
       (try_to_expire s \<longleftrightarrow> p \<in> {P_wait, P_reset}) \<and>
       (p = P_reset \<longrightarrow> expired s) \<and> (p \<in> {P_trying, P_try} \<longrightarrow> \<not> expired s) \<and>
       (L_exit \<in> set (loops s) \<longrightarrow> try_to_expire s))"

lemma one_loop_cases:
  "length xs \<le> 1 \<Longrightarrow> i < length xs \<Longrightarrow> xs ! i = l \<Longrightarrow> i = 0 \<and> xs = [l]"
  by (cases xs) auto

lemma timer_inv_start: "timer_inv c s \<Longrightarrow> start_step c s s' \<Longrightarrow> timer_inv c s'"
  by (erule start_step.cases; simp add: timer_inv_def go_def Let_def; blast?)

lemma timer_inv_stop: "timer_inv c s \<Longrightarrow> stop_step c s s' \<Longrightarrow> timer_inv c s'"
  by (erule stop_step.cases; simp add: timer_inv_def go_def Let_def; blast?)

lemma loop_step_loops: "loop_step s s' \<Longrightarrow> loops s \<noteq> []"
  by (induction rule: loop_step.induct) auto

lemma loop_step_one:
  assumes "loop_step s s'" "length (loops s) \<le> 1"
  obtains l where "loops s = [l]"
    "(l = L_test \<and> s' = s\<lparr>loops := [if try_to_expire s then L_exit else L_task]\<rparr>) \<or>
     (l = L_task \<and> s' = s\<lparr>task_runs := Suc (task_runs s), loops := [L_sleep]\<rparr>) \<or>
     (l = L_sleep \<and> s' = s\<lparr>loops := [L_test]\<rparr>) \<or>
     (l = L_exit \<and> s' = s\<lparr>expired := True, loops := []\<rparr>)"
  using assms(1)
proof cases
  case (loop_stop i)
  with assms(2) one_loop_cases[of "loops s" i] show ?thesis by (intro that) (auto simp: set_loop_def)
next
  case (loop_go i)
  with assms(2) one_loop_cases[of "loops s" i] show ?thesis by (intro that) (auto simp: set_loop_def)
next
  case (loop_task i)
  with assms(2) one_loop_cases[of "loops s" i] show ?thesis by (intro that) (auto simp: set_loop_def)
next
  case (loop_sleep i)
  with assms(2) one_loop_cases[of "loops s" i] show ?thesis by (intro that) (auto simp: set_loop_def)
next
  case (loop_exit i)
  with assms(2) one_loop_cases[of "loops s" i] show ?thesis by (intro that) auto
qed

lemma timer_inv_loop:
  assumes "timer_inv c s" "loop_step s s'" shows "timer_inv c s'"
proof -
  have "length (loops s) \<le> 1" using assms(1) by (simp add: timer_inv_def Let_def)
  with assms(2) show ?thesis
    by (rule loop_step_one) (use assms(1) in \<open>elim disjE conjE; simp add: timer_inv_def Let_def split: if_splits; force?\<close>)
qed

lemma timer_inv_reach: "timer_reach {c} s \<Longrightarrow> timer_inv c s"
proof (induction rule: timer_reach.induct)
  case reach_new
  show ?case by (simp add: timer_inv_def Timer_new_def)
next
  case (reach_step s s')
  then show ?case
    by (auto elim!: timer_step.cases intro: timer_inv_start timer_inv_stop timer_inv_loop)
qed

text \<open>
  C17. A timer that one thread starts and stops, in every state it can reach by any interleaving: there is at
  most one loop thread, also while \<open>start\<close> and \<open>stop\<close> are under way, and when no operation is under way
  \<open>_expired\<close> tells whether there is one. A step with which \<open>stop\<close> returns leaves none and resets the
  flags, and no step but the last one of \<open>start\<close> makes one, so the task does not run until the next \<open>start\<close>.
\<close>
theorem timer_stop_stops:
  assumes "timer_reach {c} s"
  shows "length (loops s) \<le> 1 \<and> (callers s c = Idle \<longrightarrow> (expired s \<longleftrightarrow> loops s = [])) \<and>
    (\<forall>s'. stop_step c s s' \<longrightarrow> callers s' c = Idle \<longrightarrow> loops s' = [] \<and> expired s' \<and> \<not> try_to_expire s') \<and>
    (\<forall>s'. timer_step {c} s s' \<longrightarrow> loops s = [] \<longrightarrow> loops s' \<noteq> [] \<longrightarrow> callers s c = S_spawn)"
proof -
  have inv: "timer_inv c s" by (rule timer_inv_reach[OF assms(1)])
  have "loops s' = [] \<and> expired s' \<and> \<not> try_to_expire s'" if "stop_step c s s'" "callers s' c = Idle" for s'
  proof -
    have "timer_inv c s'" using inv that(1) by (rule timer_inv_stop)
    moreover have "expired s'"
      using that inv by cases (auto simp: go_def timer_inv_def Let_def)
    ultimately show ?thesis using that(2) by (simp add: timer_inv_def Let_def)
  qed
  moreover have "callers s c = S_spawn" if "timer_step {c} s s'" "loops s = []" "loops s' \<noteq> []" for s'
    using that(1)
  proof cases
    case (step_start d)
    from step_start(2) show ?thesis using that(2,3) step_start(1) by cases (auto simp: go_def)
  next
    case (step_stop d)
    from step_stop(2) show ?thesis using that(2,3) by cases (auto simp: go_def split: if_splits)
  next
    case step_loop
    then show ?thesis using that(2) loop_step_loops by blast
  qed
  moreover have "length (loops s) \<le> 1 \<and> (callers s c = Idle \<longrightarrow> (expired s \<longleftrightarrow> loops s = []))"
    using inv by (simp add: timer_inv_def Let_def)
  ultimately show ?thesis by blast
qed

text \<open>How many steps of the loop thread are left before \<open>_expired\<close> is set, once it has to stop.\<close>

fun loop_dist :: "loop \<Rightarrow> nat" where
  "loop_dist L_task = 4"
| "loop_dist L_sleep = 3"
| "loop_dist L_test = 2"
| "loop_dist L_exit = 1"

definition wait_dist :: "'c timer \<Rightarrow> nat" where
  "wait_dist s = sum_list (map loop_dist (loops s))"

lemma loop_step_enabled: "loops s \<noteq> [] \<Longrightarrow> \<exists>s'. loop_step s s'"
  by (cases "loops s ! 0"; cases "try_to_expire s") (force intro: loop_step.intros)+

text \<open>
  C18. \<open>stop\<close> returns, if the task does: while its caller waits, some step is possible, and every step that
  is brings the loop thread nearer to its end or the caller past the wait. From any state in which it
  waits at most four steps of the loop thread are left.
\<close>
theorem timer_stop_returns:
  assumes "timer_reach {c} s" "callers s c = P_wait"
  shows "wait_dist s \<le> 4 \<and> {s'. timer_step {c} s s'} \<noteq> {} \<and>
    {s'. timer_step {c} s s'} \<subseteq> {s'. callers s' c = P_reset \<or> (callers s' c = P_wait \<and> wait_dist s' < wait_dist s)}"
proof -
  have inv: "timer_inv c s" by (rule timer_inv_reach[OF assms(1)])
  have one: "length (loops s) \<le> 1" and t: "try_to_expire s" and e: "expired s \<longleftrightarrow> loops s = []"
    using inv assms(2) by (auto simp: timer_inv_def Let_def)
  have le: "loop_dist l \<le> 4" for l by (cases l) simp_all
  have "wait_dist s \<le> 4" using one le by (cases "loops s") (auto simp: wait_dist_def)
  moreover have "\<exists>s'. timer_step {c} s s'"
    using loop_step_enabled[of s] stop_wait[OF assms(2)] e by (blast intro: step_loop step_stop)
  moreover have "callers s' c = P_reset \<or> (callers s' c = P_wait \<and> wait_dist s' < wait_dist s)"
    if "timer_step {c} s s'" for s'
    using that
  proof cases
    case (step_start d)
    with assms(2) show ?thesis by (auto elim: start_step.cases)
  next
    case (step_stop d)
    with assms(2) show ?thesis by (auto elim: stop_step.cases simp: go_def)
  next
    case step_loop
    from this one show ?thesis
      by (rule loop_step_one) (use assms(2) t in \<open>auto simp: wait_dist_def\<close>)
  qed
  ultimately show ?thesis by blast
qed

section \<open>Runs\<close>

text \<open>The steps as functions; \<open>None\<close> where the thread cannot step.\<close>

definition start_next :: "'c \<Rightarrow> 'c timer \<Rightarrow> 'c timer option" where
  "start_next c s =
     (case callers s c of
        Idle \<Rightarrow> Some (go c S_test s)
      | S_test \<Rightarrow> Some (go c (if expired s then S_set else Idle) s)
      | S_set \<Rightarrow> Some (go c S_spawn (s\<lparr>expired := False\<rparr>))
      | S_spawn \<Rightarrow> Some (go c Idle (s\<lparr>loops := loops s @ [L_test]\<rparr>))
      | _ \<Rightarrow> None)"

definition stop_next :: "'c \<Rightarrow> 'c timer \<Rightarrow> 'c timer option" where
  "stop_next c s =
     (case callers s c of
        Idle \<Rightarrow> Some (go c P_expired s)
      | P_expired \<Rightarrow> Some (go c (if expired s then Idle else P_trying) s)
      | P_trying \<Rightarrow> Some (go c (if try_to_expire s then Idle else P_try) s)
      | P_try \<Rightarrow> Some (go c P_wait (s\<lparr>try_to_expire := True\<rparr>))
      | P_wait \<Rightarrow> if expired s then Some (go c P_reset s) else None
      | P_reset \<Rightarrow> Some (go c Idle (if expired s then s\<lparr>try_to_expire := False\<rparr> else s))
      | _ \<Rightarrow> None)"

definition loop_next :: "nat \<Rightarrow> 'c timer \<Rightarrow> 'c timer option" where
  "loop_next i s =
     (if length (loops s) \<le> i then None
      else Some (case loops s ! i of
        L_test \<Rightarrow> set_loop i (if try_to_expire s then L_exit else L_task) s
      | L_task \<Rightarrow> set_loop i L_sleep (s\<lparr>task_runs := Suc (task_runs s)\<rparr>)
      | L_sleep \<Rightarrow> set_loop i L_test s
      | L_exit \<Rightarrow> s\<lparr>expired := True, loops := take i (loops s) @ drop (Suc i) (loops s)\<rparr>))"

lemma start_next_iff: "start_step c s s' \<longleftrightarrow> start_next c s = Some s'"
  by (auto simp: start_next_def elim!: start_step.cases split: caller.splits if_splits intro: start_step.intros)

lemma stop_next_iff: "stop_step c s s' \<longleftrightarrow> stop_next c s = Some s'"
  by (rule iffI, erule stop_step.cases; simp add: stop_next_def)
    (simp add: stop_next_def stop_step.simps split: caller.splits if_splits)

lemma loop_next_step: "loop_next i s = Some s' \<Longrightarrow> loop_step s s'"
  by (auto simp: loop_next_def split: loop.splits if_splits intro: loop_step.intros)

datatype 'c act = Start 'c | Stop 'c | Loop nat

fun act_next :: "'c act \<Rightarrow> 'c timer \<Rightarrow> 'c timer option" where
  "act_next (Start c) s = start_next c s"
| "act_next (Stop c) s = stop_next c s"
| "act_next (Loop i) s = loop_next i s"

fun timer_run :: "'c act list \<Rightarrow> 'c timer \<Rightarrow> 'c timer option" where
  "timer_run [] s = Some s"
| "timer_run (a # as) s = (case act_next a s of None \<Rightarrow> None | Some s' \<Rightarrow> timer_run as s')"

lemma timer_run_reach:
  "timer_run as s = Some s' \<Longrightarrow> timer_reach C s \<Longrightarrow> (\<And>c. Start c \<in> set as \<or> Stop c \<in> set as \<Longrightarrow> c \<in> C) \<Longrightarrow>
     timer_reach C s'"
proof (induction as arbitrary: s)
  case (Cons a as)
  then obtain s1 where s1: "act_next a s = Some s1" "timer_run as s1 = Some s'" by (auto split: option.splits)
  have "timer_step C s s1"
  proof (cases a)
    case (Start c)
    with s1(1) Cons.prems(3)[of c] show ?thesis by (auto simp: start_next_iff intro: step_start)
  next
    case (Stop c)
    with s1(1) Cons.prems(3)[of c] show ?thesis by (auto simp: stop_next_iff intro: step_stop)
  next
    case (Loop i)
    with s1(1) show ?thesis by (auto intro: step_loop loop_next_step)
  qed
  with Cons s1 show ?case by (meson list.set_intros(2) timer_reach.reach_step)
qed simp

lemma timer_run_new:
  "timer_run as Timer_new = Some s \<Longrightarrow> \<forall>a \<in> set as. case a of Start c \<Rightarrow> c \<in> C | Stop c \<Rightarrow> c \<in> C | Loop i \<Rightarrow> True \<Longrightarrow>
     timer_reach C s"
  by (rule timer_run_reach[OF _ reach_new]) (auto dest: bspec)

text \<open>A timer that runs its task, and then is told to stop.\<close>

definition timer_demo :: "unit act list" where
  "timer_demo = replicate 4 (Start ()) @ [Loop 0] @ replicate 4 (Stop ())"

definition timer_demo_state :: "loop list \<Rightarrow> bool \<Rightarrow> nat \<Rightarrow> caller \<Rightarrow> unit timer" where
  "timer_demo_state ls ex n p =
     \<lparr>expired = ex, try_to_expire = True, loops = ls, callers = (\<lambda>c. p), task_runs = n\<rparr>"

lemma timer_demo_waits: "timer_run timer_demo Timer_new = Some (timer_demo_state [L_task] False 0 P_wait)"
  by (simp add: timer_demo_def numeral_eq_Suc start_next_def stop_next_def loop_next_def go_def set_loop_def
      Timer_new_def timer_demo_state_def fun_eq_iff)

lemma timer_demo_stopped:
  "timer_run (timer_demo @ [Loop 0, Loop 0, Loop 0, Loop 0, Stop ()]) Timer_new =
     Some (timer_demo_state [] True 1 P_reset)"
  by (simp add: timer_demo_def numeral_eq_Suc start_next_def stop_next_def loop_next_def go_def set_loop_def
      Timer_new_def timer_demo_state_def fun_eq_iff)

theorem timer_stop_returns_witness:
  "wait_dist (timer_demo_state [L_task] False 0 P_wait) = 4 \<and>
   {s'. timer_step {()} (timer_demo_state [L_task] False 0 P_wait) s'} \<noteq> {}"
  using timer_stop_returns[OF timer_run_new[OF timer_demo_waits], of "()"]
  by (simp add: timer_demo_def timer_demo_state_def wait_dist_def)

theorem timer_stop_stops_witness:
  "timer_reach {()} (timer_demo_state [] True 1 P_reset) \<and>
   stop_step () (timer_demo_state [] True 1 P_reset) ((timer_demo_state [] True 1 Idle)\<lparr>try_to_expire := False\<rparr>) \<and>
   length (loops (timer_demo_state [L_task] False 0 P_wait)) \<le> 1"
  (is "?r \<and> ?s \<and> ?l")
proof -
  have r: ?r by (rule timer_run_new[OF timer_demo_stopped]) (simp add: timer_demo_def)
  have s: ?s by (simp add: stop_next_iff stop_next_def go_def timer_demo_state_def fun_eq_iff)
  have "timer_reach {()} (timer_demo_state [L_task] False 0 P_wait)"
    by (rule timer_run_new[OF timer_demo_waits]) (simp add: timer_demo_def)
  from timer_stop_stops[OF this] show ?thesis using r s timer_stop_stops[OF r] by blast
qed

section \<open>Two calling threads\<close>

text \<open>
  The test and the write of \<open>_expired\<close> in \<open>start\<close> are two accesses, so two threads that start the timer
  at once both start a loop. A later \<open>stop\<close> is ended by the first of the two loops and resets the flag
  before the second reads it: everybody has returned, \<open>_expired\<close> holds, a loop still runs the task, and no
  call of \<open>stop\<close> reaches it any more.
\<close>
lemma timer_start_race:
  "\<exists>s. timer_reach {True, False} s \<and> (\<forall>c. callers s c = Idle) \<and> expired s \<and> \<not> try_to_expire s \<and>
     loops s = [L_task] \<and> timer_run [Stop True, Stop True] s = Some s"
proof -
  let ?as = "[Start True, Start False, Start True, Start False, Start True, Start True, Start False, Start False,
     Loop 1, Stop True, Stop True, Stop True, Stop True, Loop 0, Loop 0, Stop True, Stop True]"
  let ?s = "\<lparr>expired = True, try_to_expire = False, loops = [L_task], callers = (\<lambda>c. Idle), task_runs = 0\<rparr>"
  have "timer_run ?as Timer_new = Some ?s"
    by (simp add: start_next_def stop_next_def loop_next_def go_def set_loop_def Timer_new_def fun_eq_iff)
  then have "timer_reach {True, False} ?s" by (rule timer_run_new) simp
  moreover have "timer_run [Stop True, Stop True] ?s = Some ?s"
    by (simp add: stop_next_def go_def fun_eq_iff)
  ultimately show ?thesis by (intro exI[of _ ?s]) simp
qed

end
