(* ===== verification/Os.thy ===== *)
theory Os
  imports Text
begin

text \<open>
  The helpers of \<open>os/os.cpp\<close> that compute: base64, the parts of a file name, \<open>split\<close> and the other
  operations on strings, the tests for IP addresses, and the creation of a path as the list of the
  directories it makes.

  \<open>std::string::npos\<close> is the largest \<open>u64\<close>, and positions computed with it wrap. Reading a table
  with a negative index is an error of the model; whether \<open>char\<close> is signed is an argument, as it is
  on one of the two build targets and not on the other.
\<close>

section \<open>Base64\<close>

definition encodeCharacterTable :: "u8 list" where
  "encodeCharacterTable = map of_char ''ABCDEFGHIJKLMNOPQRSTUVWXYZabcdefghijklmnopqrstuvwxyz0123456789+/''"

definition decodeCharacterTable :: "u8 list" where
  "decodeCharacterTable =
     replicate 43 0xff @ [62] @ replicate 3 0xff @ [63] @
     map word_of_nat [52..<62] @ replicate 7 0xff @ map word_of_nat [0..<26] @ replicate 6 0xff @
     map word_of_nat [26..<52] @ replicate 133 0xff"

text \<open>One turn of the loop of \<open>base64_encode\<close>: the group so far, the output so far.\<close>

definition base64_group :: "u8 \<Rightarrow> u8 \<Rightarrow> u8 \<Rightarrow> u8 list" where
  "base64_group a b c =
     [drop_bit 2 (a AND 0xfc), push_bit 4 (a AND 0x03) + drop_bit 4 (b AND 0xf0),
      push_bit 2 (b AND 0x0f) + drop_bit 6 (c AND 0xc0), c AND 0x3f]"

definition base64_char :: "u8 \<Rightarrow> u8" where
  "base64_char v = encodeCharacterTable ! unat v"

definition enc_step :: "bytes \<times> bytes \<Rightarrow> u8 \<Rightarrow> bytes \<times> bytes" where
  "enc_step = (\<lambda>(buff1, output) x.
     let buff1 = buff1 @ [x]
     in if length buff1 = 3
        then ([], output @ map base64_char (base64_group (buff1 ! 0) (buff1 ! 1) (buff1 ! 2)))
        else (buff1, output))"

definition base64_encode :: "bytes \<Rightarrow> bytes" where
  "base64_encode input =
     (let (buff1, output) = foldl enc_step ([], []) input; i = length buff1
      in if i = 0 then output
         else let buff1 = buff1 @ replicate (3 - i) 0; buff2 = base64_group (buff1 ! 0) (buff1 ! 1) (buff1 ! 2)
              in output @ map base64_char (take (i + 1) buff2) @ replicate (3 - i) 0x3d)"

text \<open>\<open>None\<close> where \<open>decodeCharacterTable\<close> is read at a negative index.\<close>

definition base64_value :: "bool \<Rightarrow> u8 \<Rightarrow> u8 option" where
  "base64_value char_signed c = (if char_signed \<and> 0x80 \<le> c then None else Some (decodeCharacterTable ! unat c))"

definition base64_ungroup :: "u8 \<Rightarrow> u8 \<Rightarrow> u8 \<Rightarrow> u8 \<Rightarrow> bytes" where
  "base64_ungroup a b c d =
     [push_bit 2 a + drop_bit 4 (b AND 0x30), push_bit 4 (b AND 0xf) + drop_bit 2 (c AND 0x3c),
      push_bit 6 (c AND 0x3) + d]"

fun base64_values :: "bool \<Rightarrow> bytes \<Rightarrow> bytes option" where
  "base64_values char_signed [] = Some []"
| "base64_values char_signed (c # cs) =
     (case base64_value char_signed c of
        None \<Rightarrow> None
      | Some v \<Rightarrow> map_option (\<lambda>vs. v # vs) (base64_values char_signed cs))"

text \<open>The loop, with the characters of the group so far, up to the end or the first \<open>'='\<close>.\<close>

fun dec_loop :: "bool \<Rightarrow> bytes \<Rightarrow> bytes \<Rightarrow> bytes \<Rightarrow> (bytes \<times> bytes) option" where
  "dec_loop char_signed buff2 output [] = Some (buff2, output)"
| "dec_loop char_signed buff2 output (x # xs) =
     (if x = 0x3d then Some (buff2, output)
      else let buff2 = buff2 @ [x]
           in if length buff2 = 4 then
                case base64_values char_signed buff2 of
                  None \<Rightarrow> None
                | Some vs \<Rightarrow> dec_loop char_signed [] (output @ base64_ungroup (vs ! 0) (vs ! 1) (vs ! 2) (vs ! 3)) xs
              else dec_loop char_signed buff2 output xs)"

definition base64_decode :: "bool \<Rightarrow> bytes \<Rightarrow> bytes option" where
  "base64_decode char_signed input =
     (case dec_loop char_signed [] [] input of
        None \<Rightarrow> None
      | Some (buff2, output) \<Rightarrow>
          if buff2 = [] then Some output
          else case base64_values char_signed (buff2 @ replicate (4 - length buff2) 0) of
                 None \<Rightarrow> None
               | Some vs \<Rightarrow>
                   Some (output @ take (length buff2 - 1) (base64_ungroup (vs ! 0) (vs ! 1) (vs ! 2) (vs ! 3))))"

section \<open>Strings\<close>

definition npos :: u64 where "npos = - 1"

text \<open>\<open>s.rfind(c, s.length())\<close>.\<close>

definition rfind :: "char \<Rightarrow> string \<Rightarrow> u64" where
  "rfind c s = (case find_index (\<lambda>x. x = c) (rev s) of None \<Rightarrow> npos | Some k \<Rightarrow> word_of_nat (length s - 1 - k))"

text \<open>\<open>substr(pos, n)\<close>, which throws when \<open>pos\<close> is beyond the end.\<close>

definition substr :: "u64 \<Rightarrow> u64 \<Rightarrow> string \<Rightarrow> string option" where
  "substr pos n s = (if length s < unat pos then None else Some (take (unat n) (drop (unat pos) s)))"

definition getFolderPath :: "string \<Rightarrow> string option" where
  "getFolderPath str = substr 0 (rfind CHR ''/'' str) str"

definition getFileSuffix :: "string \<Rightarrow> string option" where
  "getFileSuffix str = substr (rfind CHR ''.'' str + 1) (word_of_nat (length str)) str"

definition getFileName :: "string \<Rightarrow> string option" where
  "getFileName str =
     (let idx = rfind CHR ''/'' str; pidx = rfind CHR ''.'' str in substr (idx + 1) (pidx - (idx + 1)) str)"

definition getRemoveSuffix :: "string \<Rightarrow> string option" where
  "getRemoveSuffix str = substr 0 (rfind CHR ''.'' str) str"

definition getFileNameAll :: "string \<Rightarrow> string option" where
  "getFileNameAll str = substr (rfind CHR ''/'' str + 1) (word_of_nat (length str)) str"

text \<open>\<open>std::getline\<close> until the stream is at its end: a last, empty piece is not returned.\<close>

function getlines :: "char \<Rightarrow> string \<Rightarrow> string list" where
  "getlines d s = (if s = [] then [] else takeWhile (\<lambda>c. c \<noteq> d) s # getlines d (tl (dropWhile (\<lambda>c. c \<noteq> d) s)))"
  by pat_completeness auto
termination
  by (relation "measure (\<lambda>(d, s). length s)")
    (auto simp: length_dropWhile_le less_Suc_eq_le intro!: le_less_trans[OF diff_le_mono[OF length_dropWhile_le]])

declare getlines.simps [simp del]

text \<open>The stream and the delimiter are read as C strings, which end at the first NUL.\<close>

definition c_str :: "string \<Rightarrow> string" where
  "c_str = takeWhile (\<lambda>c. c \<noteq> CHR 0x00)"

definition split :: "string \<Rightarrow> string \<Rightarrow> string list" where
  "split in_str delim = getlines (case delim of [] \<Rightarrow> CHR 0x00 | d # ds \<Rightarrow> d) (c_str in_str)"

definition Trim :: "char \<Rightarrow> string \<Rightarrow> string" where
  "Trim trim str = filter (\<lambda>c. c \<noteq> trim) str"

definition startsWith :: "string \<Rightarrow> string \<Rightarrow> bool" where
  "startsWith str prefix \<longleftrightarrow> take (length prefix) str = prefix"

text \<open>\<open>str.rfind(suffix)\<close>: the last position at which \<open>suffix\<close> occurs.\<close>

definition rfind_str :: "string \<Rightarrow> string \<Rightarrow> u64" where
  "rfind_str suffix str =
     (if length str < length suffix then npos
      else case find_index (\<lambda>k. take (length suffix) (drop k str) = suffix)
                  (rev [0..<length str - length suffix + 1]) of
        None \<Rightarrow> npos
      | Some k \<Rightarrow> word_of_nat (length str - length suffix - k))"

definition endsWith :: "string \<Rightarrow> string \<Rightarrow> bool" where
  "endsWith str suffix =
     (if length str < length suffix then False
      else rfind_str suffix str = word_of_nat (length str - length suffix))"

section \<open>Addresses\<close>

definition getIpStr :: "u32 \<Rightarrow> string" where
  "getIpStr ip =
     (let s = \<lambda>k. string_of_int (uint (drop_bit (8 * k) ip AND 0xff))
      in s 0 @ ''.'' @ s 1 @ ''.'' @ s 2 @ ''.'' @ s 3)"

text \<open>The test of one part of an IPv4 address, \<open>None\<close> where \<open>stoi\<close> throws.\<close>

definition ipv4_part :: "string \<Rightarrow> bool option" where
  "ipv4_part temp =
     (if length temp = 0 \<or> 3 < length temp then Some False
      else if \<not> list_all isdigit temp then Some False
      else case stoi temp of
        None \<Rightarrow> None
      | Some n \<Rightarrow> Some (\<not> (255 < n \<or> n < 0) \<and> string_of_int n = temp))"

text \<open>
  The loops of \<open>isIPv4\<close> and \<open>isIPv6\<close> over the text: the part read so far, then the rest. A part is
  tested at each separator and at the last character, which may be both.
\<close>

fun ip_loop :: "(string \<Rightarrow> bool option) \<Rightarrow> char \<Rightarrow> string \<Rightarrow> string \<Rightarrow> bool option" where
  "ip_loop part sep temp [] = Some True"
| "ip_loop part sep temp (c # cs) =
     (let temp = (if c \<noteq> sep then temp @ [c] else temp)
      in if c = sep \<or> cs = [] then
           case part temp of
             None \<Rightarrow> None
           | Some ok \<Rightarrow> if ok then ip_loop part sep [] cs else Some False
         else ip_loop part sep temp cs)"

definition isIPv4 :: "string \<Rightarrow> bool option" where
  "isIPv4 IP =
     (if count_list IP CHR ''.'' \<noteq> 3 then Some False
      else case ip_loop ipv4_part CHR ''.'' [] IP of
        None \<Rightarrow> None
      | Some ok \<Rightarrow> Some (ok \<and> last IP \<noteq> CHR ''.''))"

definition isxdigit_ascii :: "char \<Rightarrow> bool" where
  "isxdigit_ascii c \<longleftrightarrow> isdigit c \<or> (CHR ''a'' \<le> c \<and> c \<le> CHR ''f'') \<or> (CHR ''A'' \<le> c \<and> c \<le> CHR ''F'')"

definition ipv6_part :: "string \<Rightarrow> bool option" where
  "ipv6_part temp =
     Some (\<not> (length temp = 0 \<or> 4 < length temp) \<and> list_all isxdigit_ascii temp)"

definition isIPv6 :: "string \<Rightarrow> bool option" where
  "isIPv6 IP =
     (if count_list IP CHR '':'' \<noteq> 7 then Some False
      else case ip_loop ipv6_part CHR '':'' [] IP of
        None \<Rightarrow> None
      | Some ok \<Rightarrow> Some (ok \<and> last IP \<noteq> CHR '':''))"

definition validIPAddress :: "string \<Rightarrow> string option" where
  "validIPAddress IP =
     (case filter (\<lambda>c. c = CHR ''.'' \<or> c = CHR '':'') IP of
        [] \<Rightarrow> Some ''Neither''
      | c # cs \<Rightarrow>
          if c = CHR ''.'' then map_option (\<lambda>ok. if ok then ''IPv4'' else ''Neither'') (isIPv4 IP)
          else map_option (\<lambda>ok. if ok then ''IPv6'' else ''Neither'') (isIPv6 IP))"

section \<open>Paths\<close>

text \<open>
  \<open>opendir\<close> (does the directory open) and \<open>mkdir\<close> are the system's, over its state \<open>'fs\<close>.
\<close>

fun create_levels :: "('fs \<Rightarrow> string \<Rightarrow> bool) \<Rightarrow> (string \<Rightarrow> 'fs \<Rightarrow> 'fs) \<Rightarrow> string \<Rightarrow> string list \<Rightarrow> 'fs \<Rightarrow> 'fs" where
  "create_levels opendir mkdir curpath [] fs = fs"
| "create_levels opendir mkdir curpath (v # vs) fs =
     (let curpath = curpath @ v @ ''/''
      in create_levels opendir mkdir curpath vs (if opendir fs curpath then fs else mkdir curpath fs))"

definition CreatePath :: "('fs \<Rightarrow> string \<Rightarrow> bool) \<Rightarrow> (string \<Rightarrow> 'fs \<Rightarrow> 'fs) \<Rightarrow> string \<Rightarrow> 'fs \<Rightarrow> 'fs" where
  "CreatePath opendir mkdir path fs =
     (if opendir fs (c_str path) then fs else create_levels opendir mkdir [] (split path ''/'') fs)"

section \<open>Pieces of a text\<close>

text \<open>The text whose pieces these are.\<close>

fun join_with :: "char \<Rightarrow> string list \<Rightarrow> string" where
  "join_with d [] = []"
| "join_with d [p] = p"
| "join_with d (p # q # ps) = p @ d # join_with d (q # ps)"

lemma getlines_Nil [simp]: "getlines d [] = []"
  by (simp add: getlines.simps)

lemma getlines_Nil_iff [simp]: "getlines d s = [] \<longleftrightarrow> s = []"
  by (simp add: getlines.simps)

lemma getlines_Cons:
  "getlines d (c # cs) =
     (if c = d then [] # getlines d cs
      else if cs = [] then [[c]] else (c # hd (getlines d cs)) # tl (getlines d cs))"
  by (subst getlines.simps) (simp add: getlines.simps[of d cs])

lemma getlines_append: "d \<notin> set p \<Longrightarrow> getlines d (p @ d # s) = p # getlines d s"
  by (induction p) (auto simp: getlines_Cons)

lemma getlines_single: "d \<notin> set p \<Longrightarrow> p \<noteq> [] \<Longrightarrow> getlines d p = [p]"
  by (induction p) (auto simp: getlines_Cons)

lemma join_with_Cons_piece: "join_with d ((c # p) # ps) = c # join_with d (p # ps)"
  by (cases ps) simp_all

lemma getlines_join:
  "s \<noteq> [] \<Longrightarrow> last s \<noteq> d \<Longrightarrow>
     join_with d (getlines d s) = s \<and> length (getlines d s) = Suc (count_list s d)"
proof (induction s rule: list_nonempty_induct)
  case (cons c cs)
  then obtain p ps where g: "getlines d cs = p # ps" by (cases "getlines d cs") auto
  from cons g have "join_with d (p # ps) = cs \<and> length (p # ps) = Suc (count_list cs d)" by simp
  then show ?case
    using cons.hyps g by (simp add: getlines_Cons join_with_Cons_piece)
qed (simp add: getlines_Cons)

lemma getlines_join_with:
  "\<forall>p \<in> set ps. d \<notin> set p \<Longrightarrow> ps \<noteq> [] \<Longrightarrow> last ps \<noteq> [] \<Longrightarrow> getlines d (join_with d ps) = ps"
  by (induction d ps rule: join_with.induct) (auto simp: getlines_single getlines_append)

lemma last_join_with: "ps \<noteq> [] \<Longrightarrow> last ps \<noteq> [] \<Longrightarrow> join_with d ps \<noteq> [] \<and> last (join_with d ps) = last (last ps)"
  by (induction d ps rule: join_with.induct) auto

lemma count_join_with:
  "\<forall>p \<in> set ps. d \<notin> set p \<Longrightarrow> count_list (join_with d ps) d = length ps - 1"
  by (induction d ps rule: join_with.induct) (auto simp: count_list_0_iff)

text \<open>The loop of the address tests runs over the pieces.\<close>

lemma ip_loop_pieces:
  assumes part: "\<And>s. part s = Some (ok s)"
  shows "ip_loop part sep temp s =
    Some (case getlines sep s of [] \<Rightarrow> True | p # ps \<Rightarrow> ok (temp @ p) \<and> list_all ok ps)"
proof (induction s arbitrary: temp)
  case (Cons c cs)
  then show ?case
    by (cases "getlines sep cs") (auto simp: getlines_Cons part split: if_splits)
qed simp

lemma ip_test:
  assumes part: "\<And>s. part s = Some (ok s)" and ok: "\<And>p. ok p \<Longrightarrow> p \<noteq> [] \<and> sep \<notin> set p" and n: "0 < n"
  shows "(if count_list s sep \<noteq> n then Some False
      else case ip_loop part sep [] s of None \<Rightarrow> None | Some b \<Rightarrow> Some (b \<and> last s \<noteq> sep)) =
    Some (\<exists>ps. length ps = Suc n \<and> list_all ok ps \<and> s = join_with sep ps)"
proof -
  have l: "ip_loop part sep [] s = Some (list_all ok (getlines sep s))"
    using ip_loop_pieces[where part = part and ok = ok and sep = sep and temp = "[]" and s = s, OF part] by (cases "getlines sep s") auto
  show ?thesis
  proof (cases "count_list s sep = n \<and> list_all ok (getlines sep s) \<and> last s \<noteq> sep")
    case True
    then have "s \<noteq> []" using n by auto
    with True getlines_join[of s sep] show ?thesis by (auto simp: l intro: exI[of _ "getlines sep s"])
  next
    case False
    have "\<not> (length ps = Suc n \<and> list_all ok ps \<and> s = join_with sep ps)" for ps
    proof
      assume a: "length ps = Suc n \<and> list_all ok ps \<and> s = join_with sep ps"
      then have "ps \<noteq> []" "\<forall>p \<in> set ps. p \<noteq> [] \<and> sep \<notin> set p"
        using ok by (auto simp: list_all_iff)
      then have ps: "ps \<noteq> []" "\<forall>p \<in> set ps. sep \<notin> set p" "last ps \<noteq> []" "sep \<notin> set (last ps)"
        by auto
      then have "last (last ps) \<noteq> sep" by (metis last_in_set)
      with a ps False show False
        using getlines_join_with[of ps sep] last_join_with[of ps sep] count_join_with[of ps sep] by auto
    qed
    then have "\<not> (\<exists>ps. length ps = Suc n \<and> list_all ok ps \<and> s = join_with sep ps)" by blast
    with False show ?thesis by (auto simp: l)
  qed
qed

lemma number_of_digits_bounds:
  "list_all isdigit ds \<Longrightarrow> 0 \<le> number_of_digits ds \<and> number_of_digits ds < 10 ^ length ds"
  by (induction ds rule: rev_induct) (auto simp: number_of_digits_def isdigit_def)

lemma parse_int_digits: "list_all isdigit ds \<Longrightarrow> ds \<noteq> [] \<Longrightarrow> parse_int ds = Some (number_of_digits ds)"
  using isdigit_not_space[of "hd ds"] by (cases ds) (auto simp: parse_int_def takeWhile_all)

lemma ipv4_part_iff: "ipv4_part temp = Some (\<exists>n \<ge> 0. n \<le> 255 \<and> temp = string_of_int n)"
proof (cases "\<exists>n \<ge> 0. n \<le> 255 \<and> temp = string_of_int n")
  case True
  then obtain n where n: "0 \<le> n" "n \<le> 255" "temp = string_of_int n" by blast
  then have t: "temp = string_of_nat (nat n)" by (simp add: string_of_int_def)
  have "length temp \<le> 3" "temp \<noteq> []" "list_all isdigit temp"
    using length_string_of_nat[of "nat n" 3] string_of_nat_digits[of "nat n"] n(2) by (auto simp: t)
  with n show ?thesis by (auto simp: ipv4_part_def stoi_string_of_int)
next
  case none: False
  show ?thesis
  proof (cases "length temp = 0 \<or> 3 < length temp \<or> \<not> list_all isdigit temp")
    case c: False
    then have p: "parse_int temp = Some (number_of_digits temp)" by (simp add: parse_int_digits)
    have "number_of_digits temp < 10 ^ 3" "0 \<le> number_of_digits temp"
      using number_of_digits_bounds[of temp] c power_increasing[of "length temp" 3 "10::int"] by auto
    then have "stoi temp = Some (number_of_digits temp)" by (simp add: stoi_def p)
    with c have "ipv4_part temp = Some (\<not> (255 < number_of_digits temp \<or> number_of_digits temp < 0) \<and>
        string_of_int (number_of_digits temp) = temp)" by (auto simp: ipv4_part_def)
    moreover have "\<not> (\<not> (255 < number_of_digits temp \<or> number_of_digits temp < 0) \<and>
        string_of_int (number_of_digits temp) = temp)"
      using none by (metis not_less)
    ultimately show ?thesis using none by auto
  qed (use none in \<open>auto simp: ipv4_part_def\<close>)
qed

text \<open>
  \<open>isIPv4\<close>, whose loop checks one part after another, never throws and accepts exactly the texts
  \<open>a.b.c.d\<close> of four numbers from 0 to 255 written in decimal without leading zeros.
\<close>
lemma isIPv4_iff:
  "isIPv4 IP = Some (\<exists>a b c d. {a, b, c, d} \<subseteq> {0..255} \<and>
     IP = string_of_int a @ ''.'' @ string_of_int b @ ''.'' @ string_of_int c @ ''.'' @ string_of_int d)"
proof -
  let ?ok = "\<lambda>p. \<exists>n \<ge> 0. n \<le> 255 \<and> p = string_of_int n"
  have "isIPv4 IP = Some (\<exists>ps. length ps = Suc 3 \<and> list_all ?ok ps \<and> IP = join_with CHR ''.'' ps)"
    unfolding isIPv4_def
  proof (rule ip_test)
    fix p assume "?ok p"
    then show "p \<noteq> [] \<and> CHR ''.'' \<notin> set p"
      using string_of_nat_digits by (fastforce simp: string_of_int_def list_all_iff isdigit_def digit_val_def)
  qed (simp_all add: ipv4_part_iff)
  also have "(\<exists>ps. length ps = Suc 3 \<and> list_all ?ok ps \<and> IP = join_with CHR ''.'' ps) \<longleftrightarrow>
    (\<exists>a b c d. {a, b, c, d} \<subseteq> {0..255} \<and>
     IP = string_of_int a @ ''.'' @ string_of_int b @ ''.'' @ string_of_int c @ ''.'' @ string_of_int d)"
    (is "?l \<longleftrightarrow> ?r")
  proof
    assume ?r
    then obtain a b c d where "{a, b, c, d} \<subseteq> {0..255}"
      "IP = string_of_int a @ ''.'' @ string_of_int b @ ''.'' @ string_of_int c @ ''.'' @ string_of_int d" by blast
    then show ?l by (intro exI[of _ "map string_of_int [a, b, c, d]"]) auto
  qed (fastforce simp: numeral_eq_Suc length_Suc_conv)
  finally show ?thesis .
qed

lemma ipv6_part_ok: "ipv6_part p = Some (p \<noteq> [] \<and> length p \<le> 4 \<and> list_all isxdigit_ascii p)"
  by (auto simp: ipv6_part_def)

text \<open>\<open>isIPv6\<close> accepts eight groups of one to four hexadecimal digits; the form with \<open>::\<close> is refused.\<close>

lemma isIPv6_iff:
  "isIPv6 IP = Some (\<exists>ps. length ps = 8 \<and>
     list_all (\<lambda>p. p \<noteq> [] \<and> length p \<le> 4 \<and> list_all isxdigit_ascii p) ps \<and> IP = join_with CHR '':'' ps)"
proof -
  have x: "\<not> isxdigit_ascii CHR '':''"
    by (simp add: isxdigit_ascii_def isdigit_def digit_val_def less_eq_char_def)
  have "isIPv6 IP = Some (\<exists>ps. length ps = Suc 7 \<and>
     list_all (\<lambda>p. p \<noteq> [] \<and> length p \<le> 4 \<and> list_all isxdigit_ascii p) ps \<and> IP = join_with CHR '':'' ps)"
    unfolding isIPv6_def by (rule ip_test) (use x in \<open>auto simp: ipv6_part_ok list_all_iff\<close>)
  then show ?thesis by simp
qed

lemma split_join:
  assumes "\<forall>p \<in> set ps. d \<notin> set p \<and> CHR 0x00 \<notin> set p" "ps \<noteq> []" "last ps \<noteq> []" "d \<noteq> CHR 0x00"
  shows "split (join_with d ps) [d] = ps"
proof -
  have "CHR 0x00 \<notin> set (join_with d ps)"
    using assms(1,4) by (induction d ps rule: join_with.induct) auto
  then have "c_str (join_with d ps) = join_with d ps"
    unfolding c_str_def by (intro takeWhile_eq_all_conv[THEN iffD2]) auto
  then show ?thesis using assms getlines_join_with[of ps d] by (simp add: split_def)
qed

section \<open>The directories of a path\<close>

lemma create_levels_log:
  "create_levels (\<lambda>fs p. False) (\<lambda>p fs. fs @ [p]) cur vs fs =
     fs @ map (\<lambda>k. cur @ concat (map (\<lambda>v. v @ ''/'') (take (Suc k) vs))) [0..<length vs]"
proof (induction vs arbitrary: cur fs)
  case (Cons v vs)
  have "[0..<length (v # vs)] = 0 # map Suc [0..<length vs]" by (simp add: map_Suc_upt upt_conv_Cons del: upt_Suc)
  then show ?case using Cons by (simp add: Let_def comp_def)
qed simp

text \<open>
  Where no directory of the path exists, one is made for every level, the last one included; so for
  the path of a file a directory of its name is made.
\<close>

lemma CreatePath_levels:
  "CreatePath (\<lambda>fs p. False) (\<lambda>p fs. fs @ [p]) path [] =
     map (\<lambda>k. concat (map (\<lambda>v. v @ ''/'') (take (Suc k) (split path ''/'')))) [0..<length (split path ''/'')]"
  by (simp add: CreatePath_def create_levels_log)

section \<open>Base64 is undone\<close>

lemma u8_eqI:
  assumes "\<And>n. n \<in> {0, 1, 2, 3, 4, 5, 6, 7} \<Longrightarrow> bit v n = bit w n"
  shows "(v :: u8) = w"
proof (rule bit_word_eqI)
  fix n assume "n < LENGTH(8)"
  then have "n \<in> {0, 1, 2, 3, 4, 5, 6, 7}" by auto
  then show "bit v n = bit w n" by (rule assms)
qed

lemma u8_bit_ge: "8 \<le> n \<Longrightarrow> \<not> bit (a :: u8) n"
  using bit_imp_le_length[of a n] by auto

lemmas u8_bits = bit_simps u8_bit_ge numeral_2_eq_2 [symmetric] numeral_3_eq_3 [symmetric]

lemma plus_or_masks:
  "push_bit 4 ((a::u8) AND 3) + drop_bit 4 (b AND 0xf0) = push_bit 4 (a AND 3) OR drop_bit 4 b"
  "push_bit 2 ((b::u8) AND 15) + drop_bit 6 (c AND 0xc0) = push_bit 2 (b AND 15) OR drop_bit 6 c"
  "drop_bit 2 (a AND 0xfc) = drop_bit 2 a"
proof -
  have z: "push_bit 4 ((a::u8) AND 3) AND drop_bit 4 (b AND 0xf0) = 0"
    "push_bit 2 ((b::u8) AND 15) AND drop_bit 6 (c AND 0xc0) = 0"
    by (rule u8_eqI, force simp: u8_bits)+
  show "push_bit 4 ((a::u8) AND 3) + drop_bit 4 (b AND 0xf0) = push_bit 4 (a AND 3) OR drop_bit 4 b"
    unfolding disjunctive_add_eq_or[OF z(1)] by (rule u8_eqI) (auto simp: u8_bits)
  show "push_bit 2 ((b::u8) AND 15) + drop_bit 6 (c AND 0xc0) = push_bit 2 (b AND 15) OR drop_bit 6 c"
    unfolding disjunctive_add_eq_or[OF z(2)] by (rule u8_eqI) (auto simp: u8_bits)
  show "drop_bit 2 (a AND 0xfc) = drop_bit 2 a"
    by (rule u8_eqI) (auto simp: u8_bits)
qed

lemmas base64_group_or = base64_group_def[unfolded plus_or_masks]

lemma u8_lt_64: "v AND 0xc0 = 0 \<Longrightarrow> (v :: u8) < 64"
proof -
  assume z: "v AND 0xc0 = 0"
  have "v = v AND 0x3f"
  proof (rule u8_eqI)
    fix n :: nat assume "n \<in> {0, 1, 2, 3, 4, 5, 6, 7}"
    then show "bit v n = bit (v AND 0x3f) n"
      using z[THEN arg_cong, of "\<lambda>w. bit w n"] by (auto simp: u8_bits)
  qed
  then have "v \<le> 0x3f" using word_and_le1[of v "0x3f"] by simp
  then show ?thesis by (simp add: word_le_nat_alt word_less_nat_alt)
qed

lemma base64_group_lt: "\<forall>v \<in> set (base64_group a b c). v < 64"
proof -
  have "drop_bit 2 a AND 0xc0 = 0" "(push_bit 4 (a AND 3) OR drop_bit 4 b) AND 0xc0 = 0"
    "(push_bit 2 (b AND 15) OR drop_bit 6 c) AND 0xc0 = 0" "(c AND 63) AND 0xc0 = 0"
    by (rule u8_eqI, force simp: u8_bits)+
  then show ?thesis using u8_lt_64 by (simp add: base64_group_or)
qed

lemma decode_encode_table:
  "map (\<lambda>c. decodeCharacterTable ! unat c) encodeCharacterTable = map word_of_nat [0..<64]"
  "list_all (\<lambda>c. c < 0x80 \<and> c \<noteq> 0x3d) encodeCharacterTable"
  "length encodeCharacterTable = 64"
  by (simp_all add: encodeCharacterTable_def decodeCharacterTable_def nth_append upt_rec)

lemma base64_value_char:
  assumes "v < 64" shows "base64_value cs (base64_char v) = Some v" "base64_char v \<noteq> 0x3d"
proof -
  have k: "unat v < length encodeCharacterTable"
    using assms by (simp add: decode_encode_table word_less_nat_alt)
  have "decodeCharacterTable ! unat (base64_char v) = v"
    using arg_cong[OF decode_encode_table(1), of "\<lambda>t. t ! unat v"] k
    by (simp add: base64_char_def decode_encode_table(3) del: upt_rec_numeral)
  moreover have "base64_char v < 0x80 \<and> base64_char v \<noteq> 0x3d"
    using decode_encode_table(2) nth_mem[OF k] by (simp add: base64_char_def list_all_iff)
  ultimately show "base64_value cs (base64_char v) = Some v" "base64_char v \<noteq> 0x3d"
    by (auto simp: base64_value_def)
qed

lemma ungroup_group:
  assumes "base64_group a b c = [w, x, y, z]"
  shows "base64_ungroup w x y z = [a, b, c]"
proof -
  have w: "w = drop_bit 2 a" "x = push_bit 4 (a AND 3) OR drop_bit 4 b" "y = push_bit 2 (b AND 15) OR drop_bit 6 c" "z = c AND 63"
    using assms by (auto simp: base64_group_or)
  have z: "push_bit 2 w AND drop_bit 4 (x AND 0x30) = 0" "push_bit 4 (x AND 0xf) AND drop_bit 2 (y AND 0x3c) = 0"
    "push_bit 6 (y AND 0x3) AND z = 0"
    unfolding w by (rule u8_eqI, force simp: u8_bits)+
  have "push_bit 2 w OR drop_bit 4 (x AND 0x30) = a" "push_bit 4 (x AND 0xf) OR drop_bit 2 (y AND 0x3c) = b"
    "push_bit 6 (y AND 0x3) OR z = c"
    unfolding w by (rule u8_eqI, force simp: u8_bits)+
  then show ?thesis
    unfolding base64_ungroup_def disjunctive_add_eq_or[OF z(1)] disjunctive_add_eq_or[OF z(2)] disjunctive_add_eq_or[OF z(3)] by simp
qed

lemma base64_values_chars:
  "\<forall>v \<in> set vs. v < 64 \<Longrightarrow> base64_values cs (map base64_char vs) = Some vs"
  by (induction vs) (simp_all add: base64_value_char)

lemma base64_encode_step:
  "foldl enc_step ([], out) (a # b # c # xs) =
     foldl enc_step ([], out @ map base64_char (base64_group a b c)) xs"
  by (simp add: enc_step_def)

lemma dec_loop_step:
  assumes "\<forall>v \<in> set [w, x, y, z]. v < 64" "base64_ungroup w x y z = ds"
  shows "dec_loop cs [] out (map base64_char [w, x, y, z] @ rest) = dec_loop cs [] (out @ ds) rest"
  using assms base64_values_chars[of "[w, x, y, z]" cs] by (simp add: base64_value_char del: base64_values.simps)

text \<open>The encoding, three bytes at a time.\<close>

fun base64_text :: "bytes \<Rightarrow> bytes" where
  "base64_text (a # b # c # xs) = map base64_char (base64_group a b c) @ base64_text xs"
| "base64_text [a, b] = map base64_char (take 3 (base64_group a b 0)) @ [0x3d]"
| "base64_text [a] = map base64_char (take 2 (base64_group a 0 0)) @ [0x3d, 0x3d]"
| "base64_text [] = []"

lemma enc_fold:
  "foldl enc_step ([], out) xs = (buff, out') \<Longrightarrow>
     out' @ (if buff = [] then [] else base64_text buff) = out @ base64_text xs \<and> length buff < 3"
  by (induction xs arbitrary: out rule: base64_text.induct) (auto simp: enc_step_def split: if_splits)

lemma base64_encode_text: "base64_encode xs = base64_text xs"
proof -
  obtain buff out where f: "foldl enc_step ([], []) xs = (buff, out)" by fastforce
  from enc_fold[OF f] consider "buff = []" | a where "buff = [a]" | a b where "buff = [a, b]"
    by (cases buff rule: base64_text.cases) auto
  then show ?thesis
    using enc_fold[OF f] f
    by cases (auto simp: base64_encode_def numeral_eq_Suc base64_group_def)
qed

lemma dec_loop_pad: "dec_loop cs buff out (0x3d # rest) = Some (buff, out)"
  by simp

lemma group_obtain:
  obtains w x y z where "base64_group a b c = [w, x, y, z]" "w < 64" "x < 64" "y < 64" "z < 64"
    "base64_ungroup w x y z = [a, b, c]"
  using base64_group_lt[of a b c] ungroup_group[of a b c] by (simp add: base64_group_def)

lemma base64_values_zero: "base64_value cs 0 = Some 0xff"
  by (simp add: base64_value_def decodeCharacterTable_def nth_append)

lemma base64_ungroup_take:
  "take 2 (base64_ungroup w x y z) = take 2 (base64_ungroup w x y z')"
  "take 1 (base64_ungroup w x y z) = take 1 (base64_ungroup w x y' z')"
  by (simp_all add: base64_ungroup_def numeral_2_eq_2)

lemma dec_text:
  fixes cs :: bool
  shows "(case dec_loop cs [] out (base64_text xs) of None \<Rightarrow> False
    | Some (buff, out') \<Rightarrow>
        (if buff = [] then out' = out @ xs
         else \<exists>vs. base64_values cs (buff @ replicate (4 - length buff) 0) = Some vs \<and>
           out' @ take (length buff - 1) (base64_ungroup (vs ! 0) (vs ! 1) (vs ! 2) (vs ! 3)) = out @ xs))"
proof (induction xs arbitrary: out rule: base64_text.induct)
  case (1 a b c xs)
  obtain w x y z where g: "base64_group a b c = [w, x, y, z]" "w < 64" "x < 64" "y < 64" "z < 64"
    "base64_ungroup w x y z = [a, b, c]" by (rule group_obtain)
  have "dec_loop cs [] out (base64_text (a # b # c # xs)) = dec_loop cs [] (out @ [a, b, c]) (base64_text xs)"
    using dec_loop_step[of w x y z "[a, b, c]" cs out] g by simp
  then show ?case using 1[of "out @ [a, b, c]"] by (auto split: option.splits prod.splits if_splits)
next
  case (2 a b)
  obtain w x y z where g: "base64_group a b 0 = [w, x, y, z]" "w < 64" "x < 64" "y < 64" "z < 64"
    "base64_ungroup w x y z = [a, b, 0]" by (rule group_obtain)
  show ?case
    using g base64_ungroup_take(1)[where z = "0xff" and z' = z]
    by (simp add: base64_value_char base64_values_zero numeral_eq_Suc)
next
  case (3 a)
  obtain w x y z where g: "base64_group a 0 0 = [w, x, y, z]" "w < 64" "x < 64" "y < 64" "z < 64"
    "base64_ungroup w x y z = [a, 0, 0]" by (rule group_obtain)
  show ?case
    using g base64_ungroup_take(2)[where y = "0xff" and z = "0xff" and y' = y and z' = z]
    by (simp add: base64_value_char base64_values_zero numeral_eq_Suc)
qed simp

lemma base64_text_length: "length (base64_text xs) = 4 * ((length xs + 2) div 3)"
proof (induction xs rule: base64_text.induct)
  case (1 a b c xs)
  have "(5 + length xs) div 3 = Suc (Suc (Suc (length xs)) div 3)" by linarith
  with 1 show ?case by (simp add: base64_group_def)
qed (simp_all add: base64_group_def)

text \<open>
  Base64. What \<open>base64_encode\<close> writes has four characters for every three bytes begun, and
  \<open>base64_decode\<close> gives the bytes back, whether or not the build's \<open>char\<close> is signed.
\<close>
lemma base64_roundtrip:
  "base64_decode char_signed (base64_encode input) = Some input \<and>
   length (base64_encode input) = 4 * ((length input + 2) div 3)"
  using dec_text[of "[]" input char_signed]
  by (auto simp: base64_decode_def base64_encode_text base64_text_length split: option.splits prod.splits if_splits)

end
