(* ===== verification/ConfigDb.thy ===== *)
theory ConfigDb
  imports Os
begin

text \<open>
  The configuration database: \<open>db/eoc_configure.cpp\<close>, whose five tables hold what the centre configures,
  \<open>checkTable\<close> of \<open>db/dbInfo.cpp\<close>, which brings a table to the columns it should have, and the global
  copies of \<open>eocCom/DBCom.cpp\<close>.

  SQLite, reached through Poco, is a parameter: \<open>exec\<close> runs one statement and gives the database after
  it and the rows, or \<open>None\<close> where it throws; the session that cannot be opened is such a case. A
  statement is the datatype \<open>sql\<close> with the table and the columns its text names. Where a column is
  read that the row does not have, or whose value is null, \<open>toString\<close> throws too. The text of a
  real number (\<open>real_text\<close>) and \<open>strtof\<close> are parameters; \<open>strtol\<close> is \<^const>\<open>atoi\<close>.
\<close>

section \<open>Statements\<close>

datatype sql_value = SNull | SInt int | SReal real | SText string

datatype sql =
    Delete_all string
  | Insert string "(string \<times> sql_value) list"
  | Select_last string "string list"
  | Select_all string "string list"
  | Select_first_version
  | Create_table string
  | Table_info string
  | Drop_table string
  | Add_column string string string
  | Select_tables
  | Create_version_table
  | Create_mark string
  | Rename_table string string

type_synonym 'db exec = "sql \<Rightarrow> 'db \<Rightarrow> 'db \<times> sql_value list list option"

text \<open>A column read as a text; the functions that read numbers start from that text.\<close>

fun value_text :: "(real \<Rightarrow> string) \<Rightarrow> sql_value \<Rightarrow> string" where
  "value_text real_text SNull = []"
| "value_text real_text (SInt n) = string_of_int n"
| "value_text real_text (SReal x) = real_text x"
| "value_text real_text (SText s) = s"

text \<open>
  The loop over the rows. The assignments of a row happen in the order of its columns, and those made
  before a value throws stay; \<open>False\<close> when one has thrown.
\<close>

fun read_row :: "('v \<Rightarrow> 'a \<Rightarrow> 'a) list \<Rightarrow> (sql_value \<Rightarrow> 'v) \<Rightarrow> sql_value list \<Rightarrow> 'a \<Rightarrow> bool \<times> 'a" where
  "read_row [] text_of vs a = (True, a)"
| "read_row (f # fs) text_of [] a = (False, a)"
| "read_row (f # fs) text_of (v # vs) a =
     (if v = SNull then (False, a) else read_row fs text_of vs (f (text_of v) a))"

fun read_rows :: "(sql_value list \<Rightarrow> 'a \<Rightarrow> bool \<times> 'a) \<Rightarrow> sql_value list list \<Rightarrow> 'a \<Rightarrow> 'a" where
  "read_rows read [] a = a"
| "read_rows read (r # rs) a = (case read r a of (ok, a') \<Rightarrow> if ok then read_rows read rs a' else a')"

text \<open>Every operation catches what its statement throws, sets its \<open>ret\<close> to \<open>-1\<close>, and returns \<open>0\<close>.\<close>

definition run_sql :: "'db exec \<Rightarrow> sql \<Rightarrow> 'db \<Rightarrow> int \<times> 'db" where
  "run_sql exec stmt db = (0, fst (exec stmt db))"

definition run_select ::
  "'db exec \<Rightarrow> sql \<Rightarrow> (sql_value list \<Rightarrow> 'a \<Rightarrow> bool \<times> 'a) \<Rightarrow> 'a \<Rightarrow> 'db \<Rightarrow> int \<times> 'a \<times> 'db" where
  "run_select exec stmt read a db =
     (case exec stmt db of
        (db', None) \<Rightarrow> (0, a, db')
      | (db', Some rows) \<Rightarrow> (0, read_rows read rows a, db'))"

section \<open>Data version\<close>

record DBDataVersion =
  dv_id :: int
  dv_version :: string
  dv_time :: string

definition DataVersion_deleteFromDB :: "'db exec \<Rightarrow> 'db \<Rightarrow> int \<times> 'db" where
  "DataVersion_deleteFromDB exec = run_sql exec (Delete_all ''conf_version'')"

definition DataVersion_insertToDB :: "'db exec \<Rightarrow> DBDataVersion \<Rightarrow> 'db \<Rightarrow> int \<times> 'db" where
  "DataVersion_insertToDB exec v =
     run_sql exec (Insert ''conf_version'' [(''version'', SText (dv_version v)), (''time'', SText (dv_time v))])"

text \<open>The version of the row with the least \<open>id\<close>.\<close>

definition DataVersion_selectFromDB ::
  "(real \<Rightarrow> string) \<Rightarrow> 'db exec \<Rightarrow> DBDataVersion \<Rightarrow> 'db \<Rightarrow> int \<times> DBDataVersion \<times> 'db" where
  "DataVersion_selectFromDB real_text exec v =
     run_select exec Select_first_version
       (read_row [\<lambda>t v. v\<lparr>dv_version := t\<rparr>] (value_text real_text)) v"

section \<open>Base settings\<close>

record DBBaseSet =
  bs_id :: int
  bs_Index :: int
  bs_City :: string
  bs_IsUploadToPlatform :: int
  bs_Is4Gmodel :: int
  bs_IsIllegalCapture :: int
  bs_IsPrintIntersectionName :: int
  bs_FilesServicePath :: string
  bs_FilesServicePort :: int
  bs_MainDNS :: string
  bs_AlternateDNS :: string
  bs_PlatformTcpPath :: string
  bs_PlatformTcpPort :: int
  bs_PlatformHttpPath :: string
  bs_PlatformHttpPort :: int
  bs_SignalMachinePath :: string
  bs_SignalMachinePort :: int
  bs_IsUseSignalMachine :: int
  bs_NtpServerPath :: string
  bs_FusionMainboardIp :: string
  bs_FusionMainboardPort :: int
  bs_IllegalPlatformAddress :: string
  bs_Remarks :: string

definition BaseSet_deleteFromDB :: "'db exec \<Rightarrow> 'db \<Rightarrow> int \<times> 'db" where
  "BaseSet_deleteFromDB exec = run_sql exec (Delete_all ''base_set'')"

definition BaseSet_row :: "DBBaseSet \<Rightarrow> (string \<times> sql_value) list" where
  "BaseSet_row b =
     [(''DevIndex'', SInt (bs_Index b)), (''City'', SText (bs_City b)),
      (''IsUploadToPlatform'', SInt (bs_IsUploadToPlatform b)), (''Is4Gmodel'', SInt (bs_Is4Gmodel b)),
      (''IsIllegalCapture'', SInt (bs_IsIllegalCapture b)),
      (''IsPrintIntersectionName'', SInt (bs_IsPrintIntersectionName b)),
      (''FilesServicePath'', SText (bs_FilesServicePath b)), (''FilesServicePort'', SInt (bs_FilesServicePort b)),
      (''MainDNS'', SText (bs_MainDNS b)), (''AlternateDNS'', SText (bs_AlternateDNS b)),
      (''PlatformTcpPath'', SText (bs_PlatformTcpPath b)), (''PlatformTcpPort'', SInt (bs_PlatformTcpPort b)),
      (''PlatformHttpPath'', SText (bs_PlatformHttpPath b)), (''PlatformHttpPort'', SInt (bs_PlatformHttpPort b)),
      (''SignalMachinePath'', SText (bs_SignalMachinePath b)), (''SignalMachinePort'', SInt (bs_SignalMachinePort b)),
      (''IsUseSignalMachine'', SInt (bs_IsUseSignalMachine b)), (''NtpServerPath'', SText (bs_NtpServerPath b)),
      (''FusionMainboardIp'', SText (bs_FusionMainboardIp b)),
      (''FusionMainboardPort'', SInt (bs_FusionMainboardPort b)),
      (''IllegalPlatformAddress'', SText (bs_IllegalPlatformAddress b)), (''Remarks'', SText (bs_Remarks b))]"

definition BaseSet_insertToDB :: "'db exec \<Rightarrow> DBBaseSet \<Rightarrow> 'db \<Rightarrow> int \<times> 'db" where
  "BaseSet_insertToDB exec b = run_sql exec (Insert ''base_set'' (BaseSet_row b))"

definition BaseSet_columns :: "(string \<times> (string \<Rightarrow> DBBaseSet \<Rightarrow> DBBaseSet)) list" where
  "BaseSet_columns =
     [(''DevIndex'', \<lambda>t b. b\<lparr>bs_Index := atoi t\<rparr>), (''City'', \<lambda>t b. b\<lparr>bs_City := t\<rparr>),
      (''IsUploadToPlatform'', \<lambda>t b. b\<lparr>bs_IsUploadToPlatform := atoi t\<rparr>),
      (''Is4Gmodel'', \<lambda>t b. b\<lparr>bs_Is4Gmodel := atoi t\<rparr>),
      (''IsIllegalCapture'', \<lambda>t b. b\<lparr>bs_IsIllegalCapture := atoi t\<rparr>), (''Remarks'', \<lambda>t b. b\<lparr>bs_Remarks := t\<rparr>),
      (''IsPrintIntersectionName'', \<lambda>t b. b\<lparr>bs_IsPrintIntersectionName := atoi t\<rparr>),
      (''FilesServicePath'', \<lambda>t b. b\<lparr>bs_FilesServicePath := t\<rparr>),
      (''FilesServicePort'', \<lambda>t b. b\<lparr>bs_FilesServicePort := atoi t\<rparr>),
      (''MainDNS'', \<lambda>t b. b\<lparr>bs_MainDNS := t\<rparr>), (''AlternateDNS'', \<lambda>t b. b\<lparr>bs_AlternateDNS := t\<rparr>),
      (''PlatformTcpPath'', \<lambda>t b. b\<lparr>bs_PlatformTcpPath := t\<rparr>),
      (''PlatformTcpPort'', \<lambda>t b. b\<lparr>bs_PlatformTcpPort := atoi t\<rparr>),
      (''PlatformHttpPath'', \<lambda>t b. b\<lparr>bs_PlatformHttpPath := t\<rparr>),
      (''PlatformHttpPort'', \<lambda>t b. b\<lparr>bs_PlatformHttpPort := atoi t\<rparr>),
      (''SignalMachinePath'', \<lambda>t b. b\<lparr>bs_SignalMachinePath := t\<rparr>),
      (''SignalMachinePort'', \<lambda>t b. b\<lparr>bs_SignalMachinePort := atoi t\<rparr>),
      (''IsUseSignalMachine'', \<lambda>t b. b\<lparr>bs_IsUseSignalMachine := atoi t\<rparr>),
      (''NtpServerPath'', \<lambda>t b. b\<lparr>bs_NtpServerPath := t\<rparr>),
      (''FusionMainboardIp'', \<lambda>t b. b\<lparr>bs_FusionMainboardIp := t\<rparr>),
      (''FusionMainboardPort'', \<lambda>t b. b\<lparr>bs_FusionMainboardPort := atoi t\<rparr>),
      (''IllegalPlatformAddress'', \<lambda>t b. b\<lparr>bs_IllegalPlatformAddress := t\<rparr>)]"

text \<open>Column 0 is the \<open>id\<close>, which is not read.\<close>

definition BaseSet_selectFromDB ::
  "(real \<Rightarrow> string) \<Rightarrow> 'db exec \<Rightarrow> DBBaseSet \<Rightarrow> 'db \<Rightarrow> int \<times> DBBaseSet \<times> 'db" where
  "BaseSet_selectFromDB real_text exec b =
     run_select exec (Select_last ''base_set'' (''id'' # map fst BaseSet_columns))
       (\<lambda>row. read_row (map snd BaseSet_columns) (value_text real_text) (drop 1 row)) b"

section \<open>Intersection\<close>

record DBIntersection =
  is_id :: int
  is_Guid :: string
  is_Name :: string
  is_Type :: int
  is_PlatId :: string
  is_XLength :: real
  is_YLength :: real
  is_LaneNumber :: int
  is_Latitude :: string
  is_Longitude :: string
  is_FlagEast :: int
  is_FlagSouth :: int
  is_FlagWest :: int
  is_FlagNorth :: int
  is_DeltaXEast :: real
  is_DeltaYEast :: real
  is_DeltaXSouth :: real
  is_DeltaYSouth :: real
  is_DeltaXWest :: real
  is_DeltaYWest :: real
  is_DeltaXNorth :: real
  is_DeltaYNorth :: real
  is_WidthX :: real
  is_WidthY :: real

definition Intersection_row :: "DBIntersection \<Rightarrow> (string \<times> sql_value) list" where
  "Intersection_row x =
     [(''Guid'', SText (is_Guid x)), (''Name'', SText (is_Name x)), (''Type'', SInt (is_Type x)),
      (''PlatId'', SText (is_PlatId x)), (''XLength'', SReal (is_XLength x)),
      (''YLength'', SReal (is_YLength x)), (''LaneNumber'', SInt (is_LaneNumber x)),
      (''Latitude'', SText (is_Latitude x)), (''Longitude'', SText (is_Longitude x)),
      (''FlagEast'', SInt (is_FlagEast x)), (''FlagSouth'', SInt (is_FlagSouth x)),
      (''FlagWest'', SInt (is_FlagWest x)), (''FlagNorth'', SInt (is_FlagNorth x)),
      (''DeltaXEast'', SReal (is_DeltaXEast x)), (''DeltaYEast'', SReal (is_DeltaYEast x)),
      (''DeltaXSouth'', SReal (is_DeltaXSouth x)), (''DeltaYSouth'', SReal (is_DeltaYSouth x)),
      (''DeltaXWest'', SReal (is_DeltaXWest x)), (''DeltaYWest'', SReal (is_DeltaYWest x)),
      (''DeltaXNorth'', SReal (is_DeltaXNorth x)), (''DeltaYNorth'', SReal (is_DeltaYNorth x)),
      (''WidthX'', SReal (is_WidthX x)), (''WidthY'', SReal (is_WidthY x))]"

definition Intersection_columns :: "(string \<Rightarrow> real) \<Rightarrow> (string \<times> (string \<Rightarrow> DBIntersection \<Rightarrow> DBIntersection)) list" where
  "Intersection_columns strtof =
     [(''Guid'', \<lambda>t x. x\<lparr>is_Guid := t\<rparr>),
      (''Name'', \<lambda>t x. x\<lparr>is_Name := t\<rparr>),
      (''Type'', \<lambda>t x. x\<lparr>is_Type := atoi t\<rparr>),
      (''PlatId'', \<lambda>t x. x\<lparr>is_PlatId := t\<rparr>),
      (''XLength'', \<lambda>t x. x\<lparr>is_XLength := strtof t\<rparr>),
      (''YLength'', \<lambda>t x. x\<lparr>is_YLength := strtof t\<rparr>),
      (''LaneNumber'', \<lambda>t x. x\<lparr>is_LaneNumber := atoi t\<rparr>),
      (''Latitude'', \<lambda>t x. x\<lparr>is_Latitude := t\<rparr>),
      (''Longitude'', \<lambda>t x. x\<lparr>is_Longitude := t\<rparr>),
      (''FlagEast'', \<lambda>t x. x\<lparr>is_FlagEast := atoi t\<rparr>),
      (''FlagSouth'', \<lambda>t x. x\<lparr>is_FlagSouth := atoi t\<rparr>),
      (''FlagWest'', \<lambda>t x. x\<lparr>is_FlagWest := atoi t\<rparr>),
      (''FlagNorth'', \<lambda>t x. x\<lparr>is_FlagNorth := atoi t\<rparr>),
      (''DeltaXEast'', \<lambda>t x. x\<lparr>is_DeltaXEast := strtof t\<rparr>),
      (''DeltaYEast'', \<lambda>t x. x\<lparr>is_DeltaYEast := strtof t\<rparr>),
      (''DeltaXSouth'', \<lambda>t x. x\<lparr>is_DeltaXSouth := strtof t\<rparr>),
      (''DeltaYSouth'', \<lambda>t x. x\<lparr>is_DeltaYSouth := strtof t\<rparr>),
      (''DeltaXWest'', \<lambda>t x. x\<lparr>is_DeltaXWest := strtof t\<rparr>),
      (''DeltaYWest'', \<lambda>t x. x\<lparr>is_DeltaYWest := strtof t\<rparr>),
      (''DeltaXNorth'', \<lambda>t x. x\<lparr>is_DeltaXNorth := strtof t\<rparr>),
      (''DeltaYNorth'', \<lambda>t x. x\<lparr>is_DeltaYNorth := strtof t\<rparr>),
      (''WidthX'', \<lambda>t x. x\<lparr>is_WidthX := strtof t\<rparr>),
      (''WidthY'', \<lambda>t x. x\<lparr>is_WidthY := strtof t\<rparr>)]"

definition Intersection_deleteFromDB :: "'db exec \<Rightarrow> 'db \<Rightarrow> int \<times> 'db" where
  "Intersection_deleteFromDB exec = run_sql exec (Delete_all ''belong_intersection'')"

definition Intersection_insertToDB :: "'db exec \<Rightarrow> DBIntersection \<Rightarrow> 'db \<Rightarrow> int \<times> 'db" where
  "Intersection_insertToDB exec x = run_sql exec (Insert ''belong_intersection'' (Intersection_row x))"

definition Intersection_selectFromDB ::
  "(real \<Rightarrow> string) \<Rightarrow> (string \<Rightarrow> real) \<Rightarrow> 'db exec \<Rightarrow> DBIntersection \<Rightarrow> 'db \<Rightarrow> int \<times> DBIntersection \<times> 'db" where
  "Intersection_selectFromDB real_text strtof exec x =
     run_select exec (Select_last ''belong_intersection'' (''id'' # map fst (Intersection_columns strtof)))
       (\<lambda>row. read_row (map snd (Intersection_columns strtof)) (value_text real_text) (drop 1 row)) x"

section \<open>Fusion parameters\<close>

record DBFusionParaSet =
  fp_id :: int
  fp_IntersectionAreaPoint1X :: real
  fp_IntersectionAreaPoint1Y :: real
  fp_IntersectionAreaPoint2X :: real
  fp_IntersectionAreaPoint2Y :: real
  fp_IntersectionAreaPoint3X :: real
  fp_IntersectionAreaPoint3Y :: real
  fp_IntersectionAreaPoint4X :: real
  fp_IntersectionAreaPoint4Y :: real

definition FusionParaSet_row :: "DBFusionParaSet \<Rightarrow> (string \<times> sql_value) list" where
  "FusionParaSet_row p =
     [(''IntersectionAreaPoint1X'', SReal (fp_IntersectionAreaPoint1X p)),
      (''IntersectionAreaPoint1Y'', SReal (fp_IntersectionAreaPoint1Y p)),
      (''IntersectionAreaPoint2X'', SReal (fp_IntersectionAreaPoint2X p)),
      (''IntersectionAreaPoint2Y'', SReal (fp_IntersectionAreaPoint2Y p)),
      (''IntersectionAreaPoint3X'', SReal (fp_IntersectionAreaPoint3X p)),
      (''IntersectionAreaPoint3Y'', SReal (fp_IntersectionAreaPoint3Y p)),
      (''IntersectionAreaPoint4X'', SReal (fp_IntersectionAreaPoint4X p)),
      (''IntersectionAreaPoint4Y'', SReal (fp_IntersectionAreaPoint4Y p))]"

definition FusionParaSet_columns :: "(string \<Rightarrow> real) \<Rightarrow> (string \<times> (string \<Rightarrow> DBFusionParaSet \<Rightarrow> DBFusionParaSet)) list" where
  "FusionParaSet_columns strtof =
     [(''IntersectionAreaPoint1X'', \<lambda>t p. p\<lparr>fp_IntersectionAreaPoint1X := strtof t\<rparr>),
      (''IntersectionAreaPoint1Y'', \<lambda>t p. p\<lparr>fp_IntersectionAreaPoint1Y := strtof t\<rparr>),
      (''IntersectionAreaPoint2X'', \<lambda>t p. p\<lparr>fp_IntersectionAreaPoint2X := strtof t\<rparr>),
      (''IntersectionAreaPoint2Y'', \<lambda>t p. p\<lparr>fp_IntersectionAreaPoint2Y := strtof t\<rparr>),
      (''IntersectionAreaPoint3X'', \<lambda>t p. p\<lparr>fp_IntersectionAreaPoint3X := strtof t\<rparr>),
      (''IntersectionAreaPoint3Y'', \<lambda>t p. p\<lparr>fp_IntersectionAreaPoint3Y := strtof t\<rparr>),
      (''IntersectionAreaPoint4X'', \<lambda>t p. p\<lparr>fp_IntersectionAreaPoint4X := strtof t\<rparr>),
      (''IntersectionAreaPoint4Y'', \<lambda>t p. p\<lparr>fp_IntersectionAreaPoint4Y := strtof t\<rparr>)]"

definition FusionParaSet_deleteFromDB :: "'db exec \<Rightarrow> 'db \<Rightarrow> int \<times> 'db" where
  "FusionParaSet_deleteFromDB exec = run_sql exec (Delete_all ''fusion_para_set'')"

definition FusionParaSet_insertToDB :: "'db exec \<Rightarrow> DBFusionParaSet \<Rightarrow> 'db \<Rightarrow> int \<times> 'db" where
  "FusionParaSet_insertToDB exec p = run_sql exec (Insert ''fusion_para_set'' (FusionParaSet_row p))"

definition FusionParaSet_selectFromDB ::
  "(real \<Rightarrow> string) \<Rightarrow> (string \<Rightarrow> real) \<Rightarrow> 'db exec \<Rightarrow> DBFusionParaSet \<Rightarrow> 'db \<Rightarrow> int \<times> DBFusionParaSet \<times> 'db" where
  "FusionParaSet_selectFromDB real_text strtof exec p =
     run_select exec (Select_last ''fusion_para_set'' (''id'' # map fst (FusionParaSet_columns strtof)))
       (\<lambda>row. read_row (map snd (FusionParaSet_columns strtof)) (value_text real_text) (drop 1 row)) p"

section \<open>Associated devices\<close>

record DBAssociatedEquip =
  ae_id :: int
  ae_EquipType :: int
  ae_EquipCode :: string

definition AssociatedEquip_row :: "DBAssociatedEquip \<Rightarrow> (string \<times> sql_value) list" where
  "AssociatedEquip_row e =
     [(''EquipType'', SInt (ae_EquipType e)), (''EquipCode'', SText (ae_EquipCode e))]"

definition AssociatedEquip_columns :: "(string \<times> (string \<Rightarrow> DBAssociatedEquip \<Rightarrow> DBAssociatedEquip)) list" where
  "AssociatedEquip_columns =
     [(''EquipType'', \<lambda>t e. e\<lparr>ae_EquipType := atoi t\<rparr>),
      (''EquipCode'', \<lambda>t e. e\<lparr>ae_EquipCode := t\<rparr>)]"

definition AssociatedEquip_deleteAllFromDB :: "'db exec \<Rightarrow> 'db \<Rightarrow> int \<times> 'db" where
  "AssociatedEquip_deleteAllFromDB exec = run_sql exec (Delete_all ''associated_equip'')"

definition AssociatedEquip_insertToDB :: "'db exec \<Rightarrow> DBAssociatedEquip \<Rightarrow> 'db \<Rightarrow> int \<times> 'db" where
  "AssociatedEquip_insertToDB exec e = run_sql exec (Insert ''associated_equip'' (AssociatedEquip_row e))"


text \<open>
  \<open>getAssociatedEquips\<close> appends one device for each row; a row that throws ends it, with the earlier
  ones kept. The \<open>id\<close> of a new device is not initialised; the model has 0.
\<close>

definition getAssociatedEquips ::
  "(real \<Rightarrow> string) \<Rightarrow> 'db exec \<Rightarrow> DBAssociatedEquip list \<Rightarrow> 'db \<Rightarrow> int \<times> DBAssociatedEquip list \<times> 'db" where
  "getAssociatedEquips real_text exec data =
     run_select exec (Select_all ''associated_equip'' (''id'' # map fst AssociatedEquip_columns))
       (\<lambda>row data.
          case read_row (map snd AssociatedEquip_columns) (value_text real_text) (drop 1 row)
                 \<lparr>ae_id = 0, ae_EquipType = 0, ae_EquipCode = []\<rparr> of
            (ok, item) \<Rightarrow> (ok, if ok then data @ [item] else data)) data"

section \<open>Checking a table\<close>

record DBTableInfo =
  ti_tableName :: string
  ti_columnName :: string
  ti_columnDescription :: string

text \<open>The loop over the rows of \<open>pragma table_info\<close>, for one wanted column.\<close>

datatype column_found = Column_missing | Column_present | Column_differs | Column_throws

fun column_state :: "(real \<Rightarrow> string) \<Rightarrow> string \<Rightarrow> string \<Rightarrow> sql_value list list \<Rightarrow> column_found" where
  "column_state real_text name desc [] = Column_missing"
| "column_state real_text name desc (r # rs) =
     (if length r \<le> 2 \<or> r ! 1 = SNull \<or> r ! 2 = SNull then Column_throws
      else if value_text real_text (r ! 1) = name
      then if value_text real_text (r ! 2) \<noteq> desc then Column_differs else Column_present
      else column_state real_text name desc rs)"

text \<open>One pass over the columns: it ends, throws, or has dropped the table and goes back to \<open>check\<close>.\<close>

datatype pass = Pass_done | Pass_throws | Pass_again

fun check_columns ::
  "(real \<Rightarrow> string) \<Rightarrow> 'db exec \<Rightarrow> string \<Rightarrow> DBTableInfo list \<Rightarrow> 'db \<Rightarrow> pass \<times> 'db" where
  "check_columns real_text exec t [] db = (Pass_done, db)"
| "check_columns real_text exec t (c # cs) db =
     (case exec (Table_info t) db of
        (db1, None) \<Rightarrow> (Pass_throws, db1)
      | (db1, Some rows) \<Rightarrow>
          (case column_state real_text (ti_columnName c) (ti_columnDescription c) rows of
             Column_throws \<Rightarrow> (Pass_throws, db1)
           | Column_differs \<Rightarrow>
               (case exec (Drop_table t) db1 of
                  (db2, None) \<Rightarrow> (Pass_throws, db2)
                | (db2, Some _) \<Rightarrow> (Pass_again, db2))
           | Column_present \<Rightarrow> check_columns real_text exec t cs db1
           | Column_missing \<Rightarrow>
               (case exec (Add_column (ti_tableName c) (ti_columnName c) (ti_columnDescription c)) db1 of
                  (db2, None) \<Rightarrow> (Pass_throws, db2)
                | (db2, Some _) \<Rightarrow> check_columns real_text exec t cs db2)))"

text \<open>The jump back to \<open>check\<close> may repeat; \<open>None\<close> is a loop that does not end.\<close>

partial_function (option) check_table_loop ::
  "(real \<Rightarrow> string) \<Rightarrow> 'db exec \<Rightarrow> string \<Rightarrow> DBTableInfo list \<Rightarrow> 'db \<Rightarrow> (int \<times> 'db) option" where
  "check_table_loop real_text exec t table db =
     (case exec (Create_table t) db of
        (db1, None) \<Rightarrow> Some (- 1, db1)
      | (db1, Some _) \<Rightarrow>
          (case check_columns real_text exec t table db1 of
             (Pass_done, db2) \<Rightarrow> Some (0, db2)
           | (Pass_throws, db2) \<Rightarrow> Some (- 1, db2)
           | (Pass_again, db2) \<Rightarrow> check_table_loop real_text exec t table db2))"

text \<open>The system's part of the file system: directories, whether a file can be accessed, \<open>sqlite3_open\<close>.\<close>

record 'fs files =
  f_opendir :: "'fs \<Rightarrow> string \<Rightarrow> bool"
  f_mkdir :: "string \<Rightarrow> 'fs \<Rightarrow> 'fs"
  f_access :: "'fs \<Rightarrow> string \<Rightarrow> bool"
  f_sqlite_open :: "string \<Rightarrow> 'fs \<Rightarrow> bool \<times> 'fs"

text \<open>The file is opened, which creates it, where it cannot be accessed; \<open>False\<close> when that fails.\<close>

definition make_file :: "'fs files \<Rightarrow> string \<Rightarrow> 'fs \<Rightarrow> bool \<times> 'fs" where
  "make_file io dbFile fs = (if f_access io fs dbFile then (True, fs) else f_sqlite_open io dbFile fs)"

definition checkTable ::
  "(real \<Rightarrow> string) \<Rightarrow> 'fs files \<Rightarrow> 'db exec \<Rightarrow> string \<Rightarrow> DBTableInfo list \<Rightarrow> 'fs \<Rightarrow> 'db \<Rightarrow> (int \<times> 'fs \<times> 'db) option" where
  "checkTable real_text io exec dbFile table fs db =
     (let fs1 = CreatePath (f_opendir io) (f_mkdir io) dbFile fs
      in case make_file io dbFile fs1 of
           (ok, fs2) \<Rightarrow>
             if \<not> ok then Some (- 1, fs2, db)
             else if table = [] then Some (- 1, fs2, db)
             else map_option (\<lambda>(ret, db'). (ret, fs2, db'))
                    (check_table_loop real_text exec (ti_tableName (hd table)) table db))"

section \<open>The tables of the configuration\<close>

definition table_infos :: "string \<Rightarrow> (string \<times> string) list \<Rightarrow> DBTableInfo list" where
  "table_infos t cols = map (\<lambda>(c, d). \<lparr>ti_tableName = t, ti_columnName = c, ti_columnDescription = d\<rparr>) cols"

definition base_set_table :: "DBTableInfo list" where
  "base_set_table = table_infos ''base_set''
     [(''DevIndex'', ''INTEGER''), (''City'', ''TEXT''), (''IsUploadToPlatform'', ''INTEGER''),
      (''Is4Gmodel'', ''INTEGER''), (''IsIllegalCapture'', ''INTEGER''), (''IsPrintIntersectionName'', ''INTEGER''),
      (''FilesServicePath'', ''TEXT''), (''FilesServicePort'', ''INTEGER''), (''MainDNS'', ''TEXT''),
      (''AlternateDNS'', ''TEXT''), (''PlatformTcpPath'', ''TEXT''), (''PlatformTcpPort'', ''INTEGER''),
      (''PlatformHttpPath'', ''TEXT''), (''PlatformHttpPort'', ''INTEGER''), (''SignalMachinePath'', ''TEXT''),
      (''SignalMachinePort'', ''INTEGER''), (''IsUseSignalMachine'', ''INTEGER''), (''NtpServerPath'', ''TEXT''),
      (''FusionMainboardIp'', ''TEXT''), (''FusionMainboardPort'', ''INTEGER''),
      (''IllegalPlatformAddress'', ''TEXT''), (''Remarks'', ''TEXT'')]"

definition belong_intersection_table :: "DBTableInfo list" where
  "belong_intersection_table = table_infos ''belong_intersection''
     [(''Guid'', ''TEXT''), (''Name'', ''TEXT''), (''Type'', ''INTEGER''), (''PlatId'', ''TEXT''), (''XLength'', ''REAL''),
      (''YLength'', ''REAL''), (''LaneNumber'', ''INTEGER''), (''Latitude'', ''TEXT''), (''Longitude'', ''TEXT''),
      (''FlagEast'', ''INTEGER''), (''FlagSouth'', ''INTEGER''), (''FlagWest'', ''INTEGER''), (''FlagNorth'', ''INTEGER''),
      (''DeltaXEast'', ''REAL''), (''DeltaYEast'', ''REAL''), (''DeltaXSouth'', ''REAL''), (''DeltaYSouth'', ''REAL''),
      (''DeltaXWest'', ''REAL''), (''DeltaYWest'', ''REAL''), (''DeltaXNorth'', ''REAL''), (''DeltaYNorth'', ''REAL''),
      (''WidthX'', ''REAL''), (''WidthY'', ''REAL'')]"

definition fusion_para_set_table :: "DBTableInfo list" where
  "fusion_para_set_table = table_infos ''fusion_para_set''
     [(''IntersectionAreaPoint1X'', ''REAL''), (''IntersectionAreaPoint1Y'', ''REAL''),
      (''IntersectionAreaPoint2X'', ''REAL''), (''IntersectionAreaPoint2Y'', ''REAL''),
      (''IntersectionAreaPoint3X'', ''REAL''), (''IntersectionAreaPoint3Y'', ''REAL''),
      (''IntersectionAreaPoint4X'', ''REAL''), (''IntersectionAreaPoint4Y'', ''REAL'')]"

definition associated_equip_table :: "DBTableInfo list" where
  "associated_equip_table = table_infos ''associated_equip''
     [(''EquipType'', ''INTEGER''), (''EquipCode'', ''TEXT'')]"

definition dbInfo_path :: string where "dbInfo_path = ''./eoc_configure.db''"
definition dbInfo_version :: string where "dbInfo_version = ''V_1_0_0''"

text \<open>
  The search for the version among the table names: the current version is the last table read whose
  name starts with \<open>V_\<close>, up to the right one. \<open>None\<close> where a name is null.
\<close>

fun find_version :: "(real \<Rightarrow> string) \<Rightarrow> string \<Rightarrow> sql_value list list \<Rightarrow> (bool \<times> string) option" where
  "find_version real_text cur [] = Some (False, cur)"
| "find_version real_text cur (r # rs) =
     (if r = [] \<or> hd r = SNull then None
      else let name = value_text real_text (hd r)
           in if \<not> startsWith name ''V_'' then find_version real_text cur rs
              else if name = dbInfo_version then Some (True, name) else find_version real_text name rs)"

text \<open>A statement in the \<open>try\<close> block of \<open>tableInit\<close>, whose result is 0 whether it throws or not.\<close>

definition init_exec ::
  "'db exec \<Rightarrow> sql \<Rightarrow> ('fs \<times> 'db \<Rightarrow> (int \<times> 'fs \<times> 'db) option) \<Rightarrow> 'fs \<times> 'db \<Rightarrow> (int \<times> 'fs \<times> 'db) option" where
  "init_exec exec stmt k = (\<lambda>(fs, db).
     case exec stmt db of (db1, None) \<Rightarrow> Some (0, fs, db1) | (db1, Some _) \<Rightarrow> k (fs, db1))"

fun init_tables ::
  "(real \<Rightarrow> string) \<Rightarrow> 'fs files \<Rightarrow> 'db exec \<Rightarrow> DBTableInfo list list \<Rightarrow> 'fs \<times> 'db \<Rightarrow> ('fs \<times> 'db) option" where
  "init_tables real_text io exec [] st = Some st"
| "init_tables real_text io exec (t # ts) (fs, db) =
     (case checkTable real_text io exec dbInfo_path t fs db of
        None \<Rightarrow> None
      | Some (ret, st) \<Rightarrow> init_tables real_text io exec ts st)"

definition config_tables :: "DBTableInfo list list" where
  "config_tables = [base_set_table, belong_intersection_table, fusion_para_set_table, associated_equip_table]"

definition tableInit ::
  "(real \<Rightarrow> string) \<Rightarrow> 'fs files \<Rightarrow> 'db exec \<Rightarrow> 'fs \<Rightarrow> 'db \<Rightarrow> (int \<times> 'fs \<times> 'db) option" where
  "tableInit real_text io exec fs db =
     (case getFolderPath dbInfo_path of
        None \<Rightarrow> None
      | Some folder \<Rightarrow>
          (case make_file io dbInfo_path (CreatePath (f_opendir io) (f_mkdir io) folder fs) of
             (ok, fs1) \<Rightarrow>
               if \<not> ok then Some (- 1, fs1, db)
               else (case exec Select_tables db of
                  (db1, None) \<Rightarrow> Some (0, fs1, db1)
                | (db1, Some rows) \<Rightarrow>
                    (case find_version real_text [] rows of
                       None \<Rightarrow> Some (0, fs1, db1)
                     | Some (True, cur) \<Rightarrow> Some (0, fs1, db1)
                     | Some (False, cur) \<Rightarrow>
                         init_exec exec Create_version_table
                          (init_exec exec (Delete_all ''conf_version'')
                            (\<lambda>st. case init_tables real_text io exec config_tables st of
                               None \<Rightarrow> None
                             | Some st' \<Rightarrow>
                                 init_exec exec
                                   (if cur = [] then Create_mark dbInfo_version else Rename_table cur dbInfo_version)
                                   (\<lambda>(fs, db). Some (0, fs, db)) st'))
                          (fs1, db1)))))"

section \<open>SQLite\<close>

text \<open>
  What the code relies on. Columns: creating a table that is not there gives it the column \<open>id\<close>; adding
  a column succeeds unless one has that name, read without case, and then changes nothing; the pragma lists the columns in order,
  with name and type; dropping removes the table; other tables stay.
\<close>

type_synonym schema = "string \<Rightarrow> (string \<times> string) list option"

definition lower :: "string \<Rightarrow> string" where
  "lower = map (\<lambda>c. if CHR ''A'' \<le> c \<and> c \<le> CHR ''Z'' then char_of (of_char c + 32 :: nat) else c)"

definition info_rows :: "(string \<times> string) list \<Rightarrow> sql_value list list" where
  "info_rows cols = map (\<lambda>(k, c, d). [SInt (int k), SText c, SText d, SInt 0, SNull, SInt 0]) (enumerate 0 cols)"

definition schema_ok :: "'db exec \<Rightarrow> ('db \<Rightarrow> schema) \<Rightarrow> bool" where
  "schema_ok exec schema \<longleftrightarrow>
     (\<forall>db t. \<exists>db'. exec (Create_table t) db = (db', Some []) \<and>
        schema db' = (schema db)(t := Some (case schema db t of None \<Rightarrow> [(''id'', ''INTEGER'')] | Some cols \<Rightarrow> cols))) \<and>
     (\<forall>db t cols. schema db t = Some cols \<longrightarrow>
        exec (Table_info t) db = (db, Some (info_rows cols)) \<and>
        (\<exists>db'. exec (Drop_table t) db = (db', Some []) \<and> schema db' = (schema db)(t := None)) \<and>
        (\<forall>c d. if lower c \<in> lower ` fst ` set cols
          then \<exists>db'. exec (Add_column t c d) db = (db', None) \<and> schema db' = schema db
          else \<exists>db'. exec (Add_column t c d) db = (db', Some []) \<and> schema db' = (schema db)(t := Some (cols @ [(c, d)]))))"

section \<open>A checked table\<close>

lemma column_state_info:
  "column_state real_text c d (map (\<lambda>(k, c, d). [SInt (int k), SText c, SText d, SInt 0, SNull, SInt 0]) (enumerate n cols)) =
     (case map_of cols c of None \<Rightarrow> Column_missing
      | Some d' \<Rightarrow> if d' = d then Column_present else Column_differs)"
  by (induction cols arbitrary: n) auto

definition columns_distinct :: "DBTableInfo list \<Rightarrow> bool" where
  "columns_distinct cs \<longleftrightarrow> distinct (map (lower \<circ> ti_columnName) cs)"

definition has_column :: "(string \<times> string) list \<Rightarrow> DBTableInfo \<Rightarrow> bool" where
  "has_column cols c \<longleftrightarrow> map_of cols (ti_columnName c) = Some (ti_columnDescription c)"

text \<open>
  What a pass does to the columns: it keeps them and adds the missing ones, or drops the table at the first
  one of another type, or stops at the first missing one whose name is there in other letters.
\<close>

datatype pass_result = Keeps "(string \<times> string) list" | Drops | Clashes "(string \<times> string) list"

fun pass_columns :: "(string \<times> string) list \<Rightarrow> DBTableInfo list \<Rightarrow> pass_result" where
  "pass_columns cols [] = Keeps cols"
| "pass_columns cols (c # cs) =
     (case map_of cols (ti_columnName c) of
        None \<Rightarrow>
          if lower (ti_columnName c) \<in> lower ` fst ` set cols then Clashes cols
          else pass_columns (cols @ [(ti_columnName c, ti_columnDescription c)]) cs
      | Some d \<Rightarrow> if d = ti_columnDescription c then pass_columns cols cs else Drops)"

fun pass_end :: "pass_result \<Rightarrow> pass" where
  "pass_end (Keeps cols) = Pass_done"
| "pass_end Drops = Pass_again"
| "pass_end (Clashes cols) = Pass_throws"

fun pass_table :: "pass_result \<Rightarrow> (string \<times> string) list option" where
  "pass_table (Keeps cols) = Some cols"
| "pass_table Drops = None"
| "pass_table (Clashes cols) = Some cols"

lemma schema_create:
  assumes "schema_ok exec schema"
  obtains db' where "exec (Create_table t) db = (db', Some [])"
    "schema db' = (schema db)(t := Some (case schema db t of None \<Rightarrow> [(''id'', ''INTEGER'')] | Some cols \<Rightarrow> cols))"
  using conjunct1[OF assms[unfolded schema_ok_def], rule_format, of t db] by blast

lemma schema_table:
  assumes "schema_ok exec schema" "schema db t = Some cols"
  shows "exec (Table_info t) db = (db, Some (info_rows cols))"
    "\<exists>db'. exec (Drop_table t) db = (db', Some []) \<and> schema db' = (schema db)(t := None)"
    "lower c \<notin> lower ` fst ` set cols \<Longrightarrow>
      \<exists>db'. exec (Add_column t c d) db = (db', Some []) \<and> schema db' = (schema db)(t := Some (cols @ [(c, d)]))"
    "lower c \<in> lower ` fst ` set cols \<Longrightarrow> \<exists>db'. exec (Add_column t c d) db = (db', None) \<and> schema db' = schema db"
proof -
  note t = conjunct2[OF assms(1)[unfolded schema_ok_def], rule_format, OF assms(2)]
  show "exec (Table_info t) db = (db, Some (info_rows cols))"
    "\<exists>db'. exec (Drop_table t) db = (db', Some []) \<and> schema db' = (schema db)(t := None)"
    using t by blast+
  note add = conjunct2[OF conjunct2[OF t], rule_format, of c d]
  show "lower c \<notin> lower ` fst ` set cols \<Longrightarrow>
      \<exists>db'. exec (Add_column t c d) db = (db', Some []) \<and> schema db' = (schema db)(t := Some (cols @ [(c, d)]))"
    "lower c \<in> lower ` fst ` set cols \<Longrightarrow> \<exists>db'. exec (Add_column t c d) db = (db', None) \<and> schema db' = schema db"
    using add by (simp_all only: if_True if_False)
qed

lemma check_columns_pass:
  assumes ok: "schema_ok exec schema"
  shows "schema db t = Some cols \<Longrightarrow> \<forall>c \<in> set cs. ti_tableName c = t \<Longrightarrow>
    \<exists>db'. check_columns real_text exec t cs db = (pass_end (pass_columns cols cs), db') \<and>
      schema db' = (schema db)(t := pass_table (pass_columns cols cs))"
proof (induction cs arbitrary: db cols)
  case (Cons c cs)
  note table = schema_table[OF ok Cons.prems(1)]
  note info = table(1)
  have rest: "\<forall>c \<in> set cs. ti_tableName c = t" using Cons.prems by auto
  consider (clash) "map_of cols (ti_columnName c) = None" "lower (ti_columnName c) \<in> lower ` fst ` set cols"
    | (add) "map_of cols (ti_columnName c) = None" "lower (ti_columnName c) \<notin> lower ` fst ` set cols"
    | (there) d where "map_of cols (ti_columnName c) = Some d" by blast
  then show ?case
  proof cases
    case clash
    obtain db1 where "exec (Add_column t (ti_columnName c) (ti_columnDescription c)) db = (db1, None)" "schema db1 = schema db"
      using table(4)[OF clash(2)] by blast
    then show ?thesis
      using info clash Cons.prems by (simp add: info_rows_def column_state_info fun_upd_idem)
  next
    case add
    obtain db1 where db1: "exec (Add_column t (ti_columnName c) (ti_columnDescription c)) db = (db1, Some [])"
      "schema db1 = (schema db)(t := Some (cols @ [(ti_columnName c, ti_columnDescription c)]))"
      using table(3)[OF add(2)] by blast
    let ?cols = "cols @ [(ti_columnName c, ti_columnDescription c)]"
    have "schema db1 t = Some ?cols" by (simp add: db1(2))
    then obtain db2 where
      "check_columns real_text exec t cs db1 = (pass_end (pass_columns ?cols cs), db2)"
      "schema db2 = (schema db1)(t := pass_table (pass_columns ?cols cs))"
      using Cons.IH rest by blast
    moreover have "check_columns real_text exec t (c # cs) db = check_columns real_text exec t cs db1"
      using info add db1(1) Cons.prems(2) by (simp add: info_rows_def column_state_info)
    ultimately show ?thesis using add db1(2) by (intro exI[of _ db2]) simp
  next
    case (there d)
    obtain db1 where db1: "exec (Drop_table t) db = (db1, Some [])" "schema db1 = (schema db)(t := None)"
      using table(2) by blast
    from Cons.IH[OF Cons.prems(1) rest] there show ?thesis
      using info db1 by (cases "d = ti_columnDescription c") (simp_all add: info_rows_def column_state_info fun_eq_iff)
  qed
qed (auto intro!: exI[of _ db])

lemma pass_columns_has:
  "pass_columns cols cs = Keeps cols' \<Longrightarrow>
     (\<exists>new. cols' = cols @ new) \<and> (\<forall>c \<in> set cs. has_column cols' c)"
proof (induction cs arbitrary: cols)
  case (Cons c cs)
  show ?case
  proof (cases "map_of cols (ti_columnName c)")
    case None
    with Cons obtain new where new: "cols' = (cols @ [(ti_columnName c, ti_columnDescription c)]) @ new"
      "\<forall>c \<in> set cs. has_column cols' c" by (fastforce split: if_splits)
    with None show ?thesis by (auto simp: has_column_def map_add_def split: option.splits)
  next
    case (Some d)
    with Cons.prems Cons.IH[of cols] show ?thesis by (auto simp: has_column_def split: if_splits)
  qed
qed simp

definition wanted :: "DBTableInfo list \<Rightarrow> (string \<times> string) list" where
  "wanted cs = map (\<lambda>c. (ti_columnName c, ti_columnDescription c)) cs"

lemma pass_columns_new:
  "\<forall>c \<in> set cs. lower (ti_columnName c) \<notin> lower ` fst ` set cols \<Longrightarrow> columns_distinct cs \<Longrightarrow>
     pass_columns cols cs = Keeps (cols @ wanted cs)"
proof (induction cs arbitrary: cols)
  case (Cons c cs)
  then have n: "lower (ti_columnName c) \<notin> lower ` fst ` set cols" by simp
  then have "map_of cols (ti_columnName c) = None" by (auto simp: map_of_eq_None_iff)
  moreover have "\<forall>x \<in> set cs. lower (ti_columnName x) \<notin> lower ` fst ` set (cols @ [(ti_columnName c, ti_columnDescription c)])"
  proof
    fix x assume x: "x \<in> set cs"
    then have "lower (ti_columnName x) \<noteq> lower (ti_columnName c)"
      using Cons.prems(2) unfolding columns_distinct_def by (auto simp: rev_image_eqI)
    with x Cons.prems(1) show "lower (ti_columnName x) \<notin> lower ` fst ` set (cols @ [(ti_columnName c, ti_columnDescription c)])" by simp
  qed
  moreover have "columns_distinct cs" using Cons.prems(2) by (simp add: columns_distinct_def)
  ultimately show ?case
    using Cons.IH[of "cols @ [(ti_columnName c, ti_columnDescription c)]"] n by (simp add: wanted_def)
qed (simp add: wanted_def)

definition old_columns :: "schema \<Rightarrow> string \<Rightarrow> (string \<times> string) list" where
  "old_columns sch t = (case sch t of None \<Rightarrow> [(''id'', ''INTEGER'')] | Some cols \<Rightarrow> cols)"

lemma check_table_pass:
  fixes schema :: "'db \<Rightarrow> schema"
  assumes "schema_ok exec schema" "\<forall>c \<in> set table. ti_tableName c = t"
  shows "\<exists>db'. check_table_loop real_text exec t table db =
      (case pass_columns (old_columns (schema db) t) table of
         Keeps _ \<Rightarrow> Some (0, db') | Clashes _ \<Rightarrow> Some (- 1, db') | Drops \<Rightarrow> check_table_loop real_text exec t table db') \<and>
    schema db' = (schema db)(t := pass_table (pass_columns (old_columns (schema db) t) table))"
proof -
  let ?p = "pass_columns (old_columns (schema db) t) table"
  obtain db1 where db1: "exec (Create_table t) db = (db1, Some [])" "schema db1 = (schema db)(t := Some (old_columns (schema db) t))"
    unfolding old_columns_def by (rule schema_create[OF assms(1)])
  then have "schema db1 t = Some (old_columns (schema db) t)" by simp
  from check_columns_pass[OF assms(1) this assms(2)] obtain db2 where
    db2: "check_columns real_text exec t table db1 = (pass_end ?p, db2)" "schema db2 = (schema db1)(t := pass_table ?p)" by blast
  have "check_table_loop real_text exec t table db =
      (case ?p of Keeps _ \<Rightarrow> Some (0, db2) | Clashes _ \<Rightarrow> Some (- 1, db2) | Drops \<Rightarrow> check_table_loop real_text exec t table db2)"
    by (subst check_table_loop.simps, cases ?p)
      (simp_all only: db1(1) db2(1) prod.case option.case pass_end.simps pass.case pass_result.case)
  with db1(2) db2(2) show ?thesis by auto
qed

lemma check_table_loop_ends:
  fixes schema :: "'db \<Rightarrow> schema"
  assumes "schema_ok exec schema" "columns_distinct table" "\<forall>c \<in> set table. ti_tableName c = t \<and> lower (ti_columnName c) \<noteq> ''id''"
  shows "\<exists>db'. case pass_columns (old_columns (schema db) t) table of
      Keeps new \<Rightarrow> check_table_loop real_text exec t table db = Some (0, db') \<and> schema db' = (schema db)(t := Some new)
    | Drops \<Rightarrow> check_table_loop real_text exec t table db = Some (0, db') \<and>
        schema db' = (schema db)(t := Some ((''id'', ''INTEGER'') # wanted table))
    | Clashes new \<Rightarrow> check_table_loop real_text exec t table db = Some (- 1, db') \<and> schema db' = (schema db)(t := Some new)"
proof -
  let ?p = "pass_columns (old_columns (schema db) t) table"
  have t: "\<forall>c \<in> set table. ti_tableName c = t" using assms(3) by simp
  obtain db1 where db1: "check_table_loop real_text exec t table db =
      (case ?p of Keeps _ \<Rightarrow> Some (0, db1) | Clashes _ \<Rightarrow> Some (- 1, db1) | Drops \<Rightarrow> check_table_loop real_text exec t table db1)"
    "schema db1 = (schema db)(t := pass_table ?p)"
    using check_table_pass[OF assms(1) t] by blast
  show ?thesis
  proof (cases ?p)
    case Drops
    have "lower ''id'' = ''id''" by (simp add: lower_def less_eq_char_def)
    then have "pass_columns [(''id'', ''INTEGER'')] table = Keeps ((''id'', ''INTEGER'') # wanted table)"
      using pass_columns_new[of table "[(''id'', ''INTEGER'')]"] assms(2,3) by simp
    moreover have "schema db1 t = None" using db1(2) Drops by simp
    then have "old_columns (schema db1) t = [(''id'', ''INTEGER'')]" by (simp add: old_columns_def)
    moreover obtain db2 where
      "check_table_loop real_text exec t table db1 =
        (case pass_columns (old_columns (schema db1) t) table of
           Keeps _ \<Rightarrow> Some (0, db2) | Clashes _ \<Rightarrow> Some (- 1, db2) | Drops \<Rightarrow> check_table_loop real_text exec t table db2)"
      "schema db2 = (schema db1)(t := pass_table (pass_columns (old_columns (schema db1) t) table))"
      using check_table_pass[OF assms(1) t] by blast
    ultimately show ?thesis using db1 Drops by (intro exI[of _ db2]) simp
  qed (use db1 in \<open>auto intro!: exI[of _ db1]\<close>)
qed

text \<open>
  C30. \<open>checkTable\<close> returns, after at most one jump back, for every file and every table it may find. A file
  that cannot be opened gives -1 and leaves the database alone. Else, with the old columns (only \<open>id\<close> where
  there was no table): if a wanted column is there with another type before any trouble, the table is
  dropped with its rows, made anew with all wanted columns, and 0 returned; if a wanted column is missing
  but its name is there in other letters, SQLite refuses to add it, and -1 is returned with the columns
  that were added before it; else 0 is returned, the old columns stay in front and every wanted one is
  there with its type. The wanted columns are those of one table, differ in more than case and are not
  \<open>id\<close>, as in the four tables of the program.
\<close>
theorem checkTable_ends:
  fixes schema :: "'db \<Rightarrow> schema"
  assumes "schema_ok exec schema" "columns_distinct table" "table \<noteq> []"
    "\<forall>c \<in> set table. ti_tableName c = t \<and> lower (ti_columnName c) \<noteq> ''id''"
    "make_file io dbFile (CreatePath (f_opendir io) (f_mkdir io) dbFile fs) = (ok, fs')"
  shows "\<exists>db'. if \<not> ok then checkTable real_text io exec dbFile table fs db = Some (- 1, fs', db)
    else case pass_columns (old_columns (schema db) t) table of
      Keeps new \<Rightarrow> checkTable real_text io exec dbFile table fs db = Some (0, fs', db') \<and>
        schema db' = (schema db)(t := Some new) \<and> take (length (old_columns (schema db) t)) new = old_columns (schema db) t \<and> list_all (has_column new) table
    | Drops \<Rightarrow> checkTable real_text io exec dbFile table fs db = Some (0, fs', db') \<and>
        schema db' = (schema db)(t := Some ((''id'', ''INTEGER'') # wanted table))
    | Clashes new \<Rightarrow> checkTable real_text io exec dbFile table fs db = Some (- 1, fs', db') \<and>
        schema db' = (schema db)(t := Some new)"
proof -
  have hd: "ti_tableName (hd table) = t" using assms(3,4) by (cases table) auto
  have c: "checkTable real_text io exec dbFile table fs db =
      (if \<not> ok then Some (- 1, fs', db)
       else map_option (\<lambda>(ret, db'). (ret, fs', db')) (check_table_loop real_text exec t table db))"
    using assms(3,5) hd by (simp add: checkTable_def)
  show ?thesis
    using check_table_loop_ends[OF assms(1,2,4), where db = db and real_text = real_text] pass_columns_has[of "old_columns (schema db) t" table]
    unfolding c by (cases "pass_columns (old_columns (schema db) t) table") (auto simp: list_all_iff)
qed

text \<open>A database that has only its schema, for the witness.\<close>

fun schema_exec :: "schema exec" where
  "schema_exec (Create_table t) s =
     (s(t := Some (case s t of None \<Rightarrow> [(''id'', ''INTEGER'')] | Some cols \<Rightarrow> cols)), Some [])"
| "schema_exec (Table_info t) s = (s, map_option info_rows (s t))"
| "schema_exec (Drop_table t) s = (s(t := None), Some [])"
| "schema_exec (Add_column t c d) s =
     (case s t of None \<Rightarrow> (s, None)
      | Some cols \<Rightarrow>
          if lower c \<in> lower ` fst ` set cols then (s, None) else (s(t := Some (cols @ [(c, d)])), Some []))"
| "schema_exec stmt s = (s, None)"

lemma schema_exec_ok: "schema_ok schema_exec id"
  by (simp add: schema_ok_def)

definition old_schema :: schema where
  "old_schema = (\<lambda>t. None)(''associated_equip'' := Some [(''id'', ''INTEGER''), (''EquipType'', ''TEXT'')])"

definition files_there :: "unit files" where
  "files_there = \<lparr>f_opendir = (\<lambda>fs d. True), f_mkdir = (\<lambda>d fs. fs), f_access = (\<lambda>fs f. True),
     f_sqlite_open = (\<lambda>f fs. (False, fs))\<rparr>"

text \<open>A column of another type, and one that is there in other letters.\<close>

theorem checkTable_ends_witness:
  "checkTable (\<lambda>x. []) files_there schema_exec ''db'' associated_equip_table () old_schema =
    Some (0, (), old_schema(''associated_equip'' := Some [(''id'', ''INTEGER''), (''EquipType'', ''INTEGER''), (''EquipCode'', ''TEXT'')])) \<and>
   checkTable (\<lambda>x. []) files_there schema_exec ''db'' associated_equip_table ()
     (old_schema(''associated_equip'' := Some [(''equiptype'', ''INTEGER'')])) =
    Some (- 1, (), old_schema(''associated_equip'' := Some [(''equiptype'', ''INTEGER'')]))"
proof -
  have d: "columns_distinct associated_equip_table" "associated_equip_table \<noteq> []"
    by (simp_all add: columns_distinct_def associated_equip_table_def table_infos_def lower_def less_eq_char_def)
  have t: "\<forall>c \<in> set associated_equip_table. ti_tableName c = ''associated_equip'' \<and> lower (ti_columnName c) \<noteq> ''id''"
    by (simp add: associated_equip_table_def table_infos_def lower_def less_eq_char_def)
  have f: "make_file files_there ''db'' (CreatePath (f_opendir files_there) (f_mkdir files_there) ''db'' ()) = (True, ())"
    by (simp add: make_file_def files_there_def)
  have lowers: "lower ''EquipType'' = ''equiptype''" "lower ''EquipCode'' = ''equipcode''" "lower ''equiptype'' = ''equiptype''"
    "lower ''id'' = ''id''"
    by code_simp+
  have p: "pass_columns (old_columns (id old_schema) ''associated_equip'') associated_equip_table = Drops"
    "pass_columns (old_columns (id (old_schema(''associated_equip'' := Some [(''equiptype'', ''INTEGER'')]))) ''associated_equip'')
      associated_equip_table = Clashes [(''equiptype'', ''INTEGER'')]"
    by (simp_all add: old_columns_def old_schema_def associated_equip_table_def table_infos_def lowers)
  note c = checkTable_ends[where schema = id and real_text = "\<lambda>x. []", OF schema_exec_ok d t f]
  show ?thesis
    using c[of old_schema] c[of "old_schema(''associated_equip'' := Some [(''equiptype'', ''INTEGER'')])"] unfolding p
    by (auto simp: wanted_def associated_equip_table_def table_infos_def)
qed

section \<open>Settings read back\<close>

text \<open>A row inserted is what \<open>order by id desc limit 1\<close> then finds, with each column by its name.\<close>

definition keeps_row :: "'db exec \<Rightarrow> string \<Rightarrow> (string \<times> sql_value) list \<Rightarrow> string list \<Rightarrow> bool" where
  "keeps_row exec t row cols \<longleftrightarrow>
     (\<forall>db. \<exists>db' k. exec (Insert t row) db = (db', Some []) \<and>
        exec (Select_last t (''id'' # cols)) db' = (db', Some [SInt k # map (\<lambda>c. the (map_of row c)) cols]))"

lemma keeps_row_read:
  assumes "keeps_row exec t row (map fst cols)"
    "read_row (map snd cols) text_of (map (\<lambda>c. the (map_of row c)) (map fst cols)) a = (True, a')"
  shows "\<exists>db'. run_sql exec (Insert t row) db = (0, db') \<and>
    run_select exec (Select_last t (''id'' # map fst cols)) (\<lambda>row. read_row (map snd cols) text_of (drop 1 row)) a db' =
      (0, a', db')"
proof -
  obtain db' k where "exec (Insert t row) db = (db', Some [])"
    "exec (Select_last t (''id'' # map fst cols)) db' = (db', Some [SInt k # map (\<lambda>c. the (map_of row c)) (map fst cols)])"
    using assms(1) unfolding keeps_row_def by blast
  with assms(2) show ?thesis by (simp add: run_sql_def run_select_def)
qed

definition i32_range :: "int \<Rightarrow> bool" where
  "i32_range n \<longleftrightarrow> - (2 ^ 31) \<le> n \<and> n < 2 ^ 31"

lemma atoi_i32 [simp]: "i32_range n \<Longrightarrow> atoi (string_of_int n) = n"
  unfolding i32_range_def by (intro atoi_string_of_int) auto

definition BaseSet_ints :: "DBBaseSet \<Rightarrow> int list" where
  "BaseSet_ints b =
     [bs_Index b, bs_IsUploadToPlatform b, bs_Is4Gmodel b, bs_IsIllegalCapture b,
      bs_IsPrintIntersectionName b, bs_FilesServicePort b, bs_PlatformTcpPort b, bs_PlatformHttpPort b,
      bs_SignalMachinePort b, bs_IsUseSignalMachine b, bs_FusionMainboardPort b]"

definition Intersection_ints :: "DBIntersection \<Rightarrow> int list" where
  "Intersection_ints x =
     [is_Type x, is_LaneNumber x, is_FlagEast x, is_FlagSouth x, is_FlagWest x, is_FlagNorth x]"

text \<open>The real numbers of an intersection, each changed by \<open>f\<close>.\<close>

definition Intersection_reals :: "(real \<Rightarrow> real) \<Rightarrow> DBIntersection \<Rightarrow> DBIntersection" where
  "Intersection_reals f x = x\<lparr>is_XLength := f (is_XLength x), is_YLength := f (is_YLength x), is_DeltaXEast := f (is_DeltaXEast
       x), is_DeltaYEast := f (is_DeltaYEast x), is_DeltaXSouth := f (is_DeltaXSouth x), is_DeltaYSouth :=
       f (is_DeltaYSouth x), is_DeltaXWest := f (is_DeltaXWest x), is_DeltaYWest := f (is_DeltaYWest x),
       is_DeltaXNorth := f (is_DeltaXNorth x), is_DeltaYNorth := f (is_DeltaYNorth x), is_WidthX := f
       (is_WidthX x), is_WidthY := f (is_WidthY x)\<rparr>"

lemma BaseSet_read:
  assumes "list_all i32_range (BaseSet_ints b)"
  shows "read_row (map snd BaseSet_columns) (value_text rt)
    (map (\<lambda>c. the (map_of (BaseSet_row b) c)) (map fst BaseSet_columns)) b0 = (True, b\<lparr>bs_id := bs_id b0\<rparr>)"
  using assms by (simp add: BaseSet_columns_def BaseSet_row_def BaseSet_ints_def)

lemma Intersection_read:
  assumes "list_all i32_range (Intersection_ints x)"
  shows "read_row (map snd (Intersection_columns strtof)) (value_text rt)
    (map (\<lambda>c. the (map_of (Intersection_row x) c)) (map fst (Intersection_columns strtof))) x0 =
      (True, (Intersection_reals (strtof \<circ> rt) x)\<lparr>is_id := is_id x0\<rparr>)"
  using assms
  by (simp add: Intersection_columns_def Intersection_row_def Intersection_ints_def Intersection_reals_def)

text \<open>
  C31. The base settings and the intersection that are inserted are what the start of the program selects:
  the columns are in the same order in the statements and in the reading code, and every number and
  text comes back, only the real numbers through their text and \<open>strtof\<close>. Only the \<open>id\<close> is not read.
\<close>
theorem settings_read_back:
  assumes "keeps_row exec ''base_set'' (BaseSet_row b) (map fst BaseSet_columns)"
    "keeps_row exec ''belong_intersection'' (Intersection_row x) (map fst (Intersection_columns strtof))"
    "list_all i32_range (BaseSet_ints b @ Intersection_ints x)"
  shows "(\<exists>db'. BaseSet_insertToDB exec b db = (0, db') \<and>
      BaseSet_selectFromDB rt exec b0 db' = (0, b\<lparr>bs_id := bs_id b0\<rparr>, db')) \<and>
    (\<exists>db'. Intersection_insertToDB exec x db = (0, db') \<and>
      Intersection_selectFromDB rt strtof exec x0 db' =
        (0, (Intersection_reals (strtof \<circ> rt) x)\<lparr>is_id := is_id x0\<rparr>, db'))"
proof -
  have r: "list_all i32_range (BaseSet_ints b)" "list_all i32_range (Intersection_ints x)" using assms(3) by simp_all
  show ?thesis
    unfolding BaseSet_insertToDB_def BaseSet_selectFromDB_def Intersection_insertToDB_def Intersection_selectFromDB_def
    by (intro conjI keeps_row_read assms BaseSet_read Intersection_read r)
qed

text \<open>A database that has only its rows, for the witness.\<close>

type_synonym rows_db = "string \<Rightarrow> (string \<times> sql_value) list list"

fun rows_exec :: "rows_db exec" where
  "rows_exec (Insert t row) db = (db(t := db t @ [row]), Some [])"
| "rows_exec (Delete_all t) db = (db(t := []), Some [])"
| "rows_exec (Select_last t cols) db =
     (db, Some (if db t = [] then []
        else [map (\<lambda>c. if c = ''id'' then SInt (int (length (db t))) else the (map_of (last (db t)) c)) cols]))"
| "rows_exec stmt db = (db, None)"

lemma rows_exec_keeps: "''id'' \<notin> set cols \<Longrightarrow> keeps_row rows_exec t row cols"
  unfolding keeps_row_def
proof (intro allI exI conjI)
  fix db
  assume "''id'' \<notin> set cols"
  then show "rows_exec (Select_last t (''id'' # cols)) (db(t := db t @ [row])) =
    (db(t := db t @ [row]), Some [SInt (int (Suc (length (db t)))) # map (\<lambda>c. the (map_of row c)) cols])"
    by (auto intro: map_cong)
  show "rows_exec (Insert t row) db = (db(t := db t @ [row]), Some [])" by simp
qed

definition BaseSet_demo :: DBBaseSet where
  "BaseSet_demo =
    \<lparr>bs_id = 5, bs_Index = 8, bs_City = ''Cit'', bs_IsUploadToPlatform = 21, bs_Is4Gmodel = 12,
     bs_IsIllegalCapture = 19, bs_IsPrintIntersectionName = 26, bs_FilesServicePath = ''Fil'',
     bs_FilesServicePort = 19, bs_MainDNS = ''Mai'', bs_AlternateDNS = ''Alt'', bs_PlatformTcpPath =
     ''Pla'', bs_PlatformTcpPort = 18, bs_PlatformHttpPath = ''Pla'', bs_PlatformHttpPort = 19,
     bs_SignalMachinePath = ''Sig'', bs_SignalMachinePort = 20, bs_IsUseSignalMachine = 21,
     bs_NtpServerPath = ''Ntp'', bs_FusionMainboardIp = ''Fus'', bs_FusionMainboardPort = 22,
     bs_IllegalPlatformAddress = ''Ill'', bs_Remarks = ''Rem''\<rparr>"

definition Intersection_demo :: DBIntersection where
  "Intersection_demo =
    \<lparr>is_id = 5, is_Guid = ''Gui'', is_Name = ''Nam'', is_Type = 7, is_PlatId = ''Pla'', is_XLength = 10 /
     2, is_YLength = 10 / 2, is_LaneNumber = 13, is_Latitude = ''Lat'', is_Longitude = ''Lon'',
     is_FlagEast = 11, is_FlagSouth = 12, is_FlagWest = 11, is_FlagNorth = 12, is_DeltaXEast = 13 / 2,
     is_DeltaYEast = 13 / 2, is_DeltaXSouth = 14 / 2, is_DeltaYSouth = 14 / 2, is_DeltaXWest = 13 / 2,
     is_DeltaYWest = 13 / 2, is_DeltaXNorth = 14 / 2, is_DeltaYNorth = 14 / 2, is_WidthX = 9 / 2,
     is_WidthY = 9 / 2\<rparr>"

theorem settings_read_back_witness:
  "\<exists>db'. BaseSet_insertToDB rows_exec BaseSet_demo (\<lambda>t. []) = (0, db') \<and>
    BaseSet_selectFromDB (\<lambda>x. []) rows_exec (BaseSet_demo\<lparr>bs_City := []\<rparr>) db' = (0, BaseSet_demo, db')"
proof -
  have "keeps_row rows_exec ''base_set'' (BaseSet_row BaseSet_demo) (map fst BaseSet_columns)"
    by (rule rows_exec_keeps) (simp add: BaseSet_columns_def)
  moreover have "keeps_row rows_exec ''belong_intersection'' (Intersection_row Intersection_demo)
      (map fst (Intersection_columns (\<lambda>t. 1 / 2)))"
    by (rule rows_exec_keeps) (simp add: Intersection_columns_def)
  moreover have "list_all i32_range (BaseSet_ints BaseSet_demo @ Intersection_ints Intersection_demo)"
    by (simp add: i32_range_def BaseSet_ints_def Intersection_ints_def BaseSet_demo_def Intersection_demo_def)
  ultimately have "\<exists>db'. BaseSet_insertToDB rows_exec BaseSet_demo (\<lambda>t. []) = (0, db') \<and>
    BaseSet_selectFromDB (\<lambda>x. []) rows_exec (BaseSet_demo\<lparr>bs_City := []\<rparr>) db' =
      (0, BaseSet_demo\<lparr>bs_id := bs_id (BaseSet_demo\<lparr>bs_City := []\<rparr>)\<rparr>, db')"
    by (rule settings_read_back[THEN conjunct1])
  then show ?thesis by simp
qed

end
