(* ===== verification/Eoc.thy ===== *)
theory Eoc
  imports ConfigDb Queues
begin

text \<open>
  The client of the configuration centre: \<open>eocCom/EOCCom.cpp\<close> with the messages of \<open>EOCJSON.h\<close>, the
  globals of \<open>DBCom.cpp\<close> and the start-up of \<open>eoc/Eoc.cpp\<close>. Three threads share one \<open>EOCCom\<close>: \<open>getPkgs\<close>
  cuts the received bytes into messages, \<open>proPkgs\<close> processes one message at a time, \<open>intervalPro\<close> makes a
  round every ten seconds; a detached thread downloads a file. A step of the model is the work of one of
  them for one byte, one message, one round or one download, on the shared state.

  Parameters, in one environment per step: JSON encoding and decoding (xpack; \<open>None\<close> is the exception
  that every handler catches), SQLite, the clock, uuids, the TLS connection's \<open>Write\<close>, the update file and
  the system's measurements. Waiting and logging are left out.
\<close>

section \<open>Messages from the centre\<close>

record IntersectionBaseSettingEntity =
  ib_FlagEast :: int
  ib_FlagSouth :: int
  ib_FlagWest :: int
  ib_FlagNorth :: int
  ib_DeltaXEast :: real
  ib_DeltaYEast :: real
  ib_DeltaXSouth :: real
  ib_DeltaYSouth :: real
  ib_DeltaXWest :: real
  ib_DeltaYWest :: real
  ib_DeltaXNorth :: real
  ib_DeltaYNorth :: real
  ib_WidthX :: real
  ib_WidthY :: real

record IntersectionEntity =
  ie_Guid :: string
  ie_Name :: string
  ie_Type :: int
  ie_PlatId :: string
  ie_XLength :: real
  ie_YLength :: real
  ie_LaneNumber :: int
  ie_Latitude :: string
  ie_longitude :: string
  ie_IntersectionBaseSetting :: IntersectionBaseSettingEntity

record BaseSettingEntity =
  be_City :: string
  be_IsUploadToPlatform :: int
  be_Is4Gmodel :: int
  be_IsIllegalCapture :: int
  be_IsPrintIntersectionName :: int
  be_Remarks :: string
  be_FilesServicePath :: string
  be_FilesServicePort :: int
  be_MainDNS :: string
  be_AlternateDNS :: string
  be_PlatformTcpPath :: string
  be_PlatformTcpPort :: int
  be_PlatformHttpPath :: string
  be_PlatformHttpPort :: int
  be_SignalMachinePath :: string
  be_SignalMachinePort :: int
  be_IsUseSignalMachine :: int
  be_NtpServerPath :: string
  be_IllegalPlatformAddress :: string
  be_FusionMainboardIp :: string
  be_FusionMainboardPort :: int

record FusionParaEntity =
  fe_IntersectionAreaPoint1X :: real
  fe_IntersectionAreaPoint1Y :: real
  fe_IntersectionAreaPoint2X :: real
  fe_IntersectionAreaPoint2Y :: real
  fe_IntersectionAreaPoint3X :: real
  fe_IntersectionAreaPoint3Y :: real
  fe_IntersectionAreaPoint4X :: real
  fe_IntersectionAreaPoint4Y :: real

record AssociatedEquip =
  aq_EquipType :: int
  aq_EquipCode :: string

record StartEndTime =
  se_StartTime :: string
  se_EndTime :: string

record RelatedAreaParamsContent =
  rp_PersonCount :: int
  rp_Duration :: int

record RuleDetail =
  rd_StartDay :: string
  rd_EndDay :: string
  rd_StartEndTimes :: "StartEndTime list"
  rd_DayOfWeeks :: "int list"
  rd_ParamsEnableIndex :: int
  rd_Params :: RelatedAreaParamsContent

record AreaRule_t =
  ar_Name :: string
  ar_EventType :: int
  ar_Content :: "RuleDetail list"
  ar_Remark :: string

record RelatedArea_t =
  ra_IntersectionGuid :: string
  ra_Name :: string
  ra_PavementGuid :: string
  ra_PavementGuid2 :: string
  ra_PavementName :: string
  ra_PavementName2 :: string
  ra_AreaGuid :: string
  ra_AreaGuid2 :: string
  ra_AreaName :: string
  ra_AreaName2 :: string
  ra_Type :: int
  ra_AreaRule :: AreaRule_t

text \<open>The parameters of the fusion algorithm (\<open>lib/AlgorithmParam.h\<close>) are copied as they are: a type \<open>'alg\<close>.\<close>

record 'alg DataR102 =
  dr_DataVersion :: string
  dr_IntersectionInfo :: IntersectionEntity
  dr_Index :: int
  dr_BaseSetting :: BaseSettingEntity
  dr_AssociatedEquips :: "AssociatedEquip list"
  dr_FusionParas :: 'alg
  dr_RelatedAreas :: "RelatedArea_t list"

record 'alg R102 =
  r2_Guid :: string
  r2_Data :: "'alg DataR102"

record R106 =
  r6_Guid :: string
  r6_FileName :: string
  r6_FileSize :: string
  r6_FileVersion :: string
  r6_DownloadPath :: string
  r6_FileMD5 :: string

record R107 =
  r7_Guid :: string
  r7_FileName :: string
  r7_FileVersion :: string
  r7_UpgradeMode :: int
  r7_FileMD5 :: string
  r7_CurrentSoftVersion :: string
  r7_HardwareVersion :: string

section \<open>Messages to the centre\<close>

record DataS101 =
  d1_EquipNumber :: string
  d1_EquipIp :: string
  d1_EquipType :: string
  d1_SoftVersion :: string
  d1_DataVersion :: string

record PartsState_t =
  pt_State :: int
  pt_Size :: int
  pt_ResidualSize :: int

record MainBoardState_t =
  mb_MainboardGuid :: string
  mb_State :: int
  mb_CpuState :: int
  mb_CpuUtilizationRatio :: real
  mb_CpuTemperature :: real
  mb_MemorySize :: int
  mb_ResidualMemorySize :: int
  mb_ModelVersion :: string
  mb_MainboardType :: string
  mb_TFCardStates :: "PartsState_t list"
  mb_EmmcStates :: "PartsState_t list"
  mb_ExternalHardDisk :: "PartsState_t list"

text \<open>Every message has the version and the guid; the code is the name of its constructor.\<close>

datatype eoc_msg =
    S100 string string
  | S101 string string DataS101
  | S102 string string int string
  | S103 string string MainBoardState_t
  | S104 string string string
  | S105 string string int int
  | S106 string string int int int string
  | S107 string string int int int string

section \<open>State\<close>

datatype EocDownloadStatus =
    DOWNLOAD_IDLE | DOWNLOAD_RUNNING | DOWNLOAD_FINISHED | DOWNLOAD_FILE_NOT_EXIST | DOWNLOAD_TIMEOUT
  | DOWNLOAD_SPACE_NOT_ENOUGH | DOWNLOAD_MD5_FAILD | DOWNLOAD_WATI_UPGRADE

datatype EocUpgradeDevType = EOC_UPGRADE_PARKINGAREA | EOC_UPGRADE_CAMARA | EOC_UPGRADE_CONTROLLER

datatype EOCCLOUD_TASK = SYS_REBOOT | GET_PK_RULE | GET_ILLEGAL_PK_RULE | UPLOAD_LOG_INFO | AUTO_UPGRADE

text \<open>Of a device only the fields that are ever set, of a download all but the thread's id.\<close>

record EocUpgradeDev =
  ud_dev_guid :: string
  ud_dev_ip :: string
  ud_dev_type :: EocUpgradeDevType
  ud_comm_guid :: string

record EocDownloadsMsg =
  dm_upgrade_dev :: "EocUpgradeDev list"
  dm_download_status :: EocDownloadStatus
  dm_download_url :: string
  dm_download_file_name :: string
  dm_download_file_size :: int
  dm_download_file_md5 :: string

text \<open>
  \<open>eo_content\<close> and \<open>eo_version\<close> are local variables of \<open>getPkgs\<close> and \<open>intervalPro\<close>; \<open>eo_sent\<close> holds the bodies
  that were passed to \<open>Write\<close>, \<open>eo_files\<close> the text files written, \<open>eo_update\<close> the MD5 of the update file if
  there is one, \<open>eo_commands\<close> the commands of an upgrade, and \<open>eo_exited\<close> that the process has called \<open>exit\<close>.
\<close>

record 'db EOCCom =
  eo_isLive :: bool
  eo_businessStart :: bool
  eo_pkgs :: "string queue"
  eo_isLogIn :: bool
  eo_heartFlag :: int
  eo_last_login_t :: int
  eo_last_send_heart_t :: int
  eo_last_send_net_state_t :: int
  eo_last_get_config_t :: int
  eo_last_send_state_t :: int
  eo_sendNetTotal :: int
  eo_sendNetSuccess :: int
  eo_downloads_msg :: "EocDownloadsMsg list"
  eo_task :: "EOCCLOUD_TASK list"
  eo_content :: string
  eo_version :: string
  eo_sent :: "string list"
  eo_files :: "(string \<times> string) list"
  eo_db :: 'db
  eo_update :: "string option"
  eo_commands :: "string list"
  eo_exited :: bool

text \<open>
  A transfer: whether the file and the library could be opened, the result of the library with the HTTP
  code, and the MD5 of what is then in the file.
\<close>

datatype curl_result = CURLE_OK | CURLE_OPERATION_TIMEDOUT | CURLE_WRITE_ERROR | CURLE_OTHER

record curl_env =
  cu_open :: bool
  cu_init :: bool
  cu_res :: curl_result
  cu_http :: int
  cu_md5 :: string

record ('db, 'alg) eoc_env =
  ee_write :: "nat \<Rightarrow> string \<Rightarrow> int"
  ee_encode :: "eoc_msg \<Rightarrow> string"
  ee_code :: "string \<Rightarrow> string option"
  ee_R100 :: "string \<Rightarrow> bool"
  ee_R101 :: "string \<Rightarrow> int option"
  ee_R102 :: "string \<Rightarrow> 'alg R102 option"
  ee_R104 :: "string \<Rightarrow> bool"
  ee_R106 :: "string \<Rightarrow> R106 option"
  ee_R107 :: "string \<Rightarrow> R107 option"
  ee_alg_json :: "'alg \<Rightarrow> string"
  ee_areas_json :: "RelatedArea_t list \<Rightarrow> string"
  ee_format :: "string \<Rightarrow> string"
  ee_open :: "string \<Rightarrow> bool"
  ee_exec :: "'db exec"
  ee_real_text :: "real \<Rightarrow> string"
  ee_time :: string
  ee_uuid :: string
  ee_uname :: "string option"
  ee_eth_ip :: string
  ee_n2n_ip :: string
  ee_mac :: string
  ee_build :: string
  ee_cpu :: "real \<times> real"
  ee_memory :: "int \<times> int"
  ee_dirInfo :: "string \<Rightarrow> int \<times> int"
  ee_net_total :: int
  ee_net_success :: int
  ee_cmd :: "string \<Rightarrow> int"
  ee_remove :: bool
  ee_cwd :: string
  ee_curl :: "string \<Rightarrow> curl_env"

definition COMVersion :: string where "COMVersion = ''V1.0.0''"
definition UPDATEFILE :: string where "UPDATEFILE = ''zkj_update.tar.gz''"

text \<open>Sending a message: the JSON text and a star. The result of \<open>Write\<close> is negative when it failed.\<close>

definition eoc_body :: "('db, 'alg) eoc_env \<Rightarrow> eoc_msg \<Rightarrow> string" where
  "eoc_body e m = ee_encode e m @ ''*''"

definition eoc_write :: "('db, 'alg) eoc_env \<Rightarrow> eoc_msg \<Rightarrow> 'db EOCCom \<Rightarrow> int \<times> 'db EOCCom" where
  "eoc_write e m s =
     (ee_write e (length (eo_sent s)) (eoc_body e m), s\<lparr>eo_sent := eo_sent s @ [eoc_body e m]\<rparr>)"

text \<open>The handlers only log a failure; the rounds also give the connection up.\<close>

definition eoc_reply :: "('db, 'alg) eoc_env \<Rightarrow> eoc_msg \<Rightarrow> 'db EOCCom \<Rightarrow> 'db EOCCom" where
  "eoc_reply e m s = snd (eoc_write e m s)"

definition eoc_send :: "('db, 'alg) eoc_env \<Rightarrow> eoc_msg \<Rightarrow> 'db EOCCom \<Rightarrow> 'db EOCCom" where
  "eoc_send e m s = (case eoc_write e m s of (len, s') \<Rightarrow> if len < 0 then s'\<lparr>eo_isLive := False\<rparr> else s')"

section \<open>Cutting the stream\<close>

definition getPkgs_byte :: "char \<Rightarrow> 'db EOCCom \<Rightarrow> 'db EOCCom" where
  "getPkgs_byte value s =
     (if value = CHR ''*'' then s\<lparr>eo_pkgs := snd (queue_push (eo_content s) (eo_pkgs s)), eo_content := []\<rparr>
      else s\<lparr>eo_content := eo_content s @ [value]\<rparr>)"

definition getPkgs :: "string \<Rightarrow> 'db EOCCom \<Rightarrow> 'db EOCCom" where
  "getPkgs bytes s = fold getPkgs_byte bytes s"

section \<open>Configuration from the centre\<close>

definition convertBaseSetS2DB :: "BaseSettingEntity \<Rightarrow> int \<Rightarrow> DBBaseSet \<Rightarrow> DBBaseSet" where
  "convertBaseSetS2DB i index out = out
     \<lparr>bs_Index := index, bs_City := be_City i, bs_IsUploadToPlatform := be_IsUploadToPlatform i,
      bs_Is4Gmodel := be_Is4Gmodel i, bs_IsIllegalCapture := be_IsIllegalCapture i,
      bs_IsPrintIntersectionName := be_IsPrintIntersectionName i, bs_FilesServicePath := be_FilesServicePath i,
      bs_FilesServicePort := be_FilesServicePort i, bs_MainDNS := be_MainDNS i, bs_AlternateDNS := be_AlternateDNS i,
      bs_PlatformTcpPath := be_PlatformTcpPath i, bs_PlatformTcpPort := be_PlatformTcpPort i,
      bs_PlatformHttpPath := be_PlatformHttpPath i, bs_PlatformHttpPort := be_PlatformHttpPort i,
      bs_SignalMachinePath := be_SignalMachinePath i, bs_SignalMachinePort := be_SignalMachinePort i,
      bs_IsUseSignalMachine := be_IsUseSignalMachine i, bs_NtpServerPath := be_NtpServerPath i,
      bs_FusionMainboardIp := be_FusionMainboardIp i, bs_FusionMainboardPort := be_FusionMainboardPort i,
      bs_IllegalPlatformAddress := be_IllegalPlatformAddress i, bs_Remarks := be_Remarks i\<rparr>"

definition convertIntersectionS2DB :: "IntersectionEntity \<Rightarrow> DBIntersection \<Rightarrow> DBIntersection" where
  "convertIntersectionS2DB i out =
     (let b = ie_IntersectionBaseSetting i in out
     \<lparr>is_Guid := ie_Guid i, is_Name := ie_Name i, is_Type := ie_Type i, is_PlatId := ie_PlatId i,
      is_XLength := ie_XLength i, is_YLength := ie_YLength i, is_LaneNumber := ie_LaneNumber i,
      is_Latitude := ie_Latitude i, is_Longitude := ie_longitude i,
      is_FlagEast := ib_FlagEast b, is_FlagSouth := ib_FlagSouth b, is_FlagWest := ib_FlagWest b,
      is_FlagNorth := ib_FlagNorth b, is_DeltaXEast := ib_DeltaXEast b, is_DeltaYEast := ib_DeltaYEast b,
      is_DeltaXSouth := ib_DeltaXSouth b, is_DeltaYSouth := ib_DeltaYSouth b, is_DeltaXWest := ib_DeltaXWest b,
      is_DeltaYWest := ib_DeltaYWest b, is_DeltaXNorth := ib_DeltaXNorth b, is_DeltaYNorth := ib_DeltaYNorth b,
      is_WidthX := ib_WidthX b, is_WidthY := ib_WidthY b\<rparr>)"

definition convertFusion_Para_SetS2DB :: "FusionParaEntity \<Rightarrow> DBFusionParaSet \<Rightarrow> DBFusionParaSet" where
  "convertFusion_Para_SetS2DB i out = out
     \<lparr>fp_IntersectionAreaPoint1X := fe_IntersectionAreaPoint1X i, fp_IntersectionAreaPoint1Y := fe_IntersectionAreaPoint1Y i,
      fp_IntersectionAreaPoint2X := fe_IntersectionAreaPoint2X i, fp_IntersectionAreaPoint2Y := fe_IntersectionAreaPoint2Y i,
      fp_IntersectionAreaPoint3X := fe_IntersectionAreaPoint3X i, fp_IntersectionAreaPoint3Y := fe_IntersectionAreaPoint3Y i,
      fp_IntersectionAreaPoint4X := fe_IntersectionAreaPoint4X i, fp_IntersectionAreaPoint4Y := fe_IntersectionAreaPoint4Y i\<rparr>"

definition convertAssociated_EquipS2DB :: "AssociatedEquip \<Rightarrow> DBAssociatedEquip \<Rightarrow> DBAssociatedEquip" where
  "convertAssociated_EquipS2DB i out = out\<lparr>ae_EquipType := aq_EquipType i, ae_EquipCode := aq_EquipCode i\<rparr>"

text \<open>The objects a handler fills are new and not initialised; every field that is written to the database is set.\<close>

definition DBBaseSet_new :: DBBaseSet where
  "DBBaseSet_new =
    \<lparr>bs_id = 0, bs_Index = 0, bs_City = [], bs_IsUploadToPlatform = 0, bs_Is4Gmodel = 0, bs_IsIllegalCapture = 0,
     bs_IsPrintIntersectionName = 0, bs_FilesServicePath = [], bs_FilesServicePort = 0, bs_MainDNS = [],
     bs_AlternateDNS = [], bs_PlatformTcpPath = [], bs_PlatformTcpPort = 0, bs_PlatformHttpPath = [],
     bs_PlatformHttpPort = 0, bs_SignalMachinePath = [], bs_SignalMachinePort = 0, bs_IsUseSignalMachine = 0,
     bs_NtpServerPath = [], bs_FusionMainboardIp = [], bs_FusionMainboardPort = 0,
     bs_IllegalPlatformAddress = [], bs_Remarks = []\<rparr>"

definition DBIntersection_new :: DBIntersection where
  "DBIntersection_new =
    \<lparr>is_id = 0, is_Guid = [], is_Name = [], is_Type = 0, is_PlatId = [], is_XLength = 0, is_YLength = 0,
     is_LaneNumber = 0, is_Latitude = [], is_Longitude = [], is_FlagEast = 0, is_FlagSouth = 0, is_FlagWest = 0,
     is_FlagNorth = 0, is_DeltaXEast = 0, is_DeltaYEast = 0, is_DeltaXSouth = 0, is_DeltaYSouth = 0,
     is_DeltaXWest = 0, is_DeltaYWest = 0, is_DeltaXNorth = 0, is_DeltaYNorth = 0, is_WidthX = 0, is_WidthY = 0\<rparr>"

definition DBAssociatedEquip_new :: DBAssociatedEquip where
  "DBAssociatedEquip_new = \<lparr>ae_id = 0, ae_EquipType = 0, ae_EquipCode = []\<rparr>"

text \<open>The two tables that are emptied and get one row; the result so far is \<open>-1\<close> after a failed insertion.\<close>

definition replace_row :: "('db \<Rightarrow> int \<times> 'db) \<Rightarrow> ('db \<Rightarrow> int \<times> 'db) \<Rightarrow> int \<times> 'db \<Rightarrow> int \<times> 'db" where
  "replace_row delete insert_row = (\<lambda>(result, db).
     case insert_row (snd (delete db)) of (ret, db') \<Rightarrow> (if ret = 0 then result else - 1, db'))"

fun insert_equips :: "'db exec \<Rightarrow> AssociatedEquip list \<Rightarrow> int \<times> 'db \<Rightarrow> int \<times> 'db" where
  "insert_equips exec [] st = st"
| "insert_equips exec (i # is) (result, db) =
     (case AssociatedEquip_insertToDB exec (convertAssociated_EquipS2DB i DBAssociatedEquip_new) db of
        (ret, db') \<Rightarrow> insert_equips exec is (if ret = 0 then result else - 1, db'))"

definition write_json :: "('db, 'alg) eoc_env \<Rightarrow> string \<Rightarrow> string \<Rightarrow> 'db EOCCom \<Rightarrow> 'db EOCCom" where
  "write_json e file json s =
     (if json = [] \<or> \<not> ee_open e file then s
      else s\<lparr>eo_files := (file, ee_format e json) # filter (\<lambda>p. fst p \<noteq> file) (eo_files s)\<rparr>)"

definition write_settings :: "'db exec \<Rightarrow> 'alg DataR102 \<Rightarrow> 'db \<Rightarrow> int \<times> 'db" where
  "write_settings exec d db =
     (let st1 = replace_row (BaseSet_deleteFromDB exec)
                  (BaseSet_insertToDB exec (convertBaseSetS2DB (dr_BaseSetting d) (dr_Index d) DBBaseSet_new)) (0, db);
          st2 = replace_row (Intersection_deleteFromDB exec)
                  (Intersection_insertToDB exec (convertIntersectionS2DB (dr_IntersectionInfo d) DBIntersection_new)) st1;
          st3 = (fst st2, snd (AssociatedEquip_deleteAllFromDB exec (snd st2)))
      in insert_equips exec (dr_AssociatedEquips d) st3)"

definition write_version :: "'db exec \<Rightarrow> string \<Rightarrow> string \<Rightarrow> int \<times> 'db \<Rightarrow> int \<times> 'db" where
  "write_version exec version time st =
     (if version = [] then st
      else replace_row (DataVersion_deleteFromDB exec)
             (DataVersion_insertToDB exec \<lparr>dv_id = 0, dv_version = version, dv_time = time\<rparr>) st)"

definition processR102 :: "('db, 'alg) eoc_env \<Rightarrow> string \<Rightarrow> 'db EOCCom \<Rightarrow> 'db EOCCom" where
  "processR102 e content s =
     (case ee_R102 e content of
        None \<Rightarrow> s
      | Some data \<Rightarrow>
          (let d = r2_Data data;
               st1 = write_settings (ee_exec e) d (eo_db s);
               s1 = write_json e ''relatedAreas.json'' (ee_areas_json e (dr_RelatedAreas d))
                      (write_json e ''algorithm.json'' (ee_alg_json e (dr_FusionParas d)) s);
               (result, db') = write_version (ee_exec e) (dr_DataVersion d) (ee_time e) st1;
               s2 = s1\<lparr>eo_db := db'\<rparr>
           in if result \<noteq> 0 then eoc_reply e (S102 COMVersion (r2_Guid data) 0 ''fail'') s2
              else let s3 = eoc_reply e (S102 COMVersion (r2_Guid data) 1 ''ok'') s2
                   in s3\<lparr>eo_task := eo_task s3 @ [SYS_REBOOT]\<rparr>))"

definition processR104 :: "('db, 'alg) eoc_env \<Rightarrow> string \<Rightarrow> 'db EOCCom \<Rightarrow> 'db EOCCom" where
  "processR104 e content s = (if ee_R104 e content then processR102 e content s else s)"

section \<open>Heartbeat and login\<close>

definition processR100 :: "('db, 'alg) eoc_env \<Rightarrow> string \<Rightarrow> 'db EOCCom \<Rightarrow> 'db EOCCom" where
  "processR100 e content s = (if ee_R100 e content then s\<lparr>eo_heartFlag := 0\<rparr> else s)"

definition processR101 :: "('db, 'alg) eoc_env \<Rightarrow> string \<Rightarrow> 'db EOCCom \<Rightarrow> 'db EOCCom" where
  "processR101 e content s =
     (case ee_R101 e content of
        None \<Rightarrow> s
      | Some state \<Rightarrow> if state = 1 then s\<lparr>eo_isLogIn := True\<rparr> else s)"

section \<open>Downloads\<close>

text \<open>The texts of the replies that are not ASCII, as the bytes of the source.\<close>

definition msg_done :: string where
  "msg_done = map char_of [0xe4, 0xb8, 0x8b, 0xe8, 0xbd, 0xbd, 0xe5, 0xae, 0x8c, 0xe6, 0x88, 0x90, 32, 77, 68, 53, 32, 79, 75 :: nat]"

definition msg_no_file :: string where
  "msg_no_file = map char_of [0xe4, 0xb8, 0x8b, 0xe8, 0xbd, 0xbd, 0xe6, 0x96, 0x87, 0xe4, 0xbb, 0xb6, 0xe4, 0xb8, 0x8d, 0xe5,
     0xad, 0x98, 0xe5, 0x9c, 0xa8 :: nat]"

definition msg_timeout :: string where
  "msg_timeout = map char_of [0xe4, 0xb8, 0x8b, 0xe8, 0xbd, 0xbd, 0xe8, 0xb6, 0x85, 0xe6, 0x97, 0xb6 :: nat]"

definition msg_space :: string where
  "msg_space = map char_of [0xe6, 0x9c, 0xac, 0xe5, 0x9c, 0xb0, 0xe5, 0x89, 0xa9, 0xe4, 0xbd, 0x99, 0xe7, 0xa9, 0xba, 0xe9,
     0x97, 0xb4, 0xe4, 0xb8, 0x8d, 0xe8, 0xb6, 0xb3 :: nat]"

definition msg_md5 :: string where
  "msg_md5 = map char_of [77, 68, 53, 0xe6, 0xa0, 0xa1, 0xe9, 0xaa, 0x8c, 0xe5, 0xa4, 0xb1, 0xe8, 0xb4, 0xa5 :: nat]"

definition msg_command :: string where
  "msg_command = map char_of [0xe6, 0x8e, 0xa5, 0xe6, 0x94, 0xb6, 0xe5, 0x88, 0xb0, 0xe5, 0x8d, 0x87, 0xe7, 0xba, 0xa7, 0xe5,
     0x91, 0xbd, 0xe4, 0xbb, 0xa4 :: nat]"

definition msg_missing :: string where
  "msg_missing = map char_of [0xe6, 0x96, 0x87, 0xe4, 0xbb, 0xb6, 0xe4, 0xb8, 0x8d, 0xe5, 0xad, 0x98, 0xe5, 0x9c, 0xa8 :: nat]"

definition msg_checked :: string where
  "msg_checked = map char_of [0xe6, 0xa0, 0xa1, 0xe9, 0xaa, 0x8c, 0xe5, 0xae, 0x8c, 0xe6, 0x88, 0x90, 0xe5, 0xbc, 0x80, 0xe5,
     0xa7, 0x8b, 0xe5, 0x8d, 0x87, 0xe7, 0xba, 0xa7 :: nat]"

definition msg_unpack :: string where
  "msg_unpack = map char_of [0xe8, 0xa7, 0xa3, 0xe5, 0x8e, 0x8b, 0xe7, 0xbc, 0xa9, 0xe5, 0xa4, 0xb1, 0xe8, 0xb4, 0xa5 :: nat]"

definition msg_upgraded :: string where
  "msg_upgraded = map char_of [0xe5, 0x8d, 0x87, 0xe7, 0xba, 0xa7, 0xe5, 0xae, 0x8c, 0xe6, 0x88, 0x90 :: nat]"

text \<open>\<open>downloadFile\<close>: its result, and the MD5 of the file it has written.\<close>

definition downloadFile :: "curl_env \<Rightarrow> string \<Rightarrow> int \<times> string option" where
  "downloadFile c fileMD5 =
     (if \<not> cu_open c then (- 3, None)
      else if \<not> cu_init c then (0, Some (cu_md5 c))
      else (if cu_res c = CURLE_OK \<and> cu_http c = 200 then if cu_md5 c \<noteq> fileMD5 then - 4 else 0
            else if cu_res c = CURLE_OPERATION_TIMEDOUT then - 2
            else if cu_res c = CURLE_WRITE_ERROR then - 3 else - 1, Some (cu_md5 c)))"

definition download_status :: "int \<Rightarrow> EocDownloadStatus \<Rightarrow> EocDownloadStatus" where
  "download_status result status =
     (if result = 0 then DOWNLOAD_FINISHED else if result = - 1 then DOWNLOAD_FILE_NOT_EXIST
      else if result = - 2 then DOWNLOAD_TIMEOUT else if result = - 3 then DOWNLOAD_SPACE_NOT_ENOUGH
      else if result = - 4 then DOWNLOAD_MD5_FAILD else status)"

definition updateFileName :: "EocDownloadsMsg \<Rightarrow> string" where
  "updateFileName d =
     (case dm_upgrade_dev d of
        [] \<Rightarrow> UPDATEFILE
      | u # us \<Rightarrow> if ud_dev_type u = EOC_UPGRADE_PARKINGAREA then UPDATEFILE
                 else dm_download_file_md5 d @ ''_'' @ dm_download_file_name d)"

text \<open>
  The download thread, which fetches every entry with its link. It works on the vector that the two
  other threads change, without a lock; the step is a run in which they do not.
\<close>

fun download_from ::
  "('db, 'alg) eoc_env \<Rightarrow> string \<Rightarrow> EocDownloadsMsg list \<Rightarrow> string option \<Rightarrow> EocDownloadsMsg list \<times> string option" where
  "download_from e url [] update = ([], update)"
| "download_from e url (d # ds) update =
     (if dm_download_url d = url then
        case downloadFile (ee_curl e url) (dm_download_file_md5 d) of
          (result, md5) \<Rightarrow>
            let update = (if md5 = None \<or> updateFileName d \<noteq> UPDATEFILE then update else md5)
            in case download_from e url ds update of
                 (ds', update') \<Rightarrow>
                   (d\<lparr>dm_download_status := download_status result (dm_download_status d)\<rparr> # ds', update')
      else case download_from e url ds update of (ds', update') \<Rightarrow> (d # ds', update'))"

definition ThreadDownload :: "('db, 'alg) eoc_env \<Rightarrow> string \<Rightarrow> 'db EOCCom \<Rightarrow> 'db EOCCom" where
  "ThreadDownload e url s =
     (case download_from e url (eo_downloads_msg s) (eo_update s) of
        (ds, update) \<Rightarrow> s\<lparr>eo_downloads_msg := ds, eo_update := update\<rparr>)"

text \<open>
  The device of a download is always the main board, so a link that is already there ends the handler;
  what follows that test in the code is never reached.
\<close>

definition new_device :: "string \<Rightarrow> EocUpgradeDev" where
  "new_device guid =
     \<lparr>ud_dev_guid = [], ud_dev_ip = [], ud_dev_type = EOC_UPGRADE_PARKINGAREA, ud_comm_guid = guid\<rparr>"

definition processR106 :: "('db, 'alg) eoc_env \<Rightarrow> string \<Rightarrow> 'db EOCCom \<Rightarrow> 'db EOCCom" where
  "processR106 e content s =
     (case ee_R106 e content of
        None \<Rightarrow> s
      | Some data \<Rightarrow>
          (let s1 = eoc_reply e (S106 COMVersion (r6_Guid data) 1 1 0 ''Receive controller download msg succeed'') s
           in case eo_update s1 of
                Some md5 \<Rightarrow>
                  if md5 = r6_FileMD5 data
                  then eoc_reply e (S106 COMVersion (r6_Guid data) 2 1 0 msg_done) s1
                  else s1
              | None \<Rightarrow>
                  if \<exists>d \<in> set (eo_downloads_msg s1). dm_download_url d = r6_DownloadPath data then s1
                  else s1\<lparr>eo_downloads_msg := eo_downloads_msg s1 @
                         [\<lparr>dm_upgrade_dev = [new_device (r6_Guid data)], dm_download_status = DOWNLOAD_IDLE,
                           dm_download_url = r6_DownloadPath data, dm_download_file_name = r6_FileName data,
                           dm_download_file_size = atoi (r6_FileSize data),
                           dm_download_file_md5 = r6_FileMD5 data\<rparr>]\<rparr>))"

section \<open>Upgrade\<close>

definition UPDATEUNZIPFILE :: string where "UPDATEUNZIPFILE = ''/home/nvidianx/zkj_update_tmp''"
definition INSTALLSH :: string where "INSTALLSH = ''update.sh''"

text \<open>
  \<open>os::runCmd\<close> gives the exit status of the command, so a command that failed is positive. The archive is
  removed last; the result and the MD5 of what is left. \<open>startUpgrade\<close> also gives the commands it ran.
\<close>

definition extractFile :: "('db, 'alg) eoc_env \<Rightarrow> string \<Rightarrow> string option \<Rightarrow> int \<times> string option" where
  "extractFile e filePath update =
     (if ee_cmd e (''rm -rf '' @ UPDATEUNZIPFILE) < 0 then (- 1, update)
      else if ee_cmd e (''mkdir -p '' @ UPDATEUNZIPFILE) \<noteq> 0 then (- 1, update)
      else if ee_cmd e (''tar -zxf '' @ filePath @ '' -C '' @ UPDATEUNZIPFILE) < 0 then (- 1, update)
      else if \<not> ee_remove e then (- 1, update) else (0, None))"

definition startUpgrade :: "('db, 'alg) eoc_env \<Rightarrow> int \<times> string list" where
  "startUpgrade e =
     (let chmod = ''chmod +x '' @ UPDATEUNZIPFILE @ ''/'' @ INSTALLSH;
          sh = ''sh '' @ UPDATEUNZIPFILE @ ''/'' @ INSTALLSH @ '' '' @ ee_cwd e
      in if ee_cmd e chmod < 0 then (- 1, [chmod])
         else (if ee_cmd e sh < 0 then - 1 else 0, [chmod, sh]))"

text \<open>\<open>startUpgrade\<close> is run when the end has been reported; its result is only logged.\<close>

definition processR107 :: "('db, 'alg) eoc_env \<Rightarrow> string \<Rightarrow> 'db EOCCom \<Rightarrow> 'db EOCCom" where
  "processR107 e content s =
     (case ee_R107 e content of
        None \<Rightarrow> s
      | Some data \<Rightarrow>
          (let reply = \<lambda>result state progress msg. eoc_reply e (S107 COMVersion (r7_Guid data) result state progress msg);
               s1 = reply 1 1 0 msg_command s
           in case eo_update s1 of
                None \<Rightarrow> reply 2 0 0 msg_missing s1
              | Some md5 \<Rightarrow>
                  if md5 \<noteq> r7_FileMD5 data then reply 2 0 0 msg_md5 s1
                  else let s2 = reply 2 1 25 msg_checked s1
                       in case extractFile e UPDATEFILE (eo_update s2) of
                            (ret, update) \<Rightarrow>
                              let s3 = s2\<lparr>eo_update := update\<rparr>
                              in if ret \<noteq> 0 then reply 2 0 0 msg_unpack s3
                                 else let s4 = reply 2 1 0 msg_upgraded s3
                                      in s4\<lparr>eo_commands := eo_commands s4 @ snd (startUpgrade e)\<rparr>))"

section \<open>One message\<close>

text \<open>
  The table \<open>business\<close>. The handlers of the messages that only this program sends, and of R103, R105 and
  R108, decode the message and log; they change nothing.
\<close>

definition business :: "(string \<times> (('db, 'alg) eoc_env \<Rightarrow> string \<Rightarrow> 'db EOCCom \<Rightarrow> 'db EOCCom)) list" where
  "business =
     (let log = \<lambda>e content s. s
      in [(''MCCS100'', log), (''MCCR100'', processR100), (''MCCS101'', log), (''MCCR101'', processR101),
          (''MCCS102'', log), (''MCCR102'', processR102), (''MCCS103'', log), (''MCCR103'', log),
          (''MCCS104'', log), (''MCCR104'', processR104), (''MCCS105'', log), (''MCCR105'', log),
          (''MCCS106'', log), (''MCCR106'', processR106), (''MCCS107'', log), (''MCCR107'', processR107),
          (''MCCS108'', log), (''MCCR108'', log)])"

definition parseCode :: "('db, 'alg) eoc_env \<Rightarrow> string \<Rightarrow> string" where
  "parseCode e content = (case ee_code e content of None \<Rightarrow> [] | Some code \<Rightarrow> code)"

definition proPkgs_step :: "('db, 'alg) eoc_env \<Rightarrow> 'db EOCCom \<Rightarrow> 'db EOCCom" where
  "proPkgs_step e s =
     (case queue_pop (eo_pkgs s) of
        None \<Rightarrow> s
      | Some (pkg, q) \<Rightarrow>
          (let s1 = s\<lparr>eo_pkgs := q\<rparr>; code = parseCode e pkg
           in if code = [] then s1
              else case map_of business code of None \<Rightarrow> s1 | Some process \<Rightarrow> process e pkg s1))"

section \<open>The round of every ten seconds\<close>

text \<open>The first part of a round decides whether the rest follows: \<open>continue\<close> is \<open>False\<close>.\<close>

definition and_then :: "'s \<Rightarrow> ('s \<Rightarrow> bool \<times> 's) \<Rightarrow> ('s \<Rightarrow> bool \<times> 's) \<Rightarrow> bool \<times> 's" where
  "and_then s f g = (case f s of (go_on, s') \<Rightarrow> if go_on then g s' else (False, s'))"

definition S101_get :: "('db, 'alg) eoc_env \<Rightarrow> 'db \<Rightarrow> (DataS101 \<times> 'db) option" where
  "S101_get e db =
     (case ee_uname e of
        None \<Rightarrow> None
      | Some uname \<Rightarrow>
          (let n2nip = (if ee_n2n_ip e = [] then ee_mac e else ee_n2n_ip e)
           in case DataVersion_selectFromDB (ee_real_text e) (ee_exec e) \<lparr>dv_id = 0, dv_version = [], dv_time = []\<rparr> db of
                (ret, v, db') \<Rightarrow>
                  Some (\<lparr>d1_EquipNumber = uname, d1_EquipIp = ee_eth_ip e @ ''['' @ n2nip @ '']'',
                         d1_EquipType = ''XX'', d1_SoftVersion = ee_build e, d1_DataVersion = dv_version v\<rparr>, db')))"

definition login_step :: "('db, 'alg) eoc_env \<Rightarrow> int \<Rightarrow> 'db EOCCom \<Rightarrow> bool \<times> 'db EOCCom" where
  "login_step e now s =
     (if now - eo_last_login_t s \<ge> 10 then
        let s1 = s\<lparr>eo_last_login_t := now\<rparr>
        in case S101_get e (eo_db s1) of
             None \<Rightarrow> (False, s1)
           | Some (d, db') \<Rightarrow>
               (True, (eoc_send e (S101 COMVersion (ee_uuid e) d) (s1\<lparr>eo_db := db'\<rparr>))\<lparr>eo_last_send_heart_t := now - 20\<rparr>)
      else (True, s))"

definition config_step :: "('db, 'alg) eoc_env \<Rightarrow> int \<Rightarrow> 'db EOCCom \<Rightarrow> bool \<times> 'db EOCCom" where
  "config_step e now s =
     (let s1 = (if eo_version s = [] then
                  case DataVersion_selectFromDB (ee_real_text e) (ee_exec e)
                         \<lparr>dv_id = 0, dv_version = [], dv_time = []\<rparr> (eo_db s) of
                    (ret, v, db') \<Rightarrow> s\<lparr>eo_version := dv_version v, eo_db := db'\<rparr>
                else s)
      in if eo_version s1 = [] \<and> now - eo_last_get_config_t s1 \<ge> 180 then
           let s2 = s1\<lparr>eo_last_get_config_t := now\<rparr>
           in case ee_uname e of
                None \<Rightarrow> (False, s2)
              | Some uname \<Rightarrow> (True, eoc_send e (S104 COMVersion (ee_uuid e) uname) s2)
         else (True, s1))"

definition heart_step :: "('db, 'alg) eoc_env \<Rightarrow> int \<Rightarrow> 'db EOCCom \<Rightarrow> bool \<times> 'db EOCCom" where
  "heart_step e now s =
     (True,
      if now - eo_last_send_heart_t s \<ge> 30 then
        let s1 = eoc_send e (S100 COMVersion (ee_uuid e)) (s\<lparr>eo_last_send_heart_t := now\<rparr>);
            s2 = s1\<lparr>eo_heartFlag := eo_heartFlag s1 + 1\<rparr>
        in if 10 < eo_heartFlag s2 then s2\<lparr>eo_isLive := False, eo_heartFlag := 0\<rparr> else s2
      else s)"

definition net_step :: "('db, 'alg) eoc_env \<Rightarrow> int \<Rightarrow> 'db EOCCom \<Rightarrow> bool \<times> 'db EOCCom" where
  "net_step e now s =
     (True,
      if now - eo_last_send_net_state_t s \<ge> 300 then
        eoc_send e (S105 COMVersion (ee_uuid e) (ee_net_total e) (ee_net_success e))
          (s\<lparr>eo_last_send_net_state_t := now, eo_sendNetTotal := ee_net_total e,
             eo_sendNetSuccess := ee_net_success e\<rparr>)
      else s)"

text \<open>\<open>PartsState_t\<close> of a directory; its size is 0 where it cannot be asked.\<close>

definition parts_state :: "('db, 'alg) eoc_env \<Rightarrow> string \<Rightarrow> PartsState_t" where
  "parts_state e dir =
     (case ee_dirInfo e dir of (n, m) \<Rightarrow>
        \<lparr>pt_State = (if n = 0 then 0 else 1), pt_Size = n, pt_ResidualSize = m\<rparr>)"

definition MainBoardState_get :: "('db, 'alg) eoc_env \<Rightarrow> MainBoardState_t" where
  "MainBoardState_get e =
     \<lparr>mb_MainboardGuid = (case ee_uname e of None \<Rightarrow> [] | Some uname \<Rightarrow> uname), mb_State = 1, mb_CpuState = 1,
      mb_CpuUtilizationRatio = fst (ee_cpu e), mb_CpuTemperature = snd (ee_cpu e),
      mb_MemorySize = fst (ee_memory e), mb_ResidualMemorySize = snd (ee_memory e),
      mb_ModelVersion = ''NX'', mb_MainboardType = ''NX'', mb_TFCardStates = [parts_state e ''/mnt/mnt_tf''],
      mb_EmmcStates = [parts_state e ''/''], mb_ExternalHardDisk = [parts_state e ''/mnt/mnt_hd'']\<rparr>"

definition state_step :: "('db, 'alg) eoc_env \<Rightarrow> int \<Rightarrow> 'db EOCCom \<Rightarrow> bool \<times> 'db EOCCom" where
  "state_step e now s =
     (True,
      if now - eo_last_send_state_t s \<ge> 60 then
        eoc_send e (S103 COMVersion (ee_uuid e) (MainBoardState_get e)) (s\<lparr>eo_last_send_state_t := now\<rparr>)
      else s)"

text \<open>
  The report of one device of a finished download; \<open>blank\<close> is the message that \<open>get\<close> was not called on. The
  loop over the devices ends when a report could not be written.
\<close>

definition download_report :: "eoc_msg \<Rightarrow> EocDownloadStatus \<Rightarrow> string \<Rightarrow> eoc_msg" where
  "download_report blank status guid =
     (case status of
        DOWNLOAD_FINISHED \<Rightarrow> S106 COMVersion guid 2 1 0 msg_done
      | DOWNLOAD_FILE_NOT_EXIST \<Rightarrow> S106 COMVersion guid 2 0 0 msg_no_file
      | DOWNLOAD_TIMEOUT \<Rightarrow> S106 COMVersion guid 2 0 0 msg_timeout
      | DOWNLOAD_SPACE_NOT_ENOUGH \<Rightarrow> S106 COMVersion guid 2 0 0 msg_space
      | DOWNLOAD_MD5_FAILD \<Rightarrow> S106 COMVersion guid 2 0 0 msg_md5
      | _ \<Rightarrow> blank)"

definition blank_S106 :: eoc_msg where
  "blank_S106 = S106 [] [] 0 0 0 []"

fun report_devices ::
  "('db, 'alg) eoc_env \<Rightarrow> EocDownloadStatus \<Rightarrow> EocUpgradeDev list \<Rightarrow> 'db EOCCom \<Rightarrow> 'db EOCCom" where
  "report_devices e status [] s = s"
| "report_devices e status (u # us) s =
     (if ud_dev_type u = EOC_UPGRADE_PARKINGAREA then
        case eoc_write e (download_report blank_S106 status (ud_comm_guid u)) s of
          (len, s') \<Rightarrow> if len < 0 then s'\<lparr>eo_isLive := False\<rparr> else report_devices e status us s'
      else report_devices e status us s)"

fun report_downloads ::
  "('db, 'alg) eoc_env \<Rightarrow> EocDownloadsMsg list \<Rightarrow> 'db EOCCom \<Rightarrow> EocDownloadsMsg list \<times> 'db EOCCom" where
  "report_downloads e [] s = ([], s)"
| "report_downloads e (d # ds) s =
     (if dm_download_status d \<noteq> DOWNLOAD_IDLE
      then report_downloads e ds (report_devices e (dm_download_status d) (dm_upgrade_dev d) s)
      else case report_downloads e ds s of (ds', s') \<Rightarrow> (d # ds', s'))"

definition download_step :: "('db, 'alg) eoc_env \<Rightarrow> 'db EOCCom \<Rightarrow> 'db EOCCom" where
  "download_step e s =
     (case report_downloads e (eo_downloads_msg s) s of (ds, s') \<Rightarrow> s'\<lparr>eo_downloads_msg := ds\<rparr>)"

definition task_step :: "'db EOCCom \<Rightarrow> 'db EOCCom" where
  "task_step s =
     (case eo_task s of
        [] \<Rightarrow> s
      | task # tasks \<Rightarrow>
          (let s1 = s\<lparr>eo_task := tasks\<rparr>
           in if task = SYS_REBOOT then
                if tasks \<noteq> [] \<or> eo_downloads_msg s1 \<noteq> [] then s1\<lparr>eo_task := eo_task s1 @ [SYS_REBOOT]\<rparr>
                else s1\<lparr>eo_exited := True\<rparr>
              else s1))"

definition intervalPro_round :: "('db, 'alg) eoc_env \<Rightarrow> int \<Rightarrow> 'db EOCCom \<Rightarrow> 'db EOCCom" where
  "intervalPro_round e now s =
     snd (if \<not> eo_isLogIn s then login_step e now s
          else and_then s (config_step e now)
                (\<lambda>s. and_then s (heart_step e now)
                (\<lambda>s. and_then s (net_step e now)
                (\<lambda>s. and_then s (state_step e now)
                (\<lambda>s. (True, task_step (download_step e s)))))))"

section \<open>Life of the client\<close>

text \<open>The queue is set up even where the connection failed; the three threads start with \<open>Run\<close>.\<close>

definition EOCCom_Open :: "int \<Rightarrow> 'db EOCCom \<Rightarrow> int \<times> 'db EOCCom" where
  "EOCCom_Open ret s = (ret, s\<lparr>eo_pkgs := queue_clear (queue_setMax 10 (eo_pkgs s))\<rparr>)"

definition EOCCom_Run :: "'db EOCCom \<Rightarrow> int \<times> 'db EOCCom" where
  "EOCCom_Run s =
     (0, s\<lparr>eo_isLive := True, eo_businessStart := True, eo_content := [], eo_version := [], eo_isLogIn := False,
           eo_heartFlag := 0\<rparr>)"

definition EOCCom_Close :: "'db EOCCom \<Rightarrow> int \<times> 'db EOCCom" where
  "EOCCom_Close s = (0, s\<lparr>eo_isLive := False, eo_businessStart := False\<rparr>)"

text \<open>A turn of \<open>ThreadEOCCom\<close>, with the result of opening the connection.\<close>

definition ThreadEOCCom_turn :: "int \<Rightarrow> 'db EOCCom \<Rightarrow> 'db EOCCom" where
  "ThreadEOCCom_turn open_ret s =
     (if eo_isLive s then s
      else case EOCCom_Open open_ret (snd (EOCCom_Close s)) of
             (ret, s') \<Rightarrow> if ret = 0 then snd (EOCCom_Run s') else s')"

text \<open>How \<open>ThreadEOCCom\<close> begins, with the result of the first \<open>Open\<close>.\<close>

definition ThreadEOCCom_start :: "int \<Rightarrow> 'db EOCCom \<Rightarrow> 'db EOCCom" where
  "ThreadEOCCom_start open_ret s =
     (case EOCCom_Open open_ret s of (ret, s) \<Rightarrow> if ret = 0 then snd (EOCCom_Run s) else s)"

section \<open>Globals and start-up\<close>

record eoc_globals =
  g_BaseSet :: DBBaseSet
  g_Intersection :: DBIntersection
  g_AssociatedEquips :: "DBAssociatedEquip list"
  g_RelatedAreas :: "RelatedArea_t list"

text \<open>
  The file with the areas, if it can be opened, and what decoding it leaves in the global. The result is
  set to \<open>0\<close> after the exception has set it to \<open>-1\<close>.
\<close>

definition g_RelatedAreasInit ::
  "(string \<Rightarrow> RelatedArea_t list \<Rightarrow> RelatedArea_t list) \<Rightarrow> string option \<Rightarrow> RelatedArea_t list \<Rightarrow> int \<times> RelatedArea_t list" where
  "g_RelatedAreasInit decode file areas =
     (case file of None \<Rightarrow> (- 1, areas) | Some content \<Rightarrow> (0, decode content areas))"

text \<open>The version is read first and logged.\<close>

definition g_BaseSetInit ::
  "(real \<Rightarrow> string) \<Rightarrow> 'db exec \<Rightarrow> DBBaseSet \<Rightarrow> 'db \<Rightarrow> int \<times> DBBaseSet \<times> 'db" where
  "g_BaseSetInit real_text exec b db =
     (let (_, _, db) = DataVersion_selectFromDB real_text exec \<lparr>dv_id = 0, dv_version = [], dv_time = []\<rparr> db
      in BaseSet_selectFromDB real_text exec b db)"

definition g_IntersectionInit ::
  "(real \<Rightarrow> string) \<Rightarrow> (string \<Rightarrow> real) \<Rightarrow> 'db exec \<Rightarrow> DBIntersection \<Rightarrow> 'db \<Rightarrow> int \<times> DBIntersection \<times> 'db" where
  "g_IntersectionInit real_text strtof exec x db = Intersection_selectFromDB real_text strtof exec x db"

definition g_AssociatedEquipsInit ::
  "(real \<Rightarrow> string) \<Rightarrow> 'db exec \<Rightarrow> DBAssociatedEquip list \<Rightarrow> 'db \<Rightarrow> int \<times> DBAssociatedEquip list \<times> 'db" where
  "g_AssociatedEquipsInit real_text exec es db = getAssociatedEquips real_text exec es db"

definition globalConfigInit ::
  "(real \<Rightarrow> string) \<Rightarrow> (string \<Rightarrow> real) \<Rightarrow> 'fs files \<Rightarrow> 'db exec \<Rightarrow>
   (string \<Rightarrow> RelatedArea_t list \<Rightarrow> RelatedArea_t list) \<Rightarrow> string option \<Rightarrow> eoc_globals \<Rightarrow> 'fs \<Rightarrow> 'db \<Rightarrow>
   (int \<times> eoc_globals \<times> 'fs \<times> 'db) option" where
  "globalConfigInit real_text strtof io exec decode file g fs db =
     (case tableInit real_text io exec fs db of
        None \<Rightarrow> None
      | Some (ret, fs, db) \<Rightarrow>
          if ret \<noteq> 0 then Some (- 1, g, fs, db)
          else let (_, b, db) = g_BaseSetInit real_text exec (g_BaseSet g) db;
                   (_, x, db) = g_IntersectionInit real_text strtof exec (g_Intersection g) db;
                   (_, es, db) = g_AssociatedEquipsInit real_text exec (g_AssociatedEquips g) db;
                   (_, areas) = g_RelatedAreasInit decode file (g_RelatedAreas g);
                   (_, v, db) = DataVersion_selectFromDB real_text exec \<lparr>dv_id = 0, dv_version = [], dv_time = []\<rparr> db
               in Some (if dv_version v \<noteq> [] then 1 else 0,
                    \<lparr>g_BaseSet = b, g_Intersection = x, g_AssociatedEquips = es, g_RelatedAreas = areas\<rparr>, fs, db))"

definition getRelatedAreasPairs :: "eoc_globals \<Rightarrow> string list list \<Rightarrow> string list list" where
  "getRelatedAreasPairs g pairs = pairs @ map (\<lambda>a. [ra_PavementName a, ra_PavementName2 a]) (g_RelatedAreas g)"

text \<open>
  Where the centre is: what the factory database says, the built-in address where that is empty, and the
  address of the name where it is no IP address, with the built-in one again where there is none.
\<close>

definition EOC_ADDR :: string where "EOC_ADDR = ''116.63.162.151''"
definition EOC_PORT :: int where "EOC_PORT = 6526"

definition StartEocCommon_address ::
  "(string \<Rightarrow> bool) \<Rightarrow> (string \<Rightarrow> string) \<Rightarrow> (string \<times> int \<Rightarrow> string \<times> int) \<Rightarrow> string \<times> int" where
  "StartEocCommon_address isIP url_get getEOCInfo =
     (let (host, port) = getEOCInfo (EOC_ADDR, EOC_PORT);
          port = (if port = 0 then EOC_PORT else port);
          host = (if host = [] then EOC_ADDR else host);
          host = (if \<not> isIP host then url_get host else host);
          host = (if host = [] then EOC_ADDR else host)
      in (host, port))"

text \<open>
  \<open>StartEocCommon\<close>: nothing is started unless \<open>globalConfigInit\<close> gives a number from 0 on; otherwise the
  address of the centre for the client's thread.
\<close>

definition StartEocCommon ::
  "int \<Rightarrow> (string \<Rightarrow> bool) \<Rightarrow> (string \<Rightarrow> string) \<Rightarrow> (string \<times> int \<Rightarrow> string \<times> int) \<Rightarrow> int \<times> (string \<times> int) option" where
  "StartEocCommon config_ret isIP url_get getEOCInfo =
     (if config_ret < 0 then (- 1, None) else (0, Some (StartEocCommon_address isIP url_get getEOCInfo)))"

text \<open>
  The address and the port after the word \<open>get_ntp_info\<close>. \<open>at\<close> throws at the end of the pieces: the two
  tests of the index let the length itself through.
\<close>

datatype 'a ntp = Ntp_throws | Ntp_result 'a

definition getNTPFromContent :: "string \<Rightarrow> string \<Rightarrow> int \<Rightarrow> (int \<times> string \<times> int) ntp" where
  "getNTPFromContent content ip port =
     (if content = [] then Ntp_result (- 1, ip, port)
      else let strs = split content '' ''
           in if strs = [] then Ntp_result (- 1, ip, port)
              else case find_index (\<lambda>p. p = ''get_ntp_info'') strs of
                     None \<Rightarrow> Ntp_result (- 1, ip, port)
                   | Some i \<Rightarrow>
                       if length strs < i + 1 then Ntp_result (- 1, ip, port)
                       else if length strs \<le> i + 1 then Ntp_throws
                       else let ip = strs ! (i + 1)
                            in if length strs < i + 2 then Ntp_result (0, ip, port)
                               else if length strs \<le> i + 2 then Ntp_throws
                               else Ntp_result (0, ip, atoi (strs ! (i + 2))))"

text \<open>\<open>GetNTPInfo\<close>: what the command prints decides; the two variables are set by what can be read of it.\<close>

definition GetNTPInfo :: "(string \<Rightarrow> string) \<Rightarrow> string \<Rightarrow> string \<Rightarrow> int \<Rightarrow> (int \<times> string \<times> int) ntp" where
  "GetNTPInfo run homePath ip port =
     (let result = run (homePath @ ''/bin/get_ntp_info'')
      in if result = [] then Ntp_result (- 1, ip, port)
         else case getNTPFromContent result ip port of
                Ntp_throws \<Rightarrow> Ntp_throws
              | Ntp_result (ret, ip, port) \<Rightarrow> Ntp_result (if ret = 0 then 0 else - 1, ip, port))"

text \<open>\<open>SetNTPInfo\<close>: its result, which does not depend on what the command does, and the command for the shell.\<close>

definition SetNTPInfo :: "string \<Rightarrow> string \<Rightarrow> int \<Rightarrow> int \<times> string" where
  "SetNTPInfo homePath ip port = (0, homePath @ ''/bin/set_ntp_info '' @ ip @ '' '' @ string_of_int port)"

text \<open>\<open>SetNtpServer\<close>: its result and the command it runs to set another server. \<open>port0\<close> is what the variable held.\<close>

definition SetNtpServer :: "(string \<Rightarrow> string) \<Rightarrow> string \<Rightarrow> string \<Rightarrow> int \<Rightarrow> (int \<times> string list) ntp" where
  "SetNtpServer run homePath serverIp port0 =
     (if serverIp = [] then Ntp_result (- 1, [])
      else case GetNTPInfo run homePath [] port0 of
             Ntp_throws \<Rightarrow> Ntp_throws
           | Ntp_result (ret, ip, port) \<Rightarrow>
               if ret \<noteq> 0 then Ntp_result (- 1, [])
               else if ip \<noteq> serverIp
               then case SetNTPInfo homePath serverIp port of (ret, cmd) \<Rightarrow> Ntp_result (if ret = 0 then 0 else - 1, [cmd])
               else Ntp_result (0, []))"

end
