(* ===== verification/EocProps.thy ===== *)
theory EocProps
  imports Eoc
begin

text \<open>
  What the client of the configuration centre guarantees: how the stream is cut, what a configuration
  message leaves in the database and answers, when the program restarts, when the connection is given up,
  and how downloads are reported.
\<close>

section \<open>Messages cut from the stream\<close>

definition starred :: "string list \<Rightarrow> string" where
  "starred ms = concat (map (\<lambda>m. m @ ''*'') ms)"

lemma getPkgs_plain:
  "CHR ''*'' \<notin> set m \<Longrightarrow> getPkgs m s = s\<lparr>eo_content := eo_content s @ m\<rparr>"
  unfolding getPkgs_def by (induction m arbitrary: s) (auto simp: getPkgs_byte_def)

lemma getPkgs_append: "getPkgs (a @ b) s = getPkgs b (getPkgs a s)"
  by (simp add: getPkgs_def)

lemma getPkgs_message:
  "CHR ''*'' \<notin> set m \<Longrightarrow> eo_content s = [] \<Longrightarrow>
     getPkgs (m @ ''*'') s = s\<lparr>eo_pkgs := snd (queue_push m (eo_pkgs s))\<rparr>"
  by (simp add: getPkgs_append getPkgs_plain) (simp add: getPkgs_def getPkgs_byte_def)

definition ten_queue :: "string list \<Rightarrow> string queue" where
  "ten_queue ms = \<lparr>q_items = ms, q_max = 10, q_isSetMax = True\<rparr>"

lemma ten_queue_push: "snd (queue_push m (ten_queue ms)) = ten_queue (if length ms < 10 then ms @ [m] else ms)"
  by (simp add: ten_queue_def queue_push_def queue_full_def)

lemma getPkgs_messages:
  assumes "\<forall>m \<in> set ms. CHR ''*'' \<notin> set m" "eo_content s = []" "eo_pkgs s = ten_queue old" "length old \<le> 10"
  shows "getPkgs (starred ms) s = s\<lparr>eo_pkgs := ten_queue (take 10 (old @ ms))\<rparr>"
  using assms
proof (induction ms arbitrary: s old)
  case Nil
  then show ?case by (simp add: starred_def getPkgs_def)
next
  case (Cons m ms)
  let ?old = "if length old < 10 then old @ [m] else old"
  have "getPkgs (starred (m # ms)) s = getPkgs (starred ms) (getPkgs (m @ ''*'') s)"
    by (subst getPkgs_append[symmetric]) (simp add: starred_def)
  also have "getPkgs (m @ ''*'') s = s\<lparr>eo_pkgs := ten_queue ?old\<rparr>"
    using Cons.prems by (subst getPkgs_message) (auto simp: ten_queue_push)
  also have "getPkgs (starred ms) (s\<lparr>eo_pkgs := ten_queue ?old\<rparr>) =
      s\<lparr>eo_pkgs := ten_queue (take 10 (?old @ ms))\<rparr>"
    using Cons.prems by (subst Cons.IH[where old = ?old]) auto
  also have "take 10 (?old @ ms) = take 10 (old @ m # ms)" using Cons.prems(4) by (auto simp: take_Cons')
  finally show ?case .
qed

text \<open>
  The receiving thread cuts the stream at the stars: after any messages without a star, and the
  beginning of another one, the queue holds the messages in order and the beginning is kept. No more than
  ten wait; those that arrive while the queue is full are dropped.
\<close>
lemma eoc_stream_cut:
  assumes "\<forall>m \<in> set (rest # ms). CHR ''*'' \<notin> set m" "eo_content s = []" "eo_pkgs s = ten_queue old" "length old \<le> 10"
  shows "getPkgs (starred ms @ rest) s = s\<lparr>eo_pkgs := ten_queue (take 10 (old @ ms)), eo_content := rest\<rparr>"
  using assms getPkgs_messages[of ms s old] by (simp add: getPkgs_append getPkgs_plain)

section \<open>Configuration\<close>

text \<open>No operation of the database reports a failure.\<close>

lemma config_ops_return_0 [simp]:
  "fst (run_sql exec stmt db) = 0" "run_sql exec stmt db = (ret, db') \<Longrightarrow> ret = 0"
  by (auto simp: run_sql_def)

lemma replace_row_0 [simp]:
  "replace_row (run_sql exec del) (run_sql exec ins) (0, db) =
     (0, snd (run_sql exec ins (snd (run_sql exec del db))))"
  by (simp add: replace_row_def run_sql_def)

lemma insert_equips_0 [simp]: "fst (insert_equips exec is (0, db)) = 0"
  by (induction "is" arbitrary: db) (simp_all add: AssociatedEquip_insertToDB_def run_sql_def)

lemma write_settings_0 [simp]: "fst (write_settings exec d db) = 0"
  by (simp add: write_settings_def BaseSet_deleteFromDB_def BaseSet_insertToDB_def Intersection_deleteFromDB_def
      Intersection_insertToDB_def)

lemma write_version_0 [simp]: "fst (write_version exec v t (0, db)) = 0"
  by (simp add: write_version_def DataVersion_deleteFromDB_def DataVersion_insertToDB_def)

lemma write_json_fields [simp]:
  "eo_sent (write_json e f j s) = eo_sent s" "eo_task (write_json e f j s) = eo_task s"
  "eo_exited (write_json e f j s) = eo_exited s" "eo_db (write_json e f j s) = eo_db s"
  by (simp_all add: write_json_def)

lemma eoc_reply_fields [simp]:
  "eo_sent (eoc_reply e m s) = eo_sent s @ [eoc_body e m]" "eo_task (eoc_reply e m s) = eo_task s"
  "eo_exited (eoc_reply e m s) = eo_exited s" "eo_db (eoc_reply e m s) = eo_db s"
  "eo_downloads_msg (eoc_reply e m s) = eo_downloads_msg s" "eo_update (eoc_reply e m s) = eo_update s"
  "eo_commands (eoc_reply e m s) = eo_commands s" "eo_isLive (eoc_reply e m s) = eo_isLive s"
  by (simp_all add: eoc_reply_def eoc_write_def)

lemma processR102_result:
  assumes "ee_R102 e content = Some data"
  shows "eo_sent (processR102 e content s) = eo_sent s @ [eoc_body e (S102 COMVersion (r2_Guid data) 1 ''ok'')]"
    "eo_task (processR102 e content s) = eo_task s @ [SYS_REBOOT]"
    "eo_exited (processR102 e content s) = eo_exited s"
    "eo_db (processR102 e content s) =
       snd (write_version (ee_exec e) (dr_DataVersion (r2_Data data)) (ee_time e)
         (0, snd (write_settings (ee_exec e) (r2_Data data) (eo_db s))))"
proof -
  let ?d = "r2_Data data"
  let ?st = "write_settings (ee_exec e) ?d (eo_db s)"
  let ?v = "write_version (ee_exec e) (dr_DataVersion ?d) (ee_time e) (0, snd ?st)"
  let ?s1 = "write_json e ''relatedAreas.json'' (ee_areas_json e (dr_RelatedAreas ?d))
    (write_json e ''algorithm.json'' (ee_alg_json e (dr_FusionParas ?d)) s)"
  let ?s3 = "eoc_reply e (S102 COMVersion (r2_Guid data) 1 ''ok'') (?s1\<lparr>eo_db := snd ?v\<rparr>)"
  have "?st = (0, snd ?st)" by (metis prod.collapse write_settings_0)
  moreover have "?v = (0, snd ?v)" by (metis prod.collapse write_version_0)
  ultimately have v: "write_version (ee_exec e) (dr_DataVersion ?d) (ee_time e) ?st = (0, snd ?v)" by metis
  have "processR102 e content s = ?s3\<lparr>eo_task := eo_task ?s3 @ [SYS_REBOOT]\<rparr>"
    unfolding processR102_def Let_def assms option.case v prod.case by (simp only: simp_thms if_False)
  then show "eo_sent (processR102 e content s) = eo_sent s @ [eoc_body e (S102 COMVersion (r2_Guid data) 1 ''ok'')]"
    "eo_task (processR102 e content s) = eo_task s @ [SYS_REBOOT]"
    "eo_exited (processR102 e content s) = eo_exited s"
    "eo_db (processR102 e content s) = snd ?v"
    by simp_all
qed

lemma throwing_exec:
  assumes "exec = (\<lambda>stmt db. (db, None))"
  shows "run_sql exec stmt db = (0, db)" "insert_equips exec is (0, db) = (0, db)"
  using assms by (induction "is" arbitrary: db) (auto simp: run_sql_def AssociatedEquip_insertToDB_def)

text \<open>
  A configuration that decodes is always acknowledged with \<open>ok\<close>, and the restart is put on the list of
  tasks, whatever the database did: the operations catch every exception and return 0, so even when
  every statement has thrown and nothing is stored, the branch that answers \<open>fail\<close> is not taken.
\<close>
lemma config_always_acknowledged:
  assumes "ee_R102 e content = Some data" "ee_exec e = (\<lambda>stmt db. (db, None))"
  shows "eo_sent (processR102 e content s) = eo_sent s @ [eoc_body e (S102 COMVersion (r2_Guid data) 1 ''ok'')] \<and>
    eo_task (processR102 e content s) = eo_task s @ [SYS_REBOOT] \<and> eo_db (processR102 e content s) = eo_db s"
proof -
  have "write_settings (ee_exec e) (r2_Data data) (eo_db s) = (0, eo_db s)"
    by (simp add: write_settings_def BaseSet_deleteFromDB_def BaseSet_insertToDB_def Intersection_deleteFromDB_def
        Intersection_insertToDB_def AssociatedEquip_deleteAllFromDB_def throwing_exec[OF assms(2)])
  moreover have "write_version (ee_exec e) v t (0, db) = (0, db)" for v t db
    by (simp add: write_version_def DataVersion_deleteFromDB_def DataVersion_insertToDB_def throwing_exec[OF assms(2)])
  ultimately show ?thesis using processR102_result[OF assms(1), of s] by simp
qed

text \<open>
  What the code relies on of the tables: \<open>insert\<close> appends a row to its table and \<open>delete\<close> empties it, and
  neither changes another table.
\<close>

definition rows_ok :: "'db exec \<Rightarrow> ('db \<Rightarrow> rows_db) \<Rightarrow> bool" where
  "rows_ok exec rows \<longleftrightarrow>
     (\<forall>db t row. snd (exec (Insert t row) db) = Some [] \<and>
        rows (fst (exec (Insert t row) db)) = (rows db)(t := rows db t @ [row])) \<and>
     (\<forall>db t. snd (exec (Delete_all t) db) = Some [] \<and> rows (fst (exec (Delete_all t) db)) = (rows db)(t := []))"

lemma rows_run_sql:
  assumes "rows_ok exec rows"
  shows "rows (snd (run_sql exec (Insert t row) db)) = (rows db)(t := rows db t @ [row])"
    "rows (snd (run_sql exec (Delete_all t) db)) = (rows db)(t := [])"
  using assms by (simp_all add: rows_ok_def run_sql_def)

lemma rows_insert_equips:
  assumes "rows_ok exec rows"
  shows "rows (snd (insert_equips exec is (0, db))) = (rows db)
    (''associated_equip'' := rows db ''associated_equip'' @
       map (\<lambda>i. AssociatedEquip_row (convertAssociated_EquipS2DB i DBAssociatedEquip_new)) is)"
proof (induction "is" arbitrary: db)
  case (Cons i "is")
  let ?row = "AssociatedEquip_row (convertAssociated_EquipS2DB i DBAssociatedEquip_new)"
  have "insert_equips exec (i # is) (0, db) =
      insert_equips exec is (0, snd (run_sql exec (Insert ''associated_equip'' ?row) db))"
    by (simp add: AssociatedEquip_insertToDB_def run_sql_def)
  then show ?case by (simp add: Cons.IH rows_run_sql[OF assms] fun_eq_iff)
qed simp

text \<open>The content of the database that a configuration asks for.\<close>

definition configured :: "'alg DataR102 \<Rightarrow> string \<Rightarrow> rows_db \<Rightarrow> rows_db" where
  "configured d time rows = rows
     (''base_set'' := [BaseSet_row (convertBaseSetS2DB (dr_BaseSetting d) (dr_Index d) DBBaseSet_new)],
      ''belong_intersection'' := [Intersection_row (convertIntersectionS2DB (dr_IntersectionInfo d) DBIntersection_new)],
      ''associated_equip'' :=
        map (\<lambda>i. AssociatedEquip_row (convertAssociated_EquipS2DB i DBAssociatedEquip_new)) (dr_AssociatedEquips d),
      ''conf_version'' :=
        (if dr_DataVersion d = [] then rows ''conf_version''
         else [[(''version'', SText (dr_DataVersion d)), (''time'', SText time)]]))"

text \<open>
  C26. On a database that works, a configuration message replaces the whole configuration: the base settings
  and the intersection are the one row of their tables, the devices are those of the message in order,
  the version is stored with the time if there is one, and no other table changes.
\<close>
theorem config_replaces_tables:
  assumes "ee_R102 e content = Some data" "rows_ok (ee_exec e) rows"
  shows "rows (eo_db (processR102 e content s)) = configured (r2_Data data) (ee_time e) (rows (eo_db s))"
proof -
  note sql = rows_run_sql[OF assms(2)] rows_insert_equips[OF assms(2)]
  have w: "rows (snd (write_settings (ee_exec e) d db)) = (rows db)
      (''base_set'' := [BaseSet_row (convertBaseSetS2DB (dr_BaseSetting d) (dr_Index d) DBBaseSet_new)],
       ''belong_intersection'' := [Intersection_row (convertIntersectionS2DB (dr_IntersectionInfo d) DBIntersection_new)],
       ''associated_equip'' :=
         map (\<lambda>i. AssociatedEquip_row (convertAssociated_EquipS2DB i DBAssociatedEquip_new)) (dr_AssociatedEquips d))"
    for d db
    by (simp add: write_settings_def BaseSet_deleteFromDB_def BaseSet_insertToDB_def Intersection_deleteFromDB_def
        Intersection_insertToDB_def AssociatedEquip_deleteAllFromDB_def sql Let_def)
  show ?thesis
    by (simp add: processR102_result[OF assms(1)] write_version_def DataVersion_deleteFromDB_def
        DataVersion_insertToDB_def sql w configured_def fun_eq_iff)
qed

section \<open>Restart\<close>

text \<open>The events of the four threads; each has its own environment and time.\<close>

datatype ('db, 'alg) eoc_event =
    E_byte char
  | E_message "('db, 'alg) eoc_env"
  | E_download "('db, 'alg) eoc_env" string
  | E_round "('db, 'alg) eoc_env" int

fun eoc_step :: "('db, 'alg) eoc_event \<Rightarrow> 'db EOCCom \<Rightarrow> 'db EOCCom" where
  "eoc_step (E_byte c) s = getPkgs_byte c s"
| "eoc_step (E_message e) s = proPkgs_step e s"
| "eoc_step (E_download e url) s = ThreadDownload e url s"
| "eoc_step (E_round e now) s = intervalPro_round e now s"

definition eoc_run :: "('db, 'alg) eoc_event list \<Rightarrow> 'db EOCCom \<Rightarrow> 'db EOCCom" where
  "eoc_run evs s = fold eoc_step evs s"

text \<open>Restarts are all that is ever put on the list; two of them never leave it.\<close>

definition stuck :: "'db EOCCom \<Rightarrow> bool" where
  "stuck s \<longleftrightarrow> set (eo_task s) \<subseteq> {SYS_REBOOT} \<and> 2 \<le> length (eo_task s) \<and> \<not> eo_exited s"

lemma eoc_send_fields [simp]:
  "eo_sent (eoc_send e m s) = eo_sent s @ [eoc_body e m]" "eo_task (eoc_send e m s) = eo_task s"
  "eo_exited (eoc_send e m s) = eo_exited s" "eo_db (eoc_send e m s) = eo_db s"
  "eo_downloads_msg (eoc_send e m s) = eo_downloads_msg s" "eo_update (eoc_send e m s) = eo_update s"
  "eo_isLogIn (eoc_send e m s) = eo_isLogIn s" "eo_heartFlag (eoc_send e m s) = eo_heartFlag s"
  "eo_last_send_heart_t (eoc_send e m s) = eo_last_send_heart_t s" "eo_version (eoc_send e m s) = eo_version s"
  "eo_isLive (eoc_send e m s) = (eo_isLive s \<and> 0 \<le> ee_write e (length (eo_sent s)) (eoc_body e m))"
  by (simp_all add: eoc_send_def eoc_write_def)

text \<open>The parts of a round before the downloads leave the tasks and the downloads alone.\<close>

definition jobs :: "'db EOCCom \<Rightarrow> EOCCLOUD_TASK list \<times> bool \<times> EocDownloadsMsg list" where
  "jobs s = (eo_task s, eo_exited s, eo_downloads_msg s)"

lemma jobs_steps [simp]:
  "jobs (snd (login_step e now s)) = jobs s" "jobs (snd (config_step e now s)) = jobs s"
  "jobs (snd (heart_step e now s)) = jobs s" "jobs (snd (net_step e now s)) = jobs s"
  "jobs (snd (state_step e now s)) = jobs s"
  by (auto simp: jobs_def login_step_def config_step_def heart_step_def net_step_def state_step_def Let_def
      split: option.splits prod.splits)

lemma report_devices_jobs [simp]: "jobs (report_devices e st us s) = jobs s"
  by (induction us arbitrary: s) (auto simp: eoc_write_def jobs_def)

lemma report_downloads_Cons:
  "report_downloads e (d # ds) s =
     (if dm_download_status d \<noteq> DOWNLOAD_IDLE
      then report_downloads e ds (report_devices e (dm_download_status d) (dm_upgrade_dev d) s)
      else (d # fst (report_downloads e ds s), snd (report_downloads e ds s)))"
  by (simp split: prod.splits)

declare report_downloads.simps(2) [simp del] report_downloads_Cons [simp]

lemma report_downloads_jobs [simp]: "jobs (snd (report_downloads e ds s)) = jobs s"
  by (induction ds arbitrary: s) auto

lemma report_downloads_idle:
  "fst (report_downloads e ds s) = filter (\<lambda>d. dm_download_status d = DOWNLOAD_IDLE) ds"
  by (induction ds arbitrary: s) auto

lemma download_step_alt:
  "download_step e s = (snd (report_downloads e (eo_downloads_msg s) s))
     \<lparr>eo_downloads_msg := fst (report_downloads e (eo_downloads_msg s) s)\<rparr>"
  by (simp add: download_step_def split_beta)

lemma jobs_download_step:
  "jobs (download_step e s) =
     (eo_task s, eo_exited s, filter (\<lambda>d. dm_download_status d = DOWNLOAD_IDLE) (eo_downloads_msg s))"
  using report_downloads_jobs[of e "eo_downloads_msg s" s]
  by (simp add: download_step_alt jobs_def report_downloads_idle)

lemma jobs_ThreadDownload:
  "eo_task (ThreadDownload e url s) = eo_task s" "eo_exited (ThreadDownload e url s) = eo_exited s"
  by (auto simp: ThreadDownload_def split: prod.splits)

lemma jobs_processR106:
  "eo_task (processR106 e c s) = eo_task s" "eo_exited (processR106 e c s) = eo_exited s"
  by (auto simp: processR106_def Let_def split: option.splits)

lemma jobs_processR107:
  "eo_task (processR107 e c s) = eo_task s" "eo_exited (processR107 e c s) = eo_exited s"
  by (auto simp: processR107_def Let_def split: option.splits prod.splits)

lemma jobs_processR102:
  "eo_exited (processR102 e c s) = eo_exited s"
  "eo_task (processR102 e c s) = eo_task s \<or> eo_task (processR102 e c s) = eo_task s @ [SYS_REBOOT]"
  using processR102_result(2,3)[of e c _ s] by (cases "ee_R102 e c"; simp add: processR102_def)+

lemma business_jobs:
  assumes "map_of business code = Some process"
  shows "eo_exited (process e c s) = eo_exited s"
    "eo_task (process e c s) = eo_task s \<or> eo_task (process e c s) = eo_task s @ [SYS_REBOOT]"
proof -
  have "process \<in> {\<lambda>e c s. s, processR100, processR101, processR102, processR104, processR106, processR107}"
    using map_of_SomeD[OF assms] by (auto simp: business_def Let_def)
  then have "eo_exited (process e c s) = eo_exited s \<and>
      (eo_task (process e c s) = eo_task s \<or> eo_task (process e c s) = eo_task s @ [SYS_REBOOT])"
    using jobs_processR102[of e c s] jobs_processR106[of e c s] jobs_processR107[of e c s]
    by (auto simp: processR100_def processR101_def processR104_def split: option.splits if_splits)
  then show "eo_exited (process e c s) = eo_exited s"
    "eo_task (process e c s) = eo_task s \<or> eo_task (process e c s) = eo_task s @ [SYS_REBOOT]" by auto
qed

lemma proPkgs_jobs:
  "eo_exited (proPkgs_step e s) = eo_exited s"
  "eo_task (proPkgs_step e s) = eo_task s \<or> eo_task (proPkgs_step e s) = eo_task s @ [SYS_REBOOT]"
proof -
  have "eo_exited (proPkgs_step e s) = eo_exited s \<and>
    (eo_task (proPkgs_step e s) = eo_task s \<or> eo_task (proPkgs_step e s) = eo_task s @ [SYS_REBOOT])"
  proof (cases "queue_pop (eo_pkgs s)")
    case (Some p)
    obtain pkg q where p: "p = (pkg, q)" by fastforce
    show ?thesis
      using business_jobs[of "parseCode e pkg" _ e pkg "s\<lparr>eo_pkgs := q\<rparr>"]
      by (auto simp: proPkgs_step_def Some p Let_def split: option.splits)
  qed (simp add: proPkgs_step_def)
  then show "eo_exited (proPkgs_step e s) = eo_exited s"
    "eo_task (proPkgs_step e s) = eo_task s \<or> eo_task (proPkgs_step e s) = eo_task s @ [SYS_REBOOT]" by auto
qed

text \<open>A round either leaves the tasks alone or ends with the downloads and the task.\<close>

lemma and_then_jobs:
  assumes "\<And>s. jobs (snd (f s)) = jobs s"
    "\<And>s1. jobs s1 = jobs s \<Longrightarrow> P (snd (g s1))" "\<And>s1. jobs s1 = jobs s \<Longrightarrow> P s1"
  shows "P (snd (and_then s f g))"
  using assms(1)[of s] assms(2,3)[of "snd (f s)"] by (cases "f s") (auto simp: and_then_def)

lemma round_cases:
  "jobs (intervalPro_round e now s) = jobs s \<or>
   (\<exists>s1. jobs s1 = jobs s \<and> intervalPro_round e now s = task_step (download_step e s1))"
proof -
  let ?P = "\<lambda>r. jobs r = jobs s \<or> (\<exists>s1. jobs s1 = jobs s \<and> r = task_step (download_step e s1))"
  have "?P (snd (and_then s (config_step e now) (\<lambda>s. and_then s (heart_step e now)
      (\<lambda>s. and_then s (net_step e now) (\<lambda>s. and_then s (state_step e now)
      (\<lambda>s. (True, task_step (download_step e s))))))))"
    by (intro and_then_jobs[where P = ?P]) auto
  then show ?thesis by (auto simp: intervalPro_round_def)
qed

lemma stuck_round: "stuck s \<Longrightarrow> stuck (intervalPro_round e now s)"
proof -
  assume st: "stuck s"
  then obtain t ts where t: "eo_task s = SYS_REBOOT # t # ts" "set ts \<subseteq> {SYS_REBOOT}" "t = SYS_REBOOT" "\<not> eo_exited s"
    by (cases "eo_task s"; cases "tl (eo_task s)") (auto simp: stuck_def)
  from round_cases[of e now s] show ?thesis
  proof
    assume "jobs (intervalPro_round e now s) = jobs s"
    with st show ?thesis by (simp add: jobs_def stuck_def)
  next
    assume "\<exists>s1. jobs s1 = jobs s \<and> intervalPro_round e now s = task_step (download_step e s1)"
    then obtain s1 where s1: "jobs s1 = jobs s" "intervalPro_round e now s = task_step (download_step e s1)" by blast
    then have "eo_task (download_step e s1) = SYS_REBOOT # t # ts" "\<not> eo_exited (download_step e s1)"
      using jobs_download_step[of e s1] t by (auto simp: jobs_def)
    with t s1(2) show ?thesis by (simp add: stuck_def task_step_def Let_def)
  qed
qed

lemma stuck_step: "stuck s \<Longrightarrow> stuck (eoc_step ev s)"
proof (cases ev)
  case (E_message e)
  assume "stuck s"
  with proPkgs_jobs[of e s] E_message show ?thesis by (auto simp: stuck_def)
next
  case (E_round e now)
  assume "stuck s"
  with E_round show ?thesis by (simp add: stuck_round)
qed (auto simp: getPkgs_byte_def stuck_def jobs_ThreadDownload)

text \<open>
  C27. When two configurations have been processed before the program restarted, it never restarts: each
  round takes one restart off the list, sees the other one as unfinished work and puts the first back,
  whatever bytes, messages, downloads and rounds follow.
\<close>
theorem two_reboots_never:
  assumes "eo_task s = SYS_REBOOT # SYS_REBOOT # ts" "set ts \<subseteq> {SYS_REBOOT}" "\<not> eo_exited s"
  shows "\<not> eo_exited (eoc_run evs s) \<and> 2 \<le> length (eo_task (eoc_run evs s))"
proof -
  have "stuck s" using assms by (simp add: stuck_def)
  then have "stuck (eoc_run evs s)"
    unfolding eoc_run_def by (induction evs arbitrary: s) (auto simp: stuck_step)
  then show ?thesis by (simp add: stuck_def)
qed

text \<open>A round of a client that is logged in and knows its name runs through all its parts.\<close>

lemma step_goes_on [simp]:
  "ee_uname e = Some u \<Longrightarrow> fst (config_step e now s)" "fst (heart_step e now s)" "fst (net_step e now s)"
  "fst (state_step e now s)"
  by (auto simp: config_step_def heart_step_def net_step_def state_step_def Let_def split: option.splits prod.splits)

lemma and_then_on: "fst (f s) \<Longrightarrow> and_then s f g = g (snd (f s))"
  by (cases "f s") (simp add: and_then_def)

lemma round_full:
  assumes "eo_isLogIn s" "ee_uname e = Some u"
  shows "intervalPro_round e now s = task_step (download_step e
    (snd (state_step e now (snd (net_step e now (snd (heart_step e now (snd (config_step e now s)))))))))"
  using assms by (simp add: intervalPro_round_def and_then_on)

text \<open>
  With one restart to do and no message in between, a round of a client that is logged in ends the
  program exactly when no download is left waiting; those that have ended are reported first.
\<close>
lemma reboot_when_idle:
  assumes "eo_isLogIn s" "ee_uname e = Some u" "eo_task s = [SYS_REBOOT]" "\<not> eo_exited s"
  shows "eo_exited (intervalPro_round e now s) \<longleftrightarrow>
    filter (\<lambda>d. dm_download_status d = DOWNLOAD_IDLE) (eo_downloads_msg s) = []"
proof -
  let ?s1 = "snd (state_step e now (snd (net_step e now (snd (heart_step e now (snd (config_step e now s)))))))"
  have "jobs ?s1 = jobs s" by simp
  then have "jobs (download_step e ?s1) =
      ([SYS_REBOOT], False, filter (\<lambda>d. dm_download_status d = DOWNLOAD_IDLE) (eo_downloads_msg s))"
    using jobs_download_step[of e ?s1] assms(3,4) by (simp add: jobs_def)
  then show ?thesis
    unfolding round_full[OF assms(1,2)] by (auto simp: jobs_def task_step_def Let_def)
qed

section \<open>Heartbeats\<close>

text \<open>What the other parts of a round leave alone, and that they never revive the connection.\<close>

definition pulse :: "'db EOCCom \<Rightarrow> int \<times> bool \<times> int" where
  "pulse s = (eo_heartFlag s, eo_isLogIn s, eo_last_send_heart_t s)"

lemma pulse_steps [simp]:
  "pulse (snd (config_step e now s)) = pulse s" "pulse (snd (net_step e now s)) = pulse s"
  "pulse (snd (state_step e now s)) = pulse s"
  by (auto simp: pulse_def config_step_def net_step_def state_step_def Let_def split: option.splits prod.splits)

lemma report_devices_pulse [simp]: "pulse (report_devices e st us s) = pulse s"
  by (induction us arbitrary: s) (auto simp: eoc_write_def pulse_def)

lemma report_downloads_pulse [simp]: "pulse (snd (report_downloads e ds s)) = pulse s"
  by (induction ds arbitrary: s) auto

lemma pulse_last [simp]: "pulse (task_step (download_step e s)) = pulse s"
proof -
  have "pulse (task_step s) = pulse s" for s :: "'a EOCCom"
    by (simp add: task_step_def pulse_def Let_def split: list.splits)
  then show ?thesis
    using report_downloads_pulse[of e "eo_downloads_msg s" s]
    by (simp add: download_step_alt pulse_def)
qed

text \<open>All writes of the environment succeed.\<close>

definition writes_ok :: "('db, 'alg) eoc_env \<Rightarrow> bool" where
  "writes_ok e \<longleftrightarrow> (\<forall>n body. 0 \<le> ee_write e n body)"

lemma live_steps [simp]:
  assumes "writes_ok e"
  shows "eo_isLive (snd (config_step e now s)) = eo_isLive s" "eo_isLive (snd (net_step e now s)) = eo_isLive s"
    "eo_isLive (snd (state_step e now s)) = eo_isLive s"
  using assms
  by (auto simp: writes_ok_def config_step_def net_step_def state_step_def Let_def split: option.splits prod.splits)

lemma report_devices_live [simp]: "writes_ok e \<Longrightarrow> eo_isLive (report_devices e st us s) = eo_isLive s"
  by (induction us arbitrary: s) (auto simp: eoc_write_def writes_ok_def not_less[symmetric])

lemma report_downloads_live [simp]: "writes_ok e \<Longrightarrow> eo_isLive (snd (report_downloads e ds s)) = eo_isLive s"
  by (induction ds arbitrary: s) auto

lemma live_last [simp]: "writes_ok e \<Longrightarrow> eo_isLive (task_step (download_step e s)) = eo_isLive s"
proof -
  assume w: "writes_ok e"
  have "eo_isLive (task_step s) = eo_isLive s" for s :: "'a EOCCom"
    by (simp add: task_step_def Let_def split: list.splits)
  then show ?thesis
    using report_downloads_live[OF w, of "eo_downloads_msg s" s]
    by (simp add: download_step_alt)
qed




definition rounds :: "(('db, 'alg) eoc_env \<times> int) list \<Rightarrow> 'db EOCCom \<Rightarrow> 'db EOCCom" where
  "rounds rs s = eoc_run (map (\<lambda>(e, now). E_round e now) rs) s"

lemma rounds_simps [simp]: "rounds [] s = s" "rounds ((e, now) # rs) s = rounds rs (intervalPro_round e now s)"
  by (simp_all add: rounds_def eoc_run_def)




section \<open>Downloads\<close>

text \<open>The reports of the downloads that have ended.\<close>

definition reports :: "('db, 'alg) eoc_env \<Rightarrow> EocDownloadsMsg list \<Rightarrow> string list" where
  "reports e ds =
     concat (map (\<lambda>d. map (\<lambda>u. eoc_body e (download_report blank_S106 (dm_download_status d) (ud_comm_guid u)))
         (filter (\<lambda>u. ud_dev_type u = EOC_UPGRADE_PARKINGAREA) (dm_upgrade_dev d)))
       (filter (\<lambda>d. dm_download_status d \<noteq> DOWNLOAD_IDLE) ds))"

lemma report_devices_sent:
  "writes_ok e \<Longrightarrow> eo_sent (report_devices e st us s) = eo_sent s @
     map (\<lambda>u. eoc_body e (download_report blank_S106 st (ud_comm_guid u)))
       (filter (\<lambda>u. ud_dev_type u = EOC_UPGRADE_PARKINGAREA) us)"
  by (induction us arbitrary: s) (auto simp: eoc_write_def writes_ok_def not_less[symmetric])

lemma report_downloads_sent:
  "writes_ok e \<Longrightarrow> eo_sent (snd (report_downloads e ds s)) = eo_sent s @ reports e ds"
  by (induction ds arbitrary: s) (auto simp: reports_def report_devices_sent)

lemma download_step_eq:
  "eo_sent (download_step e s) = eo_sent (snd (report_downloads e (eo_downloads_msg s) s))"
  "eo_downloads_msg (download_step e s) =
     filter (\<lambda>d. dm_download_status d = DOWNLOAD_IDLE) (eo_downloads_msg s)"
  by (simp_all add: download_step_alt report_downloads_idle)

text \<open>
  Each download that has ended is reported once to every device that waits for it, in order and with
  the result the download had, and is forgotten; those that run stay.
\<close>
lemma downloads_reported_once:
  assumes "writes_ok e"
  shows "eo_sent (download_step e s) = eo_sent s @ reports e (eo_downloads_msg s) \<and>
    eo_downloads_msg (download_step e s) = filter (\<lambda>d. dm_download_status d = DOWNLOAD_IDLE) (eo_downloads_msg s) \<and>
    download_step e (download_step e s) = download_step e s"
proof -
  have idle: "report_downloads e ds s = (ds, s)" if "\<forall>d \<in> set ds. dm_download_status d = DOWNLOAD_IDLE" for ds s
    using that by (induction ds arbitrary: s) auto
  have "download_step e (download_step e s) = download_step e s"
    by (subst download_step_def) (simp add: download_step_eq idle)
  then show ?thesis by (simp add: download_step_eq report_downloads_sent assms)
qed

lemma report_devices_update [simp]: "eo_update (report_devices e st us s) = eo_update s"
  by (induction us arbitrary: s) (auto simp: eoc_write_def)

lemma report_downloads_update [simp]: "eo_update (snd (report_downloads e ds s)) = eo_update s"
  by (induction ds arbitrary: s) auto

lemma download_step_update: "eo_update (download_step e s) = eo_update s"
  by (simp add: download_step_alt)

text \<open>
  C29. A download that fails blocks all later ones. The file it was written to is left behind; as its MD5 is
  not the wanted one, the handler of the next request answers nothing but the receipt and adds no
  download, though its comment says that a file whose MD5 is wrong is downloaded again.
\<close>
theorem failed_download_blocks:
  assumes "ee_R106 e1 c1 = Some d1" "eo_update s = None" "eo_downloads_msg s = []"
    "cu_open (ee_curl e2 (r6_DownloadPath d1))" "cu_md5 (ee_curl e2 (r6_DownloadPath d1)) = bad"
    "writes_ok e3" "ee_R106 e4 c4 = Some d4" "r6_FileMD5 d4 \<noteq> bad"
  defines "s1 \<equiv> processR106 e1 c1 s"
  defines "s2 \<equiv> ThreadDownload e2 (r6_DownloadPath d1) s1"
  defines "s3 \<equiv> download_step e3 s2"
  defines "s4 \<equiv> processR106 e4 c4 s3"
  shows "length (eo_downloads_msg s1) = 1 \<and> length (eo_sent s3) = length (eo_sent s1) + 1 \<and>
    eo_downloads_msg s4 = [] \<and>
    eo_sent s4 = eo_sent s3 @ [eoc_body e4 (S106 COMVersion (r6_Guid d4) 1 1 0 ''Receive controller download msg succeed'')]"
proof -
  have s1: "eo_downloads_msg s1 = [\<lparr>dm_upgrade_dev = [new_device (r6_Guid d1)], dm_download_status = DOWNLOAD_IDLE,
      dm_download_url = r6_DownloadPath d1, dm_download_file_name = r6_FileName d1,
      dm_download_file_size = atoi (r6_FileSize d1), dm_download_file_md5 = r6_FileMD5 d1\<rparr>]" "eo_update s1 = None"
    using assms(1-3) by (simp_all add: s1_def processR106_def)
  define result where "result = fst (downloadFile (ee_curl e2 (r6_DownloadPath d1)) (r6_FileMD5 d1))"
  have dl: "downloadFile (ee_curl e2 (r6_DownloadPath d1)) (r6_FileMD5 d1) = (result, Some bad)"
    using assms(4,5) by (simp add: result_def downloadFile_def)
  have r: "result \<in> {0, - 1, - 2, - 3, - 4}"
    using dl by (auto simp: downloadFile_def split: if_splits)
  have s2: "eo_downloads_msg s2 = [(hd (eo_downloads_msg s1))\<lparr>dm_download_status := download_status result DOWNLOAD_IDLE\<rparr>]"
    "eo_update s2 = Some bad" "eo_sent s2 = eo_sent s1"
    by (simp_all add: s2_def ThreadDownload_def s1 dl updateFileName_def new_device_def)
  have st: "download_status result DOWNLOAD_IDLE \<noteq> DOWNLOAD_IDLE"
    using r by (auto simp: download_status_def)
  have s3: "eo_downloads_msg s3 = []" "eo_update s3 = Some bad" "length (eo_sent s3) = length (eo_sent s1) + 1"
    by (simp_all add: s3_def download_step_eq s2 st download_step_update report_downloads_sent[OF assms(6)] reports_def s1 new_device_def
        del: report_devices.simps report_downloads_Cons)
  then show ?thesis
    using assms(7,8) by (simp add: s1 s4_def processR106_def)
qed

section \<open>Upgrade\<close>

text \<open>
  An upgrade whose archive cannot be unpacked is reported as done: \<open>runCmd\<close> gives the exit status of
  \<open>tar\<close>, which is positive when it fails, and only negative results count as failures. The install script
  of the old directory is run, and the archive is gone.
\<close>
lemma upgrade_ignores_tar:
  assumes "ee_R107 e content = Some data" "eo_update s = Some (r7_FileMD5 data)" "ee_remove e"
    "ee_cmd e (''rm -rf '' @ UPDATEUNZIPFILE) = 0" "ee_cmd e (''mkdir -p '' @ UPDATEUNZIPFILE) = 0"
    "0 < ee_cmd e (''tar -zxf '' @ UPDATEFILE @ '' -C '' @ UPDATEUNZIPFILE)"
  shows "eo_sent (processR107 e content s) = eo_sent s @
      map (\<lambda>(result, state, progress, msg). eoc_body e (S107 COMVersion (r7_Guid data) result state progress msg))
        [(1, 1, 0, msg_command), (2, 1, 25, msg_checked), (2, 1, 0, msg_upgraded)] \<and>
    eo_update (processR107 e content s) = None \<and>
    eo_commands (processR107 e content s) = eo_commands s @ snd (startUpgrade e)"
  using assms by (simp add: processR107_def extractFile_def Let_def)

section \<open>Runs\<close>

text \<open>An environment whose database keeps rows, and a client that is logged in.\<close>

definition demo_R102 :: "unit R102" where
  "demo_R102 =
    \<lparr>r2_Guid = ''g2'',
     r2_Data = \<lparr>dr_DataVersion = ''v1'',
       dr_IntersectionInfo = \<lparr>ie_Guid = ''x'', ie_Name = ''cross'', ie_Type = 1, ie_PlatId = ''p'', ie_XLength = 1,
         ie_YLength = 2, ie_LaneNumber = 4, ie_Latitude = ''30'', ie_longitude = ''120'',
         ie_IntersectionBaseSetting = \<lparr>ib_FlagEast = 1, ib_FlagSouth = 0, ib_FlagWest = 1, ib_FlagNorth = 0,
           ib_DeltaXEast = 1, ib_DeltaYEast = 2, ib_DeltaXSouth = 3, ib_DeltaYSouth = 4, ib_DeltaXWest = 5,
           ib_DeltaYWest = 6, ib_DeltaXNorth = 7, ib_DeltaYNorth = 8, ib_WidthX = 9, ib_WidthY = 10\<rparr>\<rparr>,
       dr_Index = 3,
       dr_BaseSetting = \<lparr>be_City = ''c'', be_IsUploadToPlatform = 1, be_Is4Gmodel = 0, be_IsIllegalCapture = 0,
         be_IsPrintIntersectionName = 1, be_Remarks = [], be_FilesServicePath = ''f'', be_FilesServicePort = 80,
         be_MainDNS = ''d'', be_AlternateDNS = ''a'', be_PlatformTcpPath = ''t'', be_PlatformTcpPort = 81,
         be_PlatformHttpPath = ''h'', be_PlatformHttpPort = 82, be_SignalMachinePath = ''s'', be_SignalMachinePort = 83,
         be_IsUseSignalMachine = 1, be_NtpServerPath = ''n'', be_IllegalPlatformAddress = ''i'',
         be_FusionMainboardIp = ''m'', be_FusionMainboardPort = 84\<rparr>,
       dr_AssociatedEquips = [\<lparr>aq_EquipType = 1, aq_EquipCode = ''radar''\<rparr>, \<lparr>aq_EquipType = 2, aq_EquipCode = ''cam''\<rparr>],
       dr_FusionParas = (), dr_RelatedAreas = []\<rparr>\<rparr>"

definition demo_R106 :: "string \<Rightarrow> R106" where
  "demo_R106 md5 =
    \<lparr>r6_Guid = ''g6'', r6_FileName = ''u'', r6_FileSize = ''5'', r6_FileVersion = ''2'', r6_DownloadPath = ''url'',
     r6_FileMD5 = md5\<rparr>"

definition demo_R107 :: R107 where
  "demo_R107 =
    \<lparr>r7_Guid = ''g7'', r7_FileName = ''u'', r7_FileVersion = ''2'', r7_UpgradeMode = 1, r7_FileMD5 = ''good'',
     r7_CurrentSoftVersion = ''1'', r7_HardwareVersion = ''1''\<rparr>"

definition eoc_demo_env :: "'db exec \<Rightarrow> ('db, unit) eoc_env" where
  "eoc_demo_env exec =
    \<lparr>ee_write = (\<lambda>n body. 1), ee_encode = (\<lambda>m. ''json''), ee_code = (\<lambda>m. Some m), ee_R100 = (\<lambda>m. True),
     ee_R101 = (\<lambda>m. Some 1), ee_R102 = (\<lambda>m. Some demo_R102), ee_R104 = (\<lambda>m. True),
     ee_R106 = (\<lambda>m. Some (demo_R106 ''good'')), ee_R107 = (\<lambda>m. Some demo_R107), ee_alg_json = (\<lambda>a. ''a''),
     ee_areas_json = (\<lambda>a. ''r''), ee_format = (\<lambda>j. j), ee_open = (\<lambda>f. True), ee_exec = exec,
     ee_real_text = (\<lambda>x. []), ee_time = ''now'', ee_uuid = ''u'', ee_uname = Some ''sn'', ee_eth_ip = ''1'',
     ee_n2n_ip = [], ee_mac = ''mac'', ee_build = ''b'', ee_cpu = (1, 2), ee_memory = (3, 4),
     ee_dirInfo = (\<lambda>d. (5, 6)), ee_net_total = 7, ee_net_success = 7,
     ee_cmd = (\<lambda>c. if take 3 c = ''tar'' then 512 else 0), ee_remove = True, ee_cwd = ''/home'',
     ee_curl = (\<lambda>url. \<lparr>cu_open = True, cu_init = True, cu_res = CURLE_OPERATION_TIMEDOUT, cu_http = 0, cu_md5 = ''part''\<rparr>)\<rparr>"

definition eoc_demo :: "'db \<Rightarrow> 'db EOCCom" where
  "eoc_demo db =
    \<lparr>eo_isLive = True, eo_businessStart = True, eo_pkgs = ten_queue [], eo_isLogIn = True, eo_heartFlag = 0,
     eo_last_login_t = 0, eo_last_send_heart_t = 0, eo_last_send_net_state_t = 0, eo_last_get_config_t = 0,
     eo_last_send_state_t = 0, eo_sendNetTotal = 0, eo_sendNetSuccess = 0, eo_downloads_msg = [], eo_task = [],
     eo_content = [], eo_version = [], eo_sent = [], eo_files = [], eo_db = db, eo_update = None,
     eo_commands = [], eo_exited = False\<rparr>"

lemma eoc_stream_cut_witness:
  "eo_pkgs (getPkgs (starred [''ab'', ''c''] @ ''d'') (eoc_demo ())) = ten_queue [''ab'', ''c''] \<and>
   eo_content (getPkgs (starred [''ab'', ''c''] @ ''d'') (eoc_demo ())) = ''d''"
  using eoc_stream_cut[of "''d''" "[''ab'', ''c'']" "eoc_demo ()" "[]"] by (simp add: eoc_demo_def)

lemma config_always_acknowledged_witness:
  "eo_task (processR102 (eoc_demo_env (\<lambda>stmt db. (db, None))) ''m'' (eoc_demo ())) = [SYS_REBOOT] \<and>
   eo_sent (processR102 (eoc_demo_env (\<lambda>stmt db. (db, None))) ''m'' (eoc_demo ())) = [''json*'']"
  using config_always_acknowledged[of "eoc_demo_env (\<lambda>stmt db. (db, None))" "''m''" demo_R102 "eoc_demo ()"]
  by (simp add: eoc_demo_env_def eoc_demo_def eoc_body_def)

lemma rows_exec_rows_ok: "rows_ok rows_exec id"
  by (simp add: rows_ok_def)

theorem config_replaces_tables_witness:
  "eo_db (processR102 (eoc_demo_env rows_exec) ''m'' (eoc_demo (\<lambda>t. [])))  ''conf_version'' =
     [[(''version'', SText ''v1''), (''time'', SText ''now'')]] \<and>
   length (eo_db (processR102 (eoc_demo_env rows_exec) ''m'' (eoc_demo (\<lambda>t. []))) ''associated_equip'') = 2"
  using config_replaces_tables[of "eoc_demo_env rows_exec" "''m''" demo_R102 id "eoc_demo (\<lambda>t. [])"] rows_exec_rows_ok
  by (simp add: eoc_demo_env_def eoc_demo_def configured_def demo_R102_def)

theorem two_reboots_never_witness:
  "\<not> eo_exited (eoc_run [E_round (eoc_demo_env rows_exec) 10, E_round (eoc_demo_env rows_exec) 20]
     ((eoc_demo (\<lambda>t. []))\<lparr>eo_task := [SYS_REBOOT, SYS_REBOOT]\<rparr>))"
  using two_reboots_never[of "(eoc_demo (\<lambda>t. []))\<lparr>eo_task := [SYS_REBOOT, SYS_REBOOT]\<rparr>" "[]"
      "[E_round (eoc_demo_env rows_exec) 10, E_round (eoc_demo_env rows_exec) 20]"]
  by (simp add: eoc_demo_def)

theorem reboot_when_idle_witness:
  "eo_exited (intervalPro_round (eoc_demo_env rows_exec) 10 ((eoc_demo (\<lambda>t. []))\<lparr>eo_task := [SYS_REBOOT]\<rparr>))"
  using reboot_when_idle[of "(eoc_demo (\<lambda>t. []))\<lparr>eo_task := [SYS_REBOOT]\<rparr>" "eoc_demo_env rows_exec" "''sn''" 10]
  by (simp add: eoc_demo_def eoc_demo_env_def)


lemma downloads_reported_once_witness:
  "eo_sent (download_step (eoc_demo_env rows_exec) ((eoc_demo (\<lambda>t. []))\<lparr>eo_downloads_msg :=
     [\<lparr>dm_upgrade_dev = [new_device ''g''], dm_download_status = DOWNLOAD_TIMEOUT, dm_download_url = ''url'',
       dm_download_file_name = ''u'', dm_download_file_size = 5, dm_download_file_md5 = ''good''\<rparr>]\<rparr>)) = [''json*'']"
  using downloads_reported_once[of "eoc_demo_env rows_exec" "(eoc_demo (\<lambda>t. []))\<lparr>eo_downloads_msg :=
     [\<lparr>dm_upgrade_dev = [new_device ''g''], dm_download_status = DOWNLOAD_TIMEOUT, dm_download_url = ''url'',
       dm_download_file_name = ''u'', dm_download_file_size = 5, dm_download_file_md5 = ''good''\<rparr>]\<rparr>"]
  by (simp add: eoc_demo_def eoc_demo_env_def writes_ok_def reports_def new_device_def eoc_body_def)

theorem failed_download_blocks_witness:
  "eo_downloads_msg (processR106 (eoc_demo_env rows_exec) ''m'' (download_step (eoc_demo_env rows_exec)
     (ThreadDownload (eoc_demo_env rows_exec) ''url'' (processR106 (eoc_demo_env rows_exec) ''m'' (eoc_demo (\<lambda>t. [])))))) = []"
  using failed_download_blocks[of "eoc_demo_env rows_exec" "''m''" "demo_R106 ''good''" "eoc_demo (\<lambda>t. [])"
      "eoc_demo_env rows_exec" "''part''" "eoc_demo_env rows_exec" "eoc_demo_env rows_exec" "''m''" "demo_R106 ''good''"]
  by (simp add: eoc_demo_def eoc_demo_env_def writes_ok_def demo_R106_def)

theorem upgrade_ignores_tar_witness:
  "eo_sent (processR107 (eoc_demo_env rows_exec) ''m'' ((eoc_demo (\<lambda>t. []))\<lparr>eo_update := Some ''good''\<rparr>)) =
     [''json*'', ''json*'', ''json*'']"
  using upgrade_ignores_tar[of "eoc_demo_env rows_exec" "''m''" demo_R107 "(eoc_demo (\<lambda>t. []))\<lparr>eo_update := Some ''good''\<rparr>"]
  by (simp add: eoc_demo_def eoc_demo_env_def demo_R107_def eoc_body_def)

text \<open>The word \<open>get_ntp_info\<close> at the end, or with an address only, throws.\<close>

lemma ntp_at_end:
  "getNTPFromContent ''* get_ntp_info'' ip port = Ntp_throws"
  "getNTPFromContent ''* get_ntp_info 10.0.0.1'' ip port = Ntp_throws"
proof -
  have s: "split ''* get_ntp_info'' '' '' = [''*'', ''get_ntp_info'']"
    "split ''* get_ntp_info 10.0.0.1'' '' '' = [''*'', ''get_ntp_info'', ''10.0.0.1'']"
    by code_simp+
  show "getNTPFromContent ''* get_ntp_info'' ip port = Ntp_throws"
    "getNTPFromContent ''* get_ntp_info 10.0.0.1'' ip port = Ntp_throws"
    by (simp_all add: getNTPFromContent_def s)
qed

end
