(* ===== verification/Dns.thy ===== *)
theory Dns
  imports Os
begin

text \<open>
  Host names: the URI parser \<open>eocCom/dns/uri.cpp\<close> and \<open>eocCom/dns/DNSServer.cpp\<close>, which asks the system
  or, when that fails, sends a DNS query of its own, and keeps the addresses in a table that a thread
  refreshes.

  Parameters: the system's resolver, the answers of the DNS servers. A buffer is a list of bytes; writing or
  reading outside it is an error of the model. The table is a \<open>std::map\<close>, a list sorted by its keys.
\<close>

section \<open>URIs\<close>

record ast_uri =
  scheme :: "string option"
  user_info :: "string option"
  host :: "string option"
  port :: "string option"
  path :: "string option"
  query :: "string option"

text \<open>What is before and after the first occurrence: \<open>strchr\<close> and \<open>strstr\<close>.\<close>

fun cut_char :: "char \<Rightarrow> string \<Rightarrow> (string \<times> string) option" where
  "cut_char c [] = None"
| "cut_char c (x # xs) = (if x = c then Some ([], xs) else map_option (\<lambda>(a, b). (x # a, b)) (cut_char c xs))"

fun cut_str :: "string \<Rightarrow> string \<Rightarrow> (string \<times> string) option" where
  "cut_str p [] = (if p = [] then Some ([], []) else None)"
| "cut_str p (x # xs) =
     (if take (length p) (x # xs) = p then Some ([], drop (length p) (x # xs))
      else map_option (\<lambda>(a, b). (x # a, b)) (cut_str p xs))"

text \<open>
  The parser moves a pointer over the text; \<open>sep\<close> is the character before it once the host has been cut
  off, and \<open>v\<close> what is left before the query. The fields are copied with their lengths, which is the text
  that was cut: for texts below \<open>2 ^ 32 - 1\<close> characters, as \<open>UriMem\<close> shows of the pointers and the sizes.
\<close>

definition ast_uri_parse :: "string \<Rightarrow> ast_uri" where
  "ast_uri_parse uri =
     (let (scheme, uri) = (case cut_str ''://'' uri of Some (a, b) \<Rightarrow> (Some a, b) | None \<Rightarrow> (None, uri));
          (user_info, uri) = (case cut_char CHR ''@'' uri of Some (a, b) \<Rightarrow> (Some a, b) | None \<Rightarrow> (None, uri));
          (host, sep, uri) = (case cut_char CHR '':'' uri of
             Some (a, b) \<Rightarrow> (Some a, CHR '':'', b) | None \<Rightarrow> (None, CHR 0x00, uri));
          (host, port, sep, uri) = (case cut_char CHR ''/'' uri of
             Some (a, b) \<Rightarrow> if host = None then (Some a, None, CHR ''/'', b) else (host, Some a, CHR ''/'', b)
           | None \<Rightarrow> (host, None, sep, uri));
          (query, v) = (case cut_char CHR ''?'' uri of Some (a, b) \<Rightarrow> (Some b, a) | None \<Rightarrow> (None, uri));
          u = \<lparr>scheme = scheme, user_info = user_info, host = host, port = port, path = None, query = query\<rparr>
      in if host = None then u\<lparr>host := Some v\<rparr>
         else if sep = CHR '':'' then u\<lparr>port := Some v\<rparr>
         else if sep = CHR ''/'' then u\<lparr>path := Some v\<rparr> else u)"

definition ast_uri_is_secure :: "ast_uri \<Rightarrow> bool" where
  "ast_uri_is_secure u = (case scheme u of None \<Rightarrow> False | Some s \<Rightarrow> s \<noteq> [] \<and> last s = CHR ''s'')"

definition ast_uri_copy_replace :: "ast_uri \<Rightarrow> ast_uri \<Rightarrow> ast_uri" where
  "ast_uri_copy_replace u new =
     (let pick = \<lambda>f. case f new of None \<Rightarrow> f u | Some s \<Rightarrow> Some s
      in \<lparr>scheme = pick scheme, user_info = pick user_info, host = pick host, port = pick port,
          path = pick path, query = pick query\<rparr>)"

definition uri_parse_and_default :: "string \<Rightarrow> string \<Rightarrow> string \<Rightarrow> string \<Rightarrow> ast_uri" where
  "uri_parse_and_default uri sch prt secure_port =
     (let res = ast_uri_parse (if startsWith uri sch then uri else sch @ ''://'' @ uri)
      in if port res = None \<or> port res = Some []
         then ast_uri_copy_replace res
                \<lparr>scheme = None, user_info = None, host = None,
                 port = Some (if ast_uri_is_secure res then secure_port else prt), path = None, query = None\<rparr>
         else res)"

definition ast_uri_parse_http :: "string \<Rightarrow> ast_uri" where
  "ast_uri_parse_http uri = uri_parse_and_default uri ''http'' ''80'' ''443''"

definition ast_uri_parse_websocket :: "string \<Rightarrow> ast_uri" where
  "ast_uri_parse_websocket uri = uri_parse_and_default uri ''ws'' ''80'' ''443''"

definition ast_uri_make_host_with_port :: "ast_uri \<Rightarrow> string" where
  "ast_uri_make_host_with_port u =
     (case host u of None \<Rightarrow> [] | Some h \<Rightarrow> h) @ (case port u of None \<Rightarrow> [] | Some p \<Rightarrow> CHR '':'' # p)"

section \<open>Addresses\<close>

text \<open>\<open>%d\<close> of \<open>sscanf\<close>, which takes what \<open>strtol\<close> takes, and what is left.\<close>

definition scan_int :: "string \<Rightarrow> (int \<times> string) option" where
  "scan_int s =
     (let s = dropWhile isspace s;
          (neg, s) = (case s of [] \<Rightarrow> (False, s)
             | c # cs \<Rightarrow> if c = CHR ''-'' then (True, cs) else if c = CHR ''+'' then (False, cs) else (False, s));
          ds = takeWhile isdigit s; n = (if neg then - number_of_digits ds else number_of_digits ds)
      in if ds = [] then None
         else Some (to_i32 (max (- (2 ^ 63)) (min (2 ^ 63 - 1) n)), dropWhile isdigit s))"

text \<open>Numbers separated by dots, as many as wanted; what follows the last one is not looked at.\<close>

fun scan_dotted :: "nat \<Rightarrow> string \<Rightarrow> int list option" where
  "scan_dotted 0 s = Some []"
| "scan_dotted (Suc n) s =
     (case scan_int s of
        None \<Rightarrow> None
      | Some (k, r) \<Rightarrow>
          if n = 0 then Some [k]
          else case r of
                 [] \<Rightarrow> None
               | c # r' \<Rightarrow> if c = CHR ''.'' then map_option (\<lambda>ks. k # ks) (scan_dotted n r') else None)"

definition dotted :: "int list \<Rightarrow> string" where
  "dotted ks = join_with CHR ''.'' (map string_of_int ks)"

definition isIP :: "string \<Rightarrow> bool" where
  "isIP str =
     (if 15 < length str then False
      else case scan_dotted 4 str of
             None \<Rightarrow> False
           | Some ks \<Rightarrow>
               if dotted ks \<noteq> str then False
               else list_all (\<lambda>k. 0 \<le> k \<and> k \<le> 255) (take 3 ks))"

section \<open>Queries\<close>

text \<open>
  \<open>dns_resolve_114\<close> copies the name behind a byte of the buffer and then goes through it: at each dot, and
  at the end, the byte before the label gets the label's length.
\<close>

fun label_loop :: "nat \<Rightarrow> bytes \<Rightarrow> nat \<Rightarrow> nat \<Rightarrow> bytes" where
  "label_loop 0 buf ptr i = buf[ptr - i - 1 := word_of_nat i]"
| "label_loop (Suc n) buf ptr i =
     (if buf ! ptr = 0x2e then label_loop n (buf[ptr - i - 1 := word_of_nat i]) (ptr + 1) 0
      else label_loop n buf (ptr + 1) (i + 1))"

definition put :: "nat \<Rightarrow> bytes \<Rightarrow> bytes \<Rightarrow> bytes" where
  "put k xs buf = take k buf @ xs @ drop (k + length xs) buf"

definition BUF_SIZE :: nat where "BUF_SIZE = 1024"

text \<open>The buffer when the query is sent, and the query; \<open>None\<close> where the name does not fit.\<close>

definition dns_query :: "string \<Rightarrow> (bytes \<times> bytes) option" where
  "dns_query host_name =
     (let n = length host_name;
          buf = replicate BUF_SIZE 0;
          buf = put 0 [1, 0, 1, 0, 0, 1, 0, 0] buf
      in if BUF_SIZE < 12 + n + 6 then None
         else let buf = put 13 (map of_char host_name @ [0]) buf;
                  buf = label_loop n buf 13 0;
                  buf = put (14 + n) [0, 1, 0, 1] buf
              in Some (buf, take (18 + n) buf))"

section \<open>Answers\<close>

text \<open>Two bytes of the buffer; \<open>None\<close> beyond its end.\<close>

definition two :: "bytes \<Rightarrow> nat \<Rightarrow> (u8 \<times> u8) option" where
  "two buf k = (if k + 1 < length buf then Some (buf ! k, buf ! (k + 1)) else None)"

text \<open>A record at an offset: \<open>None\<close> where the buffer is left, \<open>Some None\<close> where there is none.\<close>

definition dns_record :: "bytes \<Rightarrow> nat \<Rightarrow> string option option" where
  "dns_record buf i =
     (case two buf (i + 2) of
        None \<Rightarrow> None
      | Some t \<Rightarrow>
          if t \<noteq> (0, 1) then Some None
          else case two buf (i + 4) of
                 None \<Rightarrow> None
               | Some c \<Rightarrow>
                   if c \<noteq> (0, 1) then Some None
                   else case two buf (i + 10) of
                          None \<Rightarrow> None
                        | Some l \<Rightarrow>
                            if l \<noteq> (0, 4) then Some None
                            else if length buf < i + 16 then None
                            else Some (Some (dotted (map uint (take 4 (drop (i + 12) buf))))))"

fun dns_data_from :: "bytes \<Rightarrow> nat list \<Rightarrow> string list option" where
  "dns_data_from buf [] = Some []"
| "dns_data_from buf (i # is) =
     (case dns_record buf i of
        None \<Rightarrow> None
      | Some r \<Rightarrow> map_option (\<lambda>ips. case r of None \<Rightarrow> ips | Some ip \<Rightarrow> ip # ips) (dns_data_from buf is))"

definition dns_data_parse :: "bytes \<Rightarrow> nat \<Rightarrow> string list option" where
  "dns_data_parse buf len = dns_data_from buf [0..<len]"

definition dns_head_parse :: "bytes \<Rightarrow> int" where
  "dns_head_parse buf = (if take 2 buf \<noteq> [1, 0] then - 1 else if take 2 (drop 2 buf) \<noteq> [0x81, 0x80] then - 1 else 0)"

definition dns_parse :: "bytes \<Rightarrow> nat \<Rightarrow> string list option" where
  "dns_parse buf len = (if dns_head_parse buf < 0 then Some [] else dns_data_parse buf len)"

text \<open>The answer is received into the buffer of the query, whose later bytes stay.\<close>

datatype dns_result = Dns_outside | Dns_fails | Dns_address string

definition dns_resolve_114 :: "(bytes \<Rightarrow> bytes option) \<Rightarrow> string \<Rightarrow> dns_result" where
  "dns_resolve_114 server host_name =
     (case dns_query host_name of
        None \<Rightarrow> Dns_outside
      | Some (buf, sent) \<Rightarrow>
          (case server sent of
             None \<Rightarrow> Dns_fails
           | Some answer \<Rightarrow>
               let answer = take BUF_SIZE answer; buf = put 0 answer buf
               in if take 2 (drop 6 buf) = [0, 0] then Dns_fails
                  else case dns_parse buf (length answer) of
                         None \<Rightarrow> Dns_outside
                       | Some [] \<Rightarrow> Dns_fails
                       | Some (ip # ips) \<Rightarrow> Dns_address ip))"

text \<open>
  \<open>url_get\<close>: the system's resolver fails, gives no host, or an address. The number of servers that are
  asked is \<open>sizeof(dnsserver) / 64\<close>.
\<close>

datatype hostent = Host_error | Host_null | Host_address string

definition dnsserver :: "string list" where
  "dnsserver =
     [''119.29.29.29'', ''182.254.116.116'', ''114.114.114.114'', ''223.5.5.5'', ''223.6.6.6'', ''180.76.76.76'',
      ''8.8.8.8'', ''8.8.4.4'']"

fun ask_servers :: "(string \<Rightarrow> bytes \<Rightarrow> bytes option) \<Rightarrow> string \<Rightarrow> string list \<Rightarrow> dns_result" where
  "ask_servers net host_name [] = Dns_fails"
| "ask_servers net host_name (d # ds) =
     (case dns_resolve_114 (net d) host_name of
        Dns_outside \<Rightarrow> Dns_outside
      | Dns_fails \<Rightarrow> ask_servers net host_name ds
      | Dns_address ip \<Rightarrow> Dns_address ip)"

definition url_get :: "(string \<Rightarrow> hostent) \<Rightarrow> (string \<Rightarrow> bytes \<Rightarrow> bytes option) \<Rightarrow> string \<Rightarrow> dns_result" where
  "url_get gethostbyname net hoststr =
     (case gethostbyname hoststr of
        Host_error \<Rightarrow> ask_servers net hoststr (take (length dnsserver * 32 div 64) dnsserver)
      | Host_null \<Rightarrow> Dns_fails
      | Host_address ip \<Rightarrow> Dns_address ip)"

section \<open>The table\<close>

text \<open>
  The refresh goes through the table with one variable for the address, which a failed lookup leaves as it
  is. \<open>lookup\<close> is \<^const>\<open>url_get\<close>, \<open>None\<close> where it fails.
\<close>

fun refresh :: "(string \<Rightarrow> string option) \<Rightarrow> string \<Rightarrow> (string \<times> string) list \<Rightarrow> (string \<times> string) list" where
  "refresh lookup ipaddr [] = []"
| "refresh lookup ipaddr ((h, ip) # es) =
     (let ipaddr = (case lookup h of None \<Rightarrow> ipaddr | Some a \<Rightarrow> a)
      in (h, if ipaddr \<noteq> [] then ipaddr else ip) # refresh lookup ipaddr es)"

fun table_put :: "string \<Rightarrow> 'a \<Rightarrow> (string \<times> 'a) list \<Rightarrow> (string \<times> 'a) list" where
  "table_put k v [] = [(k, v)]"
| "table_put k v ((k', v') # m) =
     (if k < k' then (k, v) # (k', v') # m else if k = k' then (k, v) # m else (k', v') # table_put k v m)"

text \<open>The first occurrence of a text, replaced.\<close>

definition replace_first :: "string \<Rightarrow> string \<Rightarrow> string \<Rightarrow> string" where
  "replace_first old new s = (case cut_str old s of None \<Rightarrow> s | Some (a, b) \<Rightarrow> a @ new @ b)"

record dns_out =
  do_url_ip :: string
  do_host :: string
  do_port :: string

definition searchDNS ::
  "(string \<Rightarrow> string option) \<Rightarrow> string \<Rightarrow> int \<Rightarrow> dns_out \<times> (string \<times> string) list \<Rightarrow>
   int \<times> dns_out \<times> (string \<times> string) list" where
  "searchDNS lookup url force = (\<lambda>(out, table).
     if force = 2 then (0, out, refresh lookup [] table)
     else if url = [] then (- 1, out, table)
     else let out = out\<lparr>do_url_ip := url\<rparr>; u = ast_uri_parse url
          in case host u of
               None \<Rightarrow> (- 1, out, table)
             | Some h \<Rightarrow>
                 let out = out\<lparr>do_host := h, do_port := (case port u of None \<Rightarrow> ''80'' | Some p \<Rightarrow> p)\<rparr>
                 in if isIP h then (- 1, out, table)
                    else let found = (if force = 1 \<or> map_of table h = None
                           then map_option (\<lambda>ip. (ip, if ip \<noteq> [] then table_put h ip table else table)) (lookup h)
                           else Some (the (map_of table h), table))
                         in case found of
                              None \<Rightarrow> (- 1, out, table)
                            | Some (ip, table) \<Rightarrow>
                                (0, out\<lparr>do_url_ip := replace_first ''http://'' [] (replace_first h ip url)\<rparr>, table))"

section \<open>A query is well formed\<close>

text \<open>What is between the dots of a name.\<close>

fun fields :: "char \<Rightarrow> string \<Rightarrow> string list" where
  "fields d [] = [[]]"
| "fields d (c # cs) = (if c = d then [] # fields d cs else (c # hd (fields d cs)) # tl (fields d cs))"

text \<open>The name as the code writes it: each label behind its length, cut to a byte.\<close>

definition dns_label :: "string \<Rightarrow> bytes" where
  "dns_label l = word_of_nat (length l) # map of_char l"

definition dns_name :: "string \<Rightarrow> bytes" where
  "dns_name host_name = concat (map dns_label (fields CHR ''.'' host_name))"

lemma fields_not_Nil [simp]: "fields d s \<noteq> []"
  by (cases s) simp_all

fun labels_of :: "bytes \<Rightarrow> bytes \<Rightarrow> bytes" where
  "labels_of lab [] = word_of_nat (length lab) # lab"
| "labels_of lab (c # cs) =
     (if c = 0x2e then (word_of_nat (length lab) # lab) @ labels_of [] cs else labels_of (lab @ [c]) cs)"

lemma label_loop_labels:
  "label_loop (length cs) (pre @ x # lab @ cs @ post) (length pre + 1 + length lab) (length lab) =
     pre @ labels_of lab cs @ post"
proof (induction cs arbitrary: pre x lab)
  case Nil
  then show ?case by (simp add: list_update_append)
next
  case (Cons c cs)
  have c: "(pre @ x # lab @ (c # cs) @ post) ! (length pre + 1 + length lab) = c"
    by (simp add: nth_append)
  show ?case
  proof (cases "c = 0x2e")
    case True
    have "(pre @ x # lab @ (c # cs) @ post)[length pre + 1 + length lab - length lab - 1 := word_of_nat (length lab)] =
        (pre @ word_of_nat (length lab) # lab) @ c # [] @ cs @ post"
      by (simp add: list_update_append)
    then show ?thesis
      using Cons[of "pre @ word_of_nat (length lab) # lab" c "[]"] c True by simp
  next
    case False
    then show ?thesis using Cons[of pre x "lab @ [c]"] c by simp
  qed
qed

lemma of_char_dot: "of_char c = (0x2e :: u8) \<longleftrightarrow> c = CHR ''.''"
proof
  assume "of_char c = (0x2e :: u8)"
  then have "unat (word_of_nat (of_char c) :: u8) = 46" by (simp add: of_nat_of_char)
  then have "of_char c = (46 :: nat)" by (simp add: unat_of_nat take_bit_eq_mod)
  then have "of_char c = (of_char CHR ''.'' :: nat)" by simp
  then show "c = CHR ''.''" by (simp only: of_char_eq_iff)
qed simp

lemma labels_of_name:
  "labels_of lab (map of_char cs) =
     word_of_nat (length lab + length (hd (fields CHR ''.'' cs))) # lab @ map of_char (hd (fields CHR ''.'' cs)) @
       concat (map dns_label (tl (fields CHR ''.'' cs)))"
proof (induction cs arbitrary: lab)
  case (Cons c cs)
  show ?case
  proof (cases "c = CHR ''.''")
    case True
    have "concat (map dns_label (fields CHR ''.'' cs)) =
        dns_label (hd (fields CHR ''.'' cs)) @ concat (map dns_label (tl (fields CHR ''.'' cs)))"
      by (cases "fields CHR ''.'' cs") simp_all
    with True Cons[of "[]"] show ?thesis by (simp del: fields.simps) (simp add: dns_label_def)
  qed (simp add: Cons of_char_dot)
qed simp

lemma length_labels_of: "length (labels_of lab cs) = Suc (length lab + length cs)"
  by (induction lab cs rule: labels_of.induct) simp_all

lemma take_put: "length a = k \<Longrightarrow> m = k + length xs \<Longrightarrow> take m (put k xs (a @ c)) = a @ xs"
  by (simp add: put_def)

lemma dns_query_bytes:
  assumes "length host_name \<le> 1006"
  shows "map_option snd (dns_query host_name) =
    Some ([1, 0, 1, 0, 0, 1, 0, 0, 0, 0, 0, 0] @ dns_name host_name @ [0] @ [0, 1, 0, 1])"
proof -
  let ?n = "length host_name" and ?h = "map of_char host_name :: bytes"
  let ?hdr = "[1, 0, 1, 0, 0, 1, 0, 0, 0, 0, 0, 0] :: bytes"
  have b1: "put 0 [1, 0, 1, 0, 0, 1, 0, 0] (replicate BUF_SIZE 0) = ?hdr @ replicate 1012 0"
    by (simp add: put_def BUF_SIZE_def numeral_eq_Suc)
  have rep: "replicate (1011 - ?n) (0 :: u8) = 0 # replicate (1010 - ?n) 0"
    using assms by (simp add: Suc_diff_le flip: replicate_Suc)
  have b2: "put 13 (?h @ [0]) (?hdr @ replicate 1012 0) = ?hdr @ 0 # [] @ ?h @ replicate (1011 - ?n) 0"
    unfolding rep using assms by (simp add: put_def take_Cons' drop_Cons')
  have b3: "label_loop ?n (?hdr @ 0 # [] @ ?h @ replicate (1011 - ?n) 0) 13 0 =
      ?hdr @ labels_of [] ?h @ replicate (1011 - ?n) 0"
  proof -
    have "length ?hdr + 1 + length ([] :: bytes) = 13" "length ?h = ?n" "length ([] :: bytes) = 0"
      by simp_all
    with label_loop_labels[where cs = ?h and pre = ?hdr and x = 0 and lab = "[]" and
        post = "replicate (1011 - ?n) 0"]
    show ?thesis by argo
  qed
  let ?L = "labels_of [] ?h"
  have L: "length ?L = ?n + 1" by (simp add: length_labels_of)
  have "take (18 + ?n) (put (14 + ?n) [0, 1, 0, 1] ((?hdr @ ?L @ [0]) @ replicate (1010 - ?n) 0)) =
      (?hdr @ ?L @ [0]) @ [0, 1, 0, 1]"
    by (rule take_put) (simp_all add: L)
  then have b4: "take (18 + ?n) (put (14 + ?n) [0, 1, 0, 1] (?hdr @ ?L @ replicate (1011 - ?n) 0)) =
      ?hdr @ ?L @ [0] @ [0, 1, 0, 1]"
    unfolding rep by simp
  have "?L = dns_name host_name"
    using labels_of_name[of "[]" host_name] unfolding dns_name_def
    by (cases "fields CHR ''.'' host_name") (simp_all add: dns_label_def)
  with b1 b2 b3 b4 show ?thesis
    using assms by (simp add: dns_query_def Let_def BUF_SIZE_def)
qed

text \<open>
  A name as the protocol has it (RFC 1035, 3.1), read from the wire: labels of 1 to 63 bytes, each behind its
  length, up to a zero; also what follows. Nothing else is a name.
\<close>

function read_name :: "bytes \<Rightarrow> (bytes list \<times> bytes) option" where
  "read_name [] = None"
| "read_name (n # bs) =
     (if n = 0 then Some ([], bs)
      else if 63 < unat n \<or> length bs < unat n then None
      else map_option (\<lambda>(ls, r). (take (unat n) bs # ls, r)) (read_name (drop (unat n) bs)))"
  by pat_completeness auto
termination by (relation "measure length") auto

definition proper_label :: "string \<Rightarrow> bool" where
  "proper_label l \<longleftrightarrow> 1 \<le> length l \<and> length l \<le> 63"

lemma read_label:
  assumes "proper_label l"
  shows "read_name (dns_label l @ bs) = map_option (\<lambda>(ls, r). (map of_char l # ls, r)) (read_name bs)"
proof -
  have u: "unat (word_of_nat (length l) :: u8) = length l"
    using assms by (simp add: proper_label_def unat_of_nat take_bit_eq_mod)
  moreover have "word_of_nat (length l) \<noteq> (0 :: u8)"
    using u assms by (auto simp: proper_label_def)
  ultimately show ?thesis using assms by (simp add: dns_label_def proper_label_def del: word_of_nat_eq_0_iff)
qed

lemma read_labels:
  "\<forall>l \<in> set ls. proper_label l \<Longrightarrow>
     read_name (concat (map dns_label ls) @ 0 # bs) = Some (map (map of_char) ls, bs)"
  by (induction ls) (simp_all add: read_label)

text \<open>
  C40. For every host name that the protocol allows, labels of 1 to 63 characters with dots between them and at
  most 253 characters in all, the query is the one the protocol wants: twelve bytes of header with one question,
  then a name whose labels read back as those of the host name, type A and class IN, and nothing more, though
  the code writes the lengths over the dots of the copied name.
\<close>
theorem dns_query_wire:
  assumes "\<forall>l \<in> set (fields CHR ''.'' host_name). proper_label l" and "length host_name \<le> 253"
  shows "\<exists>q. map_option snd (dns_query host_name) = Some ([1, 0, 1, 0, 0, 1, 0, 0, 0, 0, 0, 0] @ q) \<and>
    read_name q = Some (map (map of_char) (fields CHR ''.'' host_name), [0, 1, 0, 1])"
  using dns_query_bytes[of host_name] read_labels[OF assms(1), of "[0, 1, 0, 1]"] assms(2)
  by (intro exI[of _ "dns_name host_name @ [0] @ [0, 1, 0, 1]"]) (simp add: dns_name_def)

theorem dns_query_wire_witness:
  "\<exists>q. map_option snd (dns_query ''a.bc'') = Some ([1, 0, 1, 0, 0, 1, 0, 0, 0, 0, 0, 0] @ q) \<and>
    read_name q = Some ([[0x61], [0x62, 0x63]], [0, 1, 0, 1])"
  using dns_query_wire[of "''a.bc''"] by (simp add: proper_label_def)

text \<open>
  The code asks for other names all the same. A label of 64 to 255 characters gives bytes that are no name, and
  after a final dot, or between two dots in a row, the name ends early, with zero bytes and what is left of it
  in front of the type.
\<close>

lemma long_label_no_name:
  assumes "63 < length l" and "length l < 256" and "length l \<le> length bs"
  shows "read_name (word_of_nat (length l) # bs) = None"
proof -
  have "unat (word_of_nat (length l) :: u8) = length l" using assms(2) by (simp add: unat_of_nat take_bit_eq_mod)
  then show ?thesis using assms(1) by (auto simp del: word_of_nat_eq_0_iff)
qed

lemma final_dot_query:
  "map_option snd (dns_query ''a.'') = Some [1, 0, 1, 0, 0, 1, 0, 0, 0, 0, 0, 0, 1, 0x61, 0, 0, 0, 1, 0, 1]"
  using dns_query_bytes[of "''a.''"] by (simp add: dns_name_def dns_label_def)

section \<open>Which texts are addresses\<close>

lemma scan_int_string_of_int:
  assumes "- (2 ^ 31) \<le> n" and "n < 2 ^ 31" and "r = [] \<or> \<not> isdigit (hd r)"
  shows "scan_int (string_of_int n @ r) = Some (n, r)"
proof -
  have all: "list_all isdigit (string_of_nat k)" "string_of_nat k \<noteq> []" for k
    using string_of_nat_digits by auto
  have t: "takeWhile isdigit (string_of_nat k @ r) = string_of_nat k"
    "dropWhile isdigit (string_of_nat k @ r) = r" for k
    using all(1)[of k] assms(3) by (cases r; simp add: list_all_iff)+
  show ?thesis
  proof (cases "n < 0")
    case True
    then show ?thesis
      using t[of "nat (- n)"] all[of "nat (- n)"] assms
      by (simp add: scan_int_def string_of_int_def isspace_def number_of_string_of_nat to_i32_id)
  next
    case False
    obtain c cs where m: "string_of_nat (nat n) = c # cs" "isdigit c"
      using all[of "nat n"] by (cases "string_of_nat (nat n)") auto
    have "dropWhile isspace (c # cs @ r) = c # cs @ r" "c \<noteq> CHR ''-''" "c \<noteq> CHR ''+''"
      using isdigit_not_space[OF m(2)] by auto
    then have "scan_int (c # cs @ r) = Some (to_i32 (max (- (2 ^ 63)) (min (2 ^ 63 - 1) (number_of_digits (c # cs)))), r)"
      using t[of "nat n"] unfolding m(1) scan_int_def append_Cons
      by (simp only: Let_def list.case if_False prod.case list.distinct)
    moreover have "number_of_digits (c # cs) = n"
      using number_of_string_of_nat[of "nat n"] m False by simp
    ultimately show ?thesis using False m(1) assms by (simp add: string_of_int_def to_i32_id)
  qed
qed

lemma scan_dotted_length: "scan_dotted n s = Some ks \<Longrightarrow> length ks = n"
  by (induction n s arbitrary: ks rule: scan_dotted.induct) (auto split: option.splits if_splits list.splits)

lemma string_of_int_bound:
  assumes "length (string_of_int n) \<le> 9"
  shows "- (2 ^ 31) \<le> n \<and> n < 2 ^ 31"
proof -
  have "int m < 10 ^ 9" if "length (string_of_nat m) \<le> 9" for m
  proof -
    have "int m < 10 ^ length (string_of_nat m)"
      using number_of_digits_bounds[of "string_of_nat m"] string_of_nat_digits[of m]
      unfolding number_of_string_of_nat by blast
    also have "\<dots> \<le> 10 ^ 9" by (rule power_increasing[OF that]) simp
    finally show ?thesis .
  qed
  from this[of "nat n"] this[of "nat (- n)"] assms show ?thesis
    by (auto simp: string_of_int_def split: if_splits)
qed

lemma string_of_int_not_Nil: "0 < length (string_of_int n)"
  using string_of_nat_digits by (auto simp: string_of_int_def)

text \<open>
  A text passes for an address when it has at most 15 characters and is four numbers with dots between
  them, written without leading zeros, the first three from 0 to 255: the last number is not looked at.
\<close>

lemma isIP_iff:
  "isIP str \<longleftrightarrow> length str \<le> 15 \<and>
     (\<exists>a b c d. str = dotted [a, b, c, d] \<and> a \<in> {0..255} \<and> b \<in> {0..255} \<and> c \<in> {0..255})"
proof
  assume l: "isIP str"
  then obtain ks where ks: "scan_dotted 4 str = Some ks" "dotted ks = str" "list_all (\<lambda>k. 0 \<le> k \<and> k \<le> 255) (take 3 ks)"
    and "length str \<le> 15"
    by (auto simp: isIP_def split: if_splits option.splits)
  moreover obtain a b c d where "ks = [a, b, c, d]"
    using scan_dotted_length[OF ks(1)] by (auto simp: numeral_eq_Suc length_Suc_conv)
  ultimately show "length str \<le> 15 \<and>
     (\<exists>a b c d. str = dotted [a, b, c, d] \<and> a \<in> {0..255} \<and> b \<in> {0..255} \<and> c \<in> {0..255})"
    by (intro conjI exI[of _ a] exI[of _ b] exI[of _ c] exI[of _ d]) (auto simp: numeral_eq_Suc)
next
  assume r: "length str \<le> 15 \<and>
     (\<exists>a b c d. str = dotted [a, b, c, d] \<and> a \<in> {0..255} \<and> b \<in> {0..255} \<and> c \<in> {0..255})"
  then obtain a b c d where s: "str = dotted [a, b, c, d]"
    and abc: "a \<in> {0..255}" "b \<in> {0..255}" "c \<in> {0..255}" by blast
  have "length (string_of_int d) \<le> 9"
    using conjunct1[OF r] string_of_int_not_Nil[of a] string_of_int_not_Nil[of b] string_of_int_not_Nil[of c]
    unfolding s dotted_def list.map join_with.simps length_append list.size by linarith
  from string_of_int_bound[OF this] have "scan_dotted 4 str = Some [a, b, c, d]"
    using abc scan_int_string_of_int[of d "[]"]
    by (simp add: s dotted_def numeral_eq_Suc scan_int_string_of_int isdigit_def digit_val_def)
  then show "isIP str" using r abc s by (simp add: isIP_def)
qed

section \<open>The table and the search\<close>

text \<open>
  The thread that refreshes the table gives a host whose lookup fails the address of the host before
  it: the address is kept in one variable, which a failed lookup does not clear.
\<close>

lemma refresh_mixes_hosts:
  assumes "lookup a = Some x" and "x \<noteq> []" and "lookup b = None"
  shows "refresh lookup ip (es @ (a, i1) # (b, i2) # fs) = refresh lookup ip es @ (a, x) # (b, x) # refresh lookup x fs"
  using assms by (induction es arbitrary: ip) (auto simp: Let_def)

lemma refresh_mixes_hosts_witness:
  "refresh (\<lambda>h. if h = ''ntp'' then Some ''10.0.0.1'' else None) [] ([] @ (''ntp'', ''10.0.0.1'') # (''www'', ''10.0.0.2'') # []) =
     refresh (\<lambda>h. if h = ''ntp'' then Some ''10.0.0.1'' else None) [] [] @ (''ntp'', ''10.0.0.1'') # (''www'', ''10.0.0.1'') #
       refresh (\<lambda>h. if h = ''ntp'' then Some ''10.0.0.1'' else None) ''10.0.0.1'' []"
  by (rule refresh_mixes_hosts) simp_all

text \<open>Where every lookup succeeds each host gets its own address, whatever the order.\<close>

lemma refresh_own:
  "\<forall>(h, ip) \<in> set es. \<exists>x. lookup h = Some x \<and> x \<noteq> [] \<Longrightarrow>
     refresh lookup ip es = map (\<lambda>(h, _). (h, the (lookup h))) es"
  by (induction es arbitrary: ip) (auto simp: Let_def)

lemma map_of_table_put: "map_of (table_put k v m) = (map_of m)(k \<mapsto> v)"
  by (induction k v m rule: table_put.induct) auto

text \<open>
  A search that succeeds is repeated from the table: the same URL gives the same result again, whatever
  the network does by then.
\<close>

lemma search_cached:
  assumes "searchDNS lookup url force (out, table) = (0, out', table')" and "force \<noteq> 2"
    and "\<And>h. lookup h \<noteq> Some []"
  shows "searchDNS lookup' url 0 (out', table') = (0, out', table')"
proof -
  obtain h where h: "host (ast_uri_parse url) = Some h" and u: "url \<noteq> []" "\<not> isIP h"
    using assms(1,2) by (auto simp: searchDNS_def Let_def split: if_splits option.splits)
  have "\<exists>ip. map_of table' h = Some ip \<and> out' = out\<lparr>do_url_ip := replace_first ''http://'' [] (replace_first h ip url),
      do_host := h, do_port := (case port (ast_uri_parse url) of None \<Rightarrow> ''80'' | Some p \<Rightarrow> p)\<rparr>"
    using assms h u
    by (auto simp: searchDNS_def Let_def map_of_table_put split: if_splits option.splits)
  then obtain ip where ip: "map_of table' h = Some ip"
    "out' = out\<lparr>do_url_ip := replace_first ''http://'' [] (replace_first h ip url),
      do_host := h, do_port := (case port (ast_uri_parse url) of None \<Rightarrow> ''80'' | Some p \<Rightarrow> p)\<rparr>" by blast
  show ?thesis
    using h u ip(1) unfolding ip(2) by (simp add: searchDNS_def Let_def split: option.splits)
qed

section \<open>URIs are read as they are written\<close>

definition uri_text :: "ast_uri \<Rightarrow> string" where
  "uri_text u =
     (case scheme u of None \<Rightarrow> [] | Some s \<Rightarrow> s @ ''://'') @ (case user_info u of None \<Rightarrow> [] | Some s \<Rightarrow> s @ ''@'') @
     (case host u of None \<Rightarrow> [] | Some h \<Rightarrow> h) @ (case port u of None \<Rightarrow> [] | Some p \<Rightarrow> '':'' @ p) @
     (case path u of None \<Rightarrow> [] | Some p \<Rightarrow> ''/'' @ p) @ (case query u of None \<Rightarrow> [] | Some q \<Rightarrow> ''?'' @ q)"

text \<open>
  No part has the characters the parser looks for, but the path and the query, which come behind: a path
  may have \<open>/\<close>, a query \<open>?\<close>, and both have \<open>@\<close> and \<open>:\<close> where a user and a port, behind a scheme, stand before
  them.
\<close>

definition free_of :: "string \<Rightarrow> string option \<Rightarrow> bool" where
  "free_of cs f \<longleftrightarrow> (case f of None \<Rightarrow> True | Some s \<Rightarrow> set cs \<inter> set s = {})"

definition uri_ok :: "ast_uri \<Rightarrow> bool" where
  "uri_ok u \<longleftrightarrow> host u \<noteq> None \<and> port u \<noteq> Some [] \<and>
     free_of '':/@?'' (scheme u) \<and> free_of '':/@?'' (user_info u) \<and> free_of '':/@?'' (host u) \<and>
     free_of '':/@?'' (port u) \<and> free_of ''?'' (path u) \<and> (path u = None \<longrightarrow> free_of ''/'' (query u)) \<and>
     (user_info u = None \<longrightarrow> free_of ''@'' (path u) \<and> free_of ''@'' (query u)) \<and>
     (port u = None \<or> scheme u = None \<longrightarrow> free_of '':'' (path u) \<and> free_of '':'' (query u))"

lemma cut_char_append [simp]: "c \<notin> set a \<Longrightarrow> cut_char c (a @ c # b) = Some (a, b)"
  by (induction a) auto

lemma cut_char_None [simp]: "c \<notin> set s \<Longrightarrow> cut_char c s = None"
  by (induction s) auto

lemma cut_str_append: "CHR '':'' \<notin> set a \<Longrightarrow> cut_str ''://'' (a @ CHR '':'' # CHR ''/'' # CHR ''/'' # b) = Some (a, b)"
  by (induction a) auto

lemma cut_str_None: "CHR '':'' \<notin> set a \<Longrightarrow> cut_str ''://'' a = None"
  by (induction a) auto

lemma cut_str_None_port:
  "CHR '':'' \<notin> set a \<Longrightarrow> CHR '':'' \<notin> set b \<Longrightarrow> c \<noteq> CHR ''/'' \<Longrightarrow> c \<noteq> CHR '':'' \<Longrightarrow>
     cut_str ''://'' (a @ CHR '':'' # c # b) = None"
  by (induction a) (auto simp: cut_str_None)

text \<open>
  A URI whose parts do not have the characters that end them is parsed into the parts it was written
  from, whichever of them it has.
\<close>
lemma uri_roundtrip:
  assumes "uri_ok u"
  shows "ast_uri_parse (uri_text u) = u"
proof -
  obtain sch usr h prt pth qry where
    u: "u = \<lparr>scheme = sch, user_info = usr, host = Some h, port = prt, path = pth, query = qry\<rparr>"
    using assms by (cases u) (auto simp: uri_ok_def)
  define t where "t = uri_text (u\<lparr>scheme := None\<rparr>)"
  define v where "v = uri_text (u\<lparr>scheme := None, user_info := None\<rparr>)"
  have no: "cut_str ''://'' t = None" if "sch = None"
  proof (cases prt)
    case None
    then show ?thesis using assms that unfolding t_def
      by (intro cut_str_None) (auto simp: u uri_ok_def uri_text_def free_of_def split: option.splits)
  next
    case (Some p)
    then obtain c cs where p: "p = c # cs" using assms by (cases p) (auto simp: u uri_ok_def)
    define a where "a = (case usr of None \<Rightarrow> [] | Some s \<Rightarrow> s @ ''@'') @ h"
    define b where "b = cs @ (case pth of None \<Rightarrow> [] | Some p \<Rightarrow> ''/'' @ p) @ (case qry of None \<Rightarrow> [] | Some q \<Rightarrow> ''?'' @ q)"
    have "t = a @ CHR '':'' # c # b" by (simp add: t_def u uri_text_def Some p a_def b_def)
    moreover have "cut_str ''://'' (a @ CHR '':'' # c # b) = None"
      using assms that unfolding a_def b_def
      by (intro cut_str_None_port) (auto simp: u p Some uri_ok_def free_of_def split: option.splits)
    ultimately show ?thesis by simp
  qed
  have at: "CHR ''@'' \<notin> set v" if "usr = None"
    using assms that by (auto simp: v_def u uri_ok_def uri_text_def free_of_def split: option.splits)
  have "uri_text u = (case sch of None \<Rightarrow> t | Some s \<Rightarrow> s @ CHR '':'' # CHR ''/'' # CHR ''/'' # t)"
    by (simp add: t_def u uri_text_def split: option.split)
  then have 1: "(case cut_str ''://'' (uri_text u) of Some (a, b) \<Rightarrow> (Some a, b) | None \<Rightarrow> (None, uri_text u)) = (sch, t)"
    using no assms by (auto simp: u uri_ok_def free_of_def cut_str_append split: option.splits)
  have "t = (case usr of None \<Rightarrow> v | Some s \<Rightarrow> s @ CHR ''@'' # v)"
    by (simp add: t_def v_def u uri_text_def split: option.split)
  then have 2: "(case cut_char CHR ''@'' t of Some (a, b) \<Rightarrow> (Some a, b) | None \<Rightarrow> (None, t)) = (usr, v)"
    using at assms by (auto simp: u uri_ok_def free_of_def split: option.splits)
  show ?thesis
    using assms unfolding ast_uri_parse_def 1 2 Let_def prod.case
    by (cases prt; cases pth; cases qry) (auto simp: u v_def uri_ok_def uri_text_def free_of_def)
qed

lemma uri_roundtrip_witness:
  "ast_uri_parse (uri_text \<lparr>scheme = Some ''http'', user_info = None, host = Some ''a.b'', port = Some ''8080'',
       path = Some ''x/y:z'', query = Some ''q=1''\<rparr>) =
     \<lparr>scheme = Some ''http'', user_info = None, host = Some ''a.b'', port = Some ''8080'',
       path = Some ''x/y:z'', query = Some ''q=1''\<rparr>"
  by (rule uri_roundtrip) (simp add: uri_ok_def free_of_def)

end
