(* ===== verification/UriMem.thy ===== *)
theory UriMem
  imports Dns
begin

text \<open>
  The memory of \<open>eocCom/dns/uri.cpp\<close>: a URI object is one block from \<open>calloc\<close>, with the fields as pointers into
  the characters behind it. The parser of \<open>Dns\<close> gives the texts of the fields; here are the pointers and
  sizes that the code computes, the sizes as \<open>unsigned int\<close>, the copying, and the proof that, for a text whose
  sizes fit, reading the fields back gives those texts and that nothing is read or written outside the characters.
\<close>

section \<open>Copying into the block\<close>

text \<open>
  \<open>ast_copy_string\<close>: \<open>src\<close> is the text up to its end, the block is \<open>mem\<close>. With a size of 0 the terminator
  goes to the place before, which for the first field is not among the characters; a write outside them is \<open>None\<close>.
\<close>

fun ast_copy_string :: "nat \<Rightarrow> string \<Rightarrow> nat \<Rightarrow> string \<Rightarrow> string option" where
  "ast_copy_string dst (c # src) (Suc n) mem =
     (if dst < length mem then ast_copy_string (Suc dst) src n (mem[dst := c]) else None)"
| "ast_copy_string dst src 0 mem =
     (if dst = 0 \<or> length mem < dst then None else Some (mem[dst - 1 := CHR 0x00]))"
| "ast_copy_string dst [] (Suc n) mem =
     (if dst < length mem then Some (mem[dst := CHR 0x00]) else None)"

definition ast_strlen_zero :: "string option \<Rightarrow> bool" where
  "ast_strlen_zero s = (s = None \<or> s = Some [])"

text \<open>\<open>SET_VALUE\<close> for each parameter that is not null, at the pointer \<open>p\<close>, which moves on by the size.\<close>

fun set_values :: "(string \<times> u32) option list \<Rightarrow> nat \<Rightarrow> string \<Rightarrow> (nat option list \<times> string) option" where
  "set_values [] p mem = Some ([], mem)"
| "set_values (None # fs) p mem =
     (case set_values fs p mem of None \<Rightarrow> None | Some (ptrs, mem) \<Rightarrow> Some (None # ptrs, mem))"
| "set_values (Some (param, n) # fs) p mem =
     (case ast_copy_string p param (unat n) mem of
        None \<Rightarrow> None
      | Some mem \<Rightarrow>
          (case set_values fs (p + unat n) mem of None \<Rightarrow> None | Some (ptrs, mem) \<Rightarrow> Some (Some p # ptrs, mem)))"

text \<open>The conversion of a length to \<open>unsigned int\<close>.\<close>

definition unsigned_int :: "nat \<Rightarrow> u32" where
  "unsigned_int n = word_of_nat n"

lemma unat_unsigned_int [simp]: "n < 2 ^ 32 \<Longrightarrow> unat (unsigned_int n) = n"
  by (simp add: unsigned_int_def unat_of_nat take_bit_eq_mod)

record uri_block =
  ub_scheme :: "nat option"
  ub_user_info :: "nat option"
  ub_host :: "nat option"
  ub_port :: "nat option"
  ub_path :: "nat option"
  ub_query :: "nat option"
  ub_uri :: string

definition size_of :: "(string \<times> u32) option \<Rightarrow> nat" where
  "size_of f = (case f of None \<Rightarrow> 0 | Some (param, n) \<Rightarrow> unat n)"

lemma size_of_simps [simp]: "size_of None = 0" "size_of (Some (t, n)) = unat n"
  by (simp_all add: size_of_def)

text \<open>\<open>ast_uri_create_\<close>, where \<open>calloc\<close> succeeds: the parameters with their sizes, which the code adds up in a \<open>size_t\<close>.\<close>

definition ast_uri_create_sized ::
  "(string \<times> u32) option \<Rightarrow> (string \<times> u32) option \<Rightarrow> (string \<times> u32) option \<Rightarrow> (string \<times> u32) option \<Rightarrow>
   (string \<times> u32) option \<Rightarrow> (string \<times> u32) option \<Rightarrow> uri_block option" where
  "ast_uri_create_sized sch usr hst prt pth qry =
     (let fs = [sch, usr, hst, prt, pth, qry];
          mem = replicate (sum_list (map size_of fs)) CHR 0x00
      in case set_values fs 0 mem of
           Some ([a, b, c, d, e, f], mem) \<Rightarrow>
             Some \<lparr>ub_scheme = a, ub_user_info = b, ub_host = c, ub_port = d, ub_path = e, ub_query = f, ub_uri = mem\<rparr>
         | _ \<Rightarrow> None)"

definition with_strlen :: "string option \<Rightarrow> (string \<times> u32) option" where
  "with_strlen s = (case s of None \<Rightarrow> None | Some t \<Rightarrow> Some (t, unsigned_int (length t + 1)))"

definition ast_uri_create ::
  "string option \<Rightarrow> string option \<Rightarrow> string option \<Rightarrow> string option \<Rightarrow> string option \<Rightarrow> string option \<Rightarrow> uri_block option" where
  "ast_uri_create sch usr hst prt pth qry =
     ast_uri_create_sized (with_strlen sch) (with_strlen usr) (with_strlen hst) (with_strlen prt) (with_strlen pth)
       (with_strlen qry)"

text \<open>
  Reading a field: the characters from the pointer to the terminator. A pointer behind which no terminator is
  left gives no text.
\<close>

definition text_at :: "string \<Rightarrow> nat option \<Rightarrow> string option" where
  "text_at mem p = (case p of None \<Rightarrow> None
     | Some i \<Rightarrow> if CHR 0x00 \<in> set (drop i mem) then Some (takeWhile (\<lambda>c. c \<noteq> CHR 0x00) (drop i mem)) else None)"

definition ast_uri_scheme :: "uri_block \<Rightarrow> string option" where "ast_uri_scheme u = text_at (ub_uri u) (ub_scheme u)"
definition ast_uri_user_info :: "uri_block \<Rightarrow> string option" where "ast_uri_user_info u = text_at (ub_uri u) (ub_user_info u)"
definition ast_uri_host :: "uri_block \<Rightarrow> string option" where "ast_uri_host u = text_at (ub_uri u) (ub_host u)"
definition ast_uri_port :: "uri_block \<Rightarrow> string option" where "ast_uri_port u = text_at (ub_uri u) (ub_port u)"
definition ast_uri_path :: "uri_block \<Rightarrow> string option" where "ast_uri_path u = text_at (ub_uri u) (ub_path u)"
definition ast_uri_query :: "uri_block \<Rightarrow> string option" where "ast_uri_query u = text_at (ub_uri u) (ub_query u)"

text \<open>The block as the parser of \<open>Dns\<close> sees it.\<close>

definition uri_of :: "uri_block \<Rightarrow> ast_uri" where
  "uri_of u = \<lparr>scheme = ast_uri_scheme u, user_info = ast_uri_user_info u, host = ast_uri_host u, port = ast_uri_port u,
     path = ast_uri_path u, query = ast_uri_query u\<rparr>"

section \<open>Pointers into the text\<close>

text \<open>\<open>strchr\<close> and \<open>strstr\<close> from a position on: the position of the first occurrence.\<close>

definition strchr :: "string \<Rightarrow> nat \<Rightarrow> char \<Rightarrow> nat option" where
  "strchr s uri c = map_option (\<lambda>i. uri + i) (find_index (\<lambda>x. x = c) (drop uri s))"

definition strstr :: "string \<Rightarrow> string \<Rightarrow> nat option" where
  "strstr s p = find_index (\<lambda>i. take (length p) (drop i s) = p) [0..<length s]"

text \<open>
  \<open>ast_uri_parse\<close>: \<open>uri\<close> is the position in the text \<open>s\<close>, and a field is the text from its pointer on, with
  the size up to the character that ends it, cut to an \<open>unsigned int\<close>.
\<close>

definition field :: "string \<Rightarrow> nat \<Rightarrow> nat \<Rightarrow> (string \<times> u32) option" where
  "field s start p = Some (drop start s, unsigned_int (p - start + 1))"

definition uri_parse_block :: "string \<Rightarrow> uri_block option" where
  "uri_parse_block s =
     (let (scheme, uri) = (case strstr s ''://'' of Some p \<Rightarrow> (field s 0 p, p + 3) | None \<Rightarrow> (None, 0));
          (user_info, uri) = (case strchr s uri CHR ''@'' of Some p \<Rightarrow> (field s uri p, p + 1) | None \<Rightarrow> (None, uri));
          (host, uri) = (case strchr s uri CHR '':'' of Some p \<Rightarrow> (field s uri p, p + 1) | None \<Rightarrow> (None, uri));
          (host, port, uri) = (case strchr s uri CHR ''/'' of
             Some p \<Rightarrow> if host = None then (field s uri p, None, p + 1) else (host, field s uri p, p + 1)
           | None \<Rightarrow> (host, None, uri));
          (query, p) = (case strchr s uri CHR ''?'' of
             Some p \<Rightarrow> (Some (drop (p + 1) s, unsigned_int (length (drop (p + 1) s) + 1)), p)
           | None \<Rightarrow> (None, length s))
      in if host = None then ast_uri_create_sized scheme user_info (field s uri p) port None query
         else if s ! (uri - 1) = CHR '':'' then ast_uri_create_sized scheme user_info host (field s uri p) None query
         else if s ! (uri - 1) = CHR ''/'' then ast_uri_create_sized scheme user_info host port (field s uri p) query
         else ast_uri_create_sized scheme user_info host port None query)"

section \<open>Every field reads back\<close>

lemma ast_copy_string_eq:
  assumes "1 \<le> n" "dst + n \<le> length mem"
  shows "ast_copy_string dst src n mem =
         Some (take dst mem @ take (n - 1) src @ CHR 0x00 # drop (dst + min (n - 1) (length src) + 1) mem)"
  using assms
proof (induction dst src n mem rule: ast_copy_string.induct)
  case (1 dst c src n mem)
  show ?case
  proof (cases "n = 0")
    case True
    then show ?thesis using 1(3)
      by (cases src) (auto simp: upd_conv_take_nth_drop)
  next
    case False
    have "take (Suc dst) (mem[dst := c]) = take dst mem @ [c]"
      using 1(3) by (simp add: take_Suc_conv_app_nth)
    moreover obtain k where "n = Suc k" using False by (cases n) auto
    ultimately show ?thesis using 1 by (simp add: drop_update_cancel)
  qed
next
  case (3 dst n mem)
  then show ?case by (simp add: upd_conv_take_nth_drop)
qed simp

lemma takeWhile_text:
  "CHR 0x00 \<notin> set t \<Longrightarrow> takeWhile (\<lambda>c. c \<noteq> CHR 0x00) (t @ CHR 0x00 # r) = t"
  by (subst takeWhile_append2) auto

definition fields_ok :: "(string \<times> u32) option list \<Rightarrow> bool" where
  "fields_ok fs \<longleftrightarrow> (\<forall>t n. Some (t, n) \<in> set fs \<longrightarrow> 1 \<le> unat n \<and> CHR 0x00 \<notin> set t)"

definition field_text :: "(string \<times> u32) option \<Rightarrow> string option" where
  "field_text f = map_option (\<lambda>(t, n). take (unat n - 1) t) f"

text \<open>A part of \<open>2 ^ 32 - 1\<close> characters has the size 0.\<close>

lemma huge_part_size: "field s start (start + (2 ^ 32 - 1)) = Some (drop start s, 0)"
  by (simp add: field_def unsigned_int_def)

lemma take_Suc_app: "length w \<le> k \<Longrightarrow> take (Suc k) (w @ x # z) = w @ x # take (k - length w) z"
  by (simp add: Suc_diff_le)

lemma set_values_read:
  assumes "fields_ok fs" "p + sum_list (map size_of fs) \<le> length mem"
  shows "\<exists>ptrs mem'. set_values fs p mem = Some (ptrs, mem') \<and> length mem' = length mem \<and>
           take p mem' = take p mem \<and> map (text_at mem') ptrs = map field_text fs"
  using assms
proof (induction fs arbitrary: p mem)
  case (Cons f fs)
  have ok: "fields_ok fs" using Cons.prems by (auto simp: fields_ok_def)
  show ?case
  proof (cases f)
    case None
    then show ?thesis
      using Cons.IH[OF ok, of p mem] Cons.prems by (auto simp: text_at_def field_text_def)
  next
    case (Some a)
    obtain t w where f: "f = Some (t, w)" using Some by (cases a) auto
    define n where "n = unat w"
    have n: "1 \<le> n" "CHR 0x00 \<notin> set t" using Cons.prems(1) f by (auto simp: fields_ok_def n_def)
    have l: "p + n + sum_list (map size_of fs) \<le> length mem" using Cons.prems(2) by (simp add: f n_def)
    define m where "m = take p mem @ take (n - 1) t @ CHR 0x00 # drop (p + min (n - 1) (length t) + 1) mem"
    have c: "ast_copy_string p t n mem = Some m"
      unfolding m_def using n l by (intro ast_copy_string_eq) auto
    have lm: "length m = length mem" using n l by (auto simp: m_def min_def)
    obtain ptrs mem' where r: "set_values fs (p + n) m = Some (ptrs, mem')" "length mem' = length mem"
      "take (p + n) mem' = take (p + n) m" "map (text_at mem') ptrs = map field_text fs"
      using Cons.IH[OF ok, of "p + n" m] l lm by auto
    have pre: "take p mem' = take p mem"
    proof -
      have "take p mem' = take p (take (p + n) mem')" by simp
      also have "\<dots> = take p m" using r(3) by simp
      finally show ?thesis using l by (simp add: m_def)
    qed
    have "drop p mem' = take n (drop p m) @ drop (p + n) mem'"
      using r(3) by (metis append_take_drop_id drop_drop take_drop add.commute)
    moreover have "drop p m = take (n - 1) t @ CHR 0x00 # drop (p + min (n - 1) (length t) + 1) mem"
      using l by (simp add: m_def)
    moreover obtain r where "take n (take (n - 1) t @ CHR 0x00 # drop (p + min (n - 1) (length t) + 1) mem) =
        take (n - 1) t @ CHR 0x00 # r"
      using take_Suc_app[of "take (n - 1) t" "n - 1"] n(1) by auto
    ultimately have e: "drop p mem' = take (n - 1) t @ CHR 0x00 # (r @ drop (p + n) mem')" by simp
    have "CHR 0x00 \<notin> set (take (n - 1) t)" using n(2) by (meson in_set_takeD)
    then have "takeWhile (\<lambda>c. c \<noteq> CHR 0x00) (drop p mem') = take (n - 1) t"
      unfolding e by (rule takeWhile_text)
    moreover have "CHR 0x00 \<in> set (drop p mem')" using e by simp
    ultimately have "text_at mem' (Some p) = field_text f" by (simp add: text_at_def field_text_def f n_def)
    then show ?thesis using c r pre by (simp add: f n_def)
  qed
qed simp

text \<open>Creating an object succeeds, and its fields are the parameters up to their sizes.\<close>

lemma create_sized_reads:
  assumes "fields_ok [sch, usr, hst, prt, pth, qry]"
  shows "\<exists>u. ast_uri_create_sized sch usr hst prt pth qry = Some u \<and>
     uri_of u = \<lparr>scheme = field_text sch, user_info = field_text usr, host = field_text hst, port = field_text prt,
       path = field_text pth, query = field_text qry\<rparr>"
proof -
  let ?fs = "[sch, usr, hst, prt, pth, qry]"
  obtain ptrs mem where r: "set_values ?fs 0 (replicate (sum_list (map size_of ?fs)) CHR 0x00) = Some (ptrs, mem)"
    "map (text_at mem) ptrs = map field_text ?fs"
    using set_values_read[OF assms, of 0 "replicate (sum_list (map size_of ?fs)) CHR 0x00"] by auto
  then obtain a b c d e f where "ptrs = [a, b, c, d, e, f]" by (auto simp: map_eq_Cons_conv)
  then show ?thesis
    using r by (simp add: ast_uri_create_sized_def Let_def uri_of_def ast_uri_scheme_def ast_uri_user_info_def
        ast_uri_host_def ast_uri_port_def ast_uri_path_def ast_uri_query_def)
qed

definition nul_free :: "string option \<Rightarrow> bool" where
  "nul_free t \<longleftrightarrow> (\<forall>x. t = Some x \<longrightarrow> CHR 0x00 \<notin> set x \<and> length x + 1 < 2 ^ 32)"

lemma create_reads:
  assumes "list_all nul_free [sch, usr, hst, prt, pth, qry]"
  shows "\<exists>u. ast_uri_create sch usr hst prt pth qry = Some u \<and>
     uri_of u = \<lparr>scheme = sch, user_info = usr, host = hst, port = prt, path = pth, query = qry\<rparr>"
proof -
  have ft: "field_text (with_strlen t) = t" if "nul_free t" for t
    using that by (cases t) (auto simp: field_text_def with_strlen_def nul_free_def )
  have "fields_ok (map with_strlen [sch, usr, hst, prt, pth, qry])"
    using assms by (auto simp: fields_ok_def with_strlen_def nul_free_def  split: option.splits)
  then show ?thesis
    using create_sized_reads[of "with_strlen sch" "with_strlen usr" "with_strlen hst" "with_strlen prt" "with_strlen pth" "with_strlen qry"]
    using assms by (simp add: ast_uri_create_def ft)
qed

section \<open>The pointers of the parser\<close>

lemma find_cut_char:
  "find_index (\<lambda>x. x = c) s = map_option (\<lambda>r. length (fst r)) (cut_char c s)"
  by (induction s) (auto simp: option.map_comp comp_def case_prod_beta)

lemma cut_char_split: "cut_char c s = Some (a, b) \<Longrightarrow> s = a @ c # b"
  by (induction s arbitrary: a b) (auto split: if_splits)

lemma cut_str_split: "cut_str p s = Some (a, b) \<Longrightarrow> s = a @ p @ b"
proof (induction p s arbitrary: a b rule: cut_str.induct)
  case (2 p x xs)
  then show ?case by (auto split: if_splits) (metis append_take_drop_id)
qed (auto split: if_splits)

lemma find_index_shift:
  "find_index P (map f xs) = find_index (\<lambda>x. P (f x)) xs"
  by (induction xs) auto

lemma strstr_cut_str: "p \<noteq> [] \<Longrightarrow> strstr s p = map_option (\<lambda>r. length (fst r)) (cut_str p s)"
proof (induction s)
  case (Cons x s)
  have "[0..<length (x # s)] = 0 # map Suc [0..<length s]"
    by (simp add: upt_conv_Cons map_Suc_upt del: upt_Suc)
  then have "strstr (x # s) p = (if take (length p) (x # s) = p then Some 0 else map_option Suc (strstr s p))"
    by (simp add: strstr_def find_index_shift)
  then show ?case using Cons by (auto simp: option.map_comp comp_def case_prod_beta)
qed (simp add: strstr_def)

lemma strchr_step:
  assumes "uri \<le> length s" "length s < 2 ^ 32 - 1"
  shows "case cut_char c (drop uri s) of
           None \<Rightarrow> strchr s uri c = None
         | Some (a, b) \<Rightarrow> \<exists>p. strchr s uri c = Some p \<and> field_text (field s uri p) = Some a \<and>
             drop (p + 1) s = b \<and> s ! p = c \<and> p + 1 \<le> length s \<and> uri \<le> p"
proof (cases "cut_char c (drop uri s)")
  case (Some r)
  obtain a b where r: "r = (a, b)" by (cases r)
  have d: "drop uri s = a @ c # b" using cut_char_split Some r by simp
  then have s: "s = take uri s @ a @ c # b" by (metis append_take_drop_id)
  have "strchr s uri c = Some (uri + length a)" using Some r by (simp add: strchr_def find_cut_char)
  moreover have "length a + 1 < 2 ^ 32" using arg_cong[OF d, of length] assms(2) by simp
  then have "field_text (field s uri (uri + length a)) = Some a" by (simp add: field_text_def field_def d)
  moreover have "drop (uri + length a + 1) s = b"
    by (subst s) (use assms in simp)
  moreover have "s ! (uri + length a) = c"
    by (subst s) (use assms in \<open>simp add: nth_append\<close>)
  moreover have "uri + length a + 1 \<le> length s"
    using arg_cong[OF s, of length] assms by simp
  ultimately show ?thesis by (simp add: Some r)
qed (simp add: strchr_def find_cut_char)

text \<open>One step of the parser: the field up to a character, and where the text goes on.\<close>

definition cut_at :: "string \<Rightarrow> nat \<Rightarrow> nat option \<Rightarrow> nat \<Rightarrow> (string \<times> u32) option \<times> nat" where
  "cut_at s uri p n = (case p of Some p \<Rightarrow> (field s uri p, p + n) | None \<Rightarrow> (None, uri))"

definition cut_text :: "(string \<times> string) option \<Rightarrow> string \<Rightarrow> string option \<times> string" where
  "cut_text r uri = (case r of Some (a, b) \<Rightarrow> (Some a, b) | None \<Rightarrow> (None, uri))"

definition step_ok :: "string \<Rightarrow> (string \<times> u32) option \<Rightarrow> nat \<Rightarrow> string option \<Rightarrow> string \<Rightarrow> bool" where
  "step_ok s f u a b \<longleftrightarrow> field_text f = a \<and> drop u s = b \<and> u \<le> length s \<and> fields_ok [f]"

lemma field_ok: "CHR 0x00 \<notin> set s \<Longrightarrow> p \<le> length s \<Longrightarrow> length s < 2 ^ 32 - 1 \<Longrightarrow> fields_ok [field s uri p]"
  by (auto simp: fields_ok_def field_def dest: in_set_dropD)

lemma char_step:
  assumes "uri \<le> length s" "CHR 0x00 \<notin> set s" "length s < 2 ^ 32 - 1"
    and "cut_at s uri (strchr s uri c) 1 = (f, u)" and "cut_text (cut_char c (drop uri s)) (drop uri s) = (a, b)"
  shows "step_ok s f u a b" and "f \<noteq> None \<Longrightarrow> s ! (u - 1) = c" and "f = None \<Longrightarrow> u = uri"
  using strchr_step[OF assms(1,3), of c] assms
  by (auto simp: cut_at_def cut_text_def step_ok_def field_text_def fields_ok_def field_def dest: in_set_dropD
      split: option.splits)

lemma scheme_step:
  assumes "CHR 0x00 \<notin> set s" "length s < 2 ^ 32 - 1"
    and "cut_at s 0 (strstr s ''://'') 3 = (f, u)" and "cut_text (cut_str ''://'' s) s = (a, b)"
  shows "step_ok s f u a b"
proof (cases "cut_str ''://'' s")
  case (Some r)
  obtain x y where r: "r = (x, y)" by (cases r)
  then have "s = x @ ''://'' @ y" using cut_str_split Some by blast
  then show ?thesis
    using assms Some by (auto simp: r strstr_cut_str cut_at_def cut_text_def step_ok_def field_text_def field_def fields_ok_def)
qed (use assms in \<open>auto simp: strstr_cut_str cut_at_def cut_text_def step_ok_def field_text_def fields_ok_def\<close>)

lemma field_text_None: "field_text f = None \<longleftrightarrow> f = None"
  by (simp add: field_text_def)

text \<open>The query: from its mark to the end of the text; and the length of what comes before it.\<close>

definition query_at :: "string \<Rightarrow> nat option \<Rightarrow> (string \<times> u32) option \<times> nat" where
  "query_at s r = (case r of
     Some p \<Rightarrow> (Some (drop (p + 1) s, unsigned_int (length (drop (p + 1) s) + 1)), p)
   | None \<Rightarrow> (None, length s))"

definition query_text :: "(string \<times> string) option \<Rightarrow> string \<Rightarrow> string option \<times> string" where
  "query_text r t = (case r of Some (a, b) \<Rightarrow> (Some b, a) | None \<Rightarrow> (None, t))"

text \<open>
  The parser in steps, for the code and for the texts.
\<close>

lemma uri_parse_block_steps:
  "uri_parse_block s =
     (let (f1, u1) = cut_at s 0 (strstr s ''://'') 3; (f2, u2) = cut_at s u1 (strchr s u1 CHR ''@'') 1;
          (f3, u3) = cut_at s u2 (strchr s u2 CHR '':'') 1; (f4, u4) = cut_at s u3 (strchr s u3 CHR ''/'') 1;
          hst = (if f3 = None then f4 else f3); prt = (if f3 = None then None else f4);
          (qry, p) = query_at s (strchr s u4 CHR ''?'')
      in if hst = None then ast_uri_create_sized f1 f2 (field s u4 p) prt None qry
         else if s ! (u4 - 1) = CHR '':'' then ast_uri_create_sized f1 f2 hst (field s u4 p) None qry
         else if s ! (u4 - 1) = CHR ''/'' then ast_uri_create_sized f1 f2 hst prt (field s u4 p) qry
         else ast_uri_create_sized f1 f2 hst prt None qry)"
proof -
  have host: "(case r of Some p \<Rightarrow> if h = None then (field s u p, None, p + 1) else (h, field s u p, p + 1)
           | None \<Rightarrow> (h, None, u)) =
      (if h = None then fst (cut_at s u r 1) else h, if h = None then None else fst (cut_at s u r 1), snd (cut_at s u r 1))"
    for r h u
    by (cases r) (simp_all add: cut_at_def)
  show ?thesis
    unfolding uri_parse_block_def host cut_at_def [symmetric] query_at_def [symmetric] Let_def case_prod_beta fst_conv snd_conv ..
qed

lemma ast_uri_parse_steps:
  "ast_uri_parse s =
     (let (a1, t1) = cut_text (cut_str ''://'' s) s; (a2, t2) = cut_text (cut_char CHR ''@'' t1) t1;
          (a3, t3) = cut_text (cut_char CHR '':'' t2) t2; (a4, t4) = cut_text (cut_char CHR ''/'' t3) t3;
          hst = (if a3 = None then a4 else a3); prt = (if a3 = None then None else a4);
          (qry, v) = query_text (cut_char CHR ''?'' t4) t4;
          u = \<lparr>scheme = a1, user_info = a2, host = hst, port = prt, path = None, query = qry\<rparr>
      in if hst = None then u\<lparr>host := Some v\<rparr> else if a4 = None then u\<lparr>port := Some v\<rparr> else u\<lparr>path := Some v\<rparr>)"
proof -
  have host: "(case r of Some (a, b) \<Rightarrow> if h = None then (Some a, None, CHR ''/'', b) else (h, Some a, CHR ''/'', b)
           | None \<Rightarrow> (h, None, sep, u)) =
      (if h = None then fst (cut_text r u) else h, if h = None then None else fst (cut_text r u),
       if fst (cut_text r u) = None then sep else CHR ''/'', snd (cut_text r u))"
    for r h u sep
    by (cases r) (auto simp: cut_text_def)
  have sep: "(case r of Some (a, b) \<Rightarrow> (Some a, CHR '':'', b) | None \<Rightarrow> (None, CHR 0x00, u)) =
      (fst (cut_text r u), if fst (cut_text r u) = None then CHR 0x00 else CHR '':'', snd (cut_text r u))" for r u
    by (cases r) (auto simp: cut_text_def)
  obtain a1 t1 where c1: "cut_text (cut_str ''://'' s) s = (a1, t1)" by (cases "cut_text (cut_str ''://'' s) s")
  obtain a2 t2 where c2: "cut_text (cut_char CHR ''@'' t1) t1 = (a2, t2)" by (cases "cut_text (cut_char CHR ''@'' t1) t1")
  obtain a3 t3 where c3: "cut_text (cut_char CHR '':'' t2) t2 = (a3, t3)" by (cases "cut_text (cut_char CHR '':'' t2) t2")
  obtain a4 t4 where c4: "cut_text (cut_char CHR ''/'' t3) t3 = (a4, t4)" by (cases "cut_text (cut_char CHR ''/'' t3) t3")
  obtain qry v where c5: "query_text (cut_char CHR ''?'' t4) t4 = (qry, v)"
    by (metis surj_pair)
  show ?thesis
    unfolding ast_uri_parse_def cut_text_def [symmetric] query_text_def [symmetric] c1 prod.case c2 sep c3 fst_conv snd_conv host c4 Let_def c5
    by (cases a3; cases a4) simp_all
qed

lemma query_step:
  assumes "uri \<le> length s" "CHR 0x00 \<notin> set s" "length s < 2 ^ 32 - 1"
    and "query_at s (strchr s uri CHR ''?'') = (q, p)" and "query_text (cut_char CHR ''?'' (drop uri s)) (drop uri s) = (a, b)"
  shows "field_text q = a" and "field_text (field s uri p) = Some b" and "fields_ok [q]" and "p \<le> length s"
proof -
  have "field_text q = a \<and> field_text (field s uri p) = Some b \<and> fields_ok [q] \<and> p \<le> length s"
  proof (cases "cut_char CHR ''?'' (drop uri s)")
    case None
    then have "q = None" "p = length s" "a = None" "b = drop uri s"
      using strchr_step[OF assms(1,3), of "CHR ''?''"] assms(4,5) by (simp_all add: query_at_def query_text_def)
    then show ?thesis using assms(1,3) by (auto simp: field_text_def field_def fields_ok_def)
  next
    case (Some xy)
    obtain x y where xy: "xy = (x, y)" by (cases xy)
    obtain i where i: "strchr s uri CHR ''?'' = Some i" "field_text (field s uri i) = Some x" "drop (i + 1) s = y" "i + 1 \<le> length s"
      using strchr_step[OF assms(1,3), of "CHR ''?''"] Some by (auto simp: xy)
    have "q = Some (y, unsigned_int (length y + 1))" "p = i" "a = Some y" "b = x"
      using i(1,3) Some assms(4,5) by (auto simp: query_at_def query_text_def xy)
    moreover have "CHR 0x00 \<notin> set y" using assms(2) i(3) by (metis in_set_dropD)
    moreover have "length y + 1 < 2 ^ 32" using arg_cong[OF i(3), of length] assms(3) by simp
    ultimately show ?thesis using i(2,4) by (simp add: field_text_def fields_ok_def)
  qed
  then show "field_text q = a" and "field_text (field s uri p) = Some b" and "fields_ok [q]" and "p \<le> length s" by blast+
qed

text \<open>
  The last part goes where the last separator says: behind a colon it is the port, behind a slash the path, and
  the host when there was neither.
\<close>

lemma last_part:
  assumes ok: "fields_ok [f1, f2, f3, f4, f, q]"
    and ft: "field_text f1 = a1" "field_text f2 = a2" "field_text f3 = a3" "field_text f4 = a4"
      "field_text q = qt" "field_text f = Some v"
    and sep: "f4 = None \<Longrightarrow> f3 \<noteq> None \<Longrightarrow> c = CHR '':''" "f4 \<noteq> None \<Longrightarrow> c = CHR ''/''"
  shows "\<exists>u. (let hst = (if f3 = None then f4 else f3); prt = (if f3 = None then None else f4)
      in if hst = None then ast_uri_create_sized f1 f2 f prt None q
         else if c = CHR '':'' then ast_uri_create_sized f1 f2 hst f None q
         else if c = CHR ''/'' then ast_uri_create_sized f1 f2 hst prt f q
         else ast_uri_create_sized f1 f2 hst prt None q) = Some u \<and>
     uri_of u = (let hst = (if a3 = None then a4 else a3); prt = (if a3 = None then None else a4);
         w = \<lparr>scheme = a1, user_info = a2, host = hst, port = prt, path = None, query = qt\<rparr>
      in if hst = None then w\<lparr>host := Some v\<rparr> else if a4 = None then w\<lparr>port := Some v\<rparr> else w\<lparr>path := Some v\<rparr>)"
proof -
  have ft_None: "field_text None = None" by (simp add: field_text_def)
  have mk: "\<exists>u. ast_uri_create_sized f1 f2 x y z q = Some u \<and>
     uri_of u = \<lparr>scheme = a1, user_info = a2, host = field_text x, port = field_text y, path = field_text z, query = qt\<rparr>"
    if "{x, y, z} \<subseteq> {f3, f4, f, None}" for x y z
  proof -
    have "fields_ok [f1, f2, x, y, z, q]" using ok that unfolding fields_ok_def by auto
    then show ?thesis using create_sized_reads[of f1 f2 x y z q] ft by simp
  qed
  have N: "f3 = None \<longleftrightarrow> a3 = None" "f4 = None \<longleftrightarrow> a4 = None"
    using ft by (simp_all add: field_text_None [symmetric])
  show ?thesis
    using mk[of f None None] mk[of f4 None f] mk[of f3 f None] mk[of f3 f4 f] ft sep N
    by (cases f3; cases f4) (auto simp: ft_None Let_def)
qed

text \<open>
  C39. For every text without a zero byte of less than \<open>2 ^ 32 - 1\<close> characters, where \<open>calloc\<close> succeeds, the
  parser of URIs makes an object without writing outside the characters of its block, and the fields read back
  from the block, each up to its own terminator, are the parts of the text that the description with texts
  gives. The bound is that of the sizes, which are cut to \<open>unsigned int\<close>: a part of \<open>2 ^ 32 - 1\<close> characters would get
  the size 0.
\<close>

theorem uri_block_parses:
  assumes nul: "CHR 0x00 \<notin> set s" and len: "length s < 2 ^ 32 - 1"
  shows "\<exists>u. uri_parse_block s = Some u \<and> uri_of u = ast_uri_parse s"
proof -
  obtain f1 u1 a1 t1 where c1: "cut_at s 0 (strstr s ''://'') 3 = (f1, u1)" "cut_text (cut_str ''://'' s) s = (a1, t1)"
    by (metis surj_pair)
  note s1 = scheme_step[OF nul len c1]
  then have d1: "drop u1 s = t1" "u1 \<le> length s" by (simp_all add: step_ok_def)
  obtain f2 u2 a2 t2 where c2: "cut_at s u1 (strchr s u1 CHR ''@'') 1 = (f2, u2)" "cut_text (cut_char CHR ''@'' t1) t1 = (a2, t2)"
    by (metis surj_pair)
  note s2 = char_step(1)[OF d1(2) nul len c2(1) c2(2)[folded d1(1)]]
  then have d2: "drop u2 s = t2" "u2 \<le> length s" by (simp_all add: step_ok_def)
  obtain f3 u3 a3 t3 where c3: "cut_at s u2 (strchr s u2 CHR '':'') 1 = (f3, u3)" "cut_text (cut_char CHR '':'' t2) t2 = (a3, t3)"
    by (metis surj_pair)
  note s3 = char_step[OF d2(2) nul len c3(1) c3(2)[folded d2(1)]]
  then have d3: "drop u3 s = t3" "u3 \<le> length s" by (simp_all add: step_ok_def)
  obtain f4 u4 a4 t4 where c4: "cut_at s u3 (strchr s u3 CHR ''/'') 1 = (f4, u4)" "cut_text (cut_char CHR ''/'' t3) t3 = (a4, t4)"
    by (metis surj_pair)
  note s4 = char_step[OF d3(2) nul len c4(1) c4(2)[folded d3(1)]]
  then have d4: "drop u4 s = t4" "u4 \<le> length s" by (simp_all add: step_ok_def)
  obtain q p qt v where c5: "query_at s (strchr s u4 CHR ''?'') = (q, p)" "query_text (cut_char CHR ''?'' t4) t4 = (qt, v)"
    by (metis surj_pair)
  note s5 = query_step[OF d4(2) nul len c5(1) c5(2)[folded d4(1)]]
  have "fields_ok [f1, f2, f3, f4, field s u4 p, q]"
    using s1 s2 s3(1) s4(1) s5(3) field_ok[OF nul s5(4) len, of u4] unfolding step_ok_def fields_ok_def list.set by blast
  moreover have "field_text f1 = a1" "field_text f2 = a2" "field_text f3 = a3" "field_text f4 = a4"
    using s1 s2 s3(1) s4(1) by (auto simp: step_ok_def)
  moreover have "f4 = None \<Longrightarrow> f3 \<noteq> None \<Longrightarrow> s ! (u4 - 1) = CHR '':''" "f4 \<noteq> None \<Longrightarrow> s ! (u4 - 1) = CHR ''/''"
    using s3(2) s4(2,3) by auto
  ultimately show ?thesis
    unfolding uri_parse_block_steps ast_uri_parse_steps c1 c2 c3 c4 c5 Let_def prod.case
    using s5(1,2) by (intro last_part[unfolded Let_def])
qed

theorem uri_block_parses_witness:
  "\<exists>u. uri_parse_block ''ws://a.b:80/x?q'' = Some u \<and>
     uri_of u = \<lparr>scheme = Some ''ws'', user_info = None, host = Some ''a.b'', port = Some ''80'', path = Some ''x'',
                 query = Some ''q''\<rparr>"
proof -
  have "ast_uri_parse ''ws://a.b:80/x?q'' = \<lparr>scheme = Some ''ws'', user_info = None, host = Some ''a.b'',
      port = Some ''80'', path = Some ''x'', query = Some ''q''\<rparr>"
    by code_simp
  then show ?thesis using uri_block_parses [of "''ws://a.b:80/x?q''"] by simp
qed

section \<open>Starting the name service\<close>

text \<open>
  \<open>DNSServerStart\<close>: its result, by what \<open>pthread_create\<close> returns, and whether the thread runs. A turn of the
  thread refreshes the table, with results nobody reads, and waits half an hour.
\<close>

definition DNSServerStart :: "int \<Rightarrow> int \<times> bool" where
  "DNSServerStart ret = (if ret \<noteq> 0 then (- 1, False) else (0, True))"

definition dns_server_task_turn :: "(string \<Rightarrow> string option) \<Rightarrow> (string \<times> string) list \<Rightarrow> (string \<times> string) list" where
  "dns_server_task_turn lookup table =
     snd (snd (searchDNS lookup [] 2 (\<lparr>do_url_ip = [], do_host = [], do_port = []\<rparr>, table)))"

text \<open>\<open>uri_parse\<close>: the host and the path behind a slash, where there are any, into the caller's buffers.\<close>

definition uri_parse :: "string \<Rightarrow> string \<Rightarrow> string \<Rightarrow> int \<times> string \<times> string" where
  "uri_parse sorcpath urihost uripath =
     (let u = ast_uri_parse sorcpath
      in (0, case host u of Some h \<Rightarrow> h | None \<Rightarrow> urihost, case path u of Some p \<Rightarrow> CHR ''/'' # p | None \<Rightarrow> uripath))"

lemma refresh_keeps_hosts: "map fst (refresh lookup ip t) = map fst t"
  by (induction lookup ip t rule: refresh.induct) (auto simp: Let_def split: option.split)

lemma turn_keeps_hosts: "map fst (dns_server_task_turn lookup table) = map fst table"
  by (simp add: dns_server_task_turn_def searchDNS_def refresh_keeps_hosts)

end
