(* ===== verification/Forward.thy ===== *)
theory Forward
  imports ProcProps
begin

text \<open>
  From a handler to the upstream server: a message that a handler has accepted is taken over by the input
  task of its unit and sent by its output task. The rounds of the output thread are a list, each with the
  network it meets.
\<close>

section \<open>Rounds of the output thread\<close>










section \<open>From the caches to the queue\<close>



section \<open>From the handler to the caches\<close>

lemma vector_push_has: "v_isSetMax v \<Longrightarrow> vector_wf v \<Longrightarrow> 0 < size_of_int (v_max v) \<Longrightarrow> x \<in> set (v_items (vector_push x v))"
  by (auto simp: vector_push_bounded)

lemma pushI_has:
  assumes "unit_ok n c du" and "0 < size_of_int c" and "fst (pushI x i du)"
  shows "x \<in> set (concat (cached (snd (pushI x i du))))"
proof -
  obtain v where v: "vec_at i (du_iq du) = Some v" using assms(3) by (auto simp: pushI_def split: option.splits)
  note b = vec_atD[OF v]
  then have "v \<in> set (du_iq du)" by simp
  then have "x \<in> set (v_items (vector_push x v))"
    using assms(1,2) by (intro vector_push_has) (auto simp: unit_ok_def du_wf_def)
  moreover have "vector_push x v \<in> set ((du_iq du)[nat i := vector_push x v])"
    using b by (intro set_update_memI) simp
  ultimately show ?thesis by (auto simp: pushI_def v cached_def)
qed

lemma pushI_keeps [simp]:
  "du_oq (snd (pushI x i du)) = du_oq du" "du_cache (snd (pushI x i du)) = du_cache du"
  by (auto simp: pushI_def split: option.split)

lemma FindIndex_keeps [simp]:
  "du_oq (snd (FindIndexInUnOrder code du)) = du_oq du" "du_cache (snd (FindIndexInUnOrder code du)) = du_cache du"
  by (auto simp: FindIndexInUnOrder_def split: option.split)

context data_field
begin

text \<open>A message that a handler of this unit has accepted is in its caches.\<close>

lemma accepted_cached:
  assumes "unit_ok n c (sel (ps_data st))" and "0 < size_of_int c" and "dec content = Some msg"
    and "recv_store dec ts code sel upd (\<lambda>_. no_rate) env cn content st = Inr (0, cn', st')"
  shows "msg \<in> set (concat (cached (sel (ps_data st'))))" and "unit_ok n c (sel (ps_data st'))"
    and "du_oq (sel (ps_data st')) = du_oq (sel (ps_data st))"
    and "du_cache (sel (ps_data st')) = du_cache (sel (ps_data st))"
proof -
  let ?du0 = "sel (ps_data st)"
  have ok: "admissible env (ts msg) (code msg) st"
    and s: "store_msg sel upd no_rate msg (code msg) st = (0, st')"
    using assms(3,4) by (simp_all add: recv_store_def admit_eq split: if_splits prod.splits)
  obtain i du where f: "FindIndexInUnOrder (code msg) ?du0 = (i, du)" by fastforce
  have i: "i \<noteq> - 1"
    using store_refused[where msg = msg and rate = no_rate and st = st and du = du] f s by force
  have u: "unit_ok n c du" and k: "du_oq du = du_oq ?du0" "du_cache du = du_cache ?du0"
    using unit_ok_FindIndex[OF assms(1), of "code msg"] FindIndex_keeps[of "code msg" ?du0] f by simp_all
  have st': "st' = st\<lparr>ps_data := upd (\<lambda>_. snd (pushI msg i du)) (ps_data st)\<rparr>"
    using store_stored[OF assms(1) f i] s by simp
  have sel': "sel (ps_data st') = snd (pushI msg i du)" unfolding st' by (simp add: sel_upd)
  have "0 \<le> i \<and> nat i < length (du_iq du)"
    using FindIndex_range[OF f] assms(1) i u FindIndex_simps(1)[of "code msg" ?du0] f
    by (auto simp: unit_ok_def du_wf_def)
  then have "fst (pushI msg i du)" by (intro pushI_ok) simp_all
  from pushI_has[OF u assms(2) this] show "msg \<in> set (concat (cached (sel (ps_data st'))))" unfolding sel' .
  show "unit_ok n c (sel (ps_data st'))" unfolding sel' by (rule unit_ok_pushI[OF u])
  show "du_oq (sel (ps_data st')) = du_oq ?du0" "du_cache (sel (ps_data st')) = du_cache ?du0"
    unfolding sel' using k by simp_all
qed

end

section \<open>The whole way\<close>





end
