(* ===== verification/Sockets.thy ===== *)
theory Sockets
  imports RingBuf
begin

text \<open>
  The socket classes of \<open>net/\<close>: \<open>TlsClient\<close>, over which the client of the configuration centre talks,
  and the TCP and UDP classes of the same library. The system and OpenSSL are parameters: the outcomes of
  the calls of one operation, in order. Logging, options without effect here and the printed certificates are
  left out.
\<close>

section \<open>Writing a whole buffer\<close>

text \<open>
  One call of \<open>send\<close>, \<open>sendto\<close> or \<open>SSL_write\<close>: a number of bytes taken, an interruption (\<open>EINTR\<close>) or
  another error.
\<close>

datatype write_call = Wrote nat | Interrupted | Write_failed

text \<open>
  The loop: what it handed over, and what it returns, \<open>None\<close> where the last call has not returned. An
  interrupted call is made again.
\<close>

fun write_loop :: "write_call list \<Rightarrow> bytes \<Rightarrow> int \<Rightarrow> bytes \<times> int option" where
  "write_loop calls [] nsend = ([], Some nsend)"
| "write_loop [] (b # bs) nsend = ([], None)"
| "write_loop (Wrote n # calls) (b # bs) nsend =
     (if n = 0 then ([], Some 0)
      else let (sent, ret) = write_loop calls (drop n (b # bs)) (int n) in (take n (b # bs) @ sent, ret))"
| "write_loop (Interrupted # calls) (b # bs) nsend = write_loop calls (b # bs) 0"
| "write_loop (Write_failed # calls) (b # bs) nsend = ([], Some (- 1))"

text \<open>\<open>TlsClient::Write\<close>, \<open>TcpClient::Send\<close>, \<open>UdpClient::Send\<close> and \<open>UdpServer::Send\<close>: the lock is released on every way out.\<close>

definition TlsClient_Write :: "int \<Rightarrow> write_call list \<Rightarrow> bytes \<Rightarrow> bytes \<times> int option" where
  "TlsClient_Write sock calls data = (if sock \<noteq> 0 then write_loop calls data 0 else ([], Some 0))"

definition TcpClient_Send :: "int \<Rightarrow> write_call list \<Rightarrow> bytes \<Rightarrow> bytes \<times> int option" where
  "TcpClient_Send sock calls data = (if sock \<noteq> 0 then write_loop calls data 0 else ([], Some 0))"

definition UdpClient_Send :: "int \<Rightarrow> write_call list \<Rightarrow> bytes \<Rightarrow> bytes \<times> int option" where
  "UdpClient_Send sock calls data = (if sock \<noteq> 0 then write_loop calls data 0 else ([], Some 0))"

definition UdpServer_Send :: "int \<Rightarrow> write_call list \<Rightarrow> bytes \<Rightarrow> bytes \<times> int option" where
  "UdpServer_Send sock calls data = (if sock \<noteq> 0 then write_loop calls data 0 else ([], Some 0))"

section \<open>The client over TLS\<close>

record TlsClient =
  tc_sock :: int
  tc_ctx :: bool
  tc_ssl :: bool
  tc_isLive :: bool
  tc_rb :: "ring option"
  tc_isLocalThreadRun :: bool
  tc_isAsynRecieve :: bool

text \<open>The constructor sets the address and \<open>isLive\<close>; \<open>sock\<close>, \<open>ctx\<close> and \<open>ssl\<close> are what the memory held.\<close>

definition TlsClient_new :: "int \<Rightarrow> bool \<Rightarrow> bool \<Rightarrow> TlsClient" where
  "TlsClient_new sock ctx ssl = \<lparr>tc_sock = sock, tc_ctx = ctx, tc_ssl = ssl, tc_isLive = False, tc_rb = None,
     tc_isLocalThreadRun = False, tc_isAsynRecieve = True\<rparr>"

text \<open>What the system says during \<open>Open\<close>.\<close>

record tls_env =
  te_socket :: int
  te_connect :: int
  te_rcvtimeo :: int
  te_sndtimeo :: int
  te_ctx :: bool
  te_ca :: int
  te_handshake :: int
  te_buff :: bytes

definition connectServer :: "tls_env \<Rightarrow> TlsClient \<Rightarrow> int" where
  "connectServer e c =
     (if tc_sock c < 0 then - 1
      else if te_connect e < 0 then - 1
      else if te_rcvtimeo e = - 1 then - 1
      else if te_sndtimeo e = - 1 then - 1
      else 0)"

definition TlsClient_Open :: "tls_env \<Rightarrow> TlsClient \<Rightarrow> int \<times> TlsClient" where
  "TlsClient_Open e c =
     (let c = c\<lparr>tc_sock := te_socket e\<rparr>
      in if tc_sock c < 0 then (- 1, c)
         else if connectServer e c < 0 then (- 1, c)
         else let c = c\<lparr>tc_ctx := te_ctx e\<rparr>
              in if \<not> tc_ctx c then (- 1, c)
                 else if te_ca e \<le> 0 then (- 1, c)
                 else let c = c\<lparr>tc_ssl := True\<rparr>
                      in if te_handshake e \<le> 0 then (- 1, c)
                         else (0, c\<lparr>tc_rb := Some (ring_new (te_buff e))\<rparr>))"

definition TlsClient_Run :: "TlsClient \<Rightarrow> int \<times> TlsClient" where
  "TlsClient_Run c = (0, c\<lparr>tc_isLive := True, tc_isLocalThreadRun := True\<rparr>)"

text \<open>\<open>Close\<close> closes the descriptor if it is positive, whoever has it by then, and does not reset it.\<close>

definition TlsClient_Close :: "TlsClient \<Rightarrow> int list \<times> TlsClient" where
  "TlsClient_Close c =
     (if 0 < tc_sock c then [tc_sock c] else [],
      c\<lparr>tc_isLive := False, tc_isLocalThreadRun := False, tc_rb := None, tc_ssl := False, tc_ctx := False\<rparr>)"

text \<open>
  \<open>verifyCB\<close>, which OpenSSL asks for every certificate of the chain, with what it found itself: without
  \<open>NDEBUG\<close> every certificate is accepted. What it prints is left out.
\<close>

definition verifyCB :: "bool \<Rightarrow> int \<Rightarrow> int" where
  "verifyCB ndebug preVerify = (if \<not> ndebug then 1 else preVerify)"

text \<open>
  A round of the receiving thread, which runs between \<open>Run\<close> and \<open>Close\<close>, while there is a ring buffer.
  \<open>ARRAY_SIZE(buffer)\<close> is the size of a pointer, so at most 8 bytes are
  read at a time. \<open>SSL_read\<close> gives bytes, the end of the stream, or an error.
\<close>

datatype select_result = Select_error | Select_timeout | Readable_now

datatype read_call = Bytes bytes | Read_failed

definition ARRAY_SIZE_buffer :: nat where "ARRAY_SIZE_buffer = 8"

definition tls_recvLen :: "ring \<Rightarrow> nat" where
  "tls_recvLen rb = (if ring_GetWriteLen rb < ARRAY_SIZE_buffer then ring_GetWriteLen rb else ARRAY_SIZE_buffer)"

definition tls_dump :: "select_result \<Rightarrow> (nat \<Rightarrow> read_call) \<Rightarrow> TlsClient \<Rightarrow> TlsClient" where
  "tls_dump sel SSL_read c =
     (if \<not> tc_isLive c \<or> \<not> tc_isAsynRecieve c then c
      else case sel of
        Select_error \<Rightarrow> c
      | Select_timeout \<Rightarrow> c
      | Readable_now \<Rightarrow>
          (case tc_rb c of
             None \<Rightarrow> c
           | Some rb \<Rightarrow>
               (case SSL_read (tls_recvLen rb) of
                  Bytes bs \<Rightarrow> if bs = [] then c else c\<lparr>tc_rb := Some (snd (ring_write bs rb))\<rparr>
                | Read_failed \<Rightarrow> c\<lparr>tc_isLive := False\<rparr>)))"

section \<open>The TCP client\<close>

text \<open>\<open>Close\<close> deletes the ring buffer and keeps the pointer to it.\<close>

datatype rb_pointer = Rb_null | Rb ring | Rb_deleted

datatype socket_error = Double_delete | Deref_end | Deref_deleted

record TcpClient =
  pc_sock :: int
  pc_isConnect :: bool
  pc_rb :: rb_pointer
  pc_isLocalThreadRun :: bool
  pc_isAsynReceive :: bool

definition TcpClient_new :: TcpClient where
  "TcpClient_new = \<lparr>pc_sock = - 1, pc_isConnect = False, pc_rb = Rb_null, pc_isLocalThreadRun = False, pc_isAsynReceive = True\<rparr>"

definition TcpClient_createSock :: "int \<Rightarrow> int \<Rightarrow> int" where
  "TcpClient_createSock socket connect = (if socket = - 1 then - 1 else if connect = - 1 then - 1 else socket)"

definition TcpClient_Open :: "int \<Rightarrow> int \<Rightarrow> bytes \<Rightarrow> TcpClient \<Rightarrow> int \<times> TcpClient" where
  "TcpClient_Open socket connect buff c =
     (let fd = TcpClient_createSock socket connect
      in if 0 < fd then (0, c\<lparr>pc_sock := fd, pc_isConnect := True, pc_rb := Rb (ring_new buff)\<rparr>)
         else (- 1, c\<lparr>pc_sock := fd, pc_isConnect := False\<rparr>))"

definition TcpClient_Run :: "TcpClient \<Rightarrow> int \<times> TcpClient" where
  "TcpClient_Run c = (0, c\<lparr>pc_isLocalThreadRun := True\<rparr>)"

definition TcpClient_Close :: "TcpClient \<Rightarrow> socket_error + int \<times> TcpClient" where
  "TcpClient_Close c =
     (let c = c\<lparr>pc_isConnect := False, pc_isLocalThreadRun := False\<rparr>
      in case pc_rb c of
           Rb_null \<Rightarrow> Inr (0, c)
         | Rb rb \<Rightarrow> Inr (0, c\<lparr>pc_rb := Rb_deleted\<rparr>)
         | Rb_deleted \<Rightarrow> Inl Double_delete)"

text \<open>A round of the receiving thread; \<open>recv\<close> gives bytes or an error, which may be one to try again after.\<close>

datatype recv_call = Got bytes | Try_again | Broken

definition recv_max :: "ring \<Rightarrow> nat" where
  "recv_max rb = (if ring_GetWriteLen rb < 1024 * 1024 then ring_GetWriteLen rb else 1024 * 1024)"

definition tcp_dump :: "(nat \<Rightarrow> recv_call) \<Rightarrow> TcpClient \<Rightarrow> TcpClient" where
  "tcp_dump recv c =
     (if \<not> pc_isConnect c \<or> \<not> pc_isAsynReceive c then c
      else case pc_rb c of
        Rb_null \<Rightarrow> c
      | Rb_deleted \<Rightarrow> c
      | Rb rb \<Rightarrow>
          (case recv (recv_max rb) of
             Got bs \<Rightarrow> if bs = [] then c else c\<lparr>pc_rb := Rb (snd (ring_write bs rb))\<rparr>
           | Try_again \<Rightarrow> c
           | Broken \<Rightarrow> c\<lparr>pc_isConnect := False\<rparr>))"

section \<open>The TCP server and its clients\<close>

record TcpServerClient =
  sc_sock :: int
  sc_isConnect :: bool
  sc_rb :: "ring option"
  sc_isLocalThreadRun :: bool
  sc_isAsynReceive :: bool
  sc_locked :: bool

definition TcpServerClient_new :: "int \<Rightarrow> bytes \<Rightarrow> TcpServerClient" where
  "TcpServerClient_new sock buff = \<lparr>sc_sock = sock, sc_isConnect = True, sc_rb = Some (ring_new buff),
     sc_isLocalThreadRun = False, sc_isAsynReceive = True, sc_locked = False\<rparr>"

definition TcpServerClient_Run :: "TcpServerClient \<Rightarrow> int \<times> TcpServerClient" where
  "TcpServerClient_Run c = (0, c\<lparr>sc_isLocalThreadRun := True\<rparr>)"

definition TcpServerClient_Close :: "TcpServerClient \<Rightarrow> int \<times> TcpServerClient" where
  "TcpServerClient_Close c =
     (if \<not> sc_isConnect c then (0, c)
      else (0, c\<lparr>sc_isConnect := False, sc_sock := (if 0 < sc_sock c then 0 else sc_sock c),
                 sc_isLocalThreadRun := False, sc_rb := None\<rparr>))"

definition server_dump :: "(nat \<Rightarrow> recv_call) \<Rightarrow> TcpServerClient \<Rightarrow> TcpServerClient" where
  "server_dump recv c =
     (if \<not> sc_isConnect c \<or> \<not> sc_isAsynReceive c then c
      else case sc_rb c of
        None \<Rightarrow> c
      | Some rb \<Rightarrow>
          (case recv (recv_max rb) of
             Got bs \<Rightarrow> if bs = [] then c else c\<lparr>sc_rb := Some (snd (ring_write bs rb))\<rparr>
           | Try_again \<Rightarrow> c
           | Broken \<Rightarrow> c))"

text \<open>
  \<open>Send\<close> of a client of the server: an interrupted call returns \<open>-1\<close> at once, with the lock still held. The
  result is what was handed over, what is returned, and whether the lock is held afterwards; a call that
  finds the lock held does not return.
\<close>

fun server_write_loop :: "write_call list \<Rightarrow> bytes \<Rightarrow> int \<Rightarrow> bytes \<times> int option \<times> bool" where
  "server_write_loop calls [] nsend = ([], Some nsend, False)"
| "server_write_loop [] (b # bs) nsend = ([], None, True)"
| "server_write_loop (Wrote n # calls) (b # bs) nsend =
     (if n = 0 then ([], Some 0, False)
      else let (sent, ret, lock) = server_write_loop calls (drop n (b # bs)) (int n) in (take n (b # bs) @ sent, ret, lock))"
| "server_write_loop (Interrupted # calls) (b # bs) nsend = ([], Some (- 1), True)"
| "server_write_loop (Write_failed # calls) (b # bs) nsend = ([], Some (- 1), False)"

definition TcpServerClient_Send :: "write_call list \<Rightarrow> bytes \<Rightarrow> TcpServerClient \<Rightarrow> (bytes \<times> int option) \<times> TcpServerClient" where
  "TcpServerClient_Send calls data c =
     (if sc_sock c = 0 then (([], Some 0), c)
      else if sc_locked c then (([], None), c)
      else let (sent, ret, lock) = server_write_loop calls data 0 in ((sent, ret), c\<lparr>sc_locked := lock\<rparr>))"

record TcpServer =
  ts_sock :: int
  ts_isRun :: bool
  ts_isLocalThreadRun :: bool
  ts_clients :: "TcpServerClient list"
  ts_epoll_fd :: int
  ts_epoll :: "int list"

definition TcpServer_new :: TcpServer where
  "TcpServer_new = \<lparr>ts_sock = 0, ts_isRun = False, ts_isLocalThreadRun = False, ts_clients = [], ts_epoll_fd = 0, ts_epoll = []\<rparr>"

definition TcpServer_createSock :: "int \<Rightarrow> int \<Rightarrow> int \<Rightarrow> int" where
  "TcpServer_createSock socket bind listen =
     (if socket = - 1 then - 1 else if bind < 0 then - 1 else if listen \<noteq> 0 then - 1 else socket)"

text \<open>
  What is registered with epoll is \<open>ts_epoll\<close>; \<open>ctl\<close> is what \<open>epoll_ctl\<close> returns, and nobody looks at what
  the three functions return. A server whose \<open>EpollInit\<close> failed is open and gets no events.
\<close>

definition EpollInit :: "int \<Rightarrow> int \<Rightarrow> TcpServer \<Rightarrow> int \<times> TcpServer" where
  "EpollInit create ctl s =
     (let s = s\<lparr>ts_epoll_fd := create\<rparr>
      in if create = - 1 then (- 1, s)
         else if ctl = - 1 then (- 1, s)
         else (0, s\<lparr>ts_epoll := ts_epoll s @ [ts_sock s]\<rparr>))"

definition EpollAdd :: "int \<Rightarrow> int \<Rightarrow> TcpServer \<Rightarrow> int \<times> TcpServer" where
  "EpollAdd ctl fd s = (if ctl = - 1 then (- 1, s) else (0, s\<lparr>ts_epoll := ts_epoll s @ [fd]\<rparr>))"

definition EpollDel :: "int \<Rightarrow> int \<Rightarrow> TcpServer \<Rightarrow> int \<times> TcpServer" where
  "EpollDel ctl fd s = (if ctl = - 1 then (- 1, s) else (0, s\<lparr>ts_epoll := removeAll fd (ts_epoll s)\<rparr>))"

definition TcpServer_Open :: "int \<Rightarrow> int \<Rightarrow> int \<Rightarrow> TcpServer \<Rightarrow> int \<times> TcpServer" where
  "TcpServer_Open fd create ctl s =
     (if 0 < fd then (0, (snd (EpollInit create ctl (s\<lparr>ts_sock := fd\<rparr>)))\<lparr>ts_isRun := True\<rparr>)
      else (- 1, s\<lparr>ts_isRun := False\<rparr>))"

definition TcpServer_Run :: "TcpServer \<Rightarrow> int \<times> TcpServer" where
  "TcpServer_Run s = (if \<not> ts_isRun s then (- 1, s) else (0, s\<lparr>ts_isLocalThreadRun := True\<rparr>))"

definition cbConnect :: "int \<Rightarrow> bytes \<Rightarrow> TcpServer \<Rightarrow> TcpServer" where
  "cbConnect fd buff s = s\<lparr>ts_clients := ts_clients s @ [snd (TcpServerClient_Run (TcpServerClient_new fd buff))]\<rparr>"

text \<open>The loop goes on to the next index after an erase, past the client that has moved up.\<close>

fun erase_client :: "int \<Rightarrow> TcpServerClient list \<Rightarrow> TcpServerClient list" where
  "erase_client fd [] = []"
| "erase_client fd [c] = (if sc_sock c = fd then [] else [c])"
| "erase_client fd (c # d # cs) =
     (if sc_sock c = fd then d # erase_client fd cs else c # erase_client fd (d # cs))"

definition cbDisconnect :: "int \<Rightarrow> TcpServer \<Rightarrow> TcpServer" where
  "cbDisconnect fd s = s\<lparr>ts_clients := erase_client fd (ts_clients s)\<rparr>"

text \<open>
  One event of \<open>epoll_wait\<close>: its descriptor, whether it reports an error or the end of the connection,
  what \<open>accept\<close> would give (with the buffer of the new client), and what \<open>epoll_ctl\<close> would.
\<close>

record ep_event =
  ev_fd :: int
  ev_down :: bool
  ev_accept :: int
  ev_buff :: bytes
  ev_ctl :: int

definition server_event :: "ep_event \<Rightarrow> TcpServer \<Rightarrow> TcpServer" where
  "server_event ev s =
     (if ev_fd ev = ts_sock s then
        if ev_accept ev < 0 then s
        else cbConnect (ev_accept ev) (ev_buff ev) (snd (EpollAdd (ev_ctl ev) (ev_accept ev) s))
      else if 2 < ev_fd ev \<and> ev_down ev then
        cbDisconnect (ev_fd ev) (snd (EpollDel (ev_ctl ev) (ev_fd ev) s))
      else s)"

definition server_wait :: "ep_event list \<Rightarrow> TcpServer \<Rightarrow> TcpServer" where
  "server_wait evs s = (if ts_isRun s then fold server_event evs s else s)"

text \<open>\<open>DeleteClient\<close> deletes every client and then looks at the first element of the empty vector.\<close>

definition DeleteClient :: "int \<Rightarrow> TcpServer \<Rightarrow> socket_error + int \<times> TcpServer" where
  "DeleteClient fd s = (if ts_clients s \<noteq> [] then Inl Deref_end else Inr (0, s))"

definition DeleteAllClient :: "TcpServer \<Rightarrow> TcpServer" where
  "DeleteAllClient s = (if ts_clients s \<noteq> [] then s\<lparr>ts_clients := []\<rparr> else s)"

definition TcpServer_Close :: "TcpServer \<Rightarrow> int \<times> TcpServer" where
  "TcpServer_Close s =
     (0, DeleteAllClient (s\<lparr>ts_isRun := False, ts_sock := (if 0 < ts_sock s then 0 else ts_sock s), ts_isLocalThreadRun := False, ts_epoll := []\<rparr>))"

section \<open>UDP\<close>

record Udp =
  ud_sock :: int
  ud_isRun :: bool
  ud_isLocalThreadRun :: bool

definition UdpClient_createSock :: "int \<Rightarrow> int" where
  "UdpClient_createSock socket = (if socket < 0 then - 1 else socket)"

definition UdpServer_createSock :: "int \<Rightarrow> int \<Rightarrow> int" where
  "UdpServer_createSock socket bind = (if socket < 0 then - 1 else if bind < 0 then - 1 else socket)"

definition UdpSvrBroadcast_createSock :: "int \<Rightarrow> int \<Rightarrow> int \<Rightarrow> int" where
  "UdpSvrBroadcast_createSock socket setsockopt bind =
     (if socket < 0 then - 1 else if setsockopt = - 1 then - 1 else if bind < 0 then - 1 else socket)"

text \<open>\<open>Open\<close>, \<open>Close\<close> and \<open>Run\<close> do the same in the three classes.\<close>

definition Udp_Open :: "int \<Rightarrow> Udp \<Rightarrow> int \<times> Udp" where
  "Udp_Open fd u = (if 0 < fd then (0, u\<lparr>ud_sock := fd, ud_isRun := True\<rparr>) else (- 1, u\<lparr>ud_isRun := False\<rparr>))"

definition Udp_Run :: "Udp \<Rightarrow> Udp" where
  "Udp_Run u = u\<lparr>ud_isLocalThreadRun := True\<rparr>"

definition Udp_Close :: "Udp \<Rightarrow> int \<times> Udp" where
  "Udp_Close u = (0, u\<lparr>ud_isRun := False, ud_isLocalThreadRun := False\<rparr>)"

definition UdpServer_Open where "UdpServer_Open = Udp_Open"
definition UdpServer_Run where "UdpServer_Run = Udp_Run"
definition UdpServer_Close where "UdpServer_Close = Udp_Close"
definition UdpSvrBroadcast_Open where "UdpSvrBroadcast_Open = Udp_Open"
definition UdpSvrBroadcast_Run where "UdpSvrBroadcast_Run = Udp_Run"
definition UdpSvrBroadcast_Close where "UdpSvrBroadcast_Close = Udp_Close"

text \<open>A round of the broadcasting thread sends the content once, whatever comes of it.\<close>

definition broadcast_round :: "bytes \<Rightarrow> Udp \<Rightarrow> bytes list" where
  "broadcast_round content u = (if ud_isRun u then [content] else [])"

text \<open>What the receiving thread passes to \<open>OnRecv\<close>: every datagram that is not empty, cut at 1 MiB.\<close>

fun udp_received :: "bytes option list \<Rightarrow> bytes list" where
  "udp_received [] = []"
| "udp_received (None # ds) = udp_received ds"
| "udp_received (Some d # ds) = (if d = [] then udp_received ds else take (1024 * 1024) d # udp_received ds)"

text \<open>The server also remembers the sender of the last datagram, to which \<open>Send\<close> then sends.\<close>

fun UdpServer_ThreadGetRecv :: "(bytes \<times> 'a) option list \<Rightarrow> 'a \<Rightarrow> bytes list \<times> 'a" where
  "UdpServer_ThreadGetRecv [] client_addr = ([], client_addr)"
| "UdpServer_ThreadGetRecv (None # ds) client_addr = UdpServer_ThreadGetRecv ds client_addr"
| "UdpServer_ThreadGetRecv (Some (d, src) # ds) client_addr =
     (let (out, last) = UdpServer_ThreadGetRecv ds src
      in (if d = [] then out else take (1024 * 1024) d # out, last))"

section \<open>What a write returns\<close>

lemma write_loop_cases:
  assumes "write_loop calls data n0 = (sent, ret)"
  shows "\<exists>rest. data = sent @ rest \<and>
    (case ret of
       None \<Rightarrow> rest \<noteq> []
     | Some r \<Rightarrow> if 0 < r then rest = [] else if r = 0 then data = [] \<or> Wrote 0 \<in> set calls
                else data = [] \<or> Write_failed \<in> set calls \<and> r = - 1)"
  using assms
proof (induction calls data n0 arbitrary: sent ret rule: write_loop.induct)
  case (3 n calls b bs nsend)
  show ?case
  proof (cases "n = 0")
    case False
    obtain sent' where w: "write_loop calls (drop n (b # bs)) (int n) = (sent', ret)"
      and s: "sent = take n (b # bs) @ sent'"
      using 3(2) False by (auto split: prod.splits)
    obtain rest where r: "drop n (b # bs) = sent' @ rest"
      "case ret of None \<Rightarrow> rest \<noteq> []
       | Some r \<Rightarrow> if 0 < r then rest = [] else if r = 0 then drop n (b # bs) = [] \<or> Wrote 0 \<in> set calls
                else drop n (b # bs) = [] \<or> Write_failed \<in> set calls \<and> r = - 1"
      using 3(1)[OF False w] by blast
    have "ret = Some (int n)" if "drop n (b # bs) = []" using w that by simp
    then have "case ret of None \<Rightarrow> rest \<noteq> []
       | Some r \<Rightarrow> if 0 < r then rest = [] else if r = 0 then b # bs = [] \<or> Wrote 0 \<in> set (Wrote n # calls)
                else b # bs = [] \<or> Write_failed \<in> set (Wrote n # calls) \<and> r = - 1"
      using r(2) False by (auto split: option.splits if_splits)
    moreover have "b # bs = sent @ rest" unfolding s using r(1) by (metis append.assoc append_take_drop_id)
    ultimately show ?thesis by blast
  qed (use 3 in auto)
next
  case (4 calls b bs nsend)
  then show ?case by (force split: option.splits if_splits)
qed (auto split: option.splits if_splits)

text \<open>
  \<open>Write\<close> hands over a part of the data from its beginning, and all of it when it returns more than 0;
  what it returns then is the size of the last piece. It returns \<open>-1\<close> after a failed call and 0 when a call
  took nothing, and otherwise there is still something to write: an interruption loses nothing.
\<close>
lemma tls_write:
  assumes "TlsClient_Write sock calls data = (sent, ret)" and "sock \<noteq> 0" and "data \<noteq> []"
  shows "\<exists>rest. data = sent @ rest \<and>
    (case ret of
       None \<Rightarrow> rest \<noteq> []
     | Some r \<Rightarrow> if 0 < r then rest = [] else if r = 0 then Wrote 0 \<in> set calls else Write_failed \<in> set calls \<and> r = - 1)"
  using write_loop_cases[of calls data 0 sent ret] assms
  by (auto simp: TlsClient_Write_def split: option.splits if_splits)

text \<open>If every call takes something, as many calls as there are bytes are enough.\<close>

lemma write_loop_returns:
  "data \<noteq> [] \<Longrightarrow> length data \<le> length calls \<Longrightarrow> \<forall>c \<in> set calls. \<exists>n > 0. c = Wrote n \<Longrightarrow>
     \<exists>r > 0. write_loop calls data n0 = (data, Some r)"
proof (induction calls data n0 rule: write_loop.induct)
  case (3 n calls b bs nsend)
  then have n: "0 < n" by auto
  show ?case
  proof (cases "drop n (b # bs) = []")
    case True
    then show ?thesis using n by (auto simp: Let_def)
  next
    case False
    have "length (drop n (b # bs)) \<le> length calls" using 3(3) n by simp
    from 3(1)[OF _ False this] 3(4) n obtain r where "r > 0"
      "write_loop calls (drop n (b # bs)) (int n) = (drop n (b # bs), Some r)" by auto
    then show ?thesis using n append_take_drop_id[of n "b # bs"] by (auto simp: Let_def)
  qed
qed auto

lemma tls_write_witness:
  "\<exists>rest. [1, 2, 3, 4, 5] = [1, 2, 3, 4, 5 :: u8] @ rest \<and> TlsClient_Write 7 [Wrote 3, Interrupted, Wrote 2] [1, 2, 3, 4, 5] =
     ([1, 2, 3, 4, 5], Some 2) \<and> rest = []"
proof -
  have "TlsClient_Write 7 [Wrote 3, Interrupted, Wrote 2] [1, 2, 3, 4, 5] = ([1, 2, 3, 4, 5], Some 2)"
    by (simp add: TlsClient_Write_def)
  from tls_write[OF this] this show ?thesis by simp
qed

section \<open>An interruption leaves the lock held\<close>

text \<open>
  After an interrupted call of \<open>send\<close> no later \<open>Send\<close> of this client returns: the first one returned with
  the lock held.
\<close>
lemma send_lock_leaked:
  assumes "sc_sock c \<noteq> 0" and "\<not> sc_locked c" and "data \<noteq> []"
    and "TcpServerClient_Send (Interrupted # calls) data c = (out, c1)"
  shows "out = ([], Some (- 1)) \<and> (\<forall>calls' data'. TcpServerClient_Send calls' data' c1 = (([], None), c1))"
  using assms by (cases data) (auto simp: TcpServerClient_Send_def)

lemma send_lock_leaked_witness:
  "fst (TcpServerClient_Send [Wrote 1] [2] (snd (TcpServerClient_Send [Interrupted] [1] (TcpServerClient_new 5 [0])))) = ([], None)"
  using send_lock_leaked[of "TcpServerClient_new 5 [0]" "[1]" "[]"]
  by (simp add: TcpServerClient_new_def TcpServerClient_Send_def)

section \<open>What the receiving threads keep\<close>

text \<open>
  A round of a receiving thread puts what the system hands over into the ring buffer. The law of a
  round is stated for the outcomes that keep to the length that was asked for.
\<close>

locale feeder =
  fixes ok :: "'r \<Rightarrow> bool"
    and dump :: "'r \<Rightarrow> 'c \<Rightarrow> 'c"
    and ring :: "'c \<Rightarrow> ring option"
    and given :: "'r \<Rightarrow> 'c \<Rightarrow> bytes"
  assumes feed: "ok r \<Longrightarrow> ring c = Some rb \<Longrightarrow> ring_wf rb \<Longrightarrow>
    \<exists>rb'. ring (dump r c) = Some rb' \<and> ring_wf rb' \<and> rb_capacity rb' = rb_capacity rb \<and> ring_abs rb' = ring_abs rb @ given r c"
begin

fun handed :: "'r list \<Rightarrow> 'c \<Rightarrow> bytes" where
  "handed [] c = []"
| "handed (r # rs) c = given r c @ handed rs (dump r c)"

lemma rounds:
  "\<forall>r \<in> set rs. ok r \<Longrightarrow> ring c = Some rb \<Longrightarrow> ring_wf rb \<Longrightarrow>
     \<exists>rb'. ring (fold dump rs c) = Some rb' \<and> ring_wf rb' \<and> rb_capacity rb' = rb_capacity rb \<and>
       ring_abs rb' = ring_abs rb @ handed rs c"
proof (induction rs arbitrary: c rb)
  case (Cons r rs)
  then obtain rb1 where "ring (dump r c) = Some rb1" "ring_wf rb1" "rb_capacity rb1 = rb_capacity rb"
    "ring_abs rb1 = ring_abs rb @ given r c" using feed[of r c rb] by auto
  with Cons show ?case by fastforce
qed simp

end

text \<open>What \<open>SSL_read\<close> and \<open>recv\<close> promise: no more bytes than were asked for.\<close>

definition read_ok :: "(nat \<Rightarrow> read_call) \<Rightarrow> bool" where
  "read_ok rd \<longleftrightarrow> (\<forall>n bs. rd n = Bytes bs \<longrightarrow> length bs \<le> n)"

definition recv_ok :: "(nat \<Rightarrow> recv_call) \<Rightarrow> bool" where
  "recv_ok rv \<longleftrightarrow> (\<forall>n bs. rv n = Got bs \<longrightarrow> length bs \<le> n)"

definition tls_given :: "select_result \<times> (nat \<Rightarrow> read_call) \<Rightarrow> TlsClient \<Rightarrow> bytes" where
  "tls_given = (\<lambda>(sel, rd) c. if tc_isLive c \<and> tc_isAsynRecieve c \<and> sel = Readable_now then
     case tc_rb c of None \<Rightarrow> [] | Some rb \<Rightarrow> (case rd (tls_recvLen rb) of Bytes bs \<Rightarrow> bs | Read_failed \<Rightarrow> []) else [])"

definition recv_given :: "bool \<Rightarrow> (nat \<Rightarrow> recv_call) \<Rightarrow> ring option \<Rightarrow> bytes" where
  "recv_given on rv r = (if on then case r of None \<Rightarrow> []
     | Some rb \<Rightarrow> (case rv (recv_max rb) of Got bs \<Rightarrow> bs | _ \<Rightarrow> []) else [])"

definition pc_ring :: "TcpClient \<Rightarrow> ring option" where
  "pc_ring c = (case pc_rb c of Rb rb \<Rightarrow> Some rb | _ \<Rightarrow> None)"

lemma write_fits:
  assumes "ring_wf rb" and "length bs \<le> ring_GetWriteLen rb"
  shows "ring_wf (snd (ring_write bs rb)) \<and> ring_abs (snd (ring_write bs rb)) = ring_abs rb @ bs"
proof -
  have "length (ring_abs rb) + length bs \<le> rb_capacity rb"
    using assms by (auto simp: ring_wf_def ring_GetWriteLen_def)
  from rs.wr_ok[OF assms(1) this] show ?thesis by simp
qed

interpretation tls: feeder "\<lambda>(sel, rd). read_ok rd" "\<lambda>(sel, rd). tls_dump sel rd" tc_rb tls_given
proof
  fix r :: "select_result \<times> (nat \<Rightarrow> read_call)" and c :: TlsClient and rb assume ok: "case r of (sel, rd) \<Rightarrow> read_ok rd" and rb: "tc_rb c = Some rb" "ring_wf rb"
  obtain sel rd where r: "r = (sel, rd)" by fastforce
  have len: "length bs \<le> ring_GetWriteLen rb" if "rd (tls_recvLen rb) = Bytes bs" for bs
  proof -
    have "length bs \<le> tls_recvLen rb" using ok that r by (simp add: read_ok_def)
    then show ?thesis by (simp add: tls_recvLen_def split: if_splits)
  qed
  show "\<exists>rb'. tc_rb ((case r of (sel, rd) \<Rightarrow> tls_dump sel rd) c) = Some rb' \<and> ring_wf rb' \<and>
      rb_capacity rb' = rb_capacity rb \<and> ring_abs rb' = ring_abs rb @ tls_given r c"
    using rb write_fits[OF rb(2) len]
    by (auto simp: r tls_dump_def tls_given_def split: select_result.splits read_call.splits)
qed

interpretation tcp: feeder recv_ok tcp_dump pc_ring "\<lambda>rv c. recv_given (pc_isConnect c \<and> pc_isAsynReceive c) rv (pc_ring c)"
proof
  fix rv and c :: TcpClient and rb assume ok: "recv_ok rv" and rb: "pc_ring c = Some rb" "ring_wf rb"
  have p: "pc_rb c = Rb rb" using rb(1) by (simp add: pc_ring_def split: rb_pointer.splits)
  have len: "length bs \<le> ring_GetWriteLen rb" if "rv (recv_max rb) = Got bs" for bs
  proof -
    have "length bs \<le> recv_max rb" using ok that by (simp add: recv_ok_def)
    then show ?thesis by (simp add: recv_max_def split: if_splits)
  qed
  show "\<exists>rb'. pc_ring (tcp_dump rv c) = Some rb' \<and> ring_wf rb' \<and> rb_capacity rb' = rb_capacity rb \<and>
      ring_abs rb' = ring_abs rb @ recv_given (pc_isConnect c \<and> pc_isAsynReceive c) rv (pc_ring c)"
    using rb p write_fits[OF rb(2) len]
    by (auto simp: tcp_dump_def recv_given_def pc_ring_def split: recv_call.splits)
qed

interpretation srv: feeder recv_ok server_dump sc_rb "\<lambda>rv c. recv_given (sc_isConnect c \<and> sc_isAsynReceive c) rv (sc_rb c)"
proof
  fix rv and c :: TcpServerClient and rb assume ok: "recv_ok rv" and rb: "sc_rb c = Some rb" "ring_wf rb"
  have len: "length bs \<le> ring_GetWriteLen rb" if "rv (recv_max rb) = Got bs" for bs
  proof -
    have "length bs \<le> recv_max rb" using ok that by (simp add: recv_ok_def)
    then show ?thesis by (simp add: recv_max_def split: if_splits)
  qed
  show "\<exists>rb'. sc_rb (server_dump rv c) = Some rb' \<and> ring_wf rb' \<and> rb_capacity rb' = rb_capacity rb \<and>
      ring_abs rb' = ring_abs rb @ recv_given (sc_isConnect c \<and> sc_isAsynReceive c) rv (sc_rb c)"
    using rb write_fits[OF rb(2) len]
    by (auto simp: server_dump_def recv_given_def split: recv_call.splits)
qed

text \<open>The pieces that \<open>SSL_read\<close> handed over in the rounds of the thread.\<close>

fun tls_pieces :: "(select_result \<times> (nat \<Rightarrow> read_call)) list \<Rightarrow> TlsClient \<Rightarrow> bytes list" where
  "tls_pieces [] c = []"
| "tls_pieces (r # rs) c = tls_given r c # tls_pieces rs (tls_dump (fst r) (snd r) c)"

lemma tls_handed: "tls.handed rs c = concat (tls_pieces rs c)"
  by (induction rs arbitrary: c) (auto simp: case_prod_beta)

lemma tls_given_short: "read_ok rd \<Longrightarrow> length (tls_given (sel, rd) c) \<le> ARRAY_SIZE_buffer"
proof (cases "tc_rb c")
  case (Some rb)
  assume "read_ok rd"
  then have "length bs \<le> tls_recvLen rb" if "rd (tls_recvLen rb) = Bytes bs" for bs
    using that by (simp add: read_ok_def)
  moreover have "tls_recvLen rb \<le> ARRAY_SIZE_buffer" by (simp add: tls_recvLen_def)
  ultimately show ?thesis
    using Some by (cases "rd (tls_recvLen rb)") (auto simp: tls_given_def intro: order_trans)
qed (simp add: tls_given_def)

lemma tls_pieces_short: "\<forall>r \<in> set rs. read_ok (snd r) \<Longrightarrow> \<forall>p \<in> set (tls_pieces rs c). length p \<le> ARRAY_SIZE_buffer"
proof (induction rs arbitrary: c)
  case (Cons r rs)
  then show ?case using tls_given_short[of "snd r" "fst r" c] by auto
qed simp

text \<open>
  C12. What comes over TLS is kept whole and in order: however the rounds of the receiving thread go, the ring
  buffer holds what it held and then the pieces that were read, none of which has more than eight bytes.
\<close>
theorem tls_bytes_kept:
  assumes "tc_rb c = Some rb" and "ring_wf rb" and "\<forall>r \<in> set rs. read_ok (snd r)"
  shows "\<exists>rb'. tc_rb (fold (\<lambda>(sel, rd). tls_dump sel rd) rs c) = Some rb' \<and> ring_wf rb' \<and>
    ring_abs rb' = ring_abs rb @ concat (tls_pieces rs c) \<and> (\<forall>p \<in> set (tls_pieces rs c). length p \<le> 8)"
proof -
  have "\<forall>r \<in> set rs. case r of (sel, rd) \<Rightarrow> read_ok rd" using assms(3) by auto
  from tls.rounds[OF this assms(1,2)] tls_pieces_short[OF assms(3), of c] show ?thesis
    by (auto simp: tls_handed ARRAY_SIZE_buffer_def)
qed

definition demo_tls :: TlsClient where
  "demo_tls = snd (TlsClient_Run (snd (TlsClient_Open \<lparr>te_socket = 5, te_connect = 0, te_rcvtimeo = 0, te_sndtimeo = 0,
     te_ctx = True, te_ca = 1, te_handshake = 1, te_buff = replicate 10 0\<rparr> (TlsClient_new 0 False False))))"

theorem tls_bytes_kept_witness:
  "\<exists>rb'. tc_rb (fold (\<lambda>(sel, rd). tls_dump sel rd) [(Select_timeout, \<lambda>n. Bytes []), (Readable_now, \<lambda>n. Bytes (take n [1, 2, 3])),
      (Readable_now, \<lambda>n. Bytes (take n [4]))] demo_tls) = Some rb' \<and> ring_abs rb' = [1, 2, 3, 4]"
proof -
  let ?rs = "[(Select_timeout, \<lambda>n. Bytes []), (Readable_now, \<lambda>n. Bytes (take n [1, 2, 3])), (Readable_now, \<lambda>n. Bytes (take n [4]))]"
  have rb: "tc_rb demo_tls = Some (ring_new (replicate 10 0))"
    by (simp add: demo_tls_def TlsClient_Run_def TlsClient_Open_def connectServer_def TlsClient_new_def)
  have on: "tc_isLive demo_tls" "tc_isAsynRecieve demo_tls"
    by (simp_all add: demo_tls_def TlsClient_Run_def TlsClient_Open_def connectServer_def TlsClient_new_def)
  have wf: "ring_wf (ring_new (replicate 10 0))" by (rule ring_wf_new) simp
  have "concat (tls_pieces ?rs demo_tls) = [1, 2, 3, 4]"
    by (simp add: tls_given_def tls_dump_def on rb tls_recvLen_def ring_GetWriteLen_def ring_new_def ARRAY_SIZE_buffer_def
        ring_write_def)
  then show ?thesis using tls_bytes_kept[OF rb wf, of ?rs] by (auto simp: read_ok_def)
qed

text \<open>The end of the stream is not noticed: a round that reads nothing changes nothing, and the client stays live.\<close>

lemma tls_eof_unnoticed: "\<forall>r \<in> set rs. \<forall>n. snd r n = Bytes [] \<Longrightarrow> fold (\<lambda>(sel, rd). tls_dump sel rd) rs c = c"
  by (induction rs) (auto simp: tls_dump_def split: select_result.splits option.splits)

section \<open>The clients of the server\<close>

text \<open>
  The specification: the list of the open connections, to which an accepted one is added and from which a
  lost one is taken. The system does not give out a descriptor that is in use.
\<close>

definition spec_event :: "int \<Rightarrow> ep_event \<Rightarrow> int list \<Rightarrow> int list" where
  "spec_event sock ev fds =
     (if ev_fd ev = sock then if ev_accept ev < 0 then fds else fds @ [ev_accept ev]
      else if 2 < ev_fd ev \<and> ev_down ev then filter (\<lambda>fd. fd \<noteq> ev_fd ev) fds else fds)"

fun fresh_accepts :: "int \<Rightarrow> ep_event list \<Rightarrow> int list \<Rightarrow> bool" where
  "fresh_accepts sock [] fds \<longleftrightarrow> True"
| "fresh_accepts sock (ev # evs) fds \<longleftrightarrow>
     (ev_fd ev = sock \<longrightarrow> ev_accept ev \<notin> set fds) \<and> fresh_accepts sock evs (spec_event sock ev fds)"

lemma erase_client_filter:
  "distinct (map sc_sock cs) \<Longrightarrow> erase_client fd cs = filter (\<lambda>c. sc_sock c \<noteq> fd) cs"
proof (induction fd cs rule: erase_client.induct)
  case (3 fd c d cs)
  show ?case
  proof (cases "sc_sock c = fd")
    case True
    then have "sc_sock d \<noteq> fd" "\<forall>x \<in> set cs. sc_sock x \<noteq> fd" using 3(3) by (auto simp: image_iff)
    then show ?thesis using True 3 by (auto simp: filter_id_conv)
  qed (use 3 in auto)
qed auto

text \<open>
  C13. The server holds a client object for exactly the connections that were accepted and not lost, in the
  order they came, although the loop that deletes one skips the client behind it.
\<close>
theorem server_holds_connections:
  assumes "distinct (map sc_sock (ts_clients s))" and "ts_isRun s"
    and "fresh_accepts (ts_sock s) evs (map sc_sock (ts_clients s))"
  shows "map sc_sock (ts_clients (server_wait evs s)) = fold (spec_event (ts_sock s)) evs (map sc_sock (ts_clients s)) \<and>
    distinct (map sc_sock (ts_clients (server_wait evs s)))"
proof -
  have "map sc_sock (ts_clients (fold server_event evs s)) = fold (spec_event (ts_sock s)) evs (map sc_sock (ts_clients s)) \<and>
    distinct (map sc_sock (ts_clients (fold server_event evs s)))"
    using assms(1,3)
  proof (induction evs arbitrary: s)
    case (Cons ev evs)
    have ep: "ts_sock (snd (EpollAdd c fd s)) = ts_sock s" "ts_clients (snd (EpollAdd c fd s)) = ts_clients s"
      "ts_sock (snd (EpollDel c fd s)) = ts_sock s" "ts_clients (snd (EpollDel c fd s)) = ts_clients s" for c fd
      by (simp_all add: EpollAdd_def EpollDel_def)
    have sock: "ts_sock (server_event ev s) = ts_sock s"
      by (simp add: server_event_def cbConnect_def cbDisconnect_def ep)
    have step: "map sc_sock (ts_clients (server_event ev s)) = spec_event (ts_sock s) ev (map sc_sock (ts_clients s))"
      using Cons.prems(1) by (auto simp: server_event_def spec_event_def cbConnect_def cbDisconnect_def ep
          TcpServerClient_Run_def TcpServerClient_new_def erase_client_filter filter_map o_def)
    have "distinct (spec_event (ts_sock s) ev (map sc_sock (ts_clients s)))"
      using Cons.prems by (auto simp: spec_event_def distinct_filter)
    then show ?case using Cons.IH[of "server_event ev s"] Cons.prems(2) step sock by auto
  qed simp
  then show ?thesis using assms(2) by (auto simp: server_wait_def)
qed

theorem server_holds_connections_witness:
  "map sc_sock (ts_clients (server_wait
     [\<lparr>ev_fd = 3, ev_down = False, ev_accept = 5, ev_buff = [0], ev_ctl = 0\<rparr>, \<lparr>ev_fd = 3, ev_down = False, ev_accept = 6, ev_buff = [0], ev_ctl = 0\<rparr>,
      \<lparr>ev_fd = 5, ev_down = True, ev_accept = 0, ev_buff = [], ev_ctl = 0\<rparr>] (snd (TcpServer_Open 3 4 0 TcpServer_new)))) = [6]"
  by (subst conjunct1[OF server_holds_connections]) (simp_all add: TcpServer_Open_def EpollInit_def TcpServer_new_def spec_event_def)

text \<open>\<open>DeleteClient\<close> never works: with a client it reads behind the end of the vector it has just emptied.\<close>

lemma DeleteClient_fails: "DeleteClient fd s = (if ts_clients s = [] then Inr (0, s) else Inl Deref_end)"
  by (simp add: DeleteClient_def)

text \<open>A second \<open>Close\<close> of a client deletes its ring buffer again.\<close>

lemma TcpClient_Close_twice:
  "TcpClient_Close c = Inr (r, c') \<Longrightarrow> pc_rb c \<noteq> Rb_null \<Longrightarrow> TcpClient_Close c' = Inl Double_delete"
  by (auto simp: TcpClient_Close_def Let_def split: rb_pointer.splits)

text \<open>
  A server without epoll is open and holds no client ever: there is no descriptor whose events could come.
\<close>

lemma Open_without_epoll:
  assumes "0 < fd" "ctl = - 1 \<or> create = - 1"
  shows "fst (TcpServer_Open fd create ctl TcpServer_new) = 0"
    and "ts_isRun (snd (TcpServer_Open fd create ctl TcpServer_new))"
    and "ts_epoll (snd (TcpServer_Open fd create ctl TcpServer_new)) = []"
  using assms by (auto simp: TcpServer_Open_def EpollInit_def TcpServer_new_def Let_def)

text \<open>The datagrams of the server are those of the client, and the last sender is kept.\<close>

lemma UdpServer_received: "fst (UdpServer_ThreadGetRecv ds a) = udp_received (map (map_option fst) ds)"
  by (induction ds a rule: UdpServer_ThreadGetRecv.induct) (auto simp: Let_def split: prod.splits)

end
