(* ===== verification/Rsu.thy ===== *)
theory Rsu
  imports Sockets Queues Frame
begin

text \<open>
  The link to a roadside unit, \<open>nebulalink/Nebulalink.cpp\<close>: frames behind the tag \<open>da db dc dd\<close>, a thread
  that receives datagrams into a ring buffer, and a thread that cuts the buffer into frames, one state of
  its machine a round. The generated protocol buffer classes are not used by it.
\<close>

section \<open>Frames\<close>

record rsu_head =
  rh_head :: bytes
  rh_frameType :: u8
  rh_perceptionType :: u8
  rh_length :: u16

record rsu_frame =
  rf_head :: rsu_head
  rf_data :: bytes

definition TagLen :: nat where "TagLen = 4"
definition sizeof_Head :: nat where "sizeof_Head = 8"

definition rsu_Pack :: "rsu_frame \<Rightarrow> bytes" where
  "rsu_Pack f =
     (let h = rf_head f
      in map (\<lambda>i. rh_head h ! i) [0..<TagLen] @ [rh_frameType h, rh_perceptionType h] @ le16 (rh_length h) @ rf_data f)"

text \<open>\<open>memcpy\<close> into the packed head of a little-endian machine; the data is added to what the frame has.\<close>

definition rsu_Unpack :: "bytes \<Rightarrow> rsu_frame \<Rightarrow> int \<times> rsu_frame" where
  "rsu_Unpack data f =
     (if length data < sizeof_Head then (- 1, f)
      else (0, f\<lparr>rf_head := \<lparr>rh_head = take 4 data, rh_frameType = data ! 4, rh_perceptionType = data ! 5,
                  rh_length = un_le16 (drop 6 data)\<rparr>,
                rf_data := rf_data f @ drop sizeof_Head data\<rparr>))"

section \<open>The link\<close>

datatype RecvState = SStart | SHead | SData | SEnd

record RSU =
  rs_isRun :: bool
  rs_sock :: int
  rs_rb :: "ring option"
  rs_tag :: bytes
  rs_frametmp :: rsu_frame
  rs_recvState :: RecvState
  rs_frames :: "rsu_frame queue"

text \<open>
  The constructor, given the descriptor of the new socket. \<open>recvState\<close> and the members of the head but the
  tag have no initialiser: they are what the memory held.
\<close>

definition RSU_new :: "int \<Rightarrow> bytes \<Rightarrow> RecvState \<Rightarrow> u8 \<Rightarrow> u8 \<Rightarrow> u16 \<Rightarrow> RSU" where
  "RSU_new fd buff state t p l =
     (let r = \<lparr>rs_isRun = False, rs_sock = 0, rs_rb = None, rs_tag = [],
        rs_frametmp = \<lparr>rf_head = \<lparr>rh_head = [0xda, 0xdb, 0xdc, 0xdd], rh_frameType = t, rh_perceptionType = p, rh_length = l\<rparr>,
          rf_data = []\<rparr>, rs_recvState = state, rs_frames = queue_new\<rparr>
      in if 0 < fd then r\<lparr>rs_sock := fd, rs_rb := Some (ring_new buff), rs_isRun := True, rs_frames := queue_setMax 30 (rs_frames r)\<rparr>
         else r)"

definition RSU_CreateUdpSock :: "int \<Rightarrow> int" where
  "RSU_CreateUdpSock socket = (if socket < 0 then - 1 else socket)"

definition RSU_Send :: "write_call list \<Rightarrow> bytes \<Rightarrow> RSU \<Rightarrow> bytes \<times> int option" where
  "RSU_Send calls data r = (if rs_sock r \<noteq> 0 then write_loop calls data 0 else ([], Some 0))"

text \<open>
  A round of \<open>ThreadRecv\<close>, given the next datagram, of which the system writes as much as is asked for. The
  buffer is \<open>new uint8_t(1024 * 1024)\<close>: one byte. \<open>None\<close> is a write behind it.
\<close>

definition recv_buffer_size :: nat where "recv_buffer_size = 1"

definition rsu_readLen :: "ring \<Rightarrow> nat" where
  "rsu_readLen rb = (if 1024 * 1024 < ring_GetWriteLen rb then 1024 * 1024 else ring_GetWriteLen rb)"

definition ThreadRecv_round :: "bytes option \<Rightarrow> RSU \<Rightarrow> RSU option" where
  "ThreadRecv_round datagram r =
     (if \<not> rs_isRun r \<or> rs_sock r \<le> 0 then Some r
      else case rs_rb r of
        None \<Rightarrow> Some r
      | Some rb \<Rightarrow>
          (case datagram of
             None \<Rightarrow> Some r
           | Some d \<Rightarrow>
               let msg = take (rsu_readLen rb) d
               in if recv_buffer_size < length msg then None
                  else if msg = [] then Some r else Some (r\<lparr>rs_rb := Some (snd (ring_write msg rb))\<rparr>)))"

definition isTag :: "bytes \<Rightarrow> bool" where
  "isTag data =
     (if length data < TagLen then False
      else data ! 0 = 0xda \<and> data ! 1 = 0xdb \<and> data ! 2 = 0xdc \<and> data ! 3 = 0xdd)"

definition tagForward :: "bytes \<Rightarrow> bytes" where
  "tagForward data = map (\<lambda>i. data ! i) [1..<length data]"

text \<open>A read whose result is tested before the bytes are used.\<close>

definition SStart_step :: "ring \<Rightarrow> RSU \<Rightarrow> RSU" where
  "SStart_step rb r =
     (if ring_GetReadLen rb \<le> 1 then r
      else let r = (case ring_read 1 rb of None \<Rightarrow> r | Some (bs, rb') \<Rightarrow> r\<lparr>rs_rb := Some rb', rs_tag := rs_tag r @ bs\<rparr>)
           in if length (rs_tag r) < TagLen then r
              else if isTag (rs_tag r) then
                r\<lparr>rs_frametmp := (rs_frametmp r)\<lparr>rf_head := (rf_head (rs_frametmp r))\<lparr>rh_head := take TagLen (rs_tag r)\<rparr>\<rparr>,
                  rs_tag := [], rs_recvState := SHead\<rparr>
              else r\<lparr>rs_tag := tagForward (rs_tag r)\<rparr>)"

definition SHead_step :: "ring \<Rightarrow> RSU \<Rightarrow> RSU" where
  "SHead_step rb r =
     (if ring_GetReadLen rb \<le> sizeof_Head - TagLen then r
      else case ring_read (sizeof_Head - TagLen) rb of
        None \<Rightarrow> r
      | Some (left, rb') \<Rightarrow>
          r\<lparr>rs_rb := Some rb', rs_recvState := SData,
            rs_frametmp := (rs_frametmp r)\<lparr>rf_head := (rf_head (rs_frametmp r))\<lparr>rh_frameType := left ! 0,
              rh_perceptionType := left ! 1, rh_length := un_le16 (drop 2 left)\<rparr>\<rparr>\<rparr>)"

text \<open>The data, read byte by byte.\<close>

fun read_bytes :: "nat \<Rightarrow> ring \<times> bytes \<Rightarrow> ring \<times> bytes" where
  "read_bytes 0 s = s"
| "read_bytes (Suc n) (rb, data) =
     read_bytes n (case ring_read 1 rb of None \<Rightarrow> (rb, data) | Some (bs, rb') \<Rightarrow> (rb', data @ bs))"

definition SData_step :: "ring \<Rightarrow> RSU \<Rightarrow> RSU" where
  "SData_step rb r =
     (let n = unat (rh_length (rf_head (rs_frametmp r)))
      in if ring_GetReadLen rb \<le> n then r
         else let (rb', data) = read_bytes n (rb, rf_data (rs_frametmp r))
              in r\<lparr>rs_rb := Some rb', rs_frametmp := (rs_frametmp r)\<lparr>rf_data := data\<rparr>, rs_recvState := SEnd\<rparr>)"

definition SEnd_step :: "RSU \<Rightarrow> RSU" where
  "SEnd_step r = r\<lparr>rs_frames := snd (queue_push (rs_frametmp r) (rs_frames r)), rs_recvState := SStart\<rparr>"

definition ThreadPRecv_round :: "RSU \<Rightarrow> RSU" where
  "ThreadPRecv_round r =
     (if \<not> rs_isRun r then r
      else case rs_rb r of
        None \<Rightarrow> r
      | Some rb \<Rightarrow>
          (case rs_recvState r of
             SStart \<Rightarrow> SStart_step rb r
           | SHead \<Rightarrow> SHead_step rb r
           | SData \<Rightarrow> SData_step rb r
           | SEnd \<Rightarrow> SEnd_step r))"

text \<open>
  The processing of a frame: every kind that is known is ignored. \<open>ThreadPFrame\<close>, which would do it, is not
  started.
\<close>

definition PFrameMap :: "u8 \<Rightarrow> (rsu_frame \<Rightarrow> int) option" where
  "PFrameMap t = (if t \<le> 7 then Some (\<lambda>f. 0) else None)"

definition ThreadPFrame_round :: "RSU \<Rightarrow> int option \<times> RSU" where
  "ThreadPFrame_round r =
     (case queue_pop (rs_frames r) of
        None \<Rightarrow> (None, r)
      | Some (f, q) \<Rightarrow> (map_option (\<lambda>p. p f) (PFrameMap (rh_perceptionType (rf_head f))), r\<lparr>rs_frames := q\<rparr>))"

section \<open>Frames are read back\<close>

definition rsu_tag :: bytes where "rsu_tag = [0xda, 0xdb, 0xdc, 0xdd]"

definition frame_good :: "rsu_frame \<Rightarrow> bool" where
  "frame_good f \<longleftrightarrow> rh_head (rf_head f) = rsu_tag \<and> length (rf_data f) = unat (rh_length (rf_head f))"

lemma rsu_Pack_good:
  "frame_good f \<Longrightarrow> rsu_Pack f = rsu_tag @ [rh_frameType (rf_head f), rh_perceptionType (rf_head f)] @
     le16 (rh_length (rf_head f)) @ rf_data f"
  by (simp add: rsu_Pack_def TagLen_def frame_good_def rsu_tag_def numeral_eq_Suc Let_def)

lemma rsu_Unpack_Pack:
  assumes "frame_good f"
  shows "rsu_Unpack (rsu_Pack f) g = (0, f\<lparr>rf_data := rf_data g @ rf_data f\<rparr>)"
proof -
  have "rsu_Unpack (rsu_Pack f) g = (0, g\<lparr>rf_head := rf_head f, rf_data := rf_data g @ rf_data f\<rparr>)"
    using assms by (cases "rf_head f")
      (simp add: rsu_Pack_good rsu_Unpack_def sizeof_Head_def rsu_tag_def frame_good_def)
  then show ?thesis by (cases f; cases g) simp
qed

section \<open>Cutting the stream\<close>

text \<open>The bytes that wait.\<close>

definition waiting :: "RSU \<Rightarrow> bytes \<Rightarrow> bool" where
  "waiting r bs \<longleftrightarrow> (\<exists>rb. rs_rb r = Some rb \<and> ring_wf rb \<and> ring_abs rb = bs)"

lemma waiting_update [simp]:
  "waiting (r\<lparr>rs_tag := t\<rparr>) bs = waiting r bs" "waiting (r\<lparr>rs_frametmp := f\<rparr>) bs = waiting r bs"
  "waiting (r\<lparr>rs_recvState := s\<rparr>) bs = waiting r bs" "waiting (r\<lparr>rs_frames := q\<rparr>) bs = waiting r bs"
  "waiting (r\<lparr>rs_rb := Some rb\<rparr>) bs \<longleftrightarrow> ring_wf rb \<and> ring_abs rb = bs"
  by (auto simp: waiting_def)

lemma take_ring:
  assumes "ring_wf rb" and "ring_abs rb = xs @ bs"
  obtains rb' where "ring_read (length xs) rb = Some (xs, rb')" "ring_wf rb'" "ring_abs rb' = bs"
  using rs.rd_ok[OF assms(1), of "length xs"] assms(2) by auto

lemma tag_round:
  assumes "rs_isRun r" and "rs_recvState r = SStart" and "waiting r (b # bs)" and "bs \<noteq> []"
  shows "\<exists>rb. ring_wf rb \<and> ring_abs rb = bs \<and> ThreadPRecv_round r =
    (let r' = r\<lparr>rs_rb := Some rb\<rparr>; tag = rs_tag r @ [b]
     in if length tag < TagLen then r'\<lparr>rs_tag := tag\<rparr>
        else if isTag tag then r'\<lparr>rs_frametmp := (rs_frametmp r)\<lparr>rf_head := (rf_head (rs_frametmp r))\<lparr>rh_head := take TagLen tag\<rparr>\<rparr>,
          rs_tag := [], rs_recvState := SHead\<rparr>
        else r'\<lparr>rs_tag := tagForward tag\<rparr>)"
proof -
  obtain rb where rb: "rs_rb r = Some rb" "ring_wf rb" "ring_abs rb = [b] @ bs"
    using assms(3) by (auto simp: waiting_def)
  obtain rb' where "ring_read 1 rb = Some ([b], rb')" "ring_wf rb'" "ring_abs rb' = bs"
    using take_ring[OF rb(2,3)] by auto
  moreover have "1 < ring_GetReadLen rb"
    using rs.avail_pending[OF rb(2)] rb(3) assms(4) by (cases bs) auto
  ultimately show ?thesis
    using assms(1,2) rb(1) by (intro exI[of _ rb']) (simp add: ThreadPRecv_round_def SStart_step_def Let_def)
qed

lemma four_tags:
  assumes "rs_isRun r" and "rs_recvState r = SStart" and "rs_tag r = []" and "waiting r (rsu_tag @ bs)" and "bs \<noteq> []"
  shows "\<exists>rb. ring_wf rb \<and> ring_abs rb = bs \<and> (ThreadPRecv_round ^^ 4) r =
    r\<lparr>rs_rb := Some rb, rs_recvState := SHead,
      rs_frametmp := (rs_frametmp r)\<lparr>rf_head := (rf_head (rs_frametmp r))\<lparr>rh_head := rsu_tag\<rparr>\<rparr>\<rparr>"
proof -
  note step = tag_round[unfolded Let_def TagLen_def]
  obtain r1 where 1: "ThreadPRecv_round r = r1" "\<exists>rb. ring_wf rb \<and> ring_abs rb = [0xdb, 0xdc, 0xdd] @ bs \<and> r1 = r\<lparr>rs_rb := Some rb, rs_tag := [0xda]\<rparr>"
    using step[of r "0xda" "[0xdb, 0xdc, 0xdd] @ bs"] assms by (auto simp: rsu_tag_def)
  obtain r2 where 2: "ThreadPRecv_round r1 = r2" "\<exists>rb. ring_wf rb \<and> ring_abs rb = [0xdc, 0xdd] @ bs \<and> r2 = r\<lparr>rs_rb := Some rb, rs_tag := [0xda, 0xdb]\<rparr>"
    using step[of r1 "0xdb" "[0xdc, 0xdd] @ bs"] 1 assms by auto
  obtain r3 where 3: "ThreadPRecv_round r2 = r3" "\<exists>rb. ring_wf rb \<and> ring_abs rb = [0xdd] @ bs \<and> r3 = r\<lparr>rs_rb := Some rb, rs_tag := [0xda, 0xdb, 0xdc]\<rparr>"
    using step[of r2 "0xdc" "[0xdd] @ bs"] 2 assms by auto
  have "\<exists>rb. ring_wf rb \<and> ring_abs rb = bs \<and> ThreadPRecv_round r3 =
    r\<lparr>rs_rb := Some rb, rs_frametmp := (rs_frametmp r)\<lparr>rf_head := (rf_head (rs_frametmp r))\<lparr>rh_head := rsu_tag\<rparr>\<rparr>,
      rs_tag := [], rs_recvState := SHead\<rparr>"
    using step[of r3 "0xdd" bs] 3 assms by (auto simp: isTag_def TagLen_def rsu_tag_def)
  moreover have "(ThreadPRecv_round ^^ 4) r = ThreadPRecv_round r3"
    using 1(1) 2(1) 3(1) by (simp add: numeral_eq_Suc)
  ultimately show ?thesis using assms(3) by (cases r) auto
qed

lemma read_bytes_ring:
  "ring_wf rb \<Longrightarrow> ring_abs rb = xs @ bs \<Longrightarrow>
     \<exists>rb'. read_bytes (length xs) (rb, d) = (rb', d @ xs) \<and> ring_wf rb' \<and> ring_abs rb' = bs"
proof (induction xs arbitrary: rb d)
  case (Cons x xs)
  obtain rb1 where "ring_read 1 rb = Some ([x], rb1)" "ring_wf rb1" "ring_abs rb1 = xs @ bs"
    using take_ring[of rb "[x]" "xs @ bs"] Cons.prems by auto
  then show ?case using Cons.IH[of rb1 "d @ [x]"] by auto
qed simp

text \<open>Seven rounds for a frame: four for the tag, one each for the head, the data and the queue.\<close>

lemma frame_rounds:
  assumes "rs_isRun r" and "rs_recvState r = SStart" and "rs_tag r = []" and "frame_good f"
    and "waiting r (rsu_Pack f @ bs)" and "bs \<noteq> []"
  shows "\<exists>rb. ring_wf rb \<and> ring_abs rb = bs \<and> (ThreadPRecv_round ^^ 7) r =
    r\<lparr>rs_rb := Some rb, rs_frametmp := f\<lparr>rf_data := rf_data (rs_frametmp r) @ rf_data f\<rparr>,
      rs_frames := snd (queue_push (f\<lparr>rf_data := rf_data (rs_frametmp r) @ rf_data f\<rparr>) (rs_frames r))\<rparr>"
proof -
  let ?h = "rf_head f"
  let ?rest = "[rh_frameType ?h, rh_perceptionType ?h] @ le16 (rh_length ?h)"
  have len: "length (rf_data f) = unat (rh_length ?h)" and tag: "rh_head ?h = rsu_tag"
    using assms(4) by (simp_all add: frame_good_def)
  obtain rb1 where rb1: "ring_wf rb1" "ring_abs rb1 = ?rest @ rf_data f @ bs" and
    r4: "(ThreadPRecv_round ^^ 4) r = r\<lparr>rs_rb := Some rb1, rs_recvState := SHead,
      rs_frametmp := (rs_frametmp r)\<lparr>rf_head := (rf_head (rs_frametmp r))\<lparr>rh_head := rsu_tag\<rparr>\<rparr>\<rparr>"
    using four_tags[OF assms(1-3), of "?rest @ rf_data f @ bs"] assms(5,6) by (auto simp: rsu_Pack_good[OF assms(4)])
  obtain rb2 where rb2: "ring_read (length ?rest) rb1 = Some (?rest, rb2)" "ring_wf rb2" "ring_abs rb2 = rf_data f @ bs"
    using take_ring[OF rb1] .
  have "4 < ring_GetReadLen rb1" using rs.avail_pending[OF rb1(1)] rb1(2) assms(6) by (cases bs) auto
  then have r5: "ThreadPRecv_round ((ThreadPRecv_round ^^ 4) r) =
      r\<lparr>rs_rb := Some rb2, rs_recvState := SData, rs_frametmp := (rs_frametmp r)\<lparr>rf_head := ?h\<rparr>\<rparr>"
    using assms(1) rb2(1) tag unfolding r4
    by (cases ?h; cases "rf_head (rs_frametmp r)")
      (simp add: ThreadPRecv_round_def SHead_step_def sizeof_Head_def TagLen_def un_le16_le16[of _ "[]", simplified])
  obtain rb3 where rb3: "read_bytes (length (rf_data f)) (rb2, rf_data (rs_frametmp r)) = (rb3, rf_data (rs_frametmp r) @ rf_data f)"
    "ring_wf rb3" "ring_abs rb3 = bs"
    using read_bytes_ring[OF rb2(2,3), of "rf_data (rs_frametmp r)"] by auto
  have "unat (rh_length ?h) < ring_GetReadLen rb2" using rs.avail_pending[OF rb2(2)] rb2(3) len assms(6) by (cases bs) auto
  then have r6: "ThreadPRecv_round (ThreadPRecv_round ((ThreadPRecv_round ^^ 4) r)) =
      r\<lparr>rs_rb := Some rb3, rs_recvState := SEnd, rs_frametmp := f\<lparr>rf_data := rf_data (rs_frametmp r) @ rf_data f\<rparr>\<rparr>"
    using assms(1) rb3(1) len unfolding r5
    by (cases f; cases "rs_frametmp r") (simp add: ThreadPRecv_round_def SData_step_def Let_def)
  have "(ThreadPRecv_round ^^ 7) r = ThreadPRecv_round (ThreadPRecv_round (ThreadPRecv_round ((ThreadPRecv_round ^^ 4) r)))"
    by (simp add: numeral_eq_Suc)
  also have "\<dots> = r\<lparr>rs_rb := Some rb3, rs_frametmp := f\<lparr>rf_data := rf_data (rs_frametmp r) @ rf_data f\<rparr>,
      rs_frames := snd (queue_push (f\<lparr>rf_data := rf_data (rs_frametmp r) @ rf_data f\<rparr>) (rs_frames r))\<rparr>"
    using assms(1,2) unfolding r6 by (cases r) (simp add: ThreadPRecv_round_def SEnd_step_def)
  finally show ?thesis using rb3(2,3) by blast
qed

text \<open>Frames with the data that the machine gives them: that of all the frames before, and their own.\<close>

fun piled_up :: "bytes \<Rightarrow> rsu_frame list \<Rightarrow> rsu_frame list" where
  "piled_up d [] = []"
| "piled_up d (f # fs) = f\<lparr>rf_data := d @ rf_data f\<rparr> # piled_up (d @ rf_data f) fs"

text \<open>A stream of frames, each pushed onto the queue as it is cut from the ring.\<close>

lemma frames_queued:
  assumes "rs_isRun r" and "rs_recvState r = SStart" and "rs_tag r = []" and "\<forall>f \<in> set fs. frame_good f"
    and "rs_rb r = Some rb" and "ring_wf rb" and "ring_abs rb = concat (map rsu_Pack fs) @ bs" and "bs \<noteq> []"
  shows "\<exists>rb'. rs_rb ((ThreadPRecv_round ^^ (7 * length fs)) r) = Some rb' \<and> ring_wf rb' \<and> ring_abs rb' = bs \<and>
    rs_recvState ((ThreadPRecv_round ^^ (7 * length fs)) r) = SStart \<and> rs_tag ((ThreadPRecv_round ^^ (7 * length fs)) r) = [] \<and>
    rs_frames ((ThreadPRecv_round ^^ (7 * length fs)) r) =
      fold (\<lambda>f q. snd (queue_push f q)) (piled_up (rf_data (rs_frametmp r)) fs) (rs_frames r)"
  using assms
proof (induction fs arbitrary: r rb)
  case (Cons f fs)
  have "waiting r (rsu_Pack f @ concat (map rsu_Pack fs) @ bs)" using Cons.prems by (simp add: waiting_def)
  then obtain rb1 where rb1: "ring_wf rb1" "ring_abs rb1 = concat (map rsu_Pack fs) @ bs" and
    r7: "(ThreadPRecv_round ^^ 7) r = r\<lparr>rs_rb := Some rb1, rs_frametmp := f\<lparr>rf_data := rf_data (rs_frametmp r) @ rf_data f\<rparr>,
      rs_frames := snd (queue_push (f\<lparr>rf_data := rf_data (rs_frametmp r) @ rf_data f\<rparr>) (rs_frames r))\<rparr>"
    using frame_rounds[of r f "concat (map rsu_Pack fs) @ bs"] Cons.prems by auto
  have "(ThreadPRecv_round ^^ (7 * length (f # fs))) r = (ThreadPRecv_round ^^ (7 * length fs)) ((ThreadPRecv_round ^^ 7) r)"
    by (simp only: flip: funpow_add[THEN fun_cong, unfolded o_apply]) (simp add: add.commute)
  then show ?case
    using Cons.IH[of "(ThreadPRecv_round ^^ 7) r" rb1] Cons.prems(1-4,8) rb1 by (simp add: r7)
qed simp

text \<open>
  C37. A running link whose machine is at its start with no tag collected, and whose queue has the constructor's
  limit of thirty: when the ring holds a stream of well-formed frames and at least one more byte, seven
  rounds for each frame take just these frames from the ring and leave the machine at its start. The queue
  then has what it had and the frames in order, cut at thirty: a frame that finds it full is lost. The data of
  each frame comes behind the data of all the frames before it, because nothing clears it. The start state is
  a condition, as the constructor leaves \<open>recvState\<close> uninitialised.
\<close>
theorem rsu_frames:
  assumes "rs_isRun r" and "rs_recvState r = SStart" and "rs_tag r = []" and "\<forall>f \<in> set fs. frame_good f"
    and "rs_rb r = Some rb" and "ring_wf rb" and "ring_abs rb = concat (map rsu_Pack fs) @ bs" and "bs \<noteq> []"
    and "q_isSetMax (rs_frames r)" and "q_max (rs_frames r) = 30" and "length (q_items (rs_frames r)) \<le> 30"
  shows "let r' = (ThreadPRecv_round ^^ (7 * length fs)) r
    in (\<exists>rb'. rs_rb r' = Some rb' \<and> ring_wf rb' \<and> ring_abs rb' = bs) \<and> rs_recvState r' = SStart \<and> rs_tag r' = [] \<and>
       q_items (rs_frames r') = take 30 (q_items (rs_frames r) @ piled_up (rf_data (rs_frametmp r)) fs)"
proof -
  have "queue_wf (rs_frames r)" using assms(10,11) by (simp add: queue_wf_def)
  with queue_push_all[OF assms(9)] assms(10) show ?thesis using frames_queued[OF assms(1-8)] by (auto simp: Let_def)
qed

definition rsu_demo_frame :: "u8 \<Rightarrow> rsu_frame" where
  "rsu_demo_frame b = \<lparr>rf_head = \<lparr>rh_head = [0xda, 0xdb, 0xdc, 0xdd], rh_frameType = 1, rh_perceptionType = 3, rh_length = 1\<rparr>, rf_data = [b]\<rparr>"

theorem rsu_frames_witness:
  "let r = (ThreadPRecv_round ^^ 14)
      ((RSU_new 5 (replicate 32 0) SStart 0 0 0)\<lparr>rs_rb := Some (snd (ring_write (rsu_Pack (rsu_demo_frame 7) @ rsu_Pack (rsu_demo_frame 8) @ [0xda])
        (ring_new (replicate 32 0))))\<rparr>)
   in (\<exists>rb. rs_rb r = Some rb \<and> ring_abs rb = [0xda]) \<and> map rf_data (q_items (rs_frames r)) = [[7], [7, 8]]"
proof -
  let ?bs = "concat (map rsu_Pack [rsu_demo_frame 7, rsu_demo_frame 8]) @ [0xda]" and ?ring = "ring_new (replicate 32 0)"
  let ?rb = "snd (ring_write ?bs ?ring)"
  let ?r = "(RSU_new 5 (replicate 32 0) SStart 0 0 0)\<lparr>rs_rb := Some ?rb\<rparr>"
  have wf: "ring_wf ?ring" by (rule ring_wf_new) simp
  have c: "rb_capacity ?ring = 32" by (simp add: ring_new_def)
  have "length ?bs = 19" by (simp add: rsu_demo_frame_def rsu_Pack_def TagLen_def)
  then have rb: "ring_wf ?rb" "ring_abs ?rb = ?bs" using rs.wr_ok[OF wf, of ?bs] c by simp_all
  have r: "rs_isRun ?r" "rs_recvState ?r = SStart" "rs_tag ?r = []" "rf_data (rs_frametmp ?r) = []"
    "q_isSetMax (rs_frames ?r)" "q_max (rs_frames ?r) = 30" "q_items (rs_frames ?r) = []"
    by (simp_all add: RSU_new_def Let_def queue_setMax_def queue_new_def)
  have good: "\<forall>f \<in> set [rsu_demo_frame 7, rsu_demo_frame 8]. frame_good f"
    by (simp add: rsu_demo_frame_def frame_good_def rsu_tag_def)
  have x: "let r' = (ThreadPRecv_round ^^ 14) ?r
    in (\<exists>rb'. rs_rb r' = Some rb' \<and> ring_wf rb' \<and> ring_abs rb' = [0xda]) \<and> rs_recvState r' = SStart \<and> rs_tag r' = [] \<and>
       q_items (rs_frames r') = take 30 (piled_up [] [rsu_demo_frame 7, rsu_demo_frame 8])"
    using rsu_frames[OF r(1-3) good _ rb _ r(5,6)] unfolding r(4,7) by simp
  have p: "map rf_data (take 30 (piled_up [] [rsu_demo_frame 7, rsu_demo_frame 8])) = [[7], [7, 8]]"
    by (simp add: rsu_demo_frame_def)
  have "?bs = rsu_Pack (rsu_demo_frame 7) @ rsu_Pack (rsu_demo_frame 8) @ [0xda]" by simp
  then show ?thesis using x p unfolding Let_def by metis
qed

text \<open>A datagram of more than one byte is written behind the buffer of the receiving thread.\<close>

lemma rsu_datagram_overflows:
  "rs_isRun r \<Longrightarrow> 0 < rs_sock r \<Longrightarrow> rs_rb r = Some rb \<Longrightarrow> 1 < length d \<Longrightarrow> 1 < ring_GetWriteLen rb \<Longrightarrow>
     ThreadRecv_round (Some d) r = None"
  by (simp add: ThreadRecv_round_def rsu_readLen_def recv_buffer_size_def Let_def)

end
