(* ===== verification/Kafka.thy ===== *)
theory Kafka
  imports ProcProps
begin

text \<open>
  The Kafka consumer and producer of \<open>kafka/\<close>: the structures of \<open>KafkaCom.h\<close>, the set-up and the
  flags, the loop that consumes the stage messages of the signal controllers, and the queries of the
  upstream server that are answered from what it should have stored. What librdkafka does (whether a
  handle is created, a subscription made, what a poll returns) is a parameter.
\<close>

section \<open>Messages\<close>

record TabStageFrameHeader =
  th_header :: bytes
  th_NoTab :: u8
  th_NumByte :: u8

record TabStage =
  ts_NoArea :: u8
  ts_NoJunc :: u8
  ts_NoOldStage :: u8
  ts_LenOldStage :: u8
  ts_NoNewStage :: u8
  ts_LenNewStage :: u8
  ts_NewStageName :: bytes

text \<open>The structures are packed: 4 + 1 + 1 and 6 + 40 bytes.\<close>

definition sizeof_TabStageFrameHeader :: nat where
  "sizeof_TabStageFrameHeader = 6"

definition sizeof_TabStage :: nat where
  "sizeof_TabStage = 46"

definition load_header :: "bytes \<Rightarrow> TabStageFrameHeader" where
  "load_header b = \<lparr>th_header = take 4 b, th_NoTab = b ! 4, th_NumByte = b ! 5\<rparr>"

definition load_TabStage :: "bytes \<Rightarrow> TabStage" where
  "load_TabStage b = \<lparr>ts_NoArea = b ! 0, ts_NoJunc = b ! 1, ts_NoOldStage = b ! 2, ts_LenOldStage = b ! 3,
     ts_NoNewStage = b ! 4, ts_LenNewStage = b ! 5, ts_NewStageName = take 40 (drop 6 b)\<rparr>"

section \<open>Consumer\<close>

record KafkaConsumer =
  kc_topic :: string
  kc_brokers :: string
  kc_group_id :: string
  kc_crossId :: string
  kc_crossId_c :: u8
  kc_consumer :: bool
  kc_isInit :: bool
  kc_isRun :: bool
  kc_isLocalThreadRun :: bool

text \<open>\<open>substr\<close> throws when its start is past the end; the start is computed with a \<open>size_t\<close>.\<close>

definition substr_from :: "string \<Rightarrow> u64 \<Rightarrow> string option" where
  "substr_from s pos = (if unat pos \<le> length s then Some (drop (unat pos) s) else None)"

definition KafkaConsumer_new :: "string \<Rightarrow> string \<Rightarrow> string \<Rightarrow> KafkaConsumer option" where
  "KafkaConsumer_new brokers topic crossId =
     (case substr_from crossId (word_of_nat (length crossId) - 3) of
        None \<Rightarrow> None
      | Some digits \<Rightarrow> Some \<lparr>kc_topic = topic, kc_brokers = brokers, kc_group_id = ''RV'' @ crossId, kc_crossId = crossId,
          kc_crossId_c = word_of_int (strtol digits), kc_consumer = False, kc_isInit = False, kc_isRun = False,
          kc_isLocalThreadRun = False\<rparr>)"

definition KafkaConsumer_init :: "bool \<Rightarrow> KafkaConsumer \<Rightarrow> int \<times> KafkaConsumer" where
  "KafkaConsumer_init created k =
     (let k = k\<lparr>kc_consumer := created\<rparr> in if \<not> created then (- 1, k) else (0, k\<lparr>kc_isInit := True\<rparr>))"

definition KafkaConsumer_startBusiness :: "KafkaConsumer \<Rightarrow> KafkaConsumer" where
  "KafkaConsumer_startBusiness k =
     (if \<not> kc_isInit k then k else k\<lparr>kc_isRun := True, kc_isLocalThreadRun := True\<rparr>)"

text \<open>
  \<open>stopBusiness\<close> clears the flags and waits for the thread if one was started; the second result is
  whether it waits. The thread sees the flag after the poll that runs, at most 20 seconds.
\<close>

definition KafkaConsumer_stopBusiness :: "KafkaConsumer \<Rightarrow> KafkaConsumer \<times> bool" where
  "KafkaConsumer_stopBusiness k =
     (let k' = k\<lparr>kc_isRun := False\<rparr>
      in if kc_isLocalThreadRun k' then (k'\<lparr>kc_isLocalThreadRun := False\<rparr>, True) else (k', False))"

section \<open>Consuming\<close>

text \<open>What a poll returns: a message with its time stamp, or an error, a time-out among them.\<close>

datatype polled = Polled bytes int | Poll_error

datatype kafka_error = Name_unterminated

definition stage_item :: "string \<Rightarrow> int \<Rightarrow> TabStage \<Rightarrow> Data \<Rightarrow> CrossStageData" where
  "stage_item uuid timestamp tab d = CrossStageData_new\<lparr>
     csd_oprNum := uuid, csd_crossID := da_plateId d, csd_hardCode := da_matrixNo d,
     csd_timestamp := real_of_int timestamp,
     csd_lastStage := uint (ts_NoOldStage tab), csd_lastStageDuration := uint (ts_LenOldStage tab),
     csd_curStage := uint (ts_NoNewStage tab), csd_curStageDuration := uint (ts_LenNewStage tab)\<rparr>"

text \<open>
  \<open>auto dataUnit = data->dataUnitCrossStageData\<close> copies the list. The result has the copy as the
  thread leaves it, if it makes one, and the \<open>Data\<close> object. The name is logged as a C string.
\<close>

definition store_stage :: "string \<Rightarrow> int \<Rightarrow> TabStage \<Rightarrow> Data \<Rightarrow> CrossStageData list \<times> Data" where
  "store_stage uuid timestamp tab d =
     (let dataUnit = da_crossStage d; item = stage_item uuid timestamp tab d;
          dataUnit = (if dataUnit \<noteq> [] then tl dataUnit else dataUnit);
          dataUnit = dataUnit @ [item]
      in (dataUnit, d))"

definition consume_tab :: "KafkaConsumer \<Rightarrow> string \<Rightarrow> int \<Rightarrow> bytes \<Rightarrow> Data \<Rightarrow>
    kafka_error + CrossStageData list option \<times> Data" where
  "consume_tab k uuid timestamp rest d =
     (if sizeof_TabStage \<le> length rest then
        let tab = load_TabStage rest
        in if kc_crossId_c k = ts_NoJunc tab then
             if 0 \<notin> set (ts_NewStageName tab) then Inl Name_unterminated
             else let (copy, d) = store_stage uuid timestamp tab d in Inr (Some copy, d)
           else Inr (None, d)
      else Inr (None, d))"

definition consume_round :: "KafkaConsumer \<Rightarrow> string \<Rightarrow> polled \<Rightarrow> Data \<Rightarrow>
    kafka_error + CrossStageData list option \<times> Data" where
  "consume_round k uuid msg d =
     (case msg of
        Polled payload timestamp \<Rightarrow>
          if sizeof_TabStageFrameHeader \<le> length payload then
            let head = load_header payload; rest = drop sizeof_TabStageFrameHeader payload
            in if th_NoTab head = 4 then consume_tab k uuid timestamp rest d else Inr (None, d)
          else Inr (None, d)
      | Poll_error \<Rightarrow> Inr (None, d))"

text \<open>The thread: no round without a subscription; else a round for each poll until \<open>_isRun\<close> is cleared.\<close>

fun consume_rounds :: "KafkaConsumer \<Rightarrow> (string \<times> polled) list \<Rightarrow> Data \<Rightarrow> kafka_error + Data" where
  "consume_rounds k [] d = Inr d"
| "consume_rounds k ((uuid, msg) # ps) d =
     (case consume_round k uuid msg d of Inl e \<Rightarrow> Inl e | Inr (copy, d) \<Rightarrow> consume_rounds k ps d)"

definition ThreadConsume :: "KafkaConsumer \<Rightarrow> bool \<Rightarrow> (string \<times> polled) list \<Rightarrow> Data \<Rightarrow> kafka_error + int \<times> Data" where
  "ThreadConsume k subscribed ps d =
     (if \<not> subscribed then Inr (- 1, d) else map_sum id (\<lambda>d. (0, d)) (consume_rounds k ps d))"

section \<open>Producer\<close>

record KafkaProducer =
  kp_topic :: string
  kp_brokers :: string
  kp_notify :: bytes
  kp_isInit :: bool
  kp_isRun :: bool
  kp_isLocalThreadRun :: bool

definition KafkaProducer_new :: "string \<Rightarrow> string \<Rightarrow> KafkaProducer" where
  "KafkaProducer_new brokers topic = \<lparr>kp_topic = topic, kp_brokers = brokers, kp_notify = [], kp_isInit = False,
     kp_isRun = False, kp_isLocalThreadRun = False\<rparr>"

definition KafkaProducer_init :: "bool \<Rightarrow> bool \<Rightarrow> KafkaProducer \<Rightarrow> int \<times> KafkaProducer" where
  "KafkaProducer_init created topic_created k =
     (if \<not> created then (- 1, k) else if \<not> topic_created then (- 1, k) else (0, k\<lparr>kp_isInit := True\<rparr>))"

definition KafkaProducer_startBusiness :: "KafkaProducer \<Rightarrow> KafkaProducer" where
  "KafkaProducer_startBusiness k =
     (if \<not> kp_isInit k then k else k\<lparr>kp_isRun := True, kp_isLocalThreadRun := True\<rparr>)"

definition KafkaProducer_stopBusiness :: "KafkaProducer \<Rightarrow> KafkaProducer \<times> bool" where
  "KafkaProducer_stopBusiness k =
     (let k' = k\<lparr>kp_isRun := False\<rparr>
      in if kp_isLocalThreadRun k' then (k'\<lparr>kp_isLocalThreadRun := False\<rparr>, True) else (k', False))"

text \<open>\<open>produce\<close> hands the data over and returns the library's error code, 0 for none.\<close>

definition produce :: "(bytes \<Rightarrow> int) \<Rightarrow> bytes \<Rightarrow> int \<times> bytes list" where
  "produce rd data = (let err = rd data in (err, if err = 0 then [data] else []))"

text \<open>The thread hands \<open>_notify\<close> over again and again; the list has what the library takes.\<close>

fun ThreadProduce :: "(bytes \<Rightarrow> int) list \<Rightarrow> KafkaProducer \<Rightarrow> bytes list" where
  "ThreadProduce [] k = []"
| "ThreadProduce (rd # rds) k = snd (produce rd (kp_notify k)) @ ThreadProduce rds k"

section \<open>What a round does\<close>

text \<open>A stage message of this junction is decoded field by field.\<close>

lemma consume_round_decodes:
  assumes "length hdr = 4" and "length name = 40" and "0 \<in> set name"
  shows "consume_round k uuid (Polled (hdr @ [4, n, area, kc_crossId_c k, old, len, cur, curlen] @ name @ rest) time) d =
    (let tab = \<lparr>ts_NoArea = area, ts_NoJunc = kc_crossId_c k, ts_NoOldStage = old, ts_LenOldStage = len,
       ts_NoNewStage = cur, ts_LenNewStage = curlen, ts_NewStageName = name\<rparr>
     in Inr (Some (tl (da_crossStage d) @ [stage_item uuid time tab d]), d))"
proof -
  obtain h0 h1 h2 h3 where h: "hdr = [h0, h1, h2, h3]"
    using assms(1) by (auto simp: eval_nat_numeral length_Suc_conv)
  show ?thesis
    using assms(2,3)
    by (simp add: h consume_round_def consume_tab_def store_stage_def load_header_def load_TabStage_def
        sizeof_TabStageFrameHeader_def sizeof_TabStage_def Let_def)
qed

lemma consume_round_data: "consume_round k uuid msg d = Inr (copy, d') \<Longrightarrow> d' = d"
  by (auto simp: consume_round_def consume_tab_def store_stage_def Let_def split: polled.splits if_splits)

lemma ThreadConsume_data: "ThreadConsume k subscribed ps d = Inr (r, d') \<Longrightarrow> d' = d"
proof -
  have "consume_rounds k ps d = Inr d' \<Longrightarrow> d' = d" for d'
    by (induction k ps d rule: consume_rounds.induct) (auto split: sum.splits dest: consume_round_data)
  then show "ThreadConsume k subscribed ps d = Inr (r, d') \<Longrightarrow> d' = d"
    by (cases "consume_rounds k ps d") (auto simp: ThreadConsume_def split: if_splits)
qed

text \<open>A junction without a number of at least three characters ends the program: \<open>substr\<close> throws.\<close>

lemma KafkaConsumer_new_short: "length crossId < 3 \<Longrightarrow> KafkaConsumer_new brokers topic crossId = None"
proof -
  assume a: "length crossId < 3"
  then consider "length crossId = 0" | "length crossId = 1" | "length crossId = 2" by linarith
  then have "(2 :: u64) < word_of_nat (length crossId) - 3" by cases (simp_all only:, simp_all)
  then have "2 < unat ((word_of_nat (length crossId) :: u64) - 3)" by (simp add: word_less_nat_alt)
  then show ?thesis using a by (simp add: KafkaConsumer_new_def substr_from_def)
qed

lemma KafkaConsumer_new_no_plate: "KafkaConsumer_new brokers topic (da_plateId (Data_instance cfg db1 None)) = None"
  by (rule KafkaConsumer_new_short) (simp add: Data_instance_def getPlatId_def Let_def)

lemma ThreadProduce_empty: "bs \<in> set (ThreadProduce rds (KafkaProducer_new brokers topic)) \<Longrightarrow> bs = []"
  by (induction rds) (auto simp: produce_def KafkaProducer_new_def Let_def split: if_splits)

section \<open>The stage data\<close>

text \<open>
  What no packet changes: what the answer to a stage query depends on, and the configuration but for the
  switch of the pictures.
\<close>

definition fixed_view where
  "fixed_view st = (da_crossStage (ps_data st), da_plateId (ps_data st), da_matrixNo (ps_data st),
     (ps_cfg st)\<lparr>lc_isSendPIC := False\<rparr>)"

context data_field
begin

lemma store_view:
  assumes "\<And>f st. g (st\<lparr>ps_data := upd f (ps_data st)\<rparr>) = g st" and "\<And>i st. g (rate i st) = g st"
    and "store_msg sel upd rate msg code st = (r, st')"
  shows "g st' = g st"
  using assms(3) by (auto simp: store_msg_def Let_def assms(1,2) split: prod.splits if_splits)

lemma recv_view:
  assumes "recv_store dec ts code sel upd rate env c content st = Inr (r, c', st')"
    and "\<And>f st. g (st\<lparr>ps_data := upd f (ps_data st)\<rparr>) = g st" and "\<And>msg i st. g (rate msg i st) = g st"
    and "\<And>cs st. g (st\<lparr>ps_conns := cs\<rparr>) = g st"
  shows "g st' = g st"
proof (cases "dec content")
  case (Some msg)
  obtain ok s where a: "admit env (ts msg) (code msg) st = (ok, s)" by fastforce
  have s: "g s = g st" using a assms(4) by (auto simp: admit_eq deleteFromConns_def split: if_splits)
  obtain ret s2 where m: "store_msg sel upd (rate msg) msg (code msg) s = (ret, s2)" by fastforce
  have "g s2 = g s" by (rule store_view[OF assms(2,3) m])
  moreover have "st' = s \<or> st' = s2" using assms(1) Some a m by (auto simp: recv_store_def split: if_splits)
  ultimately show ?thesis using s by metis
qed (use assms(1) in \<open>simp add: recv_store_def\<close>)

end

lemma rate_view:
  "fixed_view (rate_flow flow i st) = fixed_view st" "fixed_view (rate_pole pole i st) = fixed_view st"
  "fixed_view (no_rate i st) = fixed_view st"
  by (simp_all add: fixed_view_def rate_flow_def rate_pole_def no_rate_def Let_def split: prod.split)

lemma field_view:
  "fixed_view (st\<lparr>ps_data := da_jam_update f1 (ps_data st)\<rparr>) = fixed_view st"
  "fixed_view (st\<lparr>ps_data := da_overflow_update f2 (ps_data st)\<rparr>) = fixed_view st"
  "fixed_view (st\<lparr>ps_data := da_watch134_update f3 (ps_data st)\<rparr>) = fixed_view st"
  "fixed_view (st\<lparr>ps_data := da_watch2_update f4 (ps_data st)\<rparr>) = fixed_view st"
  "fixed_view (st\<lparr>ps_data := da_stopline_update f5 (ps_data st)\<rparr>) = fixed_view st"
  "fixed_view (st\<lparr>ps_data := da_abnormal_update f6 (ps_data st)\<rparr>) = fixed_view st"
  "fixed_view (st\<lparr>ps_data := da_longdist_update f7 (ps_data st)\<rparr>) = fixed_view st"
  "fixed_view (st\<lparr>ps_data := da_human_update f8 (ps_data st)\<rparr>) = fixed_view st"
  "fixed_view (st\<lparr>ps_data := da_detector_update f9 (ps_data st)\<rparr>) = fixed_view st"
  "fixed_view (st\<lparr>ps_data := da_flow_update f10 (ps_data st)\<rparr>) = fixed_view st"
  "fixed_view (st\<lparr>ps_data := da_pole_update f11 (ps_data st)\<rparr>) = fixed_view st"
  "fixed_view (st\<lparr>ps_conns := cs\<rparr>) = fixed_view st"
  by (simp_all add: fixed_view_def)

lemmas view_rules =
  fld_jam.recv_view[where g = fixed_view] fld_overflow.recv_view[where g = fixed_view]
  fld_watch134.recv_view[where g = fixed_view] fld_watch2.recv_view[where g = fixed_view]
  fld_stopline.recv_view[where g = fixed_view] fld_abnormal.recv_view[where g = fixed_view]
  fld_longdist.recv_view[where g = fixed_view] fld_human.recv_view[where g = fixed_view]
  fld_detector.recv_view[where g = fixed_view] fld_flow.recv_view[where g = fixed_view]
  fld_pole.recv_view[where g = fixed_view]

lemma dispatch_view:
  assumes "dispatch env c pkg st = Inr (r, c', st')"
  shows "fixed_view st' = fixed_view st"
proof (cases "map_of PkgProcessMap (cmd_of (h_cmd (p_head pkg)))")
  case None
  then show ?thesis using assms by (simp add: dispatch_def)
next
  case (Some f)
  have run: "f env c (p_body pkg) st = Inr (r, c', st')" using assms Some by (simp add: dispatch_def)
  have j: "judgeHardCode code ip st = (b, s) \<Longrightarrow> ps_data s = ps_data st \<and> ps_cfg s = ps_cfg st" for code ip b s
    by (auto simp: judgeHardCode_def deleteFromConns_def split: if_splits)
  have a: "admit env ts code st = (b, s) \<Longrightarrow> ps_data s = ps_data st \<and> ps_cfg s = ps_cfg st" for env ts code b s
    by (auto simp: admit_eq deleteFromConns_def split: if_splits)
  have "f \<in> {PkgProcessFun_CmdResponse, PkgProcessFun_CmdControl, PkgProcessFun_CmdHeartBeat,
      PkgProcessFun_0xf1, PkgProcessFun_0xf2, PkgProcessFun_0xf3, PkgProcessFun_CmdCrossStageData, PkgProcessFun_CmdFusionData} \<Longrightarrow> ?thesis"
    using run
    by (elim insertE emptyE)
      (auto simp: fixed_view_def PkgProcessFun_CmdResponse_def PkgProcessFun_CmdControl_def PkgProcessFun_CmdHeartBeat_def
        PkgProcessFun_0xf1_def PkgProcessFun_0xf2_def PkgProcessFun_0xf3_def PkgProcessFun_CmdFusionData_def
        PkgProcessFun_CmdCrossStageData_def Let_def
        split: option.splits conn.splits prod.splits sum.splits if_splits dest!: a j)
  moreover have "f \<in> snd ` set PkgProcessMap" using Some by (metis imageI map_of_SomeD snd_conv)
  ultimately show ?thesis
    using run unfolding PkgProcessMap_def set_simps image_insert image_empty snd_conv recv_handler_defs
    by (elim insertE emptyE) (simp, (erule view_rules; simp only: rate_view field_view)?)+
qed

text \<open>
  A run of the program as the upstream server sees the stage data: packets that the connections process
  and polls of the consumer's thread, in any order.
\<close>

datatype stage_event = Packet proc_env conn Pkg | Poll string polled

fun run_events :: "KafkaConsumer \<Rightarrow> stage_event list \<Rightarrow> proc_state \<Rightarrow> (proc_error + kafka_error) + proc_state" where
  "run_events k [] st = Inr st"
| "run_events k (Packet env c pkg # es) st =
     (case dispatch env c pkg st of Inl e \<Rightarrow> Inl (Inl e) | Inr (r, c', st') \<Rightarrow> run_events k es st')"
| "run_events k (Poll uuid msg # es) st =
     (case consume_round k uuid msg (ps_data st) of
        Inl e \<Rightarrow> Inl (Inr e) | Inr (copy, d) \<Rightarrow> run_events k es (st\<lparr>ps_data := d\<rparr>))"

fun packets_of :: "stage_event list \<Rightarrow> (proc_env \<times> conn \<times> Pkg) list" where
  "packets_of [] = []"
| "packets_of (Packet env c pkg # es) = (env, c, pkg) # packets_of es"
| "packets_of (Poll uuid msg # es) = packets_of es"

text \<open>
  C23. Whatever stage messages the consumer takes from Kafka, in whatever order with the packets of the
  connections, the program ends in the state in which it would be without them: no stage is stored, because
  the thread stores it in a copy of the list. A query of the upstream server is then answered with a message
  whose stages are all unknown.
\<close>
theorem stage_data_lost:
  assumes "run_events k es st = Inr st'" and "da_crossStage (ps_data st) = []"
    and "dc_CrossStageData (pe_dec env) content = Some query" and "csd_hardCode query \<noteq> []"
    and "csd_hardCode query \<in> set (ps_equips st')"
    and "PkgProcessFun_CmdCrossStageData env (Server_conn h) content st' = Inr (r, Server_conn h', st'')"
  shows "run_packets (packets_of es) st = Inr st' \<and>
    (\<exists>msg sn dev ret. csd_lastStage msg = - 1 \<and> csd_lastStageDuration msg = - 1 \<and> csd_curStage msg = - 1 \<and>
      csd_curStageDuration msg = - 1 \<and> server_SendBase (pe_send env) (pe_now env) (pe_now env)
        (CrossStageData_PkgWithoutCRC (pe_enc_stage env) sn dev msg) h = Inr (ret, h'))"
proof -
  have same: "run_packets (packets_of es) st = Inr st' \<and> da_crossStage (ps_data st') = da_crossStage (ps_data st)"
    using assms(1)
  proof (induction k es st rule: run_events.induct)
    case (2 k env c pkg es st)
    then show ?case using dispatch_view[of env c pkg st] by (auto simp: fixed_view_def split: sum.splits)
  next
    case (3 k uuid msg es st)
    then show ?case using consume_round_data[of k uuid msg "ps_data st"] by (auto split: sum.splits)
  qed simp
  have "judgeHardCode (csd_hardCode query) (pe_ip env) st' = (True, st')"
    using assms(5) by (simp add: judgeHardCode_def isAssociated_iff)
  then show ?thesis
    using assms(2-4,6) same
    by (force simp: PkgProcessFun_CmdCrossStageData_def CrossStageData_new_def Let_def
        split: option.splits prod.splits sum.splits if_splits)
qed

definition demo_consumer :: KafkaConsumer where
  "demo_consumer = \<lparr>kc_topic = ''t'', kc_brokers = ''b'', kc_group_id = ''RV310115001'', kc_crossId = ''310115001'',
     kc_crossId_c = 1, kc_consumer = True, kc_isInit = True, kc_isRun = True, kc_isLocalThreadRun = True\<rparr>"

lemma demo_consumer_new:
  "map_option (\<lambda>k. KafkaConsumer_startBusiness (snd (KafkaConsumer_init True k))) (KafkaConsumer_new ''b'' ''t'' ''310115001'') =
     Some demo_consumer"
  by (simp add: KafkaConsumer_new_def substr_from_def strtol_def parse_int_def isspace_def isdigit_def digit_val_def
      number_of_digits_def KafkaConsumer_init_def KafkaConsumer_startBusiness_def demo_consumer_def)

lemma demo_query:
  assumes "da_crossStage (ps_data st) = []" and "''d1'' \<in> set (ps_equips st)" and "da_matrixNo (ps_data st) = ''0123456789''"
  shows "\<exists>r h' st'. PkgProcessFun_CmdCrossStageData demo_penv (Server_conn (handler_new [])) [] st = Inr (r, Server_conn h', st')"
proof -
  let ?msg = "CrossStageData_new\<lparr>csd_oprNum := ''u'', csd_crossID := da_plateId (ps_data st), csd_hardCode := ''0123456789'', csd_timestamp := 9\<rparr>"
  let ?pkg = "CrossStageData_PkgWithoutCRC (\<lambda>_. []) (ucast (ps_sn_CrossStageData st)) 123456789 ?msg"
  have "sendable ?pkg" using PkgWithoutCRC_wf[of "[]"]
    by (simp add: sendable_def CrossStageData_PkgWithoutCRC_def) (simp add: PkgWithoutCRC_def)
  from server_SendBase_ok[OF _ this, of "\<lambda>bs. Sent (int (length bs))" 9 9 "handler_new []"]
  show ?thesis
    using assms demo_stoi
    by (auto simp: PkgProcessFun_CmdCrossStageData_def judgeHardCode_def isAssociated_iff Let_def demo_dec_def demo_penv_def
      double_of_u64_def demo_env_def)
qed

theorem stage_data_lost_witness:
  "\<exists>st' r h' st'' poll item. consume_round demo_consumer ''u'' poll (ps_data (demo_proc [''d1''])) = Inr (Some [item], ps_data (demo_proc [''d1''])) \<and>
    csd_curStage item = 7 \<and> run_packets [] (demo_proc [''d1'']) = Inr st' \<and>
    PkgProcessFun_CmdCrossStageData demo_penv (Server_conn (handler_new [])) [] st' = Inr (r, Server_conn h', st'') \<and>
    (\<exists>msg sn dev ret. csd_curStage msg = - 1 \<and>
      server_SendBase (pe_send demo_penv) (pe_now demo_penv) (pe_now demo_penv)
        (CrossStageData_PkgWithoutCRC (pe_enc_stage demo_penv) sn dev msg) (handler_new []) = Inr (ret, h'))"
proof -
  let ?st = "demo_proc [''d1'']"
  let ?poll = "Polled ([1, 2, 3, 4] @ [4, 46, 0, kc_crossId_c demo_consumer, 5, 6, 7, 8] @ replicate 40 0 @ []) 99"
  have e: "da_crossStage (ps_data ?st) = []" "da_matrixNo (ps_data ?st) = ''0123456789''"
    by (simp_all add: demo_proc_def Data_instance_def getMatrixNo_def Let_def)
  have round: "\<exists>item. consume_round demo_consumer ''u'' ?poll (ps_data ?st) = Inr (Some [item], ps_data ?st) \<and> csd_curStage item = 7"
    by (subst consume_round_decodes) (simp_all add: e stage_item_def Let_def)
  then have run: "run_events demo_consumer [Poll ''u'' ?poll] ?st = Inr ?st" by auto
  obtain r h' st'' where q: "PkgProcessFun_CmdCrossStageData demo_penv (Server_conn (handler_new [])) [] ?st = Inr (r, Server_conn h', st'')"
    using demo_query[OF e(1) _ e(2)] by auto
  have "dc_CrossStageData (pe_dec demo_penv) [] = Some (CrossStageData_new\<lparr>csd_hardCode := ''d1''\<rparr>)" by (simp add: demo_dec_def)
  from stage_data_lost[OF run e(1) this _ _ q] round q show ?thesis by fastforce
qed

end
