(* ===== verification/Startup.thy ===== *)
theory Startup
  imports Kafka Eoc
begin

text \<open>
  The start of the program: \<open>main.cpp\<close> with its command line, \<open>getAlgorithmParam\<close> of
  \<open>common/config.cpp\<close>, and the tasks of \<open>localBusiness.cpp\<close> that put made-up messages into the output
  queues. What the operating system and the libraries answer while the parts are opened is a parameter;
  the sleeps, the logging and the endless loop at the end, which does nothing, are left out.
\<close>

section \<open>Command line\<close>

record flags =
  fl_port :: int
  fl_cloudIp :: string
  fl_cloudPort :: int
  fl_isSamePort :: bool
  fl_isMerge :: bool
  fl_mergeMode :: int
  fl_keep :: int
  fl_isSendPIC :: bool
  fl_isSendSTDOUT :: bool
  fl_logDir :: string
  fl_msgType :: string
  fl_summaryFs :: int
  fl_isSaveInObj :: bool
  fl_isSaveOutObj :: bool
  fl_isSendCloud :: bool
  fl_isSaveOtherJson :: bool
  fl_isSaveRVJson :: bool
  fl_algorithmParamFile :: string
  fl_mode :: int
  fl_thresholdReconnect :: int
  fl_isUseThresholdReconnect :: bool
  fl_thresholdTimeRecv :: int
  fl_isUseThresholdTimeRecv :: bool
  fl_isUseJudgeHardCode :: bool
  fl_isUseKafka :: bool
  fl_kafkaBrokers :: string
  fl_kafkaTopic_c :: string

definition flags_default :: "bool \<Rightarrow> flags" where
  "flags_default aarch64 = \<lparr>fl_port = 9000, fl_cloudIp = ''10.110.60.122'', fl_cloudPort = 9988, fl_isSamePort = False,
     fl_isMerge = False, fl_mergeMode = 0, fl_keep = 5, fl_isSendPIC = True, fl_isSendSTDOUT = False,
     fl_logDir = (if aarch64 then ''/mnt/mnt_hd'' else ''./''), fl_msgType = [], fl_summaryFs = 10,
     fl_isSaveInObj = False, fl_isSaveOutObj = False, fl_isSendCloud = True, fl_isSaveOtherJson = False,
     fl_isSaveRVJson = False, fl_algorithmParamFile = ''./algorithmParam.json'', fl_mode = 0,
     fl_thresholdReconnect = 5, fl_isUseThresholdReconnect = False, fl_thresholdTimeRecv = 60 * 3,
     fl_isUseThresholdTimeRecv = True, fl_isUseJudgeHardCode = True, fl_isUseKafka = False,
     fl_kafkaBrokers = ''13.145.180.179:9092,13.145.180.193:9092,13.145.180.213:9092'',
     fl_kafkaTopic_c = ''cross_phaseStatus''\<rparr>"

text \<open>The address of the cloud: what the database says, and the command line where it says nothing.\<close>

definition cloud_address :: "flags \<Rightarrow> DBBaseSet \<Rightarrow> string \<times> u16" where
  "cloud_address fl bs =
     (if bs_PlatformTcpPath bs \<noteq> [] then bs_PlatformTcpPath bs else fl_cloudIp fl,
      if bs_PlatformTcpPort bs \<noteq> 0 then word_of_int (bs_PlatformTcpPort bs) else word_of_int (fl_cloudPort fl))"

definition main_config :: "flags \<Rightarrow> LocalConfig \<Rightarrow> LocalConfig" where
  "main_config fl cfg =
     (let cfg = cfg\<lparr>lc_isSendPIC := fl_isSendPIC fl, lc_mergeMode := fl_mergeMode fl, lc_isSaveInObj := fl_isSaveInObj fl,
            lc_isSaveOutObj := fl_isSaveOutObj fl, lc_isSendCloud := fl_isSendCloud fl,
            lc_isSaveOtherJson := fl_isSaveOtherJson fl, lc_isSaveRVJson := fl_isSaveRVJson fl, lc_mode := fl_mode fl\<rparr>;
          cfg = (if fl_msgType fl \<noteq> [] then cfg\<lparr>lc_msgType := split (fl_msgType fl) '',''\<rparr> else cfg);
          cfg = (if 0 < fl_summaryFs fl then cfg\<lparr>lc_summaryFs := fl_summaryFs fl\<rparr> else cfg);
          cfg = (if 0 < fl_thresholdReconnect fl then cfg\<lparr>lc_thresholdReconnect := fl_thresholdReconnect fl\<rparr> else cfg);
          cfg = cfg\<lparr>lc_isUseThresholdReconnect := fl_isUseThresholdReconnect fl\<rparr>;
          cfg = (if 0 < fl_thresholdTimeRecv fl then cfg\<lparr>lc_thresholdTimeRecv := fl_thresholdTimeRecv fl\<rparr> else cfg)
      in cfg\<lparr>lc_isUseThresholdTimeRecv := fl_isUseThresholdTimeRecv fl,
             lc_isUseJudgeHardCode := fl_isUseJudgeHardCode fl, lc_isUseKafka := fl_isUseKafka fl\<rparr>)"

text \<open>The file of the algorithm, if it can be opened, and what decoding it leaves; \<open>None\<close> is its exception.\<close>

definition getAlgorithmParam :: "(string \<Rightarrow> 'alg \<Rightarrow> 'alg option) \<Rightarrow> string option \<Rightarrow> 'alg \<Rightarrow> int \<times> 'alg" where
  "getAlgorithmParam decode file out =
     (case file of None \<Rightarrow> (- 1, out)
      | Some content \<Rightarrow> (case decode content out of None \<Rightarrow> (- 1, out) | Some out' \<Rightarrow> (0, out')))"

section \<open>The parts\<close>

definition fixrPort :: int where "fixrPort = 9977"

text \<open>The servers and clients, with the address that each client is given.\<close>

definition main_business :: "flags \<Rightarrow> LocalConfig \<Rightarrow> string \<times> u16 \<Rightarrow> bytes \<Rightarrow> LocalBusiness \<times> (string \<times> string \<times> int) list" where
  "main_business fl cfg cloud buff =
     (let (cloudIp, cloudPort) = cloud; port = (word_of_int (fl_port fl) :: u16);
          lb = LocalBusiness_new;
          lb = (if lc_mode cfg = 0 \<or> lc_mode cfg = 1 then AddServer ''server1'' (uint port) lb else lb);
          lb = (if lc_mode cfg = 0 \<or> lc_mode cfg = 2 then AddServer ''server2'' (uint port + 1) lb else lb);
          lb = AddClient buff ''client2'' (AddClient buff ''client1'' lb)
      in (lb, [(''client1'', cloudIp, uint cloudPort),
               (''client2'', cloudIp, if \<not> fl_isSamePort fl then fixrPort else uint cloudPort)]))"

text \<open>
  What the system answers: whether a port can be bound, what \<open>connect\<close> does, the results of \<open>socket\<close>
  and \<open>bind\<close> for the signal controller, whether the Kafka handle is created, the buffers' content, and
  the columns that the two SQL queries of the \<open>Data\<close> object return.
\<close>

record start_env =
  se_bind :: "int \<Rightarrow> bool"
  se_conn :: "string \<Rightarrow> connect_result"
  se_sig_socket :: int
  se_sig_bind :: int
  se_kafka :: bool
  se_buff :: bytes
  se_matrixNo :: "string list option"
  se_plateId :: "string list option"

text \<open>
  The program after its start. Where \<open>Open\<close> of the signal controller fails the object is deleted and
  the pointer kept, and so for the consumer: the flags say whether the objects are there.
\<close>

record program =
  pr_state :: proc_state
  pr_business :: LocalBusiness
  pr_peers :: "(string \<times> string \<times> int) list"
  pr_signal_alive :: bool
  pr_kafka :: "KafkaConsumer option"

definition main_data :: "start_env \<Rightarrow> flags \<Rightarrow> LocalConfig \<Rightarrow> Data" where
  "main_data env fl cfg = (Data_instance cfg (se_matrixNo env) (se_plateId env))\<lparr>da_isMerge := fl_isMerge fl\<rparr>"

definition main_signal :: "start_env \<Rightarrow> int \<times> SignalControl" where
  "main_signal env = SignalControl_Open (se_sig_socket env) (se_sig_bind env) (SignalControl_new ''172.16.1.1'' 15050 12345)"

text \<open>\<open>None\<close>: the constructor of the consumer throws, which nothing catches.\<close>

definition main_kafka :: "start_env \<Rightarrow> flags \<Rightarrow> LocalConfig \<Rightarrow> Data \<Rightarrow> KafkaConsumer option option" where
  "main_kafka env fl cfg d =
     (if lc_isUseKafka cfg then
        case KafkaConsumer_new (fl_kafkaBrokers fl) (fl_kafkaTopic_c fl) (da_plateId d) of
          None \<Rightarrow> None
        | Some k \<Rightarrow> let (ret, k) = KafkaConsumer_init (se_kafka env) k
                    in Some (if ret \<noteq> 0 then None else Some (KafkaConsumer_startBusiness k))
      else Some None)"

definition main_start :: "start_env \<Rightarrow> flags \<Rightarrow> DBBaseSet \<Rightarrow> string list \<Rightarrow> program option" where
  "main_start env fl bs equips =
     (let cfg = main_config fl localConfig_new;
          d = main_data env fl cfg;
          (lb, peers) = main_business fl cfg (cloud_address fl bs) (se_buff env);
          lb = LocalBusiness_Run (se_bind env) (se_conn env) lb;
          (ret, sig) = main_signal env
      in case main_kafka env fl cfg d of
           None \<Rightarrow> None
         | Some k \<Rightarrow> Some \<lparr>
             pr_state = \<lparr>ps_cfg = cfg, ps_equips = equips, ps_conns = [], ps_data = d,
               ps_CT_fusionData = CacheTimestamp_new, ps_CT_trafficFlowGather = CacheTimestamp_new,
               ps_CT_humanLitPoleData = CacheTimestamp_new, ps_signal = sig, ps_signal_sent = [], ps_sn_CrossStageData = 0\<rparr>,
             pr_business = lb, pr_peers = peers, pr_signal_alive = (ret = 0), pr_kafka = k\<rparr>)"

section \<open>Made-up messages\<close>

text \<open>
  The tasks that put a message with fixed values into the output queue of a unit; their timers are
  commented out. The environment has the new identifier, the clock and the clock as a text.
\<close>

record fake_env =
  fk_uuid :: string
  fk_now :: u64
  fk_time :: string

definition Task_CreateFusionData :: "fake_env \<Rightarrow> Data \<Rightarrow> bool \<times> Data" where
  "Task_CreateFusionData e d =
     (let inData = FusionData_new\<lparr>fd_oprNum := fk_uuid e, fd_timestamp := double_of_u64 (fk_now e), fd_crossID := ''crossID''\<rparr>;
          (ok, du) = pushO inData (da_fusion d)
      in (ok, d\<lparr>da_fusion := du\<rparr>))"

definition Task_CreateCrossTrafficJamAlarm :: "fake_env \<Rightarrow> Data \<Rightarrow> bool \<times> Data" where
  "Task_CreateCrossTrafficJamAlarm e d =
     (let inData = CrossTrafficJamAlarm_new\<lparr>cj_oprNum := fk_uuid e, cj_timestamp := double_of_u64 (fk_now e),
            cj_crossID := ''crossID'', cj_hardCode := ''hardCode'', cj_alarmStatus := 0, cj_alarmType := 1,
            cj_alarmTime := fk_time e\<rparr>;
          (ok, du) = pushO inData (da_jam d)
      in (ok, d\<lparr>da_jam := du\<rparr>))"

definition Task_CreateTrafficFlowGather :: "fake_env \<Rightarrow> Data \<Rightarrow> bool \<times> Data" where
  "Task_CreateTrafficFlowGather e d =
     (let item1 = OneFlowData_new\<lparr>ofd_outAverageSpeed := 1, ofd_inAverageSpeed := 2, ofd_laneDirection := 3,
            ofd_flowDirection := 4, ofd_inCars := 5, ofd_laneCode := ''laneCode'', ofd_outCars := 6, ofd_queueCars := 7,
            ofd_queueLen := 8\<rparr>;
          inData = TrafficFlowGather_new\<lparr>tg_oprNum := fk_uuid e, tg_timestamp := double_of_u64 (fk_now e),
            tg_crossID := ''crossID'', tg_recordDateTime := fk_time e\<rparr>;
          inData = inData\<lparr>tg_trafficFlow := tg_trafficFlow inData @ [item1]\<rparr>;
          (ok, du) = pushO inData (da_flow d)
      in (ok, d\<lparr>da_flow := du\<rparr>))"

definition Task_CreateAbnormalStopData :: "fake_env \<Rightarrow> Data \<Rightarrow> bool \<times> Data" where
  "Task_CreateAbnormalStopData e d =
     (let inData = AbnormalStopData_new\<lparr>asd_oprNum := fk_uuid e, asd_timestamp := double_of_u64 (fk_now e),
            asd_crossID := ''crossID'', asd_hardCode := ''hardCode'', asd_laneCode := ''laneCode'',
            asd_alarmTime := fk_time e, asd_alarmStatus := 1, asd_alarmType := 2\<rparr>;
          (ok, du) = pushO inData (da_abnormal d)
      in (ok, d\<lparr>da_abnormal := du\<rparr>))"

definition Task_CreateLongDistanceOnSolidLineAlarm :: "fake_env \<Rightarrow> Data \<Rightarrow> bool \<times> Data" where
  "Task_CreateLongDistanceOnSolidLineAlarm e d =
     (let inData = LongDistanceOnSolidLineAlarm_new\<lparr>lda_oprNum := fk_uuid e, lda_timestamp := double_of_u64 (fk_now e),
            lda_crossID := ''crossID'', lda_hardCode := ''hardCode'', lda_laneCode := ''laneCode'',
            lda_alarmTime := fk_time e, lda_alarmStatus := 3, lda_alarmType := 4,
            lda_latitude := 123.456789, lda_longitude := 987.654321\<rparr>;
          (ok, du) = pushO inData (da_longdist d)
      in (ok, d\<lparr>da_longdist := du\<rparr>))"

definition Task_CreateHumanData :: "fake_env \<Rightarrow> Data \<Rightarrow> bool \<times> Data" where
  "Task_CreateHumanData e d =
     (let inData = HumanDataGather_new\<lparr>hdg_oprNum := fk_uuid e, hdg_timestamp := double_of_u64 (fk_now e),
            hdg_crossID := ''crossID'', hdg_hardCode := ''hardCode''\<rparr>;
          item = HumanDataGather_deviceListItem_new\<lparr>hgd_deviceCode := ''deviceCode'', hgd_direction := 5,
            hgd_detectDirection := 6, hgd_bicycleNum := 100, hgd_humanType := 101, hgd_humanNum := 102\<rparr>;
          inData = inData\<lparr>hdg_deviceList := hdg_deviceList inData @ [item]\<rparr>;
          (ok, du) = pushO inData (da_human d)
      in (ok, d\<lparr>da_human := du\<rparr>))"

lemmas fake_defs = Task_CreateFusionData_def Task_CreateCrossTrafficJamAlarm_def Task_CreateTrafficFlowGather_def
  Task_CreateAbnormalStopData_def Task_CreateLongDistanceOnSolidLineAlarm_def Task_CreateHumanData_def

section \<open>Well-formedness\<close>

text \<open>The configuration as the timers, the divisions by its rates and the units need it.\<close>

definition cfg_wf :: "LocalConfig \<Rightarrow> bool" where
  "cfg_wf cfg \<longleftrightarrow> lc_roadNum cfg = 8 \<and> 0 < lc_summaryFs cfg \<and> 0 < lc_thresholdReconnect cfg \<and> 0 < lc_thresholdTimeRecv cfg"

lemma main_config_wf: "cfg_wf (main_config fl localConfig_new)"
  by (simp add: cfg_wf_def main_config_def localConfig_new_def Let_def)

lemma pushO_simps [simp]:
  "du_iq (snd (pushO x du)) = du_iq du" "du_numI (snd (pushO x du)) = du_numI du" "du_cap (snd (pushO x du)) = du_cap du"
  by (simp_all add: pushO_def split: prod.split)

lemma unit_ok_pushO: "pushO x du = (ok, du') \<Longrightarrow> unit_ok n c du \<Longrightarrow> unit_ok n c du' \<and> cached du' = cached du"
  using du_wf_pushO[of du x] pushO_simps[of x du] by (simp add: unit_ok_def cached_def)

text \<open>A made-up message leaves the caches alone and the units well-formed.\<close>

lemma fake_ok:
  assumes "data_ok n d" and "task \<in> {Task_CreateFusionData, Task_CreateCrossTrafficJamAlarm, Task_CreateTrafficFlowGather,
      Task_CreateAbnormalStopData, Task_CreateLongDistanceOnSolidLineAlarm, Task_CreateHumanData}"
    and "task e d = (ok, d')"
  shows "data_ok n d' \<and> all_caches d' = all_caches d"
  using assms(2,1,3)
  by (elim insertE emptyE) (auto simp: fake_defs Let_def data_ok_def all_caches_def split: prod.splits dest!: unit_ok_pushO)

lemma start_data: "data_ok 8 (main_data env fl (main_config fl localConfig_new))"
proof -
  let ?cfg = "main_config fl localConfig_new"
  have n: "lc_roadNum ?cfg = 8" using main_config_wf by (simp add: cfg_wf_def)
  have "data_ok (lc_roadNum ?cfg) (Data_instance ?cfg (se_matrixNo env) (se_plateId env))"
    by (intro data_ok_instance) (simp add: n)
  then show ?thesis unfolding n by (simp add: main_data_def data_ok_def)
qed

lemma main_start_state:
  "main_start env fl bs equips = Some p \<Longrightarrow> ps_cfg (pr_state p) = main_config fl localConfig_new \<and>
     ps_data (pr_state p) = main_data env fl (main_config fl localConfig_new)"
  by (auto simp: main_start_def Let_def split: prod.splits option.splits)

lemma cfg_wf_view:
  "cfg\<lparr>lc_isSendPIC := False\<rparr> = cfg'\<lparr>lc_isSendPIC := False\<rparr> \<Longrightarrow> cfg_wf cfg = cfg_wf cfg'"
  by (cases cfg; cases cfg') (simp add: cfg_wf_def)

lemma run_events_wf:
  "run_events k es st = Inr st' \<Longrightarrow> cfg_wf (ps_cfg st) \<Longrightarrow> data_ok 8 (ps_data st) \<Longrightarrow> cfg_wf (ps_cfg st') \<and> data_ok 8 (ps_data st')"
proof (induction k es st rule: run_events.induct)
  case (2 k env c pkg es st)
  obtain r c' s where d: "dispatch env c pkg st = Inr (r, c', s)" and rest: "run_events k es s = Inr st'"
    using "2.prems"(1) by (auto split: sum.splits)
  have n: "lc_roadNum (ps_cfg st) = 8" using "2.prems"(2) by (simp add: cfg_wf_def)
  have "cfg_wf (ps_cfg s)" using dispatch_view[OF d] cfg_wf_view "2.prems"(2) unfolding fixed_view_def by blast
  moreover have "data_ok 8 (ps_data s)"
    using run_packets_ok[of st "[(env, c, pkg)]" s] n "2.prems"(3) d by simp
  ultimately show ?case using "2.IH"[OF d refl refl rest] by blast
next
  case (3 k uuid msg es st)
  then show ?case using consume_round_data[of k uuid msg "ps_data st"] by (auto split: sum.splits)
qed simp

text \<open>
  C6. Whatever the command line and the databases say: if the program starts, its configuration is one with
  which the rates and limits can be used, every unit of the data object has one cache for each of the eight
  roads, and both stay so while packets of any connections and stage messages are processed in any order.
\<close>
theorem program_stays_wf:
  assumes "main_start env fl bs equips = Some p" and "run_events k es (pr_state p) = Inr st"
  shows "cfg_wf (ps_cfg st) \<and> data_ok 8 (ps_data st)"
  using run_events_wf[OF assms(2)] main_start_state[OF assms(1)] main_config_wf start_data by simp

lemma keep_after_run:
  fixes lb :: LocalBusiness
  assumes "lb_clientList lb \<noteq> []" and "lb' = Task_Keep (\<lambda>_. True) (\<lambda>_. Connected) (LocalBusiness_Run bind conn lb)"
  shows "map (\<lambda>(name, s). (name, sv_port s)) (lb_serverList lb') = map (\<lambda>(name, s). (name, sv_port s)) (lb_serverList lb)"
    and "map fst (lb_clientList lb') = map fst (lb_clientList lb)"
    and "\<forall>s \<in> set (lb_serverList lb'). sv_isListen (snd s)"
    and "\<forall>c \<in> set (lb_clientList lb'). \<not> cl_isNeedReconnect (snd c)"
proof -
  have lb': "lb_serverList lb' = map (\<lambda>(name, s). (name, s\<lparr>sv_isListen := True\<rparr>)) (lb_serverList lb)"
    using assms by (auto simp: Task_Keep_def LocalBusiness_Run_def MyTcpServer_ReOpen_def split: if_splits)
  have cl: "lb_clientList lb' = map (\<lambda>(name, c). (name, let c = snd (client_Run (snd (client_Open (conn name) c)))
      in if cl_isNeedReconnect c then snd (client_Reconnect Connected c) else c)) (lb_clientList lb)"
    using assms by (auto simp: Task_Keep_def LocalBusiness_Run_def Let_def)
  show "map (\<lambda>(name, s). (name, sv_port s)) (lb_serverList lb') = map (\<lambda>(name, s). (name, sv_port s)) (lb_serverList lb)"
    "map fst (lb_clientList lb') = map fst (lb_clientList lb)"
    "\<forall>s \<in> set (lb_serverList lb'). sv_isListen (snd s)" unfolding lb' cl by auto
  show "\<forall>c \<in> set (lb_clientList lb'). \<not> cl_isNeedReconnect (snd c)"
    unfolding cl by (auto simp: client_Reconnect_def Let_def split: if_splits)
qed

lemma main_business_lists:
  assumes "lc_mode cfg = fl_mode fl" and "fl_mode fl \<in> {0, 1, 2}" and "main_business fl cfg cloud buff = (lb, peers)"
  shows "map (\<lambda>(name, s). (name, sv_port s)) (lb_serverList lb) =
      [(name, port) \<leftarrow> [(''server1'', fl_port fl mod 2 ^ 16), (''server2'', fl_port fl mod 2 ^ 16 + 1)].
        fl_mode fl = 0 \<or> (fl_mode fl = 1) = (name = ''server1'')]"
    and "map fst (lb_clientList lb) = [''client1'', ''client2'']" and "map fst peers = [''client1'', ''client2'']"
proof -
  have u: "uint (word_of_int (fl_port fl) :: u16) = fl_port fl mod 2 ^ 16" by (simp add: uint_word_of_int)
  show "map (\<lambda>(name, s). (name, sv_port s)) (lb_serverList lb) =
      [(name, port) \<leftarrow> [(''server1'', fl_port fl mod 2 ^ 16), (''server2'', fl_port fl mod 2 ^ 16 + 1)].
        fl_mode fl = 0 \<or> (fl_mode fl = 1) = (name = ''server1'')]"
    "map fst (lb_clientList lb) = [''client1'', ''client2'']" "map fst peers = [''client1'', ''client2'']"
    using assms by (auto simp: main_business_def AddServer_def AddClient_def LocalBusiness_new_def u Let_def split: prod.splits)
qed

text \<open>
  C24. The program listens and connects as its command line and the database say: \<open>server1\<close> at the port in
  the modes 0 and 1, \<open>server2\<close> at the next one in the modes 0 and 2, and two clients to the cloud. A client
  that could not connect is left to be reconnected, and where a port could not be bound the server does not
  listen; after one round of \<open>Task_Keep\<close> with the network up all of them are.
\<close>
theorem start_then_keep:
  assumes "main_start env fl bs equips = Some p" and "fl_mode fl \<in> {0, 1, 2}"
    and "lb = Task_Keep (\<lambda>_. True) (\<lambda>_. Connected) (pr_business p)"
  shows "map (\<lambda>(name, s). (name, sv_port s)) (lb_serverList lb) =
      [(name, port) \<leftarrow> [(''server1'', fl_port fl mod 2 ^ 16), (''server2'', fl_port fl mod 2 ^ 16 + 1)].
        fl_mode fl = 0 \<or> (fl_mode fl = 1) = (name = ''server1'')] \<and>
    map fst (lb_clientList lb) = [''client1'', ''client2''] \<and> map fst (pr_peers p) = [''client1'', ''client2''] \<and>
    (\<forall>s \<in> set (lb_serverList lb). sv_isListen (snd s)) \<and> (\<forall>c \<in> set (lb_clientList lb). \<not> cl_isNeedReconnect (snd c))"
proof -
  have mode: "lc_mode (main_config fl localConfig_new) = fl_mode fl" by (simp add: main_config_def Let_def)
  obtain lb0 peers where m: "main_business fl (main_config fl localConfig_new) (cloud_address fl bs) (se_buff env) = (lb0, peers)"
    by fastforce
  then have p: "pr_business p = LocalBusiness_Run (se_bind env) (se_conn env) lb0" "pr_peers p = peers"
    using assms(1) by (auto simp: main_start_def Let_def split: prod.splits option.splits)
  note l = main_business_lists[OF mode assms(2) m]
  have "lb_clientList lb0 \<noteq> []" using l(2) by auto
  from keep_after_run[OF this, of lb "se_bind env" "se_conn env"] show ?thesis
    using assms(3) l p by simp
qed

section \<open>Witnesses\<close>

definition demo_start :: start_env where
  "demo_start = \<lparr>se_bind = (\<lambda>_. False), se_conn = (\<lambda>_. Refused), se_sig_socket = 3, se_sig_bind = 0, se_kafka = True,
     se_buff = [], se_matrixNo = None, se_plateId = Some [''310115001'']\<rparr>"

definition demo_BaseSet :: DBBaseSet where
  "demo_BaseSet = \<lparr>bs_id = 0, bs_Index = 0, bs_City = [], bs_IsUploadToPlatform = 0, bs_Is4Gmodel = 0, bs_IsIllegalCapture = 0,
     bs_IsPrintIntersectionName = 0, bs_FilesServicePath = [], bs_FilesServicePort = 0, bs_MainDNS = [], bs_AlternateDNS = [],
     bs_PlatformTcpPath = [], bs_PlatformTcpPort = 0, bs_PlatformHttpPath = [], bs_PlatformHttpPort = 0, bs_SignalMachinePath = [],
     bs_SignalMachinePort = 0, bs_IsUseSignalMachine = 0, bs_NtpServerPath = [], bs_FusionMainboardIp = [],
     bs_FusionMainboardPort = 0, bs_IllegalPlatformAddress = [], bs_Remarks = []\<rparr>"

lemma demo_main_start:
  "\<exists>p k. main_start demo_start ((flags_default False)\<lparr>fl_isUseKafka := True\<rparr>) demo_BaseSet [''d1''] = Some p \<and> pr_kafka p = Some k"
proof -
  have d: "da_plateId (main_data demo_start fl cfg) = ''310115001''" for fl cfg
    by (simp add: main_data_def demo_start_def Data_instance_def getPlatId_def Let_def)
  have "se_kafka demo_start" by (simp add: demo_start_def)
  then have "\<exists>k. main_kafka demo_start ((flags_default False)\<lparr>fl_isUseKafka := True\<rparr>)
      (main_config ((flags_default False)\<lparr>fl_isUseKafka := True\<rparr>) localConfig_new) (main_data demo_start fl cfg) = Some (Some k)" for fl cfg
    by (simp add: main_kafka_def d KafkaConsumer_new_def substr_from_def KafkaConsumer_init_def main_config_def Let_def
        split: prod.split)
  then obtain k where k: "main_kafka demo_start ((flags_default False)\<lparr>fl_isUseKafka := True\<rparr>)
      (main_config ((flags_default False)\<lparr>fl_isUseKafka := True\<rparr>) localConfig_new)
      (main_data demo_start ((flags_default False)\<lparr>fl_isUseKafka := True\<rparr>)
        (main_config ((flags_default False)\<lparr>fl_isUseKafka := True\<rparr>) localConfig_new)) = Some (Some k)" by blast
  show ?thesis unfolding main_start_def Let_def k by (simp split: prod.split)
qed

theorem program_stays_wf_witness:
  "\<exists>p k st. main_start demo_start ((flags_default False)\<lparr>fl_isUseKafka := True\<rparr>) demo_BaseSet [''d1''] = Some p \<and> pr_kafka p = Some k \<and>
     run_events k [Poll ''u'' Poll_error, Packet demo_penv (Client_conn (client_new [])) (demo_pkg CmdStopLinePassData)] (pr_state p) = Inr st \<and>
     cfg_wf (ps_cfg st) \<and> data_ok 8 (ps_data st)"
proof -
  obtain p k where p: "main_start demo_start ((flags_default False)\<lparr>fl_isUseKafka := True\<rparr>) demo_BaseSet [''d1''] = Some p"
    "pr_kafka p = Some k" using demo_main_start by blast
  have "\<exists>r c st. dispatch demo_penv (Client_conn (client_new [])) (demo_pkg CmdStopLinePassData) (pr_state p) = Inr (r, c, st)"
    by (simp add: dispatch_def cmd_named_def PkgProcessMap_def PkgProcessFun_CmdStopLinePassData_def recv_store_def
        demo_dec_def Let_def split: prod.split)
  then obtain st where r: "run_events k [Poll ''u'' Poll_error, Packet demo_penv (Client_conn (client_new [])) (demo_pkg CmdStopLinePassData)]
      (pr_state p) = Inr st" by (auto simp: consume_round_def)
  from program_stays_wf[OF p(1) r] p r show ?thesis by blast
qed

theorem start_then_keep_witness:
  "\<exists>p. main_start demo_start ((flags_default False)\<lparr>fl_isUseKafka := True\<rparr>) demo_BaseSet [''d1''] = Some p \<and>
     map (\<lambda>(name, s). (name, sv_port s)) (lb_serverList (Task_Keep (\<lambda>_. True) (\<lambda>_. Connected) (pr_business p))) =
       [(''server1'', 9000), (''server2'', 9001)] \<and>
     map fst (lb_clientList (Task_Keep (\<lambda>_. True) (\<lambda>_. Connected) (pr_business p))) = [''client1'', ''client2'']"
proof -
  obtain p k where p: "main_start demo_start ((flags_default False)\<lparr>fl_isUseKafka := True\<rparr>) demo_BaseSet [''d1''] = Some p"
    "pr_kafka p = Some k" using demo_main_start by blast
  from start_then_keep[OF p(1) _ refl] p show ?thesis by (simp add: flags_default_def)
qed

end
