(* ===== verification/Replay.thy ===== *)
theory Replay
  imports Messages Os "HOL-Library.Multiset"
begin

text \<open>
  The reader of recorded data, \<open>getData/GetData.cpp\<close>: the files of a directory in the order of the camera
  times in their names, the words of the lines of one file, and the objects made of them. The content of
  the directory and of the file are parameters, as is \<open>atof\<close>. Among files of the same time the order of
  \<open>std::sort\<close> is open; the model keeps the one of the directory.
\<close>

section \<open>File names\<close>

text \<open>\<open>s.find(p)\<close>; \<open>None\<close> is \<open>npos\<close>, which the conversion to \<open>int\<close> and back leaves as it is.\<close>

definition find_str :: "string \<Rightarrow> string \<Rightarrow> nat option" where
  "find_str p s = find_index (\<lambda>k. take (length p) (drop k s) = p) [0..<Suc (length s)]"

abbreviation size_t :: "int \<Rightarrow> u64" where
  "size_t n \<equiv> word_of_int n"

definition getCameraTimestamp :: "string \<Rightarrow> string option" where
  "getCameraTimestamp s =
     (case (find_str ''_ct'' s, find_str ''_rt'' s) of
        (Some begin', Some end') \<Rightarrow> substr (size_t (int begin' + 3)) (size_t (int end' - (int begin' + 3))) s
      | _ \<Rightarrow> Some [])"

text \<open>\<open>atoll\<close> into a \<open>uint64_t\<close>; \<open>substr\<close> does not throw here, as \<open>getCameraTimestamp_Some\<close> shows.\<close>

definition camera_value :: "string \<Rightarrow> u64" where
  "camera_value s = (case getCameraTimestamp s of None \<Rightarrow> 0 | Some t \<Rightarrow> word_of_int (strtol t))"

definition compareTimestamp :: "string \<Rightarrow> string \<Rightarrow> bool" where
  "compareTimestamp a b \<longleftrightarrow> camera_value a < camera_value b"

definition GetFiles :: "(string \<times> bool) list option \<Rightarrow> string list \<Rightarrow> string list" where
  "GetFiles dir files =
     (case dir of None \<Rightarrow> files
      | Some es \<Rightarrow> files @ [name. (name, reg) \<leftarrow> es, name \<noteq> ''.'' \<and> name \<noteq> ''..'' \<and> reg])"

text \<open>Whether the loop erases a name: a marker is missing or one of the numbers is 0.\<close>

definition radar_value :: "nat \<Rightarrow> string \<Rightarrow> u64" where
  "radar_value end' s =
     (case substr (size_t (int end' + 3)) ((word_of_nat (length s) - 4) - size_t (int end' + 3)) s of
        None \<Rightarrow> 0 | Some t \<Rightarrow> word_of_int (strtol t))"

definition unqualified :: "string \<Rightarrow> bool" where
  "unqualified s \<longleftrightarrow>
     (case (find_str ''_ct'' s, find_str ''_rt'' s) of
        (Some begin', Some end') \<Rightarrow> camera_value s = 0 \<or> radar_value end' s = 0
      | _ \<Rightarrow> True)"

text \<open>The loop erases at \<open>i\<close> and still advances \<open>i\<close>.\<close>

function erase_from :: "nat \<Rightarrow> string list \<Rightarrow> string list" where
  "erase_from i files =
     (if i < length files then
        erase_from (Suc i) (if unqualified (files ! i) then take i files @ drop (Suc i) files else files)
      else files)"
  by pat_completeness auto
termination by (relation "measure (\<lambda>(i, files). length files - i)") auto

declare erase_from.simps [simp del]

record GetData =
  gd_path :: string
  gd_files :: "string list"
  gd_data :: "string list list"
  gd_obj :: "ObjTarget list"

definition GetData_new :: "string \<Rightarrow> GetData" where
  "GetData_new path = \<lparr>gd_path = path, gd_files = [], gd_data = [], gd_obj = []\<rparr>"

definition GetOrderListFileName :: "(string \<times> bool) list option \<Rightarrow> GetData \<Rightarrow> int \<times> GetData" where
  "GetOrderListFileName dir g =
     (let files = sort_key camera_value (erase_from 0 (GetFiles dir []))
      in (int (length files), g\<lparr>gd_files := files\<rparr>))"

section \<open>Lines and words\<close>

text \<open>An input stream: its rest, and the two bits of its state. One that did not open has failed.\<close>

record istream =
  is_rest :: string
  is_eof :: bool
  is_fail :: bool

definition open_file :: "string option \<Rightarrow> istream" where
  "open_file file = (case file of None \<Rightarrow> \<lparr>is_rest = [], is_eof = False, is_fail = True\<rparr>
     | Some content \<Rightarrow> \<lparr>is_rest = content, is_eof = False, is_fail = False\<rparr>)"

definition newline :: char where "newline = CHR 0x0A"

definition getline :: "istream \<Rightarrow> string option \<times> istream" where
  "getline s =
     (if is_fail s \<or> is_eof s then (None, s\<lparr>is_fail := True\<rparr>)
      else if is_rest s = [] then (None, s\<lparr>is_fail := True, is_eof := True\<rparr>)
      else let line = takeWhile (\<lambda>c. c \<noteq> newline) (is_rest s); rest = dropWhile (\<lambda>c. c \<noteq> newline) (is_rest s)
           in (Some line, s\<lparr>is_rest := tl rest, is_eof := (rest = [])\<rparr>))"

function words :: "string \<Rightarrow> string list" where
  "words s = (let s = dropWhile isspace s in if s = [] then [] else
     takeWhile (\<lambda>c. \<not> isspace c) s # words (dropWhile (\<lambda>c. \<not> isspace c) s))"
  by pat_completeness auto
termination
proof (relation "measure length")
  fix s s' :: string assume s': "s' = dropWhile isspace s" "s' \<noteq> []"
  then have "\<not> isspace (hd s')" using hd_dropWhile by metis
  then have "length (dropWhile (\<lambda>c. \<not> isspace c) s') < length s'"
    using s'(2) length_dropWhile_le by (cases s') (auto simp: less_Suc_eq_le)
  then show "(dropWhile (\<lambda>c. \<not> isspace c) s', s) \<in> measure length"
    using length_dropWhile_le[of isspace s] s'(1) by simp
qed simp

declare words.simps [simp del]

partial_function (option) read_rows :: "istream \<Rightarrow> string list list \<Rightarrow> string list list option" where
  "read_rows s data =
     (if is_eof s then Some data
      else case getline s of
             (Some line, s') \<Rightarrow> read_rows s' (data @ [words line])
           | (None, s') \<Rightarrow> read_rows s' data)"

definition GetDataFromOneFile :: "string option \<Rightarrow> GetData \<Rightarrow> (int \<times> GetData) option" where
  "GetDataFromOneFile file g =
     (case read_rows (open_file file) [] of
        None \<Rightarrow> None | Some data \<Rightarrow> Some (int (length data), g\<lparr>gd_data := data\<rparr>))"

section \<open>Objects\<close>

text \<open>
  The columns a row has, in their order. \<open>objID\<close> is a text to which an \<open>int\<close> is assigned: it becomes the
  one character with that code.
\<close>

definition set_column :: "(string \<Rightarrow> real) \<Rightarrow> nat \<Rightarrow> string \<Rightarrow> ObjTarget \<Rightarrow> ObjTarget" where
  "set_column atof index s item =
     (if index = 0 then item\<lparr>ot_objID := [char_of (nat (atoi s mod 256))]\<rparr>
      else if index = 1 then item\<lparr>ot_objCameraID := atoi s\<rparr>
      else if index = 2 then item\<lparr>ot_left := atoi s\<rparr>
      else if index = 3 then item\<lparr>ot_top := atoi s\<rparr>
      else if index = 4 then item\<lparr>ot_right := atoi s\<rparr>
      else if index = 5 then item\<lparr>ot_bottom := atoi s\<rparr>
      else if index = 6 then item\<lparr>ot_locationX := atof s\<rparr>
      else if index = 7 then item\<lparr>ot_locationY := atof s\<rparr>
      else if index = 8 then item\<lparr>ot_directionAngle := atof s\<rparr>
      else if index = 9 then item\<lparr>ot_distance := s\<rparr> else item)"

definition row_object :: "(string \<Rightarrow> real) \<Rightarrow> string list \<Rightarrow> ObjTarget" where
  "row_object atof row = fold (\<lambda>index item. if index + 1 \<le> length row then set_column atof index (row ! index) item else item)
     [0..<10] ObjTarget_new"

definition GetObjFromData :: "(string \<Rightarrow> real) \<Rightarrow> string list list \<Rightarrow> GetData \<Rightarrow> int \<times> GetData" where
  "GetObjFromData atof data g = (let obj = map (row_object atof) data in (int (length obj), g\<lparr>gd_obj := obj\<rparr>))"

section \<open>Names that are kept\<close>

lemma find_str_SomeD: "find_str p s = Some k \<Longrightarrow> k \<le> length s \<and> take (length p) (drop k s) = p"
  unfolding find_str_def by (drule find_index_SomeD) (auto simp: nth_append split: if_splits)

lemma find_str_bound:
  assumes "find_str p s = Some k"
  shows "k + length p \<le> length s"
proof -
  have "length (take (length p) (drop k s)) = length p"
    by (rule arg_cong[where f = length]) (rule conjunct2[OF find_str_SomeD[OF assms]])
  then have "min (length s - k) (length p) = length p" by (simp only: length_take length_drop)
  then show ?thesis using conjunct1[OF find_str_SomeD[OF assms]] by linarith
qed

text \<open>The names of a directory are short: the positions fit the types they are stored in.\<close>

lemma getCameraTimestamp_Some:
  assumes "length s < 2 ^ 31"
  shows "getCameraTimestamp s \<noteq> None"
proof -
  have "unat (size_t (int k + 3)) = k + 3" if "k + 3 \<le> length s" for k
  proof -
    have "size_t (int k + 3) = word_of_nat (k + 3)" by simp
    also have "unat \<dots> = k + 3" unfolding unat_of_nat using that assms by (intro mod_less) simp
    finally show ?thesis .
  qed
  then have "\<not> length s < unat (size_t (int k + 3))" if "find_str ''_ct'' s = Some k" for k
    using find_str_bound[OF that] by simp
  then show ?thesis by (auto simp: getCameraTimestamp_def substr_def split: option.splits)
qed

text \<open>The loop read off the list: after a name that leaves, the next one is not looked at.\<close>

fun erase_list :: "string list \<Rightarrow> string list" where
  "erase_list [] = []"
| "erase_list [x] = (if unqualified x then [] else [x])"
| "erase_list (x # y # ys) = (if unqualified x then y # erase_list ys else x # erase_list (y # ys))"

lemma erase_from_list: "length pre = i \<Longrightarrow> erase_from i (pre @ fs) = pre @ erase_list fs"
proof (induction fs arbitrary: pre i rule: erase_list.induct)
  case (1 pre)
  then show ?case by (subst erase_from.simps) simp
next
  case (2 x pre)
  then have "(pre @ [x]) ! i = x" by (simp add: nth_append)
  with 2 show ?case by (subst erase_from.simps) (simp add: erase_from.simps)
next
  case (3 x y ys pre)
  show ?case
  proof (cases "unqualified x")
    case True
    then have "erase_from i (pre @ x # y # ys) = erase_from (Suc i) ((pre @ [y]) @ ys)"
      using "3.prems" by (subst erase_from.simps) (simp add: nth_append)
    then show ?thesis using 3(1)[OF True, of "pre @ [y]" "Suc i"] "3.prems" True by simp
  next
    case False
    then have "erase_from i (pre @ x # y # ys) = erase_from (Suc i) ((pre @ [x]) @ y # ys)"
      using "3.prems" by (subst erase_from.simps) (simp add: nth_append)
    then show ?thesis using 3(2)[OF False, of "pre @ [x]" "Suc i"] "3.prems" False by simp
  qed
qed

lemma erase_list_qualified: "filter (\<lambda>f. \<not> unqualified f) (erase_list fs) = filter (\<lambda>f. \<not> unqualified f) fs"
  by (induction fs rule: erase_list.induct) auto

lemma erase_list_clean:
  "successively (\<lambda>x y. \<not> (unqualified x \<and> unqualified y)) fs \<Longrightarrow> erase_list fs = filter (\<lambda>f. \<not> unqualified f) fs"
proof (induction fs rule: erase_list.induct)
  case (3 x y ys)
  then show ?case by (cases ys) auto
qed auto

text \<open>
  The list of files is in the order of the camera times in the names and keeps every file of the directory
  whose name has both times. It keeps others too, since a name after an erased one is not looked at, but
  none where no two such names are next to each other in the directory.
\<close>
lemma replay_order:
  assumes "GetOrderListFileName dir g = (n, g')" and "names = GetFiles dir []"
  shows "n = int (length (gd_files g')) \<and> sorted_wrt (\<lambda>a b. \<not> compareTimestamp b a) (gd_files g') \<and>
    {# f \<in># mset (gd_files g'). \<not> unqualified f #} = {# f \<in># mset names. \<not> unqualified f #} \<and>
    (successively (\<lambda>x y. \<not> (unqualified x \<and> unqualified y)) names \<longrightarrow>
      mset (gd_files g') = {# f \<in># mset names. \<not> unqualified f #})"
proof -
  have e: "erase_from 0 names = erase_list names" using erase_from_list[of "[]" 0 names] by simp
  have f: "n = int (length (gd_files g'))" "gd_files g' = sort_key camera_value (erase_list names)"
    using assms e by (auto simp: GetOrderListFileName_def Let_def)
  have "sorted (map camera_value (gd_files g'))" unfolding f(2) by (rule sorted_sort_key)
  then have "sorted_wrt (\<lambda>a b. \<not> compareTimestamp b a) (gd_files g')"
    by (simp add: sorted_wrt_map compareTimestamp_def not_less)
  moreover have "{# f \<in># mset (gd_files g'). \<not> unqualified f #} = {# f \<in># mset names. \<not> unqualified f #}"
    using erase_list_qualified[of names] unfolding f(2) by (metis mset_filter mset_sort)
  moreover have "mset (gd_files g') = {# f \<in># mset names. \<not> unqualified f #}"
    if "successively (\<lambda>x y. \<not> (unqualified x \<and> unqualified y)) names"
    using erase_list_clean[OF that] unfolding f(2) by (metis mset_filter mset_sort)
  ultimately show ?thesis using f(1) by blast
qed

section \<open>Reading a file\<close>

lemma getlines_tl:
  "s \<noteq> [] \<Longrightarrow> getlines d s = takeWhile (\<lambda>c. c \<noteq> d) s # getlines d (tl (dropWhile (\<lambda>c. c \<noteq> d) s))"
  by (subst getlines.simps) simp

lemma read_rows_open:
  "\<not> is_fail s \<Longrightarrow> (is_eof s \<Longrightarrow> is_rest s = []) \<Longrightarrow>
    read_rows s data = Some (data @ map words (getlines newline (is_rest s)))"
proof (induction "length (is_rest s)" arbitrary: s data rule: less_induct)
  case less
  show ?case
  proof (cases "is_eof s \<or> is_rest s = []")
    case True
    have "read_rows s' data = Some data" if "is_eof s'" for s' using that by (subst read_rows.simps) simp
    then show ?thesis using less.prems True by (subst read_rows.simps) (auto simp: getline_def)
  next
    case False
    let ?rest = "dropWhile (\<lambda>c. c \<noteq> newline) (is_rest s)"
    let ?s = "s\<lparr>is_rest := tl ?rest, is_eof := (?rest = [])\<rparr>"
    have "length (tl ?rest) < length (is_rest s)"
    proof -
      have "length (tl r) < length x" if "length r \<le> length x" "x \<noteq> []" for r x :: string using that by (cases r) auto
      then show ?thesis using False length_dropWhile_le by blast
    qed
    note shorter = this
    have "read_rows ?s (data @ [words (takeWhile (\<lambda>c. c \<noteq> newline) (is_rest s))]) =
        Some ((data @ [words (takeWhile (\<lambda>c. c \<noteq> newline) (is_rest s))]) @ map words (getlines newline (is_rest ?s)))"
    proof (rule less.hyps)
      show "length (is_rest ?s) < length (is_rest s)" using shorter by simp
      have "is_eof ?s = (?rest = [])" "is_rest ?s = tl ?rest" by simp_all
      then show "is_eof ?s \<Longrightarrow> is_rest ?s = []" by (metis list.sel(2))
    qed (use less.prems(1) in simp)
    then show ?thesis
      using False less.prems by (subst read_rows.simps) (simp add: getline_def getlines_tl[of "is_rest s"] Let_def)
  qed
qed

lemma read_rows_failed:
  assumes "is_fail s" and "\<not> is_eof s"
  shows "read_rows s data = None"
proof -
  have "is_fail s \<longrightarrow> is_eof s" if "read_rows s data = Some rows" for rows
    by (rule read_rows.raw_induct[where P = "\<lambda>s data rows. is_fail s \<longrightarrow> is_eof s", OF _ that])
      (fastforce simp: getline_def split: if_splits option.splits)
  then show ?thesis using assms by (cases "read_rows s data") auto
qed

text \<open>
  \<open>GetDataFromOneFile\<close> gives the words of every line of the file, and their number. On a file that
  cannot be opened it never returns: the loop ends with the end of the stream only, and a stream that has
  failed does not come to it.
\<close>
lemma replay_reads:
  "GetDataFromOneFile file g =
    (case file of None \<Rightarrow> None
     | Some content \<Rightarrow> let rows = map words (getlines newline content) in Some (int (length rows), g\<lparr>gd_data := rows\<rparr>))"
  using read_rows_open[of "open_file file" "[]"] read_rows_failed[of "open_file file" "[]"]
  by (cases "file") (auto simp: GetDataFromOneFile_def open_file_def Let_def split: option.split)

text \<open>The assignment of the number to the text keeps one character.\<close>

lemma row_object_id: "row \<noteq> [] \<Longrightarrow> ot_objID (row_object atof row) = [char_of (nat (atoi (row ! 0) mod 256))]"
  by (cases row) (simp_all add: row_object_def set_column_def eval_nat_numeral upt_rec del: upt_Suc)

lemma replay_order_witness:
  "map_prod id gd_files (GetOrderListFileName (Some [(''x'', True), (''y'', True), (''m_ct20_rt7.txt'', True), (''m_ct9_rt7.txt'', True)])
     (GetData_new [])) = (3, [''y'', ''m_ct9_rt7.txt'', ''m_ct20_rt7.txt'']) \<and>
   sorted_wrt (\<lambda>a b. \<not> compareTimestamp b a) [''y'', ''m_ct9_rt7.txt'', ''m_ct20_rt7.txt'']"
proof -
  let ?dir = "Some [(''x'', True), (''y'', True), (''m_ct20_rt7.txt'', True), (''m_ct9_rt7.txt'', True)]"
  have r: "map_prod id gd_files (GetOrderListFileName ?dir (GetData_new [])) = (3, [''y'', ''m_ct9_rt7.txt'', ''m_ct20_rt7.txt''])"
    by code_simp
  obtain n g' where g: "GetOrderListFileName ?dir (GetData_new []) = (n, g')" by fastforce
  from replay_order[OF g refl] r show ?thesis unfolding g by simp
qed

end
