(* ===== verification/Host.thy ===== *)
theory Host
  imports Os
begin

text \<open>
  The helpers of \<open>os/os.cpp\<close> that ask the system: commands, files, the directory, processor, memory, disks
  and addresses; the thread of \<open>glogHelper/GlogHelper.cpp\<close> that deletes old log files; and the counters of
  \<open>monitor/PacketLoss.hpp\<close>. What the system answers is a parameter.
\<close>

section \<open>Commands\<close>

text \<open>What \<open>fgets(buffer, n, stream)\<close> takes of the rest of a stream: at most one line and \<open>n - 1\<close> characters.\<close>

fun fgets :: "nat \<Rightarrow> string \<Rightarrow> string \<times> string" where
  "fgets n [] = ([], [])"
| "fgets n (c # cs) =
     (if n \<le> 1 then ([], c # cs) else if c = CHR 0x0A then ([c], cs)
      else let (line, rest) = fgets (n - 1) cs in (c # line, rest))"

lemma fgets_parts: "fgets n s = (line, rest) \<Longrightarrow> s = line @ rest"
  by (induction n s arbitrary: line rule: fgets.induct) (auto split: if_splits prod.splits)

lemma fgets_progress: "2 \<le> n \<Longrightarrow> s \<noteq> [] \<Longrightarrow> fst (fgets n s) \<noteq> []"
  by (cases s) (auto split: prod.splits)

text \<open>The loop of \<open>runCmd\<close>: the buffer of 1024 characters is appended as a C string.\<close>

function read_output :: "string \<Rightarrow> string" where
  "read_output s = (if s = [] then [] else let (line, rest) = fgets 1024 s in c_str line @ read_output rest)"
  by pat_completeness auto
termination
proof (relation "measure length")
  fix s :: string and x line rest assume s: "s \<noteq> []" "x = fgets 1024 s" "(line, rest) = x"
  have "fst (fgets 1024 s) \<noteq> []" by (rule fgets_progress) (use s in simp_all)
  then have "line \<noteq> []" unfolding s(2)[symmetric] s(3)[symmetric] by simp
  then show "(rest, s) \<in> measure length" using fgets_parts[of 1024 s line rest] s(2,3) by simp
qed simp

declare read_output.simps [simp del]

text \<open>\<open>popen\<close>: the error number, or what the command prints and its exit status.\<close>

datatype popened = Popen_failed int | Popened string int

definition runCmd :: "(string \<Rightarrow> popened) \<Rightarrow> string \<Rightarrow> bool \<Rightarrow> string \<Rightarrow> int \<times> string" where
  "runCmd popen command redirect_stderr output =
     (case popen (if redirect_stderr then command @ '' 2>&1'' else command) of
        Popen_failed errno \<Rightarrow> (if errno = 0 then - 1 else errno, output)
      | Popened out status \<Rightarrow> (status, output @ read_output out))"

definition isProcessRun :: "(string \<Rightarrow> popened) \<Rightarrow> string \<Rightarrow> bool" where
  "isProcessRun popen proc =
     (let output = snd (runCmd popen (''ps -C '' @ proc @ '' |wc -l'') False [])
      in output \<noteq> [] \<and> 1 < atoi output)"

definition cpuUtilizationRatio :: "(string \<Rightarrow> popened) \<Rightarrow> (string \<Rightarrow> real) \<Rightarrow> string \<Rightarrow> real" where
  "cpuUtilizationRatio popen atof cmd =
     100 - atof (Trim CHR '' '' (snd (runCmd popen cmd False [])))"

text \<open>
  A command without a NUL in what it prints is read whole, whatever the length of its lines.
\<close>

lemma read_output_id: "CHR 0x00 \<notin> set s \<Longrightarrow> read_output s = s"
proof (induction s rule: read_output.induct)
  case (1 s)
  obtain line rest where f: "fgets 1024 s = (line, rest)" by fastforce
  have s: "s = line @ rest" by (rule fgets_parts[OF f])
  have "c_str line = line" using 1(2) s by (auto simp: c_str_def takeWhile_eq_all_conv)
  then show ?case using 1(1)[OF _ f[symmetric] refl] 1(2) s f by (subst read_output.simps) auto
qed

section \<open>Files\<close>

type_synonym disk = "string \<Rightarrow> bytes option"

definition GetVectorFromFile :: "disk \<Rightarrow> string \<Rightarrow> bytes \<Rightarrow> int \<times> bytes" where
  "GetVectorFromFile fs filePath array =
     (case fs filePath of Some content \<Rightarrow> (0, array @ content) | None \<Rightarrow> (- 1, array))"

definition GetFileFromVector :: "(string \<Rightarrow> bool) \<Rightarrow> bytes \<Rightarrow> string \<Rightarrow> disk \<Rightarrow> int \<times> disk" where
  "GetFileFromVector can_open array filePath fs =
     (if can_open filePath then (0, fs(filePath \<mapsto> array)) else (- 1, fs))"

lemma file_roundtrip:
  "can_open path \<Longrightarrow> GetVectorFromFile (snd (GetFileFromVector can_open array path fs)) path [] = (0, array)"
  by (simp add: GetVectorFromFile_def GetFileFromVector_def)

text \<open>A directory, if it opens: the names with whether they are regular files.\<close>

definition GetDirFiles :: "(string \<times> bool) list option \<Rightarrow> string list \<Rightarrow> string list" where
  "GetDirFiles dir array =
     (case dir of None \<Rightarrow> array
      | Some es \<Rightarrow> array @ map fst (filter (\<lambda>(name, reg). \<not> (name = ''.'' \<or> name = ''..'') \<and> reg) es))"

section \<open>The machine\<close>

definition cpuTemperature :: "string option \<Rightarrow> real" where
  "cpuTemperature content =
     (case content of None \<Rightarrow> 0
      | Some s \<Rightarrow> real_of_int (case parse_int s of None \<Rightarrow> 0 | Some temp \<Rightarrow> to_i32 temp) / 1000)"

text \<open>
  \<open>sscanf(buf, "%s%d", name, &n)\<close>: the first word goes to an array of 20 characters, \<open>None\<close> where it does
  not fit with its NUL; the number behind it, where there is one, to \<open>n\<close>.
\<close>

definition scan_entry :: "string \<Rightarrow> int \<Rightarrow> int option" where
  "scan_entry buf n =
     (let s = dropWhile isspace (c_str buf); word = takeWhile (\<lambda>c. \<not> isspace c) s; rest = drop (length word) s
      in if 20 \<le> length word then None
         else Some (case parse_int rest of None \<Rightarrow> n | Some m \<Rightarrow> if word = [] then n else to_i32 m))"

definition kib_to_mib :: "int \<Rightarrow> int" where
  "kib_to_mib n = trunc_real (real_of_int n / 1024)"

fun fgets_lines :: "nat \<Rightarrow> nat \<Rightarrow> string \<Rightarrow> string list" where
  "fgets_lines 0 n s = []"
| "fgets_lines (Suc k) n s = (if s = [] then [] else let (line, rest) = fgets n s in line # fgets_lines k n rest)"

text \<open>\<open>memoryInfo\<close> on the text of \<open>/proc/meminfo\<close>; \<open>None\<close> is the overrun of \<open>name\<close>.\<close>

definition memoryInfo :: "string option \<Rightarrow> int \<times> int \<Rightarrow> (int \<times> int \<times> int) option" where
  "memoryInfo meminfo old =
     (case meminfo of None \<Rightarrow> Some (- 1, old)
      | Some s \<Rightarrow>
          let bufs = fgets_lines 5 128 s
          in if length bufs < 5 then Some (- 1, old)
             else case (scan_entry (bufs ! 0) (- 1), scan_entry (bufs ! 1) (- 1),
                        scan_entry (bufs ! 3) (- 1), scan_entry (bufs ! 4) (- 1)) of
                    (Some mem_total, Some mem_free, Some mem_buffers, Some mem_cached) \<Rightarrow>
                      Some (0, kib_to_mib mem_total, kib_to_mib mem_free)
                  | _ \<Rightarrow> None)"

record statfs =
  f_bsize :: u64
  f_blocks :: u64
  f_bfree :: u64
  f_bavail :: u64

definition dirInfo :: "(string \<Rightarrow> statfs option) \<Rightarrow> string \<Rightarrow> int \<times> int \<times> int" where
  "dirInfo statfs' dir =
     (case statfs' dir of
        Some d \<Rightarrow>
          let blocksize = f_bsize d; totalsize = blocksize * f_blocks d; freeDisk = f_bfree d * blocksize;
              mib = (\<lambda>w :: u64. to_i32 (trunc_real (double_of_u64 w / (1024 * 1024))))
          in (0, mib totalsize, mib freeDisk)
      | None \<Rightarrow> (- 1, 0, 0))"

text \<open>\<open>%02x\<close> of a byte.\<close>

definition hex_digit :: "nat \<Rightarrow> char" where
  "hex_digit d = ''0123456789abcdef'' ! d"

definition hex2 :: "u8 \<Rightarrow> string" where
  "hex2 b = [hex_digit (unat b div 16), hex_digit (unat b mod 16)]"

text \<open>An interface: whether its flags can be read and it is a loopback, and its hardware address if it has one.\<close>

record interface =
  if_flags :: "bool option"
  if_hwaddr :: "bytes option"

fun first_mac :: "interface list \<Rightarrow> string \<Rightarrow> int \<times> string" where
  "first_mac [] mac = (0, mac)"
| "first_mac (i # is) mac =
     (case if_flags i of
        None \<Rightarrow> (- 1, mac)
      | Some loopback \<Rightarrow>
          (case (loopback, if_hwaddr i) of
             (False, Some a) \<Rightarrow> (0, join_with CHR '':'' (map hex2 (take 6 a)))
           | _ \<Rightarrow> first_mac is mac))"

definition getMAC :: "bool \<Rightarrow> interface list option \<Rightarrow> string \<Rightarrow> int \<times> string" where
  "getMAC sock interfaces mac =
     (if \<not> sock then (- 1, mac) else case interfaces of None \<Rightarrow> (- 1, mac) | Some is \<Rightarrow> first_mac is mac)"

text \<open>The addresses of the interfaces, \<open>None\<close> for one that has none or not one of IPv4.\<close>

definition getIpaddr :: "(string \<times> string option) list \<Rightarrow> string \<times> string \<Rightarrow> string \<times> string" where
  "getIpaddr interfaces = (\<lambda>ips. foldl (\<lambda>(ethIp, n2nIp) (name, a). case a of
       None \<Rightarrow> (ethIp, n2nIp)
     | Some ip \<Rightarrow> if name = ''eth0'' then (ip, n2nIp) else if name = ''n2n0'' then (ethIp, ip) else (ethIp, n2nIp))
     ips interfaces)"

lemma getIpaddr_last:
  "fst (getIpaddr interfaces (eth, n2n)) = last (eth # [ip. (name, Some ip) \<leftarrow> interfaces, name = ''eth0''])"
  by (induction interfaces arbitrary: eth n2n rule: list.induct) (auto simp: getIpaddr_def split: option.split)

section \<open>Deleting old logs\<close>

record GlogHelper =
  gh_keepDays :: u32
  gh_program :: string
  gh_logDir :: string

text \<open>
  The constructor sets the members and the flags of glog, whose set-up is left out, and starts the thread.
\<close>

record glog_flags =
  FLAGS_log_dir :: string
  FLAGS_logbufsecs :: int
  FLAGS_max_log_size :: nat
  FLAGS_stop_logging_if_full_disk :: bool
  FLAGS_logtostdout :: bool

definition GlogHelper_new :: "string \<Rightarrow> u32 \<Rightarrow> string \<Rightarrow> bool \<Rightarrow> glog_flags \<Rightarrow> GlogHelper \<times> glog_flags" where
  "GlogHelper_new prog keep logDir isSendSTDOUT flags =
     (let flags = flags\<lparr>FLAGS_log_dir := logDir, FLAGS_logbufsecs := 0, FLAGS_max_log_size := 300,
                        FLAGS_stop_logging_if_full_disk := True\<rparr>;
          flags = (if isSendSTDOUT then flags\<lparr>FLAGS_logtostdout := True\<rparr> else flags)
      in (\<lparr>gh_keepDays = keep, gh_program = prog, gh_logDir = logDir\<rparr>, flags))"

text \<open>
  \<open>FatalMessageDump\<close>, the failure writer: a piece of \<open>size\<close> characters is appended to \<open>fatal.log\<close> and then
  logged as fatal, which ends the process. glog calls the writer for every line of a dump.
\<close>

datatype 'a process = Going 'a | Ended 'a

definition FatalMessageDump :: "string \<Rightarrow> nat \<Rightarrow> string \<Rightarrow> string process" where
  "FatalMessageDump data n file = Ended (file @ take n data)"

fun fatal_dump :: "string list \<Rightarrow> string \<Rightarrow> string process" where
  "fatal_dump [] file = Going file"
| "fatal_dump (line # rest) file =
     (case FatalMessageDump line (length line) file of Going file \<Rightarrow> fatal_dump rest file | Ended file \<Rightarrow> Ended file)"

text \<open>So of a dump only the first line is written.\<close>

lemma fatal_dump_first: "lines \<noteq> [] \<Longrightarrow> fatal_dump lines file = Ended (file @ hd lines)"
  by (cases lines) (simp_all add: FatalMessageDump_def)

text \<open>
  A round of the thread: the files for which \<open>remove\<close> is called. \<open>stat\<close> gives the time of the last change
  of a file's inode, which the code takes for its creation. The days are multiplied in 32 bits, and the
  age is compared as an unsigned number.
\<close>

definition keepSeconds :: "GlogHelper \<Rightarrow> u64" where
  "keepSeconds g = ucast (gh_keepDays g * 60 * 60 * 24)"

definition cleaner_round :: "GlogHelper \<Rightarrow> int \<Rightarrow> (string \<times> bool) list option \<Rightarrow> (string \<Rightarrow> int option) \<Rightarrow> string list" where
  "cleaner_round g now dir stat =
     (let files = GetDirFiles dir [];
          logs = filter (\<lambda>iter. startsWith iter (gh_program g @ ''.'')) files;
          old = filter (\<lambda>iter. case stat (gh_logDir g @ ''/'' @ iter) of
                  Some ctime \<Rightarrow> keepSeconds g < word_of_int (now - ctime) | None \<Rightarrow> False) logs
      in map (\<lambda>iter. gh_logDir g @ ''/'' @ iter) old)"

lemma u64_age:
  assumes "0 \<le> (now :: int)" "now < 2 ^ 62" "0 \<le> ctime" "ctime < 2 ^ 62"
  shows "uint (word_of_int (now - ctime) :: u64) = (if now < ctime then 2 ^ 64 + (now - ctime) else now - ctime)"
proof (cases "now < ctime")
  case True
  then have "(2 ^ 64 + (now - ctime)) mod 2 ^ 64 = 2 ^ 64 + (now - ctime)"
    using assms by (intro mod_pos_pos_trivial) auto
  then have "(now - ctime) mod 2 ^ 64 = 2 ^ 64 + (now - ctime)" unfolding mod_add_self1 .
  then show ?thesis using True unfolding uint_word_of_int by simp
next
  case False
  then show ?thesis using assms unfolding uint_word_of_int by (simp add: mod_pos_pos_trivial)
qed

text \<open>
  A round deletes exactly the regular files of the log directory whose name begins with the program's name
  and a dot and that have not changed for longer than the days to keep, and those whose time lies in the
  future, since the age is unsigned. Other files are never deleted.
\<close>
lemma cleaner_deletes:
  assumes "unat (gh_keepDays g) \<le> 49710" and "0 \<le> now" and "now < 2 ^ 62"
    and "\<forall>path ctime. stat path = Some ctime \<longrightarrow> 0 \<le> ctime \<and> ctime < 2 ^ 62"
  shows "path \<in> set (cleaner_round g now (Some es) stat) \<longleftrightarrow>
    (\<exists>rest ctime. path = gh_logDir g @ ''/'' @ gh_program g @ ''.'' @ rest \<and> (gh_program g @ ''.'' @ rest, True) \<in> set es \<and>
       gh_program g @ ''.'' @ rest \<noteq> ''.'' \<and> gh_program g @ ''.'' @ rest \<noteq> ''..'' \<and> stat path = Some ctime \<and>
       (now < ctime \<or> 86400 * int (unat (gh_keepDays g)) < now - ctime))"
proof -
  have "uint (gh_keepDays g * 60 * 60 * 24) = 86400 * int (unat (gh_keepDays g))"
  proof -
    have "gh_keepDays g * 60 * 60 * 24 = (word_of_nat (86400 * unat (gh_keepDays g)) :: u32)" by simp
    also have "unat \<dots> = 86400 * unat (gh_keepDays g)" unfolding unat_of_nat using assms(1) by (intro mod_less) simp
    finally show ?thesis by (simp only: uint_nat of_nat_mult of_nat_numeral)
  qed
  then have k: "uint (keepSeconds g) = 86400 * int (unat (gh_keepDays g))"
    unfolding keepSeconds_def by (subst uint_up_ucast) (simp_all add: is_up)
  have old: "keepSeconds g < word_of_int (now - ctime) \<longleftrightarrow> now < ctime \<or> 86400 * int (unat (gh_keepDays g)) < now - ctime"
    if "stat path = Some ctime" for ctime path
  proof -
    have "86400 * int (unat (gh_keepDays g)) \<le> 86400 * 49710" using assms(1) by linarith
    moreover have c: "0 \<le> ctime" "ctime < 2 ^ 62" using assms(4) that by auto
    moreover note u64_age[OF assms(2,3) c]
    ultimately show ?thesis using assms(2,3) unfolding word_less_alt k by (cases "now < ctime") simp_all
  qed
  have starts: "startsWith name (gh_program g @ ''.'') \<longleftrightarrow> (\<exists>rest. name = gh_program g @ ''.'' @ rest)" for name
  proof
    assume "startsWith name (gh_program g @ ''.'')"
    then have "name = (gh_program g @ ''.'') @ drop (length (gh_program g @ ''.'')) name"
      unfolding startsWith_def by (metis append_take_drop_id)
    then show "\<exists>rest. name = gh_program g @ ''.'' @ rest" unfolding append_assoc by blast
  qed (auto simp: startsWith_def)
  have mem: "path \<in> set (cleaner_round g now (Some es) stat) \<longleftrightarrow>
      (\<exists>name ctime. (name, True) \<in> set es \<and> name \<noteq> ''.'' \<and> name \<noteq> ''..'' \<and> startsWith name (gh_program g @ ''.'') \<and>
        path = gh_logDir g @ ''/'' @ name \<and> stat path = Some ctime \<and> keepSeconds g < word_of_int (now - ctime))"
    by (auto simp: cleaner_round_def GetDirFiles_def Let_def image_iff split: option.splits)
  show ?thesis unfolding mem starts
  proof (intro iffI; elim exE conjE)
    fix name ctime rest assume *: "(name, True) \<in> set es" "name \<noteq> ''.''" "name \<noteq> ''..''" "name = gh_program g @ ''.'' @ rest"
      "path = gh_logDir g @ ''/'' @ name" "stat path = Some ctime" "keepSeconds g < word_of_int (now - ctime)"
    from *(7)[unfolded old[OF *(6)]] show "\<exists>rest ctime. path = gh_logDir g @ ''/'' @ gh_program g @ ''.'' @ rest \<and>
       (gh_program g @ ''.'' @ rest, True) \<in> set es \<and> gh_program g @ ''.'' @ rest \<noteq> ''.'' \<and>
       gh_program g @ ''.'' @ rest \<noteq> ''..'' \<and> stat path = Some ctime \<and>
       (now < ctime \<or> 86400 * int (unat (gh_keepDays g)) < now - ctime)" using *(1-3,5,6) unfolding *(4) by metis
  next
    fix rest ctime assume *: "path = gh_logDir g @ ''/'' @ gh_program g @ ''.'' @ rest" "(gh_program g @ ''.'' @ rest, True) \<in> set es"
      "gh_program g @ ''.'' @ rest \<noteq> ''.''" "gh_program g @ ''.'' @ rest \<noteq> ''..''" "stat path = Some ctime"
      "now < ctime \<or> 86400 * int (unat (gh_keepDays g)) < now - ctime"
    from *(6)[folded old[OF *(5)]] show "\<exists>name ctime. (name, True) \<in> set es \<and> name \<noteq> ''.'' \<and> name \<noteq> ''..'' \<and>
       (\<exists>rest. name = gh_program g @ ''.'' @ rest) \<and> path = gh_logDir g @ ''/'' @ name \<and> stat path = Some ctime \<and>
       keepSeconds g < word_of_int (now - ctime)" using *(1-5) by metis
  qed
qed

definition demo_glog :: GlogHelper where
  "demo_glog = \<lparr>gh_keepDays = 5, gh_program = ''rv'', gh_logDir = ''.''\<rparr>"

lemma cleaner_deletes_witness:
  "''./rv.INFO.1'' \<in> set (cleaner_round demo_glog 1000000 (Some [(''rv.INFO.1'', True), (''rvs'', True)]) (\<lambda>_. Some 500000))"
proof -
  let ?stat = "\<lambda>_ :: string. Some (500000 :: int)"
  have "unat (gh_keepDays demo_glog) \<le> 49710" by (simp add: demo_glog_def)
  moreover have "\<forall>path ctime. ?stat path = Some ctime \<longrightarrow> 0 \<le> ctime \<and> ctime < 2 ^ 62" by simp
  ultimately show ?thesis
    by (subst cleaner_deletes) (simp_all add: demo_glog_def)
qed

section \<open>Packet loss\<close>

record PacketLoss =
  pl_loss :: u64
  pl_sum :: u64
  pl_success :: u64
  pl_ratioLoss :: real
  pl_ratioSuccess :: real
  pl_isInterval :: bool

text \<open>The constructor takes whether to clear the counters each time and does not use it.\<close>

definition PacketLoss_new :: "bool \<Rightarrow> PacketLoss" where
  "PacketLoss_new enableInterval = \<lparr>pl_loss = 0, pl_sum = 0, pl_success = 0, pl_ratioLoss = 0, pl_ratioSuccess = 0,
     pl_isInterval = True\<rparr>"

definition pl_Success :: "PacketLoss \<Rightarrow> PacketLoss" where
  "pl_Success p =
     (let p = p\<lparr>pl_sum := pl_sum p + 1, pl_success := pl_success p + 1\<rparr>
      in if pl_sum p = - 1 then p\<lparr>pl_sum := 0, pl_success := 0\<rparr> else p)"

definition pl_Fail :: "PacketLoss \<Rightarrow> PacketLoss" where
  "pl_Fail p =
     (let p = p\<lparr>pl_sum := pl_sum p + 1, pl_loss := pl_loss p + 1\<rparr>
      in if pl_sum p = - 1 then p\<lparr>pl_sum := 0, pl_loss := 0\<rparr> else p)"

definition pl_clear :: "PacketLoss \<Rightarrow> PacketLoss" where
  "pl_clear p = p\<lparr>pl_sum := 0, pl_loss := 0, pl_success := 0\<rparr>"

definition pl_Cal :: "PacketLoss \<Rightarrow> PacketLoss" where
  "pl_Cal p =
     (if pl_sum p \<noteq> 0 then
        let p = p\<lparr>pl_ratioLoss := double_of_u64 (pl_loss p) / double_of_u64 (pl_sum p),
                  pl_ratioSuccess := double_of_u64 (pl_success p) / double_of_u64 (pl_sum p)\<rparr>
        in if pl_isInterval p then pl_clear p else p
      else p)"

datatype pl_event = Pl_success | Pl_fail | Pl_cal

fun pl_step :: "pl_event \<Rightarrow> PacketLoss \<Rightarrow> PacketLoss" where
  "pl_step Pl_success p = pl_Success p"
| "pl_step Pl_fail p = pl_Fail p"
| "pl_step Pl_cal p = pl_Cal p"

text \<open>The packets since the last calculation, and the counters that count them.\<close>

definition pl_counts :: "pl_event list \<Rightarrow> PacketLoss \<Rightarrow> bool" where
  "pl_counts es p \<longleftrightarrow> pl_isInterval p \<and> pl_sum p = word_of_nat (length es) \<and>
     pl_loss p = word_of_nat (count_list es Pl_fail) \<and> pl_success p = word_of_nat (count_list es Pl_success)"

fun since_cal :: "pl_event list \<Rightarrow> pl_event list" where
  "since_cal [] = []"
| "since_cal (e # es) = (if Pl_cal \<in> set es then since_cal es else if e = Pl_cal then es else e # es)"

lemma since_cal_snoc: "since_cal (es @ [e]) = (if e = Pl_cal then [] else since_cal es @ [e])"
  by (induction es) auto

lemma since_cal_no: "Pl_cal \<notin> set (since_cal es)"
  by (induction es) auto

lemma count_two: "Pl_cal \<notin> set es \<Longrightarrow> count_list es Pl_fail + count_list es Pl_success = length es"
proof (induction es)
  case (Cons e es)
  then show ?case by (cases e) auto
qed simp

lemma u64_not_max:
  assumes "n < 2 ^ 64 - 1"
  shows "(word_of_nat n :: u64) \<noteq> - 1"
proof
  assume "(word_of_nat n :: u64) = - 1"
  also have "\<dots> = word_of_nat (2 ^ 64 - 1)" by simp
  finally have "unat (word_of_nat n :: u64) = unat (word_of_nat (2 ^ 64 - 1) :: u64)" by (rule arg_cong)
  then show False using assms unfolding unat_of_nat by simp
qed

lemma pl_run_counts:
  "length es < 2 ^ 64 - 1 \<Longrightarrow> pl_counts (since_cal es) (fold pl_step es (PacketLoss_new b))"
proof (induction es rule: rev_induct)
  case (snoc e es)
  let ?p = "fold pl_step es (PacketLoss_new b)"
  have c: "pl_counts (since_cal es) ?p" using snoc by simp
  have "length (since_cal es) \<le> length es" by (induction es) (auto simp: le_SucI)
  then have "Suc (length (since_cal es)) < 2 ^ 64 - 1" using snoc.prems by simp
  from u64_not_max[OF this] have n: "(word_of_nat (length (since_cal es)) :: u64) + 1 \<noteq> - 1" by (simp add: add.commute)
  show ?case
  proof (cases e)
    case Pl_cal
    have "pl_sum ?p = 0 \<Longrightarrow> since_cal es = []"
    proof -
      assume "pl_sum ?p = 0"
      then have "unat (word_of_nat (length (since_cal es)) :: u64) = 0" using c by (simp add: pl_counts_def)
      moreover have "length (since_cal es) < 2 ^ 64" using \<open>Suc (length (since_cal es)) < 2 ^ 64 - 1\<close> by simp
      ultimately show ?thesis unfolding unat_of_nat by simp
    qed
    then show ?thesis using c Pl_cal
      by (auto simp: since_cal_snoc pl_Cal_def pl_clear_def pl_counts_def Let_def)
  next
    case Pl_success
    then show ?thesis using c n
      by (simp add: since_cal_snoc pl_Success_def pl_counts_def Let_def add.commute)
  next
    case Pl_fail
    then show ?thesis using c n
      by (simp add: since_cal_snoc pl_Fail_def pl_counts_def Let_def add.commute)
  qed
qed (simp add: pl_counts_def PacketLoss_new_def)

text \<open>
  After a calculation, and as long as fewer than 2^64 - 1 events have been counted, the two ratios are those
  of the packets counted since the calculation before: the lost and the received ones over all of them.
\<close>
lemma packet_ratios:
  assumes "Suc (length es) < 2 ^ 64" and "seg = since_cal es" and "seg \<noteq> []"
    and "p = fold pl_step (es @ [Pl_cal]) (PacketLoss_new enableInterval)"
  shows "pl_ratioLoss p = count_list seg Pl_fail / length seg \<and> pl_ratioSuccess p = count_list seg Pl_success / length seg \<and>
    pl_ratioLoss p + pl_ratioSuccess p = 1 \<and> pl_sum p = 0 \<and> pl_loss p = 0 \<and> pl_success p = 0"
proof -
  let ?p = "fold pl_step es (PacketLoss_new enableInterval)"
  have c: "pl_counts seg ?p" using pl_run_counts[of es] assms(1,2) by simp
  have "length seg \<le> length es" unfolding assms(2) by (induction es) (auto simp: le_SucI)
  then have l: "length seg < 2 ^ 64" using assms(1) by simp
  have u: "double_of_u64 (word_of_nat n) = real n" if "n \<le> length seg" for n
  proof -
    have "unat (word_of_nat n :: u64) = n" unfolding unat_of_nat using that l by (intro mod_less) simp
    then show ?thesis unfolding double_of_u64_def uint_nat by simp
  qed
  have two: "count_list seg Pl_fail + count_list seg Pl_success = length seg"
    unfolding assms(2) by (rule count_two[OF since_cal_no])
  have "pl_sum ?p \<noteq> 0"
  proof
    assume "pl_sum ?p = 0"
    then have "double_of_u64 (word_of_nat (length seg)) = 0" using c by (simp add: pl_counts_def double_of_u64_def)
    then show False using u[of "length seg"] assms(3) by simp
  qed
  then have p: "pl_ratioLoss p = count_list seg Pl_fail / length seg" "pl_ratioSuccess p = count_list seg Pl_success / length seg"
    "pl_sum p = 0 \<and> pl_loss p = 0 \<and> pl_success p = 0"
    using c two unfolding assms(4)
    by (simp_all add: pl_Cal_def pl_clear_def pl_counts_def u Let_def)
  moreover have "real (count_list seg Pl_fail) / length seg + real (count_list seg Pl_success) / length seg = 1"
    using two assms(3) by (simp add: add_divide_distrib[symmetric] of_nat_add[symmetric] del: of_nat_add)
  ultimately show ?thesis by simp
qed

lemma packet_ratios_witness:
  "pl_ratioLoss (fold pl_step ([Pl_fail, Pl_cal, Pl_success, Pl_fail, Pl_success, Pl_success] @ [Pl_cal]) (PacketLoss_new False)) = 1 / 4"
  using packet_ratios[of "[Pl_fail, Pl_cal, Pl_success, Pl_fail, Pl_success, Pl_success]", OF _ refl _ refl, of False]
  by simp

text \<open>
  At the largest sum \<open>Fail\<close> clears the sum and the losses but not the successes, so that the ratio of the
  successes then exceeds 1.
\<close>

lemma packet_counts_skewed:
  assumes "pl_sum p = - 2" and "pl_success p = n" and "1 < n" and "pl_isInterval p"
  shows "1 < pl_ratioSuccess (pl_Cal (pl_Fail (pl_Fail p)))"
proof -
  have "pl_sum (pl_Fail (pl_Fail p)) = 1" "pl_success (pl_Fail (pl_Fail p)) = n"
    using assms by (simp_all add: pl_Fail_def Let_def)
  moreover have "1 < uint n" using assms(3) by (simp add: word_less_alt)
  ultimately show ?thesis by (simp add: pl_Cal_def pl_clear_def double_of_u64_def Let_def del: of_int_uint)
qed

end
