(* ===== verification/Saving.thy ===== *)
theory Saving
  imports Fusion Host
begin

text \<open>
  \<open>data/DataUnitUtilty.cpp\<close>: the files in which the program keeps the objects of a frame, the JSON text of a
  message and the picture in it. The file system is a parameter with its state \<open>'fs\<close>; so is the text of a
  floating point number.
\<close>

record 'fs filesys =
  fy_opendir :: "'fs \<Rightarrow> string \<Rightarrow> bool"
  fy_mkdir :: "string \<Rightarrow> 'fs \<Rightarrow> 'fs"
  fy_open :: "'fs \<Rightarrow> string \<Rightarrow> bool"
  fy_put :: "string \<Rightarrow> bytes \<Rightarrow> 'fs \<Rightarrow> 'fs"

definition text_bytes :: "string \<Rightarrow> bytes" where
  "text_bytes s = map of_char s"

definition in_fields :: "(real \<Rightarrow> string) \<Rightarrow> OBJECT_INFO_T \<Rightarrow> string list" where
  "in_fields real_text iter =
     [string_of_int (oi_objSourceType iter), string_of_int (oi_cameraID iter), string_of_int (oi_radarID iter),
      real_text (oi_speedX iter), real_text (oi_speedY iter), string_of_int (oi_left iter), string_of_int (oi_top iter),
      string_of_int (oi_right iter), string_of_int (oi_bottom iter), real_text (oi_locationX iter),
      real_text (oi_locationY iter), real_text (oi_directionAngle iter), real_text (oi_longitude iter),
      real_text (oi_latitude iter), string_of_int (oi_objType iter), oi_laneCode iter, real_text (oi_carLength iter),
      string_of_int (int (length (oi_carFeaturePic iter))), oi_plates iter, oi_plateColor iter]"

definition out_fields :: "(real \<Rightarrow> string) \<Rightarrow> OBJECT_INFO_NEW \<Rightarrow> string list" where
  "out_fields real_text iter =
     [string_of_int (on_showID iter), real_text (on_speed iter), real_text (on_speedX iter), real_text (on_speedY iter),
      string_of_int (on_left iter), string_of_int (on_top iter), string_of_int (on_right iter),
      string_of_int (on_bottom iter), real_text (on_locationX iter), real_text (on_locationY iter),
      real_text (on_directionAngle iter), real_text (on_longitude iter), real_text (on_latitude iter),
      string_of_int (on_objType iter), on_laneCode iter, real_text (on_carLength iter),
      string_of_int (int (length (on_carFeaturePic iter))), on_plates iter, on_plateColor iter]"

text \<open>A line: the fields with a comma between them.\<close>

definition csv_line :: "string list \<Rightarrow> string" where
  "csv_line cols = join_with CHR '','' cols @ [CHR 0x0A]"

definition file_name :: "string \<Rightarrow> u64 \<Rightarrow> string \<Rightarrow> string" where
  "file_name path timestamp ext = path @ string_of_int (uint timestamp) @ ext"

definition save_content :: "'fs filesys \<Rightarrow> string \<Rightarrow> bytes \<Rightarrow> 'fs \<Rightarrow> int \<times> 'fs" where
  "save_content io fileName content fs =
     (if fy_open io fs fileName then (0, fy_put io fileName content fs) else (- 1, fs))"

definition SaveDataIn :: "'fs filesys \<Rightarrow> (real \<Rightarrow> string) \<Rightarrow> OBJECT_INFO_T list \<Rightarrow> u64 \<Rightarrow> string \<Rightarrow> 'fs \<Rightarrow> 'fs" where
  "SaveDataIn io real_text data timestamp path fs =
     (let fs = CreatePath (fy_opendir io) (fy_mkdir io) path fs;
          content = concat (map (\<lambda>iter. csv_line (in_fields real_text iter)) data)
      in snd (save_content io (file_name path timestamp ''.txt'') (text_bytes content) fs))"

definition SaveDataOut :: "'fs filesys \<Rightarrow> (real \<Rightarrow> string) \<Rightarrow> OBJECT_INFO_NEW list \<Rightarrow> u64 \<Rightarrow> string \<Rightarrow> 'fs \<Rightarrow> 'fs" where
  "SaveDataOut io real_text data timestamp path fs =
     (let fs = CreatePath (fy_opendir io) (fy_mkdir io) path fs;
          content = concat (map (\<lambda>iter. csv_line (out_fields real_text iter)) data)
      in snd (save_content io (file_name path timestamp ''.txt'') (text_bytes content) fs))"

definition saveJson :: "'fs filesys \<Rightarrow> string \<Rightarrow> u64 \<Rightarrow> string \<Rightarrow> 'fs \<Rightarrow> int \<times> 'fs" where
  "saveJson io json timestamp path fs =
     (let fs = CreatePath (fy_opendir io) (fy_mkdir io) path fs
      in save_content io (file_name path timestamp ''.txt'') (text_bytes json) fs)"

text \<open>\<open>None\<close> where decoding reads before its table; the file is opened, and so created empty, before.\<close>

definition savePic :: "'fs filesys \<Rightarrow> bool \<Rightarrow> string \<Rightarrow> u64 \<Rightarrow> string \<Rightarrow> 'fs \<Rightarrow> (int \<times> 'fs) option" where
  "savePic io char_signed base64Pic timestamp path fs =
     (let fs = CreatePath (fy_opendir io) (fy_mkdir io) path fs; fileName = file_name path timestamp ''.jpeg''
      in case base64_decode char_signed (text_bytes base64Pic) of
           None \<Rightarrow> None
         | Some pic \<Rightarrow> Some (save_content io fileName pic fs))"

section \<open>What is in the files\<close>

definition bytes_text :: "bytes \<Rightarrow> string" where
  "bytes_text bs = map (\<lambda>b. char_of (unat b)) bs"

lemma text_bytes_text [simp]: "text_bytes (bytes_text bs) = bs"
proof -
  have "of_char (char_of (unat b)) = b" for b :: u8
  proof -
    have "of_char (char_of (unat b)) = (word_of_nat (of_char (char_of (unat b))) :: u8)" by (rule of_nat_of_char [symmetric])
    also have "(of_char (char_of (unat b)) :: nat) = unat b"
    proof -
      have "unat b < 2 ^ LENGTH(8)" by (rule unsigned_less)
      then show ?thesis by simp
    qed
    finally show ?thesis by simp
  qed
  then show ?thesis by (simp add: text_bytes_def bytes_text_def comp_def)
qed

text \<open>
  The picture that arrives in a message as base64 text is written to its file byte for byte, under the time
  of the message, whenever the file can be opened; otherwise the result is -1 and nothing is written.
\<close>
lemma picture_saved:
  "savePic io char_signed (bytes_text (base64_encode pic)) timestamp path fs =
    (let fs' = CreatePath (fy_opendir io) (fy_mkdir io) path fs; name = path @ string_of_int (uint timestamp) @ ''.jpeg''
     in Some (if fy_open io fs' name then (0, fy_put io name pic fs') else (- 1, fs')))"
  using base64_roundtrip[of char_signed pic]
  by (simp add: savePic_def save_content_def file_name_def Let_def)

lemma comma_free_number: "CHR '','' \<notin> set (string_of_int n)"
proof -
  have d: "\<forall>c \<in> set (string_of_nat k). isdigit c" for k using string_of_nat_digits[of k] by (simp add: list_all_iff)
  have "\<not> isdigit CHR '',''" by (simp add: isdigit_def digit_val_def)
  then show ?thesis using d by (auto simp: string_of_int_def)
qed

text \<open>
  A saved object is read back by \<open>split\<close>: a line has the twenty columns of the object in their order, as
  long as the texts have no comma and no NUL and the last of them, the colour of the plate, is not empty.
\<close>
lemma saved_columns:
  assumes "\<forall>x. CHR '','' \<notin> set (real_text x) \<and> CHR 0x00 \<notin> set (real_text x)" and "oi_plateColor obj \<noteq> []"
    and "\<forall>s \<in> {oi_laneCode obj, oi_plates obj, oi_plateColor obj}. CHR '','' \<notin> set s \<and> CHR 0x00 \<notin> set s"
  shows "split (butlast (csv_line (in_fields real_text obj))) '','' = in_fields real_text obj \<and>
    length (in_fields real_text obj) = 20"
proof -
  have nul: "CHR 0x00 \<notin> set (string_of_int n)" for n
  proof -
    have d: "\<forall>c \<in> set (string_of_nat k). isdigit c" for k using string_of_nat_digits[of k] by (simp add: list_all_iff)
    have "\<not> isdigit CHR 0x00" by (simp add: isdigit_def digit_val_def)
    then show ?thesis using d by (auto simp: string_of_int_def)
  qed
  have "\<forall>p \<in> set (in_fields real_text obj). CHR '','' \<notin> set p \<and> CHR 0x00 \<notin> set p"
    using assms comma_free_number nul by (simp add: in_fields_def)
  then have "split (join_with CHR '','' (in_fields real_text obj)) '','' = in_fields real_text obj"
    using assms(2) by (intro split_join) (auto simp: in_fields_def)
  then show ?thesis by (simp add: csv_line_def) (simp add: in_fields_def)
qed

lemma saved_columns_witness:
  "length (split (butlast (csv_line (in_fields (\<lambda>_. ''0.000000'') (OBJECT_INFO_T_new\<lparr>oi_laneCode := ''12'', oi_plateColor := ''blue''\<rparr>)))) '','') = 20"
  using saved_columns[of "\<lambda>_. ''0.000000''" "OBJECT_INFO_T_new\<lparr>oi_laneCode := ''12'', oi_plateColor := ''blue''\<rparr>"]
  by (simp add: OBJECT_INFO_T_new_def)

end
