(* ===== verification/Sqlite.thy ===== *)
theory Sqlite
  imports Eoc
begin

text \<open>
  The helpers of \<open>db/sqliteApi.cpp\<close> and the two queries of \<open>CLParking.cpp\<close> and \<open>RoadsideParking.cpp\<close>. SQLite is
  a parameter: whether a file opens, what a statement does to the database, and the table it returns. The
  pointer to that table is modelled with its life, as the helpers pass it on and free it.
\<close>

section \<open>Statements\<close>

text \<open>
  A table is the list of its cells, the names of the columns first; \<open>None\<close> is a NULL. \<open>sqlite3_get_table\<close>
  sets the pointer to NULL when the statement fails.
\<close>

datatype table_ptr = Uninit | Null | Table "string option list" | Freed

record 'db sqlite =
  sq_open :: "string \<Rightarrow> 'db \<Rightarrow> bool"
  sq_exec :: "string \<Rightarrow> 'db \<Rightarrow> bool \<times> 'db"
  sq_table :: "string \<Rightarrow> 'db \<Rightarrow> (string option list \<times> nat \<times> nat) option \<times> 'db"

datatype db_error = Bad_free | Bad_read

definition free_table :: "table_ptr \<Rightarrow> db_error + table_ptr" where
  "free_table p = (case p of Uninit \<Rightarrow> Inl Bad_free | Freed \<Rightarrow> Inl Bad_free | _ \<Rightarrow> Inr Freed)"

definition execSql :: "'db sqlite \<Rightarrow> string \<Rightarrow> 'db \<Rightarrow> int \<times> 'db" where
  "execSql io sql db = (let (ok, db) = sq_exec io sql db in (if ok then 0 else - 1, db))"

definition execGetTable :: "'db sqlite \<Rightarrow> string \<Rightarrow> 'db \<Rightarrow> int \<times> (table_ptr \<times> nat \<times> nat) \<times> 'db" where
  "execGetTable io sql db =
     (case sq_table io sql db of
        (None, db) \<Rightarrow> (- 1, (Null, 0, 0), db)
      | (Some (cells, row, col), db) \<Rightarrow> (0, (Table cells, row, col), db))"

definition dbFileExecSql :: "'db sqlite \<Rightarrow> string \<Rightarrow> string \<Rightarrow> 'db \<Rightarrow> int \<times> 'db" where
  "dbFileExecSql io dbFile sql db =
     (if \<not> sq_open io dbFile db then (- 1, db) else execSql io sql db)"

definition dbFileExecSqlTable ::
  "'db sqlite \<Rightarrow> string \<Rightarrow> string \<Rightarrow> table_ptr \<times> nat \<times> nat \<Rightarrow> 'db \<Rightarrow> int \<times> (table_ptr \<times> nat \<times> nat) \<times> 'db" where
  "dbFileExecSqlTable io dbFile sql out db =
     (if \<not> sq_open io dbFile db then (- 1, out, db) else execGetTable io sql db)"

text \<open>\<open>snprintf\<close> into a buffer of 1024 bytes cuts the statement.\<close>

definition statement :: "string \<Rightarrow> string" where
  "statement s = take 1023 s"

definition dbCheckORAddTable :: "'db sqlite \<Rightarrow> string \<Rightarrow> string \<Rightarrow> 'db \<Rightarrow> int \<times> 'db" where
  "dbCheckORAddTable io dbFile tableName db =
     (let (ret, db) = dbFileExecSql io dbFile
            (statement (''create table IF NOT EXISTS '' @ tableName @ ''(id INTEGER PRIMARY KEY NOT NULL)'')) db
      in if ret < 0 then (- 1, db) else (0, db))"

definition dbDeleteTable :: "'db sqlite \<Rightarrow> string \<Rightarrow> string \<Rightarrow> 'db \<Rightarrow> int \<times> 'db" where
  "dbDeleteTable io dbFile table_name db =
     (let (ret, db) = dbFileExecSql io dbFile (statement (''drop table '' @ table_name)) db
      in if ret < 0 then (- 1, db) else (0, db))"

section \<open>Columns\<close>

text \<open>A cell of the table; reading past it, through a pointer to none, or a NULL as a text is an error.\<close>

definition cell :: "table_ptr \<Rightarrow> nat \<Rightarrow> db_error + string option" where
  "cell p i = (case p of Table cells \<Rightarrow> if i < length cells then Inr (cells ! i) else Inl Bad_read | _ \<Rightarrow> Inl Bad_read)"

fun find_column :: "string \<Rightarrow> table_ptr \<Rightarrow> nat \<Rightarrow> nat \<Rightarrow> nat \<Rightarrow> db_error + nat option" where
  "find_column name p col temp 0 = Inr None"
| "find_column name p col temp (Suc left) =
     (case cell p (col * (temp + 1) + 1) of
        Inl e \<Rightarrow> Inl e
      | Inr None \<Rightarrow> Inl Bad_read
      | Inr (Some s) \<Rightarrow> if name = s then Inr (Some temp) else find_column name p col (temp + 1) left)"

definition pragma_sql :: "string \<Rightarrow> string" where
  "pragma_sql tableName = statement (''pragma table_info('' @ [CHR 0x27] @ tableName @ [CHR 0x27] @ '');'')"

definition alter_sql :: "string \<Rightarrow> string \<Rightarrow> string \<Rightarrow> string" where
  "alter_sql tableName name descr = statement (''alter table '' @ tableName @ '' add '' @ name @ '' '' @ descr @ '';'')"

text \<open>The result has the return value and the number of buffers that are left allocated.\<close>

definition dbCheckOrAddColumn ::
  "'db sqlite \<Rightarrow> string \<Rightarrow> string \<Rightarrow> int \<Rightarrow> string \<Rightarrow> string \<Rightarrow> 'db \<Rightarrow> db_error + int \<times> nat \<times> 'db" where
  "dbCheckOrAddColumn io dbFile tableName column_index columnName columnDescription db =
     (let (ret, (sqldata, row, col), db) = dbFileExecSqlTable io dbFile (pragma_sql tableName) (Uninit, 0, 0) db
      in if ret = - 1 then
           (case free_table sqldata of Inl e \<Rightarrow> Inl e | Inr _ \<Rightarrow> Inr (- 1, 0, db))
         else case find_column columnName sqldata col 0 row of
           Inl e \<Rightarrow> Inl e
         | Inr (Some index_real) \<Rightarrow>
             (case free_table sqldata of Inl e \<Rightarrow> Inl e
              | Inr _ \<Rightarrow> Inr (if int index_real = column_index then 0 else - 1, 1, db))
         | Inr None \<Rightarrow>
             (case free_table sqldata of Inl e \<Rightarrow> Inl e
              | Inr sqldata \<Rightarrow>
                  let (ret, (sqldata, row, col), db) = dbFileExecSqlTable io dbFile
                        (alter_sql tableName columnName columnDescription) (sqldata, row, col) db
                  in case free_table sqldata of Inl e \<Rightarrow> Inl e
                     | Inr _ \<Rightarrow> Inr (if ret = - 1 then - 1 else 0, 1, db)))"

section \<open>The two queries\<close>

definition uname_sql :: string where
  "uname_sql = ''select UName from CL_ParkingArea where ID=(select max(ID) from CL_ParkingArea)''"

definition null_text :: "string option \<Rightarrow> string" where
  "null_text c = (case c of Some s \<Rightarrow> s | None \<Rightarrow> [])"

definition dbGetUname :: "'db sqlite \<Rightarrow> string \<Rightarrow> 'db \<Rightarrow> db_error + int \<times> string \<times> 'db" where
  "dbGetUname io uname db =
     (let (rtn, (sqldata, nrow, ncol), db) = dbFileExecSqlTable io ''./CLParking.db'' uname_sql (Uninit, 0, 0) db
      in if rtn < 0 then Inr (- 1, uname, db)
         else if nrow = 1 then (case cell sqldata 1 of Inl e \<Rightarrow> Inl e | Inr c \<Rightarrow> Inr (0, null_text c, db))
         else Inr (1, uname, db))"

definition cloud_sql :: string where
  "cloud_sql = ''select CloudServerPath,TransferServicePath,CloudServerPort,FileServicePort from TB_ParkingLot where ID=(select MIN(ID) from TB_ParkingLot)''"

record cloud_info =
  ci_server_path :: string
  ci_server_port :: int
  ci_file_server_path :: string
  ci_file_server_port :: int

definition null_atoi :: "string option \<Rightarrow> int" where
  "null_atoi c = atoi (case c of Some s \<Rightarrow> s | None \<Rightarrow> ''0'')"

definition dbGetCloudInfo :: "'db sqlite \<Rightarrow> cloud_info \<Rightarrow> 'db \<Rightarrow> db_error + int \<times> cloud_info \<times> 'db" where
  "dbGetCloudInfo io info db =
     (let (rtn, (sqldata, nrow, ncol), db) = dbFileExecSqlTable io ''./RoadsideParking.db'' cloud_sql (Uninit, 0, 0) db
      in if rtn < 0 then Inr (- 1, info, db)
         else if nrow = 1 then
           (case (cell sqldata (ncol + 0), cell sqldata (ncol + 1), cell sqldata (ncol + 2), cell sqldata (ncol + 3)) of
              (Inr a, Inr b, Inr c, Inr d) \<Rightarrow>
                Inr (0, \<lparr>ci_server_path = null_text a, ci_server_port = null_atoi c, ci_file_server_path = null_text b,
                        ci_file_server_port = null_atoi d\<rparr>, db)
            | _ \<Rightarrow> Inl Bad_read)
         else Inr (1, info, db))"

text \<open>\<open>getEOCInfo\<close> drops the result of the query and returns 0.\<close>

definition getEOCInfo :: "'db sqlite \<Rightarrow> cloud_info \<Rightarrow> 'db \<Rightarrow> db_error + int \<times> cloud_info \<times> 'db" where
  "getEOCInfo io info db = map_sum id (\<lambda>(rtn, info, db). (0, info, db)) (dbGetCloudInfo io info db)"

text \<open>The times of the database: \<open>%04d-%02d-%02d %02d:%02d:%02d\<close> of the broken-down local time.\<close>

record tm =
  tm_year :: int
  tm_mon :: int
  tm_mday :: int
  tm_hour :: int
  tm_min :: int
  tm_sec :: int

definition padded :: "nat \<Rightarrow> int \<Rightarrow> string" where
  "padded w n =
     (let ds = string_of_nat (nat \<bar>n\<bar>); sign = (if n < 0 then ''-'' else [])
      in sign @ replicate (w - length sign - length ds) CHR ''0'' @ ds)"

definition db_timet2timestamp :: "(int \<Rightarrow> tm) \<Rightarrow> int \<Rightarrow> string" where
  "db_timet2timestamp localtime t =
     (let tm = localtime t
      in padded 4 (1900 + tm_year tm) @ ''-'' @ padded 2 (1 + tm_mon tm) @ ''-'' @ padded 2 (tm_mday tm) @ '' '' @
         padded 2 (tm_hour tm) @ '':'' @ padded 2 (tm_min tm) @ '':'' @ padded 2 (tm_sec tm))"

section \<open>Life of the tables\<close>

text \<open>
  What SQLite promises of a table of columns: the cells of the heading and of every row, where a row has a
  second cell with a name in it. For a table that does not exist the pragma succeeds with no row and no column.
\<close>

definition columns_table :: "string option list \<times> nat \<times> nat \<Rightarrow> bool" where
  "columns_table = (\<lambda>(cells, row, col). length cells = (row + 1) * col \<and> (0 < row \<longrightarrow> 2 \<le> col) \<and>
     (\<forall>temp < row. cells ! (col * (temp + 1) + 1) \<noteq> None))"

definition column_names :: "string option list \<times> nat \<times> nat \<Rightarrow> string list" where
  "column_names = (\<lambda>(cells, row, col). map (\<lambda>temp. the (cells ! (col * (temp + 1) + 1))) [0..<row])"

lemma find_column_names:
  assumes "columns_table (cells, row, col)" and "temp + left = row"
  shows "find_column name (Table cells) col temp left =
    Inr (map_option (\<lambda>k. temp + k) (find_index (\<lambda>s. s = name) (drop temp (column_names (cells, row, col)))))"
  using assms(2)
proof (induction left arbitrary: temp)
  case 0
  then show ?case by (simp add: column_names_def)
next
  case (Suc left)
  have t: "temp < row" using Suc.prems by simp
  have "col * (temp + 1) + 1 < col * (temp + 2)" using assms(1) t by (simp add: columns_table_def)
  also have "\<dots> \<le> col * (row + 1)" using t by (intro mult_le_mono2) simp
  finally have c: "col * (temp + 1) + 1 < length cells" using assms(1) by (simp add: columns_table_def mult.commute)
  obtain s where s: "cells ! (col * (temp + 1) + 1) = Some s" using assms(1) t by (auto simp: columns_table_def)
  have d: "drop temp (column_names (cells, row, col)) = s # drop (Suc temp) (column_names (cells, row, col))"
    using t s by (subst Cons_nth_drop_Suc[symmetric]) (simp_all add: column_names_def)
  have "cell (Table cells) (col * (temp + 1) + 1) = Inr (Some s)" using c s by (simp add: cell_def)
  then show ?case using Suc.IH[of "Suc temp"] Suc.prems unfolding d
    by (auto simp: option.map_comp comp_def)
qed

text \<open>
  C38. \<open>dbCheckOrAddColumn\<close>, whether the file opens or not, whether the pragma fails, gives columns or, for a
  table that does not exist, gives none at all, and whether the column can be added or not: it accepts a column
  only at its place, adds one that is missing and then accepts it wherever it is, and leaves a buffer allocated
  unless the list of columns fails. For a missing table it tries to add the column, and answers -1 when that
  fails. Where the file cannot be opened it frees a pointer that was never set, or, when it cannot be opened
  again to add the column, the table that it has freed before. Of SQLite it is assumed that a row of the pragma
  has its name in the second cell.
\<close>
theorem column_checked:
  assumes "\<And>t. fst (sq_table io (pragma_sql tableName) db) = Some t \<Longrightarrow> columns_table t"
  shows "dbCheckOrAddColumn io dbFile tableName column_index name descr db =
    (if \<not> sq_open io dbFile db then Inl Bad_free
     else case sq_table io (pragma_sql tableName) db of
       (None, db1) \<Rightarrow> Inr (- 1, 0, db1)
     | (Some t, db1) \<Rightarrow>
         (case find_index (\<lambda>s. s = name) (column_names t) of
            Some k \<Rightarrow> Inr (if int k = column_index then 0 else - 1, 1, db1)
          | None \<Rightarrow> if \<not> sq_open io dbFile db1 then Inl Bad_free
                    else Inr (if fst (sq_table io (alter_sql tableName name descr) db1) = None then - 1 else 0, 1,
                              snd (sq_table io (alter_sql tableName name descr) db1))))"
proof (cases "sq_open io dbFile db")
  case False
  then show ?thesis by (simp add: dbCheckOrAddColumn_def dbFileExecSqlTable_def execGetTable_def free_table_def)
next
  case True
  obtain r db1 where q: "sq_table io (pragma_sql tableName) db = (r, db1)" by fastforce
  show ?thesis
  proof (cases r)
    case None
    then show ?thesis using True q by (simp add: dbCheckOrAddColumn_def dbFileExecSqlTable_def execGetTable_def free_table_def)
  next
    case (Some t)
    obtain cells row col where t: "t = (cells, row, col)" by (cases t)
    have "columns_table (cells, row, col)" using assms q Some t by simp
    from find_column_names[OF this, of 0 row name]
    have f: "find_column name (Table cells) col 0 row = Inr (find_index (\<lambda>s. s = name) (column_names t))"
      by (simp add: t option.map_ident)
    obtain r2 db2 where a: "sq_table io (alter_sql tableName name descr) db1 = (r2, db2)" by fastforce
    have p: "dbFileExecSqlTable io dbFile (pragma_sql tableName) out db = (0, (Table cells, row, col), db1)" for out
      using True q Some t by (simp add: dbFileExecSqlTable_def execGetTable_def)
    show ?thesis
    proof (cases "find_index (\<lambda>s. s = name) (column_names t)")
      case None
      have "dbFileExecSqlTable io dbFile (alter_sql tableName name descr) out db1 =
          (if \<not> sq_open io dbFile db1 then (- 1, out, db1) else case r2 of None \<Rightarrow> (- 1, (Null, 0, 0), db2)
           | Some (cells, row, col) \<Rightarrow> (0, (Table cells, row, col), db2))" for out
        using a by (simp add: dbFileExecSqlTable_def execGetTable_def)
      note al = this
      show ?thesis
        by (cases "sq_open io dbFile db1"; cases r2)
          (simp_all add: dbCheckOrAddColumn_def free_table_def True q Some None f a p al del: find_index_None split: prod.split)
    qed (use True q Some p f in \<open>simp add: dbCheckOrAddColumn_def free_table_def\<close>)
  qed
qed

text \<open>
  A database with a table \<open>t\<close> of two columns: the pragma of another table has no rows and no columns, and
  nothing can be added to it.
\<close>

definition demo_columns :: "string option list \<times> nat \<times> nat" where
  "demo_columns = ([Some ''cid'', Some ''name'', Some ''0'', Some ''id'', Some ''1'', Some ''UName''], 2, 2)"

definition demo_sqlite :: "unit sqlite" where
  "demo_sqlite = \<lparr>sq_open = (\<lambda>f db. f = ''a.db''), sq_exec = (\<lambda>_ db. (True, db)),
     sq_table = (\<lambda>sql db. (if sql = pragma_sql ''t'' then Some demo_columns
       else if sql = pragma_sql ''u'' then Some ([], 0, 0)
       else if sql = alter_sql ''t'' ''Name'' ''TEXT'' then Some ([], 0, 0) else None, db))\<rparr>"

theorem column_checked_witness:
  "dbCheckOrAddColumn demo_sqlite ''a.db'' ''t'' 1 ''UName'' ''TEXT'' () = Inr (0, 1, ()) \<and>
   dbCheckOrAddColumn demo_sqlite ''a.db'' ''t'' 0 ''UName'' ''TEXT'' () = Inr (- 1, 1, ()) \<and>
   dbCheckOrAddColumn demo_sqlite ''a.db'' ''t'' 7 ''Name'' ''TEXT'' () = Inr (0, 1, ()) \<and>
   dbCheckOrAddColumn demo_sqlite ''a.db'' ''u'' 0 ''UName'' ''TEXT'' () = Inr (- 1, 1, ()) \<and>
   dbCheckOrAddColumn demo_sqlite ''b.db'' ''t'' 0 ''UName'' ''TEXT'' () = Inl Bad_free"
proof -
  have c: "columns_table demo_columns" "columns_table ([], 0, 0)"
    by (simp_all add: columns_table_def demo_columns_def less_Suc_eq numeral_2_eq_2)
  have n: "column_names demo_columns = [''id'', ''UName'']" "column_names ([], 0, 0) = []"
    by (simp_all add: column_names_def demo_columns_def upt_rec)
  have s: "sq_open demo_sqlite f () = (f = ''a.db'')" for f by (simp add: demo_sqlite_def)
  have t: "sq_table demo_sqlite (pragma_sql ''t'') () = (Some demo_columns, ())"
    "sq_table demo_sqlite (pragma_sql ''u'') () = (Some ([], 0, 0), ())"
    "sq_table demo_sqlite (alter_sql ''t'' ''Name'' ''TEXT'') () = (Some ([], 0, 0), ())"
    "sq_table demo_sqlite (alter_sql ''u'' ''UName'' ''TEXT'') () = (None, ())"
    by (simp_all add: demo_sqlite_def pragma_sql_def alter_sql_def statement_def)
  show ?thesis
    by (subst (1 2 3 4 5) column_checked) (auto simp add: s n c t)
qed

section \<open>Where the centre is\<close>

text \<open>What \<open>StartEocCommon\<close> gets from the factory database, with the address it starts with.\<close>

definition factory_info :: "'db sqlite \<Rightarrow> 'db \<Rightarrow> string \<times> int \<Rightarrow> string \<times> int" where
  "factory_info io db = (\<lambda>(host, port).
     case getEOCInfo io \<lparr>ci_server_path = host, ci_server_port = port, ci_file_server_path = ''ehctest.eoc.aipark.com'',
            ci_file_server_port = 7000\<rparr> db of
       Inl e \<Rightarrow> (host, port)
     | Inr (ret, info, db) \<Rightarrow> (ci_server_path info, ci_server_port info))"

definition factory_row :: "'db sqlite \<Rightarrow> 'db \<Rightarrow> (string \<times> int) option" where
  "factory_row io db =
     (if \<not> sq_open io ''./RoadsideParking.db'' db then None
      else case fst (sq_table io cloud_sql db) of
             None \<Rightarrow> None
           | Some (cells, row, col) \<Rightarrow> if row = 1 then Some (null_text (cells ! 4), null_atoi (cells ! 6)) else None)"

lemma factory_info_row:
  assumes "\<And>cells row col. fst (sq_table io cloud_sql db) = Some (cells, row, col) \<Longrightarrow> col = 4 \<and> length cells = (row + 1) * col"
  shows "factory_info io db start = (case factory_row io db of None \<Rightarrow> start | Some r \<Rightarrow> r)"
proof (cases "sq_open io ''./RoadsideParking.db'' db")
  case True
  obtain t db1 where q: "sq_table io cloud_sql db = (t, db1)" by fastforce
  show ?thesis
  proof (cases t)
    case None
    then show ?thesis using True q
      by (simp add: factory_info_def getEOCInfo_def dbGetCloudInfo_def dbFileExecSqlTable_def execGetTable_def factory_row_def split: prod.split)
  next
    case (Some r)
    obtain cells row col where r: "r = (cells, row, col)" by (cases r)
    have c: "col = 4" "length cells = (row + 1) * 4" using assms q Some r by auto
    have "cell (Table cells) 4 = Inr (cells ! 4)" "cell (Table cells) 5 = Inr (cells ! 5)" "cell (Table cells) 6 = Inr (cells ! 6)"
      "cell (Table cells) 7 = Inr (cells ! 7)" if "row = 1" using c that by (simp_all add: cell_def)
    then show ?thesis using True q Some r c(1)
      by (auto simp: factory_info_def getEOCInfo_def dbGetCloudInfo_def dbFileExecSqlTable_def execGetTable_def factory_row_def
          split: prod.split)
  qed
qed (simp add: factory_info_def getEOCInfo_def dbGetCloudInfo_def dbFileExecSqlTable_def execGetTable_def factory_row_def split: prod.split)

text \<open>
  The centre is where the one row of the factory database says. An empty or missing address and a port that
  is no number or 0 give the built-in ones, as does a database that cannot be read or has no row; a name
  is looked up, and one that is not found gives the built-in address again.
\<close>
lemma centre_address:
  assumes "\<And>cells row col. fst (sq_table io cloud_sql db) = Some (cells, row, col) \<Longrightarrow> col = 4 \<and> length cells = (row + 1) * col"
    and "isIP EOC_ADDR"
  shows "StartEocCommon_address isIP url_get (factory_info io db) =
    (case factory_row io db of
       None \<Rightarrow> (EOC_ADDR, EOC_PORT)
     | Some (host, port) \<Rightarrow>
         let ip = (if host = [] then EOC_ADDR else if isIP host then host else url_get host)
         in (if ip = [] then EOC_ADDR else ip, if port = 0 then EOC_PORT else port))"
proof -
  have f: "factory_info io db (EOC_ADDR, EOC_PORT) = (case factory_row io db of None \<Rightarrow> (EOC_ADDR, EOC_PORT) | Some r \<Rightarrow> r)"
    by (rule factory_info_row) (rule assms(1))
  have e: "EOC_ADDR \<noteq> []" "EOC_PORT \<noteq> 0" by (simp_all add: EOC_ADDR_def EOC_PORT_def)
  show ?thesis
  proof (cases "factory_row io db")
    case None
    then show ?thesis using f e assms(2) by (simp add: StartEocCommon_address_def)
  next
    case (Some r)
    then show ?thesis using f e assms(2) by (cases r) (simp add: StartEocCommon_address_def Let_def)
  qed
qed

definition demo_factory :: "unit sqlite" where
  "demo_factory = \<lparr>sq_open = (\<lambda>_ _. True), sq_exec = (\<lambda>_ db. (True, db)), sq_table = (\<lambda>_ db.
     (Some ([None, None, None, None, Some ''eoc.example'', None, Some ''x'', None], 1, 4), db))\<rparr>"

lemma centre_address_witness:
  "StartEocCommon_address (\<lambda>s. s = EOC_ADDR) (\<lambda>host. if host = ''eoc.example'' then ''10.0.0.1'' else []) (factory_info demo_factory ()) =
     (''10.0.0.1'', EOC_PORT)"
proof -
  have "factory_row demo_factory () = Some (''eoc.example'', 0)"
    by (simp add: factory_row_def demo_factory_def null_text_def null_atoi_def atoi_def parse_int_def isspace_def isdigit_def digit_val_def)
  then show ?thesis
    by (subst centre_address) (auto simp: demo_factory_def EOC_ADDR_def)
qed

end
