(* ===== verification/EocMsgs.thy ===== *)
theory EocMsgs
  imports Eoc
begin

text \<open>
  The message classes of \<open>eocCom/EOCJSON.h\<close>: what their \<open>get\<close> functions put into an object and the JSON object
  that their \<open>XPACK\<close> lines declare, a member for each name in that order. The text of a JSON value is made by
  the library. The theory relates the classes to the messages of \<open>Eoc\<close>, which leave out what never varies.
\<close>

section \<open>JSON\<close>

datatype json = JStr string | JInt int | JReal real | JArr "json list" | JObj "(string \<times> json) list"

definition member :: "string \<Rightarrow> json \<Rightarrow> json option" where
  "member name j = (case j of JObj ms \<Rightarrow> map_of ms name | _ \<Rightarrow> None)"

text \<open>The heads of the requests and of the responses; every message of the protocol has one of the two.\<close>

record ReqHead =
  rq_Version :: string
  rq_Code :: string
  rq_Guid :: string

record RspHead =
  rs_Version :: string
  rs_Code :: string
  rs_State :: int
  rs_ResultMessage :: string
  rs_Guid :: string

definition ReqHead_json :: "ReqHead \<Rightarrow> json" where
  "ReqHead_json h = JObj [(''Version'', JStr (rq_Version h)), (''Code'', JStr (rq_Code h)), (''Guid'', JStr (rq_Guid h))]"

definition RspHead_json :: "RspHead \<Rightarrow> json" where
  "RspHead_json h = JObj [(''Version'', JStr (rs_Version h)), (''Code'', JStr (rs_Code h)), (''State'', JInt (rs_State h)),
     (''ResultMessage'', JStr (rs_ResultMessage h)), (''Guid'', JStr (rs_Guid h))]"

section \<open>Data of the messages\<close>

record DataS100 =
  x0_Code :: string

definition DataS100_json :: "DataS100 \<Rightarrow> json" where
  "DataS100_json d = JObj [(''Code'', JStr (x0_Code d))]"

text \<open>The record \<open>DataS101\<close> of \<open>Eoc\<close> has no code: it is the class's own.\<close>

definition DataS101_json :: "DataS101 \<Rightarrow> json" where
  "DataS101_json d = JObj [(''Code'', JStr ''MCCS101''), (''EquipNumber'', JStr (d1_EquipNumber d)),
     (''EquipIp'', JStr (d1_EquipIp d)), (''EquipType'', JStr (d1_EquipType d)), (''SoftVersion'', JStr (d1_SoftVersion d)),
     (''DataVersion'', JStr (d1_DataVersion d))]"

record DataR101 =
  y1_Code :: string
  y1_State :: int
  y1_Message :: string

definition DataR101_json :: "DataR101 \<Rightarrow> json" where
  "DataR101_json d = JObj [(''Code'', JStr (y1_Code d)), (''State'', JInt (y1_State d)),
     (''Message'', JStr (y1_Message d))]"

record DataS102 =
  x2_Code :: string
  x2_State :: int
  x2_Messsage :: string

definition DataS102_json :: "DataS102 \<Rightarrow> json" where
  "DataS102_json d = JObj [(''Code'', JStr (x2_Code d)), (''State'', JInt (x2_State d)),
     (''Messsage'', JStr (x2_Messsage d))]"

definition PartsState_json :: "PartsState_t \<Rightarrow> json" where
  "PartsState_json p = JObj [(''State'', JInt (pt_State p)), (''Size'', JInt (pt_Size p)), (''ResidualSize'', JInt (pt_ResidualSize p))]"

definition MainBoardState_json :: "MainBoardState_t \<Rightarrow> json" where
  "MainBoardState_json m = JObj [(''MainboardGuid'', JStr (mb_MainboardGuid m)), (''State'', JInt (mb_State m)),
     (''CpuState'', JInt (mb_CpuState m)), (''CpuUtilizationRatio'', JReal (mb_CpuUtilizationRatio m)),
     (''CpuTemperature'', JReal (mb_CpuTemperature m)), (''MemorySize'', JInt (mb_MemorySize m)),
     (''ResidualMemorySize'', JInt (mb_ResidualMemorySize m)), (''ModelVersion'', JStr (mb_ModelVersion m)),
     (''MainboardType'', JStr (mb_MainboardType m)), (''TFCardStates'', JArr (map PartsState_json (mb_TFCardStates m))),
     (''EmmcStates'', JArr (map PartsState_json (mb_EmmcStates m))),
     (''ExternalHardDisk'', JArr (map PartsState_json (mb_ExternalHardDisk m)))]"

record DataS103 =
  x3_Code :: string
  x3_MainBoardState :: MainBoardState_t

definition DataS103_json :: "DataS103 \<Rightarrow> json" where
  "DataS103_json d = JObj [(''Code'', JStr (x3_Code d)), (''MainBoardState'', MainBoardState_json (x3_MainBoardState d))]"

record DataR103 =
  y3_Code :: string
  y3_State :: int
  y3_Message :: string

definition DataR103_json :: "DataR103 \<Rightarrow> json" where
  "DataR103_json d = JObj [(''Code'', JStr (y3_Code d)), (''State'', JInt (y3_State d)),
     (''Message'', JStr (y3_Message d))]"

record DataS104 =
  x4_Code :: string
  x4_MainboardGuid :: string

definition DataS104_json :: "DataS104 \<Rightarrow> json" where
  "DataS104_json d = JObj [(''Code'', JStr (x4_Code d)), (''MainboardGuid'', JStr (x4_MainboardGuid d))]"

record DataS105 =
  x5_Code :: string
  x5_Total :: int
  x5_Success :: int

definition DataS105_json :: "DataS105 \<Rightarrow> json" where
  "DataS105_json d = JObj [(''Code'', JStr (x5_Code d)), (''Total'', JInt (x5_Total d)),
     (''Success'', JInt (x5_Success d))]"

record DataR105 =
  y5_Code :: string
  y5_State :: int
  y5_Message :: string

definition DataR105_json :: "DataR105 \<Rightarrow> json" where
  "DataR105_json d = JObj [(''Code'', JStr (y5_Code d)), (''State'', JInt (y5_State d)),
     (''Message'', JStr (y5_Message d))]"

record DataR106 =
  y6_Code :: string
  y6_FileName :: string
  y6_FileSize :: string
  y6_FileVersion :: string
  y6_DownloadPath :: string
  y6_FileMD5 :: string

definition DataR106_json :: "DataR106 \<Rightarrow> json" where
  "DataR106_json d = JObj [(''Code'', JStr (y6_Code d)), (''FileName'', JStr (y6_FileName d)),
     (''FileSize'', JStr (y6_FileSize d)), (''FileVersion'', JStr (y6_FileVersion d)),
     (''DownloadPath'', JStr (y6_DownloadPath d)), (''FileMD5'', JStr (y6_FileMD5 d))]"

record DataS106 =
  x6_Code :: string
  x6_ResultType :: int
  x6_State :: int
  x6_Progress :: int
  x6_Message :: string

definition DataS106_json :: "DataS106 \<Rightarrow> json" where
  "DataS106_json d = JObj [(''Code'', JStr (x6_Code d)), (''ResultType'', JInt (x6_ResultType d)),
     (''State'', JInt (x6_State d)), (''Progress'', JInt (x6_Progress d)), (''Message'', JStr (x6_Message d))]"

record DataR107 =
  y7_Code :: string
  y7_FileName :: string
  y7_FileVersion :: string
  y7_UpgradeMode :: int
  y7_FileMD5 :: string
  y7_CurrentSoftVersion :: string
  y7_HardwareVersion :: string

definition DataR107_json :: "DataR107 \<Rightarrow> json" where
  "DataR107_json d = JObj [(''Code'', JStr (y7_Code d)), (''FileName'', JStr (y7_FileName d)),
     (''FileVersion'', JStr (y7_FileVersion d)), (''UpgradeMode'', JInt (y7_UpgradeMode d)),
     (''FileMD5'', JStr (y7_FileMD5 d)), (''CurrentSoftVersion'', JStr (y7_CurrentSoftVersion d)),
     (''HardwareVersion'', JStr (y7_HardwareVersion d))]"

record DataS107 =
  x7_Code :: string
  x7_ResultType :: int
  x7_State :: int
  x7_Progress :: int
  x7_Message :: string

definition DataS107_json :: "DataS107 \<Rightarrow> json" where
  "DataS107_json d = JObj [(''Code'', JStr (x7_Code d)), (''ResultType'', JInt (x7_ResultType d)),
     (''State'', JInt (x7_State d)), (''Progress'', JInt (x7_Progress d)), (''Message'', JStr (x7_Message d))]"

record DataR108 =
  y8_Code :: string

definition DataR108_json :: "DataR108 \<Rightarrow> json" where
  "DataR108_json d = JObj [(''Code'', JStr (y8_Code d))]"

record DataS108 =
  x8_Code :: string

definition DataS108_json :: "DataS108 \<Rightarrow> json" where
  "DataS108_json d = JObj [(''Code'', JStr (x8_Code d))]"

section \<open>Configurations\<close>

text \<open>What a configuration carries; its data class declares no member for its own code.\<close>

definition IntersectionBaseSetting_json :: "IntersectionBaseSettingEntity \<Rightarrow> json" where
  "IntersectionBaseSetting_json d = JObj [(''FlagEast'', JInt (ib_FlagEast d)), (''FlagSouth'', JInt (ib_FlagSouth d)),
     (''FlagWest'', JInt (ib_FlagWest d)), (''FlagNorth'', JInt (ib_FlagNorth d)),
     (''DeltaXEast'', JReal (ib_DeltaXEast d)), (''DeltaYEast'', JReal (ib_DeltaYEast d)),
     (''DeltaXSouth'', JReal (ib_DeltaXSouth d)), (''DeltaYSouth'', JReal (ib_DeltaYSouth d)),
     (''DeltaXWest'', JReal (ib_DeltaXWest d)), (''DeltaYWest'', JReal (ib_DeltaYWest d)),
     (''DeltaXNorth'', JReal (ib_DeltaXNorth d)), (''DeltaYNorth'', JReal (ib_DeltaYNorth d)),
     (''WidthX'', JReal (ib_WidthX d)), (''WidthY'', JReal (ib_WidthY d))]"

definition Intersection_json :: "IntersectionEntity \<Rightarrow> json" where
  "Intersection_json d = JObj [(''Guid'', JStr (ie_Guid d)), (''Name'', JStr (ie_Name d)),
     (''Type'', JInt (ie_Type d)), (''PlatId'', JStr (ie_PlatId d)), (''XLength'', JReal (ie_XLength d)),
     (''YLength'', JReal (ie_YLength d)), (''LaneNumber'', JInt (ie_LaneNumber d)),
     (''Latitude'', JStr (ie_Latitude d)), (''longitude'', JStr (ie_longitude d)),
     (''IntersectionBaseSetting'', IntersectionBaseSetting_json (ie_IntersectionBaseSetting d))]"

definition BaseSetting_json :: "BaseSettingEntity \<Rightarrow> json" where
  "BaseSetting_json d = JObj [(''City'', JStr (be_City d)),
     (''IsUploadToPlatform'', JInt (be_IsUploadToPlatform d)), (''Is4Gmodel'', JInt (be_Is4Gmodel d)),
     (''IsIllegalCapture'', JInt (be_IsIllegalCapture d)),
     (''IsPrintIntersectionName'', JInt (be_IsPrintIntersectionName d)), (''Remarks'', JStr (be_Remarks d)),
     (''FilesServicePath'', JStr (be_FilesServicePath d)), (''FilesServicePort'', JInt (be_FilesServicePort d)),
     (''MainDNS'', JStr (be_MainDNS d)), (''AlternateDNS'', JStr (be_AlternateDNS d)),
     (''PlatformTcpPath'', JStr (be_PlatformTcpPath d)), (''PlatformTcpPort'', JInt (be_PlatformTcpPort d)),
     (''PlatformHttpPath'', JStr (be_PlatformHttpPath d)), (''PlatformHttpPort'', JInt (be_PlatformHttpPort d)),
     (''SignalMachinePath'', JStr (be_SignalMachinePath d)), (''SignalMachinePort'', JInt (be_SignalMachinePort d)),
     (''IsUseSignalMachine'', JInt (be_IsUseSignalMachine d)), (''NtpServerPath'', JStr (be_NtpServerPath d)),
     (''IllegalPlatformAddress'', JStr (be_IllegalPlatformAddress d)),
     (''FusionMainboardIp'', JStr (be_FusionMainboardIp d)),
     (''FusionMainboardPort'', JInt (be_FusionMainboardPort d))]"

definition AssociatedEquip_json :: "AssociatedEquip \<Rightarrow> json" where
  "AssociatedEquip_json d = JObj [(''EquipType'', JInt (aq_EquipType d)), (''EquipCode'', JStr (aq_EquipCode d))]"

definition StartEndTime_json :: "StartEndTime \<Rightarrow> json" where
  "StartEndTime_json d = JObj [(''StartTime'', JStr (se_StartTime d)), (''EndTime'', JStr (se_EndTime d))]"

definition RelatedAreaParams_json :: "RelatedAreaParamsContent \<Rightarrow> json" where
  "RelatedAreaParams_json d = JObj [(''PersonCount'', JInt (rp_PersonCount d)), (''Duration'', JInt (rp_Duration d))]"

definition RuleDetail_json :: "RuleDetail \<Rightarrow> json" where
  "RuleDetail_json d = JObj [(''StartDay'', JStr (rd_StartDay d)), (''EndDay'', JStr (rd_EndDay d)),
     (''StartEndTimes'', JArr (map StartEndTime_json (rd_StartEndTimes d))),
     (''DayOfWeeks'', JArr (map JInt (rd_DayOfWeeks d))), (''ParamsEnableIndex'', JInt (rd_ParamsEnableIndex d)),
     (''Params'', RelatedAreaParams_json (rd_Params d))]"

definition AreaRule_json :: "AreaRule_t \<Rightarrow> json" where
  "AreaRule_json d = JObj [(''Name'', JStr (ar_Name d)), (''EventType'', JInt (ar_EventType d)),
     (''Content'', JArr (map RuleDetail_json (ar_Content d))), (''Remark'', JStr (ar_Remark d))]"

definition RelatedArea_json :: "RelatedArea_t \<Rightarrow> json" where
  "RelatedArea_json d = JObj [(''IntersectionGuid'', JStr (ra_IntersectionGuid d)),
     (''Name'', JStr (ra_Name d)), (''PavementGuid'', JStr (ra_PavementGuid d)),
     (''PavementGuid2'', JStr (ra_PavementGuid2 d)), (''PavementName'', JStr (ra_PavementName d)),
     (''PavementName2'', JStr (ra_PavementName2 d)), (''AreaGuid'', JStr (ra_AreaGuid d)),
     (''AreaGuid2'', JStr (ra_AreaGuid2 d)), (''AreaName'', JStr (ra_AreaName d)),
     (''AreaName2'', JStr (ra_AreaName2 d)), (''Type'', JInt (ra_Type d)),
     (''AreaRule'', AreaRule_json (ra_AreaRule d))]"

definition DataR102_json :: "('alg \<Rightarrow> json) \<Rightarrow> 'alg DataR102 \<Rightarrow> json" where
  "DataR102_json alg d = JObj [(''DataVersion'', JStr (dr_DataVersion d)), (''IntersectionInfo'', Intersection_json (dr_IntersectionInfo d)),
     (''Index'', JInt (dr_Index d)), (''BaseSetting'', BaseSetting_json (dr_BaseSetting d)),
     (''AssociatedEquips'', JArr (map AssociatedEquip_json (dr_AssociatedEquips d))), (''FusionParas'', alg (dr_FusionParas d)),
     (''RelatedAreas'', JArr (map RelatedArea_json (dr_RelatedAreas d)))]"

section \<open>Messages\<close>

text \<open>
  The classes \<open>S100\<close> to \<open>S108\<close> have the same members but for the type of their data, and so do \<open>R100\<close> to
  \<open>R108\<close>.
\<close>

record 'd request =
  sm_Version :: string
  sm_Code :: string
  sm_Guid :: string
  sm_Data :: 'd

record 'd response =
  rm_Version :: string
  rm_Code :: string
  rm_Guid :: string
  rm_State :: int
  rm_ResultMessage :: string
  rm_Data :: 'd

definition request_json :: "('d \<Rightarrow> json) \<Rightarrow> 'd request \<Rightarrow> json" where
  "request_json data_json m = JObj [(''Version'', JStr (sm_Version m)), (''Code'', JStr (sm_Code m)), (''Guid'', JStr (sm_Guid m)),
     (''Data'', data_json (sm_Data m))]"

definition response_json :: "('d \<Rightarrow> json) \<Rightarrow> 'd response \<Rightarrow> json" where
  "response_json data_json m = JObj [(''Version'', JStr (rm_Version m)), (''Code'', JStr (rm_Code m)), (''Guid'', JStr (rm_Guid m)),
     (''State'', JInt (rm_State m)), (''ResultMessage'', JStr (rm_ResultMessage m)), (''Data'', data_json (rm_Data m))]"

section \<open>The classes of the messages\<close>

text \<open>
  Each class with the JSON object of its members. The data of \<open>R100\<close> is a \<open>DataS100\<close>, that of \<open>R104\<close> a
  \<open>DataR102\<close>; \<open>DataR100\<close> and \<open>DataR104\<close> are not used.
\<close>

definition S100_json :: "DataS100 request \<Rightarrow> json" where "S100_json = request_json DataS100_json"
definition S101_json :: "DataS101 request \<Rightarrow> json" where "S101_json = request_json DataS101_json"
definition S102_json :: "DataS102 request \<Rightarrow> json" where "S102_json = request_json DataS102_json"
definition S103_json :: "DataS103 request \<Rightarrow> json" where "S103_json = request_json DataS103_json"
definition S104_json :: "DataS104 request \<Rightarrow> json" where "S104_json = request_json DataS104_json"
definition S105_json :: "DataS105 request \<Rightarrow> json" where "S105_json = request_json DataS105_json"
definition S106_json :: "DataS106 request \<Rightarrow> json" where "S106_json = request_json DataS106_json"
definition S107_json :: "DataS107 request \<Rightarrow> json" where "S107_json = request_json DataS107_json"
definition S108_json :: "DataS108 request \<Rightarrow> json" where "S108_json = request_json DataS108_json"

definition R100_json :: "DataS100 response \<Rightarrow> json" where "R100_json = response_json DataS100_json"
definition R101_json :: "DataR101 response \<Rightarrow> json" where "R101_json = response_json DataR101_json"
definition R102_json :: "('alg \<Rightarrow> json) \<Rightarrow> 'alg DataR102 response \<Rightarrow> json" where
  "R102_json alg = response_json (DataR102_json alg)"
definition R103_json :: "DataR103 response \<Rightarrow> json" where "R103_json = response_json DataR103_json"
definition R104_json :: "('alg \<Rightarrow> json) \<Rightarrow> 'alg DataR102 response \<Rightarrow> json" where
  "R104_json alg = response_json (DataR102_json alg)"
definition R105_json :: "DataR105 response \<Rightarrow> json" where "R105_json = response_json DataR105_json"
definition R106_json :: "DataR106 response \<Rightarrow> json" where "R106_json = response_json DataR106_json"
definition R107_json :: "DataR107 response \<Rightarrow> json" where "R107_json = response_json DataR107_json"
definition R108_json :: "DataR108 response \<Rightarrow> json" where "R108_json = response_json DataR108_json"

text \<open>The \<open>get\<close> functions of the answers are not written yet: they give 0 and fill in nothing.\<close>

definition response_get :: "string \<Rightarrow> 'd response \<Rightarrow> int \<times> 'd response" where
  "response_get comVersion m = (0, m)"

text \<open>Nothing of a message is lost in its object, whatever its class, if nothing of its data is.\<close>

lemma request_json_inj: "inj data_json \<Longrightarrow> inj (request_json data_json)"
  by (rule injI) (simp add: request_json_def inj_eq)

lemma response_json_inj: "inj data_json \<Longrightarrow> inj (response_json data_json)"
  by (rule injI) (simp add: response_json_def inj_eq)

lemmas response_data_json_defs = DataS100_json_def DataR101_json_def DataR103_json_def DataR105_json_def
  DataR106_json_def DataR107_json_def DataR108_json_def

lemma response_classes_inj:
  "inj R100_json" "inj R101_json" "inj R103_json" "inj R105_json" "inj R106_json" "inj R107_json" "inj R108_json"
  unfolding R100_json_def R101_json_def R103_json_def R105_json_def R106_json_def R107_json_def R108_json_def
  by (intro response_json_inj, rule injI, simp add: response_data_json_defs)+

text \<open>The \<open>get\<close> functions of the messages that start a conversation take a new identifier.\<close>

definition S100_get :: "string \<Rightarrow> string \<Rightarrow> DataS100 request \<Rightarrow> int \<times> DataS100 request" where
  "S100_get uuid comVersion m = (0, m\<lparr>sm_Version := comVersion, sm_Code := ''MCCS100'', sm_Guid := uuid\<rparr>)"

text \<open>\<open>uname\<close> is the result of \<open>dbGetUname\<close>, with the text it leaves.\<close>

definition S101_fill :: "string \<Rightarrow> int \<times> string \<Rightarrow> string \<times> string \<times> string \<Rightarrow> string \<Rightarrow> string \<Rightarrow> string \<Rightarrow> DataS101 request \<Rightarrow>
    int \<times> DataS101 request" where
  "S101_fill uuid uname ips version build comVersion m =
     (let m = m\<lparr>sm_Version := comVersion, sm_Code := ''MCCS101'', sm_Guid := uuid\<rparr>;
          (ret, number) = uname; (ethip, n2nip, mac) = ips;
          m = m\<lparr>sm_Data := (sm_Data m)\<lparr>d1_EquipNumber := number\<rparr>\<rparr>
      in if ret \<noteq> 0 then (- 1, m)
         else let n2nip = (if n2nip = [] then mac else n2nip); ipmsg = ethip @ ''['' @ n2nip @ '']''
              in (0, m\<lparr>sm_Data := (sm_Data m)\<lparr>d1_EquipIp := ipmsg, d1_DataVersion := version, d1_EquipType := ''XX'',
                    d1_SoftVersion := build\<rparr>\<rparr>))"

definition S102_get :: "string \<Rightarrow> string \<Rightarrow> int \<Rightarrow> string \<Rightarrow> DataS102 request \<Rightarrow> int \<times> DataS102 request" where
  "S102_get comVersion guuid state message m =
     (0, m\<lparr>sm_Data := (sm_Data m)\<lparr>x2_State := state, x2_Messsage := message\<rparr>, sm_Version := comVersion,
           sm_Code := ''MCCS102'', sm_Guid := guuid\<rparr>)"

definition S103_get :: "string \<Rightarrow> MainBoardState_t \<Rightarrow> string \<Rightarrow> DataS103 request \<Rightarrow> int \<times> DataS103 request" where
  "S103_get uuid board comVersion m =
     (0, m\<lparr>sm_Version := comVersion, sm_Code := ''MCCS103'', sm_Guid := uuid,
           sm_Data := (sm_Data m)\<lparr>x3_MainBoardState := board\<rparr>\<rparr>)"

definition S104_get :: "string \<Rightarrow> int \<times> string \<Rightarrow> string \<Rightarrow> DataS104 request \<Rightarrow> int \<times> DataS104 request" where
  "S104_get uuid uname comVersion m =
     (let (ret, number) = uname; m = m\<lparr>sm_Data := (sm_Data m)\<lparr>x4_MainboardGuid := number\<rparr>\<rparr>
      in if ret \<noteq> 0 then (- 1, m)
         else (0, m\<lparr>sm_Version := comVersion, sm_Code := ''MCCS104'', sm_Guid := uuid\<rparr>))"

definition S105_get :: "string \<Rightarrow> string \<Rightarrow> int \<Rightarrow> int \<Rightarrow> DataS105 request \<Rightarrow> int \<times> DataS105 request" where
  "S105_get uuid comVersion sent ok m =
     (0, m\<lparr>sm_Data := (sm_Data m)\<lparr>x5_Total := sent, x5_Success := ok\<rparr>, sm_Version := comVersion,
           sm_Code := ''MCCS105'', sm_Guid := uuid\<rparr>)"

definition S106_get :: "string \<Rightarrow> string \<Rightarrow> int \<Rightarrow> int \<Rightarrow> int \<Rightarrow> string \<Rightarrow> DataS106 request \<Rightarrow> int \<times> DataS106 request" where
  "S106_get comVersion guuid resultType state progress message m =
     (0, m\<lparr>sm_Data := (sm_Data m)\<lparr>x6_ResultType := resultType, x6_State := state, x6_Progress := progress, x6_Message := message\<rparr>,
           sm_Version := comVersion, sm_Code := ''MCCS106'', sm_Guid := guuid\<rparr>)"

definition S107_get :: "string \<Rightarrow> string \<Rightarrow> int \<Rightarrow> int \<Rightarrow> int \<Rightarrow> string \<Rightarrow> DataS107 request \<Rightarrow> int \<times> DataS107 request" where
  "S107_get comVersion guuid result state progress message m =
     (0, m\<lparr>sm_Data := (sm_Data m)\<lparr>x7_ResultType := result, x7_State := state, x7_Progress := progress, x7_Message := message\<rparr>,
           sm_Version := comVersion, sm_Code := ''MCCS107'', sm_Guid := guuid\<rparr>)"

definition S108_get :: "string \<Rightarrow> string \<Rightarrow> DataS108 request \<Rightarrow> int \<times> DataS108 request" where
  "S108_get uuid comVersion m = (0, m\<lparr>sm_Version := comVersion, sm_Code := ''MCCS108'', sm_Guid := uuid\<rparr>)"

text \<open>New objects: the texts of a class are empty, and the codes of the data are its own; the rest is left as it was.\<close>

definition new_request :: "'d \<Rightarrow> 'd request" where
  "new_request d = \<lparr>sm_Version = [], sm_Code = [], sm_Guid = [], sm_Data = d\<rparr>"

section \<open>The messages of the model\<close>

text \<open>The JSON object of a message of \<open>Eoc\<close>.\<close>

fun eoc_json :: "eoc_msg \<Rightarrow> json" where
  "eoc_json (S100 v g) = request_json DataS100_json \<lparr>sm_Version = v, sm_Code = ''MCCS100'', sm_Guid = g, sm_Data = \<lparr>x0_Code = ''MCCS100''\<rparr>\<rparr>"
| "eoc_json (S101 v g d) = request_json DataS101_json \<lparr>sm_Version = v, sm_Code = ''MCCS101'', sm_Guid = g, sm_Data = d\<rparr>"
| "eoc_json (S102 v g s t) = request_json DataS102_json \<lparr>sm_Version = v, sm_Code = ''MCCS102'', sm_Guid = g,
     sm_Data = \<lparr>x2_Code = ''MCCS102'', x2_State = s, x2_Messsage = t\<rparr>\<rparr>"
| "eoc_json (S103 v g b) = request_json DataS103_json \<lparr>sm_Version = v, sm_Code = ''MCCS103'', sm_Guid = g,
     sm_Data = \<lparr>x3_Code = ''MCCS103'', x3_MainBoardState = b\<rparr>\<rparr>"
| "eoc_json (S104 v g u) = request_json DataS104_json \<lparr>sm_Version = v, sm_Code = ''MCCS104'', sm_Guid = g,
     sm_Data = \<lparr>x4_Code = ''MCCS104'', x4_MainboardGuid = u\<rparr>\<rparr>"
| "eoc_json (S105 v g n k) = request_json DataS105_json \<lparr>sm_Version = v, sm_Code = ''MCCS105'', sm_Guid = g,
     sm_Data = \<lparr>x5_Code = ''MCCS105'', x5_Total = n, x5_Success = k\<rparr>\<rparr>"
| "eoc_json (S106 v g r s p t) = request_json DataS106_json \<lparr>sm_Version = v, sm_Code = ''MCCS106'', sm_Guid = g,
     sm_Data = \<lparr>x6_Code = ''MCCS106'', x6_ResultType = r, x6_State = s, x6_Progress = p, x6_Message = t\<rparr>\<rparr>"
| "eoc_json (S107 v g r s p t) = request_json DataS107_json \<lparr>sm_Version = v, sm_Code = ''MCCS107'', sm_Guid = g,
     sm_Data = \<lparr>x7_Code = ''MCCS107'', x7_ResultType = r, x7_State = s, x7_Progress = p, x7_Message = t\<rparr>\<rparr>"


text \<open>
  What a \<open>get\<close> function leaves in an object of its class, whatever was in it, is the message of the model that
  the threads of \<open>Eoc\<close> send.
\<close>

lemma get_messages:
  "x0_Code (sm_Data m0) = ''MCCS100'' \<Longrightarrow> request_json DataS100_json (snd (S100_get g v m0)) = eoc_json (S100 v g)"
  "x2_Code (sm_Data m2) = ''MCCS102'' \<Longrightarrow> request_json DataS102_json (snd (S102_get v g i t m2)) = eoc_json (S102 v g i t)"
  "x3_Code (sm_Data m3) = ''MCCS103'' \<Longrightarrow> request_json DataS103_json (snd (S103_get g b v m3)) = eoc_json (S103 v g b)"
  "x4_Code (sm_Data m4) = ''MCCS104'' \<Longrightarrow> request_json DataS104_json (snd (S104_get g (0, t) v m4)) = eoc_json (S104 v g t)"
  "x5_Code (sm_Data m5) = ''MCCS105'' \<Longrightarrow> request_json DataS105_json (snd (S105_get g v i j m5)) = eoc_json (S105 v g i j)"
  "x6_Code (sm_Data m6) = ''MCCS106'' \<Longrightarrow> request_json DataS106_json (snd (S106_get v g i j k t m6)) = eoc_json (S106 v g i j k t)"
  "x7_Code (sm_Data m7) = ''MCCS107'' \<Longrightarrow> request_json DataS107_json (snd (S107_get v g i j k t m7)) = eoc_json (S107 v g i j k t)"
  by (simp_all add: request_json_def S100_get_def S102_get_def S103_get_def S104_get_def S105_get_def S106_get_def S107_get_def
      DataS100_json_def DataS102_json_def DataS103_json_def DataS104_json_def DataS105_json_def DataS106_json_def DataS107_json_def)

lemma get_login:
  assumes "ee_uname e = Some uname" and "Eoc.S101_get e db = Some (d, db')"
  shows "\<exists>version. request_json DataS101_json (snd (S101_fill g (0, uname) (ee_eth_ip e, ee_n2n_ip e, ee_mac e) version (ee_build e) v m)) =
    eoc_json (S101 v g d) \<and> d1_DataVersion d = version"
  using assms
  by (auto simp: Eoc.S101_get_def S101_fill_def request_json_def DataS101_json_def Let_def split: prod.splits)

lemma inj_PartsState_json: "inj PartsState_json"
  by (rule injI) (simp add: PartsState_json_def)

lemma MainBoardState_json_inj: "MainBoardState_json a = MainBoardState_json b \<longleftrightarrow> a = b"
  by (cases a; cases b) (auto simp: MainBoardState_json_def inj_map_eq_map[OF inj_PartsState_json])

lemma DataS101_json_inj: "DataS101_json a = DataS101_json b \<longleftrightarrow> a = b"
  by (cases a; cases b) (auto simp: DataS101_json_def)

lemmas eoc_trees = request_json_def DataS100_json_def DataS102_json_def DataS103_json_def DataS104_json_def DataS105_json_def
  DataS106_json_def DataS107_json_def DataS101_json_inj MainBoardState_json_inj

definition msg_code :: "eoc_msg \<Rightarrow> string" where
  "msg_code a = (case a of S100 _ _ \<Rightarrow> ''MCCS100'' | S101 _ _ _ \<Rightarrow> ''MCCS101'' | S102 _ _ _ _ \<Rightarrow> ''MCCS102'' | S103 _ _ _ \<Rightarrow> ''MCCS103''
     | S104 _ _ _ \<Rightarrow> ''MCCS104'' | S105 _ _ _ _ \<Rightarrow> ''MCCS105'' | S106 _ _ _ _ _ _ \<Rightarrow> ''MCCS106'' | S107 _ _ _ _ _ _ \<Rightarrow> ''MCCS107'')"

lemma member_Code: "member ''Code'' (eoc_json a) = Some (JStr (msg_code a))"
  by (cases a) (simp_all add: member_def msg_code_def request_json_def)

text \<open>A configuration is determined by its JSON object, if the parameters of the algorithm are by theirs.\<close>

lemma config_trees_inj:
  "inj AssociatedEquip_json" "inj StartEndTime_json" "inj RelatedAreaParams_json" "inj IntersectionBaseSetting_json"
  "inj BaseSetting_json" "inj JInt"
  by (auto intro!: injI simp: AssociatedEquip_json_def StartEndTime_json_def RelatedAreaParams_json_def
      IntersectionBaseSetting_json_def BaseSetting_json_def)

lemma RuleDetail_json_inj: "inj RuleDetail_json"
  by (rule injI) (simp add: RuleDetail_json_def inj_map_eq_map[OF config_trees_inj(2)] inj_map_eq_map[OF config_trees_inj(6)]
      inj_eq[OF config_trees_inj(3)])

lemma AreaRule_json_inj: "inj AreaRule_json"
  by (rule injI) (simp add: AreaRule_json_def inj_map_eq_map[OF RuleDetail_json_inj])

lemma RelatedArea_json_inj: "inj RelatedArea_json"
  by (rule injI) (simp add: RelatedArea_json_def inj_eq[OF AreaRule_json_inj])

lemma Intersection_json_inj: "inj Intersection_json"
  by (rule injI) (simp add: Intersection_json_def inj_eq[OF config_trees_inj(4)])

lemma config_json_inj: "inj alg \<Longrightarrow> inj (DataR102_json alg)"
  by (rule injI) (simp add: DataR102_json_def inj_eq inj_map_eq_map[OF config_trees_inj(1)]
      inj_eq[OF config_trees_inj(5)] inj_eq[OF Intersection_json_inj] inj_map_eq_map[OF RelatedArea_json_inj])

text \<open>
  Two different messages to the centre never have the same JSON object, so nothing of a message is lost in
  it and no message is taken for one of another kind; the member \<open>Code\<close> names the kind.
\<close>
lemma messages_distinct:
  "(eoc_json a = eoc_json b \<longleftrightarrow> a = b) \<and> member ''Code'' (eoc_json a) = Some (JStr (msg_code a))"
proof -
  have "a = b" if eq: "eoc_json a = eoc_json b"
  proof -
    have "msg_code a = msg_code b" using eq member_Code[of a] member_Code[of b] by simp
    then show ?thesis using eq
      by (cases a; cases b) (simp_all add: msg_code_def eoc_trees)
  qed
  then show ?thesis using member_Code by blast
qed

end
