(* ===== verification/AlgParam.thy ===== *)
theory AlgParam
  imports EocMsgs "HOL-Library.Multiset"
begin

text \<open>
  The parameters of the merge algorithm, \<open>lib/AlgorithmParam.h\<close>: the classes with their constructors, the JSON
  objects that \<open>XPACK\<close> declares, and the conversions between numbered items and plain lists. The centre sends
  them, the program keeps their JSON text in a file and reads it at the next start.
\<close>

section \<open>Classes\<close>

text \<open>
  The default constructors of \<open>AngleItem\<close> and \<open>Distance\<close> set nothing: what the memory held is an argument.
  \<open>MidCar\<close> has members of type \<open>double\<close> and a constructor that takes \<open>int\<close>s.
\<close>

record AngleItem =
  ai_faceDirection :: int
  ai_value :: real

definition AngleItem_new :: "AngleItem \<Rightarrow> AngleItem" where
  "AngleItem_new memory = memory"

definition AngleItem_of :: "int \<Rightarrow> real \<Rightarrow> AngleItem" where
  "AngleItem_of faceDirection value =
     \<lparr>ai_faceDirection = faceDirection, ai_value = value\<rparr>"

definition AngleItem_json :: "AngleItem \<Rightarrow> json" where
  "AngleItem_json x = JObj [(''faceDirection'', JInt (ai_faceDirection x)), (''value'', JReal (ai_value x))]"

record DoubleValue =
  dv_index :: int
  dv_value :: real

definition DoubleValue_new :: DoubleValue where
  "DoubleValue_new = \<lparr>dv_index = 0, dv_value = 0\<rparr>"

definition DoubleValue_of :: "int \<Rightarrow> real \<Rightarrow> DoubleValue" where
  "DoubleValue_of index value =
     \<lparr>dv_index = index, dv_value = value\<rparr>"

definition DoubleValue_json :: "DoubleValue \<Rightarrow> json" where
  "DoubleValue_json x = JObj [(''index'', JInt (dv_index x)), (''value'', JReal (dv_value x))]"

record Distance =
  di_faceDirection :: int
  di_value :: real

definition Distance_new :: "Distance \<Rightarrow> Distance" where
  "Distance_new memory = memory"

definition Distance_of :: "int \<Rightarrow> real \<Rightarrow> Distance" where
  "Distance_of faceDirection value =
     \<lparr>di_faceDirection = faceDirection, di_value = value\<rparr>"

definition Distance_json :: "Distance \<Rightarrow> json" where
  "Distance_json x = JObj [(''faceDirection'', JInt (di_faceDirection x)), (''value'', JReal (di_value x))]"

record IntValue =
  iv_index :: int
  iv_value :: int

definition IntValue_new :: IntValue where
  "IntValue_new = \<lparr>iv_index = 0, iv_value = 0\<rparr>"

definition IntValue_of :: "int \<Rightarrow> int \<Rightarrow> IntValue" where
  "IntValue_of index value =
     \<lparr>iv_index = index, iv_value = value\<rparr>"

definition IntValue_json :: "IntValue \<Rightarrow> json" where
  "IntValue_json x = JObj [(''index'', JInt (iv_index x)), (''value'', JInt (iv_value x))]"

record PointF =
  pf_x :: real
  pf_y :: real

definition PointF_new :: PointF where
  "PointF_new = \<lparr>pf_x = 0, pf_y = 0\<rparr>"

definition PointF_of :: "real \<Rightarrow> real \<Rightarrow> PointF" where
  "PointF_of x y =
     \<lparr>pf_x = x, pf_y = y\<rparr>"

definition PointF_json :: "PointF \<Rightarrow> json" where
  "PointF_json x = JObj [(''x'', JReal (pf_x x)), (''y'', JReal (pf_y x))]"

record CorrectedValueGPS =
  cg_faceDirection :: int
  cg_latitude :: real
  cg_longitude :: real

definition CorrectedValueGPS_new :: CorrectedValueGPS where
  "CorrectedValueGPS_new = \<lparr>cg_faceDirection = 0, cg_latitude = 0, cg_longitude = 0\<rparr>"

definition CorrectedValueGPS_of :: "int \<Rightarrow> real \<Rightarrow> real \<Rightarrow> CorrectedValueGPS" where
  "CorrectedValueGPS_of index latitude longitude =
     \<lparr>cg_faceDirection = index, cg_latitude = latitude, cg_longitude = longitude\<rparr>"

definition CorrectedValueGPS_json :: "CorrectedValueGPS \<Rightarrow> json" where
  "CorrectedValueGPS_json x = JObj [(''faceDirection'', JInt (cg_faceDirection x)), (''latitude'', JReal (cg_latitude x)),
     (''longitude'', JReal (cg_longitude x))]"

record RectF =
  rf_x :: real
  rf_y :: real
  rf_width :: real
  rf_height :: real

definition RectF_new :: RectF where
  "RectF_new = \<lparr>rf_x = 0, rf_y = 0, rf_width = 0, rf_height = 0\<rparr>"

definition RectF_of :: "real \<Rightarrow> real \<Rightarrow> real \<Rightarrow> real \<Rightarrow> RectF" where
  "RectF_of x y width height =
     \<lparr>rf_x = x, rf_y = y, rf_width = width, rf_height = height\<rparr>"

definition RectF_json :: "RectF \<Rightarrow> json" where
  "RectF_json x = JObj [(''x'', JReal (rf_x x)), (''y'', JReal (rf_y x)), (''width'', JReal (rf_width x)),
     (''height'', JReal (rf_height x))]"

record RectFValue =
  rv_index :: int
  rv_x :: real
  rv_y :: real
  rv_width :: real
  rv_height :: real

definition RectFValue_new :: RectFValue where
  "RectFValue_new = \<lparr>rv_index = 0, rv_x = 0, rv_y = 0, rv_width = 0, rv_height = 0\<rparr>"

definition RectFValue_of :: "int \<Rightarrow> real \<Rightarrow> real \<Rightarrow> real \<Rightarrow> real \<Rightarrow> RectFValue" where
  "RectFValue_of index x y width height =
     \<lparr>rv_index = index, rv_x = x, rv_y = y, rv_width = width, rv_height = height\<rparr>"

definition RectFValue_json :: "RectFValue \<Rightarrow> json" where
  "RectFValue_json x = JObj [(''index'', JInt (rv_index x)), (''x'', JReal (rv_x x)), (''y'', JReal (rv_y x)),
     (''width'', JReal (rv_width x)), (''height'', JReal (rv_height x))]"

record Threshold =
  th_min :: real
  th_max :: real
  th_mid :: real

definition Threshold_new :: Threshold where
  "Threshold_new = \<lparr>th_min = 0, th_max = 0, th_mid = 0\<rparr>"

definition Threshold_of :: "real \<Rightarrow> real \<Rightarrow> real \<Rightarrow> Threshold" where
  "Threshold_of lo hi mid =
     \<lparr>th_min = lo, th_max = hi, th_mid = mid\<rparr>"

definition Threshold_json :: "Threshold \<Rightarrow> json" where
  "Threshold_json x = JObj [(''min'', JReal (th_min x)), (''max'', JReal (th_max x)), (''mid'', JReal (th_mid x))]"

record MidCar =
  mc_rangeLeftX :: real
  mc_rangeRightX :: real
  mc_mergeWithLeftcarLeftx :: real
  mc_mergeWithRightcarRightx :: real

definition MidCar_new :: MidCar where
  "MidCar_new = \<lparr>mc_rangeLeftX = 0, mc_rangeRightX = 0, mc_mergeWithLeftcarLeftx = 0,
     mc_mergeWithRightcarRightx = 0\<rparr>"

definition MidCar_of :: "int \<Rightarrow> int \<Rightarrow> int \<Rightarrow> int \<Rightarrow> MidCar" where
  "MidCar_of rangeLeftX rangeRightX mergeWithLeftcarLeftx mergeWithRightcarRightx =
     \<lparr>mc_rangeLeftX = of_int rangeLeftX, mc_rangeRightX = of_int rangeRightX,
     mc_mergeWithLeftcarLeftx = of_int mergeWithLeftcarLeftx,
     mc_mergeWithRightcarRightx = of_int mergeWithRightcarRightx\<rparr>"

definition MidCar_json :: "MidCar \<Rightarrow> json" where
  "MidCar_json x = JObj [(''rangeLeftX'', JReal (mc_rangeLeftX x)), (''rangeRightX'', JReal (mc_rangeRightX x)),
     (''mergeWithLeftcarLeftx'', JReal (mc_mergeWithLeftcarLeftx x)),
     (''mergeWithRightcarRightx'', JReal (mc_mergeWithRightcarRightx x))]"

record TrackDistanceRegionDivision =
  td_faceDirection :: int
  td_in :: PointF
  td_out :: PointF
  td_carRangeUpX :: int
  td_carRangeBottomY :: int

definition TrackDistanceRegionDivision_new :: TrackDistanceRegionDivision where
  "TrackDistanceRegionDivision_new = \<lparr>td_faceDirection = 0, td_in = PointF_new, td_out = PointF_new, td_carRangeUpX = 0,
     td_carRangeBottomY = 0\<rparr>"

definition TrackDistanceRegionDivision_of :: "int \<Rightarrow> PointF \<Rightarrow> PointF \<Rightarrow> int \<Rightarrow> int \<Rightarrow> TrackDistanceRegionDivision" where
  "TrackDistanceRegionDivision_of direction x_in x_out carRangeUpX carRangeBottomY =
     \<lparr>td_faceDirection = direction, td_in = x_in, td_out = x_out, td_carRangeUpX = carRangeUpX,
     td_carRangeBottomY = carRangeBottomY\<rparr>"

definition TrackDistanceRegionDivision_json :: "TrackDistanceRegionDivision \<Rightarrow> json" where
  "TrackDistanceRegionDivision_json x = JObj [(''faceDirection'', JInt (td_faceDirection x)), (''in'', PointF_json (td_in x)),
     (''out'', PointF_json (td_out x)), (''carRangeUpX'', JInt (td_carRangeUpX x)),
     (''carRangeBottomY'', JInt (td_carRangeBottomY x))]"

record PointFArray =
  pa_index :: int
  pa_value :: "PointF list"

definition PointFArray_new :: PointFArray where
  "PointFArray_new = \<lparr>pa_index = 0, pa_value = []\<rparr>"

definition PointFArray_json :: "PointFArray \<Rightarrow> json" where
  "PointFArray_json x = JObj [(''index'', JInt (pa_index x)), (''value'', JArr (map PointF_json (pa_value x)))]"

record DrivingAreaX =
  dx_flowDirection :: int
  dx_value :: "RectFValue list"

definition DrivingAreaX_new :: DrivingAreaX where
  "DrivingAreaX_new = \<lparr>dx_flowDirection = 0, dx_value = []\<rparr>"

definition DrivingAreaX_json :: "DrivingAreaX \<Rightarrow> json" where
  "DrivingAreaX_json x = JObj [(''flowDirection'', JInt (dx_flowDirection x)),
     (''value'', JArr (map RectFValue_json (dx_value x)))]"

record DrivingAreaItem =
  da_flowDirection :: int
  da_value :: "PointFArray list"

definition DrivingAreaItem_new :: DrivingAreaItem where
  "DrivingAreaItem_new = \<lparr>da_flowDirection = 0, da_value = []\<rparr>"

definition DrivingAreaItem_json :: "DrivingAreaItem \<Rightarrow> json" where
  "DrivingAreaItem_json x = JObj [(''flowDirection'', JInt (da_flowDirection x)),
     (''value'', JArr (map PointFArray_json (da_value x)))]"

record TransMatrixItem =
  tm_faceDirection :: int
  tm_value :: "DoubleValue list"

definition TransMatrixItem_new :: TransMatrixItem where
  "TransMatrixItem_new = \<lparr>tm_faceDirection = 0, tm_value = []\<rparr>"

definition TransMatrixItem_json :: "TransMatrixItem \<Rightarrow> json" where
  "TransMatrixItem_json x = JObj [(''faceDirection'', JInt (tm_faceDirection x)),
     (''value'', JArr (map DoubleValue_json (tm_value x)))]"

record AlgorithmParam =
  ap_intersectionName :: string
  ap_transformMatrix :: "TransMatrixItem list"
  ap_angle :: "AngleItem list"
  ap_distanceOfStopLineFromRoadCenter :: "Distance list"
  ap_drivingArea :: "DrivingAreaItem list"
  ap_drivingMissingArea :: "DrivingAreaX list"
  ap_drivingInArea :: "DrivingAreaX list"
  ap_correctedValueGPSs :: "CorrectedValueGPS list"
  ap_startUTMX :: int
  ap_startUTMY :: int
  ap_midLongitude :: real
  ap_midLatitude :: real
  ap_pixelType :: int
  ap_minTrackDistance :: int
  ap_maxTrackDistance :: int
  ap_areaRatio :: real
  ap_failCount1 :: int
  ap_failCount2 :: int
  ap_imageWidth :: int
  ap_imageHeight :: int
  ap_pixelByMeterX :: real
  ap_pixelByMeterY :: real
  ap_speedMovingAverage :: real
  ap_minIntersectionArea :: real
  ap_roadLength :: int
  ap_shakingPixelThreshold :: real
  ap_stopLineLength :: int
  ap_trackInLength :: int
  ap_trackOutLength :: int
  ap_intersectionsNumber :: int
  ap_maxSpeedByPixel :: int
  ap_carMatchCount :: int
  ap_centerDistanceThreshold :: Threshold
  ap_areaThreshold :: Threshold
  ap_stopSpeedThreshold :: Threshold
  ap_selectionCriteria :: int
  ap_midCar :: MidCar
  ap_zone :: int
  ap_maxMatchDistance :: real
  ap_minSize :: real
  ap_distanceThresh :: real
  ap_maxRadarInvisiblePeriod :: real
  ap_maxCameraInvisiblePeriod :: real
  ap_fusionMinDistance :: real
  ap_fusionMaxDistance :: real
  ap_associateDistanceCamera :: real
  ap_associateDistanceRadar :: real
  ap_reserve1 :: string
  ap_reserve2 :: string
  ap_reserve3 :: string
  ap_reserve4 :: string
  ap_reserve5 :: string
  ap_reserve6 :: string
  ap_reserve7 :: string
  ap_reserve8 :: string
  ap_reserve9 :: string
  ap_reserve10 :: string
  ap_reserve11 :: string
  ap_reserve12 :: string
  ap_reserve13 :: string
  ap_reserve14 :: string
  ap_reserve15 :: string
  ap_selectedErvGuids :: "string list"

definition AlgorithmParam_new :: AlgorithmParam where
  "AlgorithmParam_new = \<lparr>ap_intersectionName = [], ap_transformMatrix = [], ap_angle = [],
     ap_distanceOfStopLineFromRoadCenter = [], ap_drivingArea = [], ap_drivingMissingArea = [],
     ap_drivingInArea = [], ap_correctedValueGPSs = [], ap_startUTMX = 325235, ap_startUTMY = 4512985,
     ap_midLongitude = 114.8901745, ap_midLatitude = 40.7745085, ap_pixelType = 1, ap_minTrackDistance = 80,
     ap_maxTrackDistance = 120, ap_areaRatio = 0.8, ap_failCount1 = 5, ap_failCount2 = 5, ap_imageWidth = 1920,
     ap_imageHeight = 1080, ap_pixelByMeterX = 10.245, ap_pixelByMeterY = 7.76, ap_speedMovingAverage = 0.3,
     ap_minIntersectionArea = 50, ap_roadLength = 300, ap_shakingPixelThreshold = 0.5, ap_stopLineLength = 5,
     ap_trackInLength = 0, ap_trackOutLength = 20, ap_intersectionsNumber = 4, ap_maxSpeedByPixel = 30,
     ap_carMatchCount = 3, ap_centerDistanceThreshold = Threshold_new\<lparr>th_max := 0.4, th_min := 0.2\<rparr>,
     ap_areaThreshold = Threshold_new\<lparr>th_max := 0.3, th_min := 0.1, th_mid := 0.2\<rparr>,
     ap_stopSpeedThreshold = Threshold_new\<lparr>th_max := 2, th_min := 0.4\<rparr>, ap_selectionCriteria = 1,
     ap_midCar = MidCar_new, ap_zone = 50, ap_maxMatchDistance = 2.5, ap_minSize = 25, ap_distanceThresh = 4,
     ap_maxRadarInvisiblePeriod = 0.5, ap_maxCameraInvisiblePeriod = 0.5, ap_fusionMinDistance = 60,
     ap_fusionMaxDistance = 100, ap_associateDistanceCamera = 20, ap_associateDistanceRadar = 20, ap_reserve1 = [],
     ap_reserve2 = [], ap_reserve3 = [], ap_reserve4 = [], ap_reserve5 = [], ap_reserve6 = [], ap_reserve7 = [],
     ap_reserve8 = [], ap_reserve9 = [], ap_reserve10 = [], ap_reserve11 = [], ap_reserve12 = [], ap_reserve13 = [],
     ap_reserve14 = [], ap_reserve15 = [], ap_selectedErvGuids = []\<rparr>"

definition AlgorithmParam_json :: "AlgorithmParam \<Rightarrow> json" where
  "AlgorithmParam_json x = JObj [(''intersectionName'', JStr (ap_intersectionName x)),
     (''transformMatrix'', JArr (map TransMatrixItem_json (ap_transformMatrix x))),
     (''angle'', JArr (map AngleItem_json (ap_angle x))), (''startUTMX'', JInt (ap_startUTMX x)),
     (''startUTMY'', JInt (ap_startUTMY x)), (''midLongitude'', JReal (ap_midLongitude x)),
     (''midLatitude'', JReal (ap_midLatitude x)),
     (''distanceOfStopLineFromRoadCenter'', JArr (map Distance_json (ap_distanceOfStopLineFromRoadCenter x))),
     (''selectionCriteria'', JInt (ap_selectionCriteria x)),
     (''drivingArea'', JArr (map DrivingAreaItem_json (ap_drivingArea x))),
     (''drivingMissingArea'', JArr (map DrivingAreaX_json (ap_drivingMissingArea x))),
     (''drivingInArea'', JArr (map DrivingAreaX_json (ap_drivingInArea x))), (''pixelType'', JInt (ap_pixelType x)),
     (''minTrackDistance'', JInt (ap_minTrackDistance x)), (''maxTrackDistance'', JInt (ap_maxTrackDistance x)),
     (''areaRatio'', JReal (ap_areaRatio x)), (''failCount1'', JInt (ap_failCount1 x)),
     (''failCount2'', JInt (ap_failCount2 x)), (''imageWidth'', JInt (ap_imageWidth x)),
     (''imageHeight'', JInt (ap_imageHeight x)), (''pixelByMeterX'', JReal (ap_pixelByMeterX x)),
     (''pixelByMeterY'', JReal (ap_pixelByMeterY x)), (''speedMovingAverage'', JReal (ap_speedMovingAverage x)),
     (''minIntersectionArea'', JReal (ap_minIntersectionArea x)), (''roadLength'', JInt (ap_roadLength x)),
     (''shakingPixelThreshold'', JReal (ap_shakingPixelThreshold x)),
     (''stopLineLength'', JInt (ap_stopLineLength x)), (''trackInLength'', JInt (ap_trackInLength x)),
     (''trackOutLength'', JInt (ap_trackOutLength x)), (''intersectionsNumber'', JInt (ap_intersectionsNumber x)),
     (''fusionMinDistance'', JReal (ap_fusionMinDistance x)),
     (''fusionMaxDistance'', JReal (ap_fusionMaxDistance x)), (''maxSpeedByPixel'', JInt (ap_maxSpeedByPixel x)),
     (''carMatchCount'', JInt (ap_carMatchCount x)),
     (''centerDistanceThreshold'', Threshold_json (ap_centerDistanceThreshold x)),
     (''areaThreshold'', Threshold_json (ap_areaThreshold x)),
     (''stopSpeedThreshold'', Threshold_json (ap_stopSpeedThreshold x)),
     (''correctedValueGPSs'', JArr (map CorrectedValueGPS_json (ap_correctedValueGPSs x))),
     (''zone'', JInt (ap_zone x)), (''midCar'', MidCar_json (ap_midCar x)),
     (''maxMatchDistance'', JReal (ap_maxMatchDistance x)), (''minSize'', JReal (ap_minSize x)),
     (''distanceThresh'', JReal (ap_distanceThresh x)),
     (''maxRadarInvisiblePeriod'', JReal (ap_maxRadarInvisiblePeriod x)),
     (''maxCameraInvisiblePeriod'', JReal (ap_maxCameraInvisiblePeriod x)),
     (''associateDistanceCamera'', JReal (ap_associateDistanceCamera x)),
     (''associateDistanceRadar'', JReal (ap_associateDistanceRadar x)), (''reserve1'', JStr (ap_reserve1 x)),
     (''reserve2'', JStr (ap_reserve2 x)), (''reserve3'', JStr (ap_reserve3 x)),
     (''reserve4'', JStr (ap_reserve4 x)), (''reserve5'', JStr (ap_reserve5 x)),
     (''reserve6'', JStr (ap_reserve6 x)), (''reserve7'', JStr (ap_reserve7 x)),
     (''reserve8'', JStr (ap_reserve8 x)), (''reserve9'', JStr (ap_reserve9 x)),
     (''reserve10'', JStr (ap_reserve10 x)), (''reserve11'', JStr (ap_reserve11 x)),
     (''reserve12'', JStr (ap_reserve12 x)), (''reserve13'', JStr (ap_reserve13 x)),
     (''reserve14'', JStr (ap_reserve14 x)), (''reserve15'', JStr (ap_reserve15 x)),
     (''selectedErvGuids'', JArr (map JStr (ap_selectedErvGuids x)))]"

section \<open>Numbered items and plain lists\<close>

text \<open>
  \<open>set\<close> numbers the values, \<open>get\<close> puts the items in the order of their numbers and appends them to a list of
  the caller. Items with equal numbers keep their order here; the library promises none. The result of \<open>get\<close>
  has the index and the values of the caller and the object.
\<close>

definition numbered :: "(int \<Rightarrow> 'a \<Rightarrow> 'b) \<Rightarrow> 'a list \<Rightarrow> 'b list" where
  "numbered item values = map (\<lambda>(i, v). item (int i) v) (enumerate 0 values)"

definition DrivingAreaX_set :: "int \<Rightarrow> RectF list \<Rightarrow> DrivingAreaX \<Rightarrow> DrivingAreaX" where
  "DrivingAreaX_set index values x = x\<lparr>dx_flowDirection := index, dx_value := numbered (\<lambda>i r.
     RectFValue_new\<lparr>rv_index := i, rv_x := rf_x r, rv_y := rf_y r, rv_width := rf_width r, rv_height := rf_height r\<rparr>) values\<rparr>"

definition DrivingAreaX_get :: "int \<times> RectF list \<Rightarrow> DrivingAreaX \<Rightarrow> (int \<times> RectF list) \<times> DrivingAreaX" where
  "DrivingAreaX_get = (\<lambda>(index, values) x.
     (let index = dx_flowDirection x
      in if dx_value x = [] then ((index, values), x)
         else let x = (if 1 < length (dx_value x) then x\<lparr>dx_value := sort_key rv_index (dx_value x)\<rparr> else x)
              in ((index, values @ map (\<lambda>r. RectF_new\<lparr>rf_x := rv_x r, rf_y := rv_y r, rf_width := rv_width r,
                     rf_height := rv_height r\<rparr>) (dx_value x)), x)))"

definition DrivingAreaItem_set :: "int \<Rightarrow> PointF list list \<Rightarrow> DrivingAreaItem \<Rightarrow> DrivingAreaItem" where
  "DrivingAreaItem_set index values x = x\<lparr>da_flowDirection := index, da_value := numbered (\<lambda>i ps.
     PointFArray_new\<lparr>pa_index := i, pa_value := ps\<rparr>) values\<rparr>"

text \<open>Unlike the other two, this one assigns the caller's index to the member.\<close>

definition DrivingAreaItem_get :: "int \<times> PointF list list \<Rightarrow> DrivingAreaItem \<Rightarrow> (int \<times> PointF list list) \<times> DrivingAreaItem" where
  "DrivingAreaItem_get = (\<lambda>(index, values) x.
     (let x = x\<lparr>da_flowDirection := index\<rparr>
      in if da_value x = [] then ((index, values), x)
         else let x = (if 1 < length (da_value x) then x\<lparr>da_value := sort_key pa_index (da_value x)\<rparr> else x)
              in ((index, values @ map pa_value (da_value x)), x)))"

definition TransMatrixItem_set :: "int \<Rightarrow> real list \<Rightarrow> TransMatrixItem \<Rightarrow> TransMatrixItem" where
  "TransMatrixItem_set index values x = x\<lparr>tm_faceDirection := index, tm_value := numbered (\<lambda>i v.
     DoubleValue_new\<lparr>dv_index := i, dv_value := v\<rparr>) values\<rparr>"

definition TransMatrixItem_get :: "int \<times> real list \<Rightarrow> TransMatrixItem \<Rightarrow> (int \<times> real list) \<times> TransMatrixItem" where
  "TransMatrixItem_get = (\<lambda>(index, values) x.
     (let index = tm_faceDirection x
      in if tm_value x = [] then ((index, values), x)
         else let x = (if 1 < length (tm_value x) then x\<lparr>tm_value := sort_key dv_index (tm_value x)\<rparr> else x)
              in ((index, values @ map dv_value (tm_value x)), x)))"

section \<open>Nothing is lost in the JSON objects\<close>

lemma item_trees_inj:
  "inj AngleItem_json" "inj DoubleValue_json" "inj Distance_json" "inj IntValue_json" "inj PointF_json"
  "inj CorrectedValueGPS_json" "inj RectF_json" "inj RectFValue_json" "inj Threshold_json" "inj MidCar_json" "inj JStr"
  by (auto intro!: injI simp: AngleItem_json_def DoubleValue_json_def Distance_json_def IntValue_json_def PointF_json_def
      CorrectedValueGPS_json_def RectF_json_def RectFValue_json_def Threshold_json_def MidCar_json_def)

lemmas item_trees = item_trees_inj[THEN inj_eq] item_trees_inj[THEN inj_map_eq_map]

lemma list_trees_inj:
  "inj PointFArray_json" "inj DrivingAreaX_json" "inj TransMatrixItem_json" "inj TrackDistanceRegionDivision_json"
  by (auto intro!: injI simp: PointFArray_json_def DrivingAreaX_json_def TransMatrixItem_json_def
      TrackDistanceRegionDivision_json_def item_trees)

lemma area_trees_inj: "inj DrivingAreaItem_json"
  by (auto intro!: injI simp: DrivingAreaItem_json_def list_trees_inj[THEN inj_map_eq_map])

lemma AlgorithmParam_json_inj: "inj AlgorithmParam_json"
  by (rule injI) (simp add: AlgorithmParam_json_def item_trees list_trees_inj[THEN inj_map_eq_map] area_trees_inj[THEN inj_map_eq_map])

text \<open>With it, two different configurations of the centre never have the same JSON object.\<close>

lemma configuration_distinct: "inj (DataR102_json AlgorithmParam_json)"
  by (rule config_json_inj[OF AlgorithmParam_json_inj])

section \<open>Lists are read back in the order of the numbers\<close>

lemma numbered_key:
  assumes "\<And>i v. key (item i v) = i"
  shows "map key (numbered item vs) = map int [0..<length vs]"
  unfolding numbered_def enumerate_eq_zip by (rule nth_equalityI) (simp_all add: assms)

lemma numbered_value:
  assumes "\<And>i v. val (item i v) = v"
  shows "map val (numbered item vs) = vs"
  unfolding numbered_def enumerate_eq_zip by (rule nth_equalityI) (simp_all add: assms)

text \<open>However the items are arranged, sorting by the numbers arranges them as they were.\<close>

lemma numbered_sorted:
  assumes "\<And>i v. key (item i v) = i" and "mset xs = mset (numbered item vs)"
  shows "sort_key key xs = numbered item vs"
proof (rule properties_for_sort_key)
  let ?ys = "numbered item vs"
  show "mset ?ys = mset xs" using assms(2) by simp
  show "sorted (map key ?ys)" using numbered_key[of key item vs] assms(1) by (simp add: sorted_wrt_map)
  have "distinct (map key ?ys)" using numbered_key[of key item vs] assms(1) by (simp add: distinct_map inj_on_def)
  then have "inj_on key (set ?ys)" by (simp add: distinct_map)
  then show "filter (\<lambda>y. key x = key y) ?ys = filter (\<lambda>y. key x = key y) xs" if "x \<in> set ?ys" for x
  proof -
    have "filter (\<lambda>y. key x = key y) zs = filter (\<lambda>y. x = y) zs" if "set zs = set ?ys" for zs
      by (rule filter_cong) (use that \<open>inj_on key (set ?ys)\<close> \<open>x \<in> set ?ys\<close> in \<open>auto dest: inj_onD\<close>)
    moreover have "filter (\<lambda>y. x = y) zs = replicate (count (mset zs) x) x" for zs by (induction zs) auto
    moreover have "set xs = set ?ys" using assms(2) by (metis set_mset_mset)
    ultimately show ?thesis using assms(2) by simp
  qed
qed

text \<open>
  What \<open>set\<close> stored is what \<open>get\<close> appends, in whatever order the items have come back from the JSON text.
  The driving area loses its direction, and its \<open>get\<close> gives none.
\<close>

lemma matrix_read_back:
  assumes "mset items = mset (tm_value (TransMatrixItem_set direction values x))"
  shows "fst (TransMatrixItem_get (index, before) (TransMatrixItem_set direction values x\<lparr>tm_value := items\<rparr>)) =
    (direction, before @ values)"
proof -
  let ?item = "\<lambda>i v. DoubleValue_new\<lparr>dv_index := i, dv_value := v\<rparr>"
  have m: "mset items = mset (numbered ?item values)" using assms by (simp add: TransMatrixItem_set_def)
  have s: "sort_key dv_index items = numbered ?item values" by (rule numbered_sorted[OF _ m]) simp
  have v: "map dv_value (numbered ?item values) = values" by (rule numbered_value) simp
  have "items = sort_key dv_index items" if "\<not> 1 < length items" using that by (cases items) auto
  moreover have "items = [] \<Longrightarrow> values = []" using s v by auto
  ultimately show ?thesis using s v by (auto simp: TransMatrixItem_get_def TransMatrixItem_set_def Let_def)
qed

lemma area_direction_lost:
  "fst (fst (DrivingAreaItem_get (index, before) x)) = index"
  "da_flowDirection (snd (DrivingAreaItem_get (index, before) x)) = index"
  by (simp_all add: DrivingAreaItem_get_def Let_def)

end
