(* ===== verification/Files.thy ===== *)
theory Files
  imports Eoc Dns Sockets Replay Saving
begin

text \<open>
  The file helpers of the centre communication, \<open>eocCom/fileFun.cpp\<close>: the MD5 of a file, the writing of
  downloaded data and the download. The functions of the MD5 library and of libcurl are parameters: of a
  transfer, the calls of the callback with what \<open>write\<close> does in each, and the result.
\<close>

section \<open>The MD5 of a file\<close>

record 'm md5 =
  md_init :: 'm
  md_update :: "'m \<Rightarrow> bytes \<Rightarrow> 'm"
  md_final :: "'m \<Rightarrow> bytes"

definition MD5_DIGEST_LENGTH :: nat where "MD5_DIGEST_LENGTH = 16"
definition md5_buffer :: nat where "md5_buffer = 1024"

text \<open>
  \<open>istream::read\<close>. A read that finds fewer characters than it was asked for ends the stream; one that the
  device refuses, which it does on a directory, makes the stream fail and not end.
\<close>

definition stream_read :: "bool \<Rightarrow> nat \<Rightarrow> istream \<Rightarrow> string \<times> istream" where
  "stream_read readable n s =
     (if is_fail s \<or> is_eof s \<or> \<not> readable then ([], s\<lparr>is_fail := True\<rparr>)
      else let short = length (is_rest s) < n
           in (take n (is_rest s), s\<lparr>is_rest := drop n (is_rest s), is_eof := short, is_fail := short\<rparr>))"

partial_function (option) md5_loop :: "'m md5 \<Rightarrow> bool \<Rightarrow> istream \<Rightarrow> 'm \<Rightarrow> 'm option" where
  "md5_loop m readable s ctx =
     (if is_eof s then Some ctx
      else case stream_read readable md5_buffer s of
             (xs, s') \<Rightarrow> md5_loop m readable s' (md_update m ctx (text_bytes xs)))"

text \<open>
  A file is \<open>None\<close> where it cannot be opened, otherwise whether it can be read and its content. The result is
  \<open>None\<close> where the function does not return.
\<close>

definition md5_text :: "bytes \<Rightarrow> string" where
  "md5_text buf = concat (map hex2 (take MD5_DIGEST_LENGTH buf))"

definition getFileMD5 :: "'m md5 \<Rightarrow> (bool \<times> string) option \<Rightarrow> string option" where
  "getFileMD5 m file =
     (case file of
        None \<Rightarrow> Some []
      | Some (readable, content) \<Rightarrow>
          (case md5_loop m readable (open_file (Some content)) (md_init m) of
             None \<Rightarrow> None
           | Some ctx \<Rightarrow> Some (md5_text (mem_put 0 (md_final m ctx) (replicate md5_buffer 0)))))"

section \<open>Downloads\<close>

text \<open>
  \<open>writen\<close>: what came into the file, and the result, \<open>None\<close> where the last call has not returned. Like the
  loops of the sockets, but an interrupted call does not change the result and a call that takes nothing
  ends the loop with an error.
\<close>

fun writen_loop :: "write_call list \<Rightarrow> bytes \<Rightarrow> bytes \<times> bool option" where
  "writen_loop calls [] = ([], Some True)"
| "writen_loop [] (b # bs) = ([], None)"
| "writen_loop (Wrote n # calls) (b # bs) =
     (if n = 0 then ([], Some False)
      else let (out, ok) = writen_loop calls (drop n (b # bs)) in (take n (b # bs) @ out, ok))"
| "writen_loop (Interrupted # calls) (b # bs) = writen_loop calls (b # bs)"
| "writen_loop (Write_failed # calls) (b # bs) = ([], Some False)"

definition writen :: "write_call list \<Rightarrow> bytes \<Rightarrow> bytes \<times> int option" where
  "writen calls data =
     (case writen_loop calls data of (out, ok) \<Rightarrow>
        (out, map_option (\<lambda>ok. if ok then int (length data) else - 1) ok))"

text \<open>The counters are globals of the file.\<close>

record download =
  dl_total :: int
  dl_downloaded :: int
  dl_count :: int
  dl_file :: bytes

definition download_file_callback :: "write_call list \<Rightarrow> bytes \<Rightarrow> download \<Rightarrow> u64 option \<times> download" where
  "download_file_callback calls data d =
     (let d = d\<lparr>dl_count := to_i32 (dl_count d + 1), dl_downloaded := to_i32 (dl_downloaded d + int (length data))\<rparr>
      in case writen calls data of
           (out, ret) \<Rightarrow> (map_option word_of_int ret, d\<lparr>dl_file := dl_file d @ out\<rparr>))"

text \<open>The address that is asked for and the additional headers. A name that is not resolved leaves them empty.\<close>

definition download_request ::
  "(string \<Rightarrow> string option) \<Rightarrow> string \<Rightarrow> (string \<times> string) list \<Rightarrow> string \<times> string list \<times> (string \<times> string) list" where
  "download_request lookup url table =
     (case searchDNS lookup url 0 (\<lparr>do_url_ip = [], do_host = [], do_port = []\<rparr>, table) of
        (_, out, table) \<Rightarrow> (do_url_ip out, [''Expect:'', ''Host:'' @ do_host out, ''Port:'' @ do_port out], table))"

text \<open>
  The calls of the callback in a transfer, and what each of them returned. The file is opened with
  \<open>O_TRUNC\<close>, so it is empty at the start.
\<close>

type_synonym transfer = "(bytes \<times> write_call list) list"

definition download_start :: "int \<Rightarrow> download" where
  "download_start fileSize = \<lparr>dl_total = fileSize, dl_downloaded = 0, dl_count = 0, dl_file = []\<rparr>"

fun transfer_run :: "transfer \<Rightarrow> download \<Rightarrow> u64 option list \<times> download" where
  "transfer_run [] d = ([], d)"
| "transfer_run ((data, calls) # t) d =
     (let (ret, d) = download_file_callback calls data d; (rets, d) = transfer_run t d in (ret # rets, d))"

text \<open>The whole function: the MD5 that the component of the centre takes as given is that of the file.\<close>

definition run_downloadFile :: "'m md5 \<Rightarrow> curl_env \<Rightarrow> transfer \<Rightarrow> int \<Rightarrow> string \<Rightarrow> int \<times> bytes option" where
  "run_downloadFile m c t fileSize fileMD5 =
     (let file = (if \<not> cu_open c then None
                  else Some (if cu_init c then dl_file (snd (transfer_run t (download_start fileSize))) else []));
          md5 = (case file of None \<Rightarrow> [] | Some bs \<Rightarrow> the (getFileMD5 m (Some (True, bytes_text bs))))
      in (fst (downloadFile (c\<lparr>cu_md5 := md5\<rparr>) fileMD5), file))"

section \<open>What the MD5 is of\<close>

text \<open>The documented behaviour of the MD5 library: the digest depends on the bytes and not on how they are cut.\<close>

definition md5_lib :: "'m md5 \<Rightarrow> bool" where
  "md5_lib m \<longleftrightarrow> (\<forall>ctx xs ys. md_update m (md_update m ctx xs) ys = md_update m ctx (xs @ ys)) \<and>
     (\<forall>ctx. md_update m ctx [] = ctx) \<and> (\<forall>ctx. length (md_final m ctx) = MD5_DIGEST_LENGTH)"

lemma text_bytes_append: "text_bytes xs @ text_bytes ys = text_bytes (xs @ ys)" by (simp add: text_bytes_def)

lemma md5_loop_reads:
  assumes "md5_lib m"
  shows "\<not> is_fail s \<Longrightarrow> \<not> is_eof s \<Longrightarrow> md5_loop m True s ctx = Some (md_update m ctx (text_bytes (is_rest s)))"
proof (induction "length (is_rest s)" arbitrary: s ctx rule: less_induct)
  case less
  have stop: "md5_loop m True s' ctx' = Some ctx'" if "is_eof s'" for s' ctx' using that by (subst md5_loop.simps) simp
  show ?case
  proof (cases "length (is_rest s) < md5_buffer")
    case True
    then show ?thesis using less.prems by (subst md5_loop.simps) (simp add: stream_read_def Let_def stop)
  next
    case False
    let ?s = "s\<lparr>is_rest := drop md5_buffer (is_rest s), is_eof := False, is_fail := False\<rparr>"
    have "length (is_rest ?s) < length (is_rest s)" using False by (simp add: md5_buffer_def)
    from less.hyps[OF this] have "md5_loop m True ?s ctx' = Some (md_update m ctx' (text_bytes (is_rest ?s)))" for ctx' by simp
    then show ?thesis
      using less.prems False assms
      by (subst md5_loop.simps) (simp add: stream_read_def Let_def md5_lib_def text_bytes_append)
  qed
qed

lemma md5_loop_directory:
  assumes "\<not> is_eof s"
  shows "md5_loop m False s ctx = None"
proof -
  have "\<not> r \<longrightarrow> is_eof s" if "md5_loop m' r s ctx = Some y" for m' r y
    by (rule md5_loop.raw_induct[where P = "\<lambda>m r s ctx y. \<not> r \<longrightarrow> is_eof s", OF _ that])
      (fastforce simp: stream_read_def split: if_splits)
  then show ?thesis using assms by (cases "md5_loop m False s ctx") auto
qed

lemma file_md5:
  assumes "md5_lib m"
  shows "getFileMD5 m (Some (True, content)) = Some (concat (map hex2 (md_final m (md_update m (md_init m) (text_bytes content)))))"
    and "getFileMD5 m None = Some []"
  using assms
  by (simp_all add: getFileMD5_def md5_loop_reads open_file_def md5_text_def mem_put_def md5_lib_def)

lemma directory_md5: "getFileMD5 m (Some (False, content)) = None"
  by (simp add: getFileMD5_def md5_loop_directory open_file_def)

section \<open>What a download leaves\<close>

lemma writen_all:
  assumes "snd (writen calls data) = Some (int (length data))"
  shows "fst (writen calls data) = data"
proof -
  have "snd (writen_loop calls data) = Some True \<Longrightarrow> fst (writen_loop calls data) = data"
    by (induction calls data rule: writen_loop.induct) (auto split: prod.splits if_splits)
  then show ?thesis using assms by (auto simp: writen_def split: prod.splits if_splits)
qed

text \<open>A run of \<open>writen\<close> that reports an error left a part of the data in the file.\<close>

lemma writen_prefix: "\<exists>k. fst (writen calls data) = take k data"
proof -
  have "\<exists>k. fst (writen_loop calls data) = take k data"
  proof (induction calls data rule: writen_loop.induct)
    case (3 n calls b bs)
    show ?case
    proof (cases "n = 0")
      case False
      then obtain k where "fst (writen_loop calls (drop n (b # bs))) = take k (drop n (b # bs))" using 3 by blast
      then have "fst (writen_loop (Wrote n # calls) (b # bs)) = take (n + k) (b # bs)"
        using False by (auto simp: take_add split: prod.splits simp del: take_Cons drop_Cons)
      then show ?thesis by blast
    qed (auto intro: exI[of _ 0])
  qed (auto intro: exI[of _ 0] exI[of _ "length _"])
  then show ?thesis by (auto simp: writen_def split: prod.splits)
qed

definition callback_ok :: "bytes \<Rightarrow> u64 option \<Rightarrow> bool" where
  "callback_ok data ret \<longleftrightarrow> ret = Some (word_of_nat (length data))"

lemma callback_kept:
  assumes "callback_ok data (fst (download_file_callback calls data d))" and "0 < length data" and "length data < 2 ^ 63"
  shows "dl_file (snd (download_file_callback calls data d)) = dl_file d @ data"
proof -
  obtain out ret where w: "writen calls data = (out, ret)" by fastforce
  then have "map_option word_of_int ret = Some (word_of_nat (length data) :: u64)"
    using assms(1) by (simp add: callback_ok_def download_file_callback_def Let_def)
  then obtain r where r: "ret = Some r" "(word_of_int r :: u64) = word_of_int (int (length data))" by auto
  have "r = int (length data) \<or> r = - 1" using w r(1) by (auto simp: writen_def split: prod.splits if_splits)
  moreover have "(word_of_int (- 1) :: u64) \<noteq> word_of_int (int (length data))"
  proof
    assume "(word_of_int (- 1) :: u64) = word_of_int (int (length data))"
    then have "unat (- 1 :: u64) = unat (word_of_nat (length data) :: u64)" by simp
    then show False using assms(3) by (simp add: unsigned_minus_1_eq_mask mask_eq_exp_minus_1 unat_of_nat)
  qed
  ultimately have "r = int (length data)" using r(2) by auto
  then have "out = data" using writen_all[of calls data] w r(1) by simp
  then show ?thesis using w by (simp add: download_file_callback_def Let_def)
qed

text \<open>
  A transfer whose callbacks all returned what they were given leaves the bytes of all of them in the file.
  libcurl calls the callback with at least one byte, and reports success only of such a transfer.
\<close>

definition transfer_ok :: "transfer \<Rightarrow> download \<Rightarrow> bool" where
  "transfer_ok t d \<longleftrightarrow> list_all2 callback_ok (map fst t) (fst (transfer_run t d))"

definition transfer_data :: "transfer \<Rightarrow> bool" where
  "transfer_data t \<longleftrightarrow> list_all (\<lambda>x. 0 < length (fst x) \<and> length (fst x) < 2 ^ 63) t"

lemma transfer_kept:
  "transfer_ok t d \<Longrightarrow> transfer_data t \<Longrightarrow> dl_file (snd (transfer_run t d)) = dl_file d @ concat (map fst t)"
proof (induction t arbitrary: d)
  case (Cons x t)
  obtain data calls where x: "x = (data, calls)" by fastforce
  obtain ret d' where c: "download_file_callback calls data d = (ret, d')" by fastforce
  have ok: "callback_ok data ret" and rest: "transfer_ok t d'" "transfer_data t"
    using Cons.prems by (auto simp: transfer_ok_def transfer_data_def x c split: prod.splits)
  have "dl_file d' = dl_file d @ data"
    using callback_kept[of data calls d] ok Cons.prems(2) by (simp add: c x transfer_data_def)
  then show ?case using Cons.IH[OF rest] by (cases "transfer_run t d'") (simp add: x c)
qed simp

text \<open>
  What \<open>downloadFile\<close> promises: when it returns 0 and libcurl could be set up, the file holds the bytes the
  server sent, and the message of the centre has the MD5 of those bytes. It also returns 0, with an empty
  file, where libcurl could not be set up, and with a wrong MD5 it keeps the file.
\<close>

lemma download_verified:
  assumes "md5_lib m" and "cu_open c" and "cu_init c" and "transfer_data t"
    and "cu_res c = CURLE_OK \<longrightarrow> transfer_ok t (download_start fileSize)"
  shows "\<exists>file. snd (run_downloadFile m c t fileSize fileMD5) = Some file \<and>
    (cu_res c = CURLE_OK \<longrightarrow> file = concat (map fst t)) \<and>
    (fst (run_downloadFile m c t fileSize fileMD5) = 0 \<longleftrightarrow>
       cu_res c = CURLE_OK \<and> cu_http c = 200 \<and> fileMD5 = concat (map hex2 (md_final m (md_update m (md_init m) file))))"
  using assms transfer_kept[of t "download_start fileSize"]
  by (auto simp: run_downloadFile_def downloadFile_def file_md5(1) download_start_def Let_def)

lemma download_without_curl:
  "cu_open c \<Longrightarrow> \<not> cu_init c \<Longrightarrow> run_downloadFile m c t fileSize fileMD5 = (0, Some [])"
  by (simp add: run_downloadFile_def downloadFile_def)

end
