(* ===== verification/Threads.thy ===== *)
theory Threads
  imports Units "HOL-Library.Sublist"
begin

text \<open>
  A unit that forwards, with the three threads that use it: the handler thread stores messages with \<open>pushI\<close>,
  the input thread runs \<open>runTask\<close> with \<open>TransparentTransmission\<close> and the output thread takes messages with
  \<open>popO\<close>. The containers lock each of their operations and nothing locks two of them together, so a step is
  one operation of a container. A run is a list of steps in any order; logs keep what was stored, which pushes
  met a full cache, what the input thread handled and what the output thread took.
\<close>

section \<open>Steps\<close>

text \<open>
  Where the input thread is: sleeping; reading the sizes, each of which it compares and then reads again;
  testing a cache; and at the three operations on the oldest message.
\<close>

datatype 'i task_pc = T_wait | T_size nat nat nat | T_size_again nat nat | T_check nat | T_read nat | T_erase nat 'i | T_push nat 'i

record 'i forwarding =
  fw_unit :: "('i, 'i) data_unit"
  fw_pc :: "'i task_pc"
  fw_pushed :: "(nat \<times> 'i) list"
  fw_full :: "nat list"
  fw_taken :: "(nat \<times> 'i) list"
  fw_sent :: "'i list"

definition fw_init :: "('i, 'i) data_unit \<Rightarrow> 'i forwarding" where
  "fw_init u = \<lparr>fw_unit = u, fw_pc = T_wait, fw_pushed = [], fw_full = [], fw_taken = [], fw_sent = []\<rparr>"

definition vector_full :: "'a vector \<Rightarrow> bool" where
  "vector_full v \<longleftrightarrow> v_isSetMax v \<and> size_of_int (v_max v) \<le> length (v_items v)"

definition push_step :: "nat \<Rightarrow> 'i \<Rightarrow> 'i forwarding \<Rightarrow> 'i forwarding" where
  "push_step k m s =
     (case pushI m (int k) (fw_unit s) of
        (ok, u) \<Rightarrow> if ok then s\<lparr>fw_unit := u, fw_pushed := fw_pushed s @ [(k, m)],
                       fw_full := (if vector_full (du_iq (fw_unit s) ! k) then fw_full s @ [k] else fw_full s)\<rparr>
                   else s)"

text \<open>\<open>runTask\<close> up to the call of the task.\<close>

definition runTask_step :: "'i forwarding \<Rightarrow> 'i forwarding" where
  "runTask_step s =
     (let u = fw_unit s; caches = du_iq u
      in case fw_pc s of
        T_size i maxSize maxSizeIndex \<Rightarrow>
          if i < length caches
          then s\<lparr>fw_pc := (if maxSize < vector_size (caches ! i) then T_size_again i maxSizeIndex
                          else T_size (i + 1) maxSize maxSizeIndex)\<rparr>
          else if du_cache u \<le> int maxSize
          then s\<lparr>fw_unit := (if du_maxSizeIndex u = - 1 then u\<lparr>du_maxSizeIndex := int maxSizeIndex\<rparr> else u), fw_pc := T_check 0\<rparr>
          else s\<lparr>fw_pc := T_wait\<rparr>
      | T_size_again i _ \<Rightarrow> s\<lparr>fw_pc := T_size (i + 1) (vector_size (caches ! i)) i\<rparr>
      | _ \<Rightarrow> s)"

text \<open>
  \<open>TransparentTransmission\<close>. A read that finds the cache empty leaves the new object \<open>dflt\<close>; what the output
  queue refuses is gone.
\<close>

definition transmit_step :: "'i \<Rightarrow> 'i forwarding \<Rightarrow> 'i forwarding" where
  "transmit_step dflt s =
     (let u = fw_unit s; caches = du_iq u
      in case fw_pc s of
        T_check k \<Rightarrow>
          if k < length caches then s\<lparr>fw_pc := (if vector_empty (caches ! k) then T_check (k + 1) else T_read k)\<rparr>
          else s\<lparr>fw_pc := T_wait\<rparr>
      | T_read k \<Rightarrow> s\<lparr>fw_pc := T_erase k (case vector_getIndex 0 (caches ! k) of None \<Rightarrow> dflt | Some cur \<Rightarrow> cur)\<rparr>
      | T_erase k cur \<Rightarrow> s\<lparr>fw_unit := eraseBeginI (int k) u, fw_pc := T_push k cur\<rparr>
      | T_push k cur \<Rightarrow> s\<lparr>fw_unit := snd (pushO cur u), fw_taken := fw_taken s @ [(k, cur)], fw_pc := T_check k\<rparr>
      | _ \<Rightarrow> s)"

text \<open>The input thread.\<close>

definition task_step :: "'i \<Rightarrow> 'i forwarding \<Rightarrow> 'i forwarding" where
  "task_step dflt s =
     (case fw_pc s of
        T_wait \<Rightarrow> s\<lparr>fw_pc := T_size 0 0 0\<rparr>
      | T_size _ _ _ \<Rightarrow> runTask_step s
      | T_size_again _ _ \<Rightarrow> runTask_step s
      | _ \<Rightarrow> transmit_step dflt s)"

lemmas task_step_defs = task_step_def runTask_step_def transmit_step_def

definition pop_step :: "'i forwarding \<Rightarrow> 'i forwarding" where
  "pop_step s = (case popO (fw_unit s) of None \<Rightarrow> s | Some (x, u) \<Rightarrow> s\<lparr>fw_unit := u, fw_sent := fw_sent s @ [x]\<rparr>)"

datatype 'i act = Push nat 'i | Task | Pop

fun unit_step :: "'i \<Rightarrow> 'i act \<Rightarrow> 'i forwarding \<Rightarrow> 'i forwarding" where
  "unit_step dflt (Push k m) s = push_step k m s"
| "unit_step dflt Task s = task_step dflt s"
| "unit_step dflt Pop s = pop_step s"

section \<open>What is stored is handled\<close>

definition at_cache :: "nat \<Rightarrow> (nat \<times> 'i) list \<Rightarrow> 'i list" where
  "at_cache k xs = map snd (filter (\<lambda>x. fst x = k) xs)"

lemma at_cache_simps [simp]:
  "at_cache k [] = []" "at_cache k (xs @ ys) = at_cache k xs @ at_cache k ys"
  "at_cache k [(j, m)] = (if j = k then [m] else [])"
  by (simp_all add: at_cache_def)

text \<open>
  The messages of a cache that wait: with the one that the input thread has in hand. Between its read and its
  erase that one is at the front of the cache, or was and has been dropped by a push.
\<close>

definition fw_items :: "nat \<Rightarrow> 'i forwarding \<Rightarrow> 'i list" where
  "fw_items k s = v_items (du_iq (fw_unit s) ! k)"

definition fw_rest :: "nat \<Rightarrow> 'i forwarding \<Rightarrow> 'i list" where
  "fw_rest k s =
     (case fw_pc s of
        T_erase j cur \<Rightarrow> if j = k then cur # tl (fw_items k s) else fw_items k s
      | T_push j cur \<Rightarrow> if j = k then cur # fw_items k s else fw_items k s
      | _ \<Rightarrow> fw_items k s)"

definition fw_caches :: "'i forwarding \<Rightarrow> bool" where
  "fw_caches s \<longleftrightarrow> (\<forall>v \<in> set (du_iq (fw_unit s)). v_isSetMax v \<and> 0 < size_of_int (v_max v) \<and> vector_wf v)"

definition pc_ok :: "'i forwarding \<Rightarrow> bool" where
  "pc_ok s \<longleftrightarrow>
     (case fw_pc s of
        T_size_again k _ \<Rightarrow> k < length (du_iq (fw_unit s))
      | T_read k \<Rightarrow> k < length (du_iq (fw_unit s)) \<and> fw_items k s \<noteq> []
      | T_erase k cur \<Rightarrow> k < length (du_iq (fw_unit s)) \<and> fw_items k s \<noteq> []
      | T_push k cur \<Rightarrow> k < length (du_iq (fw_unit s)) | _ \<Rightarrow> True)"

definition cache_ok :: "nat \<Rightarrow> 'i forwarding \<Rightarrow> bool" where
  "cache_ok k s \<longleftrightarrow> subseq (at_cache k (fw_taken s) @ fw_rest k s) (at_cache k (fw_pushed s)) \<and>
     length (at_cache k (fw_pushed s)) = length (at_cache k (fw_taken s)) + length (fw_rest k s) + count_list (fw_full s) k"

definition fw_inv :: "'i forwarding \<Rightarrow> bool" where
  "fw_inv s \<longleftrightarrow> fw_caches s \<and> pc_ok s \<and> (\<forall>k. k < length (du_iq (fw_unit s)) \<longrightarrow> cache_ok k s) \<and>
     subseq (fw_sent s @ q_items (du_oq (fw_unit s))) (map snd (fw_taken s))"

lemma push_cases:
  assumes "v_isSetMax v" and "0 < size_of_int (v_max v)" and "vector_wf v"
  shows "\<not> vector_full v \<and> vector_push m v = v\<lparr>v_items := v_items v @ [m]\<rparr> \<or>
    vector_full v \<and> v_items v \<noteq> [] \<and> vector_push m v = v\<lparr>v_items := tl (v_items v) @ [m]\<rparr>"
  using assms by (cases "v_items v") (auto simp: vector_full_def vector_push_def vector_wf_def Let_def)

lemma subseq_snoc: "subseq xs ys \<Longrightarrow> subseq (xs @ [m]) (ys @ [m])"
  by simp

lemma subseq_tl_snoc: "subseq (xs @ y # tl zs) ps \<Longrightarrow> subseq (xs @ y # tl (zs @ [m])) (ps @ [m])"
  by (cases zs) (auto intro: subseq_order.trans list_emb_append2 dest: subseq_snoc[of _ _ m])

lemma subseq_mid: "subseq (xs @ ys) zs \<Longrightarrow> subseq ys' ys \<Longrightarrow> subseq (xs @ ys') zs"
  by (rule subseq_order.trans[of _ "xs @ ys"]) (simp_all add: list_emb_append_mono)

lemma fw_rest_simps [simp]:
  "fw_pc s = T_wait \<Longrightarrow> fw_rest k s = fw_items k s" "fw_pc s = T_size i a b \<Longrightarrow> fw_rest k s = fw_items k s"
  "fw_pc s = T_size_again i b \<Longrightarrow> fw_rest k s = fw_items k s"
  "fw_pc s = T_check i \<Longrightarrow> fw_rest k s = fw_items k s" "fw_pc s = T_read i \<Longrightarrow> fw_rest k s = fw_items k s"
  "fw_pc s = T_erase i cur \<Longrightarrow> fw_rest k s = (if i = k then cur # tl (fw_items k s) else fw_items k s)"
  "fw_pc s = T_push i cur \<Longrightarrow> fw_rest k s = (if i = k then cur # fw_items k s else fw_items k s)"
  by (simp_all add: fw_rest_def)

lemma push_step_inv:
  assumes inv: "fw_inv s"
  shows "fw_inv (push_step k m s)"
proof (cases "k < length (du_iq (fw_unit s))")
  case False
  then show ?thesis using inv by (simp add: push_step_def pushI_def)
next
  case True
  let ?v = "du_iq (fw_unit s) ! k" and ?s = "push_step k m s"
  have v: "v_isSetMax ?v" "0 < size_of_int (v_max ?v)" "vector_wf ?v"
    using inv True by (auto simp: fw_inv_def fw_caches_def)
  have s: "fw_pc ?s = fw_pc s" "fw_taken ?s = fw_taken s" "fw_sent ?s = fw_sent s" "fw_pushed ?s = fw_pushed s @ [(k, m)]"
    "du_oq (fw_unit ?s) = du_oq (fw_unit s)" "du_iq (fw_unit ?s) = (du_iq (fw_unit s))[k := vector_push m ?v]"
    "fw_full ?s = (if vector_full ?v then fw_full s @ [k] else fw_full s)"
    using True by (simp_all add: push_step_def pushI_def)
  have other: "fw_items j ?s = fw_items j s" if "j \<noteq> k" for j using that s(6) by (simp add: fw_items_def)
  have items: "fw_items k s = v_items ?v" "fw_items k ?s = v_items (vector_push m ?v)" using True s(6) by (simp_all add: fw_items_def)
  note c = push_cases[OF v, of m]
  have "fw_caches ?s"
    using inv v c vector_wf_push[OF v(3), of m] unfolding fw_inv_def fw_caches_def s(6)
    by (auto dest!: set_update_subset_insert[THEN subsetD])
  moreover have "pc_ok ?s"
  proof -
    have "fw_items k ?s \<noteq> []" using c items by auto
    moreover have "pc_ok s" using inv by (simp add: fw_inv_def)
    ultimately show ?thesis using other s(6) unfolding pc_ok_def s(1)
      by (auto split: task_pc.splits) (metis, metis)
  qed
  moreover have "cache_ok j ?s" if j: "j < length (du_iq (fw_unit s))" for j
  proof (cases "j = k")
    case False
    have "fw_rest j ?s = fw_rest j s" using other[OF False] unfolding fw_rest_def s(1) by (auto split: task_pc.splits)
    then show ?thesis using inv j False by (auto simp: cache_ok_def fw_inv_def s)
  next
    case True
    have ok: "cache_ok k s" using inv j True by (simp add: fw_inv_def)
    show ?thesis
    proof (cases "\<exists>cur. fw_pc s = T_erase k cur")
      case e: True
      then obtain cur where e: "fw_pc s = T_erase k cur" by blast
      have ne: "v_items ?v \<noteq> []" using inv e items by (simp add: fw_inv_def pc_ok_def)
      have "subseq (at_cache k (fw_taken s) @ cur # tl (v_items ?v @ [m])) (at_cache k (fw_pushed s) @ [m])"
        using ok e items by (intro subseq_tl_snoc) (simp add: cache_ok_def)
      moreover have "subseq (tl (tl (v_items ?v) @ [m])) (tl (v_items ?v @ [m]))" using ne by (cases "tl (v_items ?v)") auto
      ultimately have "subseq (at_cache k (fw_taken s) @ cur # tl (v_items (vector_push m ?v))) (at_cache k (fw_pushed s) @ [m])"
        using c ne by (auto elim!: subseq_mid)
      then show ?thesis using ok c ne e True items by (auto simp: cache_ok_def s)
    next
      case n: False
      define held where "held = (case fw_pc s of T_push i cur \<Rightarrow> if i = k then [cur] else [] | _ \<Rightarrow> [])"
      have r: "fw_rest k s = held @ v_items ?v" "fw_rest k ?s = held @ v_items (vector_push m ?v)"
        using n s(1) items by (cases "fw_pc s"; auto simp: held_def)+
      have "subseq (at_cache k (fw_taken s) @ held @ v_items ?v @ [m]) (at_cache k (fw_pushed s) @ [m])"
        using subseq_snoc[of "at_cache k (fw_taken s) @ fw_rest k s" "at_cache k (fw_pushed s)" m] ok by (simp add: cache_ok_def r(1))
      moreover have "subseq (v_items (vector_push m ?v)) (v_items ?v @ [m])" using c by (cases "v_items ?v") auto
      then have "subseq (held @ v_items (vector_push m ?v)) (held @ v_items ?v @ [m])" by (rule subseq_append'[THEN iffD2])
      ultimately have "subseq (at_cache k (fw_taken s) @ held @ v_items (vector_push m ?v)) (at_cache k (fw_pushed s) @ [m])"
        by (rule subseq_mid)
      then show ?thesis using ok c r True by (auto simp: cache_ok_def s)
    qed
  qed
  ultimately show ?thesis using inv by (simp add: fw_inv_def s)
qed

text \<open>A step of the input thread that only moves on.\<close>

lemma fw_inv_pc:
  assumes "fw_inv s" and "pc_ok s'" and "\<And>k. fw_rest k s' = fw_rest k s"
    and "du_iq (fw_unit s') = du_iq (fw_unit s)" "du_oq (fw_unit s') = du_oq (fw_unit s)" "fw_pushed s' = fw_pushed s"
    "fw_full s' = fw_full s" "fw_taken s' = fw_taken s" "fw_sent s' = fw_sent s"
  shows "fw_inv s'"
  using assms by (simp add: fw_inv_def fw_caches_def cache_ok_def)

lemma read_step_inv:
  assumes inv: "fw_inv s" and pc: "fw_pc s = T_read k"
  shows "fw_inv (task_step dflt s)"
proof -
  have k: "k < length (du_iq (fw_unit s))" "fw_items k s \<noteq> []" using inv by (simp_all add: fw_inv_def pc_ok_def pc)
  obtain x xs where x: "v_items (du_iq (fw_unit s) ! k) = x # xs" using k(2) by (cases "fw_items k s") (auto simp: fw_items_def)
  have s: "task_step dflt s = s\<lparr>fw_pc := T_erase k x\<rparr>" using x by (simp add: task_step_defs pc Let_def vector_getIndex_def)
  have items: "fw_items j (s\<lparr>fw_pc := T_erase k x\<rparr>) = fw_items j s" for j by (simp add: fw_items_def)
  show ?thesis unfolding s
    by (rule fw_inv_pc[OF inv]) (use k x pc items in \<open>auto simp: pc_ok_def fw_items_def\<close>)
qed

lemma erase_step_inv:
  assumes inv: "fw_inv s" and pc: "fw_pc s = T_erase k cur"
  shows "fw_inv (task_step dflt s)"
proof -
  let ?v = "du_iq (fw_unit s) ! k" and ?s = "task_step dflt s"
  have k: "k < length (du_iq (fw_unit s))" "fw_items k s \<noteq> []" using inv by (simp_all add: fw_inv_def pc_ok_def pc)
  have s: "fw_pc ?s = T_push k cur" "fw_taken ?s = fw_taken s" "fw_sent ?s = fw_sent s" "fw_pushed ?s = fw_pushed s"
    "fw_full ?s = fw_full s" "du_oq (fw_unit ?s) = du_oq (fw_unit s)"
    "du_iq (fw_unit ?s) = (du_iq (fw_unit s))[k := vector_eraseBegin ?v]"
    using k by (simp_all add: task_step_defs pc Let_def eraseBeginI_def)
  have items: "fw_items j ?s = (if j = k then tl (fw_items k s) else fw_items j s)" for j
    using k s(7) by (simp add: fw_items_def vector_eraseBegin_def)
  have "fw_caches ?s"
    using inv k vector_wf_eraseBegin[of ?v] unfolding fw_inv_def fw_caches_def s(7)
    by (auto dest!: set_update_subset_insert[THEN subsetD])
  moreover have "cache_ok j ?s" if "j < length (du_iq (fw_unit s))" for j
  proof -
    have "fw_rest j ?s = fw_rest j s" using pc items s(1) by simp
    then show ?thesis using inv that by (simp add: fw_inv_def cache_ok_def s)
  qed
  moreover have "pc_ok ?s" using k(1) by (simp add: pc_ok_def s)
  ultimately show ?thesis using inv by (simp add: fw_inv_def s)
qed

lemma hand_on_inv:
  assumes inv: "fw_inv s" and pc: "fw_pc s = T_push k cur"
  shows "fw_inv (task_step dflt s)"
proof -
  let ?s = "task_step dflt s"
  obtain ok oq where q: "queue_push cur (du_oq (fw_unit s)) = (ok, oq)" by fastforce
  have s: "fw_pc ?s = T_check k" "fw_taken ?s = fw_taken s @ [(k, cur)]" "fw_sent ?s = fw_sent s" "fw_pushed ?s = fw_pushed s"
    "fw_full ?s = fw_full s" "du_oq (fw_unit ?s) = oq" "du_iq (fw_unit ?s) = du_iq (fw_unit s)"
    by (simp_all add: task_step_defs pc Let_def pushO_def q)
  have items: "fw_items j ?s = fw_items j s" for j by (simp add: fw_items_def s)
  have "cache_ok j ?s" if "j < length (du_iq (fw_unit s))" for j
  proof -
    have "at_cache j (fw_taken ?s) @ fw_rest j ?s = at_cache j (fw_taken s) @ fw_rest j s" using pc items s by simp
    moreover from this have "length (at_cache j (fw_taken ?s)) + length (fw_rest j ?s) = length (at_cache j (fw_taken s)) + length (fw_rest j s)"
      by (metis length_append)
    ultimately show ?thesis using inv that unfolding fw_inv_def cache_ok_def s(4,5) by simp
  qed
  moreover have "subseq (fw_sent s @ q_items oq) (map snd (fw_taken s) @ [cur])"
  proof -
    have "q_items oq = q_items (du_oq (fw_unit s)) \<or> q_items oq = q_items (du_oq (fw_unit s)) @ [cur]"
      using q by (auto simp: queue_push_def split: if_splits)
    moreover have a: "subseq (fw_sent s @ q_items (du_oq (fw_unit s))) (map snd (fw_taken s))" using inv by (simp add: fw_inv_def)
    ultimately show ?thesis using subseq_snoc[OF a, of cur] by (auto intro: subseq_order.trans[OF a] )
  qed
  ultimately show ?thesis using inv by (simp add: fw_inv_def fw_caches_def pc_ok_def s)
qed

lemma task_step_inv:
  assumes inv: "fw_inv s"
  shows "fw_inv (task_step dflt s)"
proof (cases "fw_pc s")
  case (T_size i m mi)
  have r: "fw_rest k (task_step dflt s) = fw_rest k s" for k
    by (simp add: task_step_defs T_size Let_def fw_rest_def fw_items_def)
  show ?thesis by (rule fw_inv_pc[OF inv _ r]) (simp_all add: task_step_defs T_size Let_def pc_ok_def)
next
  case (T_check k)
  have r: "fw_rest j (task_step dflt s) = fw_rest j s" for j
    by (simp add: task_step_defs T_check Let_def fw_rest_def fw_items_def)
  show ?thesis
    by (rule fw_inv_pc[OF inv _ r]) (simp_all add: task_step_defs T_check Let_def pc_ok_def fw_items_def vector_empty_def)
next
  case T_wait
  have r: "fw_rest j (task_step dflt s) = fw_rest j s" for j
    by (simp add: task_step_defs T_wait Let_def fw_rest_def fw_items_def)
  show ?thesis by (rule fw_inv_pc[OF inv _ r]) (simp_all add: task_step_defs T_wait Let_def pc_ok_def)
next
  case (T_size_again i mi)
  have r: "fw_rest j (task_step dflt s) = fw_rest j s" for j
    by (simp add: task_step_defs T_size_again Let_def fw_rest_def fw_items_def)
  show ?thesis by (rule fw_inv_pc[OF inv _ r]) (simp_all add: task_step_defs T_size_again Let_def pc_ok_def)
next
  case (T_read k) then show ?thesis by (rule read_step_inv[OF inv])
next
  case (T_erase k cur) then show ?thesis by (rule erase_step_inv[OF inv])
next
  case (T_push k cur) then show ?thesis by (rule hand_on_inv[OF inv])
qed

lemma pop_step_inv:
  assumes "fw_inv s"
  shows "fw_inv (pop_step s)"
proof (cases "q_items (du_oq (fw_unit s))")
  case (Cons x xs)
  then have s: "pop_step s = s\<lparr>fw_unit := (fw_unit s)\<lparr>du_oq := (du_oq (fw_unit s))\<lparr>q_items := xs\<rparr>\<rparr>, fw_sent := fw_sent s @ [x]\<rparr>"
    by (simp add: pop_step_def popO_def queue_pop_def)
  let ?s = "pop_step s"
  have e: "fw_pc ?s = fw_pc s" "du_iq (fw_unit ?s) = du_iq (fw_unit s)" "fw_taken ?s = fw_taken s" "fw_full ?s = fw_full s"
    "fw_pushed ?s = fw_pushed s" "fw_sent ?s = fw_sent s @ [x]" "q_items (du_oq (fw_unit ?s)) = xs"
    unfolding s by simp_all
  have items: "fw_items k ?s = fw_items k s" for k by (simp add: fw_items_def e)
  then have "fw_rest k ?s = fw_rest k s" for k unfolding fw_rest_def e by presburger
  moreover have "pc_ok ?s = pc_ok s" unfolding pc_ok_def e items ..
  ultimately show ?thesis using assms Cons unfolding fw_inv_def cache_ok_def fw_caches_def e by simp
qed (use assms in \<open>simp add: pop_step_def popO_def queue_pop_def\<close>)

lemma unit_step_inv: "fw_inv s \<Longrightarrow> fw_inv (unit_step dflt a s)"
  by (cases a) (simp_all add: push_step_inv task_step_inv pop_step_inv)

lemma unit_run_inv: "fw_inv s \<Longrightarrow> fw_inv (fold (unit_step dflt) acts s)"
  by (induction acts arbitrary: s) (simp_all add: unit_step_inv)

lemma unit_step_caches [simp]: "length (du_iq (fw_unit (unit_step dflt a s))) = length (du_iq (fw_unit s))"
  by (cases a) (auto simp: push_step_def pushI_def task_step_defs pop_step_def popO_def eraseBeginI_def pushO_def Let_def
      split: option.splits task_pc.splits prod.splits)

lemma unit_run_caches [simp]: "length (du_iq (fw_unit (fold (unit_step dflt) acts s))) = length (du_iq (fw_unit s))"
  by (induction acts arbitrary: s) simp_all

definition unit_ready :: "('i, 'i) data_unit \<Rightarrow> bool" where
  "unit_ready u \<longleftrightarrow> du_wf u \<and> 0 < size_of_int (du_cap u) \<and> (\<forall>v \<in> set (du_iq u). v_items v = []) \<and> q_items (du_oq u) = []"

lemma fw_inv_init: "unit_ready u \<Longrightarrow> fw_inv (fw_init u)"
  by (auto simp: unit_ready_def du_wf_def fw_inv_def fw_init_def fw_caches_def pc_ok_def cache_ok_def fw_items_def)

text \<open>
  C21. Whatever the order of the steps of the handlers, the input thread and the output thread: of each cache,
  the messages that were handled, followed by those that wait, are messages that were stored, in that order
  and none twice; as many are missing as pushes met the cache full, and without such a push none is. What the
  output thread has taken and what waits for it are handled messages, in the order of handling.
\<close>
theorem unit_threads_safe:
  assumes "unit_ready u" and "k < length (du_iq u)" and "s = fold (unit_step dflt) acts (fw_init u)"
  shows "subseq (at_cache k (fw_taken s) @ fw_rest k s) (at_cache k (fw_pushed s)) \<and>
    length (at_cache k (fw_pushed s)) = length (at_cache k (fw_taken s) @ fw_rest k s) + count_list (fw_full s) k \<and>
    (k \<in> set (fw_full s) \<or> at_cache k (fw_pushed s) = at_cache k (fw_taken s) @ fw_rest k s) \<and>
    subseq (fw_sent s @ q_items (du_oq (fw_unit s))) (map snd (fw_taken s))"
proof -
  have "fw_inv s" using unit_run_inv[OF fw_inv_init[OF assms(1)]] assms(3) by blast
  moreover have "k < length (du_iq (fw_unit s))" using assms(2,3) by (simp add: fw_init_def)
  ultimately have ok: "cache_ok k s" and sub: "subseq (fw_sent s @ q_items (du_oq (fw_unit s))) (map snd (fw_taken s))"
    by (simp_all add: fw_inv_def)
  have "at_cache k (fw_pushed s) = at_cache k (fw_taken s) @ fw_rest k s" if "k \<notin> set (fw_full s)"
    by (rule subseq_same_length[symmetric]) (use ok that in \<open>simp_all add: cache_ok_def\<close>)
  then show ?thesis using ok sub unfolding cache_ok_def by simp blast
qed

section \<open>A round that nothing interrupts\<close>

definition comes_to :: "('s \<Rightarrow> 's) \<Rightarrow> 's \<Rightarrow> 's \<Rightarrow> bool" where
  "comes_to step s s' \<longleftrightarrow> (\<exists>n. (step ^^ n) s = s')"

lemma comes_to_refl [simp]: "comes_to step s s"
  unfolding comes_to_def by (rule exI[of _ 0]) simp

lemma comes_to_step: "comes_to step (step s) s' \<Longrightarrow> comes_to step s s'"
  unfolding comes_to_def by (metis funpow_Suc_right comp_apply)

lemma comes_to_trans: "comes_to step s s1 \<Longrightarrow> comes_to step s1 s2 \<Longrightarrow> comes_to step s s2"
  unfolding comes_to_def by (metis comp_apply funpow_add)

lemma same_pc: "fw_pc s = p \<Longrightarrow> s\<lparr>fw_pc := p\<rparr> = s"
  by (cases s) simp

definition greater_size :: "nat \<times> nat \<Rightarrow> nat \<times> 'a vector \<Rightarrow> nat \<times> nat" where
  "greater_size = (\<lambda>(maxSize, maxSizeIndex) (i, v).
     if maxSize < vector_size v then (vector_size v, i) else (maxSize, maxSizeIndex))"

lemma sizes_read:
  assumes "fw_pc s = T_size i m mi" and "i \<le> length (du_iq (fw_unit s))"
    and "foldl greater_size (m, mi) (enumerate i (drop i (du_iq (fw_unit s)))) = (m', mi')"
  shows "comes_to (task_step dflt) s (s\<lparr>fw_pc := T_size (length (du_iq (fw_unit s))) m' mi'\<rparr>)"
  using assms
proof (induction "length (du_iq (fw_unit s)) - i" arbitrary: s i m mi)
  case 0
  then show ?case by (auto simp: same_pc)
next
  case (Suc d)
  let ?v = "du_iq (fw_unit s) ! i"
  have i: "i < length (du_iq (fw_unit s))" using Suc.hyps(2) by simp
  obtain m1 mi1 where g: "greater_size (m, mi) (i, ?v) = (m1, mi1)" by fastforce
  have "comes_to (task_step dflt) s (s\<lparr>fw_pc := T_size (i + 1) m1 mi1\<rparr>)"
  proof (cases "m < vector_size ?v")
    case True
    show ?thesis by (rule comes_to_step, rule comes_to_step)
        (use True i g in \<open>auto simp: task_step_defs Suc.prems(1) Let_def greater_size_def\<close>)
  next
    case False
    show ?thesis by (rule comes_to_step) (use False i g in \<open>auto simp: task_step_defs Suc.prems(1) Let_def greater_size_def\<close>)
  qed
  moreover have "comes_to (task_step dflt) (s\<lparr>fw_pc := T_size (i + 1) m1 mi1\<rparr>) (s\<lparr>fw_pc := T_size (length (du_iq (fw_unit s))) m' mi'\<rparr>)"
    using Suc.hyps(1)[of "s\<lparr>fw_pc := T_size (i + 1) m1 mi1\<rparr>" "i + 1" m1 mi1] Suc.hyps(2) Suc.prems(3) i g
    by (simp add: Cons_nth_drop_Suc[OF i, symmetric])
  ultimately show ?case by (rule comes_to_trans)
qed

definition push_all :: "'a list \<Rightarrow> 'a queue \<Rightarrow> 'a queue" where
  "push_all xs q = fold (\<lambda>x q. snd (queue_push x q)) xs q"

definition handled :: "nat \<Rightarrow> 'i forwarding \<Rightarrow> 'i forwarding" where
  "handled k s =
     (let u = fw_unit s; v = du_iq u ! k
      in s\<lparr>fw_unit := u\<lparr>du_iq := (du_iq u)[k := v\<lparr>v_items := []\<rparr>], du_oq := push_all (v_items v) (du_oq u)\<rparr>,
           fw_taken := fw_taken s @ map (Pair k) (v_items v), fw_pc := T_check (k + 1)\<rparr>)"

lemma cache_handled:
  assumes "fw_pc s = T_check k" and "k < length (du_iq (fw_unit s))"
  shows "comes_to (task_step dflt) s (handled k s)"
  using assms
proof (induction "v_items (du_iq (fw_unit s) ! k)" arbitrary: s)
  case Nil
  have "(du_iq (fw_unit s))[k := (du_iq (fw_unit s) ! k)\<lparr>v_items := []\<rparr>] = du_iq (fw_unit s)"
    using Nil(1) by (metis list_update_id vector.surjective vector.update_convs(1))
  then have "handled k s = task_step dflt s"
    using Nil by (simp add: handled_def task_step_defs Let_def vector_empty_def push_all_def)
  then show ?case using comes_to_step[OF comes_to_refl] by metis
next
  case (Cons x xs)
  let ?u = "fw_unit s"
  let ?v = "du_iq ?u ! k"
  let ?s = "s\<lparr>fw_unit := ?u\<lparr>du_iq := (du_iq ?u)[k := ?v\<lparr>v_items := xs\<rparr>], du_oq := snd (queue_push x (du_oq ?u))\<rparr>,
    fw_taken := fw_taken s @ [(k, x)], fw_pc := T_check k\<rparr>"
  have v: "v_items ?v = x # xs" using Cons(2) by simp
  have a: "comes_to (task_step dflt) s ?s"
    by (rule comes_to_step, rule comes_to_step, rule comes_to_step, rule comes_to_step)
      (use Cons.prems v in \<open>simp add: task_step_defs Let_def vector_empty_def vector_getIndex_def eraseBeginI_def
        vector_eraseBegin_def pushO_def split: prod.split\<close>)
  have b: "comes_to (task_step dflt) ?s (handled k ?s)" by (rule Cons.hyps(1)) (use Cons.prems in simp_all)
  have "handled k ?s = handled k s" using Cons.prems v by (simp add: handled_def Let_def push_all_def)
  then show ?case using comes_to_trans[OF a b] by simp
qed

text \<open>All caches from the \<open>k\<close>th on.\<close>

lemma caches_handled:
  assumes "fw_pc s = T_check k" and "k \<le> length (du_iq (fw_unit s))"
  shows "\<exists>taken. comes_to (task_step dflt) s (s\<lparr>fw_unit := (fw_unit s)\<lparr>
      du_iq := take k (du_iq (fw_unit s)) @ map (\<lambda>v. v\<lparr>v_items := []\<rparr>) (drop k (du_iq (fw_unit s))),
      du_oq := push_all (concat (map v_items (drop k (du_iq (fw_unit s))))) (du_oq (fw_unit s))\<rparr>,
    fw_taken := taken, fw_pc := T_wait\<rparr>)"
  using assms
proof (induction "length (du_iq (fw_unit s)) - k" arbitrary: s k)
  case 0
  then have "comes_to (task_step dflt) s (s\<lparr>fw_unit := (fw_unit s)\<lparr>
      du_iq := take k (du_iq (fw_unit s)) @ map (\<lambda>v. v\<lparr>v_items := []\<rparr>) (drop k (du_iq (fw_unit s))),
      du_oq := push_all (concat (map v_items (drop k (du_iq (fw_unit s))))) (du_oq (fw_unit s))\<rparr>,
    fw_taken := fw_taken s, fw_pc := T_wait\<rparr>)"
    by - (rule comes_to_step, simp add: task_step_defs Let_def push_all_def)
  then show ?case by blast
next
  case (Suc d)
  let ?iq = "du_iq (fw_unit s)"
  have k: "k < length ?iq" using Suc.hyps(2) by simp
  have h: "fw_pc (handled k s) = T_check (k + 1)" "length (du_iq (fw_unit (handled k s))) = length ?iq"
    by (simp_all add: handled_def Let_def)
  have take: "take (Suc k) (?iq[k := v]) = take k ?iq @ [v]" for v using k by (simp add: take_Suc_conv_app_nth)
  from Suc.hyps(1)[OF _ h(1)] Suc.hyps(2) h(2) k obtain taken where
    "comes_to (task_step dflt) (handled k s) ((handled k s)\<lparr>fw_unit := (fw_unit (handled k s))\<lparr>
      du_iq := take (k + 1) (du_iq (fw_unit (handled k s))) @ map (\<lambda>v. v\<lparr>v_items := []\<rparr>) (drop (k + 1) (du_iq (fw_unit (handled k s)))),
      du_oq := push_all (concat (map v_items (drop (k + 1) (du_iq (fw_unit (handled k s)))))) (du_oq (fw_unit (handled k s)))\<rparr>,
    fw_taken := taken, fw_pc := T_wait\<rparr>)" by fastforce
  then have "comes_to (task_step dflt) (handled k s) (s\<lparr>fw_unit := (fw_unit s)\<lparr>
      du_iq := take k ?iq @ map (\<lambda>v. v\<lparr>v_items := []\<rparr>) (drop k ?iq),
      du_oq := push_all (concat (map v_items (drop k ?iq))) (du_oq (fw_unit s))\<rparr>,
    fw_taken := taken, fw_pc := T_wait\<rparr>)"
    using k by (simp add: handled_def Let_def take push_all_def Cons_nth_drop_Suc[OF k, symmetric])
  then show ?case using comes_to_trans[OF cache_handled[OF Suc.prems(1) k]] by blast
qed

text \<open>
  A round of the input thread in which no other thread makes a step is the function \<open>forward_taskI\<close> that
  the other theories use; in particular it ends.
\<close>

lemma round_alone:
  assumes "fw_pc s = T_wait"
  shows "\<exists>taken. comes_to (task_step dflt) s (s\<lparr>fw_unit := forward_taskI (fw_unit s), fw_taken := taken\<rparr>)"
proof -
  let ?u = "fw_unit s" and ?n = "length (du_iq (fw_unit s))"
  obtain m mi where mi: "max_size_index (du_iq ?u) = (m, mi)" by fastforce
  have "comes_to (task_step dflt) (s\<lparr>fw_pc := T_size 0 0 0\<rparr>) (s\<lparr>fw_pc := T_size ?n m mi\<rparr>)"
    using sizes_read[of "s\<lparr>fw_pc := T_size 0 0 0\<rparr>" 0 0 0 m mi] mi by (simp add: max_size_index_def greater_size_def)
  then have sizes: "comes_to (task_step dflt) s (s\<lparr>fw_pc := T_size ?n m mi\<rparr>)"
    by - (rule comes_to_step, simp add: task_step_defs assms Let_def)
  show ?thesis
  proof (cases "du_cache ?u \<le> int m")
    case False
    have "comes_to (task_step dflt) (s\<lparr>fw_pc := T_size ?n m mi\<rparr>) s"
      by (rule comes_to_step) (use False same_pc[OF assms] in \<open>simp add: task_step_defs Let_def\<close>)
    moreover have "s = s\<lparr>fw_unit := forward_taskI ?u, fw_taken := fw_taken s\<rparr>"
      using False mi by (simp add: forward_taskI_def runTask_def)
    ultimately show ?thesis using comes_to_trans[OF sizes] by metis
  next
    case True
    let ?u1 = "if du_maxSizeIndex ?u = - 1 then ?u\<lparr>du_maxSizeIndex := int mi\<rparr> else ?u"
    let ?s = "s\<lparr>fw_unit := ?u1, fw_pc := T_check 0\<rparr>"
    have "comes_to (task_step dflt) (s\<lparr>fw_pc := T_size ?n m mi\<rparr>) ?s"
      by (rule comes_to_step) (use True in \<open>simp add: task_step_defs Let_def\<close>)
    then have c: "comes_to (task_step dflt) s ?s" by (rule comes_to_trans[OF sizes])
    have same: "du_iq ?u1 = du_iq ?u" "du_oq ?u1 = du_oq ?u" by simp_all
    let ?u2 = "?u1\<lparr>du_iq := map (\<lambda>v. v\<lparr>v_items := []\<rparr>) (du_iq ?u), du_oq := push_all (concat (map v_items (du_iq ?u))) (du_oq ?u)\<rparr>"
    obtain taken where d: "comes_to (task_step dflt) ?s (s\<lparr>fw_unit := ?u2, fw_taken := taken, fw_pc := T_wait\<rparr>)"
      using caches_handled[of ?s 0 dflt] same by auto
    have "forward_taskI ?u = ?u2"
    proof -
      have "fold (\<lambda>cur (s, oq). (s, snd (queue_push cur oq))) xs ((), q) = ((), push_all xs q)" for xs :: "'a list" and q
        by (induction xs arbitrary: q) (simp_all add: push_all_def)
      then show ?thesis
        using True mi by (simp add: forward_taskI_def runTask_def TransparentTransmission_def drain_inputs_eq)
    qed
    moreover have "s\<lparr>fw_unit := ?u2, fw_taken := taken, fw_pc := T_wait\<rparr> = s\<lparr>fw_unit := ?u2, fw_taken := taken\<rparr>"
      using same_pc[of "s\<lparr>fw_unit := ?u2, fw_taken := taken\<rparr>" T_wait] assms by simp
    ultimately show ?thesis using comes_to_trans[OF c d] by metis
  qed
qed

section \<open>A race\<close>

text \<open>
  Two messages fill a cache, the input thread reads the first, and a third comes before it erases: the push drops
  the first, which is in hand, and the erase then drops the second, which nobody has read.
\<close>

definition demo_forward :: "nat forwarding" where
  "demo_forward = fold (unit_step 0) ([Push 0 1, Push 0 2] @ replicate 6 Task @ [Push 0 3] @ replicate 8 Task @ [Pop])
     (fw_init (data_unit_init 2 0 1 1 10 0 data_unit_new))"

lemma demo_unit_ready: "unit_ready (data_unit_init 2 0 1 1 10 (0 :: nat) data_unit_new)"
  using du_wf_setCapNumI[of 1 2 "0 :: nat"]
  by (auto simp: unit_ready_def data_unit_init_def setCapNumI_def data_unit_new_def vec_resize_def vector_setMax_def
      vector_new_def queue_setMax_def queue_new_def du_wf_def)

lemma demo_forward_run:
  "fw_pushed demo_forward = [(0, 1), (0, 2), (0, 3)]" "fw_taken demo_forward = [(0, 1), (0, 3)]"
  "fw_full demo_forward = [0]" "fw_sent demo_forward = [1]" "fw_rest 0 demo_forward = []"
  by code_simp+

theorem unit_threads_safe_witness:
  "at_cache 0 (fw_pushed demo_forward) = [1, 2, 3] \<and> at_cache 0 (fw_taken demo_forward) = [1, 3] \<and>
    subseq (at_cache 0 (fw_taken demo_forward) @ fw_rest 0 demo_forward) (at_cache 0 (fw_pushed demo_forward)) \<and>
    subseq (fw_sent demo_forward @ q_items (du_oq (fw_unit demo_forward))) (map snd (fw_taken demo_forward))"
proof -
  have "0 < length (du_iq (data_unit_init 2 0 1 1 10 (0 :: nat) data_unit_new))"
    by (simp add: data_unit_init_def setCapNumI_def)
  from unit_threads_safe[OF demo_unit_ready this demo_forward_def]
  have "subseq (at_cache 0 (fw_taken demo_forward) @ fw_rest 0 demo_forward) (at_cache 0 (fw_pushed demo_forward)) \<and>
    subseq (fw_sent demo_forward @ q_items (du_oq (fw_unit demo_forward))) (map snd (fw_taken demo_forward))" by blast
  then show ?thesis by (simp add: demo_forward_run at_cache_def)
qed

end
