(* ===== verification/Gather.thy ===== *)
theory Gather
  imports Threads
begin

text \<open>
  A unit that gathers a frame (\<open>FindOneFrame\<close> and \<open>ThreadGetDataInRange\<close> of \<open>data/DataUnit.h\<close>), with the handlers
  that store messages while the input thread reads the caches. As in \<open>Threads\<close> a step is one operation of a
  container. The steps of \<open>runTask\<close> are there; here the task may start at any moment. Logs keep what was stored
  and the frames that were found, each with its calibration time.
\<close>

section \<open>Steps\<close>

text \<open>
  Where the input thread is: outside the task, at the calibration message, at the test of a cache, at its size,
  at one of its messages, and behind the scan, where the unit's own processing follows.
\<close>

datatype scan_pc = G_wait | G_refer | G_cache nat | G_size nat nat | G_get nat nat | G_done

record 'i gathering =
  ga_unit :: "('i, 'i) data_unit"
  ga_pc :: scan_pc
  ga_pushed :: "(nat \<times> 'i) list"
  ga_frames :: "(u64 \<times> 'i list) list"

definition ga_init :: "('i, 'i) data_unit \<Rightarrow> 'i gathering" where
  "ga_init u = \<lparr>ga_unit = u, ga_pc = G_wait, ga_pushed = [], ga_frames = []\<rparr>"

definition store_step :: "nat \<Rightarrow> 'i \<Rightarrow> 'i gathering \<Rightarrow> 'i gathering" where
  "store_step k m s =
     (case pushI m (int k) (ga_unit s) of
        (ok, u) \<Rightarrow> if ok then s\<lparr>ga_unit := u, ga_pushed := ga_pushed s @ [(k, m)]\<rparr> else s)"

text \<open>The first part of \<open>FindOneFrame\<close>, up to the scan; all but the read of the message is the thread's own.\<close>

definition refer_step :: "('i \<Rightarrow> real) \<Rightarrow> 'i \<Rightarrow> int \<Rightarrow> 'i gathering \<Rightarrow> 'i gathering" where
  "refer_step ts dflt offset s =
     (let u = ga_unit s
      in case getIOffset (du_maxSizeIndex u) offset u of
        None \<Rightarrow> s\<lparr>ga_unit := i_maxSizeIndexNext u, ga_pc := G_wait\<rparr>
      | Some refer \<Rightarrow>
          if du_timestampStore u + word_of_int (du_fs_i u) > u64_of_double (ts refer) then
            let u = u\<lparr>du_taskSearchCount := du_taskSearchCount u + 1\<rparr>
            in s\<lparr>ga_unit := (if of_int (du_taskSearchCount u * du_intervalTask u) \<ge> (of_int (du_fs_i u) * 2.5 :: real)
                             then i_maxSizeIndexNext u else u), ga_pc := G_wait\<rparr>
          else
            let cur = u64_of_double (ts refer)
            in s\<lparr>ga_unit := u\<lparr>du_taskSearchCount := 0, du_timestampStore := cur, du_curTimestamp := cur,
                    du_oneFrame := replicate (nat (du_numI u)) dflt\<rparr>, ga_pc := G_cache 0\<rparr>)"

text \<open>\<open>ThreadGetDataInRange\<close> for one cache after the other.\<close>

definition scan_step :: "('i \<Rightarrow> real) \<Rightarrow> 'i gathering \<Rightarrow> 'i gathering" where
  "scan_step ts s =
     (let u = ga_unit s
      in case ga_pc s of
        G_cache k \<Rightarrow>
          if k < length (du_iq u) then s\<lparr>ga_pc := (if emptyI (int k) u then G_cache (k + 1) else G_size k 0)\<rparr>
          else s\<lparr>ga_pc := G_done, ga_frames := ga_frames s @ [(du_curTimestamp u, du_oneFrame u)]\<rparr>
      | G_size k i \<Rightarrow> s\<lparr>ga_pc := (if i < sizeI (int k) u then G_get k i else G_cache (k + 1))\<rparr>
      | G_get k i \<Rightarrow>
          (case getIOffset (int k) (int i) u of
             None \<Rightarrow> s\<lparr>ga_pc := G_size k (i + 1)\<rparr>
           | Some refer \<Rightarrow>
               if in_range ts (du_fs_i u) (du_curTimestamp u) refer
               then s\<lparr>ga_unit := u\<lparr>
                   du_xRoadTimestamp := (du_xRoadTimestamp u)[k := u64_of_double (ts refer)],
                   du_oneFrame := (du_oneFrame u)[k := refer]\<rparr>, ga_pc := G_cache (k + 1)\<rparr>
               else s\<lparr>ga_pc := G_size k (i + 1)\<rparr>)
      | _ \<Rightarrow> s)"

text \<open>The input thread; \<open>j\<close> is the index of the fullest cache that \<open>runTask\<close> has found.\<close>

definition gather_step :: "('i \<Rightarrow> real) \<Rightarrow> 'i \<Rightarrow> int \<Rightarrow> nat \<Rightarrow> 'i gathering \<Rightarrow> 'i gathering" where
  "gather_step ts dflt offset j s =
     (case ga_pc s of
        G_wait \<Rightarrow> s\<lparr>ga_unit := (if du_maxSizeIndex (ga_unit s) = - 1 then (ga_unit s)\<lparr>du_maxSizeIndex := int j\<rparr> else ga_unit s),
                     ga_pc := G_refer\<rparr>
      | G_refer \<Rightarrow> refer_step ts dflt offset s
      | G_done \<Rightarrow> s\<lparr>ga_pc := G_wait\<rparr>
      | _ \<Rightarrow> scan_step ts s)"

datatype 'i gather_action = Store nat 'i | Gather nat

fun gather_act :: "('i \<Rightarrow> real) \<Rightarrow> 'i \<Rightarrow> int \<Rightarrow> 'i gather_action \<Rightarrow> 'i gathering \<Rightarrow> 'i gathering" where
  "gather_act ts dflt offset (Store k m) s = store_step k m s"
| "gather_act ts dflt offset (Gather j) s = gather_step ts dflt offset j s"

section \<open>What is in a frame\<close>

text \<open>
  A frame with its calibration time: as many places as caches, each with a message of its own cache within
  \<open>fs\<close> of the time or with a new object.
\<close>

definition frame_from :: "('i \<Rightarrow> real) \<Rightarrow> 'i \<Rightarrow> int \<Rightarrow> nat \<Rightarrow> (nat \<times> 'i) list \<Rightarrow> u64 \<Rightarrow> 'i list \<Rightarrow> bool" where
  "frame_from ts dflt fs n stored cur frame \<longleftrightarrow> length frame = n \<and>
     (\<forall>k < n. frame ! k = dflt \<or> (k, frame ! k) \<in> set stored \<and> in_range ts fs cur (frame ! k))"

lemma frame_from_more: "frame_from ts dflt fs n ms cur frame \<Longrightarrow> frame_from ts dflt fs n (ms @ ns) cur frame"
  by (auto simp: frame_from_def)

lemma frame_from_set:
  "frame_from ts dflt fs n ms cur frame \<Longrightarrow> (k, m) \<in> set ms \<Longrightarrow> in_range ts fs cur m \<Longrightarrow>
    frame_from ts dflt fs n ms cur (frame[k := m])"
  unfolding frame_from_def by (metis length_list_update nth_list_update_eq nth_list_update_neq)

definition stored_in :: "'i vector list \<Rightarrow> (nat \<times> 'i) list \<Rightarrow> bool" where
  "stored_in iq ms \<longleftrightarrow> (\<forall>k < length iq. \<forall>m \<in> set (v_items (iq ! k)). (k, m) \<in> set ms)"

lemma stored_in_push:
  assumes "stored_in iq ms" and "k < length iq"
  shows "stored_in (iq[k := vector_push m (iq ! k)]) (ms @ [(k, m)])"
proof -
  have "set (v_items (vector_push m v)) \<subseteq> insert m (set (v_items v))" for v :: "'a vector"
    by (cases "v_items v") (auto simp: vector_push_def Let_def)
  then show ?thesis using assms by (fastforce simp: stored_in_def nth_list_update)
qed

lemma getIOffset_stored:
  assumes "stored_in (du_iq u) ms" and "getIOffset k i u = Some m" and "i < 2 ^ 31"
  shows "(nat k, m) \<in> set ms"
proof -
  obtain v where v: "0 \<le> k" "nat k < length (du_iq u)" "v = du_iq u ! nat k" "vector_getIndex i v = Some m"
    using assms(2) by (auto simp: getIOffset_def dest: vec_atD split: option.splits)
  have i: "0 \<le> i" "size_of_int (i + 1) \<le> length (v_items v)" "m = v_items v ! nat i"
    using v(4) by (auto simp: vector_getIndex_def split: if_splits)
  then have "nat i < length (v_items v)" using assms(3) by simp
  then show ?thesis using assms(1) v i(3) by (auto simp: stored_in_def)
qed

text \<open>The invariant of all threads: \<open>n\<close> caches, the range \<open>fs\<close>, and the state of the scan.\<close>

definition scanning :: "scan_pc \<Rightarrow> bool" where
  "scanning pc \<longleftrightarrow> (case pc of G_cache _ \<Rightarrow> True | G_size _ _ \<Rightarrow> True | G_get _ _ \<Rightarrow> True | _ \<Rightarrow> False)"

definition stored_time :: "('i \<Rightarrow> real) \<Rightarrow> (nat \<times> 'i) list \<Rightarrow> u64 \<Rightarrow> bool" where
  "stored_time ts ms cur \<longleftrightarrow> (\<exists>x \<in> set ms. cur = u64_of_double (ts (snd x)))"

definition spaced :: "int \<Rightarrow> u64 list \<Rightarrow> bool" where
  "spaced fs curs \<longleftrightarrow> successively (\<lambda>a b. a + word_of_int fs \<le> b) curs"

definition found_frame :: "('i \<Rightarrow> real) \<Rightarrow> 'i \<Rightarrow> int \<Rightarrow> nat \<Rightarrow> (nat \<times> 'i) list \<Rightarrow> u64 \<times> 'i list \<Rightarrow> bool" where
  "found_frame ts dflt fs n ms x \<longleftrightarrow> frame_from ts dflt fs n ms (fst x) (snd x) \<and> stored_time ts ms (fst x)"

lemma found_frame_more: "found_frame ts dflt fs n ms x \<Longrightarrow> found_frame ts dflt fs n (ms @ ns) x"
  by (auto simp: found_frame_def stored_time_def frame_from_more)

definition unit_inv :: "nat \<Rightarrow> int \<Rightarrow> 'i gathering \<Rightarrow> bool" where
  "unit_inv n fs s \<longleftrightarrow> length (du_iq (ga_unit s)) = n \<and> du_numI (ga_unit s) = int n \<and> du_fs_i (ga_unit s) = fs \<and>
     stored_in (du_iq (ga_unit s)) (ga_pushed s) \<and>
     (case ga_pc s of G_size k i \<Rightarrow> k < n \<and> i < 2 ^ 31 | G_get k i \<Rightarrow> k < n \<and> i + 1 < 2 ^ 31 | _ \<Rightarrow> True) \<and>
     (\<forall>v \<in> set (du_iq (ga_unit s)). v_isSetMax v \<and> vector_wf v \<and> 0 \<le> v_max v \<and> v_max v < 2 ^ 31)"

definition scan_inv :: "('i \<Rightarrow> real) \<Rightarrow> 'i \<Rightarrow> 'i gathering \<Rightarrow> bool" where
  "scan_inv ts dflt s \<longleftrightarrow> (let u = ga_unit s; n = length (du_iq u) in
     (\<forall>x \<in> set (ga_frames s). found_frame ts dflt (du_fs_i u) n (ga_pushed s) x) \<and>
     (scanning (ga_pc s) \<longrightarrow> found_frame ts dflt (du_fs_i u) n (ga_pushed s) (du_curTimestamp u, du_oneFrame u) \<and>
        du_timestampStore u = du_curTimestamp u) \<and>
     spaced (du_fs_i u) (map fst (ga_frames s) @ (if scanning (ga_pc s) then [du_curTimestamp u] else [])) \<and>
     (\<not> scanning (ga_pc s) \<longrightarrow> ga_frames s \<noteq> [] \<longrightarrow> fst (last (ga_frames s)) = du_timestampStore u))"

lemma store_step_keeps:
  "ga_pc (store_step k m s) = ga_pc s" "ga_frames (store_step k m s) = ga_frames s"
  "du_fs_i (ga_unit (store_step k m s)) = du_fs_i (ga_unit s)" "du_numI (ga_unit (store_step k m s)) = du_numI (ga_unit s)"
  "du_curTimestamp (ga_unit (store_step k m s)) = du_curTimestamp (ga_unit s)"
  "du_oneFrame (ga_unit (store_step k m s)) = du_oneFrame (ga_unit s)"
  "du_timestampStore (ga_unit (store_step k m s)) = du_timestampStore (ga_unit s)"
  "length (du_iq (ga_unit (store_step k m s))) = length (du_iq (ga_unit s))"
  by (auto simp: store_step_def pushI_def split: option.splits)

lemma store_step_pushed: "\<exists>ns. ga_pushed (store_step k m s) = ga_pushed s @ ns"
  by (auto simp: store_step_def split: prod.splits)

lemma unit_inv_store: "unit_inv n fs s \<Longrightarrow> unit_inv n fs (store_step k m s)"
proof (cases "k < length (du_iq (ga_unit s))")
  case True
  assume inv: "unit_inv n fs s"
  let ?v = "du_iq (ga_unit s) ! k"
  have same: "v_isSetMax (vector_push m ?v) = v_isSetMax ?v" "v_max (vector_push m ?v) = v_max ?v" by (simp_all add: vector_push_def Let_def)
  have s: "du_iq (ga_unit (store_step k m s)) = (du_iq (ga_unit s))[k := vector_push m ?v]"
    "ga_pushed (store_step k m s) = ga_pushed s @ [(k, m)]" using True by (simp_all add: store_step_def pushI_def)
  have "\<forall>v \<in> set (du_iq (ga_unit (store_step k m s))). v_isSetMax v \<and> vector_wf v \<and> 0 \<le> v_max v \<and> v_max v < 2 ^ 31"
    using inv True same unfolding s unit_inv_def by (auto simp: vector_wf_push dest!: set_update_subset_insert[THEN subsetD])
  then show ?thesis
    using inv stored_in_push[of "du_iq (ga_unit s)" "ga_pushed s" k m] True
    unfolding unit_inv_def store_step_keeps s by (simp add: s)
qed (simp add: store_step_def pushI_def)

lemma scan_inv_store: "scan_inv ts dflt s \<Longrightarrow> scan_inv ts dflt (store_step k m s)"
proof -
  assume inv: "scan_inv ts dflt s"
  obtain ns where "ga_pushed (store_step k m s) = ga_pushed s @ ns" using store_step_pushed[of k m s] by blast
  then show ?thesis using inv found_frame_more unfolding scan_inv_def Let_def store_step_keeps by metis
qed

lemma unit_inv_same:
  assumes "unit_inv n fs s" and "du_iq (ga_unit s') = du_iq (ga_unit s)" "du_numI (ga_unit s') = du_numI (ga_unit s)"
    "du_fs_i (ga_unit s') = du_fs_i (ga_unit s)" "ga_pushed s' = ga_pushed s"
    and "case ga_pc s' of G_size k i \<Rightarrow> k < n \<and> i < 2 ^ 31 | G_get k i \<Rightarrow> k < n \<and> i + 1 < 2 ^ 31 | _ \<Rightarrow> True"
  shows "unit_inv n fs s'"
  using assms by (simp add: unit_inv_def)

lemma size_bound:
  assumes "unit_inv n fs s" and "k < n" and "i < sizeI (int k) (ga_unit s)"
  shows "i + 1 < 2 ^ 31"
proof -
  let ?v = "du_iq (ga_unit s) ! k"
  have "?v \<in> set (du_iq (ga_unit s))" using assms(1,2) by (auto simp: unit_inv_def)
  then have v: "v_isSetMax ?v" "vector_wf ?v" "0 \<le> v_max ?v" "v_max ?v < 2 ^ 31" using assms(1) by (auto simp: unit_inv_def)
  then have "length (v_items ?v) \<le> nat (v_max ?v)" by (simp add: vector_wf_def)
  moreover have "i < length (v_items ?v)" using assms by (simp add: sizeI_def vector_size_def unit_inv_def)
  ultimately have "int i < v_max ?v" by linarith
  then show ?thesis using v(4) by simp
qed

lemma spaced_snoc: "spaced fs (xs @ [b]) \<longleftrightarrow> spaced fs xs \<and> (xs \<noteq> [] \<longrightarrow> last xs + word_of_int fs \<le> b)"
  by (auto simp: spaced_def successively_append_iff)

lemma refer_step_inv:
  assumes u: "unit_inv n fs s" and s: "scan_inv ts dflt s" and pc: "ga_pc s = G_refer" and off: "offset < 2 ^ 31"
  shows "unit_inv n fs (refer_step ts dflt offset s) \<and> scan_inv ts dflt (refer_step ts dflt offset s)"
proof (cases "getIOffset (du_maxSizeIndex (ga_unit s)) offset (ga_unit s)")
  case None
  then show ?thesis using s pc
    by (auto simp: refer_step_def scan_inv_def Let_def scanning_def i_maxSizeIndexNext_def intro: unit_inv_same[OF u])
next
  case (Some refer)
  let ?u = "ga_unit s" and ?cur = "u64_of_double (ts refer)"
  show ?thesis
  proof (cases "du_timestampStore ?u + word_of_int (du_fs_i ?u) > ?cur")
    case True
    then show ?thesis using s pc Some
      by (auto simp: refer_step_def scan_inv_def Let_def scanning_def i_maxSizeIndexNext_def intro!: unit_inv_same[OF u])
  next
    case False
    let ?s = "s\<lparr>ga_unit := ?u\<lparr>du_taskSearchCount := 0, du_timestampStore := ?cur, du_curTimestamp := ?cur,
      du_oneFrame := replicate (nat (du_numI ?u)) dflt\<rparr>, ga_pc := G_cache 0\<rparr>"
    have r: "refer_step ts dflt offset s = ?s" using Some False by (simp add: refer_step_def Let_def)
    have "(nat (du_maxSizeIndex ?u), refer) \<in> set (ga_pushed s)"
      using getIOffset_stored[OF _ Some off] u by (simp add: unit_inv_def)
    then have "stored_time ts (ga_pushed s) ?cur" by (force simp: stored_time_def)
    moreover have "frame_from ts dflt fs n (ga_pushed s) ?cur (replicate n dflt)" by (simp add: frame_from_def)
    moreover have "spaced fs (map fst (ga_frames s) @ [?cur])"
      using s pc False u by (auto simp: scan_inv_def Let_def scanning_def spaced_snoc unit_inv_def last_map not_less)
    ultimately have "scan_inv ts dflt ?s"
      using s u by (simp add: scan_inv_def Let_def scanning_def found_frame_def unit_inv_def)
    moreover have "unit_inv n fs ?s" by (rule unit_inv_same[OF u]) simp_all
    ultimately show ?thesis unfolding r by blast
  qed
qed

lemma scan_step_inv:
  assumes u: "unit_inv n fs s" and s: "scan_inv ts dflt s" and pc: "scanning (ga_pc s)"
  shows "unit_inv n fs (scan_step ts s) \<and> scan_inv ts dflt (scan_step ts s)"
proof -
  let ?u = "ga_unit s"
  have n: "length (du_iq ?u) = n" "du_fs_i ?u = fs" using u by (simp_all add: unit_inv_def)
  consider k where "ga_pc s = G_cache k" | k i where "ga_pc s = G_size k i" | k i where "ga_pc s = G_get k i"
    using pc by (cases "ga_pc s") (simp_all add: scanning_def)
  then show ?thesis
  proof cases
    case 1
    have "unit_inv n fs (scan_step ts s)"
      by (rule unit_inv_same[OF u]) (simp_all add: scan_step_def 1 Let_def n)
    moreover have "scan_inv ts dflt (scan_step ts s)"
      using s by (auto simp: scan_step_def 1 Let_def scan_inv_def scanning_def)
    ultimately show ?thesis ..
  next
    case 2
    have "unit_inv n fs (scan_step ts s)"
      by (rule unit_inv_same[OF u]) (use u size_bound[OF u] 2 in \<open>auto simp: scan_step_def Let_def unit_inv_def\<close>)
    moreover have "scan_inv ts dflt (scan_step ts s)"
      using s by (auto simp: scan_step_def 2 Let_def scan_inv_def scanning_def)
    ultimately show ?thesis ..
  next
    case 3
    have k: "k < n" "i + 1 < 2 ^ 31" using u 3 by (simp_all add: unit_inv_def)
    have "unit_inv n fs (scan_step ts s)"
      by (rule unit_inv_same[OF u]) (use k 3 in \<open>auto simp: scan_step_def Let_def split: option.splits\<close>)
    moreover have "scan_inv ts dflt (scan_step ts s)"
    proof (cases "getIOffset (int k) (int i) ?u")
      case None
      then show ?thesis using s by (auto simp: scan_step_def 3 Let_def scan_inv_def scanning_def)
    next
      case (Some m)
      have "(k, m) \<in> set (ga_pushed s)" using getIOffset_stored[OF _ Some] u k by (simp add: unit_inv_def)
      then show ?thesis using s Some
        by (auto simp: scan_step_def 3 Let_def scan_inv_def scanning_def found_frame_def intro: frame_from_set)
    qed
    ultimately show ?thesis ..
  qed
qed

lemma gather_act_inv:
  assumes "unit_inv n fs s" and "scan_inv ts dflt s" and "offset < 2 ^ 31"
  shows "unit_inv n fs (gather_act ts dflt offset a s) \<and> scan_inv ts dflt (gather_act ts dflt offset a s)"
proof (cases a)
  case (Store k m)
  then show ?thesis using unit_inv_store scan_inv_store assms by fastforce
next
  case (Gather j)
  consider "ga_pc s = G_wait" | "ga_pc s = G_refer" | "ga_pc s = G_done" | "scanning (ga_pc s)"
    by (cases "ga_pc s") (simp_all add: scanning_def)
  then show ?thesis
  proof cases
    case 1
    then show ?thesis using assms Gather
      by (auto simp: gather_step_def scan_inv_def scanning_def Let_def intro!: unit_inv_same[OF assms(1)])
  next
    case 2
    then show ?thesis using refer_step_inv[OF assms(1,2) _ assms(3)] Gather by (simp add: gather_step_def)
  next
    case 3
    then show ?thesis using assms Gather
      by (auto simp: gather_step_def scan_inv_def scanning_def Let_def intro!: unit_inv_same[OF assms(1)])
  next
    case 4
    then show ?thesis using scan_step_inv[OF assms(1,2)] Gather
      by (auto simp: gather_step_def scanning_def split: scan_pc.splits)
  qed
qed

lemma gather_run_inv:
  "unit_inv n fs s \<Longrightarrow> scan_inv ts dflt s \<Longrightarrow> offset < 2 ^ 31 \<Longrightarrow>
    unit_inv n fs (fold (gather_act ts dflt offset) acts s) \<and> scan_inv ts dflt (fold (gather_act ts dflt offset) acts s)"
  by (induction acts arbitrary: s) (simp_all add: gather_act_inv)

text \<open>
  C22. However the handlers' stores fall between the steps of the input thread: every frame that a gathering unit
  finds has a place for each cache, with a message stored in that cache whose time is within \<open>fs_i\<close> of the
  calibration time, or with a new object; the calibration time is that of a stored message, and each is at
  least \<open>fs_i\<close> after the one before.
\<close>
theorem gather_threads_safe:
  assumes "du_wf u" and "0 \<le> du_cap u" and "du_cap u < 2 ^ 31" and "\<forall>v \<in> set (du_iq u). v_items v = []"
    and "offset < 2 ^ 31" and "s = fold (gather_act ts dflt offset) acts (ga_init u)" and "(cur, frame) \<in> set (ga_frames s)"
  shows "length frame = length (du_iq u) \<and>
    (\<forall>k < length (du_iq u). frame ! k = dflt \<or> (k, frame ! k) \<in> set (ga_pushed s) \<and> in_range ts (du_fs_i u) cur (frame ! k)) \<and>
    (\<exists>k m. (k, m) \<in> set (ga_pushed s) \<and> cur = u64_of_double (ts m)) \<and>
    successively (\<lambda>a b. a + word_of_int (du_fs_i u) \<le> b) (map fst (ga_frames s))"
proof -
  have "unit_inv (length (du_iq u)) (du_fs_i u) (ga_init u)"
    using assms(1-4) by (auto simp: unit_inv_def ga_init_def du_wf_def stored_in_def)
  moreover have "scan_inv ts dflt (ga_init u)" by (simp add: scan_inv_def ga_init_def scanning_def spaced_def)
  ultimately have "unit_inv (length (du_iq u)) (du_fs_i u) s \<and> scan_inv ts dflt s"
    using gather_run_inv[of _ _ "ga_init u" ts dflt offset acts] assms(5,6) by simp
  then have s: "scan_inv ts dflt s" and "unit_inv (length (du_iq u)) (du_fs_i u) s" by simp_all
  then have n: "length (du_iq (ga_unit s)) = length (du_iq u)" "du_fs_i (ga_unit s) = du_fs_i u" by (simp_all add: unit_inv_def)
  have "found_frame ts dflt (du_fs_i u) (length (du_iq u)) (ga_pushed s) (cur, frame)"
    using s assms(7) n by (auto simp: scan_inv_def Let_def)
  moreover have "spaced (du_fs_i u) (map fst (ga_frames s))"
    using s n by (auto simp: scan_inv_def Let_def spaced_snoc split: if_splits)
  ultimately show ?thesis
    by (auto simp: found_frame_def frame_from_def stored_time_def spaced_def) blast
qed

section \<open>A search that nothing interrupts\<close>

definition set_found :: "('i \<Rightarrow> real) \<Rightarrow> nat \<Rightarrow> 'i option \<Rightarrow> ('i, 'i) data_unit \<Rightarrow> ('i, 'i) data_unit" where
  "set_found ts k found u = (case found of None \<Rightarrow> u | Some refer \<Rightarrow> u\<lparr>
     du_xRoadTimestamp := (du_xRoadTimestamp u)[k := u64_of_double (ts refer)],
     du_oneFrame := (du_oneFrame u)[k := refer]\<rparr>)"

definition small_caches :: "('i, 'i) data_unit \<Rightarrow> bool" where
  "small_caches u \<longleftrightarrow> (\<forall>v \<in> set (du_iq u). length (v_items v) < 2 ^ 63)"

lemma getIOffset_nth:
  assumes "k < length (du_iq u)" and "i < length (v_items (du_iq u ! k))" and "small_caches u"
  shows "getIOffset (int k) (int i) u = Some (v_items (du_iq u ! k) ! i)"
proof -
  have "length (v_items (du_iq u ! k)) < 2 ^ 63" using assms(1,3) by (simp add: small_caches_def)
  then have "size_of_int (int i + 1) = i + 1" using assms(2) by simp
  then show ?thesis using assms(1,2) by (auto simp: getIOffset_def vector_getIndex_def)
qed

lemma ga_same: "ga_unit s = u \<Longrightarrow> s\<lparr>ga_pc := p, ga_unit := u\<rparr> = s\<lparr>ga_pc := p\<rparr>"
  by (cases s) simp

lemma cache_scanned:
  assumes "ga_pc s = G_size k i" and "ga_unit s = u" and "k < length (du_iq u)" and "small_caches u"
    and "xs = v_items (du_iq u ! k)" and "i \<le> length xs"
  shows "comes_to (gather_step ts dflt offset j) s (s\<lparr>ga_pc := G_cache (k + 1),
    ga_unit := set_found ts k (find (in_range ts (du_fs_i u) (du_curTimestamp u)) (drop i xs)) u\<rparr>)"
  using assms(1,2,6)
proof (induction "length xs - i" arbitrary: s i)
  case 0
  show ?case
    by (rule comes_to_step) (use 0 assms(3,5) in \<open>simp add: gather_step_def scan_step_def Let_def sizeI_def vector_size_def
        set_found_def ga_same\<close>)
next
  case (Suc d)
  have i: "i < length xs" using Suc.hyps(2) by simp
  have get: "getIOffset (int k) (int i) u = Some (xs ! i)" using getIOffset_nth assms(3-5) i by blast
  have two: "gather_step ts dflt offset j (gather_step ts dflt offset j s) =
      (if in_range ts (du_fs_i u) (du_curTimestamp u) (xs ! i)
       then s\<lparr>ga_pc := G_cache (k + 1), ga_unit := set_found ts k (Some (xs ! i)) u\<rparr> else s\<lparr>ga_pc := G_size k (i + 1)\<rparr>)"
    using Suc.prems i assms(3,5) get
    by (simp add: gather_step_def scan_step_def Let_def sizeI_def vector_size_def set_found_def)
  have tail: "drop i xs = xs ! i # drop (i + 1) xs" using i by (simp add: Cons_nth_drop_Suc)
  show ?case
  proof (cases "in_range ts (du_fs_i u) (du_curTimestamp u) (xs ! i)")
    case True
    show ?thesis by (rule comes_to_step, rule comes_to_step) (simp add: two True tail)
  next
    case False
    have "comes_to (gather_step ts dflt offset j) (s\<lparr>ga_pc := G_size k (i + 1)\<rparr>)
        (s\<lparr>ga_pc := G_cache (k + 1), ga_unit := set_found ts k (find (in_range ts (du_fs_i u) (du_curTimestamp u)) (drop (i + 1) xs)) u\<rparr>)"
      using Suc.hyps(1)[of "i + 1" "s\<lparr>ga_pc := G_size k (i + 1)\<rparr>"] Suc.hyps(2) Suc.prems i by simp
    then show ?thesis by (intro comes_to_step[of _ s] comes_to_step[of _ "gather_step ts dflt offset j s"]) (simp add: two False tail)
  qed
qed

lemma small_caches_found [simp]: "small_caches (set_found ts k x u) = small_caches u" "du_iq (set_found ts k x u) = du_iq u"
  "du_fs_i (set_found ts k x u) = du_fs_i u" "du_curTimestamp (set_found ts k x u) = du_curTimestamp u"
  by (simp_all add: small_caches_def set_found_def split: option.split)

lemma set_found_scan:
  "k < length (du_iq u) \<Longrightarrow> ThreadGetDataInRange ts k (du_curTimestamp u) u =
    set_found ts k (find (in_range ts (du_fs_i u) (du_curTimestamp u)) (v_items (du_iq u ! k))) u"
  by (auto simp: ThreadGetDataInRange_def set_found_def emptyI_def vector_empty_def split: option.split)

text \<open>The caches from the \<open>k\<close>th on.\<close>

lemma caches_scanned:
  assumes "ga_pc s = G_cache k" and "k \<le> length (du_iq (ga_unit s))" and "small_caches (ga_unit s)"
  shows "\<exists>frames. comes_to (gather_step ts dflt offset j) s (s\<lparr>ga_pc := G_done, ga_frames := frames, ga_unit :=
    fold (\<lambda>k. ThreadGetDataInRange ts k (du_curTimestamp (ga_unit s))) [k..<length (du_iq (ga_unit s))] (ga_unit s)\<rparr>)"
  using assms
proof (induction "length (du_iq (ga_unit s)) - k" arbitrary: s k)
  case 0
  then have none: "[k..<length (du_iq (ga_unit s))] = []" by simp
  have "gather_step ts dflt offset j s = s\<lparr>ga_pc := G_done, ga_frames := ga_frames s @
      [(du_curTimestamp (ga_unit s), du_oneFrame (ga_unit s))], ga_unit :=
    fold (\<lambda>k. ThreadGetDataInRange ts k (du_curTimestamp (ga_unit s))) [k..<length (du_iq (ga_unit s))] (ga_unit s)\<rparr>"
    unfolding none using 0 by (simp add: gather_step_def scan_step_def Let_def)
  then show ?case using comes_to_step[OF comes_to_refl, of "gather_step ts dflt offset j" s] by auto
next
  case (Suc d)
  let ?u = "ga_unit s" and ?f = "gather_step ts dflt offset j"
  let ?u1 = "ThreadGetDataInRange ts k (du_curTimestamp ?u) ?u"
  have k: "k < length (du_iq ?u)" using Suc.hyps(2) by simp
  have u1: "?u1 = set_found ts k (find (in_range ts (du_fs_i ?u) (du_curTimestamp ?u)) (v_items (du_iq ?u ! k))) ?u"
    by (rule set_found_scan[OF k])
  let ?s1 = "s\<lparr>ga_pc := G_cache (k + 1), ga_unit := ?u1\<rparr>"
  have same: "du_iq ?u1 = du_iq ?u" "du_curTimestamp ?u1 = du_curTimestamp ?u" "small_caches ?u1"
    unfolding u1 using Suc.prems(3) by simp_all
  have d: "d = length (du_iq ?u) - (k + 1)" using Suc.hyps(2) by simp
  have "comes_to ?f s ?s1"
  proof (cases "emptyI (int k) ?u")
    case True
    then have "v_items (du_iq ?u ! k) = []" using k by (simp add: emptyI_def vector_empty_def)
    then have "?f s = s\<lparr>ga_pc := G_cache (k + 1), ga_unit := ?u1\<rparr>"
      using True k Suc.prems(1) unfolding u1
      by (simp add: gather_step_def scan_step_def Let_def set_found_def ga_same)
    then show ?thesis using comes_to_step[OF comes_to_refl] by metis
  next
    case False
    have one: "?f s = s\<lparr>ga_pc := G_size k 0\<rparr>" using False k Suc.prems(1) by (simp add: gather_step_def scan_step_def Let_def)
    have "comes_to ?f (s\<lparr>ga_pc := G_size k 0\<rparr>) (s\<lparr>ga_pc := G_cache (k + 1), ga_unit := ?u1\<rparr>)"
      unfolding u1 using cache_scanned[of "s\<lparr>ga_pc := G_size k 0\<rparr>" k 0 ?u _ ts dflt offset j] k Suc.prems(3) by simp
    then show ?thesis using comes_to_step[of ?f s] one by simp
  qed
  moreover   have "\<exists>frames. comes_to ?f ?s1 (?s1\<lparr>ga_pc := G_done, ga_frames := frames, ga_unit :=
      fold (\<lambda>k. ThreadGetDataInRange ts k (du_curTimestamp (ga_unit ?s1))) [k + 1..<length (du_iq (ga_unit ?s1))] (ga_unit ?s1)\<rparr>)"
    by (rule Suc.hyps(1)) (use d k same in simp_all)
  then obtain frames where "comes_to ?f ?s1 (s\<lparr>ga_pc := G_done, ga_frames := frames, ga_unit :=
        fold (\<lambda>k. ThreadGetDataInRange ts k (du_curTimestamp ?u)) [k + 1..<length (du_iq ?u)] ?u1\<rparr>)"
    by (auto simp: same)
  ultimately have "comes_to ?f s (s\<lparr>ga_pc := G_done, ga_frames := frames, ga_unit :=
        fold (\<lambda>k. ThreadGetDataInRange ts k (du_curTimestamp ?u)) [k..<length (du_iq ?u)] ?u\<rparr>)"
    using comes_to_trans k by (fastforce simp: upt_conv_Cons)
  then show ?case by blast
qed

text \<open>Without a store in between, the steps are the function \<open>FindOneFrame\<close> that the other theories use.\<close>

lemma search_alone:
  assumes "ga_pc s = G_refer" and "small_caches (ga_unit s)"
  shows "\<exists>frames. comes_to (gather_step ts dflt offset j) s (s\<lparr>
    ga_pc := (if fst (FindOneFrame ts dflt offset (ga_unit s)) = 0 then G_done else G_wait), ga_frames := frames,
    ga_unit := snd (FindOneFrame ts dflt offset (ga_unit s))\<rparr>)"
proof -
  let ?f = "gather_step ts dflt offset j" and ?u = "ga_unit s"
  have one: "?f s = refer_step ts dflt offset s" using assms(1) by (simp add: gather_step_def)
  show ?thesis
  proof (cases "\<exists>refer. getIOffset (du_maxSizeIndex ?u) offset ?u = Some refer \<and>
      \<not> du_timestampStore ?u + word_of_int (du_fs_i ?u) > u64_of_double (ts refer)")
    case True
    then obtain refer where r: "getIOffset (du_maxSizeIndex ?u) offset ?u = Some refer"
      "\<not> du_timestampStore ?u + word_of_int (du_fs_i ?u) > u64_of_double (ts refer)" by blast
    let ?cur = "u64_of_double (ts refer)"
    let ?u1 = "?u\<lparr>du_taskSearchCount := 0, du_timestampStore := ?cur, du_curTimestamp := ?cur,
      du_oneFrame := replicate (nat (du_numI ?u)) dflt\<rparr>"
    have "?f s = s\<lparr>ga_pc := G_cache 0, ga_unit := ?u1\<rparr>" using r by (simp add: one refer_step_def Let_def)
    moreover obtain frames where "comes_to ?f (s\<lparr>ga_pc := G_cache 0, ga_unit := ?u1\<rparr>) (s\<lparr>ga_pc := G_done, ga_frames := frames, ga_unit :=
        fold (\<lambda>k. ThreadGetDataInRange ts k ?cur) [0..<length (du_iq ?u)] ?u1\<rparr>)"
      using caches_scanned[of "s\<lparr>ga_pc := G_cache 0, ga_unit := ?u1\<rparr>" 0 ts dflt offset j] assms(2) by (auto simp: small_caches_def)
    moreover have "FindOneFrame ts dflt offset ?u = (0, fold (\<lambda>k. ThreadGetDataInRange ts k ?cur) [0..<length (du_iq ?u)] ?u1)"
      using r by (simp add: FindOneFrame_def Let_def)
    ultimately show ?thesis using comes_to_step[of ?f s] by (simp, blast)
  next
    case False
    then have "?f s = s\<lparr>ga_pc := G_wait, ga_frames := ga_frames s, ga_unit := snd (FindOneFrame ts dflt offset ?u)\<rparr>"
      "fst (FindOneFrame ts dflt offset ?u) \<noteq> 0"
      by (auto simp: one refer_step_def FindOneFrame_def Let_def split: option.splits)
    moreover have "comes_to ?f s (?f s)" by (rule comes_to_step) simp
    ultimately show ?thesis by (intro exI[of _ "ga_frames s"]) simp
  qed
qed

section \<open>A race\<close>

text \<open>
  Two caches of two messages and a range of 10. The calibration time is 100. The scan of the second cache has
  passed over 85 when a push drops it; the place it looks at next holds what was behind 105, so it finds nothing,
  though 105 was in the cache all the time. A search that nothing interrupts finds it (\<open>FindOneFrame_frame\<close>).
\<close>

definition demo_gather :: "nat gathering" where
  "demo_gather = fold (gather_act real 0 0)
     ([Store 0 100, Store 1 85, Store 1 105] @ replicate 9 (Gather 0) @ [Store 1 200] @ replicate 3 (Gather 0))
     (ga_init (data_unit_init 2 10 2 1 10 0 data_unit_new))"

lemma demo_gather_run:
  "ga_frames demo_gather = [(100, [100, 0])]" "ga_pushed demo_gather = [(0, 100), (1, 85), (1, 105), (1, 200)]"
  "v_items (du_iq (ga_unit demo_gather) ! 1) = [105, 200]"
  by code_simp+

theorem gather_threads_safe_witness:
  "(100, [100, 0]) \<in> set (ga_frames demo_gather) \<and> (0, 100) \<in> set (ga_pushed demo_gather) \<and>
    in_range real 10 100 (100 :: nat) \<and> (1, 105) \<in> set (ga_pushed demo_gather)"
proof -
  let ?u = "data_unit_init 2 10 2 1 10 (0 :: nat) data_unit_new :: (nat, nat) data_unit"
  have "du_wf ?u \<and> du_cap ?u = 2 \<and> du_fs_i ?u = 10 \<and> length (du_iq ?u) = 2 \<and> (\<forall>v \<in> set (du_iq ?u). v_items v = [])"
    using du_wf_setCapNumI[of 2 2 "0 :: nat"]
    by (auto simp: data_unit_init_def setCapNumI_def data_unit_new_def vec_resize_def vector_setMax_def vector_new_def du_wf_def)
  then have u: "du_wf ?u" "du_cap ?u = 2" "du_fs_i ?u = 10" "length (du_iq ?u) = 2" "\<forall>v \<in> set (du_iq ?u). v_items v = []" by blast+
  have f: "(100, [100, 0]) \<in> set (ga_frames demo_gather)" by (simp add: demo_gather_run)
  have "\<forall>k < 2. [100, 0] ! k = (0 :: nat) \<or> (k, [100, 0] ! k) \<in> set (ga_pushed demo_gather) \<and> in_range real 10 100 ([100, 0] ! k)"
    using gather_threads_safe[OF u(1) _ _ u(5) _ demo_gather_def f] u by simp
  from this[rule_format, of 0] show ?thesis using f by (simp add: demo_gather_run)
qed

end
