(* ===== verification/IpAddress.thy ===== *)
theory IpAddress
  imports Frame
begin

text \<open>
  The class \<open>IPAddress\<close> of \<open>net/cpp-icmplib.h\<close>: an object that owns the block of a \<open>sockaddr_in\<close> or of a
  \<open>sockaddr_in6\<close>. The block is modelled at the level of its bytes, the pointer to it with the states a
  pointer can be in. \<open>inet_pton\<close>, \<open>inet_ntop\<close> and \<open>getaddrinfo\<close> are parameters; the regular expressions that
  recognise an address are written out and matched by a matcher of the theory.
\<close>

section \<open>Regular expressions\<close>

text \<open>
  The constructs of ECMAScript expressions that the two patterns use: a class of characters, given by
  ranges, a sequence, an alternative, a repetition within bounds (\<open>{lo,hi}\<close>, \<open>?\<close>), and \<open>{1,}\<close> of a class.
\<close>

datatype regex =
    Class "(char \<times> char) list"
  | Sequence regex regex
  | Either regex regex
  | Repeat nat nat regex
  | Some_of "(char \<times> char) list"

definition in_class :: "(char \<times> char) list \<Rightarrow> char \<Rightarrow> bool" where
  "in_class rs c = list_ex (\<lambda>(a, b). (of_char a :: nat) \<le> of_char c \<and> (of_char c :: nat) \<le> of_char b) rs"

text \<open>\<open>rests r s\<close> lists what can be left of \<open>s\<close> once \<open>r\<close> has matched at its beginning.\<close>

fun repeats :: "(string \<Rightarrow> string list) \<Rightarrow> nat \<Rightarrow> nat \<Rightarrow> string \<Rightarrow> string list" where
  "repeats f 0 0 s = [s]"
| "repeats f 0 (Suc hi) s = s # concat (map (repeats f 0 hi) (f s))"
| "repeats f (Suc lo) 0 s = []"
| "repeats f (Suc lo) (Suc hi) s = concat (map (repeats f lo hi) (f s))"

fun some_rests :: "(char \<times> char) list \<Rightarrow> string \<Rightarrow> string list" where
  "some_rests rs [] = []"
| "some_rests rs (c # s) = (if in_class rs c then s # some_rests rs s else [])"

primrec rests :: "regex \<Rightarrow> string \<Rightarrow> string list" where
  "rests (Class rs) s = (case s of [] \<Rightarrow> [] | c # t \<Rightarrow> if in_class rs c then [t] else [])"
| "rests (Sequence a b) s = concat (map (rests b) (rests a s))"
| "rests (Either a b) s = rests a s @ rests b s"
| "rests (Repeat lo hi r) s = repeats (rests r) lo hi s"
| "rests (Some_of rs) s = some_rests rs s"

definition regex_match :: "string \<Rightarrow> regex \<Rightarrow> bool" where
  "regex_match s r = ([] \<in> set (rests r s))"

text \<open>What an expression means: the texts it stands for.\<close>

primrec texts :: "regex \<Rightarrow> string set" where
  "texts (Class rs) = {[c] |c. in_class rs c}"
| "texts (Sequence a b) = {s @ t |s t. s \<in> texts a \<and> t \<in> texts b}"
| "texts (Either a b) = texts a \<union> texts b"
| "texts (Repeat lo hi r) = {concat ss |ss. lo \<le> length ss \<and> length ss \<le> hi \<and> set ss \<subseteq> texts r}"
| "texts (Some_of rs) = {s. s \<noteq> [] \<and> (\<forall>c \<in> set s. in_class rs c)}"

lemma ex_list: "(\<exists>ss. P ss) \<longleftrightarrow> P [] \<or> (\<exists>p ss. P (p # ss))"
  by (metis list.exhaust)

lemma repeats_texts:
  assumes f: "\<And>s t. t \<in> set (f s) \<longleftrightarrow> (\<exists>p. s = p @ t \<and> p \<in> L)"
  shows "t \<in> set (repeats f lo hi s) \<longleftrightarrow>
         (\<exists>ss. s = concat ss @ t \<and> lo \<le> length ss \<and> length ss \<le> hi \<and> set ss \<subseteq> L)"
proof (induction hi arbitrary: lo s)
  case 0
  show ?case by (cases lo) auto
next
  case (Suc hi)
  have step: "(\<exists>u. u \<in> set (f s) \<and> t \<in> set (repeats f k hi u)) \<longleftrightarrow>
     (\<exists>p ss. s = concat (p # ss) @ t \<and> k \<le> length ss \<and> length ss \<le> hi \<and> set (p # ss) \<subseteq> L)" for k
    by (auto simp: f Suc.IH)
  show ?case
  proof (cases lo)
    case 0
    then show ?thesis using step[of 0] by (subst ex_list) auto
  next
    case (Suc k)
    then show ?thesis using step[of k] by (subst ex_list) auto
  qed
qed

lemma some_rests_texts:
  "t \<in> set (some_rests rs s) \<longleftrightarrow> (\<exists>p. s = p @ t \<and> p \<noteq> [] \<and> (\<forall>c \<in> set p. in_class rs c))"
proof (induction s)
  case (Cons c s)
  have "(\<exists>p. c # s = p @ t \<and> p \<noteq> [] \<and> (\<forall>c \<in> set p. in_class rs c)) \<longleftrightarrow>
        in_class rs c \<and> (\<exists>p. s = p @ t \<and> (\<forall>c \<in> set p. in_class rs c))"
    by (subst ex_list) auto
  also have "(\<exists>p. s = p @ t \<and> (\<forall>c \<in> set p. in_class rs c)) \<longleftrightarrow>
        t = s \<or> (\<exists>p. s = p @ t \<and> p \<noteq> [] \<and> (\<forall>c \<in> set p. in_class rs c))"
    by auto
  finally show ?case using Cons.IH by auto
qed simp

lemma rests_texts: "t \<in> set (rests r s) \<longleftrightarrow> (\<exists>p. s = p @ t \<and> p \<in> texts r)"
proof (induction r arbitrary: s t)
  case (Class rs)
  then show ?case by (cases s) auto
next
  case (Sequence a b)
  then show ?case by auto (metis append.assoc)+
next
  case (Repeat lo hi r)
  then show ?case using repeats_texts[of "rests r" "texts r"] by auto
next
  case (Some_of rs)
  then show ?case by (auto simp: some_rests_texts)
qed auto

lemma regex_match_iff: "regex_match s r \<longleftrightarrow> s \<in> texts r"
  by (simp add: regex_match_def rests_texts)

text \<open>Abbreviations for the two patterns.\<close>

definition chr :: "char \<Rightarrow> regex" where
  "chr c = Class [(c, c)]"

fun sequence :: "regex list \<Rightarrow> regex" where
  "sequence [] = Repeat 0 0 (Class [])"
| "sequence [r] = r"
| "sequence (r # rs) = Sequence r (sequence rs)"

fun one_of :: "regex list \<Rightarrow> regex" where
  "one_of [] = Class []"
| "one_of [r] = r"
| "one_of (r # rs) = Either r (one_of rs)"

definition word_of :: "string \<Rightarrow> regex" where
  "word_of s = sequence (map chr s)"

definition digits_up_to :: "char \<Rightarrow> regex" where
  "digits_up_to c = Class [(CHR ''0'', c)]"

text \<open>\<open>25[0-5]|2[0-4][0-9]|[01]?[0-9][0-9]?\<close>\<close>

definition octet_regex :: regex where
  "octet_regex = one_of
     [sequence [chr CHR ''2'', chr CHR ''5'', digits_up_to CHR ''5''],
      sequence [chr CHR ''2'', digits_up_to CHR ''4'', digits_up_to CHR ''9''],
      sequence [Repeat 0 1 (digits_up_to CHR ''1''), digits_up_to CHR ''9'', Repeat 0 1 (digits_up_to CHR ''9'')]]"

definition ipv4_regex :: regex where
  "ipv4_regex = sequence [Repeat 3 3 (sequence [octet_regex, chr CHR ''.'']), octet_regex]"

text \<open>\<open>[0-9a-fA-F]{lo,hi}\<close> and the groups of the second pattern.\<close>

definition hex_digits :: "nat \<Rightarrow> nat \<Rightarrow> regex" where
  "hex_digits lo hi = Repeat lo hi (Class [(CHR ''0'', CHR ''9''), (CHR ''a'', CHR ''f''), (CHR ''A'', CHR ''F'')])"

definition group_colon :: "nat \<Rightarrow> nat \<Rightarrow> regex" where
  "group_colon lo hi = Repeat lo hi (sequence [hex_digits 1 4, chr CHR '':''])"

definition colon_group :: "nat \<Rightarrow> nat \<Rightarrow> regex" where
  "colon_group lo hi = Repeat lo hi (sequence [chr CHR '':'', hex_digits 1 4])"

text \<open>\<open>25[0-5]|(2[0-4]|1{0,1}[0-9]){0,1}[0-9]\<close>, and three of them with dots and a fourth.\<close>

definition octet6_regex :: regex where
  "octet6_regex = one_of
     [sequence [chr CHR ''2'', chr CHR ''5'', digits_up_to CHR ''5''],
      sequence [Repeat 0 1 (one_of [sequence [chr CHR ''2'', digits_up_to CHR ''4''],
                                    sequence [Repeat 0 1 (chr CHR ''1''), digits_up_to CHR ''9'']]),
                digits_up_to CHR ''9'']]"

definition dotted6_regex :: regex where
  "dotted6_regex = sequence [Repeat 3 3 (sequence [octet6_regex, chr CHR ''.'']), octet6_regex]"

definition ipv6_regex :: regex where
  "ipv6_regex = one_of
     [sequence [group_colon 7 7, hex_digits 1 4],
      sequence [group_colon 1 7, chr CHR '':''],
      sequence [group_colon 1 6, chr CHR '':'', hex_digits 1 4],
      sequence [group_colon 1 5, colon_group 1 2],
      sequence [group_colon 1 4, colon_group 1 3],
      sequence [group_colon 1 3, colon_group 1 4],
      sequence [group_colon 1 2, colon_group 1 5],
      sequence [hex_digits 1 4, chr CHR '':'', colon_group 1 6],
      sequence [chr CHR '':'', one_of [colon_group 1 7, chr CHR '':'']],
      sequence [word_of ''fe80:'', Repeat 0 4 (sequence [chr CHR '':'', hex_digits 0 4]), chr CHR ''%'',
                Some_of [(CHR ''0'', CHR ''9''), (CHR ''a'', CHR ''z''), (CHR ''A'', CHR ''Z'')]],
      sequence [word_of ''::'',
                Repeat 0 1 (sequence [word_of ''ffff'', Repeat 0 1 (sequence [chr CHR '':'', Repeat 1 4 (chr CHR ''0'')]),
                                      chr CHR '':'']), dotted6_regex],
      sequence [group_colon 1 4, chr CHR '':'', dotted6_regex]]"

section \<open>What the first pattern accepts\<close>

text \<open>A decimal number of one to three digits that is at most 255.\<close>

definition decimal_value :: "string \<Rightarrow> nat" where
  "decimal_value s = foldl (\<lambda>n c. 10 * n + (of_char c - 48)) 0 s"

definition is_digit :: "char \<Rightarrow> bool" where
  "is_digit c = (48 \<le> (of_char c :: nat) \<and> (of_char c :: nat) \<le> 57)"

definition octet_text :: "string \<Rightarrow> bool" where
  "octet_text s = (1 \<le> length s \<and> length s \<le> 3 \<and> list_all is_digit s \<and> decimal_value s \<le> 255)"

lemma in_digits: "in_class [(CHR ''0'', c)] d \<longleftrightarrow> 48 \<le> (of_char d :: nat) \<and> (of_char d :: nat) \<le> of_char c"
  by (simp add: in_class_def)

lemma in_single: "in_class [(c, c)] d \<longleftrightarrow> (of_char d :: nat) = of_char c"
  by (auto simp: in_class_def)

lemma octet_text_Cons4: "\<not> octet_text (a # b # c # d # s)"
  by (simp add: octet_text_def)

lemma octet_3:
  fixes x y z :: nat
  assumes "48 \<le> x \<and> x \<le> 57" "48 \<le> y \<and> y \<le> 57" "48 \<le> z \<and> z \<le> 57"
  shows "x \<le> 49 \<or> x = 50 \<and> (y \<le> 52 \<or> y = 53 \<and> z \<le> 53) \<longleftrightarrow>
         10 * (10 * (x - 48) + (y - 48)) + (z - 48) \<le> 255"
proof -
  from assms have "x = x - 48 + 48" "y = y - 48 + 48" "z = z - 48 + 48" by simp_all
  then obtain k l m where [simp]: "x = k + 48" "y = l + 48" "z = m + 48" by blast
  consider "k \<le> 1" | "k = 2" | "3 \<le> k" by arith
  then show ?thesis using assms by cases (simp_all, arith?)
qed

lemma octet_regex_texts: "s \<in> texts octet_regex \<longleftrightarrow> octet_text s"
proof -
  note rx = octet_regex_def digits_up_to_def chr_def in_digits in_single
  consider "s = []" | a where "s = [a]" | a b where "s = [a, b]" | a b c where "s = [a, b, c]"
    | a b c d t where "s = a # b # c # d # t"
    by (metis list.exhaust)
  then have "regex_match s octet_regex \<longleftrightarrow> octet_text s"
  proof cases
    case 5 then show ?thesis by (auto simp: regex_match_def rx octet_text_Cons4)
  next
    case (4 a b c)
    have "regex_match [a, b, c] octet_regex \<longleftrightarrow> is_digit a \<and> is_digit b \<and> is_digit c \<and>
       (of_char a \<le> (49 :: nat) \<or> of_char a = (50 :: nat) \<and>
         (of_char b \<le> (52 :: nat) \<or> of_char b = (53 :: nat) \<and> of_char c \<le> (53 :: nat)))"
      by (simp add: regex_match_def rx is_digit_def) arith
    also have "\<dots> \<longleftrightarrow> is_digit a \<and> is_digit b \<and> is_digit c \<and>
       10 * (10 * ((of_char a :: nat) - 48) + (of_char b - 48)) + (of_char c - 48) \<le> 255"
      using octet_3 [of "of_char a" "of_char b" "of_char c"] unfolding is_digit_def by blast
    finally show ?thesis by (simp add: 4 octet_text_def decimal_value_def)
  next
    case (3 a b)
    have "regex_match [a, b] octet_regex \<longleftrightarrow> is_digit a \<and> is_digit b"
      by (simp add: regex_match_def rx is_digit_def)
    moreover have "is_digit a \<and> is_digit b \<longrightarrow> 10 * ((of_char a :: nat) - 48) + (of_char b - 48) \<le> 255"
      by (auto simp: is_digit_def)
    ultimately show ?thesis by (auto simp: 3 octet_text_def decimal_value_def)
  qed (auto simp: regex_match_def rx octet_text_def is_digit_def decimal_value_def)
  then show ?thesis by (simp add: regex_match_iff)
qed

lemma texts_chr: "texts (chr c) = {[c]}"
proof -
  have "in_class [(c, c)] d \<longleftrightarrow> d = c" for d
    by (auto simp: in_single)
  then show ?thesis by (auto simp: chr_def)
qed

lemma texts_sequence2: "texts (sequence [a, b]) = {s @ t |s t. s \<in> texts a \<and> t \<in> texts b}"
  by simp

text \<open>The first pattern accepts four such numbers with dots between them.\<close>

lemma ipv4_regex_match:
  "regex_match s ipv4_regex \<longleftrightarrow>
     (\<exists>a b c d. s = a @ ''.'' @ b @ ''.'' @ c @ ''.'' @ d \<and> list_all octet_text [a, b, c, d])"
proof -
  have dot: "texts (sequence [octet_regex, chr CHR ''.'']) = (\<lambda>a. a @ ''.'') ` {a. octet_text a}"
    by (auto simp: texts_chr octet_regex_texts)
  have three: "texts (Repeat 3 3 r) = {w. \<exists>x \<in> texts r. \<exists>y \<in> texts r. \<exists>z \<in> texts r. w = x @ y @ z}" for r
  proof -
    have "(3 \<le> length ss \<and> length ss \<le> 3) \<longleftrightarrow> (\<exists>x y z. ss = [x, y, z])" for ss :: "string list"
    proof -
      have "length ss = 3 \<longleftrightarrow> (\<exists>x y z. ss = [x, y, z])"
        by (auto simp: numeral_3_eq_3 length_Suc_conv)
      then show ?thesis by auto
    qed
    then have "texts (Repeat 3 3 r) = {concat ss |ss. (\<exists>x y z. ss = [x, y, z]) \<and> set ss \<subseteq> texts r}"
      by (simp only: texts.simps conj_assoc[symmetric])
    also have "\<dots> = {w. \<exists>x \<in> texts r. \<exists>y \<in> texts r. \<exists>z \<in> texts r. w = x @ y @ z}"
    proof -
      have "(\<exists>ss. w = concat ss \<and> (\<exists>x y z. ss = [x, y, z]) \<and> set ss \<subseteq> L) \<longleftrightarrow>
            (\<exists>x y z. w = concat [x, y, z] \<and> set [x, y, z] \<subseteq> L)" for w :: string and L
        by blast
      then show ?thesis by (simp add: Bex_def conj_ac)
    qed
    finally show ?thesis .
  qed
  have "s \<in> texts ipv4_regex \<longleftrightarrow> (\<exists>a b c d. octet_text a \<and> octet_text b \<and> octet_text c \<and> octet_text d \<and>
           s = (a @ ''.'') @ (b @ ''.'') @ (c @ ''.'') @ d)"
  proof -
    define D where "D = (\<lambda>a. a @ ''.'') ` {a. octet_text a}"
    have "s \<in> texts ipv4_regex \<longleftrightarrow> (\<exists>p d. s = p @ d \<and> (\<exists>x \<in> D. \<exists>y \<in> D. \<exists>z \<in> D. p = x @ y @ z) \<and> octet_text d)"
      unfolding ipv4_regex_def texts_sequence2 [of "Repeat _ _ _"] dot three octet_regex_texts mem_Collect_eq D_def ..
    also have "\<dots> \<longleftrightarrow> (\<exists>d. octet_text d \<and> (\<exists>x \<in> D. \<exists>y \<in> D. \<exists>z \<in> D. s = (x @ y @ z) @ d))"
      by blast
    also have "\<dots> \<longleftrightarrow> (\<exists>d. octet_text d \<and> (\<exists>a. octet_text a \<and> (\<exists>b. octet_text b \<and> (\<exists>c. octet_text c \<and>
        s = ((a @ ''.'') @ (b @ ''.'') @ (c @ ''.'')) @ d))))"
      unfolding D_def by simp
    finally show ?thesis unfolding append_assoc by metis
  qed
  then show ?thesis unfolding regex_match_iff by (simp only: list.pred_inject append_assoc append_Cons append_Nil simp_thms) metis
qed

section \<open>The object\<close>

datatype ip_type = IPv4 | IPv6 | Unknown_type

text \<open>The pointer \<open>address\<close>: null, one that was never set, one whose block was deleted, or one to a block.\<close>

datatype addr_ptr = Null_ptr | Wild_ptr | Freed_ptr | Owned bytes

text \<open>The first three are thrown, the others are undefined behaviour.\<close>

datatype ip_error =
    Incorrect_IPv6 | Incorrect_IPv4 | Cannot_resolve | Cannot_convert_IPv6 | Cannot_convert_IPv4
  | Bad_delete | Bad_access

definition AF_INET :: u16 where "AF_INET = 2"
definition AF_INET6 :: u16 where "AF_INET6 = 10"

text \<open>
  \<open>sockaddr_in\<close>: family, port, four bytes of address, eight unused. \<open>sockaddr_in6\<close>: family, port, flow,
  sixteen bytes of address, scope. Port and address are in network order.
\<close>

definition sizeof_in :: nat where "sizeof_in = 16"
definition sizeof_in6 :: nat where "sizeof_in6 = 28"

definition sockaddr_in :: "bytes \<Rightarrow> bytes" where
  "sockaddr_in a = le16 AF_INET @ [0, 0] @ a @ replicate 8 0"

definition sockaddr_in6 :: "bytes \<Rightarrow> bytes" where
  "sockaddr_in6 a = le16 AF_INET6 @ [0, 0] @ replicate 4 0 @ a @ replicate 4 0"

definition block_type :: "bytes \<Rightarrow> ip_type" where
  "block_type bs = (if un_le16 bs = AF_INET6 then IPv6 else IPv4)"

definition GetType :: "addr_ptr \<Rightarrow> ip_error + ip_type" where
  "GetType p = (case p of Owned bs \<Rightarrow> Inr (block_type bs) | _ \<Rightarrow> Inl Bad_access)"

definition delete_address :: "addr_ptr \<Rightarrow> ip_error + addr_ptr" where
  "delete_address p =
     (case p of Null_ptr \<Rightarrow> Inr Null_ptr | Owned bs \<Rightarrow> Inr Freed_ptr | _ \<Rightarrow> Inl Bad_delete)"

definition GetFamily :: "ip_type \<Rightarrow> u16" where
  "GetFamily t = (case t of IPv6 \<Rightarrow> AF_INET6 | _ \<Rightarrow> AF_INET)"

definition GetSockAddrLength :: "addr_ptr \<Rightarrow> ip_error + nat" where
  "GetSockAddrLength p =
     (case GetType p of Inl e \<Rightarrow> Inl e | Inr IPv6 \<Rightarrow> Inr sizeof_in6 | Inr _ \<Rightarrow> Inr sizeof_in)"

fun IsCorrect :: "string \<Rightarrow> ip_type \<Rightarrow> bool" where
  "IsCorrect s IPv4 = regex_match s ipv4_regex"
| "IsCorrect s IPv6 = regex_match s ipv6_regex"
| "IsCorrect s Unknown_type = (regex_match s ipv4_regex \<or> regex_match s ipv6_regex)"

text \<open>The constructor without arguments.\<close>

definition IPAddress_default :: addr_ptr where
  "IPAddress_default = Owned (sockaddr_in (replicate 4 0))"

text \<open>
  \<open>Resolve\<close>: the first entry of the wanted family replaces the block. An entry of \<open>getaddrinfo\<close> is its
  family and the bytes of its address.
\<close>

fun resolve_loop :: "(u16 \<times> bytes) list \<Rightarrow> ip_type \<Rightarrow> addr_ptr \<Rightarrow> ip_error + addr_ptr" where
  "resolve_loop [] t this = Inl Cannot_resolve"
| "resolve_loop ((fam, a) # rest) t this =
     (if fam = AF_INET then
        (if t \<noteq> IPv4 \<and> t \<noteq> Unknown_type then resolve_loop rest t this
         else case delete_address this of Inl e \<Rightarrow> Inl e | Inr _ \<Rightarrow> Inr (Owned (take sizeof_in a)))
      else if fam = AF_INET6 then
        (if t \<noteq> IPv6 \<and> t \<noteq> Unknown_type then resolve_loop rest t this
         else case delete_address this of Inl e \<Rightarrow> Inl e | Inr _ \<Rightarrow> Inr (Owned (take sizeof_in6 a)))
      else resolve_loop rest t this)"

type_synonym resolver = "string \<Rightarrow> (u16 \<times> bytes) list option"

definition Resolve :: "resolver \<Rightarrow> string \<Rightarrow> ip_type \<Rightarrow> addr_ptr \<Rightarrow> ip_error + addr_ptr" where
  "Resolve getaddrinfo s t this =
     (case getaddrinfo s of None \<Rightarrow> Inl Cannot_resolve | Some rs \<Rightarrow> resolve_loop rs t this)"

text \<open>
  The constructor from a text. \<open>pton\<close> is \<open>inet_pton\<close> for a family, \<open>garbage\<close> is what the member holds
  before the constructor sets it.
\<close>

definition init_address :: "(ip_type \<Rightarrow> string \<Rightarrow> bytes option) \<Rightarrow> string \<Rightarrow> ip_type \<Rightarrow> ip_error + addr_ptr" where
  "init_address pton s t =
     (case t of
        IPv6 \<Rightarrow> (case pton IPv6 s of None \<Rightarrow> Inl Incorrect_IPv6 | Some a \<Rightarrow> Inr (Owned (sockaddr_in6 a)))
      | _ \<Rightarrow> (case pton IPv4 s of None \<Rightarrow> Inl Incorrect_IPv4 | Some a \<Rightarrow> Inr (Owned (sockaddr_in a))))"

definition IPAddress_of ::
  "(ip_type \<Rightarrow> string \<Rightarrow> bytes option) \<Rightarrow> resolver \<Rightarrow> addr_ptr \<Rightarrow> string \<Rightarrow> ip_type \<Rightarrow> ip_error + addr_ptr" where
  "IPAddress_of pton getaddrinfo garbage s t =
     (if t \<noteq> Unknown_type \<and> IsCorrect s t then init_address pton s t
      else if t = Unknown_type \<and> IsCorrect s IPv4 then init_address pton s IPv4
      else if t = Unknown_type \<and> IsCorrect s IPv6 then init_address pton s IPv6
      else Resolve getaddrinfo s t garbage)"

text \<open>\<open>htons\<close> and \<open>ntohs\<close> of the targets, which are little-endian, and the port at its place.\<close>

definition swap16 :: "u16 \<Rightarrow> u16" where
  "swap16 w = un_le16 (rev (le16 w))"

definition SetPort :: "u16 \<Rightarrow> addr_ptr \<Rightarrow> ip_error + addr_ptr" where
  "SetPort port p =
     (case p of Owned bs \<Rightarrow> Inr (Owned (take 2 bs @ le16 (swap16 port) @ drop 4 bs)) | _ \<Rightarrow> Inl Bad_access)"

definition GetPort :: "addr_ptr \<Rightarrow> ip_error + u16" where
  "GetPort p = (case p of Owned bs \<Rightarrow> Inr (swap16 (un_le16 (drop 2 bs))) | _ \<Rightarrow> Inl Bad_access)"

definition IPAddress_of_port ::
  "(ip_type \<Rightarrow> string \<Rightarrow> bytes option) \<Rightarrow> resolver \<Rightarrow> addr_ptr \<Rightarrow> string \<Rightarrow> u16 \<Rightarrow> ip_type \<Rightarrow> ip_error + addr_ptr" where
  "IPAddress_of_port pton getaddrinfo garbage s port t =
     (case IPAddress_of pton getaddrinfo garbage s t of Inl e \<Rightarrow> Inl e | Inr p \<Rightarrow> SetPort port p)"

text \<open>From a number, of which \<open>htonl\<close> takes the low 32 bits.\<close>

definition IPAddress_of_number :: "u64 \<Rightarrow> addr_ptr" where
  "IPAddress_of_number a = Owned (sockaddr_in (rev (le32 (ucast a))))"

definition IPAddress_of_number_port :: "u64 \<Rightarrow> u16 \<Rightarrow> ip_error + addr_ptr" where
  "IPAddress_of_number_port a port = SetPort port (IPAddress_of_number a)"

text \<open>A new object with the block of another one: copied, or taken, which leaves the source the default.\<close>

definition IPAddress_copy :: "addr_ptr \<Rightarrow> ip_error + addr_ptr" where
  "IPAddress_copy source =
     (case source of
        Owned bs \<Rightarrow> Inr (Owned (take (if block_type bs = IPv6 then sizeof_in6 else sizeof_in) bs))
      | _ \<Rightarrow> Inl Bad_access)"

definition IPAddress_move :: "addr_ptr \<Rightarrow> addr_ptr \<times> addr_ptr" where
  "IPAddress_move source = (source, IPAddress_default)"

text \<open>The two assignments, from object \<open>j\<close> to object \<open>i\<close> of the objects \<open>xs\<close>, which may be the same.\<close>

definition copy_assign :: "nat \<Rightarrow> nat \<Rightarrow> addr_ptr list \<Rightarrow> ip_error + addr_ptr list" where
  "copy_assign i j xs =
     (case delete_address (xs ! i) of Inl e \<Rightarrow> Inl e
      | Inr p \<Rightarrow> (let xs = xs[i := p]
                  in case IPAddress_copy (xs ! j) of Inl e \<Rightarrow> Inl e | Inr q \<Rightarrow> Inr (xs[i := q])))"

definition move_assign :: "nat \<Rightarrow> nat \<Rightarrow> addr_ptr list \<Rightarrow> ip_error + addr_ptr list" where
  "move_assign i j xs =
     (case delete_address (xs ! i) of Inl e \<Rightarrow> Inl e
      | Inr p \<Rightarrow> (let xs = xs[i := p]; xs = xs[i := xs ! j] in Inr (xs[j := IPAddress_default])))"

text \<open>
  \<open>operator std::string\<close>, and the comparison, which is \<open>noexcept\<close>: what it throws ends the process
  (\<open>None\<close>). \<open>ntop\<close> is \<open>inet_ntop\<close> for a family.
\<close>

definition to_text :: "(ip_type \<Rightarrow> bytes \<Rightarrow> string option) \<Rightarrow> addr_ptr \<Rightarrow> ip_error + string" where
  "to_text ntop p =
     (case p of
        Owned bs \<Rightarrow>
          (if block_type bs = IPv6
           then (case ntop IPv6 (take 16 (drop 8 bs)) of Some s \<Rightarrow> Inr s | None \<Rightarrow> Inl Cannot_convert_IPv6)
           else (case ntop IPv4 (take 4 (drop 4 bs)) of Some s \<Rightarrow> Inr s | None \<Rightarrow> Inl Cannot_convert_IPv4))
      | _ \<Rightarrow> Inl Bad_access)"

definition IPAddress_eq :: "(ip_type \<Rightarrow> bytes \<Rightarrow> string option) \<Rightarrow> addr_ptr \<Rightarrow> addr_ptr \<Rightarrow> bool option" where
  "IPAddress_eq ntop p q =
     (case (to_text ntop p, to_text ntop q) of
        (Inr s, Inr t) \<Rightarrow> Some (s = t \<and> GetPort p = GetPort q)
      | _ \<Rightarrow> None)"

section \<open>Objects stay well formed\<close>

text \<open>The block has the size of its family, which every access relies on.\<close>

definition ip_ok :: "addr_ptr \<Rightarrow> bool" where
  "ip_ok p =
     (case p of Owned bs \<Rightarrow> length bs = (if block_type bs = IPv6 then sizeof_in6 else sizeof_in) | _ \<Rightarrow> False)"

text \<open>What \<open>getaddrinfo\<close> and \<open>inet_pton\<close> promise: a whole address that names its family, and its bytes.\<close>

definition resolver_ok :: "resolver \<Rightarrow> bool" where
  "resolver_ok getaddrinfo \<longleftrightarrow>
     (\<forall>s rs fam a. getaddrinfo s = Some rs \<longrightarrow> (fam, a) \<in> set rs \<longrightarrow>
        un_le16 a = fam \<and> (fam = AF_INET \<longrightarrow> sizeof_in \<le> length a) \<and> (fam = AF_INET6 \<longrightarrow> sizeof_in6 \<le> length a))"

definition pton_ok :: "(ip_type \<Rightarrow> string \<Rightarrow> bytes option) \<Rightarrow> bool" where
  "pton_ok pton \<longleftrightarrow>
     (\<forall>s a. (pton IPv4 s = Some a \<longrightarrow> length a = 4) \<and> (pton IPv6 s = Some a \<longrightarrow> length a = 16))"

lemmas ip_defs = ip_ok_def block_type_def sizeof_in_def sizeof_in6_def

lemma un_le16_take [simp]: "2 \<le> n \<Longrightarrow> un_le16 (take n bs) = un_le16 bs"
  by (simp add: un_le16_def)

lemma un_le16_append: "2 \<le> length bs \<Longrightarrow> un_le16 (bs @ cs) = un_le16 bs"
  by (cases bs) (auto simp: un_le16_def nth_append nth_Cons')

lemma take_in_ok [wf_rules]: "un_le16 a = AF_INET \<Longrightarrow> sizeof_in \<le> length a \<Longrightarrow> ip_ok (Owned (take sizeof_in a))"
  by (simp add: ip_defs AF_INET_def AF_INET6_def)

lemma take_in6_ok [wf_rules]: "un_le16 a = AF_INET6 \<Longrightarrow> sizeof_in6 \<le> length a \<Longrightarrow> ip_ok (Owned (take sizeof_in6 a))"
  by (simp add: ip_defs)

lemma sockaddr_in_ok [wf_rules]: "length a = 4 \<Longrightarrow> ip_ok (Owned (sockaddr_in a))"
  by (simp add: ip_defs sockaddr_in_def AF_INET_def AF_INET6_def)

lemma sockaddr_in6_ok [wf_rules]: "length a = 16 \<Longrightarrow> ip_ok (Owned (sockaddr_in6 a))"
  by (simp add: ip_defs sockaddr_in6_def AF_INET6_def)

lemma ip_okE:
  assumes "ip_ok p"
  obtains bs where "p = Owned bs" "length bs = (if block_type bs = IPv6 then 28 else 16)"
  using assms by (cases p) (auto simp: ip_ok_def sizeof_in_def sizeof_in6_def)

lemma default_ok [wf_rules]: "ip_ok IPAddress_default"
  by (simp add: IPAddress_default_def wf_rules)

lemma number_ok [wf_rules]: "ip_ok (IPAddress_of_number a)"
  by (simp add: IPAddress_of_number_def wf_rules)

lemma resolve_loop_ok:
  assumes "\<forall>(fam, a) \<in> set rs. un_le16 a = fam \<and> (fam = AF_INET \<longrightarrow> sizeof_in \<le> length a) \<and>
             (fam = AF_INET6 \<longrightarrow> sizeof_in6 \<le> length a)"
    and "resolve_loop rs t this = Inr p"
  shows "ip_ok p"
  using assms
  by (induction rs t this rule: resolve_loop.induct)
    (auto intro: wf_rules split: if_splits sum.splits)

lemma Resolve_ok [wf_rules]: "resolver_ok g \<Longrightarrow> Resolve g s t this = Inr p \<Longrightarrow> ip_ok p"
  unfolding Resolve_def resolver_ok_def by (auto split: option.splits intro!: resolve_loop_ok)

lemma init_address_ok [wf_rules]: "pton_ok pton \<Longrightarrow> init_address pton s t = Inr p \<Longrightarrow> ip_ok p"
  by (cases t) (auto simp: init_address_def pton_ok_def wf_rules split: option.splits)

lemma IPAddress_of_ok [wf_rules]:
  "pton_ok pton \<Longrightarrow> resolver_ok g \<Longrightarrow> IPAddress_of pton g garbage s t = Inr p \<Longrightarrow> ip_ok p"
  by (auto simp: IPAddress_of_def wf_rules split: if_splits)

lemma SetPort_ok [wf_rules]:
  assumes "ip_ok p" "SetPort port p = Inr q" shows "ip_ok q"
  using assms by (elim ip_okE) (auto simp: SetPort_def ip_defs un_le16_append split: if_splits)

lemma copy_ok: "ip_ok p \<Longrightarrow> IPAddress_copy p = Inr p"
  by (elim ip_okE) (auto simp: IPAddress_copy_def sizeof_in_def sizeof_in6_def)

lemma port_read_back:
  assumes "ip_ok p" shows "\<exists>q. SetPort port p = Inr q \<and> GetPort q = Inr port"
proof -
  from assms obtain bs where p: "p = Owned bs" and l: "4 \<le> length bs"
    by (elim ip_okE) (auto split: if_splits)
  have "swap16 (swap16 port) = port"
    by (rule bit_word_eqI) (auto simp: swap16_def un_le16_def le16_def bit_simps)
  moreover have "drop 2 (take 2 bs @ le16 (swap16 port) @ drop 4 bs) = le16 (swap16 port) @ drop 4 bs"
    using l by simp
  ultimately show ?thesis by (simp add: p SetPort_def GetPort_def)
qed

text \<open>Assigning an object to another one copies it; assigning it to itself uses the block it has deleted.\<close>

lemma copy_assign_other:
  assumes "ip_ok (xs ! i)" "ip_ok (xs ! j)" "i \<noteq> j"
  shows "copy_assign i j xs = Inr (xs[i := xs ! j])"
  using assms copy_ok[of "xs ! j"] by (auto simp: copy_assign_def delete_address_def elim!: ip_okE)

lemma copy_assign_self:
  assumes "ip_ok (xs ! i)" "i < length xs"
  shows "copy_assign i i xs = Inl Bad_access"
  using assms by (auto simp: copy_assign_def delete_address_def IPAddress_copy_def elim!: ip_okE)

lemma move_assign_ok:
  assumes "\<forall>p \<in> set xs. ip_ok p" "i < length xs" "j < length xs" "i \<noteq> j"
  shows "\<exists>ys. move_assign i j xs = Inr ys \<and> (\<forall>p \<in> set ys. ip_ok p) \<and> ys ! i = xs ! j \<and> ys ! j = IPAddress_default"
proof -
  have "ip_ok (xs ! i)" using assms by simp
  then obtain bs where "xs ! i = Owned bs" by (elim ip_okE) auto
  then have "move_assign i j xs = Inr (xs[i := xs ! j, j := IPAddress_default])"
    using assms(4) by (simp add: move_assign_def delete_address_def)
  moreover have "\<forall>p \<in> set (xs[i := xs ! j, j := IPAddress_default]). ip_ok p"
    using assms default_ok by (auto dest!: set_update_subset_insert[THEN subsetD])
  ultimately show ?thesis using assms by auto
qed

section \<open>Objects from a text\<close>

lemma ipv4_samples:
  "IsCorrect ''192.168.1.254'' IPv4" "\<not> IsCorrect ''192.168.1.256'' IPv4" "\<not> IsCorrect ''192.168.1'' IPv4"
  by code_simp+

lemma ipv6_samples:
  "IsCorrect ''fe80::1'' IPv6" "\<not> IsCorrect ''1:2::3::4'' IPv6" "\<not> IsCorrect ''a.org'' IPv6"
  by code_simp+

text \<open>The first entry that has one of the two families.\<close>

definition usable :: "u16 \<times> bytes \<Rightarrow> bool" where
  "usable e = (fst e = AF_INET \<or> fst e = AF_INET6)"

lemma resolve_loop_first:
  assumes "find usable rs = Some (fam, a)"
  shows "resolve_loop rs Unknown_type this =
         (case delete_address this of Inl e \<Rightarrow> Inl e
          | Inr _ \<Rightarrow> Inr (Owned (take (if fam = AF_INET then sizeof_in else sizeof_in6) a)))"
  using assms
  by (induction rs) (auto simp: usable_def AF_INET_def AF_INET6_def split: if_splits sum.split)

text \<open>
  A text that is neither form of address is resolved, and the block that is replaced was never set: with
  anything but a null pointer in that memory the constructor deletes a block that does not exist.
\<close>

lemma host_name_address:
  assumes "resolver_ok g" "\<not> IsCorrect s Unknown_type" "g s = Some rs" "find usable rs = Some (fam, a)"
  shows "IPAddress_of pton g Wild_ptr s Unknown_type = Inl Bad_delete"
    and "\<exists>p. IPAddress_of pton g Null_ptr s Unknown_type = Inr p \<and> ip_ok p \<and> GetFamily (block_type a) = fam"
proof -
  have r: "IPAddress_of pton g q s Unknown_type = resolve_loop rs Unknown_type q" for q
    using assms(2,3) by (simp add: IPAddress_of_def Resolve_def)
  show "IPAddress_of pton g Wild_ptr s Unknown_type = Inl Bad_delete"
    using resolve_loop_first[OF assms(4)] by (simp add: r delete_address_def)
  from assms(4) obtain i where "i < length rs" "usable (rs ! i)" "(fam, a) = rs ! i"
    unfolding find_Some_iff by blast
  then have "(fam, a) \<in> set rs" and fam: "fam = AF_INET \<or> fam = AF_INET6"
    unfolding usable_def by (metis nth_mem, metis fst_conv)
  then have "un_le16 a = fam"
    using assms(1,3) unfolding resolver_ok_def by blast
  then have "GetFamily (block_type a) = fam"
    using fam by (auto simp: GetFamily_def block_type_def AF_INET_def AF_INET6_def)
  moreover obtain p where p: "IPAddress_of pton g Null_ptr s Unknown_type = Inr p"
    using resolve_loop_first[OF assms(4)] by (simp add: r delete_address_def)
  moreover have "Resolve g s Unknown_type Null_ptr = Inr p"
    using p r assms(3) by (simp add: Resolve_def)
  then have "ip_ok p" by (rule Resolve_ok [OF assms(1)])
  ultimately show "\<exists>p. IPAddress_of pton g Null_ptr s Unknown_type = Inr p \<and> ip_ok p \<and> GetFamily (block_type a) = fam"
    by blast
qed

end
