(* ===== verification/Icmp.thy ===== *)
theory Icmp
  imports IpAddress
begin

text \<open>
  The class \<open>ICMPEcho\<close> of \<open>net/cpp-icmplib.h\<close>: sending an echo request and waiting for the answer. A message
  is the image of its struct in memory, which is little-endian. The outcomes of the system calls are
  parameters, what arrives on the raw socket is a list of events with the time after each call.
\<close>

section \<open>Messages\<close>

definition PING_DATA_SIZE :: nat where "PING_DATA_SIZE = 64"
definition RECV_BUFFER_SIZE :: nat where "RECV_BUFFER_SIZE = 1024"
definition INET4_HEADER_SIZE :: nat where "INET4_HEADER_SIZE = 20"
definition INET4_TTL_OFFSET :: nat where "INET4_TTL_OFFSET = 8"
definition INET4_ORIGINAL_DATA_SIZE :: nat where "INET4_ORIGINAL_DATA_SIZE = INET4_HEADER_SIZE + 8"

text \<open>\<open>ICMPHeader\<close>: type, code, checksum. \<open>ICMPEchoMessage\<close> adds id, seq and data, \<open>ICMPRevertedMessage\<close> an unused word and data.\<close>

definition sizeof_header :: nat where "sizeof_header = 4"
definition sizeof_echo :: nat where "sizeof_echo = sizeof_header + 4 + PING_DATA_SIZE"
definition sizeof_reverted :: nat where "sizeof_reverted = sizeof_header + 4 + INET4_ORIGINAL_DATA_SIZE"

definition icmp_type :: "bytes \<Rightarrow> u8" where "icmp_type p = p ! 0"
definition icmp_code :: "bytes \<Rightarrow> u8" where "icmp_code p = p ! 1"
definition icmp_checksum :: "bytes \<Rightarrow> u16" where "icmp_checksum p = un_le16 (drop 2 p)"
definition icmp_id :: "bytes \<Rightarrow> u16" where "icmp_id p = un_le16 (drop 4 p)"

definition put_checksum :: "u16 \<Rightarrow> bytes \<Rightarrow> bytes" where
  "put_checksum c p = take 2 p @ le16 c @ drop 4 p"

text \<open>\<open>SetChecksum\<close>: the sum of the words in a 32-bit counter, folded twice and inverted.\<close>

fun sum_words :: "bytes \<Rightarrow> u32 \<Rightarrow> u32" where
  "sum_words (a # b # rest) acc = sum_words rest (acc + ucast (un_le16 [a, b]))"
| "sum_words [a] acc = acc + ucast a"
| "sum_words [] acc = acc"

definition fold_sum :: "u32 \<Rightarrow> u16" where
  "fold_sum acc =
     (let acc = drop_bit 16 acc + (acc AND 0xFFFF);
          acc = acc + drop_bit 16 acc
      in ucast (NOT acc))"

definition SetChecksum :: "bytes \<Rightarrow> u16 \<times> bytes" where
  "SetChecksum p = (let c = fold_sum (sum_words p 0) in (c, put_checksum c p))"

definition ICMPRequest :: "nat \<Rightarrow> ip_type \<Rightarrow> u16 \<Rightarrow> bytes" where
  "ICMPRequest rand protocol seqno =
     (let p = [if protocol \<noteq> IPv6 then 8 else 128, 0, 0, 0] @ le16 (word_of_nat (rand mod 65535)) @ le16 seqno
              @ replicate PING_DATA_SIZE 0
      in if protocol \<noteq> IPv6 then snd (SetChecksum p) else p)"

text \<open>\<open>Send\<close>: whether it throws, by what \<open>sendto\<close> returned.\<close>

definition Send_ok :: "int \<Rightarrow> bool" where
  "Send_ok ret = (ret \<noteq> - 1)"

section \<open>The socket\<close>

record ping_env =
  pe_socket :: int
  pe_setsockopt :: int
  pe_getfl :: int
  pe_setfl :: int
  pe_rand :: nat
  pe_sendto :: int
  pe_start :: int
  pe_events :: "((bytes \<times> bytes) option \<times> int) list"

text \<open>The constructor: the descriptor, or what it closed before it threw.\<close>

definition ICMPSocket_new :: "ping_env \<Rightarrow> int list + int" where
  "ICMPSocket_new e =
     (if pe_socket e \<le> 0 then Inl []
      else if pe_setsockopt e = - 1 then Inl [pe_socket e]
      else if pe_getfl e = - 1 \<or> pe_setfl e = - 1 then Inl [pe_socket e]
      else Inr (pe_socket e))"

section \<open>Responses\<close>

record ICMPResponse =
  rsp_protocol :: ip_type
  rsp_buffer :: bytes
  rsp_length :: nat

definition ICMPResponse_new :: ICMPResponse where
  "ICMPResponse_new = \<lparr>rsp_protocol = IPv4, rsp_buffer = replicate RECV_BUFFER_SIZE 0, rsp_length = 0\<rparr>"

text \<open>
  \<open>Receive\<close>: \<open>recvfrom\<close> gives a packet, of which the buffer takes what fits, and its sender, which is
  written over the block of the address.
\<close>

definition write_source :: "bytes \<Rightarrow> bytes \<Rightarrow> bytes" where
  "write_source src block = take (length block) src @ drop (length src) block"

definition Receive :: "(bytes \<times> bytes) option \<Rightarrow> bytes \<Rightarrow> ICMPResponse \<Rightarrow> bool \<times> bytes \<times> ICMPResponse" where
  "Receive recv block r =
     (case recv of
        None \<Rightarrow> (False, block, r)
      | Some (data, src) \<Rightarrow>
          (let data = take RECV_BUFFER_SIZE data; block = write_source src block
           in if data = [] then (False, block, r)
              else (True, block, r\<lparr>rsp_buffer := data @ drop (length data) (rsp_buffer r), rsp_length := length data,
                                   rsp_protocol := block_type block\<rparr>)))"

text \<open>
  \<open>Generate\<close> for a struct of \<open>n\<close> bytes: the length it compares is that of the whole packet, the rest of
  the packet is taken behind the header of IPv4, and its size is computed in 64 bits without sign.
\<close>

definition Generate :: "nat \<Rightarrow> ICMPResponse \<Rightarrow> bytes option" where
  "Generate n r =
     (if n > rsp_length r then None
      else Some
        (case rsp_protocol r of
           IPv6 \<Rightarrow> (let cnt = (if rsp_length r > n then n else rsp_length r)
                    in take cnt (rsp_buffer r) @ replicate (n - cnt) 0)
         | _ \<Rightarrow> (let left = (word_of_nat (rsp_length r) :: u64) - word_of_nat INET4_HEADER_SIZE;
                      cnt = (if left > word_of_nat n then n else unat left)
                  in take cnt (drop INET4_HEADER_SIZE (rsp_buffer r)) @ replicate (n - cnt) 0)))"

text \<open>\<open>GetICMPHeader\<close> keeps what it generated first; the buffer does not change between its calls.\<close>

definition GetICMPHeader :: "ICMPResponse \<Rightarrow> bytes option" where
  "GetICMPHeader r = Generate sizeof_header r"

definition GetTTL :: "ICMPResponse \<Rightarrow> u8" where
  "GetTTL r = (case rsp_protocol r of IPv6 \<Rightarrow> 0 | _ \<Rightarrow> rsp_buffer r ! INET4_TTL_OFFSET)"

definition GetSize :: "ICMPResponse \<Rightarrow> u32" where
  "GetSize r =
     (case rsp_protocol r of
        IPv6 \<Rightarrow> word_of_nat (rsp_length r)
      | _ \<Rightarrow> word_of_nat (rsp_length r) - word_of_nat INET4_HEADER_SIZE)"

datatype response_type =
    Ping_Success | Ping_Unreachable | Ping_TimeExceeded | Ping_Timeout | Ping_Unsupported | Ping_Failure

definition checksum_matches :: "bytes \<Rightarrow> bytes \<Rightarrow> bool" where
  "checksum_matches h p = (icmp_checksum h = fst (SetChecksum (put_checksum 0 p)))"

text \<open>\<open>GetResponseType\<close>, \<open>None\<close> where it throws. Type 3 falls through to type 11.\<close>

definition GetResponseType :: "bytes \<Rightarrow> ICMPResponse \<Rightarrow> response_type option" where
  "GetResponseType request r =
     (case GetICMPHeader r of
        None \<Rightarrow> None
      | Some h \<Rightarrow>
          if icmp_type h = 0 then
            (case Generate sizeof_echo r of
               None \<Rightarrow> None
             | Some echo \<Rightarrow>
                 Some (if \<not> checksum_matches h echo \<or> icmp_id request \<noteq> icmp_id echo then Ping_Unsupported
                       else Ping_Success))
          else if icmp_type h = 3 \<or> icmp_type h = 11 then
            (case Generate sizeof_reverted r of
               None \<Rightarrow> None
             | Some reverted \<Rightarrow>
                 Some (if \<not> checksum_matches h reverted then Ping_Unsupported
                       else if icmp_type h = 3 then Ping_Unreachable else Ping_TimeExceeded))
          else if icmp_type h = 8 then Some Ping_Timeout
          else Some Ping_Unsupported)"

definition GetResponseTypeV6 :: "bytes \<Rightarrow> ICMPResponse \<Rightarrow> response_type option" where
  "GetResponseTypeV6 request r =
     (case GetICMPHeader r of
        None \<Rightarrow> None
      | Some h \<Rightarrow>
          if icmp_type h = 129 then
            (case Generate sizeof_echo r of
               None \<Rightarrow> None
             | Some echo \<Rightarrow> Some (if icmp_id request \<noteq> icmp_id echo then Ping_Unsupported else Ping_Success))
          else if icmp_type h = 1 then Some Ping_Unreachable
          else if icmp_type h = 3 then Some Ping_TimeExceeded
          else if icmp_type h = 128 then Some Ping_Timeout
          else Some Ping_Unsupported)"

section \<open>A ping\<close>

record ping_result =
  pr_response :: response_type
  pr_interval :: real
  pr_address :: addr_ptr
  pr_code :: u8
  pr_ttl :: u8

text \<open>Times are nanoseconds; \<open>duration_cast\<close> truncates towards zero.\<close>

definition duration_cast :: "int \<Rightarrow> int \<Rightarrow> int" where
  "duration_cast unit t = sgn t * (\<bar>t\<bar> div unit)"

definition ping_failed :: ping_result where
  "ping_failed = \<lparr>pr_response = Ping_Failure, pr_interval = 0, pr_address = IPAddress_default, pr_code = 0, pr_ttl = 0\<rparr>"

definition ping_timed_out :: "u32 \<Rightarrow> ping_result" where
  "ping_timed_out timeout = \<lparr>pr_response = Ping_Timeout, pr_interval = real (unat timeout),
     pr_address = IPAddress_default, pr_code = 0, pr_ttl = 0\<rparr>"

text \<open>The loop of \<open>Execute\<close>: \<open>None\<close> while it waits for more than the events there are.\<close>

fun ping_loop ::
  "bytes \<Rightarrow> int \<Rightarrow> u32 \<Rightarrow> ((bytes \<times> bytes) option \<times> int) list \<Rightarrow> bytes \<Rightarrow> ping_result option" where
  "ping_loop request start timeout [] source = None"
| "ping_loop request start timeout ((recv, now) # events) source =
     (let (ok, source, response) = Receive recv source ICMPResponse_new
      in if \<not> ok then
           (if word_of_int (duration_cast (10 ^ 9) (now - start)) > timeout then Some (ping_timed_out timeout)
            else ping_loop request start timeout events source)
         else
           (case (if block_type source \<noteq> IPv6 then GetResponseType request response
                  else GetResponseTypeV6 request response) of
              None \<Rightarrow> Some ping_failed
            | Some t \<Rightarrow>
                if t \<noteq> Ping_Timeout then
                  Some \<lparr>pr_response = t, pr_interval = real_of_int (duration_cast 1000 (now - start)) / 1000,
                        pr_address = Owned source,
                        pr_code = (case GetICMPHeader response of Some h \<Rightarrow> icmp_code h | None \<Rightarrow> 0),
                        pr_ttl = GetTTL response\<rparr>
                else ping_loop request start timeout events source))"

text \<open>
  \<open>Execute\<close>, with the descriptors it closes: the result, \<open>None\<close> while it waits. What the constructors and
  \<open>Send\<close> throw is caught.
\<close>

definition Execute :: "ping_env \<Rightarrow> bytes \<Rightarrow> u32 \<Rightarrow> u16 \<Rightarrow> ping_result option \<times> int list" where
  "Execute e target timeout seqno =
     (case ICMPSocket_new e of
        Inl fds \<Rightarrow> (Some ping_failed, fds)
      | Inr sock \<Rightarrow>
          (let request = ICMPRequest (pe_rand e) (block_type target) seqno
           in if \<not> Send_ok (pe_sendto e) then (Some ping_failed, [sock])
              else case ping_loop request (pe_start e) timeout (pe_events e) target of
                     None \<Rightarrow> (None, [])
                   | Some res \<Rightarrow> (Some res, [sock])))"

text \<open>\<open>Ping\<close> hands on its arguments.\<close>

definition Ping :: "ping_env \<Rightarrow> bytes \<Rightarrow> u32 \<Rightarrow> u16 \<Rightarrow> ping_result option \<times> int list" where
  "Ping e target timeout seqno = Execute e target timeout seqno"

section \<open>The checksum of RFC 1071\<close>

text \<open>
  The reference: the words of the message in network order, added with the carry brought around, give
  \<open>0xFFFF\<close>.
\<close>

fun be_words :: "bytes \<Rightarrow> nat list" where
  "be_words (a # b # rest) = (256 * unat a + unat b) # be_words rest"
| "be_words [a] = [256 * unat a]"
| "be_words [] = []"

definition ones_add :: "nat \<Rightarrow> nat \<Rightarrow> nat" where
  "ones_add m n = (if m + n \<le> 65535 then m + n else m + n - 65535)"

definition rfc1071 :: "bytes \<Rightarrow> bool" where
  "rfc1071 p = (foldl ones_add 0 (be_words p) = 65535)"

definition ones_reduce :: "nat \<Rightarrow> nat" where
  "ones_reduce n = (if n = 0 then 0 else (n - 1) mod 65535 + 1)"

fun le_sum :: "bytes \<Rightarrow> nat" where
  "le_sum (a # b # rest) = unat a + 256 * unat b + le_sum rest"
| "le_sum [a] = unat a"
| "le_sum [] = 0"

lemma ones_reduce_le: "ones_reduce n \<le> 65535"
proof -
  have "(n - 1) mod 65535 + 1 \<le> 65535"
    by (metis Suc_eq_plus1 Suc_leI mod_less_divisor zero_less_numeral)
  then show ?thesis unfolding ones_reduce_def by presburger
qed

lemma ones_reduce_max: "ones_reduce n = 65535 \<longleftrightarrow> 0 < n \<and> n mod 65535 = 0"
  unfolding ones_reduce_def by (cases n) (auto simp: mod_Suc)

lemma ones_reduce_mod: "ones_reduce n mod 65535 = n mod 65535"
  unfolding ones_reduce_def by (cases n) (auto simp: mod_Suc)

lemma ones_add_reduce: "n \<le> 65535 \<Longrightarrow> ones_add (ones_reduce m) n = ones_reduce (m + n)"
proof -
  assume n: "n \<le> 65535"
  let ?k = "ones_reduce m"
  have "ones_reduce (m + n) = ones_reduce (?k + n)"
  proof (cases "m = 0")
    case False
    have "(m + n - 1) mod 65535 = ((m - 1) mod 65535 + n) mod 65535"
      using False by (simp add: mod_simps)
    then show ?thesis using False by (simp add: ones_reduce_def)
  qed (simp add: ones_reduce_def)
  moreover have "ones_reduce (?k + n) = ones_add ?k n"
  proof (cases "?k + n \<le> 65535")
    case True
    then show ?thesis by (cases "?k + n") (auto simp: ones_reduce_def ones_add_def)
  next
    case False
    have k: "?k \<le> 65535" by (rule ones_reduce_le)
    have "(?k + n - 1) mod 65535 = ?k + n - 1 - 65535"
      using False k n by (subst mod_if) (subst mod_if, auto)
    moreover have "?k + n \<noteq> 0" using False by linarith
    ultimately have "ones_reduce (?k + n) = ?k + n - 1 - 65535 + 1"
      unfolding ones_reduce_def[of "?k + n"] by presburger
    then show ?thesis using False by (simp add: ones_add_def)
  qed
  ultimately show ?thesis by simp
qed

lemma foldl_ones_add:
  "\<forall>n \<in> set ws. n \<le> 65535 \<Longrightarrow> foldl ones_add (ones_reduce m) ws = ones_reduce (m + sum_list ws)"
  by (induction ws arbitrary: m) (auto simp: ones_add_reduce add.assoc)

lemma byte_le: "unat (a :: u8) \<le> 255"
proof -
  have "unat a < 2 ^ LENGTH(8)" by (rule unsigned_less)
  then show ?thesis by simp
qed

lemma be_words_le: "n \<in> set (be_words p) \<Longrightarrow> n \<le> 65535"
proof (induction p rule: be_words.induct)
  case (1 a b rest)
  then show ?case using byte_le[of a] byte_le[of b] by auto
next
  case (2 a)
  then show ?case using byte_le[of a] by auto
qed simp

text \<open>The order of the bytes does not matter, because \<open>256 * 256 = 65536\<close>.\<close>

lemma byte_order:
  "even (length p) \<Longrightarrow> le_sum p mod 65535 = (256 * sum_list (be_words p)) mod 65535"
proof (induction p rule: be_words.induct)
  case (1 a b rest)
  have "(unat a + 256 * unat b + le_sum rest) mod 65535
      = (unat a + 256 * unat b + 256 * sum_list (be_words rest)) mod 65535"
    using 1 by (auto intro: mod_add_cong)
  also have "\<dots> = (unat a + 256 * unat b + 256 * sum_list (be_words rest) + 65535 * unat a) mod 65535"
    by (rule mod_mult_self2 [symmetric])
  also have "unat a + 256 * unat b + 256 * sum_list (be_words rest) + 65535 * unat a
      = 256 * sum_list (be_words (a # b # rest))"
    by simp
  finally show ?case by (simp only: le_sum.simps)
qed simp_all

lemma be_sum_zero: "sum_list (be_words p) = 0 \<longleftrightarrow> le_sum p = 0"
  by (induction p rule: be_words.induct) auto

lemma rfc1071_le_sum:
  assumes "even (length p)"
  shows "rfc1071 p \<longleftrightarrow> 0 < le_sum p \<and> le_sum p mod 65535 = 0"
proof -
  let ?B = "sum_list (be_words p)"
  have "foldl ones_add (ones_reduce 0) (be_words p) = ones_reduce (0 + ?B)"
    by (rule foldl_ones_add) (simp add: be_words_le)
  then have "rfc1071 p \<longleftrightarrow> 0 < ?B \<and> ?B mod 65535 = 0"
    by (simp add: rfc1071_def ones_reduce_def[of 0] ones_reduce_max)
  also have "0 < ?B \<longleftrightarrow> 0 < le_sum p" by (simp only: be_sum_zero neq0_conv [symmetric])
  also have "?B mod 65535 = 0 \<longleftrightarrow> (256 * ?B) mod 65535 = 0"
  proof -
    have "coprime (65535 :: nat) (2 ^ 8)" unfolding coprime_power_right_iff by simp
    then have "coprime (65535 :: nat) 256" by simp
    then show ?thesis by (simp add: mod_eq_0_iff_dvd coprime_dvd_mult_right_iff)
  qed
  finally show ?thesis using byte_order[OF assms] by simp
qed

text \<open>What the two folds leave is the sum with its carries brought around, inverted.\<close>

lemma ones_reduce_small: "n \<le> 65535 \<Longrightarrow> ones_reduce n = n"
  by (cases n) (auto simp: ones_reduce_def)

lemma ones_reduce_carry: "65536 \<le> n \<Longrightarrow> n \<le> 131070 \<Longrightarrow> ones_reduce n = n - 65535"
  using ones_add_reduce[of "n - 65535" 65535] ones_reduce_small[of 65535]
  by (simp add: ones_add_def)

lemma ones_reduce_shift: "n \<noteq> 0 \<Longrightarrow> ones_reduce (65535 * q + n) = ones_reduce n"
proof -
  assume "n \<noteq> 0"
  then have "65535 * q + n - 1 = (n - 1) + 65535 * q" by simp
  then show ?thesis unfolding ones_reduce_def using \<open>n \<noteq> 0\<close> by (simp only: mod_mult_self2) simp
qed

lemma two_folds:
  assumes "q \<le> 65535" "r \<le> 65535"
  shows "(q + r + (q + r) div 65536) mod 65536 = ones_reduce (65536 * q + r)"
proof (cases "q + r = 0")
  case False
  have "ones_reduce (65536 * q + r) = ones_reduce (q + r)"
    using ones_reduce_shift[OF False, of q] by (simp add: algebra_simps)
  moreover have "(q + r + (q + r) div 65536) mod 65536 = ones_reduce (q + r)"
  proof (cases "q + r \<le> 65535")
    case True
    then show ?thesis by (simp add: ones_reduce_small)
  next
    case big: False
    then have "(q + r) div 65536 = 1" using assms by (simp add: div_nat_eqI)
    moreover have "(q + r + 1) mod 65536 = q + r + 1 - 65536"
      using big assms by (simp add: le_mod_geq)
    ultimately show ?thesis using big assms by (simp add: ones_reduce_carry)
  qed
  ultimately show ?thesis by simp
qed (simp add: ones_reduce_def)

lemma unat_high_word: "unat (drop_bit 16 (s::u32)) = unat s div 65536"
  by (simp add: drop_bit_eq_div unat_div)

lemma unat_low_word: "unat ((s::u32) AND 0xFFFF) = unat s mod 65536"
proof -
  have "(s AND 0xFFFF) = take_bit 16 s"
    by (simp add: take_bit_eq_mask mask_eq_exp_minus_1)
  then show ?thesis by (simp add: take_bit_eq_mod unat_mod)
qed

lemma unat_not_low_word: "unat (ucast (NOT (s::u32)) :: u16) = 65535 - unat s mod 65536"
proof -
  have "(ucast (NOT s) :: u16) = NOT (ucast s)" by (rule bit_word_eqI) (auto simp: bit_simps)
  moreover have "unat (NOT (w::u16)) = 65535 - unat w" for w
  proof -
    have "NOT w = - 1 - w" by (simp add: not_eq_complement)
    moreover have "unat (- 1 - w) = unat (- 1 :: u16) - unat w"
      by (rule unat_sub) simp
    moreover have "unat (- 1 :: u16) = 65535"
      by (simp add: unsigned_minus_1_eq_mask mask_eq_exp_minus_1)
    ultimately show ?thesis by simp
  qed
  moreover have "unat (ucast s :: u16) = unat s mod 65536"
    by (simp add: unsigned_ucast_eq take_bit_eq_mod)
  ultimately show ?thesis by simp
qed

lemma unat_un_le16: "unat (un_le16 [a, b]) = unat a + 256 * unat b"
proof -
  have "un_le16 [a,b] = ucast a + push_bit 8 (ucast b)"
    unfolding un_le16_def 
    by (subst disjunctive_add) (auto simp: bit_simps dest: bit_imp_le_length)
  moreover have "unat a < 2^LENGTH(8)" "unat b < 2^LENGTH(8)" by (rule unsigned_less)+
  ultimately show ?thesis by (simp add: push_bit_eq_mult unat_word_ariths unsigned_ucast_eq take_bit_eq_mod)
qed

lemma unat_fold_sum: "unat (fold_sum s) = 65535 - ones_reduce (unat s)"
proof -
  define q r where "q = unat s div 65536" and "r = unat s mod 65536"
  have "unat s < 2 ^ LENGTH(32)" by (rule unsigned_less)
  then have qr: "q \<le> 65535" "r \<le> 65535" by (auto simp: q_def r_def less_Suc_eq_le [symmetric])
  define t where "t = drop_bit 16 s + (s AND 0xFFFF)"
  have t: "unat t = q + r"
    using qr unfolding t_def
    by (simp only: unat_word_ariths unat_high_word unat_low_word q_def [symmetric] r_def [symmetric]) simp
  have "(q + r) div 65536 \<le> 1" using qr by simp
  then have t2: "unat (t + drop_bit 16 t) = q + r + (q + r) div 65536"
    using qr by (simp only: unat_word_ariths unat_high_word t) simp
  show ?thesis
    using two_folds[OF qr] unfolding fold_sum_def Let_def t_def [symmetric] unat_not_low_word t2
    by (simp add: q_def r_def)
qed

lemma le_sum_le: "le_sum p \<le> 65535 * length p"
proof (induction p rule: le_sum.induct)
  case (1 a b rest)
  then show ?case using byte_le[of a] byte_le[of b] by simp
next
  case (2 a)
  then show ?case using byte_le[of a] by simp
qed simp

lemma unat_wider: "unat (ucast (w :: u16) :: u32) = unat w" "unat (ucast (b :: u8) :: u32) = unat b"
proof -
  have "unat w < 2 ^ LENGTH(16)" "unat b < 2 ^ LENGTH(8)" by (rule unsigned_less)+
  then show "unat (ucast w :: u32) = unat w" "unat (ucast b :: u32) = unat b"
    by (simp_all add: unsigned_ucast_eq take_bit_eq_mod)
qed

lemma unat_sum_words:
  "unat acc + le_sum p < 2 ^ 32 \<Longrightarrow> unat (sum_words p acc) = unat acc + le_sum p"
proof (induction p acc rule: sum_words.induct)
  case (1 a b rest acc)
  have "unat (acc + ucast (un_le16 [a, b])) = unat acc + unat a + 256 * unat b"
    using 1(2) by (simp only: unat_word_ariths unat_wider unat_un_le16) simp
  then show ?case using 1 by simp
next
  case (2 a acc)
  then show ?case by (simp only: sum_words.simps unat_word_ariths unat_wider le_sum.simps) simp
qed simp

text \<open>The checksum the code computes.\<close>

lemma checksum_value:
  assumes "length p \<le> 1024"
  shows "unat (fst (SetChecksum p)) = 65535 - ones_reduce (le_sum p)"
proof -
  have "le_sum p \<le> 65535 * 1024" using le_sum_le[of p] assms by simp
  then have "unat (sum_words p 0) = le_sum p" by (subst unat_sum_words) auto
  then show ?thesis by (simp add: SetChecksum_def Let_def unat_fold_sum)
qed

section \<open>Checksums of messages\<close>

lemma message_cases:
  assumes "4 \<le> length p"
  obtains a b x y rest where "p = a # b # x # y # rest"
  using assms by (cases p; cases "tl p"; cases "tl (tl p)"; cases "tl (tl (tl p))") auto

lemma put_checksum_Cons [simp]: "put_checksum c (a # b # x # y # rest) = a # b # le16 c @ rest"
  by (simp add: put_checksum_def)

lemma length_put_checksum [simp]: "4 \<le> length p \<Longrightarrow> length (put_checksum c p) = length p"
  by (simp add: put_checksum_def)

lemma put_checksum_twice [simp]: "4 \<le> length p \<Longrightarrow> put_checksum c (put_checksum d p) = put_checksum c p"
  by (erule message_cases) (simp add: le16_def)

lemma put_checksum_same:
  assumes "4 \<le> length p" shows "put_checksum (icmp_checksum p) p = p"
  using assms
proof (rule message_cases)
  fix a b x y rest assume p: "p = a # b # x # y # rest"
  have "un_le16 (x # y # rest) = un_le16 [x, y]" by (simp add: un_le16_def)
  then have "le16 (un_le16 (x # y # rest)) = [x, y]" using le16_un_le16[of "[x, y]"] by simp
  then show ?thesis by (simp add: p icmp_checksum_def)
qed

lemma le_sum_put_checksum: "4 \<le> length p \<Longrightarrow> le_sum (put_checksum c p) = le_sum (put_checksum 0 p) + unat c"
proof (erule message_cases)
  fix a b x y rest assume p: "p = a # b # x # y # rest"
  obtain l h where c: "le16 c = [l, h]" by (simp add: le16_def)
  then have "c = un_le16 [l, h]" using un_le16_le16[of c "[]"] by simp
  then have "unat c = unat l + 256 * unat h" by (simp add: unat_un_le16)
  then show ?thesis by (simp add: p c) (simp add: le16_def)
qed

text \<open>
  A message whose checksum field holds what the code computes is a valid one, and every valid message holds
  that, unless its field is \<open>0xFFFF\<close>.
\<close>

lemma complement_mod:
  fixes c n :: nat
  assumes "c < 65535"
  shows "c = 65535 - ones_reduce n \<longleftrightarrow> 0 < n + c \<and> (n + c) mod 65535 = 0"
proof (cases "n = 0")
  case True
  then show ?thesis using assms by (auto simp: ones_reduce_def)
next
  case False
  let ?k = "ones_reduce n"
  have k: "?k \<le> 65535" "0 < ?k" using ones_reduce_le[of n] False by (auto simp: ones_reduce_def)
  have "(n + c) mod 65535 = (?k + c) mod 65535"
    by (intro mod_add_cong) (simp_all add: ones_reduce_mod)
  moreover have "(?k + c) mod 65535 = 0 \<longleftrightarrow> ?k + c = 65535"
  proof
    assume "(?k + c) mod 65535 = 0"
    then obtain j where "?k + c = 65535 * j" by (auto simp: mod_eq_0_iff_dvd)
    moreover then have "j = 1" using k assms by arith
    ultimately show "?k + c = 65535" by simp
  qed simp
  ultimately show ?thesis using False k by auto
qed

lemma complement_sum: "0 < n + (65535 - ones_reduce n)" "(n + (65535 - ones_reduce n)) mod 65535 = 0"
proof -
  show "0 < n + (65535 - ones_reduce n)"
    by (cases "n = 0") (simp add: ones_reduce_small, linarith)
  have "(n + (65535 - ones_reduce n)) mod 65535 = (ones_reduce n + (65535 - ones_reduce n)) mod 65535"
    by (rule mod_add_cong [OF ones_reduce_mod [symmetric] refl])
  also have "ones_reduce n + (65535 - ones_reduce n) = 65535"
    using ones_reduce_le by (rule le_add_diff_inverse)
  finally show "(n + (65535 - ones_reduce n)) mod 65535 = 0" by (simp only: mod_self)
qed

lemma computed_valid:
  assumes "4 \<le> length p" "length p \<le> 1024" "even (length p)"
  shows "rfc1071 (put_checksum (fst (SetChecksum (put_checksum 0 p))) p)"
proof -
  let ?c = "fst (SetChecksum (put_checksum 0 p))"
  define n where "n = le_sum (put_checksum 0 p)"
  have "unat ?c = 65535 - ones_reduce n"
    using checksum_value[of "put_checksum 0 p"] assms by (simp add: n_def)
  then have "le_sum (put_checksum ?c p) = n + (65535 - ones_reduce n)"
    using le_sum_put_checksum[OF assms(1), of ?c] by (simp only: n_def)
  then show ?thesis using complement_sum[of n] assms by (subst rfc1071_le_sum) simp_all
qed

lemma matches_iff_valid:
  assumes "4 \<le> length p" "length p \<le> 1024" "even (length p)" "icmp_checksum p \<noteq> 0xFFFF"
  shows "icmp_checksum p = fst (SetChecksum (put_checksum 0 p)) \<longleftrightarrow> rfc1071 p"
proof -
  let ?n = "le_sum (put_checksum 0 p)"
  have "unat (icmp_checksum p) < 2 ^ LENGTH(16)" by (rule unsigned_less)
  moreover have "unat (icmp_checksum p) \<noteq> 65535"
    using assms(4) by (simp add: word_unat_eq_iff)
  ultimately have "unat (icmp_checksum p) < 65535" by simp
  then have "unat (icmp_checksum p) = 65535 - ones_reduce ?n \<longleftrightarrow> rfc1071 p"
    using complement_mod[of "unat (icmp_checksum p)" ?n] le_sum_put_checksum[OF assms(1), of "icmp_checksum p"] assms
    by (simp add: rfc1071_le_sum put_checksum_same)
  then show ?thesis
    using checksum_value[of "put_checksum 0 p"] assms by (simp add: word_unat_eq_iff)
qed

lemma valid_if_matches:
  assumes "4 \<le> length p" "length p \<le> 1024" "even (length p)"
    and "icmp_checksum p = fst (SetChecksum (put_checksum 0 p))"
  shows "rfc1071 p"
  using computed_valid[OF assms(1-3)] unfolding assms(4) [symmetric] by (simp only: put_checksum_same[OF assms(1)])

text \<open>
  A checksum of \<open>0xFFFF\<close>, which stands for the same sum as 0, is one the code computes only for a message
  of zeros.
\<close>

definition checksum_right :: "bytes \<Rightarrow> bool" where
  "checksum_right p \<longleftrightarrow> rfc1071 p \<and> (icmp_checksum p \<noteq> 0xFFFF \<or> set (put_checksum 0 p) \<subseteq> {0})"

lemma le_sum_zero: "le_sum p = 0 \<longleftrightarrow> set p \<subseteq> {0}"
  by (induction p rule: le_sum.induct) (auto simp: unat_eq_0)

lemma ones_reduce_0: "ones_reduce n = 0 \<longleftrightarrow> n = 0"
  by (simp add: ones_reduce_def)

lemma matches_iff_right:
  assumes "4 \<le> length p" "length p \<le> 1024" "even (length p)"
  shows "icmp_checksum p = fst (SetChecksum (put_checksum 0 p)) \<longleftrightarrow> checksum_right p"
proof (cases "icmp_checksum p = 0xFFFF")
  case True
  let ?n = "le_sum (put_checksum 0 p)"
  have v: "unat (fst (SetChecksum (put_checksum 0 p))) = 65535 - ones_reduce ?n"
    using checksum_value[of "put_checksum 0 p"] assms by simp
  have "icmp_checksum p = fst (SetChecksum (put_checksum 0 p)) \<longleftrightarrow> 65535 = 65535 - ones_reduce ?n"
    unfolding word_unat_eq_iff[of "icmp_checksum p"] v using True by simp
  also have "\<dots> \<longleftrightarrow> ?n = 0" using ones_reduce_le[of ?n] ones_reduce_0[of ?n] by linarith
  finally show ?thesis using valid_if_matches[OF assms] True by (auto simp: checksum_right_def le_sum_zero)
qed (use matches_iff_valid[OF assms] in \<open>simp add: checksum_right_def\<close>)

section \<open>What a ping reports\<close>

text \<open>A packet of IPv4: a header of 20 bytes and a message; and the bytes of an IPv4 address.\<close>

definition v4_source :: "bytes \<Rightarrow> bool" where
  "v4_source s = (length s = 16 \<and> block_type s = IPv4)"

lemma Receive_v4:
  assumes "v4_source src" "length block = 16" "length hdr = 20" "length msg \<le> 1004"
  shows "Receive (Some (hdr @ msg, src)) block ICMPResponse_new =
         (True, src, \<lparr>rsp_protocol = IPv4, rsp_buffer = hdr @ msg @ replicate (1004 - length msg) 0,
                     rsp_length = 20 + length msg\<rparr>)"
proof -
  have "hdr \<noteq> []" using assms by auto
  then show ?thesis
    using assms by (simp add: Receive_def v4_source_def write_source_def RECV_BUFFER_SIZE_def ICMPResponse_new_def Let_def)
qed

lemma left_in_packet:
  assumes "length msg \<le> 1004"
  shows "(word_of_nat (20 + length msg) :: u64) - word_of_nat INET4_HEADER_SIZE = word_of_nat (length msg)"
  by (simp add: INET4_HEADER_SIZE_def)

lemma Generate_v4_any:
  assumes "length hdr = 20" "length msg \<le> 1004" "n \<le> 1000"
    and r: "r = \<lparr>rsp_protocol = IPv4, rsp_buffer = hdr @ msg @ z, rsp_length = 20 + length msg\<rparr>"
  shows "Generate n r = (if 20 + length msg < n then None else Some (take n (msg @ replicate n 0)))"
proof -
  have "(word_of_nat (length msg) > (word_of_nat n :: u64)) = (n < length msg)"
    using assms by (simp add: word_less_nat_alt unsigned_of_nat take_bit_nat_eq_self)
  moreover have "unat (word_of_nat (length msg) :: u64) = length msg"
    using assms by (simp add: unsigned_of_nat take_bit_nat_eq_self)
  moreover have "drop INET4_HEADER_SIZE (hdr @ msg @ z) = msg @ z"
    using assms by (simp add: INET4_HEADER_SIZE_def)
  ultimately show ?thesis
    using assms left_in_packet[OF assms(2)] by (auto simp: Generate_def Let_def)
qed

lemma Generate_v4:
  assumes "length hdr = 20" "length msg \<le> 1004" "n \<le> length msg" "n \<le> 1000"
    and r: "r = \<lparr>rsp_protocol = IPv4, rsp_buffer = hdr @ msg @ z, rsp_length = 20 + length msg\<rparr>"
  shows "Generate n r = Some (take n msg)"
  using Generate_v4_any[OF assms(1,2,4) r] assms(3) by simp

lemma icmp_fields_take [simp]:
  "1 \<le> n \<Longrightarrow> icmp_type (take n p) = icmp_type p" "2 \<le> n \<Longrightarrow> icmp_code (take n p) = icmp_code p"
  "4 \<le> n \<Longrightarrow> icmp_checksum (take n p) = icmp_checksum p"
  by (simp_all add: icmp_type_def icmp_code_def icmp_checksum_def drop_take)

lemma sizes [simp]: "sizeof_header = 4" "sizeof_echo = 72" "sizeof_reverted = 36"
  by (simp_all add: sizeof_header_def sizeof_echo_def sizeof_reverted_def PING_DATA_SIZE_def
      INET4_ORIGINAL_DATA_SIZE_def INET4_HEADER_SIZE_def)

text \<open>
  An echo reply as the code reads it: 72 bytes, with zeros where it is shorter. It is a success if its checksum
  is right and it has the id of the request, and unsupported otherwise; with less than 52 bytes it throws.
\<close>

definition as_read :: "bytes \<Rightarrow> bytes" where
  "as_read msg = take 72 (msg @ replicate 72 0)"

lemma as_read_take: "n \<le> 72 \<Longrightarrow> take n (msg @ replicate n 0) = take n (as_read msg)"
  by (simp add: as_read_def)

lemma echo_reply_type:
  assumes "length hdr = 20" "length msg \<le> 1004" "icmp_type (as_read msg) = 0"
    and r: "r = \<lparr>rsp_protocol = IPv4, rsp_buffer = hdr @ msg @ z, rsp_length = 20 + length msg\<rparr>"
  shows "GetICMPHeader r = Some (take 4 (as_read msg))"
    "GetResponseType request r = (if length msg < 52 then None
         else Some (if checksum_right (as_read msg) \<and> icmp_id request = icmp_id (as_read msg) then Ping_Success else Ping_Unsupported))"
proof -
  have l: "length (as_read msg) = 72" by (simp add: as_read_def)
  have g4: "Generate 4 r = Some (take 4 (as_read msg))"
    using Generate_v4_any[OF assms(1,2) _ r, of 4] as_read_take[of 4 msg] by (simp del: take_append)
  have g72: "Generate 72 r = (if length msg < 52 then None else Some (as_read msg))"
    using Generate_v4_any[OF assms(1,2) _ r, of 72] by (auto simp: as_read_def)
  show "GetICMPHeader r = Some (take 4 (as_read msg))" using g4 by (simp add: GetICMPHeader_def)
  have "icmp_checksum (as_read msg) = fst (SetChecksum (put_checksum 0 (as_read msg))) \<longleftrightarrow> checksum_right (as_read msg)"
    using matches_iff_right[of "as_read msg"] l by simp
  then show "GetResponseType request r = (if length msg < 52 then None
         else Some (if checksum_right (as_read msg) \<and> icmp_id request = icmp_id (as_read msg) then Ping_Success else Ping_Unsupported))"
    using assms(3) g4 g72 by (simp add: GetResponseType_def GetICMPHeader_def checksum_matches_def)
qed

text \<open>
  Of an error message the checksum is compared over its first 36 bytes, so what a router quotes beyond
  those must not change the sum for the message to be recognised.
\<close>

lemma error_message_type:
  assumes "length hdr = 20" "36 \<le> length msg" "length msg \<le> 1004" "icmp_type msg \<in> {3, 11}"
    and "icmp_checksum msg \<noteq> 0xFFFF"
    and r: "r = \<lparr>rsp_protocol = IPv4, rsp_buffer = hdr @ msg @ z, rsp_length = 20 + length msg\<rparr>"
  shows "GetResponseType request r =
         Some (if \<not> rfc1071 (take 36 msg) then Ping_Unsupported
               else if icmp_type msg = 3 then Ping_Unreachable else Ping_TimeExceeded)"
proof -
  have "Generate 4 r = Some (take 4 msg)" "Generate 36 r = Some (take 36 msg)"
    using Generate_v4[OF assms(1,3) _ _ r] assms(2) by simp_all
  moreover have "icmp_checksum msg = fst (SetChecksum (put_checksum 0 (take 36 msg))) \<longleftrightarrow> rfc1071 (take 36 msg)"
    using matches_iff_valid[of "take 36 msg"] assms by simp
  ultimately show ?thesis
    using assms by (auto simp: GetResponseType_def GetICMPHeader_def checksum_matches_def)
qed

text \<open>
  What the loop passes over: nothing received within the timeout, and echo requests, at any time. The
  elapsed time is not looked at while packets arrive.
\<close>

definition passed_over :: "int \<Rightarrow> u32 \<Rightarrow> (bytes \<times> bytes) option \<times> int \<Rightarrow> bool" where
  "passed_over start timeout ev =
     (case ev of
        (None, now) \<Rightarrow> \<not> timeout < word_of_int (duration_cast (10 ^ 9) (now - start))
      | (Some (data, src), now) \<Rightarrow>
          24 \<le> length data \<and> length data \<le> 1024 \<and> data ! 20 = 8 \<and> v4_source src)"

lemma echo_request_type:
  assumes "24 \<le> length data" "length data \<le> 1024" "data ! 20 = 8" "v4_source src" "length block = 16"
  shows "\<exists>r. Receive (Some (data, src)) block ICMPResponse_new = (True, src, r) \<and>
             GetResponseType request r = Some Ping_Timeout"
proof -
  define hdr msg where "hdr = take 20 data" and "msg = drop 20 data"
  have d: "data = hdr @ msg" "length hdr = 20" "length msg \<le> 1004" "4 \<le> length msg" "icmp_type msg = 8"
    using assms by (simp_all add: hdr_def msg_def icmp_type_def)
  note rec = Receive_v4[OF assms(4,5) d(2,3)]
  have "GetResponseType request \<lparr>rsp_protocol = IPv4, rsp_buffer = hdr @ msg @ replicate (1004 - length msg) 0,
          rsp_length = 20 + length msg\<rparr> = Some Ping_Timeout"
    using Generate_v4[OF d(2,3,4) _ refl] d(5) by (simp add: GetResponseType_def GetICMPHeader_def)
  then show ?thesis using rec d(1) by blast
qed

lemma v4_source_not_v6: "v4_source s \<Longrightarrow> block_type s \<noteq> IPv6"
  by (simp add: v4_source_def)

lemma ping_loop_passed:
  assumes "\<forall>ev \<in> set early. passed_over start timeout ev" "v4_source source"
  shows "\<exists>source'. v4_source source' \<and>
    ping_loop request start timeout (early @ events) source = ping_loop request start timeout events source'"
  using assms
proof (induction early arbitrary: source)
  case (Cons ev early)
  obtain recv now where ev: "ev = (recv, now)" by (cases ev)
  show ?case
  proof (cases recv)
    case None
    then have "ping_loop request start timeout ((ev # early) @ events) source =
        ping_loop request start timeout (early @ events) source"
      using Cons.prems by (simp add: ev Receive_def passed_over_def)
    then show ?thesis using Cons.IH[of source] Cons.prems by auto
  next
    case (Some p)
    obtain data src where p: "p = (data, src)" by (cases p)
    have h: "24 \<le> length data" "length data \<le> 1024" "data ! 20 = 8" "v4_source src" "length source = 16"
      using Cons.prems by (auto simp: passed_over_def ev Some p v4_source_def)
    obtain r where "Receive (Some (data, src)) source ICMPResponse_new = (True, src, r)"
      "GetResponseType request r = Some Ping_Timeout"
      using echo_request_type[OF h] by blast
    then have "ping_loop request start timeout ((ev # early) @ events) source =
        ping_loop request start timeout (early @ events) src"
      using v4_source_not_v6[OF h(4)] by (simp add: ev Some p)
    then show ?thesis using Cons.IH[of src] Cons.prems h(4) by auto
  qed
qed auto

lemma requests_keep_waiting:
  assumes "\<forall>ev \<in> set events. passed_over start timeout ev" "v4_source source"
  shows "ping_loop request start timeout events source = None"
  using ping_loop_passed[OF assms, of request "[]"] by auto

text \<open>The request is valid and carries the id and the number.\<close>

lemma request_valid:
  "rfc1071 (ICMPRequest rand IPv4 seqno)" "icmp_id (ICMPRequest rand IPv4 seqno) = word_of_nat (rand mod 65535)"
  "icmp_type (ICMPRequest rand IPv4 seqno) = 8" "length (ICMPRequest rand IPv4 seqno) = 72"
proof -
  define rest :: bytes where "rest = le16 (word_of_nat (rand mod 65535)) @ le16 seqno @ replicate 64 0"
  let ?p = "8 # 0 # 0 # 0 # rest :: bytes"
  have p: "put_checksum 0 ?p = ?p" by (simp add: le16_def)
  have e: "ICMPRequest rand IPv4 seqno = put_checksum (fst (SetChecksum (put_checksum 0 ?p))) ?p"
    unfolding p by (simp add: ICMPRequest_def Let_def SetChecksum_def PING_DATA_SIZE_def rest_def)
  have l: "length ?p = 72" by (simp add: rest_def)
  show "rfc1071 (ICMPRequest rand IPv4 seqno)"
    unfolding e by (rule computed_valid) (simp_all only: l, simp_all)
  show "length (ICMPRequest rand IPv4 seqno) = 72" unfolding e using l by simp
  show "icmp_type (ICMPRequest rand IPv4 seqno) = 8" unfolding e by (simp add: icmp_type_def)
  have "drop 4 (ICMPRequest rand IPv4 seqno) = rest" unfolding e by (simp add: le16_def)
  then show "icmp_id (ICMPRequest rand IPv4 seqno) = word_of_nat (rand mod 65535)"
    by (simp add: icmp_id_def rest_def)
qed

text \<open>
  C36. A ping over IPv4 whose socket opens and whose request is sent, up to the first packet with an IP header
  of 20 bytes and an echo reply in it, behind things the loop passes over: it ends with that packet, whatever
  comes later, and closes the socket. A reply of less than 52 bytes is a failure. Any other is a success
  exactly if, read with 72 bytes and zeros for those that are not there, its checksum is right by RFC 1071 in
  network order (and not \<open>0xFFFF\<close>, unless the rest is zero), and its id is that of the request; else,
  also for the reply to another process, the ping ends as unsupported. Address, code and TTL are those of
  the packet.
\<close>

theorem ping_answered:
  assumes "ICMPSocket_new e = Inr sock" "Send_ok (pe_sendto e)" "v4_source target"
    and "pe_events e = early @ (Some (hdr @ msg, src), now) # later"
    and "\<forall>ev \<in> set early. passed_over (pe_start e) timeout ev"
    and "length hdr = 20" "icmp_type (as_read msg) = 0" "v4_source src"
  shows "\<exists>res. Execute e target timeout seqno = (Some res, [sock]) \<and>
    (if length msg < 52 then res = ping_failed
     else pr_response res = (if checksum_right (as_read msg) \<and> icmp_id (as_read msg) = word_of_nat (pe_rand e mod 65535)
                             then Ping_Success else Ping_Unsupported) \<and>
       pr_address res = Owned src \<and> pr_ttl res = hdr ! 8 \<and> pr_code res = icmp_code (as_read msg))"
proof -
  let ?req = "ICMPRequest (pe_rand e) IPv4 seqno" and ?msg = "take 1004 msg"
  let ?r = "\<lparr>rsp_protocol = IPv4, rsp_buffer = hdr @ ?msg @ replicate (1004 - length ?msg) 0, rsp_length = 20 + length ?msg\<rparr>"
  obtain source where s: "v4_source source"
    and l: "ping_loop ?req (pe_start e) timeout (pe_events e) target =
            ping_loop ?req (pe_start e) timeout ((Some (hdr @ msg, src), now) # later) source"
    using ping_loop_passed[OF assms(5,3)] assms(4) by metis
  have cut: "Receive (Some (hdr @ msg, src)) source r = Receive (Some (hdr @ ?msg, src)) source r" for r
    using assms(6) by (simp add: Receive_def RECV_BUFFER_SIZE_def min_def)
  have rec: "Receive (Some (hdr @ msg, src)) source ICMPResponse_new = (True, src, ?r)"
    unfolding cut using Receive_v4[OF assms(8) _ assms(6), of source ?msg] s by (simp add: v4_source_def)
  have m: "as_read ?msg = as_read msg" by (simp add: as_read_def take_append)
  have ty: "icmp_type (as_read ?msg) = 0" using assms(7) m by simp
  let ?z = "replicate (1004 - length ?msg) 0"
  note t = echo_reply_type(1)[OF assms(6) _ ty refl, where z = ?z, unfolded m]
    echo_reply_type(2)[OF assms(6) _ ty refl, where z = ?z and request = ?req, unfolded m]
  have ttl: "GetTTL ?r = hdr ! 8"
    using assms(6) by (simp add: GetTTL_def INET4_TTL_OFFSET_def nth_append)
  have b: "block_type target = IPv4" "block_type src \<noteq> IPv6" using assms(3,8) by (simp_all add: v4_source_def)
  have short: "length ?msg < 52 \<longleftrightarrow> length msg < 52" by auto
  show ?thesis
    using assms(1,2) b l rec t short ttl request_valid(2)[of "pe_rand e" seqno]
    by (auto simp: Execute_def Let_def)
qed

definition demo_ping_env :: "bytes \<Rightarrow> ping_env" where
  "demo_ping_env msg = \<lparr>pe_socket = 3, pe_setsockopt = 0, pe_getfl = 2, pe_setfl = 0, pe_rand = 70000, pe_sendto = 72,
     pe_start = 0, pe_events = [(None, 1000), (Some (replicate 8 0 @ [64] @ replicate 11 0 @ msg, sockaddr_in [10, 0, 0, 7]), 250000)]\<rparr>"

definition demo_reply :: bytes where
  "demo_reply = [0, 0, 0x8D, 0xEE, 0x71, 0x11, 1, 0] @ replicate 64 0"

lemma demo_reply_facts:
  "length demo_reply = 72" "icmp_type demo_reply = 0" "icmp_code demo_reply = 0" "icmp_checksum demo_reply \<noteq> 0xFFFF"
  "icmp_id demo_reply = word_of_nat (70000 mod 65535)" "rfc1071 demo_reply"
proof -
  show "length demo_reply = 72" by (simp add: demo_reply_def)
  show "icmp_type demo_reply = 0" "icmp_code demo_reply = 0"
    by (simp_all add: demo_reply_def icmp_type_def icmp_code_def)
  show "icmp_checksum demo_reply \<noteq> 0xFFFF" "icmp_id demo_reply = word_of_nat (70000 mod 65535)"
    by (simp_all add: demo_reply_def icmp_checksum_def icmp_id_def un_le16_def)
  have "le_sum (replicate (2 * n) 0) = 0" for n by (induction n) auto
  from this[of 32] have "le_sum demo_reply = 65535" by (simp add: demo_reply_def)
  then show "rfc1071 demo_reply" by (simp add: rfc1071_le_sum demo_reply_def)
qed

lemma demo_reply_read: "as_read demo_reply = demo_reply" "checksum_right demo_reply" "length demo_reply = 72"
  using demo_reply_facts by (simp_all add: as_read_def checksum_right_def)

theorem ping_answered_witness:
  "\<exists>res. Execute (demo_ping_env demo_reply) (sockaddr_in [10, 0, 0, 7]) 60 1 = (Some res, [3]) \<and>
     pr_response res = Ping_Success \<and> pr_ttl res = 64"
proof -
  have "v4_source (sockaddr_in [10, 0, 0, 7])" by code_simp
  moreover have "passed_over 0 60 (None, 1000)" by (simp add: passed_over_def duration_cast_def)
  moreover have "ICMPSocket_new (demo_ping_env demo_reply) = Inr 3" "Send_ok (pe_sendto (demo_ping_env demo_reply))"
    by (simp_all add: demo_ping_env_def ICMPSocket_new_def Send_ok_def)
  ultimately have "\<exists>res. Execute (demo_ping_env demo_reply) (sockaddr_in [10, 0, 0, 7]) 60 1 = (Some res, [3]) \<and>
    (if length demo_reply < 52 then res = ping_failed
     else pr_response res = (if checksum_right (as_read demo_reply) \<and> icmp_id (as_read demo_reply) = word_of_nat (70000 mod 65535)
                        then Ping_Success else Ping_Unsupported) \<and>
     pr_address res = Owned (sockaddr_in [10, 0, 0, 7]) \<and> pr_ttl res = (replicate 8 0 @ [64] @ replicate 11 0) ! 8 \<and>
     pr_code res = icmp_code (as_read demo_reply))"
    using ping_answered [of "demo_ping_env demo_reply" 3 "sockaddr_in [10, 0, 0, 7]" "[(None, 1000)]"
        "replicate 8 0 @ [64] @ replicate 11 0" demo_reply "sockaddr_in [10, 0, 0, 7]" 250000 "[]" 60 1]
    by (simp add: demo_ping_env_def demo_reply_facts demo_reply_read del: word_of_nat_eq_0_iff)
  then show ?thesis by (auto simp: demo_reply_facts demo_reply_read nth_append)
qed

end
