(* ===== verification/SignalCodes.thy ===== *)
theory SignalCodes
  imports Signal
begin

text \<open>
  The codes of GB/T 20999-2017 that \<open>signalControl/signalControlCom.h\<close> declares beside the frames: what the
  values of a data item mean. No other file uses them yet. Each enumeration is a type with the value of its
  enumerators, which fit the byte that the items have for them and tell the enumerators apart.
\<close>

datatype ErrorType =
    ErrorType_BadValue | ErrorType_WrongLength | ErrorType_OverFlow | ErrorType_ReadOnly | ErrorType_Null
    | ErrorType_Error | ErrorType_ControlFail

primrec ErrorType_code :: "ErrorType \<Rightarrow> nat" where
  "ErrorType_code ErrorType_BadValue = 0x10"
| "ErrorType_code ErrorType_WrongLength = 0x11"
| "ErrorType_code ErrorType_OverFlow = 0x12"
| "ErrorType_code ErrorType_ReadOnly = 0x20"
| "ErrorType_code ErrorType_Null = 0x30"
| "ErrorType_code ErrorType_Error = 0x40"
| "ErrorType_code ErrorType_ControlFail = 40"

datatype LGType =
    LGType_Vehicle | LGType_NonVehicle | LGType_Pedestrian | LGType_Road | LGType_VariableTrafficSign
    | LGType_BusOnly | LGType_TramcarOnly | LGType_Special

primrec LGType_code :: "LGType \<Rightarrow> nat" where
  "LGType_code LGType_Vehicle = 0x01"
| "LGType_code LGType_NonVehicle = 0x02"
| "LGType_code LGType_Pedestrian = 0x03"
| "LGType_code LGType_Road = 0x04"
| "LGType_code LGType_VariableTrafficSign = 0x05"
| "LGType_code LGType_BusOnly = 0x06"
| "LGType_code LGType_TramcarOnly = 0x07"
| "LGType_code LGType_Special = 0x08"

datatype LGState =
    LGState_Off | LGState_Red | LGState_RedFlash | LGState_RedFastFlash | LGState_Green
    | LGState_GreenFlash | LGState_GreenFastFlash | LGState_Yellow | LGState_YellowFlash
    | LGState_YellowFastFlash | LGState_RedYellow

primrec LGState_code :: "LGState \<Rightarrow> nat" where
  "LGState_code LGState_Off = 0x01"
| "LGState_code LGState_Red = 0x10"
| "LGState_code LGState_RedFlash = 0x11"
| "LGState_code LGState_RedFastFlash = 0x12"
| "LGState_code LGState_Green = 0x20"
| "LGState_code LGState_GreenFlash = 0x21"
| "LGState_code LGState_GreenFastFlash = 0x22"
| "LGState_code LGState_Yellow = 0x30"
| "LGState_code LGState_YellowFlash = 0x31"
| "LGState_code LGState_YellowFastFlash = 0x32"
| "LGState_code LGState_RedYellow = 0x40"

datatype DetectorType =
    DetectorType_Coil | DetectorType_Video | DetectorType_Geomagnetic | DetectorType_Microwave
    | DetectorType_Ultrasonic | DetectorType_Infrared

primrec DetectorType_code :: "DetectorType \<Rightarrow> nat" where
  "DetectorType_code DetectorType_Coil = 0x01"
| "DetectorType_code DetectorType_Video = 0x02"
| "DetectorType_code DetectorType_Geomagnetic = 0x03"
| "DetectorType_code DetectorType_Microwave = 0x04"
| "DetectorType_code DetectorType_Ultrasonic = 0x05"
| "DetectorType_code DetectorType_Infrared = 0x06"

datatype CarType =
    CarType_Null | CarType_Min | CarType_Mid | CarType_Max | CarType_Bus | CarType_Tramcar
    | CarType_Special

primrec CarType_code :: "CarType \<Rightarrow> nat" where
  "CarType_code CarType_Null = 0x00"
| "CarType_code CarType_Min = 0x01"
| "CarType_code CarType_Mid = 0x02"
| "CarType_code CarType_Max = 0x03"
| "CarType_code CarType_Bus = 0x04"
| "CarType_code CarType_Tramcar = 0x05"
| "CarType_code CarType_Special = 0x06"

datatype PSSType =
    PSSType_Fix | PSSType_Demand

primrec PSSType_code :: "PSSType \<Rightarrow> nat" where
  "PSSType_code PSSType_Fix = 0x10"
| "PSSType_code PSSType_Demand = 0x20"

datatype PSSState =
    PSSState_NotOfWay | PSSState_OnTheWay | PSSState_Transition

primrec PSSState_code :: "PSSState \<Rightarrow> nat" where
  "PSSState_code PSSState_NotOfWay = 0x10"
| "PSSState_code PSSState_OnTheWay = 0x20"
| "PSSState_code PSSState_Transition = 0x30"

datatype Mode =
    Mode_CC | Mode_CCTimeTableControl | Mode_CCOptimizationControl | Mode_CCCoordinationControl
    | Mode_CCAdaptiveControl | Mode_CCManualControl | Mode_LC | Mode_LCFixCycleControl | Mode_LCVaControl
    | Mode_LCCoordinationControl | Mode_LCAdaptiveControl | Mode_LCManualControl | Mode_SC
    | Mode_SCFlashControl | Mode_SCAllRedControl | Mode_SCAllOffControl

primrec Mode_code :: "Mode \<Rightarrow> nat" where
  "Mode_code Mode_CC = 0x10"
| "Mode_code Mode_CCTimeTableControl = 0x11"
| "Mode_code Mode_CCOptimizationControl = 0x12"
| "Mode_code Mode_CCCoordinationControl = 0x13"
| "Mode_code Mode_CCAdaptiveControl = 0x14"
| "Mode_code Mode_CCManualControl = 0x15"
| "Mode_code Mode_LC = 0x20"
| "Mode_code Mode_LCFixCycleControl = 0x21"
| "Mode_code Mode_LCVaControl = 0x22"
| "Mode_code Mode_LCCoordinationControl = 0x23"
| "Mode_code Mode_LCAdaptiveControl = 0x24"
| "Mode_code Mode_LCManualControl = 0x25"
| "Mode_code Mode_SC = 0x30"
| "Mode_code Mode_SCFlashControl = 0x31"
| "Mode_code Mode_SCAllRedControl = 0x32"
| "Mode_code Mode_SCAllOffControl = 0x33"

datatype AlarmType =
    AlarmType_Light | AlarmType_Detector | AlarmType_Device | AlarmType_Environment

primrec AlarmType_code :: "AlarmType \<Rightarrow> nat" where
  "AlarmType_code AlarmType_Light = 0x10"
| "AlarmType_code AlarmType_Detector = 0x30"
| "AlarmType_code AlarmType_Device = 0x40"
| "AlarmType_code AlarmType_Environment = 0x60"

datatype AlarmValue =
    AlarmValue_Voltage | AlarmValue_VoltageHigh | AlarmValue_VoltageLow | AlarmValue_VoltageOff
    | AlarmValue_Temperature | AlarmValue_TemperatureHigh | AlarmValue_TemperatureLow
    | AlarmValue_Humidity | AlarmValue_HumidityHigh | AlarmValue_HumidityLow | AlarmValue_Smoke
    | AlarmValue_Move | AlarmValue_Water | AlarmValue_Gate | AlarmValue_GateFront | AlarmValue_GateBack
    | AlarmValue_GateLeft | AlarmValue_GateRight

primrec AlarmValue_code :: "AlarmValue \<Rightarrow> nat" where
  "AlarmValue_code AlarmValue_Voltage = 0x10"
| "AlarmValue_code AlarmValue_VoltageHigh = 0x11"
| "AlarmValue_code AlarmValue_VoltageLow = 0x12"
| "AlarmValue_code AlarmValue_VoltageOff = 0x13"
| "AlarmValue_code AlarmValue_Temperature = 0x20"
| "AlarmValue_code AlarmValue_TemperatureHigh = 0x21"
| "AlarmValue_code AlarmValue_TemperatureLow = 0x22"
| "AlarmValue_code AlarmValue_Humidity = 0x30"
| "AlarmValue_code AlarmValue_HumidityHigh = 0x31"
| "AlarmValue_code AlarmValue_HumidityLow = 0x32"
| "AlarmValue_code AlarmValue_Smoke = 0x40"
| "AlarmValue_code AlarmValue_Move = 0x50"
| "AlarmValue_code AlarmValue_Water = 0x60"
| "AlarmValue_code AlarmValue_Gate = 0x70"
| "AlarmValue_code AlarmValue_GateFront = 0x71"
| "AlarmValue_code AlarmValue_GateBack = 0x72"
| "AlarmValue_code AlarmValue_GateLeft = 0x74"
| "AlarmValue_code AlarmValue_GateRight = 0x78"

datatype BugDataType =
    BugDataType_GreenConflict | BugDataType_GreenRedConflict | BugDataType_RedLight
    | BugDataType_YellowLight | BugDataType_GreenLight | BugDataType_Communication | BugDataType_Self
    | BugDataType_Detector | BugDataType_Realy | BugDataType_Memory | BugDataType_Clock
    | BugDataType_MotherBoard | BugDataType_PhaseBoard | BugDataType_DetectorBoard | BugDataType_Config
    | BugDataType_Response

primrec BugDataType_code :: "BugDataType \<Rightarrow> nat" where
  "BugDataType_code BugDataType_GreenConflict = 0x10"
| "BugDataType_code BugDataType_GreenRedConflict = 0x11"
| "BugDataType_code BugDataType_RedLight = 0x20"
| "BugDataType_code BugDataType_YellowLight = 0x21"
| "BugDataType_code BugDataType_GreenLight = 0x22"
| "BugDataType_code BugDataType_Communication = 0x30"
| "BugDataType_code BugDataType_Self = 0x40"
| "BugDataType_code BugDataType_Detector = 0x41"
| "BugDataType_code BugDataType_Realy = 0x42"
| "BugDataType_code BugDataType_Memory = 0x43"
| "BugDataType_code BugDataType_Clock = 0x44"
| "BugDataType_code BugDataType_MotherBoard = 0x45"
| "BugDataType_code BugDataType_PhaseBoard = 0x46"
| "BugDataType_code BugDataType_DetectorBoard = 0x47"
| "BugDataType_code BugDataType_Config = 0x50"
| "BugDataType_code BugDataType_Response = 0x70"

datatype BugAction =
    BugAction_Null | BugAction_SwitchToFlash | BugAction_SwitchToOff | BugAction_SwitchToRed
    | BugAction_SwitchToLocalFixCycle | BugAction_SwitchToLocalCoordination | BugAction_SwitchToLocalVa

primrec BugAction_code :: "BugAction \<Rightarrow> nat" where
  "BugAction_code BugAction_Null = 0x00"
| "BugAction_code BugAction_SwitchToFlash = 0x10"
| "BugAction_code BugAction_SwitchToOff = 0x20"
| "BugAction_code BugAction_SwitchToRed = 0x30"
| "BugAction_code BugAction_SwitchToLocalFixCycle = 0x40"
| "BugAction_code BugAction_SwitchToLocalCoordination = 0x50"
| "BugAction_code BugAction_SwitchToLocalVa = 0x60"

datatype CmdPipe =
    CmdPipe_OrderFlash | CmdPipe_OrderRed | CmdPipe_OrderOn | CmdPipe_OrderOff | CmdPipe_OrderReset
    | CmdPipe_OrderCancel

primrec CmdPipe_code :: "CmdPipe \<Rightarrow> nat" where
  "CmdPipe_code CmdPipe_OrderFlash = 0x01"
| "CmdPipe_code CmdPipe_OrderRed = 0x02"
| "CmdPipe_code CmdPipe_OrderOn = 0x03"
| "CmdPipe_code CmdPipe_OrderOff = 0x04"
| "CmdPipe_code CmdPipe_OrderReset = 0x05"
| "CmdPipe_code CmdPipe_OrderCancel = 0x00"

section \<open>The codes are bytes and distinct\<close>

lemma ErrorType_codes: "ErrorType_code x = ErrorType_code y \<Longrightarrow> x = y" "ErrorType_code x \<le> 255"
  by (cases x; cases y; simp) (cases x; simp)

lemma LGType_codes: "LGType_code x = LGType_code y \<Longrightarrow> x = y" "LGType_code x \<le> 255"
  by (cases x; cases y; simp) (cases x; simp)

lemma LGState_codes: "LGState_code x = LGState_code y \<Longrightarrow> x = y" "LGState_code x \<le> 255"
  by (cases x; cases y; simp) (cases x; simp)

lemma DetectorType_codes: "DetectorType_code x = DetectorType_code y \<Longrightarrow> x = y" "DetectorType_code x \<le> 255"
  by (cases x; cases y; simp) (cases x; simp)

lemma CarType_codes: "CarType_code x = CarType_code y \<Longrightarrow> x = y" "CarType_code x \<le> 255"
  by (cases x; cases y; simp) (cases x; simp)

lemma PSSType_codes: "PSSType_code x = PSSType_code y \<Longrightarrow> x = y" "PSSType_code x \<le> 255"
  by (cases x; cases y; simp) (cases x; simp)

lemma PSSState_codes: "PSSState_code x = PSSState_code y \<Longrightarrow> x = y" "PSSState_code x \<le> 255"
  by (cases x; cases y; simp) (cases x; simp)

lemma Mode_codes: "Mode_code x = Mode_code y \<Longrightarrow> x = y" "Mode_code x \<le> 255"
  by (cases x; cases y; simp) (cases x; simp)

lemma AlarmType_codes: "AlarmType_code x = AlarmType_code y \<Longrightarrow> x = y" "AlarmType_code x \<le> 255"
  by (cases x; cases y; simp) (cases x; simp)

lemma AlarmValue_codes: "AlarmValue_code x = AlarmValue_code y \<Longrightarrow> x = y" "AlarmValue_code x \<le> 255"
  by (cases x; cases y; simp) (cases x; simp)

lemma BugDataType_codes: "BugDataType_code x = BugDataType_code y \<Longrightarrow> x = y" "BugDataType_code x \<le> 255"
  by (cases x; cases y; simp) (cases x; simp)

lemma BugAction_codes: "BugAction_code x = BugAction_code y \<Longrightarrow> x = y" "BugAction_code x \<le> 255"
  by (cases x; cases y; simp) (cases x; simp)

lemma CmdPipe_codes: "CmdPipe_code x = CmdPipe_code y \<Longrightarrow> x = y" "CmdPipe_code x \<le> 255"
  by (cases x; cases y; simp) (cases x; simp)

text \<open>
  The error for a failed control is written \<open>050\<close>, which is octal: its code is \<open>0x28\<close>, not the \<open>0x50\<close>
  that follows the others.
\<close>

lemma ControlFail_code: "ErrorType_code ErrorType_ControlFail = 0x28"
  by simp

end
