(* ===== verification/Transform.thy ===== *)
theory Transform
  imports Messages
begin

text \<open>
  \<open>LaneJamSenseParamsGet\<close> of \<open>nebulalink/transform.cpp\<close>, which fills a message of the roadside units with the
  flow of a lane. The class of the message is generated from the .proto file; the fields that the function
  sets are the record. The other function of the file gives the text \<open>objID\<close> to \<open>to_string\<close> and to a setter of
  a number, for which there is no meaning to model.
\<close>

record LaneJamSenseParams =
  lj_lane_id :: string
  lj_lane_types :: int
  lj_lane_direction :: int
  lj_lane_avg_speed :: real
  lj_lane_veh_num :: int
  lj_lane_queue_len :: int
  lj_lane_count_time :: int
  lj_lane_count_flow :: int
  lj_lane_is_count :: bool
  lj_lane_avspeed :: real
  lj_lane_queuelength :: real

text \<open>The fields are \<open>int32\<close>: the timestamp, a 64-bit number, is cut to that.\<close>

definition LaneJamSenseParamsGet :: "OneFlowData \<Rightarrow> int \<Rightarrow> LaneJamSenseParams" where
  "LaneJamSenseParamsGet obj timestamp =
     \<lparr>lj_lane_id = ofd_laneCode obj,
      lj_lane_types = ofd_flowDirection obj,
      lj_lane_direction = ofd_laneDirection obj,
      lj_lane_avg_speed = ofd_inAverageSpeed obj,
      lj_lane_veh_num = to_i32 (ofd_inCars obj + ofd_outCars obj),
      lj_lane_queue_len = ofd_queueLen obj,
      lj_lane_count_time = to_i32 timestamp,
      lj_lane_count_flow = to_i32 (ofd_inCars obj + ofd_outCars obj),
      lj_lane_is_count = True,
      lj_lane_avspeed = ofd_outAverageSpeed obj,
      lj_lane_queuelength = real_of_int (ofd_queueLen obj)\<rparr>"

text \<open>A timestamp in milliseconds since 1970 never arrives: from the end of January 1970 on it does not fit.\<close>

lemma count_time_lost:
  assumes "2 ^ 31 \<le> timestamp"
  shows "lj_lane_count_time (LaneJamSenseParamsGet obj timestamp) \<noteq> timestamp"
proof -
  have "sint w < 2 ^ 31" for w :: u32
    using sint_lt[of w] by simp
  then have "to_i32 timestamp < 2 ^ 31" by (simp add: to_i32_def)
  then show ?thesis using assms by (simp add: LaneJamSenseParamsGet_def)
qed

lemma count_time_kept:
  "\<bar>timestamp\<bar> < 2 ^ 31 \<Longrightarrow> lj_lane_count_time (LaneJamSenseParamsGet obj timestamp) = timestamp"
  by (simp add: LaneJamSenseParamsGet_def to_i32_id)

end
