(* ===== verification/Spec2Isabelle.thy ===== *)
theory Spec2Isabelle
  imports Stream ProcProps Timer EocProps UriMem Forward Rsu Startup Replay Saving Sqlite AlgParam Files Gather Icmp SignalCodes Transform
begin

text \<open>
  A model of RVDataFusionServer, the roadside data fusion server of an intersection: a C++
  daemon that accepts framed JSON messages from perception units over TCP, checks and decodes
  them, keeps one bounded cache per message type and device, fuses or forwards the caches at a
  fixed rate, and sends the results to the configured upstream servers.

  How the program works. \<open>main.cpp\<close> reads the command line and the configuration database and starts the
  singleton \<open>Data\<close>, the servers and clients of \<open>localBussiness/\<close>, the client of the signal controller, the
  Kafka consumer and the client of the configuration centre. A perception unit connects to a server;
  \<open>onReadable\<close> puts its bytes into the ring buffer of the connection, one thread cuts frames out of it and
  queues them, another takes them off the queue and gives the body to the handler of \<open>common/proc.cpp\<close> for
  the command. The handler decodes the JSON text, checks the time and the device and pushes the message into
  the cache of its unit in \<open>Data\<close>. The input task of the unit forwards, gathers or fuses the caches into an
  output queue; the output task sends from there to the upstream servers, and alarms that could not be sent
  go to a queue of messages to send again.

  How the model is made. An object is a record with the members of the class, a member function takes the
  record and returns it changed. A thread is the function of one round; runs are lists of rounds in any order,
  or smaller steps where a theorem is about interleaving (\<open>Timer\<close>, \<open>Threads\<close>, \<open>Gather\<close>). An \<open>int\<close> is an \<open>int\<close> brought back into 32 bits by
  \<open>to_i32\<close> where the code computes with it, unsigned numbers are words at their width, the index into the block
  of a frame is a word read with \<open>sint\<close>, lengths and positions of buffers that are in memory are naturals, texts and buffers are
  lists of characters and of bytes, floating point numbers are reals. What the code calls and does not
  contain (sockets, SQLite, libcurl, OpenSSL, librdkafka, xpack, the clock, the file system) is an argument
  of the definitions; what a theorem needs of it is a hypothesis with a name, and the witness of the theorem
  gives it a concrete function. Exceptions that nobody catches are \<open>None\<close>, reads and writes outside a block,
  of deleted memory and other undefined behaviour are values of an error type (\<open>Inl\<close>).

  The theories, from the ground up:

  \<^item> \<open>Prelude\<close> has the types and the lemmas on lists and words that all share, \<open>Text\<close> \<open>to_string\<close>, \<open>stoi\<close>,
    \<open>atoi\<close> and \<open>strtol\<close>, \<open>Os\<close> and \<open>Host\<close> \<open>os/os.cpp\<close>: the functions that compute and those that ask the system.
    \<open>Host\<close> also has the class of the logs (\<open>glogHelper/\<close>) and \<open>monitor/PacketLoss.hpp\<close>.
  \<^item> \<open>Crc\<close> is \<open>common/CRC.cpp\<close>: every table-driven routine is the bitwise one, and the checksum of the frames
    detects what it should. \<open>Frame\<close> and \<open>Messages\<close> are \<open>common/common.h\<close>: head, frame, \<open>Pack\<close>, \<open>Unpack\<close> and
    the message classes.
  \<^item> \<open>Queues\<close> (\<open>Queue.hpp\<close>, \<open>Vector.hpp\<close>) and \<open>RingBuf\<close> (\<open>ringbuffer/\<close>) are the containers. Their contracts
    are the locales \<open>fifo\<close>, with the limit of the queue, and \<open>byte_stream\<close>, interpreted on the definitions of the code.
  \<^item> \<open>Handler\<close> is \<open>myTcp/MyTcpHandler.hpp\<close> with the state machine that cuts frames. It is related by a
    simulation to a specification that scans a byte at a time. \<open>Tcp\<close> adds the server and client connections,
    which are kept on the three error codes that the code names, \<open>Stream\<close> the runs: bytes of the kernel, the ring buffer and the two threads, in any order of rounds.
  \<^item> \<open>DataUnits\<close> is the template \<open>data/DataUnit.h\<close>, \<open>Units\<close> its instances of \<open>DataUnit.cpp\<close>, \<open>Fusion\<close> the
    fusion unit and \<open>lib/merge.h\<close>, \<open>Store\<close> the singleton \<open>data/Data.cpp\<close>. In \<open>Threads\<close> the three threads
    of a forwarding unit interleave, in \<open>Gather\<close> the search for a frame and the handlers that store; a round that
    nothing interrupts is the task of \<open>Units\<close> (\<open>round_alone\<close>, \<open>search_alone\<close>).
  \<^item> \<open>Proc\<close> is \<open>common/proc.cpp\<close>, \<open>ProcProps\<close> what its handlers guarantee. A unit inside the data object is
    the locale \<open>data_field\<close>, interpreted on eleven units; \<open>Forward\<close> follows a message to the upstream server.
  \<^item> \<open>Clients\<close> is \<open>common/config.h\<close>, \<open>localBussiness/\<close> and the queue of messages to send again.
  \<^item> \<open>Signal\<close> is \<open>signalControl/\<close>, \<open>Timer\<close> \<open>os/timeTask.hpp\<close>, \<open>Rsu\<close> \<open>nebulalink/Nebulalink.cpp\<close>, \<open>Kafka\<close>
    \<open>kafka/\<close>, and \<open>Sockets\<close> the classes of \<open>net/\<close>, whose three receiving threads share the locale \<open>feeder\<close>.
    \<open>IpAddress\<close> and \<open>Icmp\<close> are the two classes of \<open>net/cpp-icmplib.h\<close>, addresses and the ping: the checksum of
    the code is the one of RFC 1071, whatever the order of the bytes. \<open>SignalCodes\<close> has the codes of the
    controller's data, \<open>Transform\<close> the conversion of a lane's flow.
  \<^item> \<open>ConfigDb\<close> is \<open>db/eoc_configure.cpp\<close>, \<open>Sqlite\<close> the other files of \<open>db/\<close>. \<open>Eoc\<close> is the client of the
    centre (\<open>eocCom/EOCCom.cpp\<close>, \<open>DBCom.cpp\<close>, \<open>eoc/Eoc.cpp\<close>), \<open>EocMsgs\<close> the classes of \<open>EOCJSON.h\<close>,
    \<open>EocProps\<close> what the client guarantees, \<open>Dns\<close> the directory \<open>eocCom/dns/\<close>, its queries read as RFC 1035 has names,
    \<open>UriMem\<close> its URIs as blocks of memory with sizes of 32 bits, which refine the texts of \<open>Dns\<close> below
    \<open>2 ^ 32 - 1\<close> characters, \<open>Files\<close> \<open>fileFun.cpp\<close>,
    \<open>AlgParam\<close> the parameters of the algorithm that the centre sends (\<open>lib/AlgorithmParam.h\<close>).
  \<^item> \<open>Replay\<close> is \<open>getData/\<close>, \<open>Saving\<close> \<open>data/DataUnitUtilty.cpp\<close>, \<open>Startup\<close> \<open>main.cpp\<close>.

  What is shown. On the way in: whatever a peer sends, the accepted frames are those of a scan of the
  stream, in order, with right checksums, and a stream of well-formed frames of less than \<open>2 ^ 31 + 2\<close> bytes is delivered
  completely; a cache
  changes only for a message that passed the checks; a forwarding unit loses messages only where a cache or its
  queue is full; a head that
  gives less than its own length makes the machine write behind its block (\<open>short_head_overflows\<close>), and the index of a longer frame wraps
  (\<open>late_checksum_overflows\<close>). On the way out: an accepted message is sent if the
  network takes it, and lost on a time-out, a sent one is a frame of its bytes, an alarm is sent or queued, and what is queued stays
  until it was sent. For the whole program: limits and caches stay well formed from the start on, and the
  servers and clients are restored. For the parts: round trips of texts, bytes, frames and settings,
  functional descriptions of the gathering and fusing tasks, when the loops over files, tables and timers
  end, and what happens on each error. Several theorems state what the code does although it can hardly be meant:
  \<open>stage_data_lost\<close>, \<open>rsu_frames\<close>, \<open>two_reboots_never\<close>, \<open>heartbeats_unanswered\<close>, \<open>failed_download_blocks\<close>,
  \<open>column_checked\<close>, \<open>item_length_overread\<close>.

  Bounds. The ring buffer has 4 MiB in the program; in the theorems it has any size below \<open>2 ^ 63\<close>, and below
  \<open>2 ^ 31\<close>, what an \<open>int\<close> counts, where no round may fault. A read of a
  stream of \<open>n\<close> bytes is followed by \<open>2 * n + 1\<close> rounds of the cutting thread, two for every byte and one
  more, which is enough; a frame of a roadside unit takes seven rounds. Loops that need not end
  (\<open>check_table_loop\<close>, \<open>read_rows\<close>, \<open>md5_loop\<close>) are partial functions with \<open>None\<close> for not returning, and
  the theorems say when they return; all others are total. Calls whose number the code does not bound (writes, sends again, rounds)
  are given as lists.

  What is not modelled. Logging and printing; the glog library; the generated protocol buffers and
  \<open>PerceptronGet\<close> of \<open>transform.cpp\<close>, which does not compile with the class \<open>ObjMix\<close> of the repository; the merge
  algorithm, whose library is not in the repository and whose call is commented out; the programs under \<open>test/\<close>. Of the modelled classes the destructors that only release
  memory, the mutexes where one guards every operation, and sleeps are left out. Memory that the code never
  frees is counted only where a theorem is about it. What could be added are the steps of the work of the
  fusion unit on a found frame, which is one step, and the floating point numbers at their width.
\<close>

section \<open>From the wire to the caches\<close>

text \<open>
  The packets that a run of a connection processes, each with the clock and the connection of its
  round, and the change they make.
\<close>

lemma run_packets_append:
  "run_packets (xs @ ys) st = (case run_packets xs st of Inl e \<Rightarrow> Inl e | Inr s \<Rightarrow> run_packets ys s)"
  by (induction xs st rule: run_packets.induct) (auto split: sum.split prod.split)

lemma run_packets_changed:
  assumes "data_ok (lc_roadNum (ps_cfg st)) (ps_data st)" and "run_packets xs st = Inr st'"
    and "all_caches (ps_data st') \<noteq> all_caches (ps_data st)"
  shows "\<exists>xs1 env c pkg xs2 s ts code. xs = xs1 @ (env, c, pkg) # xs2 \<and> run_packets xs1 st = Inr s \<and>
    message_header (pe_dec env) (cmd_of (h_cmd (p_head pkg))) (p_body pkg) = Some (ts, code) \<and>
    admissible env ts code s"
  using assms
proof (induction xs arbitrary: st' rule: rev_induct)
  case (snoc x xs)
  obtain env c pkg where x: "x = (env, c, pkg)" by (cases x)
  obtain s where s: "run_packets xs st = Inr s" and last: "run_packets [x] s = Inr st'"
    using snoc.prems(2) by (auto simp: run_packets_append split: sum.splits)
  show ?case
  proof (cases "all_caches (ps_data s) = all_caches (ps_data st)")
    case True
    obtain r c' where d: "dispatch env c pkg s = Inr (r, c', st')"
      using last x by (auto split: sum.splits)
    have "data_ok (lc_roadNum (ps_cfg s)) (ps_data s)"
      using run_packets_ok[OF snoc.prems(1) s] by simp
    from dispatch_good[OF this d] show ?thesis
      using True snoc.prems(3) s x unfolding good_step_def by fastforce
  next
    case False
    then show ?thesis using snoc.IH[OF snoc.prems(1) s] by fastforce
  qed
qed simp

text \<open>
  C4. From the wire to the caches: whatever bytes a peer sends, and however its connection runs, if
  processing the packets that the run took off the queue changed any cache of the initial data object,
  then the bytes hold a frame with a right checksum whose message decodes and was, when its handler
  ran, close enough to the clock and of an acceptable device.
\<close>

theorem wire_to_caches:
  assumes "buff \<noteq> []" and "length buff < 2 ^ 63"
    and "net_run es (net_init buff stream) = Inr (n, evs, ps)"
    and "map (\<lambda>(env, c, pkg). pkg) xs = ps" and "run_packets xs st = Inr st'"
    and "0 \<le> lc_roadNum (ps_cfg st)" and "ps_data st = Data_instance (ps_cfg st) db1 db2"
    and "all_caches (ps_data st') \<noteq> all_caches (ps_data st)"
  shows "\<exists>segs rest junk pkg. stream = cut_into segs @ rest \<and> frames_wf segs \<and> (junk, pkg) \<in> set segs \<and> crc_ok pkg \<and>
    (\<exists>xs1 env c xs2 s ts code. xs = xs1 @ (env, c, pkg) # xs2 \<and> run_packets xs1 st = Inr s \<and>
      message_header (pe_dec env) (cmd_of (h_cmd (p_head pkg))) (p_body pkg) = Some (ts, code) \<and>
      admissible env ts code s)"
proof -
  have "data_ok (lc_roadNum (ps_cfg st)) (ps_data st)" using data_ok_instance[OF assms(6)] assms(7) by simp
  from run_packets_changed[OF this assms(5,8)] obtain xs1 env c pkg xs2 s ts code
    where xs: "xs = xs1 @ (env, c, pkg) # xs2" "run_packets xs1 st = Inr s"
      "message_header (pe_dec env) (cmd_of (h_cmd (p_head pkg))) (p_body pkg) = Some (ts, code)"
      "admissible env ts code s" by blast
  obtain segs rest where cut: "stream = cut_into segs @ rest" "frames_wf segs"
    "accepted evs = filter crc_ok (map snd segs)" "set ps \<subseteq> set (accepted evs)"
    by (rule run_cut[OF assms(1-3)])
  have "pkg \<in> set ps" using assms(4) xs(1) by auto
  then obtain junk where "(junk, pkg) \<in> set segs" "crc_ok pkg" using cut(3,4) by auto
  then show ?thesis using cut(1,2) xs by blast
qed

text \<open>A stop line message with the body \<open>{}\<close>, after two bytes that belong to no frame.\<close>

definition wire_pkg :: Pkg where
  "wire_pkg = fst (snd (Pack (PkgWithoutCRC CmdStopLinePassData [0x7b, 0x7d] 1 7) 17))"

lemma wire_pkg_ok: "Stream.frame_ok wire_pkg" "cmd_of (h_cmd (p_head wire_pkg)) = CmdStopLinePassData"
  "length (frame_bytes wire_pkg) = 17"
proof -
  let ?p = "PkgWithoutCRC CmdStopLinePassData [0x7b, 0x7d] 1 7"
  have "pkg_wf ?p" by (rule PkgWithoutCRC_wf) simp
  moreover have "h_len (p_head ?p) \<le> 17" by (simp add: PkgWithoutCRC_def sizeof_defs)
  ultimately have "crc_ok wire_pkg \<and> pkg_wf wire_pkg \<and> p_head wire_pkg = p_head ?p"
    using Pack_wf[of ?p 17] by (auto simp: wire_pkg_def)
  then show "Stream.frame_ok wire_pkg" "cmd_of (h_cmd (p_head wire_pkg)) = CmdStopLinePassData"
    using demo_cmd[of CmdStopLinePassData]
    by (simp_all add: Stream.frame_ok_def PkgWithoutCRC_def ProcProps.demo_pkg_def cmd_named_def sizeof_defs)
  show "length (frame_bytes wire_pkg) = 17"
    by (simp add: wire_pkg_def length_frame_bytes Pack_def PkgWithoutCRC_def sizeof_defs Let_def)
qed

lemma wire_dispatch: "dispatch demo_penv c wire_pkg st = dispatch demo_penv c (ProcProps.demo_pkg CmdStopLinePassData) st"
  by (simp add: dispatch_def wire_pkg_ok cmd_named_def PkgProcessMap_def PkgProcessFun_CmdStopLinePassData_def recv_store_def demo_dec_def)

theorem wire_to_caches_witness:
  "\<exists>segs rest junk pkg. [1, 2] @ frame_bytes wire_pkg = cut_into segs @ rest \<and> (junk, pkg) \<in> set segs \<and> crc_ok pkg"
proof -
  let ?c = "Client_conn (client_new [])" and ?segs = "[([1, 2], wire_pkg)]" and ?st = "demo_proc [''d1'']"
  have ok: "segments_ok ?segs" by (simp add: segments_ok_def wire_pkg_ok)
  have st: "stream_of ?segs = [1, 2] @ frame_bytes wire_pkg" by (simp add: stream_of_def)
  obtain n evs where "net_run (Readable (length (stream_of ?segs)) # replicate (2 * length (stream_of ?segs) + 1) Tick)
      (net_init demo_buff (stream_of ?segs)) = Inr (n, evs, [])" and q: "q_items (hd_pkgs (nt_h n)) = map snd ?segs"
    by (rule one_read_delivered[OF demo_buff_ok(3) ok]) (simp_all add: st wire_pkg_ok demo_buff_ok)
  then obtain es where "net_run es (net_init demo_buff (stream_of ?segs)) = Inr (n, evs, [])" by blast
  moreover obtain n' where "net_run [Process] (n, evs, []) = Inr (n', evs, [wire_pkg])"
    using q by (auto simp: process_step_def queue_pop_def)
  ultimately have run: "net_run (es @ [Process]) (net_init demo_buff ([1, 2] @ frame_bytes wire_pkg)) = Inr (n', evs, [wire_pkg])"
    unfolding st by (simp add: net_run_append)
  obtain st' where d: "dispatch demo_penv ?c wire_pkg ?st = Inr (0, ?c, st')"
    and ch: "all_caches (ps_data st') \<noteq> all_caches (ps_data ?st)"
    using demo_stop_stored unfolding wire_dispatch by blast
  have p: "run_packets [(demo_penv, ?c, wire_pkg)] ?st = Inr st'" using d by simp
  show ?thesis
    using wire_to_caches[OF demo_buff_ok(1,2) run _ p _ _ ch, of None None]
    by (auto simp: demo_proc_def localConfig_new_def)
qed
end
